(* ===== verification/Room_Prelude.thy ===== *)
theory Room_Prelude
  imports Main "HOL-Library.Word" "HOL-Library.Char_ord" "HOL-Library.List_Lexorder"
begin

section \<open>Prelude: results, effects on failure, text\<close>

text \<open>
  What every component of the room shares: the outcome of a fallible Rust function, the two
  bind operators that stand for the \<open>?\<close> operator, a small calculus for handlers that
  take \<open>&mut self\<close>, and the few operations of Rust strings the sources use.

  A Rust \<open>String\<close> is its UTF-8 bytes, so it is an Isabelle \<open>string\<close> (a list of byte
  characters): \<open>length\<close> is \<open>str::len\<close>, literals are the source's literals, and the
  order of \<^theory_text>\<open>HOL-Library.List_Lexorder\<close> is \<open>str\<close>'s byte order.
  \<open>chars\<close> reads the Unicode scalar values where the source does.
\<close>

named_theorems atomic \<open>rules that show that a failing handler leaves its state alone\<close>
named_theorems ensures_intro \<open>weakest precondition rules of the handler calculus\<close>

type_synonym u64 = "64 word"
type_synonym u8 = "8 word"

subsection \<open>Outcomes\<close>

text \<open>
  A fallible function returns \<open>Ok\<close> or \<open>Err\<close>; \<open>Panic\<close> is the third way a Rust call can
  end (\<open>expect\<close>, \<open>unreachable!\<close>, an index out of range), kept as a value so that its
  absence is a theorem.
\<close>

datatype ('e, 'a) result = Ok 'a | Err 'e | Panic string

fun tryR :: "('e, 'a) result \<Rightarrow> ('a \<Rightarrow> ('e, 'b) result) \<Rightarrow> ('e, 'b) result" where
  "tryR (Ok a) k = k a"
| "tryR (Err e) k = Err e"
| "tryR (Panic m) k = Panic m"

fun is_ok :: "('e, 'a) result \<Rightarrow> bool" where
  "is_ok (Ok a) = True"
| "is_ok (Err e) = False"
| "is_ok (Panic m) = False"

fun is_panic :: "('e, 'a) result \<Rightarrow> bool" where
  "is_panic (Panic m) = True"
| "is_panic (Ok a) = False"
| "is_panic (Err e) = False"

text \<open>\<open>map_err\<close>, \<open>ok_or\<close> and \<open>expect\<close> of the standard library.\<close>

fun map_err :: "('e \<Rightarrow> 'f) \<Rightarrow> ('e, 'a) result \<Rightarrow> ('f, 'a) result" where
  "map_err f (Ok a) = Ok a"
| "map_err f (Err e) = Err (f e)"
| "map_err f (Panic m) = Panic m"

fun ok_or :: "'a option \<Rightarrow> 'e \<Rightarrow> ('e, 'a) result" where
  "ok_or (Some a) e = Ok a"
| "ok_or None e = Err e"

fun expect :: "'a option \<Rightarrow> string \<Rightarrow> ('e, 'a) result" where
  "expect (Some a) m = Ok a"
| "expect None m = Panic m"

text \<open>\<open>iter.map(f).collect::<Result<Vec<_>, _>>()\<close>: left to right, stopping at the first failure.\<close>

fun collect_results :: "('a \<Rightarrow> ('e, 'b) result) \<Rightarrow> 'a list \<Rightarrow> ('e, 'b list) result" where
  "collect_results f [] = Ok []"
| "collect_results f (x # xs) = tryR (f x) (\<lambda>y. tryR (collect_results f xs) (\<lambda>ys. Ok (y # ys)))"

text \<open>A \<open>for\<close> loop whose body may return an error.\<close>

fun for_each :: "('a \<Rightarrow> ('e, unit) result) \<Rightarrow> 'a list \<Rightarrow> ('e, unit) result" where
  "for_each f [] = Ok ()"
| "for_each f (x # xs) = tryR (f x) (\<lambda>_. for_each f xs)"

lemma tryR_eq_Ok [simp]: "tryR m k = Ok b \<longleftrightarrow> (\<exists>a. m = Ok a \<and> k a = Ok b)"
  by (cases m) auto

lemma tryR_eq_Panic [simp]:
  "tryR m k = Panic x \<longleftrightarrow> m = Panic x \<or> (\<exists>a. m = Ok a \<and> k a = Panic x)"
  by (cases m) auto

lemma map_err_eq_Ok [simp]: "map_err f m = Ok a \<longleftrightarrow> m = Ok a"
  by (cases m) auto

lemma ok_or_eq_Ok [simp]: "ok_or x e = Ok a \<longleftrightarrow> x = Some a"
  by (cases x) auto

lemma ok_or_not_Panic [simp]: "ok_or x e \<noteq> Panic m"
  by (cases x) auto

lemma expect_eq_Ok [simp]: "expect x m = Ok a \<longleftrightarrow> x = Some a"
  by (cases x) auto

lemma is_ok_iff: "is_ok m \<longleftrightarrow> (\<exists>a. m = Ok a)"
  by (cases m) auto

lemma is_ok_tryR [simp]: "is_ok (tryR m k) \<longleftrightarrow> (\<exists>a. m = Ok a \<and> is_ok (k a))"
  by (cases m) auto

lemma is_panic_tryR [simp]:
  "is_panic (tryR m k) \<longleftrightarrow> is_panic m \<or> (\<exists>a. m = Ok a \<and> is_panic (k a))"
  by (cases m) auto

lemma is_panic_map_err [simp]: "is_panic (map_err f m) = is_panic m"
  by (cases m) auto

lemma is_panic_ok_or [simp]: "\<not> is_panic (ok_or x e)"
  by (cases x) auto

lemma is_panic_expect [simp]: "is_panic (expect x m) \<longleftrightarrow> x = None"
  by (cases x) auto

lemma is_panic_collect:
  "(\<And>x. x \<in> set xs \<Longrightarrow> \<not> is_panic (f x)) \<Longrightarrow> \<not> is_panic (collect_results f xs)"
  by (induction xs) auto

lemma for_each_Ok: "for_each f xs = Ok u \<longleftrightarrow> (\<forall>x \<in> set xs. f x = Ok ())"
  by (induction xs) auto

lemma is_panic_for_each: "(\<And>x. x \<in> set xs \<Longrightarrow> \<not> is_panic (f x)) \<Longrightarrow> \<not> is_panic (for_each f xs)"
  by (induction xs) auto

lemma collect_results_Ok:
  "collect_results f xs = Ok ys \<longleftrightarrow> list_all2 (\<lambda>x y. f x = Ok y) xs ys"
  by (induction xs arbitrary: ys) (auto simp: list_all2_Cons1)

subsection \<open>Handlers: a fallible function over \<open>&mut self\<close>\<close>

text \<open>
  A handler returns its outcome together with the state it leaves behind, on every path: a
  mutation made before a later failure stays visible. \<open>tryS m s k\<close> is \<open>m?\<close> inside such a
  handler whose state is \<open>s\<close> at that point.
\<close>

type_synonym ('s, 'e, 'a) outcome = "('e, 'a) result \<times> 's"

fun tryS :: "('e, 'a) result \<Rightarrow> 's \<Rightarrow> ('a \<Rightarrow> ('s, 'e, 'b) outcome) \<Rightarrow> ('s, 'e, 'b) outcome" where
  "tryS (Ok a) s k = k a"
| "tryS (Err e) s k = (Err e, s)"
| "tryS (Panic m) s k = (Panic m, s)"

text \<open>\<open>bindS p k\<close> is \<open>p?\<close> for a call \<open>p\<close> that may itself have changed the state.\<close>

fun bindS :: "('s, 'e, 'a) outcome \<Rightarrow> ('a \<Rightarrow> 's \<Rightarrow> ('s, 'e, 'b) outcome) \<Rightarrow> ('s, 'e, 'b) outcome" where
  "bindS (Ok a, s) k = k a s"
| "bindS (Err e, s) k = (Err e, s)"
| "bindS (Panic m, s) k = (Panic m, s)"

definition ensures ::
  "('s, 'e, 'a) outcome \<Rightarrow> ('a \<Rightarrow> 's \<Rightarrow> bool) \<Rightarrow> ('s \<Rightarrow> bool) \<Rightarrow> ('s \<Rightarrow> bool) \<Rightarrow> bool" where
  "ensures p Q E P \<longleftrightarrow>
     (case fst p of Ok a \<Rightarrow> Q a (snd p) | Err e \<Rightarrow> E (snd p) | Panic m \<Rightarrow> P (snd p))"

lemma ensures_simps [simp]:
  "ensures (Ok a, t) Q E P = Q a t"
  "ensures (Err e, t) Q E P = E t"
  "ensures (Panic m, t) Q E P = P t"
  by (simp_all add: ensures_def)

lemma ensures_Ok: "Q a t \<Longrightarrow> ensures (Ok a, t) Q E P"
  and ensures_Err: "E t \<Longrightarrow> ensures (Err e, t) Q E P"
  and ensures_Panic: "P t \<Longrightarrow> ensures (Panic m, t) Q E P"
  by simp_all

lemma ensures_tryS:
  assumes "\<And>a. m = Ok a \<Longrightarrow> ensures (k a) Q E P"
    and "\<And>e. m = Err e \<Longrightarrow> E s" and "\<And>x. m = Panic x \<Longrightarrow> P s"
  shows "ensures (tryS m s k) Q E P"
  using assms by (cases m) auto

lemma ensures_if:
  "(b \<Longrightarrow> ensures p Q E P) \<Longrightarrow> (\<not> b \<Longrightarrow> ensures q Q E P) \<Longrightarrow> ensures (if b then p else q) Q E P"
  by simp

lemma ensures_let: "ensures (f x) Q E P \<Longrightarrow> ensures (let y = x in f y) Q E P"
  by simp

lemma ensures_option:
  "(x = None \<Longrightarrow> ensures p Q E P) \<Longrightarrow> (\<And>a. x = Some a \<Longrightarrow> ensures (f a) Q E P) \<Longrightarrow>
   ensures (case x of None \<Rightarrow> p | Some a \<Rightarrow> f a) Q E P"
  by (cases x) auto

lemmas ensures_rules = ensures_tryS ensures_if ensures_let ensures_option
  ensures_Ok ensures_Err ensures_Panic
declare ensures_rules [ensures_intro]

lemma ensures_mono:
  "ensures p Q E P \<Longrightarrow> (\<And>a t. Q a t \<Longrightarrow> Q' a t) \<Longrightarrow> (\<And>t. E t \<Longrightarrow> E' t) \<Longrightarrow>
   (\<And>t. P t \<Longrightarrow> P' t) \<Longrightarrow> ensures p Q' E' P'"
  by (cases p; cases "fst p") (auto simp: ensures_def)

lemma ensures_OkD: "ensures p Q E P \<Longrightarrow> p = (Ok a, t) \<Longrightarrow> Q a t"
  and ensures_ErrD: "ensures p Q E P \<Longrightarrow> p = (Err e, t) \<Longrightarrow> E t"
  and ensures_PanicD: "ensures p Q E P \<Longrightarrow> p = (Panic m, t) \<Longrightarrow> P t"
  by simp_all

text \<open>A handler is atomic at \<open>s\<close> when every path that does not end in \<open>Ok\<close> leaves \<open>s\<close> behind.\<close>

definition atomic_at :: "'s \<Rightarrow> ('s, 'e, 'a) outcome \<Rightarrow> bool" where
  "atomic_at s p \<longleftrightarrow> (\<not> is_ok (fst p) \<longrightarrow> snd p = s)"

lemma atomic_Ok [atomic]: "atomic_at s (Ok a, t)"
  and atomic_Err [atomic]: "atomic_at s (Err e, s)"
  and atomic_Panic [atomic]: "atomic_at s (Panic m, s)"
  by (simp_all add: atomic_at_def)

lemma atomic_tryS [atomic]: "(\<And>a. m = Ok a \<Longrightarrow> atomic_at s (k a)) \<Longrightarrow> atomic_at s (tryS m s k)"
  by (cases m) (auto simp: atomic_at_def)

lemma atomic_if [atomic]:
  "(b \<Longrightarrow> atomic_at s p) \<Longrightarrow> (\<not> b \<Longrightarrow> atomic_at s q) \<Longrightarrow> atomic_at s (if b then p else q)"
  by simp

lemma atomic_let [atomic]: "atomic_at s (f x) \<Longrightarrow> atomic_at s (let y = x in f y)"
  by simp

lemma atomic_option [atomic]:
  "atomic_at s p \<Longrightarrow> (\<And>a. x = Some a \<Longrightarrow> atomic_at s (f a)) \<Longrightarrow>
   atomic_at s (case x of None \<Rightarrow> p | Some a \<Rightarrow> f a)"
  by (cases x) auto

lemma atomic_atD: "atomic_at s p \<Longrightarrow> p = (r, t) \<Longrightarrow> \<not> is_ok r \<Longrightarrow> t = s"
  by (simp add: atomic_at_def)

lemma tryS_eq_Ok [simp]: "tryS m s k = (Ok b, t) \<longleftrightarrow> (\<exists>a. m = Ok a \<and> k a = (Ok b, t))"
  by (cases m) auto

lemma bindS_eq_Ok [simp]:
  "bindS p k = (Ok b, t) \<longleftrightarrow> (\<exists>a s. p = (Ok a, s) \<and> k a s = (Ok b, t))"
  by (cases p; cases "fst p") auto

text \<open>Inversion of a handler that answered \<open>Ok\<close>, one guard at a time.\<close>

lemma tryS_OkE: "tryS m s k = (Ok b, t) \<Longrightarrow> (\<And>a. m = Ok a \<Longrightarrow> k a = (Ok b, t) \<Longrightarrow> R) \<Longrightarrow> R"
  by auto

lemma guard_OkE: "(if c then (Err e, s) else q) = (Ok b, t) \<Longrightarrow> (\<not> c \<Longrightarrow> q = (Ok b, t) \<Longrightarrow> R) \<Longrightarrow> R"
  by (auto split: if_splits)

lemma if_OkE:
  "(if c then p else q) = x \<Longrightarrow> (c \<Longrightarrow> p = x \<Longrightarrow> R) \<Longrightarrow> (\<not> c \<Longrightarrow> q = x \<Longrightarrow> R) \<Longrightarrow> R"
  by (auto split: if_splits)

lemma done_OkE: "(Ok a, s) = (Ok b, t) \<Longrightarrow> (a = b \<Longrightarrow> s = t \<Longrightarrow> R) \<Longrightarrow> R"
  by auto

lemmas handler_OkE = tryS_OkE guard_OkE done_OkE

lemma ensures_bindS:
  assumes "ensures p (\<lambda>a s. ensures (k a s) Q E P) E P"
  shows "ensures (bindS p k) Q E P"
  using assms by (cases p; cases "fst p") auto

declare ensures_bindS [ensures_intro]

subsection \<open>Options\<close>

abbreviation is_some :: "'a option \<Rightarrow> bool" where
  "is_some x \<equiv> x \<noteq> None"

text \<open>\<open>Option::filter\<close> and \<open>Option::or\<close>.\<close>

fun opt_filter :: "('a \<Rightarrow> bool) \<Rightarrow> 'a option \<Rightarrow> 'a option" where
  "opt_filter p None = None"
| "opt_filter p (Some a) = (if p a then Some a else None)"

fun opt_or :: "'a option \<Rightarrow> 'a option \<Rightarrow> 'a option" where
  "opt_or (Some a) y = Some a"
| "opt_or None y = y"

lemma opt_filter_eq_Some [simp]: "opt_filter p x = Some a \<longleftrightarrow> x = Some a \<and> p a"
  by (cases x) auto

subsection \<open>Ordered maps and indexed vectors\<close>

text \<open>
  A \<open>BTreeMap\<close> whose iteration order matters is the list of its entries in key order;
  \<open>map_of\<close> looks a key up.
\<close>

fun btree_insert :: "'k::linorder \<Rightarrow> 'v \<Rightarrow> ('k \<times> 'v) list \<Rightarrow> ('k \<times> 'v) list" where
  "btree_insert k v [] = [(k, v)]"
| "btree_insert k v ((k', v') # m) =
     (if k < k' then (k, v) # (k', v') # m
      else if k = k' then (k, v) # m
      else (k', v') # btree_insert k v m)"

lemma map_of_btree_insert [simp]: "map_of (btree_insert k v m) = (map_of m)(k \<mapsto> v)"
  by (induction k v m rule: btree_insert.induct) (auto simp: fun_eq_iff)

lemma set_btree_insert_keys [simp]: "fst ` set (btree_insert k v m) = insert k (fst ` set m)"
  by (induction k v m rule: btree_insert.induct) auto

lemma sorted_btree_insert:
  "sorted_wrt (<) (map fst m) \<Longrightarrow> sorted_wrt (<) (map fst (btree_insert k v m))"
proof (induction k v m rule: btree_insert.induct)
  case (2 k v k' v' m)
  then show ?case
    using set_btree_insert_keys [of k v m] by (auto simp del: set_btree_insert_keys)
qed simp

text \<open>
  \<open>Vec::get\<close>, and the pair of a vector with a \<open>HashMap\<close> from keys to positions that the
  reducer uses three times: look up through the index, write back through the index.
\<close>

definition vec_get :: "'a list \<Rightarrow> nat \<Rightarrow> 'a option" where
  "vec_get xs i = (if i < length xs then Some (xs ! i) else None)"

definition index_find :: "('k \<Rightarrow> nat option) \<Rightarrow> 'a list \<Rightarrow> 'k \<Rightarrow> 'a option" where
  "index_find idx xs k = Option.bind (idx k) (vec_get xs)"

definition index_store :: "('k \<Rightarrow> nat option) \<Rightarrow> 'a list \<Rightarrow> 'k \<Rightarrow> 'a \<Rightarrow> 'a list" where
  "index_store idx xs k v = (case idx k of None \<Rightarrow> xs | Some i \<Rightarrow> xs[i := v])"

text \<open>\<open>iter_mut().find(p)\<close> followed by a write to the found element.\<close>

fun update_first :: "('a \<Rightarrow> bool) \<Rightarrow> ('a \<Rightarrow> 'a) \<Rightarrow> 'a list \<Rightarrow> 'a list" where
  "update_first p f [] = []"
| "update_first p f (x # xs) = (if p x then f x # xs else x # update_first p f xs)"

subsection \<open>Rust text: bytes and Unicode scalar values\<close>

definition bytes_of :: "string \<Rightarrow> nat list" where
  "bytes_of s = map of_char s"

text \<open>The scalar values of a UTF-8 string, read as \<open>str::chars\<close> does.\<close>

definition utf8_width :: "nat \<Rightarrow> nat" where
  "utf8_width b = (if b < 128 then 1 else if b < 224 then 2 else if b < 240 then 3 else 4)"

definition utf8_lead :: "nat \<Rightarrow> nat" where
  "utf8_lead b = (if b < 128 then b else if b < 224 then b mod 32 else if b < 240 then b mod 16
                  else b mod 8)"

fun utf8_decode :: "nat list \<Rightarrow> nat list" where
  "utf8_decode [] = []"
| "utf8_decode (b # bs) =
     (let w = utf8_width b - 1
      in foldl (\<lambda>acc c. acc * 64 + c mod 64) (utf8_lead b) (take w bs) # utf8_decode (drop w bs))"

definition chars :: "string \<Rightarrow> nat list" where
  "chars s = utf8_decode (bytes_of s)"

text \<open>\<open>std::str::from_utf8\<close>: well-formed sequences of the Unicode standard's table 3-7.\<close>

definition cont_byte :: "nat \<Rightarrow> bool" where
  "cont_byte b \<longleftrightarrow> 128 \<le> b \<and> b < 192"

fun utf8_valid :: "nat list \<Rightarrow> bool" where
  "utf8_valid [] = True"
| "utf8_valid (b # bs) =
     (if b < 128 then utf8_valid bs
      else if 194 \<le> b \<and> b < 224 then
        (case bs of c # r \<Rightarrow> cont_byte c \<and> utf8_valid r | [] \<Rightarrow> False)
      else if 224 \<le> b \<and> b < 240 then
        (case bs of c # d # r \<Rightarrow>
             cont_byte c \<and> cont_byte d \<and> (b = 224 \<longrightarrow> 160 \<le> c) \<and> (b = 237 \<longrightarrow> c < 160) \<and> utf8_valid r
         | _ \<Rightarrow> False)
      else if 240 \<le> b \<and> b < 245 then
        (case bs of c # d # e # r \<Rightarrow>
             cont_byte c \<and> cont_byte d \<and> cont_byte e \<and> (b = 240 \<longrightarrow> 144 \<le> c) \<and> (b = 244 \<longrightarrow> c < 144)
             \<and> utf8_valid r
         | _ \<Rightarrow> False)
      else False)"

lemma length_utf8_decode_le: "length (utf8_decode bs) \<le> length bs"
  by (induction bs rule: utf8_decode.induct) (auto simp: Let_def)

lemma length_chars_le: "length (chars s) \<le> length s"
  using length_utf8_decode_le [of "bytes_of s"] by (simp add: chars_def bytes_of_def)

lemma utf8_decode_ascii: "(\<And>b. b \<in> set bs \<Longrightarrow> b < 128) \<Longrightarrow> utf8_decode bs = bs"
  by (induction bs) (auto simp: utf8_width_def utf8_lead_def)

lemma chars_ascii: "(\<And>c. c \<in> set s \<Longrightarrow> (of_char c :: nat) < 128) \<Longrightarrow> chars s = map of_char s"
  unfolding chars_def bytes_of_def by (rule utf8_decode_ascii) auto

text \<open>\<open>char::is_control\<close> (category Cc) and \<open>char::is_whitespace\<close> (White\_Space).\<close>

definition is_control :: "nat \<Rightarrow> bool" where
  "is_control c \<longleftrightarrow> c < 32 \<or> 127 \<le> c \<and> c < 160"

definition is_whitespace :: "nat \<Rightarrow> bool" where
  "is_whitespace c \<longleftrightarrow> 9 \<le> c \<and> c \<le> 13 \<or> c \<in> {32, 133, 160, 5760} \<or> 8192 \<le> c \<and> c \<le> 8202
     \<or> c \<in> {8232, 8233, 8239, 8287, 12288}"

text \<open>Decimal rendering of an unsigned number, as \<open>format!("{n}")\<close> prints it.\<close>

definition digit_char :: "nat \<Rightarrow> char" where
  "digit_char d = char_of (48 + d)"

fun show_nat :: "nat \<Rightarrow> string" where
  "show_nat n = (if n < 10 then [digit_char n] else show_nat (n div 10) @ [digit_char (n mod 10)])"

declare show_nat.simps [simp del]

definition show_int :: "int \<Rightarrow> string" where
  "show_int i = (if i < 0 then ''-'' @ show_nat (nat (- i)) else show_nat (nat i))"

lemma length_show_nat_le: "n < 10 ^ k \<Longrightarrow> 0 < k \<Longrightarrow> length (show_nat n) \<le> k"
proof (induction n arbitrary: k rule: show_nat.induct)
  case (1 n)
  show ?case
  proof (cases "n < 10")
    case True
    with "1.prems" show ?thesis by (subst show_nat.simps) auto
  next
    case False
    with "1.prems" have "1 < k" by (cases k; cases "k - 1") auto
    then obtain j where j: "k = Suc j" "0 < j" by (cases k) auto
    with "1.prems" have "n div 10 < 10 ^ j" by (simp add: less_mult_imp_div_less mult.commute)
    with j False have "length (show_nat (n div 10)) \<le> j" by (intro "1.IH") auto
    with j False show ?thesis by (subst show_nat.simps) auto
  qed
qed

lemma show_nat_nonempty [simp]: "show_nat n \<noteq> []"
  by (subst show_nat.simps) auto

end
