(* ===== verification/Room_Json.thy ===== *)
theory Room_Json
  imports Room_Prelude Complex_Main
begin

section \<open>JSON values as the sources read them\<close>

text \<open>
  The room reads \<open>serde_json::Value\<close> through a handful of documented accessors, which are
  transcribed here. Parsing text into a value and printing one are the library's and stay
  parameters of the definitions that use them. An object is its entries in key order with
  distinct keys (serde\_json's \<open>Map\<close> is a \<open>BTreeMap\<close> in this build), so equality of values
  is equality of terms. A number is an unsigned, a negative signed or a floating point one;
  a finite \<open>f64\<close> is the rational it denotes.
\<close>

datatype json_number = PosInt u64 | NegInt int | Float rat

datatype json =
    JNull
  | JBool bool
  | JNumber json_number
  | JString string
  | JArray "json list"
  | JObject "(string \<times> json) list"

type_synonym json_map = "(string \<times> json) list"

fun as_object :: "json \<Rightarrow> json_map option" where
  "as_object (JObject m) = Some m"
| "as_object _ = None"

fun as_array :: "json \<Rightarrow> json list option" where
  "as_array (JArray xs) = Some xs"
| "as_array _ = None"

fun as_str :: "json \<Rightarrow> string option" where
  "as_str (JString s) = Some s"
| "as_str _ = None"

fun as_bool :: "json \<Rightarrow> bool option" where
  "as_bool (JBool b) = Some b"
| "as_bool _ = None"

fun as_u64 :: "json \<Rightarrow> u64 option" where
  "as_u64 (JNumber (PosInt n)) = Some n"
| "as_u64 _ = None"

text \<open>\<open>as_i64\<close>: an unsigned number only when it fits.\<close>

fun number_as_i64 :: "json_number \<Rightarrow> int option" where
  "number_as_i64 (PosInt n) = (if uint n < 2 ^ 63 then Some (uint n) else None)"
| "number_as_i64 (NegInt i) = Some i"
| "number_as_i64 (Float r) = None"

fun number_as_u64 :: "json_number \<Rightarrow> u64 option" where
  "number_as_u64 (PosInt n) = Some n"
| "number_as_u64 _ = None"

definition get :: "json_map \<Rightarrow> string \<Rightarrow> json option" where
  "get m k = map_of m k"

definition contains_key :: "json_map \<Rightarrow> string \<Rightarrow> bool" where
  "contains_key m k \<longleftrightarrow> get m k \<noteq> None"

definition keys :: "json_map \<Rightarrow> string list" where
  "keys m = map fst m"

text \<open>\<open>Value::get\<close> with a string index: \<open>None\<close> on anything that is not an object.\<close>

definition value_get :: "json \<Rightarrow> string \<Rightarrow> json option" where
  "value_get v k = Option.bind (as_object v) (\<lambda>m. get m k)"

definition get_str :: "json_map \<Rightarrow> string \<Rightarrow> string option" where
  "get_str m k = Option.bind (get m k) as_str"

definition get_u64 :: "json_map \<Rightarrow> string \<Rightarrow> u64 option" where
  "get_u64 m k = Option.bind (get m k) as_u64"

text \<open>
  The entries a derived \<open>Deserialize\<close> with \<open>deny_unknown_fields\<close> hands to a struct with the
  fields \<open>fs\<close>: an object may only have these keys (a missing one is \<open>None\<close>), and serde also
  accepts an array of exactly one element per field, in declaration order.
\<close>

definition struct_fields :: "string list \<Rightarrow> json \<Rightarrow> json option list option" where
  "struct_fields fs v =
     (case v of
        JObject m \<Rightarrow> if list_all (\<lambda>k. k \<in> set fs) (keys m) then Some (map (get m) fs) else None
      | JArray xs \<Rightarrow> if length xs = length fs then Some (map Some xs) else None
      | _ \<Rightarrow> None)"

text \<open>\<open>9_007_199_254_740_991\<close>, the largest integer a JavaScript number holds exactly.\<close>

definition max_safe_integer :: u64 where
  "max_safe_integer = 9007199254740991"

lemma as_object_eq_Some [simp]: "as_object v = Some m \<longleftrightarrow> v = JObject m"
  by (cases v) auto

lemma as_array_eq_Some [simp]: "as_array v = Some xs \<longleftrightarrow> v = JArray xs"
  by (cases v) auto

lemma as_str_eq_Some [simp]: "as_str v = Some s \<longleftrightarrow> v = JString s"
  by (cases v) auto

lemma as_bool_eq_Some [simp]: "as_bool v = Some b \<longleftrightarrow> v = JBool b"
  by (cases v) auto

lemma as_u64_eq_Some [simp]: "as_u64 v = Some n \<longleftrightarrow> v = JNumber (PosInt n)"
  by (cases v rule: as_u64.cases) auto

lemma get_str_eq_Some: "get_str m k = Some s \<longleftrightarrow> get m k = Some (JString s)"
  by (auto simp: get_str_def bind_eq_Some_conv)

lemma get_u64_eq_Some: "get_u64 m k = Some n \<longleftrightarrow> get m k = Some (JNumber (PosInt n))"
  by (auto simp: get_u64_def bind_eq_Some_conv)

lemma get_Nil [simp]: "get [] k = None"
  and get_Cons [simp]: "get ((k', v) # m) k = (if k = k' then Some v else get m k)"
  by (simp_all add: get_def)

lemma get_None_iff: "get m k = None \<longleftrightarrow> k \<notin> set (keys m)"
  by (simp add: get_def keys_def map_of_eq_None_iff image_image)

lemma contains_key_iff: "contains_key m k \<longleftrightarrow> k \<in> set (keys m)"
  by (simp add: contains_key_def get_None_iff)

text \<open>Canonical values: every object has its keys in strictly ascending order.\<close>

fun canonical :: "json \<Rightarrow> bool" where
  "canonical (JArray xs) = list_all canonical xs"
| "canonical (JObject m) = (sorted_wrt (<) (map fst m) \<and> list_all (\<lambda>e. canonical (snd e)) m)"
| "canonical _ = True"

end
