(* ===== verification/Room_Sequence.thy ===== *)
theory Room_Sequence
  imports Room_Prelude
begin

section \<open>Decimal sequences\<close>

text \<open>
  \<open>sequence.rs\<close>: event and stream cursors are decimal numerals of any length, compared and
  incremented as text. The section shows that this text is a faithful copy of the natural
  numbers, and states what the rest of the room needs of it as the locale \<open>counter_format\<close>.
  The error type is the crate's \<open>ProtocolError\<close> (\<open>event.rs\<close>).
\<close>

datatype protocol_error =
    ConflictingEventId string
  | EventGap (gap_expected: string) (gap_received: string)
  | InvalidEvent string
  | InvalidSequence string
  | SessionMismatch (sm_expected: string) (sm_received: string)
  | StreamGap (sg_stream_id: string) (sg_expected: string) (sg_received: string)

fun display_protocol_error :: "protocol_error \<Rightarrow> string" where
  "display_protocol_error (ConflictingEventId event_id) =
     ''conflicting duplicate room event id: '' @ event_id"
| "display_protocol_error (EventGap expected received) =
     ''event gap: expected '' @ expected @ '', got '' @ received"
| "display_protocol_error (InvalidEvent message) = ''invalid room event: '' @ message"
| "display_protocol_error (InvalidSequence sequence) = ''invalid decimal sequence: '' @ sequence"
| "display_protocol_error (SessionMismatch expected received) =
     ''session mismatch: expected '' @ expected @ '', got '' @ received"
| "display_protocol_error (StreamGap stream_id expected received) =
     ''stream '' @ stream_id @ '' gap: expected '' @ expected @ '', got '' @ received"

datatype ordering = Less | Equal | Greater

definition cmp :: "'a::linorder \<Rightarrow> 'a \<Rightarrow> ordering" where
  "cmp a b = (if a < b then Less else if a = b then Equal else Greater)"

fun then_with :: "ordering \<Rightarrow> ordering \<Rightarrow> ordering" where
  "then_with Equal o2 = o2"
| "then_with o1 o2 = o1"

definition is_ascii_digit :: "char \<Rightarrow> bool" where
  "is_ascii_digit c \<longleftrightarrow> CHR ''0'' \<le> c \<and> c \<le> CHR ''9''"

definition validate_decimal :: "string \<Rightarrow> (protocol_error, unit) result" where
  "validate_decimal value =
     (if value = [] \<or> \<not> list_all is_ascii_digit value
         \<or> (1 < length value \<and> hd value = CHR ''0'')
      then Err (InvalidSequence value) else Ok ())"

definition decimal_cmp :: "string \<Rightarrow> string \<Rightarrow> (protocol_error, ordering) result" where
  "decimal_cmp left right =
     tryR (validate_decimal left) (\<lambda>_.
     tryR (validate_decimal right) (\<lambda>_.
     Ok (then_with (cmp (length left) (length right)) (cmp left right))))"

text \<open>
  The carry loop of \<open>increment_decimal\<close>, on the digits from the last one: the flag says
  whether the loop returned (it met a digit below nine) or fell through.
\<close>

fun bump_rev :: "string \<Rightarrow> string \<times> bool" where
  "bump_rev [] = ([], False)"
| "bump_rev (d # ds) =
     (if d = CHR ''9'' then (CHR ''0'' # fst (bump_rev ds), snd (bump_rev ds))
      else (char_of (of_char d + 1 :: nat) # ds, True))"

definition increment_decimal :: "string \<Rightarrow> string" where
  "increment_decimal value =
     (if snd (bump_rev (rev value)) then rev (fst (bump_rev (rev value)))
      else CHR ''1'' # rev (fst (bump_rev (rev value))))"

subsection \<open>The number a sequence denotes\<close>

definition digit_val :: "char \<Rightarrow> nat" where
  "digit_val c = of_char c - 48"

fun dec_value :: "string \<Rightarrow> nat" where
  "dec_value [] = 0"
| "dec_value (c # s) = digit_val c * 10 ^ length s + dec_value s"

definition valid_decimal :: "string \<Rightarrow> bool" where
  "valid_decimal s \<longleftrightarrow> validate_decimal s = Ok ()"

lemma valid_decimal_alt:
  "valid_decimal s \<longleftrightarrow>
     s \<noteq> [] \<and> list_all is_ascii_digit s \<and> (length s \<le> 1 \<or> hd s \<noteq> CHR ''0'')"
  by (auto simp: valid_decimal_def validate_decimal_def)

lemma is_ascii_digit_alt: "is_ascii_digit c \<longleftrightarrow> 48 \<le> (of_char c :: nat) \<and> (of_char c :: nat) \<le> 57"
  by (simp add: is_ascii_digit_def less_eq_char_def)

lemma is_ascii_digit_ends [simp]:
  "is_ascii_digit CHR ''0''" "is_ascii_digit CHR ''1''" "is_ascii_digit CHR ''9''"
  by (simp_all add: is_ascii_digit_def)

lemma digit_val_le: "is_ascii_digit c \<Longrightarrow> digit_val c \<le> 9"
  by (auto simp: is_ascii_digit_alt digit_val_def)

lemma of_char_eq_iff: "(of_char c :: nat) = of_char d \<longleftrightarrow> c = d"
  by (metis char_of_char)

lemma digit_val_less_iff:
  "is_ascii_digit c \<Longrightarrow> is_ascii_digit d \<Longrightarrow> digit_val c < digit_val d \<longleftrightarrow> c < d"
  by (auto simp: is_ascii_digit_alt digit_val_def less_char_def)

lemma digit_val_0_iff: "is_ascii_digit c \<Longrightarrow> digit_val c = 0 \<longleftrightarrow> c = CHR ''0''"
proof -
  assume c: "is_ascii_digit c"
  then have "digit_val c = 0 \<longleftrightarrow> of_char c = (of_char CHR ''0'' :: nat)"
    by (auto simp: is_ascii_digit_alt digit_val_def)
  then show ?thesis by (simp only: of_char_eq_iff)
qed

lemma digit_val_inj:
  "is_ascii_digit c \<Longrightarrow> is_ascii_digit d \<Longrightarrow> digit_val c = digit_val d \<Longrightarrow> c = d"
  by (metis digit_val_less_iff neq_iff)

lemma dec_value_bound: "list_all is_ascii_digit s \<Longrightarrow> dec_value s < 10 ^ length s"
proof (induction s)
  case (Cons c s)
  then have "digit_val c * 10 ^ length s \<le> 9 * 10 ^ length s"
    using digit_val_le by (intro mult_right_mono) auto
  moreover have "dec_value s < 10 ^ length s" using Cons by simp
  ultimately have "digit_val c * 10 ^ length s + dec_value s < 10 * 10 ^ length s" by linarith
  then show ?case by simp
qed simp

lemma dec_value_append: "dec_value (s @ t) = dec_value s * 10 ^ length t + dec_value t"
  by (induction s) (auto simp: algebra_simps power_add)

lemma dec_value_lower:
  assumes "valid_decimal s" "1 < length s"
  shows "10 ^ (length s - 1) \<le> dec_value s"
proof (cases s)
  case (Cons c t)
  with assms have "digit_val c \<noteq> 0" by (auto simp: valid_decimal_alt digit_val_0_iff)
  then have "1 * 10 ^ length t \<le> digit_val c * 10 ^ length t" by (intro mult_right_mono) auto
  then have "10 ^ length t \<le> digit_val c * 10 ^ length t + dec_value t" by linarith
  with Cons show ?thesis by simp
qed (use assms in simp)

lemma dec_value_less_iff_lex:
  "length s = length t \<Longrightarrow> list_all is_ascii_digit s \<Longrightarrow> list_all is_ascii_digit t \<Longrightarrow>
   dec_value s < dec_value t \<longleftrightarrow> s < t"
proof (induction s t rule: list_induct2)
  case (Cons c s d t)
  have bs: "dec_value s < 10 ^ length t" and bt: "dec_value t < 10 ^ length t"
    using dec_value_bound [of s] dec_value_bound [of t] Cons by auto
  have lead: "digit_val a * 10 ^ length t + x < digit_val b * 10 ^ length t + y"
    if "digit_val a < digit_val b" "x < 10 ^ length t" for a b x y
  proof -
    have "(digit_val a + 1) * 10 ^ length t \<le> digit_val b * 10 ^ length t"
      using that(1) by (intro mult_right_mono) auto
    with that(2) show ?thesis by (simp add: algebra_simps)
  qed
  consider "c < d" | "d < c" | "c = d" by fastforce
  then show ?case
  proof cases
    case 1
    with Cons.prems have "digit_val c < digit_val d" by (simp add: digit_val_less_iff)
    from lead [OF this bs] 1 Cons.hyps show ?thesis by simp
  next
    case 2
    with Cons.prems have "digit_val d < digit_val c" by (simp add: digit_val_less_iff)
    from lead [OF this bt, of "dec_value s"] 2 Cons.hyps show ?thesis by auto
  next
    case 3
    with Cons show ?thesis by simp
  qed
qed simp

lemma dec_value_less_of_length:
  assumes "valid_decimal s" "valid_decimal t" "length s < length t"
  shows "dec_value s < dec_value t"
proof -
  from assms(1) have "dec_value s < 10 ^ length s"
    by (intro dec_value_bound) (simp add: valid_decimal_alt)
  also have "\<dots> \<le> 10 ^ (length t - 1)" using assms(3) by (intro power_increasing) auto
  also have "\<dots> \<le> dec_value t"
  proof (rule dec_value_lower [OF assms(2)])
    show "1 < length t" using assms by (cases s) (auto simp: valid_decimal_alt)
  qed
  finally show ?thesis .
qed

lemma decimal_less_iff:
  assumes "valid_decimal s" "valid_decimal t"
  shows "dec_value s < dec_value t \<longleftrightarrow> length s < length t \<or> length s = length t \<and> s < t"
proof -
  consider "length s < length t" | "length t < length s" | "length s = length t" by linarith
  then show ?thesis
  proof cases
    case 1 with assms show ?thesis using dec_value_less_of_length by blast
  next
    case 2
    with assms have "dec_value t < dec_value s" using dec_value_less_of_length by blast
    with 2 show ?thesis by simp
  next
    case 3 with assms show ?thesis by (simp add: dec_value_less_iff_lex valid_decimal_alt)
  qed
qed

lemma dec_value_inj:
  "valid_decimal s \<Longrightarrow> valid_decimal t \<Longrightarrow> dec_value s = dec_value t \<Longrightarrow> s = t"
  using decimal_less_iff [of s t] decimal_less_iff [of t s] by (metis linorder_less_linear less_irrefl)

subsection \<open>Incrementing\<close>

lemma bump_rev_spec:
  assumes "list_all is_ascii_digit ds"
  shows "length (fst (bump_rev ds)) = length ds \<and> list_all is_ascii_digit (fst (bump_rev ds)) \<and>
    (if snd (bump_rev ds) then dec_value (rev (fst (bump_rev ds))) = dec_value (rev ds) + 1
     else dec_value (rev ds) + 1 = 10 ^ length ds \<and> dec_value (rev (fst (bump_rev ds))) = 0)"
  using assms
proof (induction ds)
  case (Cons d ds)
  then have IH: "length (fst (bump_rev ds)) = length ds"
      "list_all is_ascii_digit (fst (bump_rev ds))"
      "if snd (bump_rev ds) then dec_value (rev (fst (bump_rev ds))) = dec_value (rev ds) + 1
       else dec_value (rev ds) + 1 = 10 ^ length ds \<and> dec_value (rev (fst (bump_rev ds))) = 0"
    by auto
  show ?case
  proof (cases "d = CHR ''9''")
    case True
    then show ?thesis using IH
      by (auto simp: dec_value_append digit_val_def algebra_simps split: if_splits)
  next
    case False
    have d: "48 \<le> (of_char d :: nat)" "(of_char d :: nat) \<le> 57"
      using Cons.prems by (auto simp: is_ascii_digit_alt)
    moreover have "(of_char d :: nat) \<noteq> of_char CHR ''9''" using False
      by (simp only: of_char_eq_iff not_False_eq_True)
    ultimately have "(of_char d :: nat) \<le> 56" by simp
    with d False Cons.prems show ?thesis
      by (auto simp: dec_value_append digit_val_def is_ascii_digit_alt)
  qed
qed simp

lemma bump_rev_head_zero:
  assumes "list_all is_ascii_digit ds" "ds \<noteq> []" "length ds \<le> 1 \<or> last ds \<noteq> CHR ''0''"
    "snd (bump_rev ds)" "1 < length ds"
  shows "last (fst (bump_rev ds)) \<noteq> CHR ''0''"
  using assms
proof (induction ds)
  case (Cons d ds)
  have nz: "char_of (of_char d + 1 :: nat) \<noteq> CHR ''0''" if "is_ascii_digit d" for d
  proof
    assume "char_of (of_char d + 1 :: nat) = CHR ''0''"
    then have "of_char (char_of (of_char d + 1 :: nat)) = (of_char CHR ''0'' :: nat)" by simp
    with that show False by (simp add: is_ascii_digit_alt)
  qed
  show ?case
  proof (cases "d = CHR ''9''")
    case True
    with Cons.prems obtain e es where ds: "ds = e # es" by (cases ds) auto
    have ne: "fst (bump_rev ds) \<noteq> []" using bump_rev_spec [of ds] Cons.prems ds by auto
    show ?thesis
    proof (cases "es = []")
      case es: True
      with True Cons.prems ds nz [of e] show ?thesis by (auto split: if_splits)
    next
      case False
      with Cons True ds have "last (fst (bump_rev ds)) \<noteq> CHR ''0''" by auto
      with True ne show ?thesis by simp
    qed
  next
    case False
    with Cons.prems show ?thesis by auto
  qed
qed simp

lemma increment_decimal_spec:
  assumes "valid_decimal s"
  shows "valid_decimal (increment_decimal s)" "dec_value (increment_decimal s) = dec_value s + 1"
proof -
  let ?b = "bump_rev (rev s)"
  have digits: "list_all is_ascii_digit (rev s)" and ne: "s \<noteq> []"
    using assms by (auto simp: valid_decimal_alt)
  note spec = bump_rev_spec [OF digits]
  show "dec_value (increment_decimal s) = dec_value s + 1"
    using spec by (auto simp: increment_decimal_def digit_val_def split: if_splits)
  have "length (increment_decimal s) \<le> 1 \<or> hd (increment_decimal s) \<noteq> CHR ''0''"
  proof (cases "snd ?b")
    case True
    have "hd (rev (fst ?b)) \<noteq> CHR ''0''" if "1 < length s"
      using bump_rev_head_zero [OF digits _ _ True] that assms ne
      by (simp add: hd_rev last_rev valid_decimal_alt)
    with True spec show ?thesis by (cases "length s \<le> 1") (auto simp: increment_decimal_def)
  qed (simp add: increment_decimal_def)
  moreover have "list_all is_ascii_digit (increment_decimal s)" "increment_decimal s \<noteq> []"
    using spec ne by (auto simp: increment_decimal_def is_ascii_digit_alt split: if_splits)
  ultimately show "valid_decimal (increment_decimal s)" by (simp add: valid_decimal_alt)
qed

lemma valid_decimal_numerals [simp]: "valid_decimal ''0''" "valid_decimal ''1''"
  by (simp_all add: valid_decimal_alt is_ascii_digit_def)

lemma dec_value_numerals [simp]: "dec_value ''0'' = 0" "dec_value ''1'' = 1"
  by (simp_all add: digit_val_def)

lemma decimal_cmp_valid:
  assumes "valid_decimal s" "valid_decimal t"
  shows "decimal_cmp s t = Ok (cmp (dec_value s) (dec_value t))"
  using assms decimal_less_iff [of s t] decimal_less_iff [of t s] dec_value_inj [of s t]
  by (auto simp: decimal_cmp_def valid_decimal_def cmp_def)

lemma decimal_cmp_Ok_iff:
  "is_ok (decimal_cmp s t) \<longleftrightarrow> valid_decimal s \<and> valid_decimal t"
  by (auto simp: decimal_cmp_def valid_decimal_def)

subsection \<open>Decimal text and numbers: the round trip\<close>

lemma digit_char_digit: "d < 10 \<Longrightarrow> is_ascii_digit (digit_char d) \<and> digit_val (digit_char d) = d"
  by (simp add: is_ascii_digit_alt digit_val_def digit_char_def)

lemma dec_value_show_nat: "dec_value (show_nat n) = n"
proof (induction n rule: show_nat.induct)
  case (1 n)
  then show ?case
    by (subst show_nat.simps) (auto simp: dec_value_append digit_char_digit)
qed

lemma show_nat_digits: "list_all is_ascii_digit (show_nat n)"
proof (induction n rule: show_nat.induct)
  case (1 n)
  then show ?case by (subst show_nat.simps) (auto simp: digit_char_digit)
qed

lemma show_nat_head: "0 < n \<Longrightarrow> hd (show_nat n) \<noteq> CHR ''0''"
proof (induction n rule: show_nat.induct)
  case (1 n)
  show ?case
  proof (cases "n < 10")
    case True
    with "1.prems" digit_char_digit [of n] digit_val_0_iff [of "digit_char n"]
    show ?thesis by (subst show_nat.simps) auto
  next
    case False
    with "1.IH" have "hd (show_nat (n div 10)) \<noteq> CHR ''0''" by simp
    with False show ?thesis by (subst show_nat.simps) (simp add: hd_append)
  qed
qed

lemma valid_decimal_show_nat [simp]: "valid_decimal (show_nat n)"
proof (cases "n = 0")
  case True
  moreover have "digit_char 0 = CHR ''0''" unfolding digit_char_def by code_simp
  ultimately have "show_nat n = ''0''" by (subst show_nat.simps) simp
  then show ?thesis by simp
qed (use show_nat_digits [of n] show_nat_head [of n] in \<open>auto simp: valid_decimal_alt\<close>)

lemma show_nat_dec_value: "valid_decimal s \<Longrightarrow> show_nat (dec_value s) = s"
  by (rule dec_value_inj) (simp_all add: dec_value_show_nat)

lemma increment_show_nat: "increment_decimal (show_nat n) = show_nat (Suc n)"
  by (rule dec_value_inj)
    (simp_all add: increment_decimal_spec dec_value_show_nat)

subsection \<open>What a cursor format promises\<close>

text \<open>\<open>consecutive f s xs\<close>: the cursors \<open>xs\<close> follow \<open>s\<close> one step at a time, without a gap.\<close>

fun consecutive :: "('s \<Rightarrow> 's) \<Rightarrow> 's \<Rightarrow> 's list \<Rightarrow> bool" where
  "consecutive f s [] = True"
| "consecutive f s (x # xs) = (x = f s \<and> consecutive f x xs)"

lemma consecutive_append:
  "consecutive f s (xs @ ys) \<longleftrightarrow> consecutive f s xs \<and> consecutive f (last (s # xs)) ys"
  by (induction xs arbitrary: s) auto

locale counter_format =
  fixes valid :: "'s \<Rightarrow> bool" and value_of :: "'s \<Rightarrow> nat" and next_of :: "'s \<Rightarrow> 's"
  assumes next_valid: "valid s \<Longrightarrow> valid (next_of s)"
    and next_value: "valid s \<Longrightarrow> value_of (next_of s) = Suc (value_of s)"
    and value_inj: "valid s \<Longrightarrow> valid t \<Longrightarrow> value_of s = value_of t \<Longrightarrow> s = t"
begin

lemma next_neq: "valid s \<Longrightarrow> next_of s \<noteq> s"
  using next_value [of s] by auto

lemma consecutive_valid: "valid s \<Longrightarrow> consecutive next_of s xs \<Longrightarrow> x \<in> set xs \<Longrightarrow> valid x"
  by (induction xs arbitrary: s) (auto intro: next_valid)

lemma consecutive_value:
  "valid s \<Longrightarrow> consecutive next_of s xs \<Longrightarrow> i < length xs \<Longrightarrow> value_of (xs ! i) = value_of s + i + 1"
proof (induction xs arbitrary: s i)
  case (Cons x xs)
  then have x: "valid x" "value_of x = Suc (value_of s)" "consecutive next_of x xs"
    by (auto simp: next_value next_valid)
  with Cons show ?case by (cases i) simp_all
qed simp

lemma consecutive_last:
  "valid s \<Longrightarrow> consecutive next_of s xs \<Longrightarrow>
   valid (last (s # xs)) \<and> value_of (last (s # xs)) = value_of s + length xs"
  by (induction xs arbitrary: s) (auto simp: next_value next_valid)

lemma consecutive_sorted:
  assumes "valid s" "consecutive next_of s xs"
  shows "sorted_wrt (<) (map value_of (s # xs))"
  using assms
proof (induction xs arbitrary: s)
  case (Cons x xs)
  then have "valid x" "consecutive next_of x xs" and less: "value_of s < value_of x"
    by (auto simp: next_valid next_value)
  then have "sorted_wrt (<) (map value_of (x # xs))" by (intro Cons.IH)
  with less show ?case by auto
qed simp

lemma consecutive_distinct: "valid s \<Longrightarrow> consecutive next_of s xs \<Longrightarrow> distinct (s # xs)"
proof -
  assume "valid s" "consecutive next_of s xs"
  then have "sorted_wrt (<) (map value_of (s # xs))" by (rule consecutive_sorted)
  then have "distinct (map value_of (s # xs))" by (simp add: strict_sorted_iff del: list.map)
  then show "distinct (s # xs)" by (simp add: distinct_map del: list.map)
qed

end

interpretation seq: counter_format valid_decimal dec_value increment_decimal
  by unfold_locales (simp_all add: increment_decimal_spec dec_value_inj)

end
