(* ===== verification/Room_Event.thy ===== *)
theory Room_Event
  imports Room_Json Room_Sequence "HOL-Library.Monad_Syntax"
begin

section \<open>Room events and their validation\<close>

text \<open>
  \<open>event.rs\<close>: the event envelope, its strict deserialisation and \<open>RoomEvent::validate\<close>,
  payload checks included. \<open>rfc3339\<close> stands for chrono's \<open>DateTime::parse_from_rfc3339\<close>
  (does it accept the text?) and \<open>serde_err\<close> for the text of serde's own error.
\<close>

record room_event =
  ev_protocol :: string
  ev_version :: u64
  ev_session_id :: string
  ev_event_seq :: string
  ev_event_id :: string
  ev_turn_id :: string
  ev_occurred_at :: string
  ev_kind :: string
  ev_payload :: json

abbreviation invalid_event :: "string \<Rightarrow> (protocol_error, 'a) result" where
  "invalid_event message \<equiv> Err (InvalidEvent message)"

definition room_event_fields :: "string list" where
  "room_event_fields =
     [''protocol'', ''version'', ''sessionId'', ''eventSeq'', ''eventId'', ''turnId'',
      ''occurredAt'', ''type'', ''payload'']"

definition room_event_of_json :: "json \<Rightarrow> room_event option" where
  "room_event_of_json v =
     do {
       fs \<leftarrow> struct_fields room_event_fields v;
       protocol \<leftarrow> Option.bind (fs ! 0) as_str;
       version \<leftarrow> Option.bind (fs ! 1) as_u64;
       session_id \<leftarrow> Option.bind (fs ! 2) as_str;
       event_seq \<leftarrow> Option.bind (fs ! 3) as_str;
       event_id \<leftarrow> Option.bind (fs ! 4) as_str;
       turn_id \<leftarrow> Option.bind (fs ! 5) as_str;
       occurred_at \<leftarrow> Option.bind (fs ! 6) as_str;
       kind \<leftarrow> Option.bind (fs ! 7) as_str;
       payload \<leftarrow> fs ! 8;
       Some \<lparr>ev_protocol = protocol, ev_version = version, ev_session_id = session_id,
         ev_event_seq = event_seq, ev_event_id = event_id, ev_turn_id = turn_id,
         ev_occurred_at = occurred_at, ev_kind = kind, ev_payload = payload\<rparr>
     }"

subsection \<open>Reading payload fields\<close>

definition is_agent :: "string \<Rightarrow> bool" where
  "is_agent s \<longleftrightarrow> s \<in> {''claude'', ''codex'', ''gemini''}"

definition has_unsafe_control :: "string \<Rightarrow> bool" where
  "has_unsafe_control value \<longleftrightarrow>
     list_ex (\<lambda>code. code \<le> 0x1f \<or> (0x7f \<le> code \<and> code \<le> 0x9f) \<or> code = 0x061c
        \<or> (0x200b \<le> code \<and> code \<le> 0x200f) \<or> (0x202a \<le> code \<and> code \<le> 0x202e)
        \<or> code = 0x2060 \<or> (0x2066 \<le> code \<and> code \<le> 0x2069) \<or> code = 0xfeff)
       (chars value)"

definition event_required_agent :: "json_map \<Rightarrow> (protocol_error, unit) result" where
  "event_required_agent payload =
     (case get_str payload ''agent'' of
        Some s \<Rightarrow> if is_agent s then Ok () else invalid_event ''lane event requires a supported agent''
      | None \<Rightarrow> invalid_event ''lane event requires a supported agent'')"

definition event_required_agent_field ::
  "json_map \<Rightarrow> string \<Rightarrow> (protocol_error, string) result" where
  "event_required_agent_field payload field =
     (case get_str payload field of
        Some s \<Rightarrow> if is_agent s then Ok s else invalid_event (''hop requires a supported '' @ field)
      | None \<Rightarrow> invalid_event (''hop requires a supported '' @ field))"

definition event_required_string :: "json_map \<Rightarrow> string \<Rightarrow> (protocol_error, string) result" where
  "event_required_string payload field =
     ok_or (opt_filter (\<lambda>value. value \<noteq> []) (get_str payload field))
       (InvalidEvent (''lane.chunk requires '' @ field))"

definition required_bounded_string ::
  "json_map \<Rightarrow> string \<Rightarrow> nat \<Rightarrow> string \<Rightarrow> (protocol_error, string) result" where
  "required_bounded_string payload field max_bytes kind =
     ok_or (opt_filter (\<lambda>value. value \<noteq> [] \<and> length value \<le> max_bytes \<and> \<not> has_unsafe_control value)
              (get_str payload field))
       (InvalidEvent (kind @ '' requires safe '' @ field))"

definition required_opaque_bounded_string ::
  "json_map \<Rightarrow> string \<Rightarrow> nat \<Rightarrow> string \<Rightarrow> (protocol_error, string) result" where
  "required_opaque_bounded_string payload field max_bytes kind =
     ok_or (opt_filter (\<lambda>value. value \<noteq> [] \<and> length value \<le> max_bytes) (get_str payload field))
       (InvalidEvent (kind @ '' requires bounded '' @ field))"

definition required_positive_safe_integer ::
  "json_map \<Rightarrow> string \<Rightarrow> string \<Rightarrow> (protocol_error, u64) result" where
  "required_positive_safe_integer payload field kind =
     ok_or (opt_filter (\<lambda>value. 0 < value \<and> value \<le> max_safe_integer) (get_u64 payload field))
       (InvalidEvent (kind @ '' requires positive '' @ field))"

definition event_required_text :: "json_map \<Rightarrow> (protocol_error, string) result" where
  "event_required_text payload =
     tryR (ok_or (get_str payload ''text'') (InvalidEvent ''lane.chunk requires text'')) (\<lambda>text.
     if length text > 32 * 1024 then invalid_event ''lane.chunk text exceeds 32 KiB UTF-8 byte limit''
     else Ok text)"

definition validate_optional_model_id :: "json_map \<Rightarrow> (protocol_error, unit) result" where
  "validate_optional_model_id payload =
     (case get payload ''modelId'' of
        Some model_id \<Rightarrow>
          if opt_filter (\<lambda>s. s \<noteq> []) (as_str model_id) = None
          then invalid_event ''lane modelId must be nonempty when present'' else Ok ()
      | None \<Rightarrow> Ok ())"

definition validate_optional_safe_integer ::
  "json_map \<Rightarrow> string \<Rightarrow> (protocol_error, unit) result" where
  "validate_optional_safe_integer payload field =
     (case get payload field of
        Some value \<Rightarrow>
          if opt_filter (\<lambda>n. n \<le> max_safe_integer) (as_u64 value) = None
          then invalid_event (''agent.status '' @ field @ '' must be a nonnegative safe integer'')
          else Ok ()
      | None \<Rightarrow> Ok ())"

subsection \<open>Payload checks, one per event type that has one\<close>

definition payload_object :: "json \<Rightarrow> (protocol_error, json_map) result" where
  "payload_object payload = expect (as_object payload) ''validated object payload''"

definition only_fields :: "string list \<Rightarrow> json_map \<Rightarrow> bool" where
  "only_fields names payload \<longleftrightarrow> list_all (\<lambda>field. field \<in> set names) (keys payload)"

text \<open>The loop over the offered options, with the ids seen so far.\<close>

fun check_permission_options :: "string list \<Rightarrow> json list \<Rightarrow> (protocol_error, unit) result" where
  "check_permission_options ids [] = Ok ()"
| "check_permission_options ids (v # options) =
     tryR (ok_or (as_object v) (InvalidEvent ''permission.requested option must be an object'')) (\<lambda>option.
     if \<not> only_fields [''optionId'', ''kind'', ''name''] option
     then invalid_event ''permission.requested option has unknown fields''
     else tryR (required_opaque_bounded_string option ''optionId'' 4096 ''permission.requested'') (\<lambda>id.
     if id \<in> set ids then invalid_event ''permission.requested optionIds must be unique''
     else tryR (for_each (\<lambda>field.
            if contains_key option field
            then tryR (required_bounded_string option field 120 ''permission.requested'') (\<lambda>_. Ok ())
            else Ok ()) [''kind'', ''name'']) (\<lambda>_.
       check_permission_options (id # ids) options)))"

definition validate_permission_requested_payload :: "json \<Rightarrow> (protocol_error, unit) result" where
  "validate_permission_requested_payload v =
     tryR (payload_object v) (\<lambda>payload.
     if \<not> only_fields [''agent'', ''askId'', ''toolTitle'', ''options''] payload
     then invalid_event ''permission.requested payload has unknown fields''
     else tryR (event_required_agent payload) (\<lambda>_.
     tryR (required_opaque_bounded_string payload ''askId'' 4096 ''permission.requested'') (\<lambda>_.
     tryR (if contains_key payload ''toolTitle''
           then tryR (required_bounded_string payload ''toolTitle'' 240 ''permission.requested'') (\<lambda>_. Ok ())
           else Ok ()) (\<lambda>_.
     case get payload ''options'' of
       None \<Rightarrow> Ok ()
     | Some options \<Rightarrow>
         tryR (ok_or (as_array options) (InvalidEvent ''permission.requested options must be an array''))
          (\<lambda>options.
            if length options > 9 then invalid_event ''permission.requested options exceeds 9 entries''
            else check_permission_options [] options)))))"

definition validate_permission_resolved_payload :: "json \<Rightarrow> (protocol_error, unit) result" where
  "validate_permission_resolved_payload v =
     tryR (payload_object v) (\<lambda>payload.
     if \<not> only_fields [''agent'', ''askId'', ''outcome'', ''optionId''] payload
     then invalid_event ''permission.resolved payload has unknown fields''
     else tryR (event_required_agent payload) (\<lambda>_.
     tryR (required_opaque_bounded_string payload ''askId'' 4096 ''permission.resolved'') (\<lambda>_.
     if \<not> (case get_str payload ''outcome'' of
              Some s \<Rightarrow> s \<in> {''approved'', ''denied'', ''timeout'', ''invalidated''} | None \<Rightarrow> False)
     then invalid_event ''permission.resolved outcome is invalid''
     else if contains_key payload ''optionId''
     then tryR (required_opaque_bounded_string payload ''optionId'' 4096 ''permission.resolved'') (\<lambda>_. Ok ())
     else Ok ())))"

definition known_event_kinds :: "string list" where
  "known_event_kinds =
     [''turn.accepted'', ''route.resolved'', ''lane.queued'', ''lane.started'', ''lane.activity'',
      ''lane.chunk'', ''lane.cancelling'', ''lane.completed'', ''lane.failed'', ''lane.cancelled'',
      ''agent.status'', ''agent.mode'', ''message.committed'', ''turn.completed'', ''room.paused'',
      ''room.resumed'', ''permission.requested'', ''permission.resolved'', ''hop.dispatched'',
      ''hop.blocked'', ''session.saved'', ''backend.failed'', ''room.notice'']"

definition is_known_event_kind :: "string \<Rightarrow> bool" where
  "is_known_event_kind kind \<longleftrightarrow> kind \<in> set known_event_kinds"

definition validate_room_notice_payload :: "json \<Rightarrow> (protocol_error, unit) result" where
  "validate_room_notice_payload v =
     tryR (payload_object v) (\<lambda>payload.
     if \<not> only_fields [''cause'', ''agent'', ''detail''] payload
     then invalid_event ''room.notice payload has unknown fields''
     else tryR (required_bounded_string payload ''cause'' 64 ''room.notice'') (\<lambda>_.
     tryR (if contains_key payload ''agent'' then event_required_agent payload else Ok ()) (\<lambda>_.
     tryR (required_bounded_string payload ''detail'' 800 ''room.notice'') (\<lambda>detail.
     if length (chars detail) > 200 then invalid_event ''room.notice detail exceeds 200 code points''
     else Ok ()))))"

text \<open>The loop over the announced mode ids, with the ids seen so far.\<close>

fun check_mode_ids :: "string list \<Rightarrow> json list \<Rightarrow> (protocol_error, unit) result" where
  "check_mode_ids unique [] = Ok ()"
| "check_mode_ids unique (v # rest) =
     tryR (ok_or (opt_filter (\<lambda>mode_id. mode_id \<noteq> [] \<and> length mode_id \<le> 128 \<and> \<not> has_unsafe_control mode_id)
                    (as_str v))
             (InvalidEvent ''agent.mode availableModeIds contains an invalid mode id'')) (\<lambda>mode_id.
     if mode_id \<in> set unique then invalid_event ''agent.mode availableModeIds must be unique''
     else check_mode_ids (mode_id # unique) rest)"

definition validate_agent_mode_payload :: "json \<Rightarrow> (protocol_error, unit) result" where
  "validate_agent_mode_payload v =
     tryR (payload_object v) (\<lambda>payload.
     if \<not> only_fields [''agent'', ''modeId'', ''word'', ''status'', ''error'', ''availableModeIds''] payload
     then invalid_event ''agent.mode payload has unknown fields''
     else tryR (event_required_agent payload) (\<lambda>_.
     tryR (required_bounded_string payload ''modeId'' 128 ''agent.mode'') (\<lambda>_.
     if \<not> (case get_str payload ''status'' of
              Some s \<Rightarrow> s \<in> {''active'', ''pending'', ''failed''} | None \<Rightarrow> False)
     then invalid_event ''agent.mode status is invalid''
     else
     tryR (case get payload ''word'' of
             None \<Rightarrow> Ok ()
           | Some word \<Rightarrow>
               tryR (ok_or (as_str word) (InvalidEvent ''agent.mode word is invalid'')) (\<lambda>word.
               if word \<notin> {''plan'', ''careful'', ''edits'', ''auto'', ''strict'', ''smart''}
               then invalid_event ''agent.mode word is invalid'' else Ok ())) (\<lambda>_.
     tryR (if contains_key payload ''error''
           then tryR (required_bounded_string payload ''error'' 240 ''agent.mode'') (\<lambda>_. Ok ())
           else Ok ()) (\<lambda>_.
     case get payload ''availableModeIds'' of
       None \<Rightarrow> Ok ()
     | Some available \<Rightarrow>
         tryR (ok_or (as_array available) (InvalidEvent ''agent.mode availableModeIds must be an array''))
          (\<lambda>available.
            if length available > 32
            then invalid_event ''agent.mode availableModeIds exceeds 32 entries''
            else check_mode_ids [] available))))))"

definition validate_hop_payload :: "json \<Rightarrow> (protocol_error, unit) result" where
  "validate_hop_payload v =
     tryR (payload_object v) (\<lambda>payload.
     if \<not> only_fields [''fromAgent'', ''toAgent'', ''parentMessageId'', ''hopIndex'', ''maxHop'',
                       ''hopBudget'', ''hopId'', ''text''] payload
     then invalid_event ''hop payload has unknown fields''
     else tryR (event_required_agent_field payload ''fromAgent'') (\<lambda>from.
     tryR (event_required_agent_field payload ''toAgent'') (\<lambda>to.
     if from = to then invalid_event ''hop payload cannot target its source agent''
     else tryR (required_bounded_string payload ''parentMessageId'' 256 ''hop'') (\<lambda>_.
     tryR (required_bounded_string payload ''hopId'' 256 ''hop'') (\<lambda>_.
     tryR (required_positive_safe_integer payload ''hopIndex'' ''hop'') (\<lambda>_.
     let has_max = contains_key payload ''maxHop''; has_legacy = contains_key payload ''hopBudget'' in
     if has_max = has_legacy
     then invalid_event ''hop payload requires exactly one maxHop or hopBudget''
     else tryR (required_positive_safe_integer payload (if has_max then ''maxHop'' else ''hopBudget'') ''hop'') (\<lambda>_.
     if contains_key payload ''text''
     then tryR (required_bounded_string payload ''text'' 2048 ''hop'') (\<lambda>_. Ok ())
     else Ok ())))))))"

definition validate_agent_usage :: "json \<Rightarrow> (protocol_error, unit) result" where
  "validate_agent_usage value =
     tryR (ok_or (as_object value) (InvalidEvent ''agent.status usage must be an object'')) (\<lambda>usage.
     if \<not> only_fields [''exhausted'', ''contextUsedPct'', ''fiveHourUsedPct'', ''fiveHourResetsAtMs'',
                       ''weeklyUsedPct'', ''weeklyResetsAtMs''] usage
        \<or> Option.bind (get usage ''exhausted'') as_bool = None
     then invalid_event ''agent.status usage is invalid''
     else tryR (for_each (\<lambda>field.
            case get usage field of
              Some value \<Rightarrow>
                if opt_filter (\<lambda>n. n \<le> 100) (as_u64 value) = None
                then invalid_event (''agent.status '' @ field @ '' must be an integer from 0 to 100'')
                else Ok ()
            | None \<Rightarrow> Ok ()) [''contextUsedPct'', ''fiveHourUsedPct'', ''weeklyUsedPct'']) (\<lambda>_.
     for_each (validate_optional_safe_integer usage) [''fiveHourResetsAtMs'', ''weeklyResetsAtMs'']))"

definition validate_agent_availability :: "json \<Rightarrow> (protocol_error, unit) result" where
  "validate_agent_availability value =
     tryR (ok_or (as_object value) (InvalidEvent ''agent.status availability must be an object''))
      (\<lambda>availability.
     if \<not> only_fields [''state'', ''resetsAtMs''] availability
        \<or> \<not> (case get_str availability ''state'' of
                Some s \<Rightarrow> s \<in> {''ready'', ''exhausted'', ''needs_auth'', ''local_blocked'', ''retrying''}
              | None \<Rightarrow> False)
     then invalid_event ''agent.status availability is invalid''
     else validate_optional_safe_integer availability ''resetsAtMs'')"

definition validate_agent_status_payload :: "json \<Rightarrow> (protocol_error, unit) result" where
  "validate_agent_status_payload v =
     tryR (payload_object v) (\<lambda>payload.
     if \<not> only_fields [''agent'', ''auth'', ''usage'', ''availability''] payload
     then invalid_event ''agent.status payload has unknown fields''
     else tryR (event_required_agent payload) (\<lambda>_.
     if \<not> contains_key payload ''auth'' \<and> \<not> contains_key payload ''usage''
        \<and> \<not> contains_key payload ''availability''
     then invalid_event ''agent.status requires status data''
     else if (case get payload ''auth'' of
                Some auth \<Rightarrow> \<not> (case as_str auth of
                                 Some s \<Rightarrow> s \<in> {''ready'', ''limited'', ''down''} | None \<Rightarrow> False)
              | None \<Rightarrow> False)
     then invalid_event ''agent.status auth is invalid''
     else tryR (case get payload ''usage'' of Some usage \<Rightarrow> validate_agent_usage usage | None \<Rightarrow> Ok ()) (\<lambda>_.
     case get payload ''availability'' of
       Some availability \<Rightarrow> validate_agent_availability availability
     | None \<Rightarrow> Ok ())))"

definition validate_lane_started_payload :: "json \<Rightarrow> (protocol_error, unit) result" where
  "validate_lane_started_payload v =
     tryR (payload_object v) (\<lambda>payload.
     tryR (event_required_string payload ''laneId'') (\<lambda>_.
     tryR (event_required_string payload ''streamId'') (\<lambda>_.
     tryR (event_required_agent payload) (\<lambda>_.
     validate_optional_model_id payload))))"

definition validate_lane_chunk_payload :: "json \<Rightarrow> (protocol_error, unit) result" where
  "validate_lane_chunk_payload v =
     tryR (payload_object v) (\<lambda>payload.
     tryR (event_required_string payload ''laneId'') (\<lambda>_.
     tryR (event_required_string payload ''streamId'') (\<lambda>_.
     tryR (event_required_agent payload) (\<lambda>_.
     tryR (event_required_string payload ''streamSeq'') (\<lambda>stream_seq.
     tryR (validate_decimal stream_seq) (\<lambda>_.
     tryR (ok_or (get_u64 payload ''chunkIndex'')
             (InvalidEvent ''lane.chunk requires nonnegative chunkIndex'')) (\<lambda>chunk_index.
     if chunk_index > max_safe_integer
     then invalid_event ''lane.chunk chunkIndex exceeds max safe integer''
     else tryR (event_required_string payload ''channel'') (\<lambda>_.
     tryR (event_required_text payload) (\<lambda>_.
     validate_optional_model_id payload)))))))))"

definition validate_lane_activity_payload :: "json \<Rightarrow> (protocol_error, unit) result" where
  "validate_lane_activity_payload v =
     tryR (payload_object v) (\<lambda>payload.
     tryR (event_required_string payload ''laneId'') (\<lambda>_.
     tryR (event_required_string payload ''streamId'') (\<lambda>_.
     tryR (event_required_string payload ''toolCallId'') (\<lambda>_.
     if (case get_str payload ''update'' of
           Some s \<Rightarrow> s \<in> {''tool_call'', ''tool_call_update''} | None \<Rightarrow> False)
     then Ok ()
     else invalid_event ''lane.activity update must be tool_call or tool_call_update''))))"

definition validate_backend_failed_payload :: "json \<Rightarrow> (protocol_error, unit) result" where
  "validate_backend_failed_payload v =
     tryR (payload_object v) (\<lambda>payload.
     for_each (\<lambda>(key, value).
       if key \<notin> {''message'', ''error''} \<or> opt_filter (\<lambda>s. s \<noteq> []) (as_str value) = None
       then invalid_event ''backend.failed accepts only optional nonempty message/error''
       else Ok ()) payload)"

subsection \<open>\<open>RoomEvent::validate\<close> and \<open>from_value\<close>\<close>

definition validate_payload :: "string \<Rightarrow> json \<Rightarrow> (protocol_error, unit) result" where
  "validate_payload kind payload =
     (if kind = ''lane.started'' then validate_lane_started_payload payload
      else if kind = ''lane.chunk'' then validate_lane_chunk_payload payload
      else if kind = ''lane.activity'' then validate_lane_activity_payload payload
      else if kind = ''agent.status'' then validate_agent_status_payload payload
      else if kind = ''agent.mode'' then validate_agent_mode_payload payload
      else if kind = ''hop.dispatched'' \<or> kind = ''hop.blocked'' then validate_hop_payload payload
      else if kind = ''permission.requested'' then validate_permission_requested_payload payload
      else if kind = ''permission.resolved'' then validate_permission_resolved_payload payload
      else if kind = ''backend.failed'' then validate_backend_failed_payload payload
      else if kind = ''room.notice'' then validate_room_notice_payload payload
      else Ok ())"

definition validate :: "(string \<Rightarrow> bool) \<Rightarrow> room_event \<Rightarrow> (protocol_error, unit) result" where
  "validate rfc3339 event =
     (if ev_protocol event \<noteq> ''zer0.room'' \<or> ev_version event \<noteq> 1
      then invalid_event ''unsupported room protocol''
      else if list_ex (\<lambda>value. value = [])
                [ev_session_id event, ev_event_id event, ev_turn_id event, ev_occurred_at event,
                 ev_kind event]
      then invalid_event ''room event has an empty required field''
      else tryR (validate_decimal (ev_event_seq event)) (\<lambda>_.
      if \<not> rfc3339 (ev_occurred_at event)
      then invalid_event ''occurredAt must be an RFC3339 date-time''
      else if \<not> is_known_event_kind (ev_kind event)
      then invalid_event (''unknown room event type: '' @ ev_kind event)
      else if as_object (ev_payload event) = None
      then invalid_event ''room event payload must be an object''
      else validate_payload (ev_kind event) (ev_payload event)))"

definition from_value ::
  "(string \<Rightarrow> bool) \<Rightarrow> (json \<Rightarrow> string) \<Rightarrow> json \<Rightarrow> (protocol_error, room_event) result" where
  "from_value rfc3339 serde_err value =
     tryR (ok_or (room_event_of_json value) (InvalidEvent (serde_err value))) (\<lambda>event.
     tryR (validate rfc3339 event) (\<lambda>_. Ok event))"

definition is_readiness :: "room_event \<Rightarrow> bool" where
  "is_readiness event \<longleftrightarrow>
     ev_kind event = ''session.saved'' \<and> ev_event_seq event = ''0''
     \<and> value_get (ev_payload event) ''ready'' = Some (JBool True)"

subsection \<open>Validation never panics, and what a validated event guarantees\<close>

lemmas event_reader_defs = event_required_agent_def event_required_agent_field_def
  event_required_string_def required_bounded_string_def required_opaque_bounded_string_def
  required_positive_safe_integer_def event_required_text_def validate_optional_model_id_def
  validate_optional_safe_integer_def

lemma event_reader_no_panic [simp]:
  "\<not> is_panic (event_required_agent p)"
  "\<not> is_panic (event_required_agent_field p f)"
  "\<not> is_panic (event_required_string p f)"
  "\<not> is_panic (required_bounded_string p f n k)"
  "\<not> is_panic (required_opaque_bounded_string p f n k)"
  "\<not> is_panic (required_positive_safe_integer p f k)"
  "\<not> is_panic (event_required_text p)"
  "\<not> is_panic (validate_optional_model_id p)"
  "\<not> is_panic (validate_optional_safe_integer p f)"
  by (simp_all add: event_reader_defs split: option.splits)

lemma validate_decimal_no_panic [simp]: "\<not> is_panic (validate_decimal s)"
  by (simp add: validate_decimal_def)

lemma check_permission_options_no_panic [simp]: "\<not> is_panic (check_permission_options ids os)"
  by (induction ids os rule: check_permission_options.induct) (auto split: if_splits)

lemma check_mode_ids_no_panic [simp]: "\<not> is_panic (check_mode_ids ids vs)"
  by (induction ids vs rule: check_mode_ids.induct) (auto split: if_splits)

lemma payload_object_no_panic [simp]: "as_object v = Some m \<Longrightarrow> payload_object v = Ok m"
  by (simp add: payload_object_def)

lemma validate_agent_usage_no_panic [simp]: "\<not> is_panic (validate_agent_usage v)"
  by (auto simp: validate_agent_usage_def split: option.splits if_splits)

lemma validate_agent_availability_no_panic [simp]: "\<not> is_panic (validate_agent_availability v)"
  by (auto simp: validate_agent_availability_def split: option.splits if_splits)

lemma validate_backend_failed_no_panic: "\<not> is_panic (validate_backend_failed_payload (JObject m))"
  unfolding validate_backend_failed_payload_def payload_object_def
  by (simp, rule is_panic_for_each) (auto split: if_splits)

lemma payload_validators_no_panic:
  "\<not> is_panic (validate_lane_started_payload (JObject m))"
  "\<not> is_panic (validate_lane_chunk_payload (JObject m))"
  "\<not> is_panic (validate_lane_activity_payload (JObject m))"
  "\<not> is_panic (validate_agent_status_payload (JObject m))"
  "\<not> is_panic (validate_agent_mode_payload (JObject m))"
  "\<not> is_panic (validate_hop_payload (JObject m))"
  "\<not> is_panic (validate_permission_requested_payload (JObject m))"
  "\<not> is_panic (validate_permission_resolved_payload (JObject m))"
  "\<not> is_panic (validate_room_notice_payload (JObject m))"
  subgoal by (simp add: validate_lane_started_payload_def)
  subgoal by (simp add: validate_lane_chunk_payload_def)
  subgoal by (simp add: validate_lane_activity_payload_def)
  subgoal by (simp add: validate_agent_status_payload_def split: option.splits)
  subgoal by (auto simp add: validate_agent_mode_payload_def split: option.splits if_splits)
  subgoal by (auto simp add: validate_hop_payload_def Let_def split: if_splits)
  subgoal by (auto simp add: validate_permission_requested_payload_def split: option.splits if_splits)
  subgoal by (auto simp add: validate_permission_resolved_payload_def split: if_splits)
  subgoal by (auto simp add: validate_room_notice_payload_def split: if_splits)
  done

lemma validate_no_panic: "\<not> is_panic (validate rfc3339 event)"
  by (auto simp: validate_def validate_payload_def payload_validators_no_panic
      validate_backend_failed_no_panic)

lemma from_value_no_panic: "\<not> is_panic (from_value rfc3339 serde_err v)"
  by (auto simp: from_value_def validate_no_panic)

lemma validate_OkD:
  assumes "validate rfc3339 event = Ok u"
  shows "valid_decimal (ev_event_seq event)" "is_known_event_kind (ev_kind event)"
    "\<exists>m. ev_payload event = JObject m" "ev_event_id event \<noteq> []" "ev_session_id event \<noteq> []"
    "ev_turn_id event \<noteq> []" "validate_payload (ev_kind event) (ev_payload event) = Ok ()"
  using assms by (auto simp: validate_def valid_decimal_def split: if_splits)

lemma from_value_OkD:
  assumes "from_value rfc3339 serde_err v = Ok event"
  shows "validate rfc3339 event = Ok ()" "room_event_of_json v = Some event"
  using assms by (auto simp: from_value_def)

lemma required_positive_safe_integerD:
  "required_positive_safe_integer p f k = Ok n \<Longrightarrow>
   get p f = Some (JNumber (PosInt n)) \<and> 0 < n \<and> n \<le> max_safe_integer"
  by (auto simp: required_positive_safe_integer_def get_u64_eq_Some)

lemma validate_hop_payloadD:
  assumes "validate_hop_payload (JObject p) = Ok u" "get_u64 p ''hopIndex'' = Some n"
  shows "0 < n" "n \<le> max_safe_integer"
  using assms
  by (auto simp: validate_hop_payload_def Let_def get_u64_eq_Some
      dest!: required_positive_safe_integerD split: if_splits)

lemma validate_lane_chunk_payloadD:
  assumes "validate_lane_chunk_payload (JObject p) = Ok u" "get_u64 p ''chunkIndex'' = Some n"
  shows "n \<le> max_safe_integer"
  using assms by (auto simp: validate_lane_chunk_payload_def get_u64_eq_Some split: if_splits)

end
