(* ===== verification/Room_State.thy ===== *)
theory Room_State
  imports Room_Sequence
begin

section \<open>The state the room reduces events into\<close>

text \<open>
  \<open>state.rs\<close>: the enums and structs of the reduced room, field by field. Field names carry
  a prefix per struct (\<open>ln_\<close> for \<open>LaneState\<close>, \<open>tn_\<close> for \<open>TurnState\<close>, and so on), since
  Isabelle's record fields share one name space. The phases of a lane are ordered along its
  life, so that "a lane never goes back" is an inequality.
\<close>

datatype lane_phase = Queued | Running | Cancelling | Committed | Completed | Failed | Cancelled

datatype lane_origin = OriginOperator | OriginAgent

datatype hop_disposition = Dispatched | Blocked

record hop_state =
  hp_event_seq :: string
  hp_occurred_at :: string
  hp_hop_id :: string
  hp_turn_id :: string
  hp_from_agent :: string
  hp_to_agent :: string
  hp_parent_message_id :: string
  hp_hop_index :: u64
  hp_hop_budget :: u64
  hp_text :: "string option"
  hp_disposition :: hop_disposition

record message_commit =
  mc_message_id :: string
  mc_text :: string
  mc_ledger_seq :: string

datatype transcript_author = AuthorOperator | AuthorAgent string

record transcript_entry =
  tr_event_seq :: string
  tr_occurred_at :: string
  tr_turn_id :: string
  tr_message_id :: string
  tr_text :: string
  tr_ledger_seq :: string
  tr_author :: transcript_author
  tr_target_agents :: "string list"
  tr_reply_to :: "string option"
  tr_origin :: lane_origin

record route_state =
  rt_agents :: "string list"
  rt_resolved_at :: string

record turn_state =
  tn_id :: string
  tn_agents :: "string list"
  tn_text :: string
  tn_message_id :: string
  tn_ledger_seq :: string
  tn_accepted_at :: string
  tn_route :: "route_state option"
  tn_completed_at :: "string option"

record backend_failure =
  bf_event_seq :: string
  bf_turn_id :: string
  bf_occurred_at :: string
  bf_message :: "string option"
  bf_error :: "string option"

record room_notice =
  rn_event_seq :: string
  rn_turn_id :: string
  rn_occurred_at :: string
  rn_cause :: string
  rn_agent :: "string option"

datatype agent_auth_state = AuthReady | AuthLimited | AuthDown

datatype agent_availability_state =
  AvailReady | AvailExhausted | AvailNeedsAuth | AvailLocalBlocked | AvailRetrying

record agent_usage_state =
  us_exhausted :: bool
  us_context_used_pct :: "u8 option"
  us_five_hour_used_pct :: "u8 option"
  us_five_hour_resets_at_ms :: "u64 option"
  us_weekly_used_pct :: "u8 option"
  us_weekly_resets_at_ms :: "u64 option"

record agent_status_state =
  as_agent :: string
  as_last_event_seq :: string
  as_occurred_at :: string
  as_auth :: "agent_auth_state option"
  as_usage :: "agent_usage_state option"
  as_availability :: "agent_availability_state option"
  as_availability_resets_at_ms :: "u64 option"

datatype agent_mode_status = ModeActive | ModePending | ModeFailed

record agent_mode_state =
  am_agent :: string
  am_mode_id :: string
  am_word :: "string option"
  am_status :: agent_mode_status
  am_error :: "string option"
  am_available_mode_ids :: "string list option"
  am_last_event_seq :: string
  am_occurred_at :: string

datatype lane_activity_update = ToolCall | ToolCallUpdate

record lane_activity =
  la_last_event_seq :: string
  la_tool_call_id :: string
  la_update :: lane_activity_update
  la_title :: "string option"
  la_kind :: "string option"
  la_status :: "string option"

record permission_option =
  po_option_id :: string
  po_kind :: "string option"
  po_name :: "string option"

datatype permission_outcome = Approved | Denied | Timeout | Invalidated

record permission_state =
  pm_requested_event_seq :: string
  pm_requested_at :: string
  pm_resolved_event_seq :: "string option"
  pm_resolved_at :: "string option"
  pm_ask_id :: string
  pm_turn_id :: string
  pm_agent :: string
  pm_options :: "permission_option list"
  pm_tool_title :: "string option"
  pm_outcome :: "permission_outcome option"
  pm_option_id :: "string option"

record lane_state =
  ln_id :: string
  ln_turn_id :: string
  ln_agent :: string
  ln_expected_message_id :: string
  ln_origin :: lane_origin
  ln_hop_index :: u64
  ln_parent_message_id :: "string option"
  ln_reply_to :: "string option"
  ln_from_agent :: "string option"
  ln_hop_id :: "string option"
  ln_phase :: lane_phase
  ln_roster_index :: u64
  ln_queued_at :: string
  ln_started_at :: "string option"
  ln_terminal_at :: "string option"
  ln_terminal_event_seq :: "string option"
  ln_failure_reason :: "string option"
  ln_stream_id :: "string option"
  ln_message_commit :: "message_commit option"
  ln_activity :: "lane_activity list"

record room_stream =
  st_id :: string
  st_lane_id :: string
  st_agent :: string
  st_turn_id :: string
  st_started_event_seq :: string
  st_started_at :: string
  st_model_id :: "string option"
  st_text :: string
  st_next_chunk_index :: u64
  st_next_stream_seq :: string

subsection \<open>The life of a lane\<close>

fun phase_rank :: "lane_phase \<Rightarrow> nat" where
  "phase_rank Queued = 0"
| "phase_rank Running = 1"
| "phase_rank Cancelling = 2"
| "phase_rank Committed = 3"
| "phase_rank Completed = 4"
| "phase_rank Failed = 5"
| "phase_rank Cancelled = 6"

lemma phase_rank_inject: "phase_rank p = phase_rank q \<Longrightarrow> p = q"
  by (cases p; cases q) simp_all

instantiation lane_phase :: linorder
begin

definition less_eq_lane_phase :: "lane_phase \<Rightarrow> lane_phase \<Rightarrow> bool" where
  "p \<le> q \<longleftrightarrow> phase_rank p \<le> phase_rank q"

definition less_lane_phase :: "lane_phase \<Rightarrow> lane_phase \<Rightarrow> bool" where
  "p < q \<longleftrightarrow> phase_rank p < phase_rank q"

instance
  by standard (auto simp: less_eq_lane_phase_def less_lane_phase_def intro: phase_rank_inject)

end

definition terminal :: "lane_phase \<Rightarrow> bool" where
  "terminal p \<longleftrightarrow> p = Completed \<or> p = Failed \<or> p = Cancelled"

text \<open>The only moves a lane may make.\<close>

inductive phase_step :: "lane_phase \<Rightarrow> lane_phase \<Rightarrow> bool" where
  start: "phase_step Queued Running"
| cancelling: "p = Running \<or> p = Cancelling \<Longrightarrow> phase_step p Cancelling"
| commit: "p = Queued \<or> p = Running \<or> p = Cancelling \<Longrightarrow> phase_step p Committed"
| complete: "phase_step Committed Completed"
| fail: "p = Queued \<or> p = Running \<or> p = Cancelling \<Longrightarrow> phase_step p Failed"
| cancel: "p = Queued \<or> p = Running \<or> p = Cancelling \<Longrightarrow> phase_step p Cancelled"

code_pred phase_step .

inductive_simps phase_step_from [simp]: "phase_step p q"

lemma phase_step_mono: "phase_step p q \<Longrightarrow> p \<le> q"
  by (auto simp: less_eq_lane_phase_def)

lemma terminal_final: "terminal p \<Longrightarrow> \<not> phase_step p q"
  by (auto simp: terminal_def)

end
