(* ===== verification/Room_Reducer.thy ===== *)
theory Room_Reducer
  imports Room_Event Room_State
begin

section \<open>The room reducer\<close>

text \<open>
  \<open>reducer.rs\<close>: the state \<open>RoomReducer\<close>, its read accessors, the readers of payload fields
  and one handler per event type, composed by \<open>apply\<close> (here \<open>apply_event\<close>). A handler
  returns its outcome and the state it leaves, on every path.
\<close>

datatype apply_delta = Delta_None | Delta_Started string | Delta_Changed string

record reducer =
  session_id :: "string option"
  last_event_seq :: string
  events_by_id :: "string \<Rightarrow> room_event option"
  lanes :: "string \<Rightarrow> lane_state option"
  lane_order :: "string list"
  stream_order :: "string list"
  streams :: "string \<Rightarrow> room_stream option"
  paused :: bool
  permissions :: "permission_state list"
  permission_indices :: "string \<Rightarrow> nat option"
  message_lanes :: "string \<Rightarrow> string option"
  transcript_message_ids :: "string set"
  hops :: "hop_state list"
  hop_indices :: "string \<Rightarrow> nat option"
  turns :: "turn_state list"
  turn_indices :: "string \<Rightarrow> nat option"
  turn_lane_ids :: "string \<Rightarrow> string list option"
  transcript :: "transcript_entry list"
  backend_failures :: "backend_failure list"
  room_notices :: "room_notice list"
  agent_statuses :: "(string \<times> agent_status_state) list"
  agent_modes :: "(string \<times> agent_mode_state) list"

type_synonym 'a handler = "(reducer, protocol_error, 'a) outcome"

definition new_reducer :: reducer where
  "new_reducer =
     \<lparr>session_id = None, last_event_seq = ''0'', events_by_id = Map.empty, lanes = Map.empty,
      lane_order = [], stream_order = [], streams = Map.empty, paused = False,
      permissions = [], permission_indices = Map.empty, message_lanes = Map.empty,
      transcript_message_ids = {}, hops = [], hop_indices = Map.empty, turns = [],
      turn_indices = Map.empty, turn_lane_ids = Map.empty, transcript = [],
      backend_failures = [], room_notices = [], agent_statuses = [], agent_modes = []\<rparr>"

definition invalid :: "string \<Rightarrow> protocol_error" where
  "invalid message = InvalidEvent message"

subsection \<open>Accessors\<close>

definition bind_session :: "string \<Rightarrow> reducer \<Rightarrow> unit handler" where
  "bind_session sid r =
     (case session_id r of
        Some bound \<Rightarrow> if bound \<noteq> sid then (Err (SessionMismatch bound sid), r) else (Ok (), r)
      | None \<Rightarrow> (Ok (), r\<lparr>session_id := Some sid\<rparr>))"

definition has_event_id :: "reducer \<Rightarrow> string \<Rightarrow> bool" where
  "has_event_id r event_id \<longleftrightarrow> events_by_id r event_id \<noteq> None"

definition is_paused :: "reducer \<Rightarrow> bool" where
  "is_paused r = paused r"

definition lane :: "reducer \<Rightarrow> string \<Rightarrow> lane_state option" where
  "lane r lane_id = lanes r lane_id"

text \<open>The thread-local count of lane walks saturates, and the walk itself follows \<open>lane_order\<close>.\<close>

definition ordered_lanes :: "reducer \<Rightarrow> u64 \<Rightarrow> lane_state list \<times> u64" where
  "ordered_lanes r lane_scans =
     (List.map_filter (lanes r) (lane_order r),
      if lane_scans = - 1 then lane_scans else lane_scans + 1)"

definition lane_for_message :: "reducer \<Rightarrow> string \<Rightarrow> (protocol_error, lane_state option) result" where
  "lane_for_message r message_id =
     (case message_lanes r message_id of
        None \<Rightarrow> Ok None
      | Some lane_id \<Rightarrow>
          tryR (expect (lanes r lane_id) ''message index references an existing lane'')
            (\<lambda>lane. Ok (Some lane)))"

definition ordered_streams :: "reducer \<Rightarrow> room_stream list" where
  "ordered_streams r = List.map_filter (streams r) (stream_order r)"

definition stream :: "reducer \<Rightarrow> string \<Rightarrow> room_stream option" where
  "stream r stream_id = streams r stream_id"

definition ordered_activity_for_lane :: "reducer \<Rightarrow> string \<Rightarrow> lane_activity list" where
  "ordered_activity_for_lane r lane_id =
     (case lanes r lane_id of None \<Rightarrow> [] | Some l \<Rightarrow> ln_activity l)"

definition ordered_activity_for_stream :: "reducer \<Rightarrow> string \<Rightarrow> lane_activity list" where
  "ordered_activity_for_stream r stream_id =
     (case Option.bind (streams r stream_id) (\<lambda>s. lanes r (st_lane_id s)) of
        None \<Rightarrow> [] | Some l \<Rightarrow> ln_activity l)"

definition permission :: "reducer \<Rightarrow> string \<Rightarrow> permission_state option" where
  "permission r ask_id = index_find (permission_indices r) (permissions r) ask_id"

definition pending_permissions :: "reducer \<Rightarrow> permission_state list" where
  "pending_permissions r = filter (\<lambda>p. pm_outcome p = None) (permissions r)"

definition hop :: "reducer \<Rightarrow> string \<Rightarrow> hop_state option" where
  "hop r hop_id = index_find (hop_indices r) (hops r) hop_id"

definition turn :: "reducer \<Rightarrow> string \<Rightarrow> turn_state option" where
  "turn r turn_id = index_find (turn_indices r) (turns r) turn_id"

definition turn_seat :: "reducer \<Rightarrow> string \<Rightarrow> nat option" where
  "turn_seat r turn_id = turn_indices r turn_id"

definition agent_status :: "reducer \<Rightarrow> string \<Rightarrow> agent_status_state option" where
  "agent_status r agent = map_of (agent_statuses r) agent"

definition agent_mode :: "reducer \<Rightarrow> string \<Rightarrow> agent_mode_state option" where
  "agent_mode r agent = map_of (agent_modes r) agent"

definition turn_lanes :: "reducer \<Rightarrow> string \<Rightarrow> lane_state list" where
  "turn_lanes r turn_id =
     List.map_filter (lanes r) (case turn_lane_ids r turn_id of None \<Rightarrow> [] | Some ids \<Rightarrow> ids)"

text \<open>
  The writes the handlers make: append to an indexed vector, write through \<open>permission_mut\<close>
  and \<open>turn_mut\<close>, insert and overwrite a lane or a stream.
\<close>

definition push_permission :: "permission_state \<Rightarrow> reducer \<Rightarrow> reducer" where
  "push_permission p r =
     r\<lparr>permission_indices := (permission_indices r)(pm_ask_id p \<mapsto> length (permissions r)),
       permissions := permissions r @ [p]\<rparr>"

definition store_permission :: "string \<Rightarrow> permission_state \<Rightarrow> reducer \<Rightarrow> reducer" where
  "store_permission ask_id p r =
     r\<lparr>permissions := index_store (permission_indices r) (permissions r) ask_id p\<rparr>"

definition push_hop :: "hop_state \<Rightarrow> reducer \<Rightarrow> reducer" where
  "push_hop h r =
     r\<lparr>hop_indices := (hop_indices r)(hp_hop_id h \<mapsto> length (hops r)), hops := hops r @ [h]\<rparr>"

definition push_turn :: "turn_state \<Rightarrow> reducer \<Rightarrow> reducer" where
  "push_turn t r =
     r\<lparr>turn_indices := (turn_indices r)(tn_id t \<mapsto> length (turns r)), turns := turns r @ [t]\<rparr>"

definition store_turn :: "string \<Rightarrow> turn_state \<Rightarrow> reducer \<Rightarrow> reducer" where
  "store_turn turn_id t r = r\<lparr>turns := index_store (turn_indices r) (turns r) turn_id t\<rparr>"

definition store_lane :: "string \<Rightarrow> lane_state \<Rightarrow> reducer \<Rightarrow> reducer" where
  "store_lane lane_id l r = r\<lparr>lanes := (lanes r)(lane_id \<mapsto> l)\<rparr>"

definition push_lane :: "lane_state \<Rightarrow> reducer \<Rightarrow> reducer" where
  "push_lane l r =
     r\<lparr>lanes := (lanes r)(ln_id l \<mapsto> l),
       turn_lane_ids := (turn_lane_ids r)(ln_turn_id l \<mapsto>
         (case turn_lane_ids r (ln_turn_id l) of None \<Rightarrow> [] | Some ids \<Rightarrow> ids) @ [ln_id l]),
       lane_order := lane_order r @ [ln_id l]\<rparr>"

definition store_stream :: "string \<Rightarrow> room_stream \<Rightarrow> reducer \<Rightarrow> reducer" where
  "store_stream stream_id s r = r\<lparr>streams := (streams r)(stream_id \<mapsto> s)\<rparr>"

definition push_stream :: "room_stream \<Rightarrow> reducer \<Rightarrow> reducer" where
  "push_stream s r =
     r\<lparr>stream_order := stream_order r @ [st_id s], streams := (streams r)(st_id s \<mapsto> s)\<rparr>"

definition push_transcript :: "transcript_entry \<Rightarrow> reducer \<Rightarrow> reducer" where
  "push_transcript e r =
     r\<lparr>transcript_message_ids := insert (tr_message_id e) (transcript_message_ids r),
       transcript := transcript r @ [e]\<rparr>"

subsection \<open>Readers of payload fields\<close>

definition payload_of :: "room_event \<Rightarrow> (protocol_error, json_map) result" where
  "payload_of event = ok_or (as_object (ev_payload event)) (invalid ''room event payload must be an object'')"

definition required_string :: "json_map \<Rightarrow> string \<Rightarrow> string \<Rightarrow> (protocol_error, string) result" where
  "required_string payload field kind =
     ok_or (opt_filter (\<lambda>value. value \<noteq> []) (get_str payload field))
       (invalid (kind @ '' requires '' @ field))"

definition required_agent :: "json_map \<Rightarrow> string \<Rightarrow> (protocol_error, string) result" where
  "required_agent payload kind =
     tryR (required_string payload ''agent'' kind) (\<lambda>s.
     if is_agent s then required_string payload ''agent'' kind
     else Err (invalid ''lane event requires a supported agent''))"

definition required_agent_field ::
  "json_map \<Rightarrow> string \<Rightarrow> string \<Rightarrow> (protocol_error, string) result" where
  "required_agent_field payload field kind =
     tryR (required_string payload field kind) (\<lambda>s.
     if is_agent s then required_string payload field kind
     else Err (invalid (kind @ '' requires a supported '' @ field)))"

definition required_text :: "json_map \<Rightarrow> string \<Rightarrow> string \<Rightarrow> (protocol_error, string) result" where
  "required_text payload field kind =
     ok_or (get_str payload field) (invalid (kind @ '' requires '' @ field))"

definition required_decimal :: "json_map \<Rightarrow> string \<Rightarrow> string \<Rightarrow> (protocol_error, string) result" where
  "required_decimal payload field kind =
     tryR (required_string payload field kind) (\<lambda>value.
     tryR (validate_decimal value) (\<lambda>_. Ok value))"

fun unique_agents_loop ::
  "string \<Rightarrow> string list \<Rightarrow> json list \<Rightarrow> (protocol_error, string list) result" where
  "unique_agents_loop kind seen [] = Ok []"
| "unique_agents_loop kind seen (v # rest) =
     tryR (ok_or (opt_filter is_agent (as_str v)) (invalid (kind @ '' requires supported agents'')))
      (\<lambda>agent.
        if agent \<in> set seen then Err (invalid (kind @ '' agents must be unique''))
        else tryR (unique_agents_loop kind (agent # seen) rest) (\<lambda>agents. Ok (agent # agents)))"

definition unique_agents ::
  "json_map \<Rightarrow> string \<Rightarrow> string \<Rightarrow> (protocol_error, string list) result" where
  "unique_agents payload field kind =
     tryR (ok_or (opt_filter (\<lambda>agents. agents \<noteq> []) (Option.bind (get payload field) as_array))
             (invalid (kind @ '' requires a nonempty '' @ field @ '' array'')))
       (unique_agents_loop kind [])"

definition require_allowed_fields ::
  "json_map \<Rightarrow> string \<Rightarrow> string list \<Rightarrow> (protocol_error, unit) result" where
  "require_allowed_fields payload kind names =
     (if list_ex (\<lambda>field. field \<notin> set names) (keys payload)
      then Err (invalid (kind @ '' payload has unknown fields'')) else Ok ())"

definition require_exact_fields ::
  "json_map \<Rightarrow> string \<Rightarrow> string list \<Rightarrow> (protocol_error, unit) result" where
  "require_exact_fields payload kind names =
     tryR (require_allowed_fields payload kind names) (\<lambda>_.
     if length payload \<noteq> length names
     then Err (invalid (kind @ '' payload has missing fields'')) else Ok ())"

definition optional_string ::
  "json_map \<Rightarrow> string \<Rightarrow> string \<Rightarrow> (protocol_error, string option) result" where
  "optional_string payload field kind =
     (case get payload field of
        None \<Rightarrow> Ok None
      | Some v \<Rightarrow>
          (case opt_filter (\<lambda>s. s \<noteq> []) (as_str v) of
             Some s \<Rightarrow> Ok (Some s)
           | None \<Rightarrow> Err (invalid (kind @ '' '' @ field @ '' must be a nonempty string when present''))))"

definition required_u64 :: "json_map \<Rightarrow> string \<Rightarrow> string \<Rightarrow> (protocol_error, u64) result" where
  "required_u64 payload field kind =
     ok_or (get_u64 payload field) (invalid (kind @ '' requires nonnegative '' @ field))"

definition read_lane_origin :: "json_map \<Rightarrow> string \<Rightarrow> (protocol_error, lane_origin) result" where
  "read_lane_origin payload kind =
     tryR (required_string payload ''origin'' kind) (\<lambda>s.
     if s = ''operator'' then Ok OriginOperator
     else if s = ''agent'' then Ok OriginAgent
     else Err (invalid ''lane origin must be operator or agent''))"

record lane_provenance =
  lp_origin :: lane_origin
  lp_hop_index :: u64
  lp_parent_message_id :: "string option"
  lp_reply_to :: "string option"
  lp_from_agent :: "string option"
  lp_hop_id :: "string option"

definition queue_provenance :: "json_map \<Rightarrow> string \<Rightarrow> (protocol_error, lane_provenance) result" where
  "queue_provenance payload kind =
     tryR (read_lane_origin payload kind) (\<lambda>origin.
     tryR (required_u64 payload ''hopIndex'' kind) (\<lambda>hop_index.
     case origin of
       OriginOperator \<Rightarrow>
         if hop_index \<noteq> 0 then Err (invalid ''operator lane.queued requires hopIndex 0'')
         else tryR (for_each (\<lambda>field.
                if contains_key payload field
                then Err (invalid (''operator lane.queued must not contain '' @ field)) else Ok ())
                [''replyTo'', ''fromAgent'', ''hopId'']) (\<lambda>_.
         tryR (optional_string payload ''parentMessageId'' kind) (\<lambda>parent.
         Ok \<lparr>lp_origin = origin, lp_hop_index = hop_index, lp_parent_message_id = parent,
             lp_reply_to = None, lp_from_agent = None, lp_hop_id = None\<rparr>))
     | OriginAgent \<Rightarrow>
         if hop_index = 0 then Err (invalid ''agent lane.queued requires positive hopIndex'')
         else tryR (required_string payload ''replyTo'' kind) (\<lambda>reply_to.
         tryR (required_agent_field payload ''fromAgent'' kind) (\<lambda>from_agent.
         tryR (required_string payload ''parentMessageId'' kind) (\<lambda>parent.
         tryR (required_string payload ''hopId'' kind) (\<lambda>hop_id.
         Ok \<lparr>lp_origin = origin, lp_hop_index = hop_index, lp_parent_message_id = Some parent,
             lp_reply_to = Some reply_to, lp_from_agent = Some from_agent, lp_hop_id = Some hop_id\<rparr>))))))"

definition activity_update :: "json_map \<Rightarrow> string \<Rightarrow> (protocol_error, lane_activity_update) result" where
  "activity_update payload kind =
     tryR (required_string payload ''update'' kind) (\<lambda>s.
     if s = ''tool_call'' then Ok ToolCall
     else if s = ''tool_call_update'' then Ok ToolCallUpdate
     else Err (invalid ''lane.activity update must be tool_call or tool_call_update''))"

definition optional_agent_auth ::
  "json_map \<Rightarrow> string \<Rightarrow> (protocol_error, agent_auth_state option) result" where
  "optional_agent_auth payload kind =
     (case get payload ''auth'' of
        None \<Rightarrow> Ok None
      | Some (JString value) \<Rightarrow>
          if value = ''ready'' then Ok (Some AuthReady)
          else if value = ''limited'' then Ok (Some AuthLimited)
          else if value = ''down'' then Ok (Some AuthDown)
          else Err (invalid (kind @ '' auth is invalid''))
      | Some _ \<Rightarrow> Err (invalid (kind @ '' auth is invalid'')))"

definition optional_percent :: "json_map \<Rightarrow> string \<Rightarrow> string \<Rightarrow> (protocol_error, u8 option) result" where
  "optional_percent payload field kind =
     (case get payload field of
        None \<Rightarrow> Ok None
      | Some value \<Rightarrow>
          tryR (ok_or (opt_filter (\<lambda>n. n \<le> 100) (as_u64 value))
                  (invalid (kind @ '' '' @ field @ '' must be an integer from 0 to 100'')))
            (\<lambda>n. Ok (Some (ucast n))))"

definition optional_safe_u64 :: "json_map \<Rightarrow> string \<Rightarrow> string \<Rightarrow> (protocol_error, u64 option) result" where
  "optional_safe_u64 payload field kind =
     (case get payload field of
        None \<Rightarrow> Ok None
      | Some value \<Rightarrow>
          tryR (ok_or (opt_filter (\<lambda>n. n \<le> max_safe_integer) (as_u64 value))
                  (invalid (kind @ '' '' @ field @ '' must be a nonnegative safe integer'')))
            (\<lambda>n. Ok (Some n)))"

definition optional_agent_usage ::
  "json_map \<Rightarrow> string \<Rightarrow> (protocol_error, agent_usage_state option) result" where
  "optional_agent_usage payload kind =
     (case get payload ''usage'' of
        None \<Rightarrow> Ok None
      | Some v \<Rightarrow>
          tryR (ok_or (as_object v) (invalid (kind @ '' usage must be an object''))) (\<lambda>usage.
          tryR (ok_or (Option.bind (get usage ''exhausted'') as_bool)
                  (invalid (kind @ '' usage requires exhausted''))) (\<lambda>exhausted.
          tryR (optional_percent usage ''contextUsedPct'' kind) (\<lambda>context_used_pct.
          tryR (optional_percent usage ''fiveHourUsedPct'' kind) (\<lambda>five_hour_used_pct.
          tryR (optional_safe_u64 usage ''fiveHourResetsAtMs'' kind) (\<lambda>five_hour_resets_at_ms.
          tryR (optional_percent usage ''weeklyUsedPct'' kind) (\<lambda>weekly_used_pct.
          tryR (optional_safe_u64 usage ''weeklyResetsAtMs'' kind) (\<lambda>weekly_resets_at_ms.
          Ok (Some \<lparr>us_exhausted = exhausted, us_context_used_pct = context_used_pct,
                us_five_hour_used_pct = five_hour_used_pct,
                us_five_hour_resets_at_ms = five_hour_resets_at_ms,
                us_weekly_used_pct = weekly_used_pct,
                us_weekly_resets_at_ms = weekly_resets_at_ms\<rparr>)))))))))"

definition optional_agent_availability ::
  "json_map \<Rightarrow> string \<Rightarrow> (protocol_error, (agent_availability_state \<times> u64 option) option) result" where
  "optional_agent_availability payload kind =
     (case get payload ''availability'' of
        None \<Rightarrow> Ok None
      | Some v \<Rightarrow>
          tryR (ok_or (as_object v) (invalid (kind @ '' availability must be an object''))) (\<lambda>availability.
          tryR (required_string availability ''state'' kind) (\<lambda>s.
          tryR (if s = ''ready'' then Ok AvailReady
                else if s = ''exhausted'' then Ok AvailExhausted
                else if s = ''needs_auth'' then Ok AvailNeedsAuth
                else if s = ''local_blocked'' then Ok AvailLocalBlocked
                else if s = ''retrying'' then Ok AvailRetrying
                else Err (invalid (kind @ '' availability state is invalid''))) (\<lambda>state.
          tryR (optional_safe_u64 availability ''resetsAtMs'' kind) (\<lambda>resets_at_ms.
          Ok (Some (state, resets_at_ms)))))))"

definition read_permission_option ::
  "string \<Rightarrow> json \<Rightarrow> (protocol_error, permission_option) result" where
  "read_permission_option kind v =
     tryR (ok_or (as_object v) (invalid ''permission option must be an object'')) (\<lambda>option.
     tryR (require_allowed_fields option kind [''optionId'', ''kind'', ''name'']) (\<lambda>_.
     tryR (required_string option ''optionId'' kind) (\<lambda>option_id.
     tryR (optional_string option ''kind'' kind) (\<lambda>okind.
     tryR (optional_string option ''name'' kind) (\<lambda>name.
     Ok \<lparr>po_option_id = option_id, po_kind = okind, po_name = name\<rparr>)))))"

definition permission_options ::
  "json_map \<Rightarrow> string \<Rightarrow> (protocol_error, permission_option list) result" where
  "permission_options payload kind =
     (case get payload ''options'' of
        None \<Rightarrow> Ok []
      | Some v \<Rightarrow>
          tryR (ok_or (as_array v) (invalid (kind @ '' options must be an array''))) (\<lambda>values.
          tryR (collect_results (read_permission_option kind) values) (\<lambda>options.
          if card (set (map po_option_id options)) \<noteq> length options
          then Err (invalid ''permission.requested optionIds must be unique'')
          else Ok options)))"

definition read_permission_outcome ::
  "json_map \<Rightarrow> string \<Rightarrow> (protocol_error, permission_outcome) result" where
  "read_permission_outcome payload kind =
     tryR (required_string payload ''outcome'' kind) (\<lambda>s.
     if s = ''approved'' then Ok Approved
     else if s = ''denied'' then Ok Denied
     else if s = ''timeout'' then Ok Timeout
     else if s = ''invalidated'' then Ok Invalidated
     else Err (invalid ''permission.resolved outcome must be approved, denied, timeout, or invalidated''))"

end
