(* ===== verification/Room_Handlers.thy ===== *)
theory Room_Handlers
  imports Room_Reducer
begin

section \<open>The handlers of the reducer\<close>

text \<open>
  One definition per \<open>fn\<close> of \<open>reducer.rs\<close> that takes an event, in the order of the file,
  with every guard in the source's order and the state written exactly where the source
  writes it. \<open>apply_event\<close> is \<open>RoomReducer::apply\<close>.
\<close>

definition ensure_session :: "reducer \<Rightarrow> string \<Rightarrow> (protocol_error, unit) result" where
  "ensure_session r sid =
     (case session_id r of
        Some bound \<Rightarrow> if bound \<noteq> sid then Err (SessionMismatch bound sid) else Ok ()
      | None \<Rightarrow> Ok ())"

definition match_lane ::
  "reducer \<Rightarrow> room_event \<Rightarrow> json_map \<Rightarrow> string \<Rightarrow> (protocol_error, lane_state) result" where
  "match_lane r event payload lane_id =
     tryR (required_agent payload (ev_kind event)) (\<lambda>agent.
     tryR (ok_or (lanes r lane_id) (invalid ''lane event has no queued lane'')) (\<lambda>l.
     if ln_turn_id l \<noteq> ev_turn_id event \<or> ln_agent l \<noteq> agent
     then Err (invalid ''lane event identity does not match queued lane'')
     else Ok l))"

definition match_permission_lane ::
  "reducer \<Rightarrow> room_event \<Rightarrow> string \<Rightarrow> (protocol_error, unit) result" where
  "match_permission_lane r event agent =
     (let matches = length (filter (\<lambda>l. ln_agent l = agent
            \<and> (ln_phase l = Running \<or> ln_phase l = Cancelling)) (turn_lanes r (ev_turn_id event)))
      in if matches \<noteq> 1
         then Err (invalid ''permission.requested requires exactly one matching running or cancelling lane'')
         else Ok ())"

definition validate_terminal_identity ::
  "reducer \<Rightarrow> room_event \<Rightarrow> (protocol_error, string) result" where
  "validate_terminal_identity r event =
     tryR (payload_of event) (\<lambda>payload.
     tryR (required_string payload ''laneId'' (ev_kind event)) (\<lambda>lane_id.
     tryR (match_lane r event payload lane_id) (\<lambda>l.
     case ln_stream_id l of
       Some expected_stream_id \<Rightarrow>
         tryR (required_string payload ''streamId'' (ev_kind event)) (\<lambda>actual_stream_id.
         if actual_stream_id \<noteq> expected_stream_id
         then Err (invalid ''terminal lane streamId does not match lane'') else Ok lane_id)
     | None \<Rightarrow> Ok lane_id)))"

subsection \<open>Room and turn\<close>

definition pause_room :: "reducer \<Rightarrow> apply_delta handler" where
  "pause_room r =
     (if paused r then (Err (invalid ''room.paused requires an unpaused room''), r)
      else (Ok Delta_None, r\<lparr>paused := True\<rparr>))"

definition resume_room :: "reducer \<Rightarrow> apply_delta handler" where
  "resume_room r =
     (if \<not> paused r then (Err (invalid ''room.resumed requires a paused room''), r)
      else (Ok Delta_None, r\<lparr>paused := False\<rparr>))"

definition accept_turn :: "room_event \<Rightarrow> reducer \<Rightarrow> apply_delta handler" where
  "accept_turn event r =
     tryS (payload_of event) r (\<lambda>payload.
     tryS (require_exact_fields payload (ev_kind event)
             [''agents'', ''text'', ''messageId'', ''ledgerSeq'']) r (\<lambda>_.
     tryS (unique_agents payload ''agents'' (ev_kind event)) r (\<lambda>agents.
     tryS (required_text payload ''text'' (ev_kind event)) r (\<lambda>text.
     tryS (required_string payload ''messageId'' (ev_kind event)) r (\<lambda>message_id.
     tryS (required_decimal payload ''ledgerSeq'' (ev_kind event)) r (\<lambda>ledger_seq.
     if turn r (ev_turn_id event) \<noteq> None
     then (Err (invalid ''turn.accepted requires a unique turnId''), r)
     else if message_id \<in> transcript_message_ids r
     then (Err (invalid ''turn.accepted messageId is already indexed''), r)
     else
       let r1 = push_transcript
                  \<lparr>tr_event_seq = ev_event_seq event, tr_occurred_at = ev_occurred_at event,
                   tr_turn_id = ev_turn_id event, tr_message_id = message_id, tr_text = text,
                   tr_ledger_seq = ledger_seq, tr_author = AuthorOperator, tr_target_agents = agents,
                   tr_reply_to = None, tr_origin = OriginOperator\<rparr> r
       in (Ok Delta_None,
           push_turn \<lparr>tn_id = ev_turn_id event, tn_agents = agents, tn_text = text,
             tn_message_id = message_id, tn_ledger_seq = ledger_seq,
             tn_accepted_at = ev_occurred_at event, tn_route = None, tn_completed_at = None\<rparr> r1)))))))"

definition resolve_route :: "room_event \<Rightarrow> reducer \<Rightarrow> apply_delta handler" where
  "resolve_route event r =
     tryS (payload_of event) r (\<lambda>payload.
     tryS (require_exact_fields payload (ev_kind event) [''agents'']) r (\<lambda>_.
     tryS (unique_agents payload ''agents'' (ev_kind event)) r (\<lambda>agents.
     tryS (ok_or (turn r (ev_turn_id event)) (invalid ''route.resolved requires an accepted turn'')) r (\<lambda>t.
     if tn_agents t \<noteq> agents
     then (Err (invalid ''route.resolved agents do not match turn.accepted''), r)
     else tryS (expect (turn r (ev_turn_id event)) ''validated turn exists'') r (\<lambda>t.
     if tn_route t \<noteq> None then (Err (invalid ''route.resolved is single-use per turn''), r)
     else (Ok Delta_None,
           store_turn (ev_turn_id event)
             (t\<lparr>tn_route := Some \<lparr>rt_agents = agents, rt_resolved_at = ev_occurred_at event\<rparr>\<rparr>) r))))))"

subsection \<open>Lanes\<close>

text \<open>The \<open>match provenance.origin\<close> of \<open>queue_lane\<close>: may this lane join the turn?\<close>

definition queue_admission ::
  "room_event \<Rightarrow> reducer \<Rightarrow> turn_state \<Rightarrow> route_state \<Rightarrow> string \<Rightarrow> lane_provenance \<Rightarrow>
   (protocol_error, unit) result" where
  "queue_admission event r t route agent provenance =
       (if lp_origin provenance = OriginOperator then
          if agent \<notin> set (rt_agents route)
          then Err (invalid ''operator lane.queued agent is not a route target'')
          else if (case lp_parent_message_id provenance of
                     Some parent \<Rightarrow> parent \<noteq> tn_message_id t | None \<Rightarrow> False)
          then Err (invalid ''operator lane.queued parentMessageId does not match turn.accepted'')
          else if list_ex (\<lambda>l. ln_origin l = OriginOperator \<and> ln_agent l = agent)
                    (turn_lanes r (ev_turn_id event))
          then Err (invalid ''turn requires one operator lane per routed agent'')
          else Ok ()
        else
          if lp_reply_to provenance \<noteq> lp_parent_message_id provenance
          then Err (invalid ''agent lane.queued replyTo does not match parentMessageId'')
          else tryR (expect (lp_hop_id provenance) ''agent provenance hop id'') (\<lambda>hop_id.
          tryR (ok_or (hop r hop_id) (invalid ''agent lane.queued has no dispatched hop'')) (\<lambda>h.
          if hp_disposition h \<noteq> Dispatched \<or> hp_turn_id h \<noteq> ev_turn_id event
          then Err (invalid ''agent lane.queued provenance does not match dispatched hop'')
          else tryR (expect (lp_from_agent provenance) ''agent provenance'') (\<lambda>from_agent.
          if hp_from_agent h \<noteq> from_agent \<or> hp_to_agent h \<noteq> agent
          then Err (invalid ''agent lane.queued provenance does not match dispatched hop'')
          else tryR (expect (lp_parent_message_id provenance) ''agent provenance'') (\<lambda>parent.
          if hp_parent_message_id h \<noteq> parent \<or> hp_hop_index h \<noteq> lp_hop_index provenance
          then Err (invalid ''agent lane.queued provenance does not match dispatched hop'')
          else Ok ())))))"

definition queue_lane :: "room_event \<Rightarrow> reducer \<Rightarrow> apply_delta handler" where
  "queue_lane event r =
     tryS (payload_of event) r (\<lambda>payload.
     tryS (required_string payload ''laneId'' (ev_kind event)) r (\<lambda>lane_id.
     tryS (required_agent payload (ev_kind event)) r (\<lambda>agent.
     tryS (required_string payload ''expectedMessageId'' (ev_kind event)) r (\<lambda>expected_message_id.
     tryS (queue_provenance payload (ev_kind event)) r (\<lambda>provenance.
     tryS (ok_or (turn r (ev_turn_id event)) (invalid ''lane.queued requires an accepted turn'')) r (\<lambda>t.
     tryS (ok_or (tn_route t) (invalid ''lane.queued requires a resolved route'')) r (\<lambda>route.
     if lanes r lane_id \<noteq> None then (Err (invalid ''lane.queued requires a unique laneId''), r)
     else
     tryS (queue_admission event r t route agent provenance) r (\<lambda>_.
     (Ok Delta_None,
      push_lane
        \<lparr>ln_id = lane_id, ln_turn_id = ev_turn_id event, ln_agent = agent,
         ln_expected_message_id = expected_message_id, ln_origin = lp_origin provenance,
         ln_hop_index = lp_hop_index provenance,
         ln_parent_message_id = lp_parent_message_id provenance,
         ln_reply_to = lp_reply_to provenance, ln_from_agent = lp_from_agent provenance,
         ln_hop_id = lp_hop_id provenance, ln_phase = Queued,
         ln_roster_index = of_nat (length (lane_order r)), ln_queued_at = ev_occurred_at event,
         ln_started_at = None, ln_terminal_at = None, ln_terminal_event_seq = None,
         ln_failure_reason = None, ln_stream_id = None, ln_message_commit = None,
         ln_activity = []\<rparr> r)))))))))"

definition start_lane :: "room_event \<Rightarrow> reducer \<Rightarrow> apply_delta handler" where
  "start_lane event r =
     tryS (payload_of event) r (\<lambda>payload.
     tryS (required_string payload ''laneId'' (ev_kind event)) r (\<lambda>lane_id.
     tryS (required_string payload ''streamId'' (ev_kind event)) r (\<lambda>stream_id.
     tryS (optional_string payload ''modelId'' (ev_kind event)) r (\<lambda>model_id.
     tryS (match_lane r event payload lane_id) r (\<lambda>l.
     if ln_phase l \<noteq> Queued then (Err (invalid ''lane.started requires a queued lane''), r)
     else if streams r stream_id \<noteq> None
     then (Err (invalid ''lane.started requires a unique streamId''), r)
     else tryS (expect (lanes r lane_id) ''validated lane exists'') r (\<lambda>l.
     let r1 = store_lane lane_id (l\<lparr>ln_phase := Running, ln_started_at := Some (ev_occurred_at event),
                           ln_stream_id := Some stream_id\<rparr>) r
     in (Ok (Delta_Started stream_id),
         push_stream
           \<lparr>st_id = stream_id, st_lane_id = lane_id, st_agent = ln_agent l, st_turn_id = ln_turn_id l,
            st_started_event_seq = ev_event_seq event, st_started_at = ev_occurred_at event,
            st_model_id = model_id, st_text = [], st_next_chunk_index = 0,
            st_next_stream_seq = ''1''\<rparr> r1)))))))"

definition record_activity :: "room_event \<Rightarrow> reducer \<Rightarrow> apply_delta handler" where
  "record_activity event r =
     tryS (payload_of event) r (\<lambda>payload.
     tryS (required_string payload ''laneId'' (ev_kind event)) r (\<lambda>lane_id.
     tryS (required_string payload ''streamId'' (ev_kind event)) r (\<lambda>stream_id.
     tryS (required_string payload ''toolCallId'' (ev_kind event)) r (\<lambda>tool_call_id.
     tryS (activity_update payload (ev_kind event)) r (\<lambda>update.
     tryS (optional_string payload ''title'' (ev_kind event)) r (\<lambda>title.
     tryS (optional_string payload ''kind'' (ev_kind event)) r (\<lambda>kind.
     tryS (optional_string payload ''status'' (ev_kind event)) r (\<lambda>status.
     tryS (match_lane r event payload lane_id) r (\<lambda>l.
     if ln_phase l \<noteq> Running \<and> ln_phase l \<noteq> Cancelling
     then (Err (invalid ''lane.activity requires a running or cancelling lane''), r)
     else if ln_stream_id l \<noteq> Some stream_id
     then (Err (invalid ''lane.activity streamId does not match lane''), r)
     else tryS (expect (lanes r lane_id) ''validated lane exists'') r (\<lambda>l.
     (Ok Delta_None,
      store_lane lane_id
        (if list_ex (\<lambda>a. la_tool_call_id a = tool_call_id) (ln_activity l)
         then l\<lparr>ln_activity := update_first (\<lambda>a. la_tool_call_id a = tool_call_id)
                (\<lambda>a. a\<lparr>la_last_event_seq := ev_event_seq event, la_update := update,
                      la_title := (if title \<noteq> None then title else la_title a),
                      la_kind := (if kind \<noteq> None then kind else la_kind a),
                      la_status := (if status \<noteq> None then status else la_status a)\<rparr>) (ln_activity l)\<rparr>
         else l\<lparr>ln_activity := ln_activity l @
                [\<lparr>la_last_event_seq = ev_event_seq event, la_tool_call_id = tool_call_id,
                  la_update = update, la_title = title, la_kind = kind, la_status = status\<rparr>]\<rparr>) r)))))))))))"

definition append_chunk :: "room_event \<Rightarrow> reducer \<Rightarrow> apply_delta handler" where
  "append_chunk event r =
     tryS (payload_of event) r (\<lambda>payload.
     tryS (required_string payload ''laneId'' (ev_kind event)) r (\<lambda>lane_id.
     tryS (required_string payload ''streamId'' (ev_kind event)) r (\<lambda>stream_id.
     tryS (required_text payload ''text'' (ev_kind event)) r (\<lambda>text.
     tryS (required_string payload ''streamSeq'' (ev_kind event)) r (\<lambda>stream_seq.
     tryS (optional_string payload ''modelId'' (ev_kind event)) r (\<lambda>model_id.
     tryS (ok_or (get_u64 payload ''chunkIndex'')
             (invalid ''lane.chunk requires nonnegative chunkIndex'')) r (\<lambda>chunk_index.
     tryS (match_lane r event payload lane_id) r (\<lambda>l.
     if ln_phase l \<noteq> Running \<and> ln_phase l \<noteq> Cancelling
     then (Err (invalid ''lane.chunk requires a running or cancelling lane''), r)
     else if ln_stream_id l \<noteq> Some stream_id
     then (Err (invalid ''lane.chunk streamId does not match lane''), r)
     else tryS (ok_or (streams r stream_id) (invalid ''lane.chunk has no started stream'')) r (\<lambda>s.
     if st_lane_id s \<noteq> lane_id
     then (Err (invalid ''lane.chunk stream does not belong to lane''), r)
     else if st_next_chunk_index s \<noteq> chunk_index
     then (Err (invalid ''lane.chunk chunkIndex is not the next cursor''), r)
     else if st_next_stream_seq s \<noteq> stream_seq
     then (Err (StreamGap stream_id (st_next_stream_seq s) stream_seq), r)
     else tryS (case model_id of
                  None \<Rightarrow> Ok (st_model_id s)
                | Some m \<Rightarrow>
                    (case st_model_id s of
                       Some observed \<Rightarrow>
                         if observed \<noteq> m
                         then Err (invalid ''lane.chunk modelId conflicts with observed stream model'')
                         else Ok (Some observed)
                     | None \<Rightarrow> Ok (Some m))) r (\<lambda>observed_model.
     let s1 = s\<lparr>st_model_id := observed_model, st_text := st_text s @ text,
                st_next_chunk_index := st_next_chunk_index s + 1,
                st_next_stream_seq := increment_decimal (st_next_stream_seq s)\<rparr>
     in (Ok (Delta_Changed (st_id s)), store_stream stream_id s1 r)))))))))))"

definition begin_cancellation :: "room_event \<Rightarrow> reducer \<Rightarrow> apply_delta handler" where
  "begin_cancellation event r =
     tryS (payload_of event) r (\<lambda>payload.
     tryS (required_string payload ''laneId'' (ev_kind event)) r (\<lambda>lane_id.
     tryS (match_lane r event payload lane_id) r (\<lambda>l.
     if ln_phase l \<noteq> Running \<and> ln_phase l \<noteq> Cancelling
     then (Err (invalid ''lane.cancelling requires a running or cancelling lane''), r)
     else tryS (expect (lanes r lane_id) ''validated lane exists'') r (\<lambda>l.
     (Ok Delta_None, store_lane lane_id (l\<lparr>ln_phase := Cancelling\<rparr>) r)))))"

definition commit_message :: "room_event \<Rightarrow> reducer \<Rightarrow> apply_delta handler" where
  "commit_message event r =
     tryS (payload_of event) r (\<lambda>payload.
     tryS (required_string payload ''laneId'' (ev_kind event)) r (\<lambda>lane_id.
     tryS (required_string payload ''messageId'' (ev_kind event)) r (\<lambda>message_id.
     tryS (required_text payload ''text'' (ev_kind event)) r (\<lambda>text.
     tryS (required_decimal payload ''ledgerSeq'' (ev_kind event)) r (\<lambda>ledger_seq.
     tryS (read_lane_origin payload (ev_kind event)) r (\<lambda>origin.
     tryS (required_u64 payload ''hopIndex'' (ev_kind event)) r (\<lambda>hop_index.
     tryS (optional_string payload ''replyTo'' (ev_kind event)) r (\<lambda>reply_to.
     tryS (match_lane r event payload lane_id) r (\<lambda>l.
     if ln_phase l \<noteq> Queued \<and> ln_phase l \<noteq> Running \<and> ln_phase l \<noteq> Cancelling
     then (Err (invalid ''message.committed requires a queued, running, or cancelling lane''), r)
     else if message_id \<noteq> ln_expected_message_id l
     then (Err (invalid ''message.committed messageId does not match expectedMessageId''), r)
     else if origin \<noteq> ln_origin l \<or> hop_index \<noteq> ln_hop_index l
     then (Err (invalid ''message.committed origin or hopIndex does not match lane''), r)
     else if reply_to \<noteq> ln_reply_to l
     then (Err (invalid ''message.committed replyTo does not match lane''), r)
     else if message_id \<in> transcript_message_ids r
     then (Err (invalid ''message.committed messageId is already indexed''), r)
     else tryS (case ln_stream_id l of
                  None \<Rightarrow> Ok r
                | Some stream_id \<Rightarrow>
                    tryR (ok_or (streams r stream_id)
                            (invalid ''message.committed lane stream is missing'')) (\<lambda>s.
                    Ok (store_stream stream_id (s\<lparr>st_text := text\<rparr>) r))) r (\<lambda>r1.
     tryS (expect (lanes r1 lane_id) ''validated lane exists'') r1 (\<lambda>l.
     let l1 = l\<lparr>ln_message_commit := Some \<lparr>mc_message_id = message_id, mc_text = text,
                                           mc_ledger_seq = ledger_seq\<rparr>,
                ln_phase := Committed\<rparr>;
         r2 = store_lane lane_id l1 r1;
         r3 = r2\<lparr>message_lanes := (message_lanes r2)(message_id \<mapsto> lane_id)\<rparr>
     in (Ok Delta_None,
         push_transcript
           \<lparr>tr_event_seq = ev_event_seq event, tr_occurred_at = ev_occurred_at event,
            tr_turn_id = ev_turn_id event, tr_message_id = message_id, tr_text = text,
            tr_ledger_seq = ledger_seq, tr_author = AuthorAgent (ln_agent l1), tr_target_agents = [],
            tr_reply_to = ln_reply_to l1, tr_origin = ln_origin l1\<rparr> r3))))))))))))"

definition complete_lane :: "room_event \<Rightarrow> reducer \<Rightarrow> apply_delta handler" where
  "complete_lane event r =
     tryS (validate_terminal_identity r event) r (\<lambda>lane_id.
     tryS (expect (lanes r lane_id) ''validated lane exists'') r (\<lambda>l.
     if ln_phase l \<noteq> Committed then (Err (invalid ''lane.completed requires a committed lane''), r)
     else (Ok Delta_None,
           store_lane lane_id (l\<lparr>ln_phase := Completed, ln_terminal_at := Some (ev_occurred_at event),
                         ln_terminal_event_seq := Some (ev_event_seq event)\<rparr>) r)))"

definition fail_lane :: "room_event \<Rightarrow> reducer \<Rightarrow> apply_delta handler" where
  "fail_lane event r =
     tryS (payload_of event) r (\<lambda>payload.
     tryS (require_allowed_fields payload (ev_kind event)
             [''laneId'', ''streamId'', ''agent'', ''error'', ''recovered'']) r (\<lambda>_.
     tryS (optional_string payload ''error'' (ev_kind event)) r (\<lambda>failure_reason.
     tryS (case get payload ''recovered'' of
             None \<Rightarrow> Ok False
           | Some v \<Rightarrow> if v = JBool True then Ok True
                       else Err (invalid ''lane.failed recovered must be true when present'')) r (\<lambda>recovered.
     tryS (validate_terminal_identity r event) r (\<lambda>lane_id.
     tryS (expect (lanes r lane_id) ''validated lane exists'') r (\<lambda>l.
     if ln_phase l \<noteq> Running \<and> ln_phase l \<noteq> Cancelling \<and> \<not> (recovered \<and> ln_phase l = Queued)
     then (Err (invalid ''lane.failed requires a running/cancelling lane or a recovered queued lane''), r)
     else (Ok Delta_None,
           store_lane lane_id (l\<lparr>ln_phase := Failed, ln_terminal_at := Some (ev_occurred_at event),
                         ln_terminal_event_seq := Some (ev_event_seq event),
                         ln_failure_reason := failure_reason\<rparr>) r)))))))"

definition cancel_lane :: "room_event \<Rightarrow> reducer \<Rightarrow> apply_delta handler" where
  "cancel_lane event r =
     tryS (validate_terminal_identity r event) r (\<lambda>lane_id.
     tryS (expect (lanes r lane_id) ''validated lane exists'') r (\<lambda>l.
     if ln_phase l \<noteq> Queued \<and> ln_phase l \<noteq> Running \<and> ln_phase l \<noteq> Cancelling
     then (Err (invalid ''lane.cancelled requires a queued, running, or cancelling lane''), r)
     else (Ok Delta_None,
           store_lane lane_id (l\<lparr>ln_phase := Cancelled, ln_terminal_at := Some (ev_occurred_at event),
                         ln_terminal_event_seq := Some (ev_event_seq event)\<rparr>) r)))"

subsection \<open>Permissions, hops, agents\<close>

definition request_permission :: "room_event \<Rightarrow> reducer \<Rightarrow> apply_delta handler" where
  "request_permission event r =
     tryS (payload_of event) r (\<lambda>payload.
     tryS (required_string payload ''askId'' (ev_kind event)) r (\<lambda>ask_id.
     tryS (required_agent payload (ev_kind event)) r (\<lambda>agent.
     tryS (permission_options payload (ev_kind event)) r (\<lambda>options.
     tryS (match_permission_lane r event agent) r (\<lambda>_.
     if permission_indices r ask_id \<noteq> None
     then (Err (invalid ''permission.requested requires a unique askId''), r)
     else tryS (optional_string payload ''toolTitle'' (ev_kind event)) r (\<lambda>tool_title.
     (Ok Delta_None,
      push_permission
        \<lparr>pm_requested_event_seq = ev_event_seq event, pm_requested_at = ev_occurred_at event,
         pm_resolved_event_seq = None, pm_resolved_at = None, pm_ask_id = ask_id,
         pm_turn_id = ev_turn_id event, pm_agent = agent, pm_options = options,
         pm_tool_title = tool_title, pm_outcome = None, pm_option_id = None\<rparr> r)))))))"

definition record_agent_status :: "room_event \<Rightarrow> reducer \<Rightarrow> apply_delta handler" where
  "record_agent_status event r =
     tryS (payload_of event) r (\<lambda>payload.
     tryS (required_agent payload (ev_kind event)) r (\<lambda>agent.
     tryS (optional_agent_auth payload (ev_kind event)) r (\<lambda>auth.
     tryS (optional_agent_usage payload (ev_kind event)) r (\<lambda>usage.
     tryS (optional_agent_availability payload (ev_kind event)) r (\<lambda>availability.
     if auth = None \<and> usage = None \<and> availability = None
     then (Err (invalid ''agent.status requires status data''), r)
     else
       let prior = map_of (agent_statuses r) agent;
           merged_auth = opt_or auth (Option.bind prior as_auth);
           merged_usage = opt_or usage (Option.bind prior as_usage);
           merged_auth = (if (case merged_usage of Some u \<Rightarrow> us_exhausted u | None \<Rightarrow> False)
                             \<and> merged_auth = Some AuthReady
                          then Some AuthLimited else merged_auth);
           (merged_availability, resets_at_ms) =
             (case availability of
                Some (state, resets_at_ms) \<Rightarrow> (Some state, resets_at_ms)
              | None \<Rightarrow> (Option.bind prior as_availability,
                         Option.bind prior as_availability_resets_at_ms))
       in (Ok Delta_None,
           r\<lparr>agent_statuses := btree_insert agent
               \<lparr>as_agent = agent, as_last_event_seq = ev_event_seq event,
                as_occurred_at = ev_occurred_at event, as_auth = merged_auth, as_usage = merged_usage,
                as_availability = merged_availability,
                as_availability_resets_at_ms = resets_at_ms\<rparr> (agent_statuses r)\<rparr>))))))"

definition read_available_mode_ids ::
  "json_map \<Rightarrow> (protocol_error, string list option) result" where
  "read_available_mode_ids payload =
     (case get payload ''availableModeIds'' of
        None \<Rightarrow> Ok None
      | Some (JArray values) \<Rightarrow>
          tryR (collect_results (\<lambda>v. ok_or (opt_filter (\<lambda>s. s \<noteq> []) (as_str v))
                  (invalid ''agent.mode availableModeIds is invalid'')) values) (\<lambda>ids. Ok (Some ids))
      | Some _ \<Rightarrow> Err (invalid ''agent.mode availableModeIds is invalid''))"

definition record_agent_mode :: "room_event \<Rightarrow> reducer \<Rightarrow> apply_delta handler" where
  "record_agent_mode event r =
     tryS (payload_of event) r (\<lambda>payload.
     tryS (require_allowed_fields payload (ev_kind event)
             [''agent'', ''modeId'', ''word'', ''status'', ''error'', ''availableModeIds'']) r (\<lambda>_.
     tryS (required_agent payload (ev_kind event)) r (\<lambda>agent.
     tryS (required_string payload ''modeId'' (ev_kind event)) r (\<lambda>mode_id.
     tryS (tryR (required_string payload ''status'' (ev_kind event)) (\<lambda>s.
             if s = ''active'' then Ok ModeActive
             else if s = ''pending'' then Ok ModePending
             else if s = ''failed'' then Ok ModeFailed
             else Err (invalid ''agent.mode status is invalid''))) r (\<lambda>status.
     tryS (optional_string payload ''word'' (ev_kind event)) r (\<lambda>word.
     tryS (optional_string payload ''error'' (ev_kind event)) r (\<lambda>error.
     tryS (read_available_mode_ids payload) r (\<lambda>available_mode_ids.
     (Ok Delta_None,
      r\<lparr>agent_modes := btree_insert agent
          \<lparr>am_agent = agent, am_mode_id = mode_id, am_word = word, am_status = status,
           am_error = error, am_available_mode_ids = available_mode_ids,
           am_last_event_seq = ev_event_seq event, am_occurred_at = ev_occurred_at event\<rparr>
          (agent_modes r)\<rparr>)))))))))"

definition resolve_permission :: "room_event \<Rightarrow> reducer \<Rightarrow> apply_delta handler" where
  "resolve_permission event r =
     tryS (payload_of event) r (\<lambda>payload.
     tryS (required_string payload ''askId'' (ev_kind event)) r (\<lambda>ask_id.
     tryS (required_agent payload (ev_kind event)) r (\<lambda>agent.
     tryS (read_permission_outcome payload (ev_kind event)) r (\<lambda>outcome.
     tryS (optional_string payload ''optionId'' (ev_kind event)) r (\<lambda>option_id.
     tryS (ok_or (permission r ask_id) (invalid ''permission.resolved has no pending askId'')) r (\<lambda>p.
     if pm_outcome p \<noteq> None
     then (Err (invalid ''permission.resolved requires a pending askId''), r)
     else if pm_turn_id p \<noteq> ev_turn_id event \<or> pm_agent p \<noteq> agent
     then (Err (invalid ''permission.resolved identity does not match request''), r)
     else if (case option_id of
                Some selected \<Rightarrow> \<not> list_ex (\<lambda>o1. po_option_id o1 = selected) (pm_options p)
              | None \<Rightarrow> False)
     then (Err (invalid ''permission.resolved optionId was not offered by the request''), r)
     else (Ok Delta_None,
           store_permission ask_id
             (p\<lparr>pm_outcome := Some outcome, pm_option_id := option_id,
                pm_resolved_event_seq := Some (ev_event_seq event),
                pm_resolved_at := Some (ev_occurred_at event)\<rparr>) r)))))))"

definition record_hop :: "room_event \<Rightarrow> hop_disposition \<Rightarrow> reducer \<Rightarrow> apply_delta handler" where
  "record_hop event disposition r =
     tryS (payload_of event) r (\<lambda>payload.
     tryS (required_string payload ''hopId'' (ev_kind event)) r (\<lambda>hop_id.
     tryS (required_agent_field payload ''fromAgent'' (ev_kind event)) r (\<lambda>from_agent.
     tryS (required_agent_field payload ''toAgent'' (ev_kind event)) r (\<lambda>to_agent.
     tryS (required_string payload ''parentMessageId'' (ev_kind event)) r (\<lambda>parent_message_id.
     tryS (required_u64 payload ''hopIndex'' (ev_kind event)) r (\<lambda>hop_index.
     tryS (if contains_key payload ''maxHop'' then required_u64 payload ''maxHop'' (ev_kind event)
           else required_u64 payload ''hopBudget'' (ev_kind event)) r (\<lambda>hop_budget.
     tryS (optional_string payload ''text'' (ev_kind event)) r (\<lambda>text.
     if hop_budget = 0 then (Err (invalid ''hop event requires a positive hopBudget''), r)
     else if hop r hop_id \<noteq> None then (Err (invalid ''hop event requires a unique hopId''), r)
     else tryS (ok_or (message_lanes r parent_message_id)
                  (invalid ''hop event parentMessageId has no committed lane'')) r (\<lambda>parent_lane_id.
     tryS (expect (lanes r parent_lane_id) ''message index references an existing lane'') r (\<lambda>parent_lane.
     if ln_turn_id parent_lane \<noteq> ev_turn_id event \<or> ln_agent parent_lane \<noteq> from_agent
     then (Err (invalid ''hop event parent does not match turn or fromAgent''), r)
     else if hop_index \<noteq> ln_hop_index parent_lane + 1
     then (Err (invalid ''hop event hopIndex does not follow parent lane''), r)
     else if disposition = Dispatched \<and> hop_index > hop_budget
     then (Err (invalid ''hop.dispatched exceeds hopBudget''), r)
     else if disposition = Blocked \<and> hop_index \<le> hop_budget
     then (Err (invalid ''hop.blocked must exceed hopBudget''), r)
     else (Ok Delta_None,
           push_hop
             \<lparr>hp_event_seq = ev_event_seq event, hp_occurred_at = ev_occurred_at event,
              hp_hop_id = hop_id, hp_turn_id = ev_turn_id event, hp_from_agent = from_agent,
              hp_to_agent = to_agent, hp_parent_message_id = parent_message_id,
              hp_hop_index = hop_index, hp_hop_budget = hop_budget, hp_text = text,
              hp_disposition = disposition\<rparr> r)))))))))))"

subsection \<open>Turn completion and the markers\<close>

definition complete_turn :: "room_event \<Rightarrow> reducer \<Rightarrow> apply_delta handler" where
  "complete_turn event r =
     tryS (payload_of event) r (\<lambda>payload.
     tryS (if get payload ''recovered'' = None \<and> payload = [] then Ok False
           else if get payload ''recovered'' = Some (JBool True) \<and> length payload = 1 then Ok True
           else Err (invalid ''turn.completed payload must be {} or {recovered:true}'')) r (\<lambda>recovered.
     tryS (ok_or (turn r (ev_turn_id event)) (invalid ''turn.completed requires an accepted turn'')) r (\<lambda>t.
     tryS (ok_or (tn_route t) (invalid ''turn.completed requires a resolved route'')) r (\<lambda>route.
     if tn_completed_at t \<noteq> None
     then (Err (invalid ''turn.completed is single-use per turn''), r)
     else
       let root_agents = map ln_agent
             (filter (\<lambda>l. ln_origin l = OriginOperator) (turn_lanes r (ev_turn_id event)))
       in if rt_agents route = [] \<or> length (rt_agents route) \<noteq> length root_agents
             \<or> list_ex (\<lambda>agent. length (filter (\<lambda>candidate. candidate = agent) root_agents) \<noteq> 1)
                 (rt_agents route)
          then (Err (invalid ''turn.completed requires exactly one root lane for every routed agent''), r)
          else if list_ex (\<lambda>l. \<not> terminal (ln_phase l)) (turn_lanes r (ev_turn_id event))
          then (Err (invalid ''turn.completed requires every turn lane to be terminal''), r)
          else tryS (expect (turn r (ev_turn_id event)) ''validated turn exists'') r (\<lambda>t.
            (Ok Delta_None,
             store_turn (ev_turn_id event) (t\<lparr>tn_completed_at := Some (ev_occurred_at event)\<rparr>) r))))))"

definition record_backend_failure :: "room_event \<Rightarrow> reducer \<Rightarrow> apply_delta handler" where
  "record_backend_failure event r =
     tryS (payload_of event) r (\<lambda>payload.
     tryS (require_allowed_fields payload (ev_kind event) [''message'', ''error'']) r (\<lambda>_.
     tryS (optional_string payload ''message'' (ev_kind event)) r (\<lambda>message.
     tryS (optional_string payload ''error'' (ev_kind event)) r (\<lambda>error.
     (Ok Delta_None,
      r\<lparr>backend_failures := backend_failures r @
          [\<lparr>bf_event_seq = ev_event_seq event, bf_turn_id = ev_turn_id event,
            bf_occurred_at = ev_occurred_at event, bf_message = message, bf_error = error\<rparr>]\<rparr>)))))"

definition record_room_notice :: "room_event \<Rightarrow> reducer \<Rightarrow> apply_delta handler" where
  "record_room_notice event r =
     tryS (payload_of event) r (\<lambda>payload.
     tryS (require_allowed_fields payload (ev_kind event) [''cause'', ''agent'', ''detail'']) r (\<lambda>_.
     tryS (required_string payload ''cause'' (ev_kind event)) r (\<lambda>cause.
     tryS (optional_string payload ''agent'' (ev_kind event)) r (\<lambda>agent.
     (Ok Delta_None,
      r\<lparr>room_notices := room_notices r @
          [\<lparr>rn_event_seq = ev_event_seq event, rn_turn_id = ev_turn_id event,
            rn_occurred_at = ev_occurred_at event, rn_cause = cause, rn_agent = agent\<rparr>]\<rparr>)))))"

subsection \<open>Dispatch and \<open>apply\<close>\<close>

definition apply_transition :: "room_event \<Rightarrow> reducer \<Rightarrow> apply_delta handler" where
  "apply_transition event r =
     (let kind = ev_kind event in
      if kind = ''turn.accepted'' then accept_turn event r
      else if kind = ''route.resolved'' then resolve_route event r
      else if kind = ''room.paused'' then pause_room r
      else if kind = ''room.resumed'' then resume_room r
      else if kind = ''lane.queued'' then queue_lane event r
      else if kind = ''lane.started'' then start_lane event r
      else if kind = ''lane.activity'' then record_activity event r
      else if kind = ''lane.chunk'' then append_chunk event r
      else if kind = ''lane.cancelling'' then begin_cancellation event r
      else if kind = ''message.committed'' then commit_message event r
      else if kind = ''lane.completed'' then complete_lane event r
      else if kind = ''lane.failed'' then fail_lane event r
      else if kind = ''lane.cancelled'' then cancel_lane event r
      else if kind = ''agent.status'' then record_agent_status event r
      else if kind = ''agent.mode'' then record_agent_mode event r
      else if kind = ''permission.requested'' then request_permission event r
      else if kind = ''permission.resolved'' then resolve_permission event r
      else if kind = ''hop.dispatched'' then record_hop event Dispatched r
      else if kind = ''hop.blocked'' then record_hop event Blocked r
      else if kind = ''turn.completed'' then complete_turn event r
      else if kind = ''backend.failed'' then record_backend_failure event r
      else if kind = ''room.notice'' then record_room_notice event r
      else (Ok Delta_None, r))"

definition note_applied :: "room_event \<Rightarrow> reducer \<Rightarrow> reducer" where
  "note_applied event r =
     r\<lparr>session_id := Some (case session_id r of Some s \<Rightarrow> s | None \<Rightarrow> ev_session_id event),
       last_event_seq := ev_event_seq event,
       events_by_id := (events_by_id r)(ev_event_id event \<mapsto> event)\<rparr>"

definition apply_event ::
  "(string \<Rightarrow> bool) \<Rightarrow> room_event \<Rightarrow> reducer \<Rightarrow> apply_delta handler" where
  "apply_event rfc3339 event r =
     tryS (validate rfc3339 event) r (\<lambda>_.
     tryS (ensure_session r (ev_session_id event)) r (\<lambda>_.
     case events_by_id r (ev_event_id event) of
       Some previous \<Rightarrow>
         if previous = event then (Ok Delta_None, r)
         else (Err (ConflictingEventId (ev_event_id event)), r)
     | None \<Rightarrow>
         let expected = increment_decimal (last_event_seq r) in
         if ev_event_seq event \<noteq> expected
         then (Err (EventGap expected (ev_event_seq event)), r)
         else bindS (apply_transition event r) (\<lambda>delta r1. (Ok delta, note_applied event r1))))"

end
