(* ===== verification/Room_Steps.thy ===== *)
theory Room_Steps
  imports Room_Handlers
begin

section \<open>The reducer as a state machine\<close>

text \<open>
  The abstract machine behind the handlers: \<open>room_step e r r'\<close> says, without JSON and without
  error text, what an accepted event \<open>e\<close> may do to the room. Every handler of
  \<^theory_text>\<open>Room_Handlers\<close> that answers \<open>Ok\<close> makes one of these steps (\<open>transition_step\<close>), so an
  invariant of the room is a case analysis over sixteen rules. Failing handlers are shown to be
  atomic.
\<close>

subsection \<open>What the readers return\<close>

lemma is_agent_nonempty [simp]: "\<not> is_agent []"
  by (simp add: is_agent_def)

lemma payload_of_Ok [simp]: "payload_of e = Ok p \<longleftrightarrow> ev_payload e = JObject p"
  by (simp add: payload_of_def)

lemma required_string_Ok: "required_string p f k = Ok s \<longleftrightarrow> get_str p f = Some s \<and> s \<noteq> []"
  by (auto simp: required_string_def)

lemma required_agent_Ok:
  "required_agent p k = Ok a \<longleftrightarrow> get_str p ''agent'' = Some a \<and> is_agent a"
  by (auto simp: required_agent_def required_string_Ok)

lemma required_agent_field_Ok:
  "required_agent_field p f k = Ok a \<longleftrightarrow> get_str p f = Some a \<and> is_agent a"
  by (auto simp: required_agent_field_def required_string_Ok)

lemma required_text_Ok: "required_text p f k = Ok s \<longleftrightarrow> get_str p f = Some s"
  by (auto simp: required_text_def)

lemma required_decimal_Ok:
  "required_decimal p f k = Ok s \<longleftrightarrow> get_str p f = Some s \<and> valid_decimal s"
  by (auto simp: required_decimal_def required_string_Ok valid_decimal_def validate_decimal_def
      split: if_splits)

lemma required_u64_Ok: "required_u64 p f k = Ok n \<longleftrightarrow> get_u64 p f = Some n"
  by (simp add: required_u64_def)

lemma optional_string_Ok:
  "optional_string p f k = Ok x \<longleftrightarrow>
     (get p f = None \<and> x = None) \<or> (\<exists>s. get p f = Some (JString s) \<and> s \<noteq> [] \<and> x = Some s)"
  by (auto simp: optional_string_def split: option.splits)

lemmas reader_Ok = required_string_Ok required_agent_Ok required_agent_field_Ok required_text_Ok
  required_decimal_Ok required_u64_Ok optional_string_Ok

lemma unique_agents_loop_Ok:
  "unique_agents_loop k seen vs = Ok as \<Longrightarrow>
   distinct as \<and> set as \<inter> set seen = {} \<and> list_all is_agent as \<and> vs = map JString as"
proof (induction k seen vs arbitrary: as rule: unique_agents_loop.induct)
  case (2 k seen v rest)
  then obtain a as' where a: "v = JString a" "is_agent a" "a \<notin> set seen" "as = a # as'"
    and rec: "unique_agents_loop k (a # seen) rest = Ok as'"
    by (auto split: if_splits)
  from "2.IH" [OF a(3) rec] a show ?case by auto
qed simp

lemma unique_agents_Ok:
  assumes "unique_agents p f k = Ok as"
  shows "as \<noteq> []" "distinct as" "list_all is_agent as"
proof -
  from assms obtain vs where "vs \<noteq> []" "unique_agents_loop k [] vs = Ok as"
    by (auto simp: unique_agents_def)
  with unique_agents_loop_Ok [of k "[]" vs as] show "as \<noteq> []" "distinct as" "list_all is_agent as"
    by auto
qed

lemma match_lane_Ok:
  "match_lane r e p lane_id = Ok l \<longleftrightarrow>
     lanes r lane_id = Some l \<and> ln_turn_id l = ev_turn_id e
     \<and> get_str p ''agent'' = Some (ln_agent l) \<and> is_agent (ln_agent l)"
  by (auto simp: match_lane_def required_agent_Ok split: if_splits)

lemma validate_terminal_identity_Ok:
  assumes "validate_terminal_identity r e = Ok lane_id"
  obtains l where "lanes r lane_id = Some l" "ln_turn_id l = ev_turn_id e"
  using assms by (auto simp: validate_terminal_identity_def match_lane_Ok split: option.splits if_splits)

lemma queue_provenance_Ok:
  assumes "queue_provenance p k = Ok v"
  shows "(lp_origin v = OriginOperator \<and> lp_hop_index v = 0 \<and> lp_reply_to v = None
            \<and> lp_from_agent v = None \<and> lp_hop_id v = None)
       \<or> (lp_origin v = OriginAgent \<and> 0 < lp_hop_index v \<and> lp_reply_to v \<noteq> None
            \<and> lp_parent_message_id v \<noteq> None \<and> lp_from_agent v \<noteq> None \<and> lp_hop_id v \<noteq> None)"
proof (cases "read_lane_origin p k")
  case (Ok origin)
  with assms show ?thesis
    by (cases origin)
      (auto simp: queue_provenance_def word_gt_0 simp del: for_each.simps split: if_splits)
qed (use assms in \<open>auto simp: queue_provenance_def\<close>)

lemma permission_options_Ok:
  assumes "permission_options p k = Ok os"
  shows "distinct (map po_option_id os)"
  using assms
  by (auto simp: permission_options_def card_distinct split: option.splits if_splits)

subsection \<open>The abstract machine\<close>

text \<open>The lane a \<open>lane.queued\<close> event may add to turn \<open>t\<close>, whose route is \<open>route\<close>.\<close>

definition fresh_lane :: "room_event \<Rightarrow> reducer \<Rightarrow> lane_state \<Rightarrow> bool" where
  "fresh_lane e r l \<longleftrightarrow>
     lanes r (ln_id l) = None \<and> ln_turn_id l = ev_turn_id e \<and> ln_phase l = Queued
     \<and> is_agent (ln_agent l) \<and> ln_expected_message_id l \<noteq> []
     \<and> ln_roster_index l = of_nat (length (lane_order r)) \<and> ln_started_at l = None
     \<and> ln_terminal_at l = None \<and> ln_terminal_event_seq l = None \<and> ln_failure_reason l = None
     \<and> ln_stream_id l = None \<and> ln_message_commit l = None \<and> ln_activity l = []"

definition operator_lane :: "turn_state \<Rightarrow> route_state \<Rightarrow> reducer \<Rightarrow> lane_state \<Rightarrow> bool" where
  "operator_lane t route r l \<longleftrightarrow>
     ln_origin l = OriginOperator \<and> ln_hop_index l = 0 \<and> ln_agent l \<in> set (rt_agents route)
     \<and> ln_hop_id l = None \<and> ln_from_agent l = None \<and> ln_reply_to l = None
     \<and> ln_parent_message_id l \<in> {None, Some (tn_message_id t)}
     \<and> (\<forall>l' \<in> set (turn_lanes r (ln_turn_id l)).
           ln_origin l' = OriginOperator \<longrightarrow> ln_agent l' \<noteq> ln_agent l)"

definition hop_lane :: "reducer \<Rightarrow> lane_state \<Rightarrow> bool" where
  "hop_lane r l \<longleftrightarrow>
     ln_origin l = OriginAgent \<and> 0 < ln_hop_index l \<and> ln_reply_to l = ln_parent_message_id l
     \<and> (\<exists>hop_id h. ln_hop_id l = Some hop_id \<and> hop r hop_id = Some h
           \<and> hp_disposition h = Dispatched \<and> hp_turn_id h = ln_turn_id l
           \<and> ln_from_agent l = Some (hp_from_agent h) \<and> hp_to_agent h = ln_agent l
           \<and> ln_parent_message_id l = Some (hp_parent_message_id h)
           \<and> hp_hop_index h = ln_hop_index l)"

text \<open>The identity of a lane, which no later event may change.\<close>

definition lane_identity :: "lane_state \<Rightarrow> lane_state \<Rightarrow> bool" where
  "lane_identity l l' \<longleftrightarrow>
     ln_id l' = ln_id l \<and> ln_turn_id l' = ln_turn_id l \<and> ln_agent l' = ln_agent l
     \<and> ln_expected_message_id l' = ln_expected_message_id l \<and> ln_origin l' = ln_origin l
     \<and> ln_hop_index l' = ln_hop_index l \<and> ln_parent_message_id l' = ln_parent_message_id l
     \<and> ln_reply_to l' = ln_reply_to l \<and> ln_from_agent l' = ln_from_agent l
     \<and> ln_hop_id l' = ln_hop_id l \<and> ln_roster_index l' = ln_roster_index l
     \<and> ln_queued_at l' = ln_queued_at l"

inductive room_step :: "room_event \<Rightarrow> reducer \<Rightarrow> reducer \<Rightarrow> bool" for e where
  accepted:
    "turn r (ev_turn_id e) = None \<Longrightarrow> tn_id t = ev_turn_id e \<Longrightarrow> tn_route t = None \<Longrightarrow>
     tn_completed_at t = None \<Longrightarrow> tn_agents t \<noteq> [] \<Longrightarrow> distinct (tn_agents t) \<Longrightarrow>
     list_all is_agent (tn_agents t) \<Longrightarrow> tr_message_id entry = tn_message_id t \<Longrightarrow>
     tn_message_id t \<noteq> [] \<Longrightarrow> tn_message_id t \<notin> transcript_message_ids r \<Longrightarrow>
     tr_event_seq entry = ev_event_seq e \<Longrightarrow> tr_author entry = AuthorOperator \<Longrightarrow>
     room_step e r (push_turn t (push_transcript entry r))"
| routed:
    "turn r (ev_turn_id e) = Some t \<Longrightarrow> tn_route t = None \<Longrightarrow>
     room_step e r (store_turn (ev_turn_id e)
       (t\<lparr>tn_route := Some \<lparr>rt_agents = tn_agents t, rt_resolved_at = ev_occurred_at e\<rparr>\<rparr>) r)"
| paused: "\<not> paused r \<Longrightarrow> room_step e r (r\<lparr>paused := True\<rparr>)"
| resumed: "paused r \<Longrightarrow> room_step e r (r\<lparr>paused := False\<rparr>)"
| queued:
    "turn r (ev_turn_id e) = Some t \<Longrightarrow> tn_route t = Some route \<Longrightarrow> fresh_lane e r l \<Longrightarrow>
     operator_lane t route r l \<or> hop_lane r l \<Longrightarrow> room_step e r (push_lane l r)"
| started:
    "lanes r lane_id = Some l \<Longrightarrow> ln_turn_id l = ev_turn_id e \<Longrightarrow> ln_phase l = Queued \<Longrightarrow>
     streams r (st_id s) = None \<Longrightarrow> st_lane_id s = lane_id \<Longrightarrow> st_agent s = ln_agent l \<Longrightarrow>
     st_turn_id s = ln_turn_id l \<Longrightarrow> st_text s = [] \<Longrightarrow> st_next_chunk_index s = 0 \<Longrightarrow>
     st_next_stream_seq s = ''1'' \<Longrightarrow> st_started_event_seq s = ev_event_seq e \<Longrightarrow>
     room_step e r (push_stream s (store_lane lane_id
       (l\<lparr>ln_phase := Running, ln_started_at := Some (ev_occurred_at e),
          ln_stream_id := Some (st_id s)\<rparr>) r))"
| activity:
    "lanes r lane_id = Some l \<Longrightarrow> ln_turn_id l = ev_turn_id e \<Longrightarrow>
     ln_phase l = Running \<or> ln_phase l = Cancelling \<Longrightarrow>
     la_last_event_seq ` set acts \<subseteq> insert (ev_event_seq e) (la_last_event_seq ` set (ln_activity l)) \<Longrightarrow>
     room_step e r (store_lane lane_id (l\<lparr>ln_activity := acts\<rparr>) r)"
| chunk:
    "ev_kind e = ''lane.chunk'' \<Longrightarrow> ev_payload e = JObject p \<Longrightarrow>
     get_str p ''streamId'' = Some stream_id \<Longrightarrow> get_str p ''text'' = Some text \<Longrightarrow>
     lanes r lane_id = Some l \<Longrightarrow> ln_turn_id l = ev_turn_id e \<Longrightarrow>
     ln_phase l = Running \<or> ln_phase l = Cancelling \<Longrightarrow>
     ln_stream_id l = Some stream_id \<Longrightarrow> streams r stream_id = Some s \<Longrightarrow> st_lane_id s = lane_id \<Longrightarrow>
     st_next_chunk_index s \<le> max_safe_integer \<Longrightarrow>
     room_step e r (store_stream stream_id
       (s\<lparr>st_model_id := model, st_text := st_text s @ text,
          st_next_chunk_index := st_next_chunk_index s + 1,
          st_next_stream_seq := increment_decimal (st_next_stream_seq s)\<rparr>) r)"
| cancelling:
    "lanes r lane_id = Some l \<Longrightarrow> ln_turn_id l = ev_turn_id e \<Longrightarrow>
     ln_phase l = Running \<or> ln_phase l = Cancelling \<Longrightarrow>
     room_step e r (store_lane lane_id (l\<lparr>ln_phase := Cancelling\<rparr>) r)"
| committed:
    "lanes r lane_id = Some l \<Longrightarrow> ln_turn_id l = ev_turn_id e \<Longrightarrow>
     ln_phase l \<in> {Queued, Running, Cancelling} \<Longrightarrow>
     ln_expected_message_id l \<notin> transcript_message_ids r \<Longrightarrow>
     (case ln_stream_id l of None \<Rightarrow> r1 = r
      | Some sid \<Rightarrow> (\<exists>s. streams r sid = Some s \<and> r1 = store_stream sid (s\<lparr>st_text := mc_text c\<rparr>) r)) \<Longrightarrow>
     mc_message_id c = ln_expected_message_id l \<Longrightarrow>
     tr_event_seq entry = ev_event_seq e \<Longrightarrow> tr_message_id entry = mc_message_id c \<Longrightarrow>
     tr_text entry = mc_text c \<Longrightarrow> tr_author entry = AuthorAgent (ln_agent l) \<Longrightarrow>
     r2 = store_lane lane_id (l\<lparr>ln_message_commit := Some c, ln_phase := Committed\<rparr>) r1 \<Longrightarrow>
     room_step e r (push_transcript entry
       (r2\<lparr>message_lanes := (message_lanes r2)(mc_message_id c \<mapsto> lane_id)\<rparr>))"
| ended:
    "lanes r lane_id = Some l \<Longrightarrow> ln_turn_id l = ev_turn_id e \<Longrightarrow> phase_step (ln_phase l) p \<Longrightarrow>
     terminal p \<Longrightarrow>
     l' = l\<lparr>ln_phase := p, ln_terminal_at := Some (ev_occurred_at e),
            ln_terminal_event_seq := Some (ev_event_seq e)\<rparr> \<Longrightarrow>
     l'' = (if p = Failed then l'\<lparr>ln_failure_reason := reason\<rparr> else l') \<Longrightarrow>
     room_step e r (store_lane lane_id l'' r)"
| asked:
    "permission r (pm_ask_id p) = None \<Longrightarrow> permission_indices r (pm_ask_id p) = None \<Longrightarrow>
     pm_outcome p = None \<Longrightarrow> pm_option_id p = None \<Longrightarrow> pm_resolved_event_seq p = None \<Longrightarrow>
     pm_turn_id p = ev_turn_id e \<Longrightarrow> distinct (map po_option_id (pm_options p)) \<Longrightarrow>
     room_step e r (push_permission p r)"
| answered:
    "permission r ask_id = Some p \<Longrightarrow> pm_outcome p = None \<Longrightarrow> pm_turn_id p = ev_turn_id e \<Longrightarrow>
     (case choice of None \<Rightarrow> True | Some c \<Rightarrow> c \<in> po_option_id ` set (pm_options p)) \<Longrightarrow>
     room_step e r (store_permission ask_id
       (p\<lparr>pm_outcome := Some outcome, pm_option_id := choice,
          pm_resolved_event_seq := Some (ev_event_seq e), pm_resolved_at := Some (ev_occurred_at e)\<rparr>) r)"
| hopped:
    "hop r (hp_hop_id h) = None \<Longrightarrow> hp_turn_id h = ev_turn_id e \<Longrightarrow>
     message_lanes r (hp_parent_message_id h) = Some lane_id \<Longrightarrow> lanes r lane_id = Some l \<Longrightarrow>
     ln_turn_id l = ev_turn_id e \<Longrightarrow> ln_agent l = hp_from_agent h \<Longrightarrow>
     hp_hop_index h = ln_hop_index l + 1 \<Longrightarrow> 0 < hp_hop_index h \<Longrightarrow>
     hp_hop_index h \<le> max_safe_integer \<Longrightarrow> 0 < hp_hop_budget h \<Longrightarrow>
     (hp_disposition h = Dispatched) = (hp_hop_index h \<le> hp_hop_budget h) \<Longrightarrow>
     hp_event_seq h = ev_event_seq e \<Longrightarrow>
     room_step e r (push_hop h r)"
| completed:
    "turn r (ev_turn_id e) = Some t \<Longrightarrow> tn_route t = Some route \<Longrightarrow> tn_completed_at t = None \<Longrightarrow>
     list_all (\<lambda>l. terminal (ln_phase l)) (turn_lanes r (ev_turn_id e)) \<Longrightarrow>
     (\<forall>agent \<in> set (rt_agents route). length (filter (\<lambda>l. ln_origin l = OriginOperator \<and> ln_agent l = agent)
         (turn_lanes r (ev_turn_id e))) = 1) \<Longrightarrow>
     room_step e r (store_turn (ev_turn_id e) (t\<lparr>tn_completed_at := Some (ev_occurred_at e)\<rparr>) r)"
| status:
    "as_agent st = agent \<Longrightarrow> is_agent agent \<Longrightarrow> as_last_event_seq st = ev_event_seq e \<Longrightarrow>
     (case as_usage st of Some u \<Rightarrow> us_exhausted u \<longrightarrow> as_auth st \<noteq> Some AuthReady | None \<Rightarrow> True) \<Longrightarrow>
     room_step e r (r\<lparr>agent_statuses := btree_insert agent st (agent_statuses r)\<rparr>)"
| mode:
    "am_agent m = agent \<Longrightarrow> is_agent agent \<Longrightarrow> am_mode_id m \<noteq> [] \<Longrightarrow>
     am_last_event_seq m = ev_event_seq e \<Longrightarrow>
     room_step e r (r\<lparr>agent_modes := btree_insert agent m (agent_modes r)\<rparr>)"
| backend_failed:
    "bf_event_seq f = ev_event_seq e \<Longrightarrow>
     room_step e r (r\<lparr>backend_failures := backend_failures r @ [f]\<rparr>)"
| noticed:
    "rn_event_seq n = ev_event_seq e \<Longrightarrow> rn_cause n \<noteq> [] \<Longrightarrow>
     room_step e r (r\<lparr>room_notices := room_notices r @ [n]\<rparr>)"
| unchanged: "room_step e r r"

subsection \<open>Every accepted event is a step\<close>

lemma turn_agents_match: "index_find idx xs k = Some a \<Longrightarrow> \<exists>i. idx k = Some i \<and> i < length xs \<and> xs ! i = a"
  by (auto simp: index_find_def vec_get_def bind_eq_Some_conv split: if_splits)

lemma accept_turn_step:
  assumes "accept_turn e r = (Ok d, r')" shows "room_step e r r'"
proof -
  from assms obtain p agents body mid ledger where
    ok: "unique_agents p ''agents'' (ev_kind e) = Ok agents" "mid \<noteq> []"
      "turn r (ev_turn_id e) = None" "mid \<notin> transcript_message_ids r" and
    r': "r' = push_turn \<lparr>tn_id = ev_turn_id e, tn_agents = agents, tn_text = body,
           tn_message_id = mid, tn_ledger_seq = ledger, tn_accepted_at = ev_occurred_at e,
           tn_route = None, tn_completed_at = None\<rparr>
         (push_transcript \<lparr>tr_event_seq = ev_event_seq e, tr_occurred_at = ev_occurred_at e,
           tr_turn_id = ev_turn_id e, tr_message_id = mid, tr_text = body,
           tr_ledger_seq = ledger, tr_author = AuthorOperator, tr_target_agents = agents,
           tr_reply_to = None, tr_origin = OriginOperator\<rparr> r)"
    by (auto simp: accept_turn_def reader_Ok split: if_splits)
  from ok unique_agents_Ok [OF ok(1)] show ?thesis
    unfolding r' by (intro room_step.accepted) simp_all
qed

lemma resolve_route_step:
  assumes "resolve_route e r = (Ok d, r')" shows "room_step e r r'"
proof -
  from assms obtain t where "turn r (ev_turn_id e) = Some t" "tn_route t = None"
    "r' = store_turn (ev_turn_id e)
       (t\<lparr>tn_route := Some \<lparr>rt_agents = tn_agents t, rt_resolved_at = ev_occurred_at e\<rparr>\<rparr>) r"
    by (auto simp: resolve_route_def split: if_splits)
  then show ?thesis by (auto intro: room_step.routed)
qed

lemma pause_room_step: "pause_room r = (Ok d, r') \<Longrightarrow> room_step e r r'"
  by (auto simp: pause_room_def intro: room_step.paused split: if_splits)

lemma resume_room_step: "resume_room r = (Ok d, r') \<Longrightarrow> room_step e r r'"
  by (auto simp: resume_room_def intro: room_step.resumed split: if_splits)

lemma start_lane_step:
  assumes "start_lane e r = (Ok d, r')" shows "room_step e r r'"
proof -
  from assms obtain lane_id stream_id model l where
    l: "lanes r lane_id = Some l" "ln_turn_id l = ev_turn_id e" "ln_phase l = Queued"
      "streams r stream_id = None" and
    r': "r' = push_stream
           \<lparr>st_id = stream_id, st_lane_id = lane_id, st_agent = ln_agent l, st_turn_id = ln_turn_id l,
            st_started_event_seq = ev_event_seq e, st_started_at = ev_occurred_at e,
            st_model_id = model, st_text = [], st_next_chunk_index = 0,
            st_next_stream_seq = ''1''\<rparr>
         (store_lane lane_id (l\<lparr>ln_phase := Running, ln_started_at := Some (ev_occurred_at e),
            ln_stream_id := Some stream_id\<rparr>) r)"
    by (auto simp: start_lane_def match_lane_Ok reader_Ok Let_def split: if_splits)
  let ?s = "\<lparr>st_id = stream_id, st_lane_id = lane_id, st_agent = ln_agent l, st_turn_id = ln_turn_id l,
            st_started_event_seq = ev_event_seq e, st_started_at = ev_occurred_at e,
            st_model_id = model, st_text = [], st_next_chunk_index = 0,
            st_next_stream_seq = ''1''\<rparr>"
  from l room_step.started [of r lane_id l e ?s] show ?thesis by (simp add: r')
qed

lemma update_first_stamps:
  "(\<And>x. g (f x) = k) \<Longrightarrow> g ` set (update_first P f xs) \<subseteq> insert k (g ` set xs)"
  by (induction xs) auto

lemma record_activity_step:
  assumes "record_activity e r = (Ok d, r')" shows "room_step e r r'"
  using assms
  by (auto simp: record_activity_def match_lane_Ok split: if_splits
      intro!: room_step.activity update_first_stamps)

lemma begin_cancellation_step:
  assumes "begin_cancellation e r = (Ok d, r')" shows "room_step e r r'"
  using assms
  by (auto simp: begin_cancellation_def match_lane_Ok split: if_splits intro!: room_step.cancelling)

lemma complete_lane_step:
  assumes "complete_lane e r = (Ok d, r')" shows "room_step e r r'"
proof -
  from assms obtain lane_id l where l: "validate_terminal_identity r e = Ok lane_id"
      "lanes r lane_id = Some l" "ln_phase l = Committed" and
    r': "r' = store_lane lane_id (l\<lparr>ln_phase := Completed, ln_terminal_at := Some (ev_occurred_at e),
                         ln_terminal_event_seq := Some (ev_event_seq e)\<rparr>) r"
    by (auto simp: complete_lane_def split: if_splits)
  from validate_terminal_identity_Ok [OF l(1)] l(2) have "ln_turn_id l = ev_turn_id e" by auto
  with l show ?thesis unfolding r'
    by (intro room_step.ended [where p = Completed]) (simp_all add: terminal_def)
qed

lemma fail_lane_step:
  assumes "fail_lane e r = (Ok d, r')" shows "room_step e r r'"
proof -
  from assms obtain lane_id l reason recovered where l: "validate_terminal_identity r e = Ok lane_id"
      "lanes r lane_id = Some l"
      "ln_phase l = Running \<or> ln_phase l = Cancelling \<or> recovered \<and> ln_phase l = Queued" and
    r': "r' = store_lane lane_id (l\<lparr>ln_phase := Failed, ln_terminal_at := Some (ev_occurred_at e),
              ln_terminal_event_seq := Some (ev_event_seq e), ln_failure_reason := reason\<rparr>) r"
    by (auto simp: fail_lane_def split: if_splits)
  from validate_terminal_identity_Ok [OF l(1)] l(2) have "ln_turn_id l = ev_turn_id e" by auto
  with l show ?thesis unfolding r'
    by (intro room_step.ended [where p = Failed and reason = reason]) (auto simp: terminal_def)
qed

lemma cancel_lane_step:
  assumes "cancel_lane e r = (Ok d, r')" shows "room_step e r r'"
proof -
  from assms obtain lane_id l where l: "validate_terminal_identity r e = Ok lane_id"
      "lanes r lane_id = Some l" "ln_phase l \<in> {Queued, Running, Cancelling}" and
    r': "r' = store_lane lane_id (l\<lparr>ln_phase := Cancelled, ln_terminal_at := Some (ev_occurred_at e),
                         ln_terminal_event_seq := Some (ev_event_seq e)\<rparr>) r"
    by (auto simp: cancel_lane_def split: if_splits)
  from validate_terminal_identity_Ok [OF l(1)] l(2) have "ln_turn_id l = ev_turn_id e" by auto
  with l show ?thesis unfolding r'
    by (intro room_step.ended [where p = Cancelled]) (auto simp: terminal_def)
qed

lemma append_chunk_step:
  assumes "append_chunk e r = (Ok d, r')" and kind: "ev_kind e = ''lane.chunk''"
    and valid: "validate_lane_chunk_payload (ev_payload e) = Ok u"
  shows "room_step e r r'"
  using assms(1) unfolding append_chunk_def Let_def
proof (elim handler_OkE, goal_cases)
  case (1 p lane_id stream_id body stream_seq model chunk_index l s observed)
  have p: "ev_payload e = JObject p" "get_u64 p ''chunkIndex'' = Some chunk_index"
    "get_str p ''streamId'' = Some stream_id" "get_str p ''text'' = Some body"
    using 1 by (simp_all add: reader_Ok)
  with validate_lane_chunk_payloadD [of p u] valid have "st_next_chunk_index s \<le> max_safe_integer"
    using 1 by simp
  with 1 p kind show ?case
    by (auto simp: match_lane_Ok intro!: room_step.chunk)
qed

lemma commit_message_step:
  assumes "commit_message e r = (Ok d, r')" shows "room_step e r r'"
proof -
  from assms obtain lane_id body ledger l r1 where
    l: "lanes r lane_id = Some l" "ln_turn_id l = ev_turn_id e"
      "ln_phase l \<in> {Queued, Running, Cancelling}"
      "ln_expected_message_id l \<notin> transcript_message_ids r" and
    r1: "(case ln_stream_id l of None \<Rightarrow> Ok r
          | Some sid \<Rightarrow> tryR (ok_or (streams r sid)
              (invalid ''message.committed lane stream is missing'')) (\<lambda>s.
              Ok (store_stream sid (s\<lparr>st_text := body\<rparr>) r))) = Ok r1" and
    rest: "tryS (expect (lanes r1 lane_id) ''validated lane exists'') r1 (\<lambda>l1.
       (Ok Delta_None, push_transcript
         \<lparr>tr_event_seq = ev_event_seq e, tr_occurred_at = ev_occurred_at e,
          tr_turn_id = ev_turn_id e, tr_message_id = ln_expected_message_id l, tr_text = body,
          tr_ledger_seq = ledger, tr_author = AuthorAgent (ln_agent l1), tr_target_agents = [],
          tr_reply_to = ln_reply_to l1, tr_origin = ln_origin l1\<rparr>
         ((store_lane lane_id (l1\<lparr>ln_message_commit := Some \<lparr>mc_message_id = ln_expected_message_id l,
             mc_text = body, mc_ledger_seq = ledger\<rparr>, ln_phase := Committed\<rparr>) r1)
          \<lparr>message_lanes := (message_lanes r1)(ln_expected_message_id l \<mapsto> lane_id)\<rparr>))) = (Ok d, r')"
    by (auto simp: commit_message_def match_lane_Ok Let_def store_lane_def split: if_splits)
  let ?c = "\<lparr>mc_message_id = ln_expected_message_id l, mc_text = body, mc_ledger_seq = ledger\<rparr>"
  from r1 have r1': "case ln_stream_id l of None \<Rightarrow> r1 = r
      | Some sid \<Rightarrow> (\<exists>s. streams r sid = Some s \<and> r1 = store_stream sid (s\<lparr>st_text := mc_text ?c\<rparr>) r)"
    by (auto split: option.splits)
  from r1 l have "lanes r1 lane_id = Some l"
    by (auto simp: store_stream_def split: option.splits)
  with rest have r': "r' = push_transcript
         \<lparr>tr_event_seq = ev_event_seq e, tr_occurred_at = ev_occurred_at e,
          tr_turn_id = ev_turn_id e, tr_message_id = ln_expected_message_id l, tr_text = body,
          tr_ledger_seq = ledger, tr_author = AuthorAgent (ln_agent l), tr_target_agents = [],
          tr_reply_to = ln_reply_to l, tr_origin = ln_origin l\<rparr>
         ((store_lane lane_id (l\<lparr>ln_message_commit := Some ?c, ln_phase := Committed\<rparr>) r1)
          \<lparr>message_lanes := (message_lanes (store_lane lane_id (l\<lparr>ln_message_commit := Some ?c,
             ln_phase := Committed\<rparr>) r1))(mc_message_id ?c \<mapsto> lane_id)\<rparr>)"
    by (simp add: store_lane_def)
  show ?thesis unfolding r'
    by (rule room_step.committed [OF l r1']) simp_all
qed

lemma queue_admission_Ok:
  assumes "queue_admission e r t route agent v = Ok u" "queue_provenance p k = Ok v"
    and l: "ln_origin l = lp_origin v" "ln_hop_index l = lp_hop_index v"
      "ln_parent_message_id l = lp_parent_message_id v" "ln_reply_to l = lp_reply_to v"
      "ln_from_agent l = lp_from_agent v" "ln_hop_id l = lp_hop_id v" "ln_agent l = agent"
      "ln_turn_id l = ev_turn_id e"
  shows "operator_lane t route r l \<or> hop_lane r l"
proof (cases "lp_origin v = OriginOperator")
  case True
  with assms(1) queue_provenance_Ok [OF assms(2)] have "operator_lane t route r l"
    unfolding operator_lane_def l
    by (auto simp: queue_admission_def list_ex_iff split: option.splits if_splits)
  then show ?thesis ..
next
  case False
  with assms(1) queue_provenance_Ok [OF assms(2)] have "hop_lane r l"
    unfolding hop_lane_def l by (auto simp: queue_admission_def split: if_splits)
  then show ?thesis ..
qed

lemma queue_lane_step:
  assumes "queue_lane e r = (Ok d, r')" shows "room_step e r r'"
proof -
  from assms obtain p lane_id agent expected v t route where
    r: "is_agent agent" "expected \<noteq> []" "queue_provenance p (ev_kind e) = Ok v"
      "turn r (ev_turn_id e) = Some t" "tn_route t = Some route" "lanes r lane_id = None"
      "queue_admission e r t route agent v = Ok ()" and
    r': "r' = push_lane
        \<lparr>ln_id = lane_id, ln_turn_id = ev_turn_id e, ln_agent = agent,
         ln_expected_message_id = expected, ln_origin = lp_origin v,
         ln_hop_index = lp_hop_index v, ln_parent_message_id = lp_parent_message_id v,
         ln_reply_to = lp_reply_to v, ln_from_agent = lp_from_agent v,
         ln_hop_id = lp_hop_id v, ln_phase = Queued,
         ln_roster_index = of_nat (length (lane_order r)), ln_queued_at = ev_occurred_at e,
         ln_started_at = None, ln_terminal_at = None, ln_terminal_event_seq = None,
         ln_failure_reason = None, ln_stream_id = None, ln_message_commit = None,
         ln_activity = []\<rparr> r" (is "_ = push_lane ?l r")
    by (auto simp: queue_lane_def reader_Ok split: if_splits)
  have "operator_lane t route r ?l \<or> hop_lane r ?l"
    by (rule queue_admission_Ok [OF r(7,3)]) simp_all
  moreover have "fresh_lane e r ?l" using r by (simp add: fresh_lane_def)
  ultimately show ?thesis using r unfolding r' by (intro room_step.queued)
qed

lemma request_permission_step:
  assumes "request_permission e r = (Ok d, r')" shows "room_step e r r'"
proof -
  from assms obtain p ask_id agent options title where
    p: "permission_options p (ev_kind e) = Ok options" "permission_indices r ask_id = None" and
    r': "r' = push_permission
        \<lparr>pm_requested_event_seq = ev_event_seq e, pm_requested_at = ev_occurred_at e,
         pm_resolved_event_seq = None, pm_resolved_at = None, pm_ask_id = ask_id,
         pm_turn_id = ev_turn_id e, pm_agent = agent, pm_options = options,
         pm_tool_title = title, pm_outcome = None, pm_option_id = None\<rparr> r"
    by (auto simp: request_permission_def split: if_splits)
  from p(2) have "permission r ask_id = None" by (simp add: permission_def index_find_def)
  with p permission_options_Ok [OF p(1)] show ?thesis
    unfolding r' by (intro room_step.asked) simp_all
qed

lemma resolve_permission_step:
  assumes "resolve_permission e r = (Ok d, r')" shows "room_step e r r'"
  using assms
  by (auto simp: resolve_permission_def list_ex_iff split: if_splits option.splits
      intro!: room_step.answered)

lemma record_hop_step:
  assumes "record_hop e disposition r = (Ok d, r')"
    and valid: "validate_hop_payload (ev_payload e) = Ok u"
  shows "room_step e r r'"
  using assms(1) unfolding record_hop_def
proof (elim handler_OkE, goal_cases)
  case (1 p hop_id from_agent to_agent parent hop_index hop_budget body lane_id l)
  have "get_u64 p ''hopIndex'' = Some hop_index" "ev_payload e = JObject p"
    using 1 by (simp_all add: required_u64_Ok)
  with validate_hop_payloadD [of p u hop_index] valid
  have "0 < hop_index" "hop_index \<le> max_safe_integer" by simp_all
  moreover have "(disposition = Dispatched) = (hop_index \<le> hop_budget)"
    using 1 by (cases disposition) simp_all
  moreover have "0 < hop_budget" using 1 by (simp add: word_gt_0)
  ultimately show ?case using 1 by (auto intro!: room_step.hopped)
qed

lemma complete_turn_step:
  assumes "complete_turn e r = (Ok d, r')" shows "room_step e r r'"
proof -
  let ?ls = "turn_lanes r (ev_turn_id e)"
  let ?roots = "map ln_agent (filter (\<lambda>l. ln_origin l = OriginOperator) ?ls)"
  from assms obtain t route where
    t: "turn r (ev_turn_id e) = Some t" "tn_route t = Some route" "tn_completed_at t = None"
      "\<not> list_ex (\<lambda>l. \<not> terminal (ln_phase l)) ?ls"
      "\<not> list_ex (\<lambda>agent. length (filter (\<lambda>candidate. candidate = agent) ?roots) \<noteq> 1) (rt_agents route)" and
    r': "r' = store_turn (ev_turn_id e) (t\<lparr>tn_completed_at := Some (ev_occurred_at e)\<rparr>) r"
    by (auto simp: complete_turn_def Let_def split: if_splits)
  from t(4) have "list_all (\<lambda>l. terminal (ln_phase l)) ?ls"
    by (auto simp: list_ex_iff list_all_iff)
  moreover from t(5) have "\<forall>agent \<in> set (rt_agents route).
      length (filter (\<lambda>l. ln_origin l = OriginOperator \<and> ln_agent l = agent) ?ls) = 1"
    by (auto simp: list_ex_iff filter_map comp_def conj_commute)
  ultimately show ?thesis using t unfolding r' by (intro room_step.completed)
qed

lemma record_agent_status_step:
  assumes "record_agent_status e r = (Ok d, r')" shows "room_step e r r'"
  using assms unfolding record_agent_status_def Let_def
  by (elim handler_OkE)
    (auto simp: required_agent_Ok split: prod.splits option.splits if_splits
      intro!: room_step.status elim!: done_OkE)

lemma record_agent_mode_step:
  assumes "record_agent_mode e r = (Ok d, r')" shows "room_step e r r'"
  using assms unfolding record_agent_mode_def
  by (elim handler_OkE) (auto simp: reader_Ok intro!: room_step.mode)

lemma marker_steps:
  "record_backend_failure e r = (Ok d, r') \<Longrightarrow> room_step e r r'"
  "record_room_notice e r = (Ok d, r') \<Longrightarrow> room_step e r r'"
  by (auto simp: record_backend_failure_def record_room_notice_def reader_Ok
      intro!: room_step.backend_failed room_step.noticed)

lemma validate_payload_chunk:
  "validate_payload ''lane.chunk'' v = validate_lane_chunk_payload v"
  by (simp add: validate_payload_def)

lemma validate_payload_hop:
  "validate_payload ''hop.dispatched'' v = validate_hop_payload v"
  "validate_payload ''hop.blocked'' v = validate_hop_payload v"
  by (simp_all add: validate_payload_def)

lemma transition_step:
  assumes "apply_transition e r = (Ok d, r')" "validate rfc3339 e = Ok u"
  shows "room_step e r r'"
proof -
  note v = validate_OkD(7) [OF assms(2)]
  have chunk: "append_chunk e r = (Ok d, r') \<Longrightarrow> ev_kind e = ''lane.chunk'' \<Longrightarrow> room_step e r r'"
    using v append_chunk_step by (simp add: validate_payload_chunk)
  have hopd: "record_hop e Dispatched r = (Ok d, r') \<Longrightarrow> ev_kind e = ''hop.dispatched'' \<Longrightarrow> room_step e r r'"
    using v record_hop_step by (simp add: validate_payload_hop)
  have hopb: "record_hop e Blocked r = (Ok d, r') \<Longrightarrow> ev_kind e = ''hop.blocked'' \<Longrightarrow> room_step e r r'"
    using v record_hop_step by (simp add: validate_payload_hop)
  note steps = accept_turn_step resolve_route_step pause_room_step resume_room_step queue_lane_step
    start_lane_step record_activity_step chunk begin_cancellation_step commit_message_step
    complete_lane_step fail_lane_step cancel_lane_step record_agent_status_step
    record_agent_mode_step request_permission_step resolve_permission_step hopd hopb
    complete_turn_step marker_steps
  show ?thesis
    using assms(1) unfolding apply_transition_def Let_def
    by (elim if_OkE) (auto intro: steps room_step.unchanged)
qed

end
