(* ===== verification/Room_Atomic.thy ===== *)
theory Room_Atomic
  imports Room_Steps
begin

section \<open>A refused event leaves the room alone\<close>

text \<open>
  Every handler mutates \<open>self\<close> only after its last guard, so an event that is refused (or that
  panics) is not half applied. One lemma per handler, then \<open>apply_event\<close>, and the shape of the
  outcome of \<open>apply\<close> on each of its branches.
\<close>

lemma commit_message_atomic: "atomic_at r (commit_message e r)"
proof -
  have atomic_inner: "atomic_at r (tryS m r (\<lambda>r1. tryS (expect (lanes r1 i) x) r1 (k r1)))"
    if "lanes r i \<noteq> None" "\<And>r1. m = Ok r1 \<Longrightarrow> lanes r1 = lanes r"
      "\<And>r1 l. is_ok (fst (k r1 l))" for m i x and k :: "reducer \<Rightarrow> lane_state \<Rightarrow> apply_delta handler"
    using that by (cases m) (auto simp: atomic_at_def)
  show ?thesis
    unfolding commit_message_def Let_def
    by (intro atomic_tryS atomic_if atomic_Err atomic_inner)
      (auto simp: match_lane_Ok store_stream_def split: option.splits)
qed

lemma handlers_atomic:
  "atomic_at r (accept_turn e r)" "atomic_at r (resolve_route e r)"
  "atomic_at r (pause_room r)" "atomic_at r (resume_room r)"
  "atomic_at r (queue_lane e r)" "atomic_at r (start_lane e r)"
  "atomic_at r (record_activity e r)" "atomic_at r (append_chunk e r)"
  "atomic_at r (begin_cancellation e r)" "atomic_at r (complete_lane e r)"
  "atomic_at r (fail_lane e r)" "atomic_at r (cancel_lane e r)"
  "atomic_at r (request_permission e r)" "atomic_at r (record_agent_mode e r)"
  "atomic_at r (resolve_permission e r)" "atomic_at r (record_hop e disposition r)"
  "atomic_at r (complete_turn e r)" "atomic_at r (record_backend_failure e r)"
  "atomic_at r (record_room_notice e r)"
  unfolding accept_turn_def resolve_route_def pause_room_def resume_room_def queue_lane_def
    start_lane_def record_activity_def append_chunk_def begin_cancellation_def complete_lane_def
    fail_lane_def cancel_lane_def request_permission_def record_agent_mode_def
    resolve_permission_def record_hop_def complete_turn_def record_backend_failure_def
    record_room_notice_def Let_def
  by (intro atomic)+

lemma record_agent_status_atomic: "atomic_at r (record_agent_status e r)"
  unfolding record_agent_status_def Let_def
  by (intro atomic) (auto simp: atomic_at_def split: prod.splits)

lemma apply_transition_atomic: "atomic_at r (apply_transition e r)"
  unfolding apply_transition_def Let_def
  by (intro atomic_if handlers_atomic commit_message_atomic record_agent_status_atomic atomic_Ok)

lemma atomic_bindS:
  "atomic_at s p \<Longrightarrow> (\<And>a t. atomic_at s (k a t)) \<Longrightarrow> atomic_at s (bindS p k)"
  by (cases p; cases "fst p") (auto simp: atomic_at_def)

lemma apply_event_atomic_at: "atomic_at r (apply_event rfc3339 e r)"
  unfolding apply_event_def Let_def
  by (intro atomic atomic_bindS apply_transition_atomic)

text \<open>The two ways \<open>apply\<close> answers \<open>Ok\<close>: a repetition, or a new event that is one step.\<close>

lemma apply_event_Ok_cases:
  assumes "apply_event rfc3339 e r = (Ok d, r')"
  obtains (repeated) "events_by_id r (ev_event_id e) = Some e" "r' = r" "d = Delta_None"
    | (applied) r1 where "events_by_id r (ev_event_id e) = None"
        "ev_event_seq e = increment_decimal (last_event_seq r)"
        "apply_transition e r = (Ok d, r1)" "room_step e r r1" "r' = note_applied e r1"
proof -
  from assms have v: "validate rfc3339 e = Ok ()" by (auto simp: apply_event_def)
  show thesis
  proof (cases "events_by_id r (ev_event_id e)")
    case (Some previous)
    with assms have "previous = e" "r' = r" "d = Delta_None"
      by (auto simp: apply_event_def split: if_splits)
    with Some show thesis by (intro repeated) auto
  next
    case None
    with assms obtain r1 where "ev_event_seq e = increment_decimal (last_event_seq r)"
      "apply_transition e r = (Ok d, r1)" "r' = note_applied e r1"
      by (auto simp: apply_event_def Let_def split: if_splits)
    with None v transition_step show thesis by (intro applied) auto
  qed
qed

lemma apply_event_validated:
  "apply_event rfc3339 e r = (Ok d, r') \<Longrightarrow> validate rfc3339 e = Ok ()
     \<and> (session_id r = None \<or> session_id r = Some (ev_session_id e))"
  by (auto simp: apply_event_def ensure_session_def split: option.splits if_splits)

end
