(* ===== verification/Room_Tables.thy ===== *)
theory Room_Tables
  imports Room_Reducer
begin

section \<open>The containers of the reducer and their contracts\<close>

text \<open>
  The reducer keeps five collections in two shapes. Turns, hops and permissions are vectors with
  a map from the identifier to the position; lanes and streams are maps with a vector of keys in
  order of arrival. Each shape is a contract (a locale) that says what the writes of
  \<^theory_text>\<open>Room_Reducer\<close> do; the facts the invariants need are proved once from the contract, and
  every collection of the model is an instance of it.
\<close>

subsection \<open>Append-only vectors with an index\<close>

definition indexed :: "('a \<Rightarrow> 'k) \<Rightarrow> ('k \<Rightarrow> nat option) \<Rightarrow> 'a list \<Rightarrow> bool" where
  "indexed key idx xs \<longleftrightarrow> (\<forall>k i. idx k = Some i \<longleftrightarrow> i < length xs \<and> key (xs ! i) = k)"

lemma indexed_distinct:
  assumes "indexed key idx xs" shows "distinct (map key xs)"
proof (unfold distinct_conv_nth, intro allI impI)
  fix i j assume "i < length (map key xs)" "j < length (map key xs)" "i \<noteq> j"
  with assms show "map key xs ! i \<noteq> map key xs ! j"
    unfolding indexed_def by (metis length_map nth_map option.inject)
qed

lemma option_eqI: "(\<And>b. x = Some b \<longleftrightarrow> y = Some b) \<Longrightarrow> x = y"
  by (cases x; cases y) auto

locale append_log =
  fixes items :: "'s \<Rightarrow> 'a list" and index :: "'s \<Rightarrow> 'k \<Rightarrow> nat option" and key :: "'a \<Rightarrow> 'k"
    and push :: "'a \<Rightarrow> 's \<Rightarrow> 's"
  assumes items_push: "items (push a s) = items s @ [a]"
    and index_push: "index (push a s) = (index s)(key a \<mapsto> length (items s))"
begin

lemma push_wf:
  assumes "indexed key (index s) (items s)" "index s (key a) = None"
  shows "indexed key (index (push a s)) (items (push a s))"
  unfolding indexed_def
proof (intro allI iffI)
  fix k i assume "index (push a s) k = Some i"
  with assms show "i < length (items (push a s)) \<and> key (items (push a s) ! i) = k"
    by (auto simp: items_push index_push indexed_def nth_append split: if_splits)
next
  fix k i assume *: "i < length (items (push a s)) \<and> key (items (push a s) ! i) = k"
  show "index (push a s) k = Some i"
  proof (cases "i < length (items s)")
    case True
    with * have "key (items s ! i) = k" by (simp add: items_push nth_append)
    with True assms have "index s k = Some i" by (simp add: indexed_def)
    with assms show ?thesis by (auto simp: index_push)
  next
    case False
    with * have "i = length (items s)" "key a = k" by (auto simp: items_push nth_append)
    then show ?thesis by (simp add: index_push)
  qed
qed

lemma find_iff:
  "indexed key (index s) (items s) \<Longrightarrow>
   index_find (index s) (items s) k = Some a \<longleftrightarrow> a \<in> set (items s) \<and> key a = k"
  by (auto simp: indexed_def index_find_def vec_get_def bind_eq_Some_conv in_set_conv_nth
      split: if_splits)

lemma find_None:
  "indexed key (index s) (items s) \<Longrightarrow>
   index_find (index s) (items s) k = None \<longleftrightarrow> index s k = None"
proof (cases "index s k")
  case (Some i)
  moreover assume "indexed key (index s) (items s)"
  ultimately have "i < length (items s)" by (simp add: indexed_def)
  with Some show ?thesis by (simp add: index_find_def vec_get_def)
qed (simp add: index_find_def)

lemma find_push:
  assumes wf: "indexed key (index s) (items s)" and new: "index s (key a) = None"
  shows "index_find (index (push a s)) (items (push a s)) = (index_find (index s) (items s))(key a \<mapsto> a)"
proof (rule ext, rule option_eqI)
  fix k b
  from find_None [OF wf] new have "\<nexists>b. index_find (index s) (items s) (key a) = Some b" by simp
  then have "\<And>b. b \<in> set (items s) \<Longrightarrow> key b \<noteq> key a" by (auto simp: find_iff [OF wf])
  then show "index_find (index (push a s)) (items (push a s)) k = Some b
      \<longleftrightarrow> ((index_find (index s) (items s))(key a \<mapsto> a)) k = Some b"
    unfolding find_iff [OF push_wf [OF wf new]] fun_upd_def
    by (auto simp: find_iff [OF wf] items_push)
qed

end

locale keyed_log = append_log items index key push
  for items :: "'s \<Rightarrow> 'a list" and index :: "'s \<Rightarrow> 'k \<Rightarrow> nat option" and key :: "'a \<Rightarrow> 'k"
    and push :: "'a \<Rightarrow> 's \<Rightarrow> 's" +
  fixes store :: "'k \<Rightarrow> 'a \<Rightarrow> 's \<Rightarrow> 's"
  assumes items_store: "items (store k a s) = index_store (index s) (items s) k a"
    and index_kept: "index (store k a s) = index s"
begin

lemma keys_store:
  assumes "indexed key (index s) (items s)" "key a = k"
  shows "map key (items (store k a s)) = map key (items s)"
proof (cases "index s k")
  case (Some i)
  with assms have "i < length (items s)" "key (items s ! i) = key a" by (auto simp: indexed_def)
  with Some show ?thesis by (simp add: items_store index_store_def map_update list_update_same_conv)
qed (simp add: items_store index_store_def)

lemma store_wf:
  assumes "indexed key (index s) (items s)" "key a = k"
  shows "indexed key (index (store k a s)) (items (store k a s))"
proof -
  from keys_store [OF assms] have "length (items (store k a s)) = length (items s)"
    and "\<And>i. i < length (items s) \<Longrightarrow> key (items (store k a s) ! i) = key (items s ! i)"
    by (metis length_map, metis length_map nth_map)
  with assms show ?thesis by (auto simp: indexed_def index_kept)
qed

lemma find_store:
  assumes "indexed key (index s) (items s)" "index s k = Some i"
  shows "index_find (index (store k a s)) (items (store k a s)) = (index_find (index s) (items s))(k \<mapsto> a)"
proof
  fix k'
  from assms have "i < length (items s)" "key (items s ! i) = k" by (auto simp: indexed_def)
  moreover have "index s k' = Some j \<Longrightarrow> j < length (items s) \<and> key (items s ! j) = k'" for j
    using assms by (simp add: indexed_def)
  ultimately show "index_find (index (store k a s)) (items (store k a s)) k'
      = ((index_find (index s) (items s))(k \<mapsto> a)) k'"
    using assms(2)
    by (cases "index s k'")
      (auto simp: index_find_def vec_get_def items_store index_kept index_store_def nth_list_update)
qed

end

interpretation hop_log: append_log hops hop_indices hp_hop_id push_hop
  by unfold_locales (simp_all add: push_hop_def)

interpretation turn_log: keyed_log turns turn_indices tn_id push_turn store_turn
  by unfold_locales (simp_all add: push_turn_def store_turn_def)

interpretation permission_log:
  keyed_log permissions permission_indices pm_ask_id push_permission store_permission
  by unfold_locales (simp_all add: push_permission_def store_permission_def)

subsection \<open>Maps with an order of arrival\<close>

definition well_ordered :: "('v \<Rightarrow> 'k) \<Rightarrow> ('k \<Rightarrow> 'v option) \<Rightarrow> 'k list \<Rightarrow> bool" where
  "well_ordered key table order \<longleftrightarrow>
     distinct order \<and> set order = dom table \<and> (\<forall>k v. table k = Some v \<longrightarrow> key v = k)"

lemma well_ordered_key: "well_ordered key table order \<Longrightarrow> table k = Some v \<Longrightarrow> key v = k"
  by (simp add: well_ordered_def)

lemma well_ordered_finite: "well_ordered key table order \<Longrightarrow> finite (dom table)"
  unfolding well_ordered_def by (metis List.finite_set)

text \<open>Walking the keys in order yields every entry once.\<close>

lemma walk_nth:
  assumes "well_ordered key table order" "i < length order"
  shows "table (order ! i) = Some (List.map_filter table order ! i)"
    and "length (List.map_filter table order) = length order"
proof -
  have defined: "\<And>k. k \<in> set order \<Longrightarrow> table k \<noteq> None"
    using assms(1) by (auto simp: well_ordered_def)
  then have "List.map_filter table order = map (the \<circ> table) order"
    by (simp add: List.map_filter_def)
  with defined assms(2) show "table (order ! i) = Some (List.map_filter table order ! i)"
    and "length (List.map_filter table order) = length order" by auto
qed

lemma walk_length:
  "well_ordered key table order \<Longrightarrow> length (List.map_filter table order) = length order"
  using walk_nth(2) [of key table order 0] by (cases order) auto

lemma walk_set:
  assumes "well_ordered key table order" shows "set (List.map_filter table order) = ran table"
proof -
  have "set order = dom table" using assms by (simp add: well_ordered_def)
  then show ?thesis by (force simp: List.map_filter_def ran_def image_iff)
qed

locale ordered_table =
  fixes table :: "'s \<Rightarrow> 'k \<Rightarrow> 'v option" and order :: "'s \<Rightarrow> 'k list" and key :: "'v \<Rightarrow> 'k"
    and add :: "'v \<Rightarrow> 's \<Rightarrow> 's" and put :: "'k \<Rightarrow> 'v \<Rightarrow> 's \<Rightarrow> 's"
  assumes table_add: "table (add v s) = (table s)(key v \<mapsto> v)"
    and order_add: "order (add v s) = order s @ [key v]"
    and table_put: "table (put k v s) = (table s)(k \<mapsto> v)"
    and order_put: "order (put k v s) = order s"
begin

lemma add_wf:
  "well_ordered key (table s) (order s) \<Longrightarrow> table s (key v) = None \<Longrightarrow>
   well_ordered key (table (add v s)) (order (add v s))"
  by (auto simp: well_ordered_def table_add order_add)

lemma put_wf:
  "well_ordered key (table s) (order s) \<Longrightarrow> table s k \<noteq> None \<Longrightarrow> key v = k \<Longrightarrow>
   well_ordered key (table (put k v s)) (order (put k v s))"
  by (auto simp: well_ordered_def table_put order_put)

lemma walk_add:
  assumes "well_ordered key (table s) (order s)" "table s (key v) = None"
  shows "List.map_filter (table (add v s)) (order (add v s)) = List.map_filter (table s) (order s) @ [v]"
proof -
  have "key v \<notin> set (order s)" using assms by (auto simp: well_ordered_def)
  then have "List.map_filter (table (add v s)) (order s) = List.map_filter (table s) (order s)"
    unfolding List.map_filter_def by (intro map_cong filter_cong) (auto simp: table_add)
  then show ?thesis by (simp add: order_add table_add List.map_filter_def)
qed

end

interpretation lane_table: ordered_table lanes lane_order ln_id push_lane store_lane
  by unfold_locales (simp_all add: push_lane_def store_lane_def)

interpretation stream_table: ordered_table streams stream_order st_id push_stream store_stream
  by unfold_locales (simp_all add: push_stream_def store_stream_def)

end
