(* ===== verification/Room_Invariant.thy ===== *)
theory Room_Invariant
  imports Room_Atomic Room_Tables
begin

section \<open>What holds in every room\<close>

text \<open>
  \<open>reachable\<close> is the set of reducer states a program can produce through the public interface:
  \<open>new\<close>, \<open>bind_session\<close> and accepted \<open>apply\<close> calls (a refused call changes nothing, see
  \<^theory_text>\<open>Room_Atomic\<close>). \<open>room_wf\<close> is the well-formedness invariant, in parts: the containers,
  the roster, the fields of a lane, streams and their cursors, messages and the transcript, turns
  and their lanes, hops, permissions, and the event log.
\<close>

inductive reachable :: "(string \<Rightarrow> bool) \<Rightarrow> reducer \<Rightarrow> bool" for rfc3339 where
  created: "reachable rfc3339 new_reducer"
| bound: "reachable rfc3339 r \<Longrightarrow> bind_session sid r = (Ok u, r') \<Longrightarrow> reachable rfc3339 r'"
| applied: "reachable rfc3339 r \<Longrightarrow> apply_event rfc3339 e r = (Ok d, r') \<Longrightarrow> reachable rfc3339 r'"

text \<open>An invariant is a property of the new room that survives binding and steps.\<close>

lemma reachable_invariant [consumes 1, case_names new bind step]:
  assumes "reachable rfc3339 r" and new: "P new_reducer"
    and bind: "\<And>r sid. P r \<Longrightarrow> session_id r = None \<Longrightarrow> P (r\<lparr>session_id := Some sid\<rparr>)"
    and step: "\<And>r e r1. P r \<Longrightarrow> room_step e r r1 \<Longrightarrow> validate rfc3339 e = Ok () \<Longrightarrow>
      session_id r = None \<or> session_id r = Some (ev_session_id e) \<Longrightarrow>
      events_by_id r (ev_event_id e) = None \<Longrightarrow>
      ev_event_seq e = increment_decimal (last_event_seq r) \<Longrightarrow> P (note_applied e r1)"
  shows "P r"
  using assms(1)
proof induction
  case created
  show ?case by (rule new)
next
  case (bound r sid u r')
  then show ?case
    by (auto simp: bind_session_def intro: bind split: option.splits if_splits)
next
  case (applied r e d r')
  from apply_event_validated [OF applied.hyps(2)] show ?case
    using apply_event_Ok_cases [OF applied.hyps(2)] applied.IH step by metis
qed

lemmas writes = push_turn_def push_transcript_def store_turn_def push_lane_def push_stream_def
  store_lane_def store_stream_def push_permission_def store_permission_def push_hop_def

lemma note_applied_simps [simp]:
  "lanes (note_applied e r) = lanes r" "lane_order (note_applied e r) = lane_order r"
  "streams (note_applied e r) = streams r" "stream_order (note_applied e r) = stream_order r"
  "paused (note_applied e r) = paused r" "permissions (note_applied e r) = permissions r"
  "permission_indices (note_applied e r) = permission_indices r"
  "message_lanes (note_applied e r) = message_lanes r"
  "transcript_message_ids (note_applied e r) = transcript_message_ids r"
  "hops (note_applied e r) = hops r" "hop_indices (note_applied e r) = hop_indices r"
  "turns (note_applied e r) = turns r" "turn_indices (note_applied e r) = turn_indices r"
  "turn_lane_ids (note_applied e r) = turn_lane_ids r" "transcript (note_applied e r) = transcript r"
  "backend_failures (note_applied e r) = backend_failures r"
  "room_notices (note_applied e r) = room_notices r"
  "agent_statuses (note_applied e r) = agent_statuses r"
  "agent_modes (note_applied e r) = agent_modes r"
  "last_event_seq (note_applied e r) = ev_event_seq e"
  "events_by_id (note_applied e r) = (events_by_id r)(ev_event_id e \<mapsto> e)"
  by (simp_all add: note_applied_def)

lemma accessor_cong:
  "turn (note_applied e r) = turn r" "hop (note_applied e r) = hop r"
  "permission (note_applied e r) = permission r" "turn_lanes (note_applied e r) = turn_lanes r"
  "turn (r\<lparr>session_id := x\<rparr>) = turn r" "hop (r\<lparr>session_id := x\<rparr>) = hop r"
  "permission (r\<lparr>session_id := x\<rparr>) = permission r"
  "turn_lanes (r\<lparr>session_id := x\<rparr>) = turn_lanes r"
  by (auto simp: turn_def hop_def permission_def turn_lanes_def fun_eq_iff)

declare accessor_cong [simp]

subsection \<open>Containers\<close>

definition tables_ok :: "reducer \<Rightarrow> bool" where
  "tables_ok r \<longleftrightarrow>
     well_ordered ln_id (lanes r) (lane_order r) \<and> well_ordered st_id (streams r) (stream_order r)
     \<and> indexed tn_id (turn_indices r) (turns r) \<and> indexed hp_hop_id (hop_indices r) (hops r)
     \<and> indexed pm_ask_id (permission_indices r) (permissions r)"

lemma tables_okD:
  assumes "tables_ok r"
  shows "well_ordered ln_id (lanes r) (lane_order r)" "well_ordered st_id (streams r) (stream_order r)"
    "indexed tn_id (turn_indices r) (turns r)" "indexed hp_hop_id (hop_indices r) (hops r)"
    "indexed pm_ask_id (permission_indices r) (permissions r)"
  using assms by (simp_all add: tables_ok_def)

lemma turn_key: "tables_ok r \<Longrightarrow> turn r k = Some t \<Longrightarrow> tn_id t = k"
  using turn_log.find_iff [of r k t] by (simp add: tables_ok_def turn_def)

lemma permission_key: "tables_ok r \<Longrightarrow> permission r k = Some p \<Longrightarrow> pm_ask_id p = k"
  using permission_log.find_iff [of r k p] by (simp add: tables_ok_def permission_def)

lemma hop_key: "tables_ok r \<Longrightarrow> hop r k = Some h \<Longrightarrow> hp_hop_id h = k"
  using hop_log.find_iff [of r k h] by (simp add: tables_ok_def hop_def)

lemma index_None:
  assumes "tables_ok r"
  shows "turn r k = None \<longleftrightarrow> turn_indices r k = None" "hop r k = None \<longleftrightarrow> hop_indices r k = None"
    "permission r k = None \<longleftrightarrow> permission_indices r k = None"
  using assms turn_log.find_None [of r k] hop_log.find_None [of r k] permission_log.find_None [of r k]
  by (simp_all add: tables_ok_def turn_def hop_def permission_def)

lemma tables_ok_step:
  assumes "tables_ok r" "room_step e r r'" shows "tables_ok r'"
proof -
  note ok = tables_okD [OF assms(1)]
  have lane: "lanes r k = Some l \<Longrightarrow> ln_id l = k" for k l using ok(1) by (rule well_ordered_key)
  have strm: "streams r k = Some s \<Longrightarrow> st_id s = k" for k s using ok(2) by (rule well_ordered_key)
  note lane_put = lane_table.put_wf [OF ok(1), unfolded store_lane_def, simplified]
  note strm_put = stream_table.put_wf [OF ok(2), unfolded store_stream_def, simplified]
  have turn_put: "tn_id t = k \<Longrightarrow> indexed tn_id (turn_indices r) (index_store (turn_indices r) (turns r) k t)"
    for t k using turn_log.store_wf [OF ok(3), of t k] by (simp add: store_turn_def)
  have permission_put: "pm_ask_id p = k \<Longrightarrow>
      indexed pm_ask_id (permission_indices r) (index_store (permission_indices r) (permissions r) k p)"
    for p k using permission_log.store_wf [OF ok(5), of p k] by (simp add: store_permission_def)
  from assms(2) show ?thesis
  proof cases
    case (accepted t entry)
    with turn_log.push_wf [of r t] index_None(1) [OF assms(1), of "ev_turn_id e"] ok
    show ?thesis by (simp add: tables_ok_def writes)
  next
    case (routed t)
    with turn_key [OF assms(1) routed(2)] ok show ?thesis
      by (simp add: tables_ok_def store_turn_def turn_put)
  next
    case (queued t route l)
    with lane_table.add_wf [OF ok(1), of l] ok show ?thesis
      by (simp add: tables_ok_def fresh_lane_def push_lane_def)
  next
    case (started lane_id l s)
    with lane_put [of lane_id] stream_table.add_wf [OF ok(2), of s] lane [of lane_id] ok
    show ?thesis by (simp add: tables_ok_def push_stream_def store_lane_def)
  next
    case (activity lane_id l acts)
    with lane_put [of lane_id] lane [of lane_id] ok show ?thesis
      by (simp add: tables_ok_def store_lane_def)
  next
    case (chunk p sid body lane_id l s model)
    with strm_put [of sid] strm [of sid] ok show ?thesis
      by (simp add: tables_ok_def store_stream_def)
  next
    case (cancelling lane_id l)
    with lane_put [of lane_id] lane [of lane_id] ok show ?thesis
      by (simp add: tables_ok_def store_lane_def)
  next
    case (committed lane_id l r1 c entry r2)
    with lane_put [of lane_id] strm_put lane [of lane_id] strm ok show ?thesis
      by (auto simp: tables_ok_def writes split: option.splits)
  next
    case (ended lane_id l p l1 l' reason)
    then have "ln_id l' = ln_id l" by simp
    with ended lane_put [of lane_id] lane [of lane_id] ok show ?thesis
      by (simp add: tables_ok_def store_lane_def)
  next
    case (asked p)
    with permission_log.push_wf [OF ok(5), of p] ok show ?thesis
      by (simp add: tables_ok_def push_permission_def)
  next
    case (answered ask_id p choice outcome)
    with permission_key [OF assms(1) answered(2)] ok show ?thesis
      by (simp add: tables_ok_def store_permission_def permission_put)
  next
    case (hopped h lane_id l)
    with hop_log.push_wf [OF ok(4), of h] index_None(2) [OF assms(1)] ok show ?thesis
      by (simp add: tables_ok_def push_hop_def)
  next
    case (completed t route)
    with turn_key [OF assms(1) completed(2)] ok show ?thesis
      by (simp add: tables_ok_def store_turn_def turn_put)
  qed (use ok in \<open>simp_all add: tables_ok_def\<close>)
qed

subsection \<open>Lanes\<close>

text \<open>The fields of a lane agree with its phase.\<close>

definition lane_wf :: "lane_state \<Rightarrow> bool" where
  "lane_wf l \<longleftrightarrow>
     (ln_phase l = Queued \<longrightarrow> ln_stream_id l = None)
     \<and> (ln_phase l = Running \<or> ln_phase l = Cancelling \<longrightarrow> ln_stream_id l \<noteq> None)
     \<and> (ln_started_at l = None \<longleftrightarrow> ln_stream_id l = None)
     \<and> (ln_message_commit l = None \<longleftrightarrow> ln_phase l \<notin> {Committed, Completed})
     \<and> (\<forall>c. ln_message_commit l = Some c \<longrightarrow> mc_message_id c = ln_expected_message_id l)
     \<and> (ln_terminal_at l = None \<longleftrightarrow> \<not> terminal (ln_phase l))
     \<and> (ln_terminal_event_seq l = None \<longleftrightarrow> \<not> terminal (ln_phase l))
     \<and> (ln_phase l \<noteq> Failed \<longrightarrow> ln_failure_reason l = None)
     \<and> (ln_stream_id l = None \<longrightarrow> ln_activity l = [])"

definition lane_moves :: "lane_state \<Rightarrow> lane_state \<Rightarrow> bool" where
  "lane_moves l l' \<longleftrightarrow>
     lane_identity l l' \<and> (ln_phase l' = ln_phase l \<or> phase_step (ln_phase l) (ln_phase l'))"

lemma lane_moves_refl [simp]: "lane_moves l l"
  by (simp add: lane_moves_def lane_identity_def)

lemmas lane_defs = lane_moves_def lane_identity_def lane_wf_def terminal_def

lemma lane_commits:
  assumes "ln_phase l \<in> {Queued, Running, Cancelling}" "mc_message_id c = ln_expected_message_id l"
  shows "lane_moves l (l\<lparr>ln_message_commit := Some c, ln_phase := Committed\<rparr>)"
    "lane_wf l \<longrightarrow> lane_wf (l\<lparr>ln_message_commit := Some c, ln_phase := Committed\<rparr>)"
    "\<not> terminal (ln_phase l)"
  using assms by (cases "ln_phase l"; auto simp: lane_defs)+

lemma lane_active_moves:
  assumes "ln_phase l = Running \<or> ln_phase l = Cancelling"
  shows "lane_moves l (l\<lparr>ln_activity := acts\<rparr>)" "lane_moves l (l\<lparr>ln_phase := Cancelling\<rparr>)"
    "lane_wf l \<longrightarrow> lane_wf (l\<lparr>ln_activity := acts\<rparr>)"
    "lane_wf l \<longrightarrow> lane_wf (l\<lparr>ln_phase := Cancelling\<rparr>)" "\<not> terminal (ln_phase l)"
proof -
  from assms show "lane_moves l (l\<lparr>ln_activity := acts\<rparr>)" "\<not> terminal (ln_phase l)"
    by (auto simp: lane_moves_def lane_identity_def terminal_def)
  from assms show "lane_moves l (l\<lparr>ln_phase := Cancelling\<rparr>)"
    by (simp add: lane_moves_def lane_identity_def)
  show "lane_wf l \<longrightarrow> lane_wf (l\<lparr>ln_activity := acts\<rparr>)"
    using assms unfolding lane_wf_def terminal_def by (intro impI) (elim conjE disjE; simp del: not_None_eq)
  show "lane_wf l \<longrightarrow> lane_wf (l\<lparr>ln_phase := Cancelling\<rparr>)"
    using assms unfolding lane_wf_def terminal_def by (intro impI) (elim conjE disjE; simp del: not_None_eq)
qed

lemma lane_ends:
  assumes "phase_step (ln_phase l) p" "terminal p"
    and l1: "l1 = l\<lparr>ln_phase := p, ln_terminal_at := Some ended_at, ln_terminal_event_seq := Some sq\<rparr>"
    and l': "l' = (if p = Failed then l1\<lparr>ln_failure_reason := reason\<rparr> else l1)"
  shows "lane_moves l l'" "lane_wf l \<longrightarrow> lane_wf l'" "\<not> terminal (ln_phase l)"
proof -
  show "\<not> terminal (ln_phase l)" using assms(1) terminal_final by blast
  show "lane_moves l l'"
    using assms(1) by (auto simp: lane_moves_def lane_identity_def l' l1 simp del: phase_step_from)
  show "lane_wf l \<longrightarrow> lane_wf l'"
  proof
    assume wf: "lane_wf l"
    from assms(2) consider "p = Completed" | "p = Failed" | "p = Cancelled"
      unfolding terminal_def by blast
    then show "lane_wf l'"
    proof cases
      case 1 with assms(1) wf show ?thesis by (simp add: l' l1 lane_wf_def terminal_def)
    next
      case 2
      with assms(1) have "ln_phase l \<in> {Queued, Running, Cancelling}" by auto
      with 2 wf show ?thesis unfolding lane_wf_def terminal_def l' l1
        by (elim conjE insertE emptyE) simp_all
    next
      case 3
      with assms(1) have "ln_phase l \<in> {Queued, Running, Cancelling}" by auto
      with 3 wf show ?thesis unfolding lane_wf_def terminal_def l' l1
        by (elim conjE insertE emptyE) simp_all
    qed
  qed
qed

text \<open>What a step may do to the lanes: nothing, add a fresh lane, or move one lane of the turn.\<close>

lemma room_step_lanes:
  assumes "room_step e r r'"
  obtains (same) "lanes r' = lanes r" "lane_order r' = lane_order r" "turn_lane_ids r' = turn_lane_ids r"
    | (added) t route l where "turn r (ev_turn_id e) = Some t" "tn_route t = Some route"
        "fresh_lane e r l" "operator_lane t route r l \<or> hop_lane r l" "r' = push_lane l r"
    | (moved) lane_id l l' where "lanes r lane_id = Some l" "ln_turn_id l = ev_turn_id e"
        "lane_moves l l'" "lane_wf l \<longrightarrow> lane_wf l'" "\<not> terminal (ln_phase l)"
        "lanes r' = (lanes r)(lane_id \<mapsto> l')"
        "lane_order r' = lane_order r" "turn_lane_ids r' = turn_lane_ids r"
  using assms
proof cases
  case (queued t route l)
  then show thesis by (intro added) auto
next
  case (started lane_id l s)
  then show thesis
    by (intro moved [of lane_id l "l\<lparr>ln_phase := Running, ln_started_at := Some (ev_occurred_at e),
          ln_stream_id := Some (st_id s)\<rparr>"])
      (simp_all add: writes lane_moves_def lane_identity_def lane_wf_def terminal_def)
next
  case (activity lane_id l acts)
  then show thesis
    by (intro moved [of lane_id l "l\<lparr>ln_activity := acts\<rparr>"] lane_active_moves)
      (simp_all add: store_lane_def)
next
  case (cancelling lane_id l)
  then show thesis
    by (intro moved [of lane_id l "l\<lparr>ln_phase := Cancelling\<rparr>"] lane_active_moves)
      (simp_all add: store_lane_def)
next
  case (committed lane_id l r1 c entry r2)
  let ?l = "l\<lparr>ln_message_commit := Some c, ln_phase := Committed\<rparr>"
  from committed(6) have "lanes r1 = lanes r" "lane_order r1 = lane_order r"
    "turn_lane_ids r1 = turn_lane_ids r"
    by (auto simp: store_stream_def split: option.splits)
  then have "lanes r' = (lanes r)(lane_id \<mapsto> ?l)" "lane_order r' = lane_order r"
    "turn_lane_ids r' = turn_lane_ids r"
    by (simp_all add: committed(1,12) store_lane_def push_transcript_def)
  with moved [OF committed(2,3) lane_commits [OF committed(4,7)]] show thesis by blast
next
  case (ended lane_id l p l1 l' reason)
  note l' = lane_ends [OF ended(4-7)]
  from ended(1) have "lanes r' = (lanes r)(lane_id \<mapsto> l')" "lane_order r' = lane_order r"
    "turn_lane_ids r' = turn_lane_ids r"
    by (simp_all add: store_lane_def)
  with moved [OF ended(2,3) l'] show thesis by blast
qed (intro same; simp add: writes)+

definition lanes_ok :: "reducer \<Rightarrow> bool" where
  "lanes_ok r \<longleftrightarrow> (\<forall>k l. lanes r k = Some l \<longrightarrow> lane_wf l)"

lemma fresh_lane_wf: "fresh_lane e r l \<Longrightarrow> lane_wf l"
  by (simp add: fresh_lane_def lane_wf_def terminal_def)

lemma lanes_ok_step: "lanes_ok r \<Longrightarrow> room_step e r r' \<Longrightarrow> lanes_ok r'"
  by (erule room_step_lanes)
    (auto simp: lanes_ok_def push_lane_def fresh_lane_wf)

text \<open>A lane's \<open>rosterIndex\<close> is its position in the room's roster.\<close>

definition roster_ok :: "reducer \<Rightarrow> bool" where
  "roster_ok r \<longleftrightarrow>
     (\<forall>i < length (lane_order r). \<forall>l. lanes r (lane_order r ! i) = Some l \<longrightarrow> ln_roster_index l = of_nat i)"

lemma fresh_unseated: "tables_ok r \<Longrightarrow> fresh_lane e r l \<Longrightarrow> ln_id l \<notin> set (lane_order r)"
  by (auto simp: tables_ok_def well_ordered_def fresh_lane_def)

lemma roster_ok_step:
  assumes "roster_ok r" "tables_ok r" "room_step e r r'" shows "roster_ok r'"
  using assms(3)
proof (cases rule: room_step_lanes)
  case same
  with assms(1) show ?thesis by (simp add: roster_ok_def)
next
  case (added t route l)
  have "lane_order r ! i \<noteq> ln_id l" if "i < length (lane_order r)" for i
    using fresh_unseated [OF assms(2) added(3)] nth_mem [OF that] by auto
  with assms(1) added(3,5) show ?thesis
    by (auto simp: roster_ok_def push_lane_def fresh_lane_def nth_append less_Suc_eq)
next
  case (moved lane_id l l')
  with assms(1) show ?thesis by (auto simp: roster_ok_def lane_moves_def lane_identity_def)
qed

text \<open>The lanes of a turn are the room's lanes of that turn, in roster order.\<close>

definition of_turn :: "reducer \<Rightarrow> string \<Rightarrow> string \<Rightarrow> bool" where
  "of_turn r tid k \<longleftrightarrow> (case lanes r k of Some l \<Rightarrow> ln_turn_id l = tid | None \<Rightarrow> False)"

definition seated :: "reducer \<Rightarrow> string \<Rightarrow> string list" where
  "seated r tid = (case turn_lane_ids r tid of None \<Rightarrow> [] | Some ids \<Rightarrow> ids)"

definition seats_ok :: "reducer \<Rightarrow> bool" where
  "seats_ok r \<longleftrightarrow> (\<forall>tid. seated r tid = filter (of_turn r tid) (lane_order r))"

lemma seats_ok_step:
  assumes "seats_ok r" "tables_ok r" "room_step e r r'" shows "seats_ok r'"
  using assms(3)
proof (cases rule: room_step_lanes)
  case same
  then have "of_turn r' = of_turn r" by (simp add: of_turn_def fun_eq_iff)
  with same assms(1) show ?thesis by (simp add: seats_ok_def seated_def)
next
  case (added t route l)
  note new = fresh_unseated [OF assms(2) added(3)]
  have "seated r' tid = filter (of_turn r' tid) (lane_order r')" for tid
  proof -
    have "filter (of_turn r' tid) (lane_order r) = filter (of_turn r tid) (lane_order r)"
      using new by (intro filter_cong) (auto simp: added(5) of_turn_def push_lane_def)
    moreover have "seated r' tid = seated r tid @ (if ln_turn_id l = tid then [ln_id l] else [])"
      by (simp add: added(5) seated_def push_lane_def)
    moreover have "of_turn r' tid (ln_id l) \<longleftrightarrow> ln_turn_id l = tid"
      by (simp add: added(5) of_turn_def push_lane_def)
    moreover have "lane_order r' = lane_order r @ [ln_id l]"
      by (simp add: added(5) push_lane_def)
    ultimately show ?thesis
      using assms(1) by (simp add: seats_ok_def)
  qed
  then show ?thesis by (simp add: seats_ok_def)
next
  case (moved lane_id l l')
  then have "of_turn r' = of_turn r"
    by (auto simp: of_turn_def fun_eq_iff lane_moves_def lane_identity_def)
  with moved assms(1) show ?thesis by (simp add: seats_ok_def seated_def)
qed

lemma turn_lanes_walk:
  assumes "tables_ok r" "seats_ok r"
  shows "turn_lanes r tid = filter (\<lambda>l. ln_turn_id l = tid) (fst (ordered_lanes r n))"
proof -
  have "List.map_filter (lanes r) (filter (of_turn r tid) ks)
      = filter (\<lambda>l. ln_turn_id l = tid) (List.map_filter (lanes r) ks)" for ks
    by (induction ks) (auto simp: List.map_filter_def of_turn_def split: option.splits)
  with assms(2) show ?thesis
    by (simp add: turn_lanes_def ordered_lanes_def seats_ok_def seated_def)
qed

lemma turn_lanes_set:
  assumes "tables_ok r" "seats_ok r"
  shows "l \<in> set (turn_lanes r tid) \<longleftrightarrow> ln_turn_id l = tid \<and> lanes r (ln_id l) = Some l"
proof -
  note ok = tables_okD(1) [OF assms(1)]
  have "set (fst (ordered_lanes r 0)) = ran (lanes r)"
    using walk_set [OF ok] by (simp add: ordered_lanes_def)
  then show ?thesis
    using well_ordered_key [OF ok] by (auto simp: turn_lanes_walk [OF assms, of _ 0] ran_def)
qed

end
