(* ===== verification/Room_Dialogue.thy ===== *)
theory Room_Dialogue
  imports Room_Invariant
begin

section \<open>Streams, messages and the transcript\<close>

text \<open>
  The invariants that tie a lane to its stream, a committed message to its lane and to the
  transcript, and the event log to the sequence counter.
\<close>

subsection \<open>Streams and their cursors\<close>

definition stream_wf :: "room_stream \<Rightarrow> bool" where
  "stream_wf s \<longleftrightarrow>
     valid_decimal (st_next_stream_seq s)
     \<and> dec_value (st_next_stream_seq s) = Suc (unat (st_next_chunk_index s))
     \<and> unat (st_next_chunk_index s) \<le> Suc (unat max_safe_integer)"

definition stream_backed :: "reducer \<Rightarrow> string \<Rightarrow> room_stream \<Rightarrow> bool" where
  "stream_backed r sid s \<longleftrightarrow>
     (\<exists>l. lanes r (st_lane_id s) = Some l \<and> ln_stream_id l = Some sid
        \<and> ln_agent l = st_agent s \<and> ln_turn_id l = st_turn_id s
        \<and> (\<forall>c. ln_message_commit l = Some c \<longrightarrow> st_text s = mc_text c))"

definition streams_ok :: "reducer \<Rightarrow> bool" where
  "streams_ok r \<longleftrightarrow>
     (\<forall>sid s. streams r sid = Some s \<longrightarrow> stream_wf s \<and> stream_backed r sid s)
     \<and> (\<forall>k l sid. lanes r k = Some l \<longrightarrow> ln_stream_id l = Some sid \<longrightarrow>
          (\<exists>s. streams r sid = Some s \<and> st_lane_id s = k))"

lemma streams_okD:
  assumes "streams_ok r"
  shows "streams r sid = Some s \<Longrightarrow> stream_wf s" "streams r sid = Some s \<Longrightarrow> stream_backed r sid s"
    "lanes r k = Some l \<Longrightarrow> ln_stream_id l = Some sid \<Longrightarrow>
       \<exists>s. streams r sid = Some s \<and> st_lane_id s = k"
  using assms by (auto simp: streams_ok_def)

lemma streams_ok_same:
  "streams_ok r \<Longrightarrow> lanes r' = lanes r \<Longrightarrow> streams r' = streams r \<Longrightarrow> streams_ok r'"
  by (simp add: streams_ok_def stream_backed_def)

lemma streams_ok_lane:
  assumes ok: "streams_ok r" and l: "lanes r k = Some l"
    and same: "ln_stream_id l' = ln_stream_id l" "ln_agent l' = ln_agent l"
      "ln_turn_id l' = ln_turn_id l" "ln_message_commit l' = ln_message_commit l"
    and r': "lanes r' = (lanes r)(k \<mapsto> l')" "streams r' = streams r"
  shows "streams_ok r'"
proof -
  have "stream_backed r' sid s" if "streams r sid = Some s" for sid s
    using streams_okD(2) [OF ok that] l same r' by (auto simp: stream_backed_def)
  with ok l same r' show ?thesis by (auto simp: streams_ok_def)
qed

lemma streams_ok_stream:
  assumes ok: "streams_ok r" and s: "streams r sid = Some s"
    and s': "stream_wf s'" "stream_backed r sid s'" "st_lane_id s' = st_lane_id s"
    and r': "lanes r' = lanes r" "streams r' = (streams r)(sid \<mapsto> s')"
  shows "streams_ok r'"
  unfolding streams_ok_def
proof (intro conjI allI impI)
  fix t u assume "streams r' t = Some u"
  with ok s' r' show "stream_wf u" "stream_backed r' t u"
    by (auto simp: streams_ok_def stream_backed_def split: if_splits)
next
  fix k l t assume "lanes r' k = Some l" "ln_stream_id l = Some t"
  with streams_okD(3) [OF ok] s s' r' show "\<exists>u. streams r' t = Some u \<and> st_lane_id u = k"
    by (metis fun_upd_apply option.inject)
qed

lemma max_safe_room: "unat max_safe_integer + 2 < 2 ^ 64"
  unfolding max_safe_integer_def by simp

lemma cursor_advances:
  assumes "stream_wf s" "st_next_chunk_index s \<le> max_safe_integer"
    and "st_next_chunk_index s' = st_next_chunk_index s + 1"
    and "st_next_stream_seq s' = increment_decimal (st_next_stream_seq s)"
  shows "stream_wf s'"
proof -
  have "unat (st_next_chunk_index s) \<le> unat max_safe_integer"
    using assms(2) by (simp add: word_le_nat_alt)
  moreover from this have "unat (st_next_chunk_index s + 1) = Suc (unat (st_next_chunk_index s))"
    using max_safe_room by (simp add: unat_word_ariths mod_less)
  ultimately show ?thesis using assms by (simp add: stream_wf_def increment_decimal_spec)
qed

lemma streams_ok_step:
  assumes ok: "streams_ok r" "lanes_ok r" and step: "room_step e r r'"
  shows "streams_ok r'"
  using step
proof cases
  case (queued t route l)
  then have new: "lanes r (ln_id l) = None" "ln_stream_id l = None" by (simp_all add: fresh_lane_def)
  have "stream_backed r' sid s" if "streams r sid = Some s" for sid s
    using streams_okD(2) [OF ok(1) that] new queued(1) by (auto simp: stream_backed_def push_lane_def)
  with ok(1) new queued(1) show ?thesis by (auto simp: streams_ok_def push_lane_def)
next
  case (started lane_id l s)
  let ?l = "l\<lparr>ln_phase := Running, ln_started_at := Some (ev_occurred_at e), ln_stream_id := Some (st_id s)\<rparr>"
  have none: "ln_stream_id l = None" "ln_message_commit l = None"
    using ok(2) started(2,4) by (auto simp: lanes_ok_def lane_wf_def)
  have r': "lanes r' = (lanes r)(lane_id \<mapsto> ?l)" "streams r' = (streams r)(st_id s \<mapsto> s)"
    using started(1) by (simp_all add: writes)
  have "stream_wf s" using started by (simp add: stream_wf_def del: dec_value.simps)
  moreover have "stream_backed r' (st_id s) s" using started none r' by (simp add: stream_backed_def)
  moreover have "stream_backed r' sid u" if "streams r sid = Some u" for sid u
    using streams_okD(2) [OF ok(1) that] started(2) none r' by (auto simp: stream_backed_def)
  moreover have "\<exists>u. streams r' sid = Some u \<and> st_lane_id u = k"
    if "lanes r' k = Some l'" "ln_stream_id l' = Some sid" for k l' sid
    using streams_okD(3) [OF ok(1), of k l' sid] that started(5,6) r' by (auto split: if_splits)
  ultimately show ?thesis using ok(1) r' by (auto simp: streams_ok_def)
next
  case (activity lane_id l acts)
  then show ?thesis
    by (intro streams_ok_lane [OF ok(1), of lane_id l "l\<lparr>ln_activity := acts\<rparr>"])
      (simp_all add: store_lane_def)
next
  case (cancelling lane_id l)
  then show ?thesis
    by (intro streams_ok_lane [OF ok(1), of lane_id l "l\<lparr>ln_phase := Cancelling\<rparr>"])
      (simp_all add: store_lane_def)
next
  case (ended lane_id l p l1 l' reason)
  then show ?thesis
    by (intro streams_ok_lane [OF ok(1), of lane_id l l']) (simp_all add: store_lane_def)
next
  case (chunk p sid body lane_id l s model)
  let ?s = "s\<lparr>st_model_id := model, st_text := st_text s @ body,
        st_next_chunk_index := st_next_chunk_index s + 1,
        st_next_stream_seq := increment_decimal (st_next_stream_seq s)\<rparr>"
  have "ln_message_commit l = None"
    using ok(2) chunk(6,8) by (auto simp: lanes_ok_def lane_wf_def)
  with streams_okD(2) [OF ok(1) chunk(10)] chunk(6,11) have "stream_backed r sid ?s"
    by (auto simp: stream_backed_def)
  moreover have "stream_wf ?s"
    by (rule cursor_advances [OF streams_okD(1) [OF ok(1) chunk(10)] chunk(12)]) simp_all
  ultimately show ?thesis
    using chunk(1) by (intro streams_ok_stream [OF ok(1) chunk(10)]) (simp_all add: store_stream_def)
next
  case (committed lane_id l r1 c entry r2)
  let ?l = "l\<lparr>ln_message_commit := Some c, ln_phase := Committed\<rparr>"
  have lanes': "lanes r' = (lanes r)(lane_id \<mapsto> ?l)" and streams': "streams r' = streams r1"
    using committed(1,6,12) by (auto simp: writes split: option.splits)
  show ?thesis
  proof (cases "ln_stream_id l")
    case None
    then have "streams r1 = streams r" using committed(6) by simp
    moreover have "stream_backed r' t u" if "streams r t = Some u" for t u
      using streams_okD(2) [OF ok(1) that] None committed(2) lanes' by (auto simp: stream_backed_def)
    ultimately show ?thesis using ok(1) None committed(2) lanes' streams'
      by (auto simp: streams_ok_def)
  next
    case (Some sid)
    then obtain s where s: "streams r sid = Some s"
      "streams r1 = (streams r)(sid \<mapsto> s\<lparr>st_text := mc_text c\<rparr>)"
      using committed(6) by (auto simp: store_stream_def)
    from streams_okD(3) [OF ok(1) committed(2) Some] s have k: "st_lane_id s = lane_id" by auto
    have backed: "stream_backed r' t u" if "streams r' t = Some u" for t u
    proof (cases "t = sid")
      case True
      with that s streams' streams_okD(2) [OF ok(1) s(1)] k lanes' committed(2) show ?thesis
        by (auto simp: stream_backed_def)
    next
      case False
      with that s streams' have "streams r t = Some u" by simp
      from streams_okD(2) [OF ok(1) this] False Some lanes' committed(2) show ?thesis
        by (auto simp: stream_backed_def)
    qed
    moreover have "stream_wf u" if "streams r' t = Some u" for t u
      using that s streams' streams_okD(1) [OF ok(1)] by (auto simp: stream_wf_def split: if_splits)
    moreover have "\<exists>u. streams r' t = Some u \<and> st_lane_id u = k"
      if "lanes r' k = Some l'" "ln_stream_id l' = Some t" for k l' t
      using that streams_okD(3) [OF ok(1), of k _ t] s streams' lanes' committed(2) Some
      by (auto split: if_splits)
    ultimately show ?thesis by (simp add: streams_ok_def)
  qed
qed (rule streams_ok_same [OF ok(1)]; simp add: writes)+

subsection \<open>Messages and the transcript\<close>

text \<open>A step appends at most one transcript entry, whose message id is new.\<close>

lemma room_step_transcript:
  assumes "room_step e r r'"
  obtains (same) "transcript r' = transcript r" "transcript_message_ids r' = transcript_message_ids r"
    | (appended) entry where "transcript r' = transcript r @ [entry]"
        "transcript_message_ids r' = insert (tr_message_id entry) (transcript_message_ids r)"
        "tr_message_id entry \<notin> transcript_message_ids r" "tr_event_seq entry = ev_event_seq e"
  using assms
proof cases
  case (accepted t entry)
  then show thesis by (intro appended [of entry]) (simp_all add: writes)
next
  case (committed lane_id l r1 c entry r2)
  then have "transcript r1 = transcript r" "transcript_message_ids r1 = transcript_message_ids r"
    by (auto simp: store_stream_def split: option.splits)
  with committed show thesis by (intro appended [of entry]) (simp_all add: writes)
qed (intro same; simp add: writes)+

definition transcript_ok :: "reducer \<Rightarrow> bool" where
  "transcript_ok r \<longleftrightarrow>
     transcript_message_ids r = set (map tr_message_id (transcript r))
     \<and> distinct (map tr_message_id (transcript r))"

lemma transcript_ok_step: "transcript_ok r \<Longrightarrow> room_step e r r' \<Longrightarrow> transcript_ok r'"
  by (erule room_step_transcript) (auto simp: transcript_ok_def)

text \<open>The message index and the lanes agree on who committed what.\<close>

definition messages_ok :: "reducer \<Rightarrow> bool" where
  "messages_ok r \<longleftrightarrow>
     (\<forall>mid k. message_lanes r mid = Some k \<longleftrightarrow>
        (\<exists>l c. lanes r k = Some l \<and> ln_message_commit l = Some c \<and> mc_message_id c = mid))
     \<and> dom (message_lanes r) \<subseteq> transcript_message_ids r"

lemma messages_ok_lane:
  assumes "messages_ok r" "lanes r k = Some l" "ln_message_commit l' = ln_message_commit l"
    and "lanes r' = (lanes r)(k \<mapsto> l')" "message_lanes r' = message_lanes r"
    and "transcript_message_ids r' = transcript_message_ids r"
  shows "messages_ok r'"
  using assms by (auto simp: messages_ok_def)

lemma messages_ok_same:
  "messages_ok r \<Longrightarrow> lanes r' = lanes r \<Longrightarrow> message_lanes r' = message_lanes r \<Longrightarrow>
   transcript_message_ids r \<subseteq> transcript_message_ids r' \<Longrightarrow> messages_ok r'"
  by (auto simp: messages_ok_def)

lemma messages_ok_step:
  assumes ok: "messages_ok r" "lanes_ok r" and step: "room_step e r r'"
  shows "messages_ok r'"
  using step
proof cases
  case (queued t route l)
  then have "lanes r (ln_id l) = None" "ln_message_commit l = None" by (simp_all add: fresh_lane_def)
  moreover have "lanes r' = (lanes r)(ln_id l \<mapsto> l)" "message_lanes r' = message_lanes r"
    "transcript_message_ids r' = transcript_message_ids r"
    using queued(1) by (simp_all add: push_lane_def)
  ultimately show ?thesis using ok(1) by (auto simp: messages_ok_def)
next
  case (started lane_id l s)
  then show ?thesis
    by (intro messages_ok_lane [OF ok(1) started(2), of "l\<lparr>ln_phase := Running,
          ln_started_at := Some (ev_occurred_at e), ln_stream_id := Some (st_id s)\<rparr>"])
      (simp_all add: writes)
next
  case (activity lane_id l acts)
  then show ?thesis
    by (intro messages_ok_lane [OF ok(1) activity(2), of "l\<lparr>ln_activity := acts\<rparr>"])
      (simp_all add: store_lane_def)
next
  case (cancelling lane_id l)
  then show ?thesis
    by (intro messages_ok_lane [OF ok(1) cancelling(2), of "l\<lparr>ln_phase := Cancelling\<rparr>"])
      (simp_all add: store_lane_def)
next
  case (ended lane_id l p l1 l' reason)
  then show ?thesis
    by (intro messages_ok_lane [OF ok(1) ended(2), of l']) (simp_all add: store_lane_def)
next
  case (committed lane_id l r1 c entry r2)
  let ?l = "l\<lparr>ln_message_commit := Some c, ln_phase := Committed\<rparr>"
  have none: "ln_message_commit l = None"
    using ok(2) committed(2,4) by (auto simp: lanes_ok_def lane_wf_def)
  have r1: "lanes r1 = lanes r" "message_lanes r1 = message_lanes r"
    "transcript_message_ids r1 = transcript_message_ids r"
    using committed(6) by (auto simp: store_stream_def split: option.splits)
  have r': "lanes r' = (lanes r)(lane_id \<mapsto> ?l)"
    "message_lanes r' = (message_lanes r)(mc_message_id c \<mapsto> lane_id)"
    "transcript_message_ids r' = insert (mc_message_id c) (transcript_message_ids r)"
    using committed(1,9,12) r1 by (simp_all add: writes)
  have fresh: "message_lanes r (mc_message_id c) = None"
    using ok(1) committed(5,7) by (auto simp: messages_ok_def)
  have "message_lanes r' mid = Some k \<longleftrightarrow>
      (\<exists>l c. lanes r' k = Some l \<and> ln_message_commit l = Some c \<and> mc_message_id c = mid)" for mid k
  proof (cases "mid = mc_message_id c")
    case True
    have "\<not> (\<exists>l'. lanes r k = Some l' \<and> (\<exists>c'. ln_message_commit l' = Some c' \<and> mc_message_id c' = mid))"
      using fresh ok(1) True unfolding messages_ok_def by (metis option.distinct(1))
    then show ?thesis using True r' by auto
  next
    case False
    have "message_lanes r mid = Some k \<longleftrightarrow>
      (\<exists>l c. lanes r k = Some l \<and> ln_message_commit l = Some c \<and> mc_message_id c = mid)"
      using ok(1) by (simp add: messages_ok_def)
    then show ?thesis using False r' none committed(2) by auto
  qed
  moreover have "dom (message_lanes r') \<subseteq> transcript_message_ids r'"
    using ok(1) r' by (auto simp: messages_ok_def)
  ultimately show ?thesis by (simp add: messages_ok_def)
next
  case (accepted t entry)
  then show ?thesis by (intro messages_ok_same [OF ok(1)]) (auto simp: writes)
qed (rule messages_ok_same [OF ok(1)]; simp add: writes)+

subsection \<open>The event log\<close>

text \<open>
  The log holds exactly one event per sequence number from 1 to the last one, all of the bound
  session; the transcript is in strictly ascending event order.
\<close>

definition log_ok :: "reducer \<Rightarrow> bool" where
  "log_ok r \<longleftrightarrow>
     valid_decimal (last_event_seq r)
     \<and> (\<forall>i e. events_by_id r i = Some e \<longrightarrow>
          ev_event_id e = i \<and> valid_decimal (ev_event_seq e) \<and> session_id r = Some (ev_session_id e))
     \<and> bij_betw (\<lambda>i. dec_value (ev_event_seq (the (events_by_id r i)))) (dom (events_by_id r))
         {1 .. dec_value (last_event_seq r)}"

definition transcript_sorted :: "reducer \<Rightarrow> bool" where
  "transcript_sorted r \<longleftrightarrow>
     sorted_wrt (<) (map (\<lambda>t. dec_value (tr_event_seq t)) (transcript r))
     \<and> (\<forall>t \<in> set (transcript r). valid_decimal (tr_event_seq t)
          \<and> dec_value (tr_event_seq t) \<le> dec_value (last_event_seq r))"

lemma room_step_log:
  assumes "room_step e r r'"
  shows "session_id r' = session_id r" "events_by_id r' = events_by_id r"
    "last_event_seq r' = last_event_seq r"
proof -
  have *: "session_id r' = session_id r \<and> events_by_id r' = events_by_id r
      \<and> last_event_seq r' = last_event_seq r"
    using assms
  proof cases
    case (committed lane_id l r1 c entry r2)
    then show ?thesis by (auto simp: writes split: option.splits)
  qed (simp_all add: writes)
  then show "session_id r' = session_id r" "events_by_id r' = events_by_id r"
    "last_event_seq r' = last_event_seq r" by simp_all
qed

lemma log_ok_applied:
  assumes ok: "log_ok r" and step: "room_step e r r1"
    and e: "session_id r = None \<or> session_id r = Some (ev_session_id e)"
      "events_by_id r (ev_event_id e) = None" "ev_event_seq e = increment_decimal (last_event_seq r)"
  shows "log_ok (note_applied e r1)"
proof -
  note log = room_step_log [OF step]
  let ?r = "note_applied e r1"
  have last: "valid_decimal (ev_event_seq e)"
    "dec_value (ev_event_seq e) = Suc (dec_value (last_event_seq r))"
    using ok e(3) by (auto simp: log_ok_def increment_decimal_spec)
  let ?f = "\<lambda>i. dec_value (ev_event_seq (the (events_by_id r i)))"
  let ?g = "\<lambda>i. dec_value (ev_event_seq (the (events_by_id ?r i)))"
  have bij: "bij_betw ?f (dom (events_by_id r)) {1 .. dec_value (last_event_seq r)}"
    using ok by (simp add: log_ok_def)
  then have "bij_betw ?g (dom (events_by_id r)) {1 .. dec_value (last_event_seq r)}"
    using e(2) by (subst bij_betw_cong [of _ _ ?f]) (auto simp: log)
  then have "bij_betw ?g (dom (events_by_id r) \<union> {ev_event_id e})
      ({1 .. dec_value (last_event_seq r)} \<union> {?g (ev_event_id e)})"
    using e(2) last by (intro bij_betw_combine) (auto simp: bij_betw_def)
  moreover have "{1 .. dec_value (last_event_seq r)} \<union> {?g (ev_event_id e)}
      = {1 .. dec_value (ev_event_seq e)}"
    using last by auto
  moreover have "dom (events_by_id ?r) = dom (events_by_id r) \<union> {ev_event_id e}"
    by (auto simp: log)
  ultimately have "bij_betw ?g (dom (events_by_id ?r)) {1 .. dec_value (last_event_seq ?r)}"
    by simp
  moreover have "session_id ?r = Some (ev_session_id e)"
    using e(1) by (auto simp: note_applied_def log)
  moreover have "\<forall>i e'. events_by_id r i = Some e' \<longrightarrow> ev_session_id e' = ev_session_id e"
    using ok e(1) unfolding log_ok_def by (metis option.distinct(1) option.inject)
  ultimately show ?thesis
    using ok last unfolding log_ok_def by (auto simp: log split: if_splits)
qed

lemma transcript_sorted_applied:
  assumes ok: "transcript_sorted r" and step: "room_step e r r1" and "valid_decimal (last_event_seq r)"
    and "ev_event_seq e = increment_decimal (last_event_seq r)"
  shows "transcript_sorted (note_applied e r1)"
proof -
  have last: "valid_decimal (ev_event_seq e)"
    "dec_value (ev_event_seq e) = Suc (dec_value (last_event_seq r))"
    using assms(3,4) by (auto simp: increment_decimal_spec)
  from step show ?thesis
  proof (cases rule: room_step_transcript)
    case same
    with ok last show ?thesis by (auto simp: transcript_sorted_def)
  next
    case (appended entry)
    with ok last show ?thesis
      by (auto simp: transcript_sorted_def sorted_wrt_append)
  qed
qed

end
