(* ===== verification/Room_Turns.thy ===== *)
theory Room_Turns
  imports Room_Dialogue
begin

section \<open>Turns, hops and permissions\<close>

text \<open>
  What a step does to the three indexed vectors, seen through their accessors; the invariants of
  turns and their lanes, of hops and their parents, of permissions and their answers; and the
  summary \<open>room_wf\<close> with its theorem: every reachable room is well formed.
\<close>

lemma turn_ext: "turn r = index_find (turn_indices r) (turns r)"
  and hop_ext: "hop r = index_find (hop_indices r) (hops r)"
  and permission_ext: "permission r = index_find (permission_indices r) (permissions r)"
  by (auto simp: turn_def hop_def permission_def)

lemma turn_push:
  "tables_ok r \<Longrightarrow> turn r (tn_id t) = None \<Longrightarrow> turn (push_turn t r) = (turn r)(tn_id t \<mapsto> t)"
  using turn_log.find_push [of r t] index_None(1) [of r "tn_id t"] by (simp add: tables_ok_def turn_ext)

lemma turn_store:
  assumes "tables_ok r" "turn r k = Some t0" shows "turn (store_turn k t r) = (turn r)(k \<mapsto> t)"
proof -
  from index_None(1) [OF assms(1), of k] assms(2) obtain i where "turn_indices r k = Some i" by auto
  with turn_log.find_store [of r k i t] assms(1) show ?thesis by (simp add: tables_ok_def turn_ext)
qed

lemma hop_push:
  "tables_ok r \<Longrightarrow> hop r (hp_hop_id h) = None \<Longrightarrow> hop (push_hop h r) = (hop r)(hp_hop_id h \<mapsto> h)"
  using hop_log.find_push [of r h] index_None(2) [of r "hp_hop_id h"] by (simp add: tables_ok_def hop_ext)

lemma permission_push:
  "tables_ok r \<Longrightarrow> permission r (pm_ask_id p) = None \<Longrightarrow>
   permission (push_permission p r) = (permission r)(pm_ask_id p \<mapsto> p)"
  using permission_log.find_push [of r p] index_None(3) [of r "pm_ask_id p"]
  by (simp add: tables_ok_def permission_ext)

lemma permission_store:
  assumes "tables_ok r" "permission r k = Some p0"
  shows "permission (store_permission k p r) = (permission r)(k \<mapsto> p)"
proof -
  from index_None(3) [OF assms(1), of k] assms(2) obtain i where "permission_indices r k = Some i" by auto
  with permission_log.find_store [of r k i p] assms(1) show ?thesis
    by (simp add: tables_ok_def permission_ext)
qed

lemma turn_cong: "turns r' = turns r \<Longrightarrow> turn_indices r' = turn_indices r \<Longrightarrow> turn r' = turn r"
  and hop_cong: "hops r' = hops r \<Longrightarrow> hop_indices r' = hop_indices r \<Longrightarrow> hop r' = hop r"
  and permission_cong:
    "permissions r' = permissions r \<Longrightarrow> permission_indices r' = permission_indices r \<Longrightarrow>
     permission r' = permission r"
  by (simp_all add: turn_ext hop_ext permission_ext)

subsection \<open>Effects\<close>

text \<open>A turn appears once, is routed once to its own agents, and is completed once.\<close>

definition turn_moves :: "turn_state \<Rightarrow> turn_state \<Rightarrow> bool" where
  "turn_moves t t' \<longleftrightarrow>
     tn_id t' = tn_id t \<and> tn_agents t' = tn_agents t \<and> tn_text t' = tn_text t
     \<and> tn_message_id t' = tn_message_id t \<and> tn_ledger_seq t' = tn_ledger_seq t
     \<and> tn_accepted_at t' = tn_accepted_at t
     \<and> (tn_route t \<noteq> None \<longrightarrow> tn_route t' = tn_route t)
     \<and> (tn_completed_at t \<noteq> None \<longrightarrow> tn_completed_at t' = tn_completed_at t)"

lemma turn_moves_refl [simp]: "turn_moves t t"
  by (simp add: turn_moves_def)

lemma turn_moves_trans: "turn_moves t u \<Longrightarrow> turn_moves u v \<Longrightarrow> turn_moves t v"
  by (auto simp: turn_moves_def)

lemma room_step_turns:
  assumes "room_step e r r'" "tables_ok r"
  obtains (same) "turn r' = turn r"
    | (accepted) t where "turn r (tn_id t) = None" "turn r' = (turn r)(tn_id t \<mapsto> t)"
        "tn_id t = ev_turn_id e" "tn_route t = None" "tn_completed_at t = None" "tn_agents t \<noteq> []"
        "distinct (tn_agents t)" "list_all is_agent (tn_agents t)" "lanes r' = lanes r"
    | (routed) t where "turn r (ev_turn_id e) = Some t" "tn_route t = None"
        "turn r' = (turn r)(ev_turn_id e \<mapsto>
           t\<lparr>tn_route := Some \<lparr>rt_agents = tn_agents t, rt_resolved_at = ev_occurred_at e\<rparr>\<rparr>)"
        "lanes r' = lanes r"
    | (completed) t route where "turn r (ev_turn_id e) = Some t" "tn_route t = Some route"
        "tn_completed_at t = None"
        "turn r' = (turn r)(ev_turn_id e \<mapsto> t\<lparr>tn_completed_at := Some (ev_occurred_at e)\<rparr>)"
        "list_all (\<lambda>l. terminal (ln_phase l)) (turn_lanes r (ev_turn_id e))"
        "\<forall>agent \<in> set (rt_agents route). length (filter (\<lambda>l. ln_origin l = OriginOperator
            \<and> ln_agent l = agent) (turn_lanes r (ev_turn_id e))) = 1"
        "lanes r' = lanes r"
  using assms(1)
proof cases
  case (accepted t entry)
  have "tables_ok (push_transcript entry r)" "turn (push_transcript entry r) = turn r"
    using assms(2) by (simp_all add: tables_ok_def push_transcript_def turn_ext)
  with turn_push [of "push_transcript entry r" t] accepted that(2) show thesis
    by (simp add: writes)
next
  case (routed t)
  with turn_store [OF assms(2) routed(2)] that(3) show thesis by (simp add: writes)
next
  case (completed t route)
  with turn_store [OF assms(2) completed(2)] that(4) show thesis by (simp add: writes)
next
  case (committed lane_id l r1 c entry r2)
  then have "turns r1 = turns r" "turn_indices r1 = turn_indices r"
    by (auto simp: store_stream_def split: option.splits)
  with committed show thesis by (intro same turn_cong) (simp_all add: writes)
qed (intro same turn_cong; simp add: writes)+

lemma room_step_hops:
  assumes "room_step e r r'" "tables_ok r"
  obtains (same) "hop r' = hop r"
    | (hopped) h k l where "hop r (hp_hop_id h) = None" "hop r' = (hop r)(hp_hop_id h \<mapsto> h)"
        "hp_turn_id h = ev_turn_id e" "message_lanes r (hp_parent_message_id h) = Some k"
        "lanes r k = Some l" "ln_turn_id l = ev_turn_id e" "ln_agent l = hp_from_agent h"
        "hp_hop_index h = ln_hop_index l + 1" "0 < hp_hop_index h" "hp_hop_index h \<le> max_safe_integer"
        "0 < hp_hop_budget h"
        "(hp_disposition h = Dispatched) = (hp_hop_index h \<le> hp_hop_budget h)"
        "lanes r' = lanes r" "message_lanes r' = message_lanes r"
  using assms(1)
proof cases
  case (hopped h k l)
  with hop_push [OF assms(2) hopped(2)] that(2) show thesis by (simp add: push_hop_def)
next
  case (committed lane_id l r1 c entry r2)
  then have "hops r1 = hops r" "hop_indices r1 = hop_indices r"
    by (auto simp: store_stream_def split: option.splits)
  with committed show thesis by (intro same hop_cong) (simp_all add: writes)
qed (intro same hop_cong; simp add: writes)+

lemma room_step_permissions:
  assumes "room_step e r r'" "tables_ok r"
  obtains (same) "permission r' = permission r"
    | (asked) p where "permission r (pm_ask_id p) = None"
        "permission r' = (permission r)(pm_ask_id p \<mapsto> p)" "pm_outcome p = None" "pm_option_id p = None"
        "pm_resolved_event_seq p = None" "distinct (map po_option_id (pm_options p))"
    | (answered) k p choice outcome where "permission r k = Some p" "pm_outcome p = None"
        "case choice of None \<Rightarrow> True | Some c \<Rightarrow> c \<in> po_option_id ` set (pm_options p)"
        "permission r' = (permission r)(k \<mapsto> p\<lparr>pm_outcome := Some outcome, pm_option_id := choice,
          pm_resolved_event_seq := Some (ev_event_seq e), pm_resolved_at := Some (ev_occurred_at e)\<rparr>)"
  using assms(1)
proof cases
  case (asked p)
  with permission_push [OF assms(2) asked(2)] that(2) show thesis by simp
next
  case (answered k p choice outcome)
  with permission_store [OF assms(2) answered(2)] that(3) show thesis by simp
next
  case (committed lane_id l r1 c entry r2)
  then have "permissions r1 = permissions r" "permission_indices r1 = permission_indices r"
    by (auto simp: store_stream_def split: option.splits)
  with committed show thesis by (intro same permission_cong) (simp_all add: writes)
qed (intro same permission_cong; simp add: writes)+

text \<open>What every step preserves: lanes, turns and hops never disappear and never change identity.\<close>

lemma room_step_lane_kept:
  assumes "room_step e r r'" "lanes r k = Some l"
  shows "\<exists>l'. lanes r' k = Some l' \<and> lane_moves l l'"
  using assms(1)
proof (cases rule: room_step_lanes)
  case (added t route l')
  with assms(2) show ?thesis by (auto simp: fresh_lane_def push_lane_def)
next
  case (moved lane_id l0 l')
  with assms(2) show ?thesis by (cases "k = lane_id") auto
qed (use assms(2) in simp)

lemma room_step_turn_kept:
  assumes "room_step e r r'" "tables_ok r" "turn r k = Some t"
  shows "\<exists>t'. turn r' k = Some t' \<and> turn_moves t t'"
  using assms(1,2)
proof (cases rule: room_step_turns)
  case (accepted u)
  with assms(3) show ?thesis by (cases "k = tn_id u") auto
next
  case (routed u)
  with assms(3) show ?thesis by (cases "k = ev_turn_id e") (auto simp: turn_moves_def)
next
  case (completed u route)
  with assms(3) show ?thesis by (cases "k = ev_turn_id e") (auto simp: turn_moves_def)
qed (use assms(3) in simp)

lemma room_step_hop_kept:
  assumes "room_step e r r'" "tables_ok r" "hop r k = Some h" shows "hop r' k = Some h"
  using assms(1,2)
proof (cases rule: room_step_hops)
  case (hopped h' k' l)
  with assms(3) show ?thesis by (cases "k = hp_hop_id h'") auto
qed (use assms(3) in simp)

subsection \<open>Invariants of turns, hops and permissions\<close>

definition turn_wf :: "turn_state \<Rightarrow> bool" where
  "turn_wf t \<longleftrightarrow>
     tn_agents t \<noteq> [] \<and> distinct (tn_agents t) \<and> list_all is_agent (tn_agents t)
     \<and> (\<forall>route. tn_route t = Some route \<longrightarrow> rt_agents route = tn_agents t)
     \<and> (tn_completed_at t \<noteq> None \<longrightarrow> tn_route t \<noteq> None)"

definition turns_ok :: "reducer \<Rightarrow> bool" where
  "turns_ok r \<longleftrightarrow> (\<forall>k t. turn r k = Some t \<longrightarrow> turn_wf t)"

lemma turns_ok_step:
  assumes "turns_ok r" "tables_ok r" "room_step e r r'" shows "turns_ok r'"
  using assms(3,2)
proof (cases rule: room_step_turns)
  case (routed t)
  with assms(1) have "turn_wf t" by (simp add: turns_ok_def)
  with routed assms(1) show ?thesis by (auto simp: turns_ok_def turn_wf_def)
next
  case (completed t route)
  with assms(1) have "turn_wf t" by (simp add: turns_ok_def)
  with completed assms(1) show ?thesis by (auto simp: turns_ok_def turn_wf_def)
qed (use assms(1) in \<open>auto simp: turns_ok_def turn_wf_def\<close>)

text \<open>Where a lane comes from: the route of its turn, or a dispatched hop of its turn.\<close>

definition lane_sourced :: "reducer \<Rightarrow> lane_state \<Rightarrow> bool" where
  "lane_sourced r l \<longleftrightarrow>
     (\<exists>t. turn r (ln_turn_id l) = Some t \<and> tn_route t \<noteq> None
        \<and> (ln_origin l = OriginOperator \<longrightarrow> ln_agent l \<in> set (tn_agents t) \<and> ln_hop_index l = 0))
     \<and> (ln_origin l = OriginAgent \<longrightarrow> hop_lane r l)"

definition sources_ok :: "reducer \<Rightarrow> bool" where
  "sources_ok r \<longleftrightarrow> (\<forall>k l. lanes r k = Some l \<longrightarrow> lane_sourced r l)"

lemma hop_lane_kept:
  assumes "room_step e r r'" "tables_ok r" "hop_lane r l" "lane_identity l l'"
  shows "hop_lane r' l'"
proof -
  from assms(3) obtain hop_id h where "ln_hop_id l = Some hop_id" "hop r hop_id = Some h"
    "ln_origin l = OriginAgent" "0 < ln_hop_index l" "ln_reply_to l = ln_parent_message_id l"
    "hp_disposition h = Dispatched" "hp_turn_id h = ln_turn_id l"
    "ln_from_agent l = Some (hp_from_agent h)" "hp_to_agent h = ln_agent l"
    "ln_parent_message_id l = Some (hp_parent_message_id h)" "hp_hop_index h = ln_hop_index l"
    by (auto simp: hop_lane_def)
  with room_step_hop_kept [OF assms(1,2)] assms(4) show ?thesis
    by (auto simp: hop_lane_def lane_identity_def)
qed

lemma lane_identity_refl [simp]: "lane_identity l l"
  by (simp add: lane_identity_def)

lemma lane_identity_trans: "lane_identity l m \<Longrightarrow> lane_identity m n \<Longrightarrow> lane_identity l n"
  by (simp add: lane_identity_def)

lemma lane_sourced_kept:
  assumes "room_step e r r'" "tables_ok r" "lane_sourced r l" "lane_identity l l'"
  shows "lane_sourced r' l'"
proof -
  from assms(3) obtain t where t: "turn r (ln_turn_id l) = Some t" "tn_route t \<noteq> None"
    "ln_origin l = OriginOperator \<longrightarrow> ln_agent l \<in> set (tn_agents t) \<and> ln_hop_index l = 0"
    by (auto simp: lane_sourced_def)
  from room_step_turn_kept [OF assms(1,2) t(1)] obtain t' where
    "turn r' (ln_turn_id l) = Some t'" "turn_moves t t'" by auto
  with t assms hop_lane_kept [OF assms(1,2) _ assms(4)] show ?thesis
    by (auto simp: lane_sourced_def turn_moves_def lane_identity_def)
qed

lemma sources_ok_step:
  assumes ok: "sources_ok r" "tables_ok r" "turns_ok r" and step: "room_step e r r'"
  shows "sources_ok r'"
proof -
  have kept: "lane_sourced r' l'" if "lanes r k = Some l" "lane_identity l l'" for k l l'
    using lane_sourced_kept [OF step ok(2) _ that(2)] ok(1) that(1) by (simp add: sources_ok_def)
  from step show ?thesis
  proof (cases rule: room_step_lanes)
    case same
    then show ?thesis using kept by (auto simp: sources_ok_def)
  next
    case (added t route l)
    have turn_wf: "turn_wf t" using ok(3) added(1) by (auto simp: turns_ok_def)
    have tid: "ln_turn_id l = ev_turn_id e" using added(3) by (simp add: fresh_lane_def)
    have "lane_sourced r l"
      using added(1,2,4) turn_wf tid
      by (auto simp: lane_sourced_def operator_lane_def hop_lane_def turn_wf_def)
    with lane_sourced_kept [OF step ok(2)] have "lane_sourced r' l" by simp
    with added(5) kept show ?thesis
      by (auto simp: sources_ok_def push_lane_def split: if_splits)
  next
    case (moved k l l')
    with kept show ?thesis by (auto simp: sources_ok_def lane_moves_def split: if_splits)
  qed
qed

text \<open>A turn has at most one operator lane per agent.\<close>

definition roots_unique :: "reducer \<Rightarrow> bool" where
  "roots_unique r \<longleftrightarrow>
     (\<forall>k l k' l'. lanes r k = Some l \<longrightarrow> lanes r k' = Some l' \<longrightarrow>
        ln_origin l = OriginOperator \<longrightarrow> ln_origin l' = OriginOperator \<longrightarrow>
        ln_turn_id l = ln_turn_id l' \<longrightarrow> ln_agent l = ln_agent l' \<longrightarrow> k = k')"

lemma roots_unique_step:
  assumes ok: "roots_unique r" "tables_ok r" "seats_ok r" and step: "room_step e r r'"
  shows "roots_unique r'"
  using step
proof (cases rule: room_step_lanes)
  case same
  with ok(1) show ?thesis by (simp add: roots_unique_def)
next
  case (added t route l)
  have fresh: "ln_agent l' \<noteq> ln_agent l"
    if "lanes r k' = Some l'" "ln_origin l' = OriginOperator" "ln_turn_id l' = ln_turn_id l"
      "ln_origin l = OriginOperator" for k' l'
  proof -
    have "ln_id l' = k'" using well_ordered_key [OF tables_okD(1) [OF ok(2)] that(1)] .
    then have "l' \<in> set (turn_lanes r (ln_turn_id l))"
      using turn_lanes_set [OF ok(2,3)] that by simp
    with added(4) that show ?thesis by (auto simp: operator_lane_def hop_lane_def)
  qed
  show ?thesis
    unfolding roots_unique_def
  proof (intro allI impI)
    fix k l1 k' l2
    assume a: "lanes r' k = Some l1" "lanes r' k' = Some l2" "ln_origin l1 = OriginOperator"
      "ln_origin l2 = OriginOperator" "ln_turn_id l1 = ln_turn_id l2" "ln_agent l1 = ln_agent l2"
    have r': "lanes r' = (lanes r)(ln_id l \<mapsto> l)" by (simp add: added(5) push_lane_def)
    show "k = k'"
    proof (cases "k = ln_id l"; cases "k' = ln_id l")
      assume "k = ln_id l" "k' \<noteq> ln_id l"
      with a r' fresh [of k' l2] show ?thesis by auto
    next
      assume "k \<noteq> ln_id l" "k' = ln_id l"
      with a r' fresh [of k l1] show ?thesis by auto
    next
      assume "k \<noteq> ln_id l" "k' \<noteq> ln_id l"
      with a r' ok(1) show ?thesis unfolding roots_unique_def by (metis fun_upd_other)
    qed simp
  qed
next
  case (moved lane_id l l')
  then have same: "ln_origin l' = ln_origin l" "ln_turn_id l' = ln_turn_id l" "ln_agent l' = ln_agent l"
    by (simp_all add: lane_moves_def lane_identity_def)
  have moved_origin: "\<exists>m. lanes r k = Some m \<and> ln_origin m = ln_origin l1
      \<and> ln_turn_id m = ln_turn_id l1 \<and> ln_agent m = ln_agent l1" if "lanes r' k = Some l1" for k l1
    using that moved(1,6) same by (cases "k = lane_id") auto
  show ?thesis
    unfolding roots_unique_def
  proof (intro allI impI)
    fix k l1 k' l2
    assume a: "lanes r' k = Some l1" "lanes r' k' = Some l2" "ln_origin l1 = OriginOperator"
      "ln_origin l2 = OriginOperator" "ln_turn_id l1 = ln_turn_id l2" "ln_agent l1 = ln_agent l2"
    obtain m1 m2 where "lanes r k = Some m1" "ln_origin m1 = ln_origin l1"
      "ln_turn_id m1 = ln_turn_id l1" "ln_agent m1 = ln_agent l1" "lanes r k' = Some m2"
      "ln_origin m2 = ln_origin l2" "ln_turn_id m2 = ln_turn_id l2" "ln_agent m2 = ln_agent l2"
      using moved_origin [OF a(1)] moved_origin [OF a(2)] by blast
    with a ok(1) show "k = k'" unfolding roots_unique_def by metis
  qed
qed

text \<open>Once a turn is completed, each of its routed agents has a root lane, and it has ended.\<close>

definition completed_ok :: "reducer \<Rightarrow> bool" where
  "completed_ok r \<longleftrightarrow>
     (\<forall>tid t. turn r tid = Some t \<longrightarrow> tn_completed_at t \<noteq> None \<longrightarrow>
        (\<forall>agent \<in> set (tn_agents t). \<exists>k l. lanes r k = Some l \<and> ln_turn_id l = tid
            \<and> ln_agent l = agent \<and> ln_origin l = OriginOperator \<and> terminal (ln_phase l)))"

lemma terminal_kept: "lane_moves l l' \<Longrightarrow> terminal (ln_phase l) \<Longrightarrow> terminal (ln_phase l')"
  using terminal_final by (auto simp: lane_moves_def)

lemma completed_ok_step:
  assumes ok: "completed_ok r" "tables_ok r" "seats_ok r" "turns_ok r" and step: "room_step e r r'"
  shows "completed_ok r'"
proof -
  have kept: "\<exists>k l. lanes r' k = Some l \<and> ln_turn_id l = tid \<and> ln_agent l = agent
      \<and> ln_origin l = OriginOperator \<and> terminal (ln_phase l)"
    if "lanes r k = Some l" "ln_turn_id l = tid" "ln_agent l = agent" "ln_origin l = OriginOperator"
      "terminal (ln_phase l)" for k l tid agent
  proof -
    from room_step_lane_kept [OF step that(1)] obtain l' where
      l': "lanes r' k = Some l'" "lane_moves l l'" by auto
    then have "ln_turn_id l' = tid" "ln_agent l' = agent" "ln_origin l' = OriginOperator"
      using that by (simp_all add: lane_moves_def lane_identity_def)
    with l' terminal_kept [OF l'(2) that(5)] show ?thesis by blast
  qed
  have old: "\<forall>agent \<in> set (tn_agents t). \<exists>k l. lanes r' k = Some l \<and> ln_turn_id l = tid
      \<and> ln_agent l = agent \<and> ln_origin l = OriginOperator \<and> terminal (ln_phase l)"
    if "turn r tid = Some t" "tn_completed_at t \<noteq> None" for tid t
  proof
    fix agent assume "agent \<in> set (tn_agents t)"
    with ok(1) that obtain k l where "lanes r k = Some l" "ln_turn_id l = tid" "ln_agent l = agent"
      "ln_origin l = OriginOperator" "terminal (ln_phase l)"
      unfolding completed_ok_def by blast
    then show "\<exists>k l. lanes r' k = Some l \<and> ln_turn_id l = tid
      \<and> ln_agent l = agent \<and> ln_origin l = OriginOperator \<and> terminal (ln_phase l)" by (rule kept)
  qed
  from step ok(2) show ?thesis
  proof (cases rule: room_step_turns)
    case same
    with old show ?thesis by (simp add: completed_ok_def)
  next
    case (accepted t)
    with old show ?thesis by (auto simp: completed_ok_def)
  next
    case (routed t)
    with old show ?thesis by (auto simp: completed_ok_def)
  next
    case (completed t route)
    have "rt_agents route = tn_agents t"
      using ok(4) completed(1,2) by (auto simp: turns_ok_def turn_wf_def)
    moreover have "\<exists>k l. lanes r k = Some l \<and> ln_turn_id l = ev_turn_id e \<and> ln_agent l = agent
        \<and> ln_origin l = OriginOperator \<and> terminal (ln_phase l)" if "agent \<in> set (rt_agents route)" for agent
    proof -
      let ?p = "\<lambda>l. ln_origin l = OriginOperator \<and> ln_agent l = agent"
      from completed(6) that have "filter ?p (turn_lanes r (ev_turn_id e)) \<noteq> []" by fastforce
      then obtain l where "l \<in> set (turn_lanes r (ev_turn_id e))" "?p l"
        by (auto simp: filter_empty_conv)
      moreover from this have "terminal (ln_phase l)" using completed(5) by (simp add: list_all_iff)
      ultimately show ?thesis using turn_lanes_set [OF ok(2,3), of l] by blast
    qed
    ultimately show ?thesis
      using completed(4,7) old by (auto simp: completed_ok_def split: if_splits)
  qed
qed

text \<open>A hop hangs off the committed message of a lane of its turn, one level deeper.\<close>

definition hop_wf :: "reducer \<Rightarrow> hop_state \<Rightarrow> bool" where
  "hop_wf r h \<longleftrightarrow>
     (\<exists>k l. message_lanes r (hp_parent_message_id h) = Some k \<and> lanes r k = Some l
        \<and> ln_turn_id l = hp_turn_id h \<and> ln_agent l = hp_from_agent h
        \<and> unat (hp_hop_index h) = Suc (unat (ln_hop_index l)))
     \<and> hp_hop_index h \<le> max_safe_integer \<and> 0 < hp_hop_budget h
     \<and> (hp_disposition h = Dispatched \<longleftrightarrow> hp_hop_index h \<le> hp_hop_budget h)"

definition hops_ok :: "reducer \<Rightarrow> bool" where
  "hops_ok r \<longleftrightarrow> (\<forall>k h. hop r k = Some h \<longrightarrow> hop_wf r h)"

lemma message_kept:
  assumes step: "room_step e r r'" and ok: "messages_ok r" "lanes_ok r"
    and m: "message_lanes r mid = Some k" "lanes r k = Some l"
  shows "\<exists>l'. message_lanes r' mid = Some k \<and> lanes r' k = Some l' \<and> lane_moves l l'"
proof -
  from room_step_lane_kept [OF step m(2)] obtain l' where l': "lanes r' k = Some l'" "lane_moves l l'"
    by auto
  have "message_lanes r' mid = Some k"
    using step
  proof cases
    case (committed lane_id l r1 c entry r2)
    have "message_lanes r1 = message_lanes r"
      using committed(6) by (auto simp: store_stream_def split: option.splits)
    moreover have "mid \<noteq> mc_message_id c"
      using ok(1) m(1) committed(5,7) by (auto simp: messages_ok_def)
    ultimately show ?thesis using m(1) committed(1,12) by (simp add: writes)
  qed (use m in \<open>simp_all add: writes\<close>)
  with l' show ?thesis by auto
qed

lemma hop_index_exact:
  assumes "i = j + 1" "0 < i" "i \<le> max_safe_integer" shows "unat i = Suc (unat (j :: u64))"
proof -
  have "1 + j \<noteq> 0" using assms(1,2) by (simp add: word_gt_0 add.commute)
  from unatSuc [OF this] assms(1) show ?thesis by (simp add: add.commute)
qed

lemma hops_ok_step:
  assumes ok: "hops_ok r" "tables_ok r" "messages_ok r" "lanes_ok r" and step: "room_step e r r'"
  shows "hops_ok r'"
proof -
  have kept: "hop_wf r' h" if wf: "hop_wf r h" for h
  proof -
    from wf obtain k l where l: "message_lanes r (hp_parent_message_id h) = Some k" "lanes r k = Some l"
      "ln_turn_id l = hp_turn_id h" "ln_agent l = hp_from_agent h"
      "unat (hp_hop_index h) = Suc (unat (ln_hop_index l))"
      by (auto simp: hop_wf_def)
    from message_kept [OF step ok(3,4) l(1,2)] obtain l' where
      "message_lanes r' (hp_parent_message_id h) = Some k" "lanes r' k = Some l'" "lane_moves l l'" by auto
    with l wf show ?thesis by (auto simp: hop_wf_def lane_moves_def lane_identity_def)
  qed
  from step ok(2) show ?thesis
  proof (cases rule: room_step_hops)
    case same
    with ok(1) kept show ?thesis by (simp add: hops_ok_def)
  next
    case (hopped h k l)
    have "hop_wf r h"
      using hopped hop_index_exact [of "hp_hop_index h" "ln_hop_index l"] by (auto simp: hop_wf_def)
    with kept ok(1) hopped(2) show ?thesis by (auto simp: hops_ok_def)
  qed
qed

text \<open>A permission is pending or answered; an answer names an offered option.\<close>

definition permission_wf :: "permission_state \<Rightarrow> bool" where
  "permission_wf p \<longleftrightarrow>
     distinct (map po_option_id (pm_options p))
     \<and> (pm_outcome p = None \<longleftrightarrow> pm_resolved_event_seq p = None)
     \<and> (\<forall>c. pm_option_id p = Some c \<longrightarrow> pm_outcome p \<noteq> None \<and> c \<in> po_option_id ` set (pm_options p))"

definition permissions_ok :: "reducer \<Rightarrow> bool" where
  "permissions_ok r \<longleftrightarrow> (\<forall>k p. permission r k = Some p \<longrightarrow> permission_wf p)"

lemma permissions_ok_step:
  assumes ok: "permissions_ok r" "tables_ok r" and step: "room_step e r r'"
  shows "permissions_ok r'"
  using step ok(2)
proof (cases rule: room_step_permissions)
  case (answered k p choice outcome)
  with ok(1) have "permission_wf p" by (simp add: permissions_ok_def)
  with answered ok(1) show ?thesis by (auto simp: permissions_ok_def permission_wf_def)
next
  case (asked p)
  with ok(1) show ?thesis by (auto simp: permissions_ok_def permission_wf_def)
qed (use ok(1) in \<open>simp add: permissions_ok_def\<close>)

subsection \<open>The status board\<close>

definition status_wf :: "agent_status_state \<Rightarrow> bool" where
  "status_wf st \<longleftrightarrow>
     (case as_usage st of Some u \<Rightarrow> us_exhausted u \<longrightarrow> as_auth st \<noteq> Some AuthReady | None \<Rightarrow> True)"

definition board_ok :: "reducer \<Rightarrow> bool" where
  "board_ok r \<longleftrightarrow>
     sorted_wrt (<) (map fst (agent_statuses r)) \<and> sorted_wrt (<) (map fst (agent_modes r))
     \<and> (\<forall>a st. agent_status r a = Some st \<longrightarrow> as_agent st = a \<and> is_agent a \<and> status_wf st)
     \<and> (\<forall>a m. agent_mode r a = Some m \<longrightarrow> am_agent m = a \<and> is_agent a)"

lemma board_ok_step:
  assumes ok: "board_ok r" and step: "room_step e r r'" shows "board_ok r'"
  using step
proof cases
  case (status st agent)
  with ok show ?thesis
    by (auto simp: board_ok_def agent_status_def agent_mode_def status_wf_def sorted_btree_insert)
next
  case (mode m agent)
  with ok show ?thesis
    by (auto simp: board_ok_def agent_status_def agent_mode_def sorted_btree_insert)
next
  case (committed lane_id l r1 c entry r2)
  then have "agent_statuses r1 = agent_statuses r" "agent_modes r1 = agent_modes r"
    by (auto simp: store_stream_def split: option.splits)
  with ok committed show ?thesis
    by (simp add: board_ok_def agent_status_def agent_mode_def writes)
qed (use ok in \<open>simp_all add: board_ok_def agent_status_def agent_mode_def writes\<close>)

subsection \<open>Every reachable room is well formed\<close>

definition room_wf :: "reducer \<Rightarrow> bool" where
  "room_wf r \<longleftrightarrow>
     tables_ok r \<and> lanes_ok r \<and> roster_ok r \<and> seats_ok r \<and> streams_ok r \<and> transcript_ok r
     \<and> messages_ok r \<and> turns_ok r \<and> sources_ok r \<and> roots_unique r \<and> completed_ok r \<and> hops_ok r
     \<and> permissions_ok r \<and> board_ok r \<and> log_ok r \<and> transcript_sorted r"

lemma room_wfD:
  assumes "room_wf r"
  shows "tables_ok r" "lanes_ok r" "roster_ok r" "seats_ok r" "streams_ok r" "transcript_ok r"
    "messages_ok r" "turns_ok r" "sources_ok r" "roots_unique r" "completed_ok r" "hops_ok r"
    "permissions_ok r" "board_ok r" "log_ok r" "transcript_sorted r"
  using assms by (simp_all add: room_wf_def)

lemmas room_wf_parts = tables_ok_def lanes_ok_def roster_ok_def seats_ok_def streams_ok_def
  transcript_ok_def messages_ok_def turns_ok_def sources_ok_def roots_unique_def completed_ok_def
  hops_ok_def permissions_ok_def board_ok_def log_ok_def transcript_sorted_def

text \<open>Apart from the log, well-formedness does not look at the session, the log or the counter.\<close>

lemma frame_indep:
  assumes "r' = r\<lparr>session_id := s, last_event_seq := n, events_by_id := m\<rparr>"
  shows "tables_ok r' = tables_ok r" "lanes_ok r' = lanes_ok r" "roster_ok r' = roster_ok r"
    "seats_ok r' = seats_ok r" "streams_ok r' = streams_ok r" "transcript_ok r' = transcript_ok r"
    "messages_ok r' = messages_ok r" "turns_ok r' = turns_ok r" "sources_ok r' = sources_ok r"
    "roots_unique r' = roots_unique r" "completed_ok r' = completed_ok r" "hops_ok r' = hops_ok r"
    "permissions_ok r' = permissions_ok r" "board_ok r' = board_ok r"
proof -
  have acc: "turn r' = turn r" "hop r' = hop r" "permission r' = permission r"
    using assms by (simp_all add: turn_ext hop_ext permission_ext)
  show "tables_ok r' = tables_ok r" "lanes_ok r' = lanes_ok r" "roster_ok r' = roster_ok r"
    "streams_ok r' = streams_ok r" "transcript_ok r' = transcript_ok r"
    "messages_ok r' = messages_ok r" "roots_unique r' = roots_unique r"
    using assms
    by (simp_all add: tables_ok_def lanes_ok_def roster_ok_def streams_ok_def stream_backed_def
        transcript_ok_def messages_ok_def roots_unique_def)
  show "seats_ok r' = seats_ok r"
  proof -
    have "of_turn r' = of_turn r" using assms by (simp add: of_turn_def fun_eq_iff)
    then show ?thesis using assms by (simp add: seats_ok_def seated_def)
  qed
  show "turns_ok r' = turns_ok r" "completed_ok r' = completed_ok r" "permissions_ok r' = permissions_ok r"
    "hops_ok r' = hops_ok r" "sources_ok r' = sources_ok r"
    using assms acc
    by (simp_all add: turns_ok_def completed_ok_def permissions_ok_def hops_ok_def hop_wf_def
        sources_ok_def lane_sourced_def hop_lane_def)
  show "board_ok r' = board_ok r"
    using assms by (simp add: board_ok_def agent_status_def agent_mode_def)
qed

lemma room_wf_new: "room_wf new_reducer"
  by (simp add: room_wf_def room_wf_parts well_ordered_def indexed_def seated_def new_reducer_def
      turn_def hop_def permission_def index_find_def agent_status_def agent_mode_def
      bij_betw_def del: dec_value.simps)

lemma room_wf_bind:
  assumes "room_wf r" "session_id r = None" shows "room_wf (r\<lparr>session_id := Some sid\<rparr>)"
proof -
  let ?r = "r\<lparr>session_id := Some sid\<rparr>"
  have "?r = r\<lparr>session_id := Some sid, last_event_seq := last_event_seq r, events_by_id := events_by_id r\<rparr>"
    by simp
  note frame = frame_indep [OF this]
  have "log_ok ?r" using assms by (auto simp: room_wf_def log_ok_def)
  moreover have "transcript_sorted ?r" using assms by (auto simp: room_wf_def transcript_sorted_def)
  ultimately show ?thesis using assms(1) by (simp add: room_wf_def frame)
qed

lemma room_wf_step:
  assumes wf: "room_wf r" and step: "room_step e r r1"
    and e: "session_id r = None \<or> session_id r = Some (ev_session_id e)"
      "events_by_id r (ev_event_id e) = None" "ev_event_seq e = increment_decimal (last_event_seq r)"
  shows "room_wf (note_applied e r1)"
proof -
  note w = room_wfD [OF wf]
  have "note_applied e r1 = r1\<lparr>session_id := session_id (note_applied e r1),
      last_event_seq := last_event_seq (note_applied e r1),
      events_by_id := events_by_id (note_applied e r1)\<rparr>"
    by (simp add: note_applied_def)
  note frame = frame_indep [OF this]
  have "log_ok (note_applied e r1)" by (rule log_ok_applied [OF w(15) step e])
  moreover have "transcript_sorted (note_applied e r1)"
    using w(15) by (intro transcript_sorted_applied [OF w(16) step _ e(3)]) (simp add: log_ok_def)
  moreover note tables_ok_step [OF w(1) step] lanes_ok_step [OF w(2) step]
    roster_ok_step [OF w(3,1) step] seats_ok_step [OF w(4,1) step] streams_ok_step [OF w(5,2) step]
    transcript_ok_step [OF w(6) step] messages_ok_step [OF w(7,2) step]
    turns_ok_step [OF w(8,1) step] sources_ok_step [OF w(9,1,8) step]
    roots_unique_step [OF w(10,1,4) step] completed_ok_step [OF w(11,1,4,8) step]
    hops_ok_step [OF w(12,1,7,2) step] permissions_ok_step [OF w(13,1) step] board_ok_step [OF w(14) step]
  ultimately show ?thesis by (simp add: room_wf_def frame)
qed

lemma reachable_room_wf: "reachable rfc3339 r \<Longrightarrow> room_wf r"
  by (induction rule: reachable_invariant) (auto intro: room_wf_new room_wf_bind room_wf_step)

end
