(* ===== verification/Room_Safety.thy ===== *)
theory Room_Safety
  imports Room_Turns
begin

section \<open>No panic\<close>

text \<open>
  The handlers contain nine \<open>expect\<close> calls that rely on an earlier guard or on an index being
  sound. None can fail in a well-formed room, so \<open>apply\<close> never panics in a reachable one.
\<close>

definition calm :: "('s, 'e, 'a) outcome \<Rightarrow> bool" where
  "calm p \<longleftrightarrow> \<not> is_panic (fst p)"

lemma calm_Ok: "calm (Ok a, s)" and calm_Err: "calm (Err e, s)"
  by (simp_all add: calm_def)

lemma calm_tryS: "\<not> is_panic m \<Longrightarrow> (\<And>a. m = Ok a \<Longrightarrow> calm (k a)) \<Longrightarrow> calm (tryS m s k)"
  by (cases m) (auto simp: calm_def)

lemma calm_if: "(b \<Longrightarrow> calm p) \<Longrightarrow> (\<not> b \<Longrightarrow> calm q) \<Longrightarrow> calm (if b then p else q)"
  by simp

lemma calm_bindS: "calm p \<Longrightarrow> (\<And>a t. p = (Ok a, t) \<Longrightarrow> calm (k a t)) \<Longrightarrow> calm (bindS p k)"
  by (cases p; cases "fst p") (auto simp: calm_def)

lemmas calm_rules = calm_Ok calm_Err calm_tryS calm_if calm_bindS

lemma is_panic_if: "is_panic (if b then x else y) \<longleftrightarrow> (if b then is_panic x else is_panic y)"
  by simp

lemma reader_calm [simp]:
  "\<not> is_panic (payload_of e)" "\<not> is_panic (required_string p f k)" "\<not> is_panic (required_agent p k)"
  "\<not> is_panic (required_agent_field p f k)" "\<not> is_panic (required_text p f k)"
  "\<not> is_panic (required_decimal p f k)" "\<not> is_panic (required_u64 p f k)"
  "\<not> is_panic (optional_string p f k)" "\<not> is_panic (require_allowed_fields p k names)"
  "\<not> is_panic (require_exact_fields p k names)" "\<not> is_panic (read_lane_origin p k)"
  "\<not> is_panic (activity_update p k)" "\<not> is_panic (read_permission_outcome p k)"
  "\<not> is_panic (optional_percent p f k)" "\<not> is_panic (optional_safe_u64 p f k)"
  by (auto simp: payload_of_def required_string_def required_agent_def required_agent_field_def
      required_text_def required_decimal_def required_u64_def optional_string_def
      require_allowed_fields_def require_exact_fields_def read_lane_origin_def activity_update_def
      read_permission_outcome_def optional_percent_def optional_safe_u64_def split: option.splits)

lemma unique_agents_calm [simp]: "\<not> is_panic (unique_agents p f k)"
proof -
  have "\<not> is_panic (unique_agents_loop k seen vs)" for seen vs
    by (induction k seen vs rule: unique_agents_loop.induct) auto
  then show ?thesis by (simp add: unique_agents_def)
qed

lemma queue_provenance_calm [simp]: "\<not> is_panic (queue_provenance p k)"
  by (auto simp: queue_provenance_def simp del: for_each.simps intro!: is_panic_for_each
      split: lane_origin.splits if_splits)

lemma optional_agent_auth_calm [simp]: "\<not> is_panic (optional_agent_auth p k)"
  by (auto simp: optional_agent_auth_def split: option.splits json.splits)

lemma optional_agent_usage_calm [simp]: "\<not> is_panic (optional_agent_usage p k)"
  by (auto simp: optional_agent_usage_def split: option.splits)

lemma optional_agent_availability_calm [simp]: "\<not> is_panic (optional_agent_availability p k)"
  by (auto simp: optional_agent_availability_def split: option.splits)

lemma read_permission_option_calm [simp]: "\<not> is_panic (read_permission_option k v)"
  by (auto simp: read_permission_option_def)

lemma permission_options_calm [simp]: "\<not> is_panic (permission_options p k)"
  by (auto simp: permission_options_def intro!: is_panic_collect split: option.splits)

lemma read_available_mode_ids_calm [simp]: "\<not> is_panic (read_available_mode_ids p)"
  by (auto simp: read_available_mode_ids_def split: option.splits json.splits)
    (metis is_panic_collect is_panic_ok_or)+

lemma lookup_calm [simp]:
  "\<not> is_panic (match_lane r e p k)" "\<not> is_panic (match_permission_lane r e a)"
  "\<not> is_panic (validate_terminal_identity r e)" "\<not> is_panic (ensure_session r sid)"
  by (auto simp: match_lane_def match_permission_lane_def validate_terminal_identity_def
      ensure_session_def Let_def split: option.splits)

lemma queue_admission_calm:
  assumes "queue_provenance p k = Ok v" shows "\<not> is_panic (queue_admission e r t route agent v)"
  using queue_provenance_Ok [OF assms] by (auto simp: queue_admission_def)

lemma handlers_calm:
  "calm (accept_turn e r)" "calm (resolve_route e r)" "calm (pause_room r)" "calm (resume_room r)"
  "calm (start_lane e r)" "calm (record_activity e r)" "calm (begin_cancellation e r)"
  "calm (complete_lane e r)" "calm (fail_lane e r)" "calm (cancel_lane e r)"
  "calm (request_permission e r)" "calm (record_agent_mode e r)" "calm (resolve_permission e r)"
  "calm (complete_turn e r)" "calm (record_backend_failure e r)" "calm (record_room_notice e r)"
  unfolding accept_turn_def resolve_route_def pause_room_def resume_room_def
    start_lane_def record_activity_def begin_cancellation_def complete_lane_def
    fail_lane_def cancel_lane_def request_permission_def record_agent_mode_def
    resolve_permission_def complete_turn_def record_backend_failure_def
    record_room_notice_def Let_def
  by (intro calm_rules; auto simp: match_lane_Ok split: option.splits elim: validate_terminal_identity_Ok)+

lemma append_chunk_calm: "calm (append_chunk e r)"
  unfolding append_chunk_def Let_def
  by (intro calm_rules) (auto split: option.splits)

lemma queue_lane_calm: "calm (queue_lane e r)"
  unfolding queue_lane_def by (intro calm_rules) (auto simp: queue_admission_calm)

lemma record_agent_status_calm: "calm (record_agent_status e r)"
  unfolding record_agent_status_def Let_def
  by (intro calm_rules) (auto simp: calm_def split: prod.splits)

lemma commit_message_calm: "calm (commit_message e r)"
  unfolding commit_message_def Let_def
  by (intro calm_rules) (auto simp: match_lane_Ok store_stream_def split: option.splits)

lemma record_hop_calm: "messages_ok r \<Longrightarrow> calm (record_hop e disposition r)"
  unfolding record_hop_def
  by (intro calm_rules) (auto simp: messages_ok_def)

lemma apply_event_calm:
  assumes "room_wf r" shows "calm (apply_event rfc3339 e r)"
proof -
  have "calm (apply_transition e r)"
    unfolding apply_transition_def Let_def using room_wfD(7) [OF assms]
    by (intro calm_if handlers_calm append_chunk_calm queue_lane_calm record_agent_status_calm
        commit_message_calm record_hop_calm calm_Ok)
  then show ?thesis
    unfolding apply_event_def Let_def
    by (intro calm_tryS) (simp_all add: validate_no_panic calm_rules split: option.splits)
qed

lemma lane_for_message_sound:
  assumes "room_wf r"
  shows "lane_for_message r mid = Ok (Option.bind (message_lanes r mid) (lanes r))"
proof (cases "message_lanes r mid")
  case (Some k)
  with room_wfD(7) [OF assms] obtain l where "lanes r k = Some l" by (auto simp: messages_ok_def)
  with Some show ?thesis by (simp add: lane_for_message_def)
qed (simp add: lane_for_message_def)

end
