(* ===== verification/Room_Runs.thy ===== *)
theory Room_Runs
  imports Room_Safety
begin

section \<open>Runs of the reducer\<close>

text \<open>
  \<open>apply_all\<close> feeds a list of events to \<open>apply\<close>, as the transport does; \<open>fresh\<close> is the list
  without the repetitions \<open>apply\<close> ignores. The lemmas relate the room after a run to the events
  of the run: the sequence numbers, the history of lanes, turns and permissions, and the text of
  a stream.
\<close>

fun apply_all :: "(string \<Rightarrow> bool) \<Rightarrow> room_event list \<Rightarrow> reducer \<Rightarrow> reducer option" where
  "apply_all rfc3339 [] r = Some r"
| "apply_all rfc3339 (e # es) r =
     (case apply_event rfc3339 e r of
        (Ok d, r') \<Rightarrow> apply_all rfc3339 es r'
      | (_, _) \<Rightarrow> None)"

definition fresh :: "room_event list \<Rightarrow> room_event list" where
  "fresh es = rev (remdups (rev es))"

lemma fresh_snoc [simp]: "fresh (es @ [e]) = (if e \<in> set es then fresh es else fresh es @ [e])"
  by (simp add: fresh_def)

lemma fresh_Nil [simp]: "fresh [] = []"
  by (simp add: fresh_def)

lemma set_fresh [simp]: "set (fresh es) = set es"
  by (simp add: fresh_def)

lemma apply_all_append:
  "apply_all f (es @ fs) r = Option.bind (apply_all f es r) (apply_all f fs)"
  by (induction f es r rule: apply_all.induct) (auto split: prod.splits result.splits)

lemma apply_all_snoc:
  "apply_all f (es @ [e]) r = Some r' \<longleftrightarrow>
     (\<exists>r1 d. apply_all f es r = Some r1 \<and> apply_event f e r1 = (Ok d, r'))"
proof -
  have "apply_all f [e] r1 = Some r' \<longleftrightarrow> (\<exists>d. apply_event f e r1 = (Ok d, r'))" for r1
    by (cases "apply_event f e r1"; cases "fst (apply_event f e r1)") auto
  then show ?thesis by (auto simp: apply_all_append bind_eq_Some_conv simp del: apply_all.simps)
qed

lemma apply_all_Cons:
  "apply_all f (e # es) r = Some r' \<longleftrightarrow>
     (\<exists>r1 d. apply_event f e r = (Ok d, r1) \<and> apply_all f es r1 = Some r')"
  by (auto split: prod.splits result.splits)

lemma apply_all_reachable:
  "reachable f r \<Longrightarrow> apply_all f es r = Some r' \<Longrightarrow> reachable f r'"
  by (induction f es r rule: apply_all.induct)
    (auto split: prod.splits result.splits intro: reachable.applied)

lemma run_reachable: "apply_all f es new_reducer = Some r \<Longrightarrow> reachable f r"
  by (rule apply_all_reachable [OF reachable.created])

lemma apply_event_reachable_cases:
  assumes "reachable f r" "apply_event f e r = (Ok d, r')"
  obtains (repeated) "events_by_id r (ev_event_id e) = Some e" "r' = r"
    | (applied) r1 where "events_by_id r (ev_event_id e) = None" "room_wf r" "room_step e r r1"
        "r' = note_applied e r1" "ev_event_seq e = increment_decimal (last_event_seq r)"
        "apply_transition e r = (Ok d, r1)"
  using apply_event_Ok_cases [OF assms(2)] reachable_room_wf [OF assms(1)] by metis

text \<open>A relation that every step keeps is kept by a run.\<close>

lemma apply_all_relation:
  assumes "reachable f r" "apply_all f es r = Some r'"
    and refl: "\<And>r. R r r" and trans: "\<And>r s t. R r s \<Longrightarrow> R s t \<Longrightarrow> R r t"
    and step: "\<And>r e r1. room_wf r \<Longrightarrow> room_step e r r1 \<Longrightarrow> events_by_id r (ev_event_id e) = None \<Longrightarrow>
      R r (note_applied e r1)"
  shows "R r r'"
  using assms(1,2)
proof (induction es arbitrary: r)
  case (Cons e es)
  then obtain r1 d where e: "apply_event f e r = (Ok d, r1)" and es: "apply_all f es r1 = Some r'"
    unfolding apply_all_Cons by blast
  have "R r r1"
    using Cons.prems(1) e by (cases rule: apply_event_reachable_cases) (auto intro: refl step)
  moreover have "R r1 r'"
    using Cons.IH [OF reachable.applied [OF Cons.prems(1) e] es] .
  ultimately show ?case by (rule trans)
qed (simp add: refl)

subsection \<open>The history of a permission\<close>

definition permissions_kept :: "reducer \<Rightarrow> reducer \<Rightarrow> bool" where
  "permissions_kept r r' \<longleftrightarrow>
     (\<forall>k p. permission r k = Some p \<longrightarrow>
        (\<exists>p'. permission r' k = Some p' \<and> pm_options p' = pm_options p \<and> pm_agent p' = pm_agent p
          \<and> pm_turn_id p' = pm_turn_id p \<and> (pm_outcome p \<noteq> None \<longrightarrow> p' = p)))"

lemma permissions_kept_run:
  assumes "reachable f r" "apply_all f es r = Some r'"
  shows "permissions_kept r r'"
proof (rule apply_all_relation [OF assms])
  fix r e r1 assume wf: "room_wf r" and step: "room_step e r r1"
  from step room_wfD(1) [OF wf] have "permissions_kept r r1"
    by (cases rule: room_step_permissions) (auto simp: permissions_kept_def)
  then show "permissions_kept r (note_applied e r1)" by (simp add: permissions_kept_def)
next
  fix r s t assume rs: "permissions_kept r s" and st: "permissions_kept s t"
  show "permissions_kept r t"
    unfolding permissions_kept_def
  proof (intro allI impI)
    fix k p assume "permission r k = Some p"
    with rs obtain q where q: "permission s k = Some q" "pm_options q = pm_options p" "pm_agent q = pm_agent p"
      "pm_turn_id q = pm_turn_id p" "pm_outcome p \<noteq> None \<longrightarrow> q = p"
      unfolding permissions_kept_def by blast
    with st obtain u where "permission t k = Some u" "pm_options u = pm_options q" "pm_agent u = pm_agent q"
      "pm_turn_id u = pm_turn_id q" "pm_outcome q \<noteq> None \<longrightarrow> u = q"
      unfolding permissions_kept_def by blast
    with q show "\<exists>p'. permission t k = Some p' \<and> pm_options p' = pm_options p \<and> pm_agent p' = pm_agent p
        \<and> pm_turn_id p' = pm_turn_id p \<and> (pm_outcome p \<noteq> None \<longrightarrow> p' = p)" by auto
  qed
qed (simp add: permissions_kept_def)

subsection \<open>The log of a run\<close>

lemma log_kept:
  assumes "reachable f r" "apply_all f es r = Some r'" "events_by_id r i = Some e"
  shows "events_by_id r' i = Some e"
proof -
  have "\<forall>i e. events_by_id r i = Some e \<longrightarrow> events_by_id r' i = Some e"
    by (rule apply_all_relation [OF assms(1,2)]) (auto simp: room_step_log(2))
  with assms(3) show ?thesis by blast
qed

lemma apply_event_logged:
  "apply_event f e r = (Ok d, r') \<Longrightarrow> events_by_id r' (ev_event_id e) = Some e"
  by (erule apply_event_Ok_cases) auto

lemma run_logged:
  assumes "reachable f r" "apply_all f es r = Some r'" "e \<in> set es"
  shows "events_by_id r' (ev_event_id e) = Some e \<and> validate f e = Ok ()"
  using assms
proof (induction es arbitrary: r)
  case (Cons a es)
  then obtain r1 d where a: "apply_event f a r = (Ok d, r1)" and es: "apply_all f es r1 = Some r'"
    unfolding apply_all_Cons by blast
  note r1 = reachable.applied [OF Cons.prems(1) a]
  show ?case
  proof (cases "e \<in> set es")
    case True
    with Cons.IH [OF r1 es] show ?thesis by simp
  next
    case False
    with Cons.prems(3) have "e = a" by simp
    with log_kept [OF r1 es apply_event_logged [OF a]] apply_event_validated [OF a] show ?thesis by simp
  qed
qed simp

lemma run_log:
  "apply_all f es new_reducer = Some r \<Longrightarrow>
   events_by_id r i = Some e \<longleftrightarrow> e \<in> set es \<and> ev_event_id e = i"
proof (induction es arbitrary: r i e rule: rev_induct)
  case Nil
  then show ?case by (auto simp: new_reducer_def)
next
  case (snoc a es)
  then obtain r1 d where es: "apply_all f es new_reducer = Some r1" and a: "apply_event f a r1 = (Ok d, r)"
    unfolding apply_all_snoc by blast
  note IH = snoc.IH [OF es]
  show ?case
    using run_reachable [OF es] a
  proof (cases rule: apply_event_reachable_cases)
    case repeated
    with IH have "a \<in> set es" by simp
    with repeated IH show ?thesis by auto
  next
    case (applied r2)
    have "events_by_id r = (events_by_id r1)(ev_event_id a \<mapsto> a)"
      using applied(3,4) by (simp add: room_step_log(2))
    moreover have "ev_event_id b \<noteq> ev_event_id a" if "b \<in> set es" for b
      using run_logged [OF reachable.created es that] applied(1) by auto
    ultimately show ?thesis using IH by auto
  qed
qed

lemma run_snoc_cases:
  assumes "apply_all f (es @ [e]) new_reducer = Some r"
  obtains (repeated) "apply_all f es new_reducer = Some r" "e \<in> set es"
    | (applied) r1 r2 d where "apply_all f es new_reducer = Some r1" "e \<notin> set es" "room_wf r1"
        "room_step e r1 r2" "r = note_applied e r2"
        "ev_event_seq e = increment_decimal (last_event_seq r1)" "apply_transition e r1 = (Ok d, r2)"
proof -
  from assms obtain r1 d where es: "apply_all f es new_reducer = Some r1"
    and e: "apply_event f e r1 = (Ok d, r)"
    unfolding apply_all_snoc by blast
  show thesis
    using run_reachable [OF es] e
  proof (cases rule: apply_event_reachable_cases)
    case repeated
    with es run_log [OF es] that(1) show thesis by simp
  next
    case (applied r2)
    have "e \<notin> set es" using applied(1) run_log [OF es, of "ev_event_id e" e] by auto
    with es applied that(2) show thesis by blast
  qed
qed

lemma run_sequence:
  "apply_all f es new_reducer = Some r \<Longrightarrow>
   consecutive increment_decimal ''0'' (map ev_event_seq (fresh es))
   \<and> last_event_seq r = last (''0'' # map ev_event_seq (fresh es))"
proof (induction es arbitrary: r rule: rev_induct)
  case Nil
  then show ?case by (auto simp: new_reducer_def)
next
  case (snoc e es)
  from snoc.prems show ?case
  proof (cases rule: run_snoc_cases)
    case repeated
    with snoc.IH show ?thesis by simp
  next
    case (applied r1 r2 d)
    with snoc.IH [OF applied(1)] show ?thesis by (simp add: consecutive_append)
  qed
qed

subsection \<open>The text of a stream\<close>

text \<open>\<open>chunks sid es\<close>: the texts of the \<open>lane.chunk\<close> events for stream \<open>sid\<close>, in order, each once.\<close>

definition chunk_text :: "string \<Rightarrow> room_event \<Rightarrow> string option" where
  "chunk_text sid e =
     (if ev_kind e = ''lane.chunk''
      then Option.bind (as_object (ev_payload e)) (\<lambda>p.
             if get_str p ''streamId'' = Some sid then get_str p ''text'' else None)
      else None)"

definition chunks :: "string \<Rightarrow> room_event list \<Rightarrow> string list" where
  "chunks sid es = List.map_filter (chunk_text sid) (fresh es)"

lemma chunks_snoc:
  "chunks sid (es @ [e]) = chunks sid es
     @ (if e \<in> set es then [] else case chunk_text sid e of None \<Rightarrow> [] | Some t \<Rightarrow> [t])"
  by (auto simp: chunks_def List.map_filter_def split: option.splits)

text \<open>A stream is open while its lane has committed no message.\<close>

definition stream_open :: "reducer \<Rightarrow> room_stream \<Rightarrow> bool" where
  "stream_open r s \<longleftrightarrow> (\<forall>l. lanes r (st_lane_id s) = Some l \<longrightarrow> ln_message_commit l = None)"

definition stream_history :: "room_event list \<Rightarrow> reducer \<Rightarrow> bool" where
  "stream_history es r \<longleftrightarrow>
     (\<forall>sid. case streams r sid of
        None \<Rightarrow> chunks sid es = []
      | Some s \<Rightarrow> unat (st_next_chunk_index s) = length (chunks sid es)
                  \<and> (stream_open r s \<longrightarrow> st_text s = concat (chunks sid es)))"

lemma commit_kept:
  assumes "room_step e r r'" "lanes_ok r" "lanes r k = Some l" "lanes r' k = Some l'"
    and "ln_message_commit l' = None"
  shows "ln_message_commit l = None"
proof -
  from room_step_lane_kept [OF assms(1,3)] assms(4) have "lane_moves l l'" by simp
  moreover have "lane_wf l" "lane_wf l'"
    using assms lanes_ok_step [OF assms(2,1)] by (auto simp: lanes_ok_def)
  ultimately show ?thesis
    using assms(5) by (cases "ln_phase l") (auto simp: lane_wf_def lane_moves_def)
qed

lemma stream_open_back:
  assumes "room_step e r r'" "lanes_ok r" "stream_open r' s" shows "stream_open r s"
  unfolding stream_open_def
proof (intro allI impI)
  fix l assume l: "lanes r (st_lane_id s) = Some l"
  from room_step_lane_kept [OF assms(1) l] obtain l' where "lanes r' (st_lane_id s) = Some l'" by auto
  with commit_kept [OF assms(1,2) l] assms(3) show "ln_message_commit l = None"
    by (simp add: stream_open_def)
qed

text \<open>What any step but a chunk does to a stream: nothing, its creation, or the committed text.\<close>

lemma room_step_stream:
  assumes "room_step e r r'" "ev_kind e \<noteq> ''lane.chunk''" "streams_ok r"
  shows "streams r' sid = streams r sid
    \<or> streams r sid = None \<and> (\<exists>s. streams r' sid = Some s \<and> st_text s = [] \<and> st_next_chunk_index s = 0)
    \<or> (\<exists>s s'. streams r sid = Some s \<and> streams r' sid = Some s'
        \<and> st_next_chunk_index s' = st_next_chunk_index s \<and> \<not> stream_open r' s')"
  using assms(1)
proof cases
  case (started lane_id l s)
  then show ?thesis by (cases "sid = st_id s") (simp_all add: writes)
next
  case (committed lane_id l r1 c entry r2)
  show ?thesis
  proof (cases "ln_stream_id l = Some sid")
    case True
    with committed(6) obtain s where s: "streams r sid = Some s"
      "r1 = store_stream sid (s\<lparr>st_text := mc_text c\<rparr>) r" by auto
    with streams_okD(3) [OF assms(3) committed(2) True] have "st_lane_id s = lane_id" by auto
    with s committed(1,12) show ?thesis by (auto simp: writes stream_open_def)
  next
    case False
    with committed(1,6,12) show ?thesis by (auto simp: writes split: option.splits)
  qed
qed (use assms(2) in \<open>simp_all add: writes\<close>)

lemma append_chunk_effect:
  assumes "append_chunk e r = (Ok d, r')" "ev_kind e = ''lane.chunk''"
  obtains sid s s' body where "streams r sid = Some s" "streams r' = (streams r)(sid \<mapsto> s')"
    "st_text s' = st_text s @ body" "st_next_chunk_index s' = st_next_chunk_index s + 1"
    "st_lane_id s' = st_lane_id s" "lanes r' = lanes r"
    "\<And>t. chunk_text t e = (if t = sid then Some body else None)"
  using assms(1) unfolding append_chunk_def Let_def
proof (elim handler_OkE, goal_cases)
  case (1 p lane_id stream_id body stream_seq model chunk_index l s observed)
  then have "chunk_text t e = (if t = stream_id then Some body else None)" for t
    using assms(2) by (auto simp: chunk_text_def reader_Ok)
  then show ?case
    using 1 that [of stream_id s "s\<lparr>st_model_id := observed, st_text := st_text s @ body,
        st_next_chunk_index := st_next_chunk_index s + 1,
        st_next_stream_seq := increment_decimal (st_next_stream_seq s)\<rparr>" body]
    by (auto simp: store_stream_def)
qed

lemma cursor_next: "stream_wf s \<Longrightarrow> unat (st_next_chunk_index s + 1) = Suc (unat (st_next_chunk_index s))"
  using max_safe_room by (simp add: stream_wf_def unat_word_ariths mod_less)

lemma run_stream_history:
  "apply_all f es new_reducer = Some r \<Longrightarrow> stream_history es r"
proof (induction es arbitrary: r rule: rev_induct)
  case Nil
  then show ?case by (auto simp: stream_history_def new_reducer_def chunks_def List.map_filter_def)
next
  case (snoc e es)
  from snoc.prems show ?case
  proof (cases rule: run_snoc_cases)
    case repeated
    then have same: "chunks sid (es @ [e]) = chunks sid es" for sid by (simp add: chunks_def)
    from snoc.IH [OF repeated(1)] show ?thesis unfolding stream_history_def same .
  next
    case (applied r1 r2 d)
    note IH = snoc.IH [OF applied(1)] and wf = room_wfD [OF applied(3)]
    have open_back: "stream_open r s \<Longrightarrow> stream_open r1 s" for s
      using stream_open_back [OF applied(4) wf(2), of s] applied(5) by (simp add: stream_open_def)
    have streams': "streams r = streams r2" "stream_open r = stream_open r2"
      using applied(5) by (simp_all add: stream_open_def fun_eq_iff)
    show ?thesis
    proof (cases "ev_kind e = ''lane.chunk''")
      case True
      then have "append_chunk e r1 = (Ok d, r2)" using applied(7) by (simp add: apply_transition_def)
      then show ?thesis
      proof (rule append_chunk_effect [OF _ True], goal_cases)
        case (1 sid s s' body)
        have index: "unat (st_next_chunk_index s') = Suc (unat (st_next_chunk_index s))"
          using 1 cursor_next [OF streams_okD(1) [OF wf(5)]] by simp
        have open_same: "stream_open r2 u = stream_open r1 u" for u using 1 by (simp add: stream_open_def)
        have open_s: "stream_open r1 s' = stream_open r1 s" using 1 by (simp add: stream_open_def)
        show ?case
          unfolding stream_history_def streams' open_same
        proof
          fix t
          from IH have old: "case streams r1 t of None \<Rightarrow> chunks t es = []
            | Some u \<Rightarrow> unat (st_next_chunk_index u) = length (chunks t es)
                \<and> (stream_open r1 u \<longrightarrow> st_text u = concat (chunks t es))"
            by (simp add: stream_history_def)
          show "case streams r2 t of None \<Rightarrow> chunks t (es @ [e]) = []
            | Some u \<Rightarrow> unat (st_next_chunk_index u) = length (chunks t (es @ [e]))
                \<and> (stream_open r1 u \<longrightarrow> st_text u = concat (chunks t (es @ [e])))"
          proof (cases "t = sid")
            case True
            then have "chunks t (es @ [e]) = chunks t es @ [body]"
              using 1(7) applied(2) by (simp add: chunks_snoc)
            with True old index open_s 1(1-3) show ?thesis by simp
          next
            case other: False
            then have chunks': "chunks t (es @ [e]) = chunks t es" using 1(7) by (simp add: chunks_snoc)
            have "streams r2 t = streams r1 t" using other 1(2) by simp
            with old show ?thesis unfolding chunks' by simp
          qed
        qed
      qed
    next
      case False
      then have "chunk_text sid e = None" for sid by (simp add: chunk_text_def)
      then have same: "chunks sid (es @ [e]) = chunks sid es" for sid by (simp add: chunks_snoc)
      show ?thesis
        unfolding stream_history_def same
      proof
        fix sid
        from IH have old: "case streams r1 sid of None \<Rightarrow> chunks sid es = []
          | Some s \<Rightarrow> unat (st_next_chunk_index s) = length (chunks sid es)
                  \<and> (stream_open r1 s \<longrightarrow> st_text s = concat (chunks sid es))"
          by (simp add: stream_history_def)
        from room_step_stream [OF applied(4) False wf(5), of sid]
        show "case streams r sid of None \<Rightarrow> chunks sid es = []
          | Some s \<Rightarrow> unat (st_next_chunk_index s) = length (chunks sid es)
                  \<and> (stream_open r s \<longrightarrow> st_text s = concat (chunks sid es))"
          using old open_back unfolding streams' by (auto split: option.splits)
      qed
    qed
  qed
qed

end
