(* ===== verification/Room_Sample.thy ===== *)
theory Room_Sample
  imports Room_Runs
begin

section \<open>Concrete conversations\<close>

text \<open>
  Two short conversations at which the properties of the room are instantiated: in \<open>asking\<close> a
  lane streams a chunk and asks for a permission; in \<open>hopping\<close> a lane commits its message
  without streaming, ends, and hands over to another agent. \<open>room_after\<close> runs them.
\<close>

definition sample_event :: "string \<Rightarrow> string \<Rightarrow> json_map \<Rightarrow> room_event" where
  "sample_event sq kind payload =
     \<lparr>ev_protocol = ''zer0.room'', ev_version = 1, ev_session_id = ''s'', ev_event_seq = sq,
      ev_event_id = CHR ''e'' # sq, ev_turn_id = ''t'', ev_occurred_at = ''now'', ev_kind = kind,
      ev_payload = JObject payload\<rparr>"

definition first_events :: "room_event list" where
  "first_events =
     [sample_event ''1'' ''turn.accepted''
        [(''agents'', JArray [JString ''claude'']), (''ledgerSeq'', JString ''1''),
         (''messageId'', JString ''m1''), (''text'', JString ''hello'')],
      sample_event ''2'' ''route.resolved'' [(''agents'', JArray [JString ''claude''])],
      sample_event ''3'' ''lane.queued''
        [(''agent'', JString ''claude''), (''expectedMessageId'', JString ''m2''),
         (''hopIndex'', JNumber (PosInt 0)), (''laneId'', JString ''l''), (''origin'', JString ''operator'')]]"

definition asking :: "room_event list" where
  "asking = first_events @
     [sample_event ''4'' ''lane.started''
        [(''agent'', JString ''claude''), (''laneId'', JString ''l''), (''streamId'', JString ''x'')],
      sample_event ''5'' ''lane.chunk''
        [(''agent'', JString ''claude''), (''channel'', JString ''message''),
         (''chunkIndex'', JNumber (PosInt 0)), (''laneId'', JString ''l''), (''streamId'', JString ''x''),
         (''streamSeq'', JString ''1''), (''text'', JString ''hi'')],
      sample_event ''6'' ''permission.requested''
        [(''agent'', JString ''claude''), (''askId'', JString ''a''),
         (''options'', JArray [JObject [(''optionId'', JString ''yes'')]])],
      sample_event ''7'' ''permission.resolved''
        [(''agent'', JString ''claude''), (''askId'', JString ''a''), (''optionId'', JString ''yes''),
         (''outcome'', JString ''approved'')]]"

definition hopping :: "room_event list" where
  "hopping = first_events @
     [sample_event ''4'' ''message.committed''
        [(''agent'', JString ''claude''), (''hopIndex'', JNumber (PosInt 0)), (''laneId'', JString ''l''),
         (''ledgerSeq'', JString ''2''), (''messageId'', JString ''m2''), (''origin'', JString ''operator''),
         (''text'', JString ''hi there'')],
      sample_event ''5'' ''lane.completed'' [(''agent'', JString ''claude''), (''laneId'', JString ''l'')],
      sample_event ''6'' ''hop.dispatched''
        [(''fromAgent'', JString ''claude''), (''hopBudget'', JNumber (PosInt 3)),
         (''hopId'', JString ''h''), (''hopIndex'', JNumber (PosInt 1)),
         (''parentMessageId'', JString ''m2''), (''toAgent'', JString ''codex'')],
      sample_event ''7'' ''turn.completed'' [],
      sample_event ''8'' ''lane.queued''
        [(''agent'', JString ''codex''), (''expectedMessageId'', JString ''m3''),
         (''fromAgent'', JString ''claude''), (''hopId'', JString ''h''),
         (''hopIndex'', JNumber (PosInt 1)), (''laneId'', JString ''k''), (''origin'', JString ''agent''),
         (''parentMessageId'', JString ''m2''), (''replyTo'', JString ''m2'')]]"

definition room_after :: "room_event list \<Rightarrow> reducer" where
  "room_after es = the (apply_all (\<lambda>_. True) es new_reducer)"

definition accepts :: "room_event list \<Rightarrow> bool" where
  "accepts es \<longleftrightarrow> apply_all (\<lambda>_. True) es new_reducer \<noteq> None"

lemma room_after_run: "accepts es \<Longrightarrow> apply_all (\<lambda>_. True) es new_reducer = Some (room_after es)"
  by (auto simp: accepts_def room_after_def)

lemma room_after_reachable: "accepts es \<Longrightarrow> reachable (\<lambda>_. True) (room_after es)"
  using room_after_run run_reachable by blast

subsection \<open>Evaluation\<close>

text \<open>The definitions \<open>simp\<close> unfolds to run a concrete event.\<close>

lemma digit_literals:
    "char_of (49 :: nat) = CHR ''1''"
    "char_of (50 :: nat) = CHR ''2''"
    "char_of (51 :: nat) = CHR ''3''"
    "char_of (52 :: nat) = CHR ''4''"
    "char_of (53 :: nat) = CHR ''5''"
    "char_of (54 :: nat) = CHR ''6''"
    "char_of (55 :: nat) = CHR ''7''"
    "char_of (56 :: nat) = CHR ''8''"
    "char_of (57 :: nat) = CHR ''9''"
  by code_simp+

lemma safe_ids: "\<not> has_unsafe_control ''h''" "\<not> has_unsafe_control ''m2''"
  by (simp_all add: has_unsafe_control_def chars_def bytes_of_def utf8_width_def utf8_lead_def)

lemmas event_eval = digit_literals safe_ids apply_event_def validate_def validate_payload_def is_known_event_kind_def
  known_event_kinds_def validate_decimal_def is_ascii_digit_def sample_event_def ensure_session_def
  apply_transition_def increment_decimal_def note_applied_def Let_def
  payload_of_def require_exact_fields_def require_allowed_fields_def unique_agents_def
  required_text_def required_string_def required_decimal_def required_u64_def required_agent_def
  required_agent_field_def optional_string_def get_u64_def contains_key_def
  get_str_def get_def keys_def is_agent_def invalid_def value_get_def only_fields_def payload_object_def
  event_reader_defs max_safe_integer_def
  writes turn_def hop_def permission_def index_find_def vec_get_def index_store_def turn_lanes_def List.map_filter_def
  match_lane_def match_permission_lane_def validate_terminal_identity_def
lemmas handler_eval = accept_turn_def resolve_route_def queue_lane_def queue_provenance_def read_lane_origin_def
  queue_admission_def start_lane_def append_chunk_def commit_message_def complete_lane_def
  request_permission_def permission_options_def read_permission_option_def resolve_permission_def read_permission_outcome_def
  record_hop_def complete_turn_def
  validate_lane_started_payload_def validate_lane_chunk_payload_def validate_permission_requested_payload_def
  validate_permission_resolved_payload_def validate_hop_payload_def terminal_def

text \<open>The rooms the two conversations end in.\<close>

lemma asking_facts:
  "case apply_all (\<lambda>_. True) asking new_reducer of None \<Rightarrow> False | Some r \<Rightarrow>
     map_option ln_phase (lanes r ''l'') = Some Running
     \<and> map_option ln_stream_id (lanes r ''l'') = Some (Some ''x'')
     \<and> map_option ln_origin (lanes r ''l'') = Some OriginOperator
     \<and> map_option st_text (streams r ''x'') = Some ''hi''
     \<and> map_option st_lane_id (streams r ''x'') = Some ''l''
     \<and> map_option pm_outcome (permission r ''a'') = Some (Some Approved)
     \<and> map_option tn_agents (turn r ''t'') = Some [''claude'']
     \<and> length (lane_order r) = 1"
  unfolding asking_def first_events_def new_reducer_def
  by (simp add: event_eval handler_eval)

lemma hopping_facts:
  "case apply_all (\<lambda>_. True) hopping new_reducer of None \<Rightarrow> False | Some r \<Rightarrow>
     map_option ln_phase (lanes r ''l'') = Some Completed
     \<and> map_option ln_phase (lanes r ''k'') = Some Queued
     \<and> map_option ln_origin (lanes r ''k'') = Some OriginAgent
     \<and> map_option ln_turn_id (lanes r ''k'') = Some ''t''
     \<and> message_lanes r ''m2'' = Some ''l''
     \<and> map_option hp_hop_index (hop r ''h'') = Some 1
     \<and> map_option tn_completed_at (turn r ''t'') = Some (Some ''now'')
     \<and> map_option tn_agents (turn r ''t'') = Some [''claude'']
     \<and> map tr_message_id (transcript r) = [''m1'', ''m2'']"
  unfolding hopping_def first_events_def new_reducer_def
  by (simp add: event_eval handler_eval)

lemma conversations_accepted: "accepts asking" "accepts hopping"
  using asking_facts hopping_facts by (auto simp: accepts_def split: option.splits)

lemmas asked_room = asking_facts [unfolded room_after_run [OF conversations_accepted(1)] option.case]
lemmas hopped_room = hopping_facts [unfolded room_after_run [OF conversations_accepted(2)] option.case]

end
