(* ===== verification/Room_Properties.thy ===== *)
theory Room_Properties
  imports Room_Sample
begin

section \<open>What the reducer promises\<close>

text \<open>
  The properties of \<open>RoomReducer\<close>, each over the model of \<^theory_text>\<open>Room_Handlers\<close> and proved from the
  invariants of \<^theory_text>\<open>Room_Turns\<close> and the run lemmas of \<^theory_text>\<open>Room_Runs\<close>; each with hypotheses is
  instantiated at one of the conversations of \<^theory_text>\<open>Room_Sample\<close>.
\<close>

lemmas asked = room_after_reachable [OF conversations_accepted(1)]
lemmas hopped = room_after_reachable [OF conversations_accepted(2)]

subsection \<open>Failure\<close>

text \<open>C2: an event that \<open>apply\<close> refuses, or on which it panics, leaves the room exactly as it was:
  no guard of any handler comes after a write.\<close>

theorem apply_refused_unchanged:
  "apply_event rfc3339 e r = (res, r') \<Longrightarrow> \<not> is_ok res \<Longrightarrow> r' = r"
  by (rule atomic_atD [OF apply_event_atomic_at])

theorem apply_refused_unchanged_witness:
  "apply_event (\<lambda>_. True) (sample_event ''2'' ''room.paused'' []) new_reducer
     = (Err (EventGap ''1'' ''2''), new_reducer)"
proof -
  have gap: "fst (apply_event (\<lambda>_. True) (sample_event ''2'' ''room.paused'' []) new_reducer)
      = Err (EventGap ''1'' ''2'')"
    by (simp add: event_eval new_reducer_def)
  then have "snd (apply_event (\<lambda>_. True) (sample_event ''2'' ''room.paused'' []) new_reducer) = new_reducer"
    by (intro apply_refused_unchanged [OF surjective_pairing]) simp
  with gap show ?thesis by (simp add: prod_eq_iff)
qed

text \<open>C3: in a reachable room \<open>apply\<close> never panics, whatever the event: none of the \<open>expect\<close> calls
  of the handlers can fail.\<close>

theorem apply_never_panics:
  "reachable rfc3339 r \<Longrightarrow> \<not> is_panic (fst (apply_event rfc3339 e r))"
  using apply_event_calm [OF reachable_room_wf] by (simp add: calm_def)

theorem apply_never_panics_witness:
  "\<not> is_panic (fst (apply_event (\<lambda>_. True) (sample_event ''9'' ''hop.blocked'' []) (room_after hopping)))"
  by (rule apply_never_panics [OF hopped])

subsection \<open>The log\<close>

text \<open>C1: \<open>apply\<close> implements the abstract machine: an accepted event is either a repetition of an
  event of the log, and changes nothing, or it carries the next sequence number, makes one step
  of \<open>room_step\<close> and is recorded.\<close>

theorem apply_refines_machine:
  assumes "apply_event rfc3339 e r = (Ok d, r')"
  shows "(events_by_id r (ev_event_id e) = Some e \<and> r' = r \<and> d = Delta_None)
    \<or> (\<exists>r1. events_by_id r (ev_event_id e) = None \<and> room_step e r r1 \<and> r' = note_applied e r1
          \<and> ev_event_seq e = increment_decimal (last_event_seq r))"
  using assms by (cases rule: apply_event_Ok_cases) auto

theorem apply_refines_machine_witness:
  "\<exists>r1. room_step (sample_event ''1'' ''room.paused'' []) new_reducer r1 \<and> paused r1"
proof -
  have "apply_event (\<lambda>_. True) (sample_event ''1'' ''room.paused'' []) new_reducer
      = (Ok Delta_None, note_applied (sample_event ''1'' ''room.paused'' []) (new_reducer\<lparr>paused := True\<rparr>))"
    by (simp add: event_eval new_reducer_def pause_room_def)
  from apply_refines_machine [OF this] obtain r1 where
    "room_step (sample_event ''1'' ''room.paused'' []) new_reducer r1"
    "note_applied (sample_event ''1'' ''room.paused'' []) (new_reducer\<lparr>paused := True\<rparr>)
       = note_applied (sample_event ''1'' ''room.paused'' []) r1"
    by (auto simp: new_reducer_def)
  moreover from this(2) have "paused r1"
    by (drule_tac arg_cong [where f = paused]) simp
  ultimately show ?thesis by blast
qed

text \<open>the events a session accepts, repetitions apart, carry the numbers 1, 2, 3, \<dots> without a
  gap, and \<open>last_event_seq\<close> is their number.\<close>

theorem run_is_gapless:
  assumes "apply_all rfc3339 es new_reducer = Some r"
  shows "map (dec_value \<circ> ev_event_seq) (fresh es) = [1..<Suc (length (fresh es))]
    \<and> last_event_seq r = show_nat (length (fresh es))"
proof
  note run = run_sequence [OF assms]
  show "map (dec_value \<circ> ev_event_seq) (fresh es) = [1..<Suc (length (fresh es))]"
  proof (rule nth_equalityI)
    fix i assume "i < length (map (dec_value \<circ> ev_event_seq) (fresh es))"
    with seq.consecutive_value [of "''0''" "map ev_event_seq (fresh es)" i] run
    show "map (dec_value \<circ> ev_event_seq) (fresh es) ! i = [1..<Suc (length (fresh es))] ! i"
      by (simp del: dec_value.simps upt_Suc)
  qed (simp del: upt_Suc)
  have "valid_decimal (last_event_seq r)" "dec_value (last_event_seq r) = length (fresh es)"
    using run seq.consecutive_last [of "''0''" "map ev_event_seq (fresh es)"]
    by (simp_all del: dec_value.simps)
  then show "last_event_seq r = show_nat (length (fresh es))"
    using show_nat_dec_value [of "last_event_seq r"] by simp
qed

theorem run_is_gapless_witness:
  "map (dec_value \<circ> ev_event_seq) (fresh asking) = [1..<Suc (length (fresh asking))]"
  using run_is_gapless [OF room_after_run [OF conversations_accepted(1)]] by (rule conjunct1)

text \<open>feeding the events of a session again, all or some and in the order they came, is accepted
  and changes nothing.\<close>

theorem replay_is_idempotent:
  assumes "reachable rfc3339 r" "apply_all rfc3339 es r = Some r'" "set fs \<subseteq> set es"
  shows "apply_all rfc3339 fs r' = Some r'"
  using assms(3)
proof (induction fs)
  case (Cons e fs)
  then have logged: "events_by_id r' (ev_event_id e) = Some e" "validate rfc3339 e = Ok ()"
    using run_logged [OF assms(1,2)] by auto
  moreover have "log_ok r'"
    using apply_all_reachable [OF assms(1,2)] reachable_room_wf room_wfD(15) by blast
  ultimately have "session_id r' = Some (ev_session_id e)" by (auto simp: log_ok_def)
  with logged have "apply_event rfc3339 e r' = (Ok Delta_None, r')"
    by (simp add: apply_event_def ensure_session_def)
  with Cons show ?case by simp
qed simp

theorem replay_is_idempotent_witness:
  "apply_all (\<lambda>_. True) (rev asking) (room_after asking) = Some (room_after asking)"
  by (rule replay_is_idempotent
      [OF reachable.created room_after_run [OF conversations_accepted(1)]]) simp

text \<open>the log of a reachable room holds exactly one event for each number up to the last one.\<close>

theorem log_is_complete:
  assumes "reachable rfc3339 r" "1 \<le> n" "n \<le> dec_value (last_event_seq r)"
  shows "\<exists>!e. events_by_id r (ev_event_id e) = Some e \<and> dec_value (ev_event_seq e) = n"
proof -
  have ok: "log_ok r" using assms(1) reachable_room_wf room_wfD(15) by blast
  let ?f = "\<lambda>i. dec_value (ev_event_seq (the (events_by_id r i)))"
  from ok have bij: "bij_betw ?f (dom (events_by_id r)) {1 .. dec_value (last_event_seq r)}"
    by (simp add: log_ok_def)
  have "n \<in> {1 .. dec_value (last_event_seq r)}" using assms(2,3) by simp
  then obtain i where i: "i \<in> dom (events_by_id r)" "?f i = n"
    unfolding bij_betw_imp_surj_on [OF bij, symmetric] by blast
  then obtain e where e: "events_by_id r i = Some e" "dec_value (ev_event_seq e) = n" by auto
  show ?thesis
  proof (rule ex1I [of _ e])
    show "events_by_id r (ev_event_id e) = Some e \<and> dec_value (ev_event_seq e) = n"
      using ok e by (auto simp: log_ok_def)
    fix e' assume e': "events_by_id r (ev_event_id e') = Some e' \<and> dec_value (ev_event_seq e') = n"
    then have "ev_event_id e' \<in> dom (events_by_id r)" "?f (ev_event_id e') = ?f i" using e by auto
    with inj_onD [OF bij_betw_imp_inj_on [OF bij]] i have "ev_event_id e' = i" by blast
    with e e' show "e' = e" by simp
  qed
qed

theorem log_is_complete_witness:
  "\<exists>!e. events_by_id (room_after asking) (ev_event_id e) = Some e \<and> dec_value (ev_event_seq e) = 1"
proof (rule log_is_complete [OF asked])
  have "fresh asking \<noteq> []" by (simp add: asking_def first_events_def flip: set_empty)
  then show "1 \<le> dec_value (last_event_seq (room_after asking))"
    using run_sequence [OF room_after_run [OF conversations_accepted(1)]]
      seq.consecutive_last [of "''0''" "map ev_event_seq (fresh asking)"]
    by (simp add: Suc_leI del: dec_value.simps)
qed simp

subsection \<open>Lanes\<close>

lemma lane_kept_by_run:
  assumes "reachable rfc3339 r" "apply_all rfc3339 es r = Some r'" "lanes r k = Some l"
  shows "\<exists>l'. lanes r' k = Some l' \<and> lane_identity l l' \<and> ln_phase l \<le> ln_phase l'
    \<and> (terminal (ln_phase l) \<longrightarrow> l' = l)"
proof -
  let ?R = "\<lambda>r r'. \<forall>k l. lanes r k = Some l \<longrightarrow>
      (\<exists>l'. lanes r' k = Some l' \<and> lane_identity l l' \<and> ln_phase l \<le> ln_phase l'
        \<and> (terminal (ln_phase l) \<longrightarrow> l' = l))"
  have "?R r r'"
  proof (rule apply_all_relation [OF assms(1,2)])
    fix r e r1 assume "room_step e r r1"
    then have "?R r r1"
    proof (cases rule: room_step_lanes)
      case (added t route l)
      then show ?thesis by (auto simp: fresh_lane_def push_lane_def)
    next
      case (moved lane_id l l')
      have "ln_phase l \<le> ln_phase l'"
        using moved(3) phase_step_mono by (auto simp: lane_moves_def simp del: phase_step_from)
      with moved show ?thesis by (auto simp: lane_moves_def)
    qed simp
    then show "?R r (note_applied e r1)" by simp
  next
    fix r s t assume rs: "?R r s" and st: "?R s t"
    show "?R r t"
    proof (intro allI impI)
      fix k l assume "lanes r k = Some l"
      with rs obtain m where m: "lanes s k = Some m" "lane_identity l m" "ln_phase l \<le> ln_phase m"
        "terminal (ln_phase l) \<longrightarrow> m = l" by blast
      with st obtain n where "lanes t k = Some n" "lane_identity m n" "ln_phase m \<le> ln_phase n"
        "terminal (ln_phase m) \<longrightarrow> n = m" by blast
      with m lane_identity_trans show "\<exists>l'. lanes t k = Some l' \<and> lane_identity l l'
          \<and> ln_phase l \<le> ln_phase l' \<and> (terminal (ln_phase l) \<longrightarrow> l' = l)"
        by (auto intro: order_trans)
    qed
  qed simp
  with assms(3) show ?thesis by blast
qed

text \<open>C4: over any run a lane keeps its identity, its phase only moves forward, and once it has
  completed, failed or been cancelled nothing about it changes again.\<close>

theorem lane_life:
  assumes "reachable rfc3339 r" "apply_all rfc3339 es r = Some r'" "lanes r k = Some l"
  shows "\<exists>l'. lanes r' k = Some l' \<and> lane_identity l l' \<and> ln_phase l \<le> ln_phase l'
    \<and> (terminal (ln_phase l) \<longrightarrow> l' = l)"
  by (rule lane_kept_by_run [OF assms])

theorem lane_life_witness:
  "\<exists>l l'. lanes (room_after asking) ''l'' = Some l \<and> lanes (room_after asking) ''l'' = Some l'
     \<and> ln_phase l \<le> ln_phase l'"
proof -
  from asked_room obtain l where "lanes (room_after asking) ''l'' = Some l" by auto
  with lane_life [OF asked, of "[]", simplified] show ?thesis by blast
qed

text \<open>C9: in a reachable room the fields of a lane agree with its phase: a stream exactly once it
  has started, a committed message exactly in the phases committed and completed and with the
  expected id, an end time exactly in the terminal phases, a failure reason only when failed.\<close>

theorem lane_fields_agree:
  assumes "reachable rfc3339 r" "lanes r k = Some l"
  shows "ln_id l = k \<and> lane_wf l"
proof -
  note wf = room_wfD [OF reachable_room_wf [OF assms(1)]]
  show ?thesis
    using well_ordered_key [OF tables_okD(1) [OF wf(1)] assms(2)] wf(2) assms(2)
    by (simp add: lanes_ok_def)
qed

theorem lane_fields_agree_witness:
  "\<exists>l. lanes (room_after hopping) ''l'' = Some l \<and> ln_id l = ''l'' \<and> ln_message_commit l \<noteq> None"
proof -
  from hopped_room obtain l where "lanes (room_after hopping) ''l'' = Some l" "ln_phase l = Completed"
    by auto
  with lane_fields_agree [OF hopped this(1)] show ?thesis by (auto simp: lane_wf_def)
qed

text \<open>the \<open>rosterIndex\<close> of a lane is its place in the order of arrival, for its whole life (while
  there are fewer than 2^64 lanes), and \<open>turn_lanes\<close> walks the lanes of a turn in that order.\<close>

theorem roster_index_is_position:
  assumes "reachable rfc3339 r" "lanes r k = Some l" "length (lane_order r) < 2 ^ 64"
  shows "unat (ln_roster_index l) < length (lane_order r)
    \<and> lane_order r ! unat (ln_roster_index l) = k
    \<and> turn_lanes r tid = filter (\<lambda>l. ln_turn_id l = tid) (fst (ordered_lanes r n))"
proof -
  note wf = room_wfD [OF reachable_room_wf [OF assms(1)]]
  have "k \<in> set (lane_order r)" using tables_okD(1) [OF wf(1)] assms(2) by (auto simp: well_ordered_def)
  then obtain i where i: "i < length (lane_order r)" "lane_order r ! i = k" by (auto simp: in_set_conv_nth)
  with wf(3) assms(2) have "ln_roster_index l = of_nat i" by (auto simp: roster_ok_def)
  with i assms(3) have "unat (ln_roster_index l) = i" by (simp add: unat_of_nat)
  with i turn_lanes_walk [OF wf(1,4)] show ?thesis by simp
qed

theorem roster_index_is_position_witness:
  "\<exists>l. lanes (room_after asking) ''l'' = Some l \<and> lane_order (room_after asking) ! unat (ln_roster_index l) = ''l''"
proof -
  from asked_room obtain l where l: "lanes (room_after asking) ''l'' = Some l" by auto
  have "length (lane_order (room_after asking)) < 2 ^ 64" using asked_room by simp
  with l roster_index_is_position [OF asked l] show ?thesis by blast
qed

text \<open>C5: a turn never has two operator lanes for one agent, and once it is completed every agent of
  its route has its operator lane and that lane is over.\<close>

theorem completed_turn_roots_over:
  assumes "reachable rfc3339 r" "turn r tid = Some t" "tn_completed_at t \<noteq> None" "agent \<in> set (tn_agents t)"
  shows "\<exists>!k. \<exists>l. lanes r k = Some l \<and> ln_turn_id l = tid \<and> ln_origin l = OriginOperator
    \<and> ln_agent l = agent \<and> terminal (ln_phase l)"
proof -
  note wf = room_wfD [OF reachable_room_wf [OF assms(1)]]
  from wf(11) assms(2-4) obtain k l where "lanes r k = Some l" "ln_turn_id l = tid" "ln_agent l = agent"
    "ln_origin l = OriginOperator" "terminal (ln_phase l)"
    unfolding completed_ok_def by blast
  moreover have "k' = k" if "lanes r k' = Some l'" "ln_turn_id l' = tid" "ln_agent l' = agent"
    "ln_origin l' = OriginOperator" for k' l'
    using wf(10) calculation that unfolding roots_unique_def by metis
  ultimately show ?thesis by (intro ex1I [of _ k]) blast+
qed

theorem completed_turn_roots_over_witness:
  "\<exists>!k. \<exists>l. lanes (room_after hopping) k = Some l \<and> ln_turn_id l = ''t'' \<and> ln_origin l = OriginOperator
    \<and> ln_agent l = ''claude'' \<and> terminal (ln_phase l)"
proof -
  from hopped_room obtain t where "turn (room_after hopping) ''t'' = Some t"
    "tn_completed_at t \<noteq> None" "''claude'' \<in> set (tn_agents t)" by auto
  then show ?thesis by (rule completed_turn_roots_over [OF hopped])
qed

subsection \<open>Streams and messages\<close>

text \<open>the two cursors of a stream agree and never wrap: the next stream sequence is the decimal
  rendering of the next chunk index plus one, and the chunk index stays within 2^53.\<close>

theorem stream_cursors_agree:
  assumes "reachable rfc3339 r" "stream r sid = Some s"
  shows "st_next_stream_seq s = show_nat (unat (st_next_chunk_index s) + 1)
    \<and> unat (st_next_chunk_index s) \<le> 2 ^ 53"
proof -
  have "stream_wf s"
    using room_wfD(5) [OF reachable_room_wf [OF assms(1)]] assms(2)
    by (simp add: streams_ok_def stream_def)
  then show ?thesis
    using show_nat_dec_value [of "st_next_stream_seq s"]
    by (auto simp: stream_wf_def max_safe_integer_def)
qed

theorem stream_cursors_agree_witness:
  "\<exists>s. stream (room_after asking) ''x'' = Some s
     \<and> st_next_stream_seq s = show_nat (unat (st_next_chunk_index s) + 1)"
proof -
  from asked_room obtain s where "stream (room_after asking) ''x'' = Some s" by (auto simp: stream_def)
  with stream_cursors_agree [OF asked this] show ?thesis by blast
qed

text \<open>C6: until its lane commits, the text of a stream is the concatenation of the texts of its
  \<open>lane.chunk\<close> events in order, each counted once; the chunk cursor is their number.\<close>

theorem stream_text_is_its_chunks:
  assumes "apply_all rfc3339 es new_reducer = Some r" "stream r sid = Some s"
  shows "unat (st_next_chunk_index s) = length (chunks sid es)
    \<and> (stream_open r s \<longrightarrow> st_text s = concat (chunks sid es))"
  using run_stream_history [OF assms(1)] assms(2)
  by (auto simp: stream_history_def stream_def split: option.splits)

theorem stream_text_is_its_chunks_witness:
  "\<exists>s. stream (room_after asking) ''x'' = Some s
     \<and> unat (st_next_chunk_index s) = length (chunks ''x'' asking)"
proof -
  from asked_room obtain s where "stream (room_after asking) ''x'' = Some s" by (auto simp: stream_def)
  with stream_text_is_its_chunks [OF room_after_run [OF conversations_accepted(1)] this]
  show ?thesis by blast
qed

text \<open>streams and started lanes are in bijection: a stream's lane names it back, with the same
  agent and turn, and when the lane has committed a message the stream shows that message.\<close>

theorem stream_belongs_to_lane:
  assumes "reachable rfc3339 r" "stream r sid = Some s"
  shows "\<exists>l. lane r (st_lane_id s) = Some l \<and> ln_stream_id l = Some sid \<and> ln_agent l = st_agent s
    \<and> ln_turn_id l = st_turn_id s \<and> (\<forall>c. ln_message_commit l = Some c \<longrightarrow> st_text s = mc_text c)"
  using room_wfD(5) [OF reachable_room_wf [OF assms(1)]] assms(2)
  by (auto simp: streams_ok_def stream_backed_def stream_def lane_def)

theorem stream_belongs_to_lane_witness:
  "\<exists>s l. stream (room_after asking) ''x'' = Some s \<and> lane (room_after asking) (st_lane_id s) = Some l
     \<and> ln_stream_id l = Some ''x''"
proof -
  from asked_room obtain s where "stream (room_after asking) ''x'' = Some s" by (auto simp: stream_def)
  with stream_belongs_to_lane [OF asked this] show ?thesis by blast
qed

text \<open>the message index is exact: \<open>lane_for_message\<close> never panics and finds the one lane that
  committed the message, if any.\<close>

theorem message_index_exact:
  assumes "reachable rfc3339 r"
  shows "\<exists>found. lane_for_message r mid = Ok found
    \<and> (\<forall>l. found = Some l \<longleftrightarrow> (\<exists>k c. lane r k = Some l \<and> ln_message_commit l = Some c
            \<and> mc_message_id c = mid))"
proof -
  note wf = reachable_room_wf [OF assms]
  have index: "message_lanes r mid = Some k \<longleftrightarrow>
      (\<exists>l c. lanes r k = Some l \<and> ln_message_commit l = Some c \<and> mc_message_id c = mid)" for k
    using room_wfD(7) [OF wf] by (simp add: messages_ok_def)
  have "Option.bind (message_lanes r mid) (lanes r) = Some l \<longleftrightarrow>
      (\<exists>k c. lanes r k = Some l \<and> ln_message_commit l = Some c \<and> mc_message_id c = mid)" for l
    using index by (auto simp: bind_eq_Some_conv)
  with lane_for_message_sound [OF wf] show ?thesis by (auto simp: lane_def)
qed

theorem message_index_exact_witness:
  "\<exists>l. lane_for_message (room_after hopping) ''m2'' = Ok (Some l)"
proof -
  from hopped_room obtain l where l: "lane (room_after hopping) ''l'' = Some l" "ln_phase l = Completed"
    and m: "message_lanes (room_after hopping) ''m2'' = Some ''l''" by (auto simp: lane_def)
  from m obtain c where "ln_message_commit l = Some c" "mc_message_id c = ''m2''"
    using room_wfD(7) [OF reachable_room_wf [OF hopped]] l by (auto simp: messages_ok_def lane_def)
  with l(1) have committed: "\<exists>k c. lane (room_after hopping) k = Some l \<and> ln_message_commit l = Some c
      \<and> mc_message_id c = ''m2''" by blast
  from message_index_exact [OF hopped, of "''m2''"] obtain found where
    "lane_for_message (room_after hopping) ''m2'' = Ok found"
    "found = Some l \<longleftrightarrow> (\<exists>k c. lane (room_after hopping) k = Some l \<and> ln_message_commit l = Some c
      \<and> mc_message_id c = ''m2'')" by auto
  with committed show ?thesis by auto
qed

text \<open>the transcript of a reachable room is in strictly ascending event order and names every
  message once; \<open>transcript_message_ids\<close> is exactly its set of message ids.\<close>

theorem transcript_in_order:
  assumes "reachable rfc3339 r"
  shows "sorted_wrt (<) (map (dec_value \<circ> tr_event_seq) (transcript r))
    \<and> distinct (map tr_message_id (transcript r))
    \<and> transcript_message_ids r = set (map tr_message_id (transcript r))"
  using room_wfD(6,16) [OF reachable_room_wf [OF assms]]
  by (simp add: transcript_ok_def transcript_sorted_def comp_def)

theorem transcript_in_order_witness:
  "''m2'' \<in> transcript_message_ids (room_after hopping)
     \<and> sorted_wrt (<) (map (dec_value \<circ> tr_event_seq) (transcript (room_after hopping)))"
  using transcript_in_order [OF hopped] hopped_room by auto

subsection \<open>Hops, permissions, turns, agents\<close>

text \<open>C7: a recorded hop hangs off the committed message of a lane of its own turn and agent, is
  exactly one level deeper, stays within the safe integers, and is dispatched exactly when it is
  within its budget.\<close>

theorem hop_depth_exact:
  assumes "reachable rfc3339 r" "hop r hop_id = Some h"
  shows "(\<exists>l c. ln_message_commit l = Some c \<and> mc_message_id c = hp_parent_message_id h
        \<and> lane_for_message r (hp_parent_message_id h) = Ok (Some l)
        \<and> ln_turn_id l = hp_turn_id h \<and> ln_agent l = hp_from_agent h
        \<and> unat (hp_hop_index h) = unat (ln_hop_index l) + 1)
    \<and> hp_hop_index h \<le> max_safe_integer
    \<and> (hp_disposition h = Dispatched \<longleftrightarrow> hp_hop_index h \<le> hp_hop_budget h)"
proof -
  note wf = reachable_room_wf [OF assms(1)]
  from room_wfD(12) [OF wf] assms(2) have "hop_wf r h" by (simp add: hops_ok_def)
  then obtain k l where l: "message_lanes r (hp_parent_message_id h) = Some k" "lanes r k = Some l"
    "ln_turn_id l = hp_turn_id h" "ln_agent l = hp_from_agent h"
    "unat (hp_hop_index h) = unat (ln_hop_index l) + 1"
    by (auto simp: hop_wf_def)
  moreover obtain c where "ln_message_commit l = Some c" "mc_message_id c = hp_parent_message_id h"
    using room_wfD(7) [OF wf] l(1,2) by (auto simp: messages_ok_def)
  ultimately show ?thesis
    using lane_for_message_sound [OF wf] \<open>hop_wf r h\<close> by (auto simp: hop_wf_def)
qed

theorem hop_depth_exact_witness:
  "\<exists>h. hop (room_after hopping) ''h'' = Some h \<and> hp_hop_index h \<le> max_safe_integer"
proof -
  from hopped_room obtain h where "hop (room_after hopping) ''h'' = Some h" by auto
  with hop_depth_exact [OF hopped this] show ?thesis by blast
qed

text \<open>an agent lane exists only because of a dispatched hop of its turn that names it, at the
  hop's depth, so a chain of hops is never longer than its budget.\<close>

theorem agent_lane_has_hop:
  assumes "reachable rfc3339 r" "lane r k = Some l" "ln_origin l = OriginAgent"
  shows "\<exists>hop_id h. ln_hop_id l = Some hop_id \<and> hop r hop_id = Some h \<and> hp_disposition h = Dispatched
    \<and> hp_turn_id h = ln_turn_id l \<and> hp_to_agent h = ln_agent l \<and> hp_hop_index h = ln_hop_index l
    \<and> 0 < ln_hop_index l \<and> ln_hop_index l \<le> hp_hop_budget h"
proof -
  note wf = room_wfD [OF reachable_room_wf [OF assms(1)]]
  from wf(9) assms(2,3) have "hop_lane r l"
    by (auto simp: sources_ok_def lane_sourced_def lane_def)
  then obtain hop_id h where h: "ln_hop_id l = Some hop_id" "hop r hop_id = Some h"
    "hp_disposition h = Dispatched" "hp_turn_id h = ln_turn_id l" "hp_to_agent h = ln_agent l"
    "hp_hop_index h = ln_hop_index l" "0 < ln_hop_index l"
    by (auto simp: hop_lane_def)
  with wf(12) have "hop_wf r h" by (simp add: hops_ok_def)
  with h show ?thesis by (auto simp: hop_wf_def)
qed

theorem agent_lane_has_hop_witness:
  "\<exists>l hop_id h. lane (room_after hopping) ''k'' = Some l \<and> hop (room_after hopping) hop_id = Some h
     \<and> hp_hop_index h = ln_hop_index l \<and> ln_hop_index l \<le> hp_hop_budget h"
proof -
  from hopped_room obtain l where l: "lane (room_after hopping) ''k'' = Some l" "ln_origin l = OriginAgent"
    by (auto simp: lane_def)
  from agent_lane_has_hop [OF hopped l] l(1) show ?thesis by auto
qed

text \<open>C8: a permission is answered at most once, with an option it offered: over any run its request
  is kept, and once it has an outcome nothing about it changes again.\<close>

theorem permission_answered_once:
  assumes "reachable rfc3339 r" "apply_all rfc3339 es r = Some r'" "permission r ask_id = Some p"
  shows "\<exists>p'. permission r' ask_id = Some p' \<and> pm_options p' = pm_options p
    \<and> pm_agent p' = pm_agent p \<and> pm_turn_id p' = pm_turn_id p
    \<and> (pm_outcome p \<noteq> None \<longrightarrow> p' = p)
    \<and> (\<forall>c. pm_option_id p' = Some c \<longrightarrow> c \<in> po_option_id ` set (pm_options p'))"
proof -
  have "permissions_kept r r'" by (rule permissions_kept_run [OF assms(1,2)])
  with assms(3) obtain p' where p': "permission r' ask_id = Some p'" "pm_options p' = pm_options p"
    "pm_agent p' = pm_agent p" "pm_turn_id p' = pm_turn_id p" "pm_outcome p \<noteq> None \<longrightarrow> p' = p"
    unfolding permissions_kept_def by blast
  have "permission_wf p'"
    using p'(1) room_wfD(13) [OF reachable_room_wf [OF apply_all_reachable [OF assms(1,2)]]]
    by (simp add: permissions_ok_def)
  then have "\<forall>c. pm_option_id p' = Some c \<longrightarrow> c \<in> po_option_id ` set (pm_options p')"
    by (simp add: permission_wf_def)
  with p' show ?thesis by blast
qed

theorem permission_answered_once_witness:
  "\<exists>p. permission (room_after asking) ''a'' = Some p \<and> pm_outcome p = Some Approved
     \<and> (\<forall>c. pm_option_id p = Some c \<longrightarrow> c \<in> po_option_id ` set (pm_options p))"
proof -
  from asked_room obtain p where p: "permission (room_after asking) ''a'' = Some p"
    "pm_outcome p = Some Approved" by auto
  with permission_answered_once [OF asked, of "[]" _ "''a''" p] show ?thesis by auto
qed

text \<open>over any run a turn keeps its identity; its route is set once, to the agents it was
  accepted with, and its completion time is set once.\<close>

theorem turn_life:
  assumes "reachable rfc3339 r" "apply_all rfc3339 es r = Some r'" "turn r tid = Some t"
  shows "\<exists>t'. turn r' tid = Some t' \<and> turn_moves t t'
    \<and> (\<forall>route. tn_route t' = Some route \<longrightarrow> rt_agents route = tn_agents t)"
proof -
  let ?R = "\<lambda>r r'. \<forall>k t. turn r k = Some t \<longrightarrow> (\<exists>t'. turn r' k = Some t' \<and> turn_moves t t')"
  have "?R r r'"
  proof (rule apply_all_relation [OF assms(1,2)])
    fix r e r1 assume "room_wf r" "room_step e r r1"
    then show "?R r (note_applied e r1)"
      using room_step_turn_kept [OF _ room_wfD(1)] by simp
  next
    fix r s t assume "?R r s" "?R s t"
    then show "?R r t" using turn_moves_trans by blast
  qed simp
  with assms(3) obtain t' where t': "turn r' tid = Some t'" "turn_moves t t'" by blast
  with room_wfD(8) [OF reachable_room_wf [OF apply_all_reachable [OF assms(1,2)]]]
  show ?thesis by (auto simp: turns_ok_def turn_wf_def turn_moves_def)
qed

theorem turn_life_witness:
  "\<exists>t t'. turn (room_after hopping) ''t'' = Some t \<and> turn (room_after hopping) ''t'' = Some t'
     \<and> turn_moves t t'"
proof -
  from hopped_room obtain t where "turn (room_after hopping) ''t'' = Some t" by auto
  with turn_life [OF hopped, of "[]" _ "''t''" t] show ?thesis by auto
qed

text \<open>the status board never shows an agent as ready while its usage is exhausted.\<close>

theorem exhausted_agent_not_ready:
  assumes "reachable rfc3339 r" "agent_status r a = Some st" "as_usage st = Some u" "us_exhausted u"
  shows "as_agent st = a \<and> as_auth st \<noteq> Some AuthReady"
proof -
  have "as_agent st = a \<and> status_wf st"
    using room_wfD(14) [OF reachable_room_wf [OF assms(1)]] assms(2) by (simp add: board_ok_def)
  with assms(3,4) show ?thesis by (simp add: status_wf_def)
qed

theorem exhausted_agent_not_ready_witness:
  "\<exists>r st. reachable (\<lambda>_. True) r \<and> agent_status r ''codex'' = Some st \<and> as_auth st \<noteq> Some AuthReady"
proof -
  have "case apply_all (\<lambda>_. True) [sample_event ''1'' ''agent.status''
      [(''agent'', JString ''codex''), (''auth'', JString ''ready''),
       (''usage'', JObject [(''exhausted'', JBool True)])]] new_reducer of None \<Rightarrow> False
    | Some r \<Rightarrow> \<exists>st u. agent_status r ''codex'' = Some st \<and> as_usage st = Some u \<and> us_exhausted u"
    by (simp add: event_eval new_reducer_def record_agent_status_def validate_agent_status_payload_def
        validate_agent_usage_def validate_optional_safe_integer_def optional_agent_auth_def
        optional_agent_usage_def optional_percent_def optional_safe_u64_def
        optional_agent_availability_def agent_status_def)
  then obtain r st u where "apply_all (\<lambda>_. True) [sample_event ''1'' ''agent.status''
      [(''agent'', JString ''codex''), (''auth'', JString ''ready''),
       (''usage'', JObject [(''exhausted'', JBool True)])]] new_reducer = Some r"
    and st: "agent_status r ''codex'' = Some st" "as_usage st = Some u" "us_exhausted u"
    by (auto split: option.splits)
  then have "reachable (\<lambda>_. True) r" by (intro run_reachable)
  with st exhausted_agent_not_ready [OF this st] show ?thesis by blast
qed

subsection \<open>A completed turn can still grow\<close>

lemma complete_turn_facts:
  assumes "reachable rfc3339 r" "apply_event rfc3339 e r = (Ok d, r1)" "ev_kind e = ''turn.completed''"
    and "events_by_id r (ev_event_id e) = None"
  obtains t where "turn r1 (ev_turn_id e) = Some t" "tn_completed_at t = Some (ev_occurred_at e)"
    "\<And>l. l \<in> set (turn_lanes r1 (ev_turn_id e)) \<Longrightarrow> terminal (ln_phase l)"
  using assms(1,2)
proof (cases rule: apply_event_reachable_cases)
  case (applied r2)
  from applied(6) assms(3) have "complete_turn e r = (Ok d, r2)" by (simp add: apply_transition_def)
  then obtain t where t: "turn r (ev_turn_id e) = Some t"
    "\<not> list_ex (\<lambda>l. \<not> terminal (ln_phase l)) (turn_lanes r (ev_turn_id e))"
    "r2 = store_turn (ev_turn_id e) (t\<lparr>tn_completed_at := Some (ev_occurred_at e)\<rparr>) r"
    by (auto simp: complete_turn_def Let_def split: if_splits)
  have "turn r1 (ev_turn_id e) = Some (t\<lparr>tn_completed_at := Some (ev_occurred_at e)\<rparr>)"
    using turn_store [OF room_wfD(1) [OF applied(2)] t(1)] applied(4) t(3) by simp
  moreover have "turn_lanes r1 (ev_turn_id e) = turn_lanes r (ev_turn_id e)"
    using applied(4) t(3) by (simp add: turn_lanes_def ordered_lanes_def writes)
  ultimately show thesis using that t(2) by (auto simp: list_ex_iff)
qed (use assms(4) in simp)

text \<open>An operator lane of a completed turn is one of those the turn was completed with.\<close>

lemma completed_operator_lane:
  assumes "reachable rfc3339 r1" "apply_all rfc3339 es r1 = Some r2"
    and "turn r1 tid = Some t" "tn_completed_at t \<noteq> None"
    and "lanes r2 k = Some l" "ln_turn_id l = tid" "ln_origin l = OriginOperator"
  shows "lanes r1 k = Some l"
proof -
  note wf1 = room_wfD [OF reachable_room_wf [OF assms(1)]]
  note wf2 = room_wfD [OF reachable_room_wf [OF apply_all_reachable [OF assms(1,2)]]]
  obtain t' where t': "turn r2 tid = Some t'" "tn_agents t' = tn_agents t"
    using turn_life [OF assms(1-3)] by (auto simp: turn_moves_def)
  have "lane_sourced r2 l" using wf2(9) assms(5) by (simp add: sources_ok_def)
  then have "ln_agent l \<in> set (tn_agents t)"
    using assms(6,7) t' by (auto simp: lane_sourced_def)
  with wf1(11) assms(3,4) obtain k' l' where l': "lanes r1 k' = Some l'" "ln_turn_id l' = tid"
    "ln_agent l' = ln_agent l" "ln_origin l' = OriginOperator" "terminal (ln_phase l')"
    unfolding completed_ok_def by blast
  with lane_kept_by_run [OF assms(1,2) l'(1)] have "lanes r2 k' = Some l'" by auto
  with wf2(10) assms(5-7) l' have "k = k'" unfolding roots_unique_def by metis
  with \<open>lanes r2 k' = Some l'\<close> assms(5) l'(1) show ?thesis by simp
qed

text \<open>C10: a turn is completed only when every lane it has is over, and those lanes never change again;
  but the turn can still grow: \<open>lane.queued\<close> does not look at the completion. Every lane the turn
  has later and did not have when it was completed is an agent lane, queued for a hop of the turn
  that was dispatched to its agent. Such a lane need not be over: the turn of the witness holds a
  queued lane after its completion.\<close>

theorem completed_turn_grows_by_hops:
  assumes "reachable rfc3339 r" "apply_event rfc3339 e r = (Ok d, r1)" "ev_kind e = ''turn.completed''"
    and "events_by_id r (ev_event_id e) = None" "apply_all rfc3339 es r1 = Some r2"
  shows "(\<exists>t. turn r2 (ev_turn_id e) = Some t \<and> tn_completed_at t = Some (ev_occurred_at e))
    \<and> (\<forall>l \<in> set (turn_lanes r1 (ev_turn_id e)).
          terminal (ln_phase l) \<and> l \<in> set (turn_lanes r2 (ev_turn_id e)))
    \<and> (\<forall>l \<in> set (turn_lanes r2 (ev_turn_id e)) - set (turn_lanes r1 (ev_turn_id e)).
          lanes r1 (ln_id l) = None \<and> ln_origin l = OriginAgent
          \<and> (\<exists>h. map_option (hop r2) (ln_hop_id l) = Some (Some h) \<and> hp_disposition h = Dispatched
               \<and> hp_turn_id h = ev_turn_id e \<and> hp_to_agent h = ln_agent l))"
proof -
  obtain t where t: "turn r1 (ev_turn_id e) = Some t" "tn_completed_at t = Some (ev_occurred_at e)"
    and over: "\<And>l. l \<in> set (turn_lanes r1 (ev_turn_id e)) \<Longrightarrow> terminal (ln_phase l)"
    using complete_turn_facts [OF assms(1-4)] by blast
  have r1: "reachable rfc3339 r1" by (rule reachable.applied [OF assms(1,2)])
  note wf1 = room_wfD [OF reachable_room_wf [OF r1]]
  note wf2 = room_wfD [OF reachable_room_wf [OF apply_all_reachable [OF r1 assms(5)]]]
  note in1 = turn_lanes_set [OF wf1(1,4)] and in2 = turn_lanes_set [OF wf2(1,4)]
  have kept: "l \<in> set (turn_lanes r2 (ev_turn_id e))" if "l \<in> set (turn_lanes r1 (ev_turn_id e))" for l
  proof -
    have l1: "ln_turn_id l = ev_turn_id e" "lanes r1 (ln_id l) = Some l" using that in1 [of l] by simp_all
    with lane_kept_by_run [OF r1 assms(5) l1(2)] over [OF that] have "lanes r2 (ln_id l) = Some l" by auto
    with l1(1) in2 [of l] show ?thesis by simp
  qed
  have grown: "lanes r1 (ln_id l) = None \<and> ln_origin l = OriginAgent
      \<and> (\<exists>h. map_option (hop r2) (ln_hop_id l) = Some (Some h) \<and> hp_disposition h = Dispatched
           \<and> hp_turn_id h = ev_turn_id e \<and> hp_to_agent h = ln_agent l)"
    if l: "l \<in> set (turn_lanes r2 (ev_turn_id e))" "l \<notin> set (turn_lanes r1 (ev_turn_id e))" for l
  proof -
    have l2: "lanes r2 (ln_id l) = Some l" "ln_turn_id l = ev_turn_id e" using l(1) in2 [of l] by simp_all
    have new: "lanes r1 (ln_id l) \<noteq> Some l" using l(2) l2(2) in1 [of l] by simp
    have old: "lanes r1 (ln_id l) = Some l" if "lanes r1 (ln_id l) = Some l0" for l0
    proof -
      have id0: "ln_id l0 = ln_id l" by (rule well_ordered_key [OF tables_okD(1) [OF wf1(1)] that])
      from lane_kept_by_run [OF r1 assms(5) that]
      obtain l' where l': "lanes r2 (ln_id l) = Some l'" "lane_identity l0 l'"
        "terminal (ln_phase l0) \<longrightarrow> l' = l0" by blast
      from l'(1) l2(1) have "l' = l" by simp
      with l'(2) l2(2) have turn0: "ln_turn_id l0 = ev_turn_id e" by (simp add: lane_identity_def)
      with in1 [of l0] id0 that have "terminal (ln_phase l0)" by (intro over) simp
      with l'(3) \<open>l' = l\<close> that show ?thesis by simp
    qed
    have "ln_origin l \<noteq> OriginOperator"
      using completed_operator_lane [OF r1 assms(5) t(1) _ l2] t(2) new by auto
    then have origin: "ln_origin l = OriginAgent" by (cases "ln_origin l") simp_all
    then have "hop_lane r2 l"
      using wf2(9) l2(1) by (auto simp: sources_ok_def lane_sourced_def)
    with l2(2) origin old new show ?thesis by (cases "lanes r1 (ln_id l)") (auto simp: hop_lane_def)
  qed
  have "\<exists>t. turn r2 (ev_turn_id e) = Some t \<and> tn_completed_at t = Some (ev_occurred_at e)"
    using turn_life [OF r1 assms(5) t(1)] t(2) by (auto simp: turn_moves_def)
  with over kept grown show ?thesis by blast
qed

lemma hopping_split:
  "hopping = take 6 hopping @ hopping ! 6 # [hopping ! 7]" "ev_kind (hopping ! 6) = ''turn.completed''"
  "ev_turn_id (hopping ! 6) = ''t''"
  by (simp_all add: hopping_def first_events_def sample_event_def)

lemma before_completion:
  "case apply_all (\<lambda>_. True) (take 6 hopping) new_reducer of None \<Rightarrow> False
   | Some r \<Rightarrow> events_by_id r (ev_event_id (hopping ! 6)) = None"
  unfolding hopping_def first_events_def new_reducer_def
  by (simp add: event_eval handler_eval)

lemma completed_turn_grows_by_hops_witness:
  "\<exists>r d r1 r2 l (h :: hop_state). reachable (\<lambda>_. True) r \<and> apply_event (\<lambda>_. True) (hopping ! 6) r = (Ok d, r1)
     \<and> apply_all (\<lambda>_. True) [hopping ! 7] r1 = Some r2
     \<and> l \<in> set (turn_lanes r2 ''t'') \<and> l \<notin> set (turn_lanes r1 ''t'') \<and> ln_phase l = Queued
     \<and> ln_origin l = OriginAgent \<and> hp_disposition h = Dispatched \<and> hp_to_agent h = ln_agent l"
proof -
  have "apply_all (\<lambda>_. True) (take 6 hopping @ hopping ! 6 # [hopping ! 7]) new_reducer
      = Some (room_after hopping)"
    using room_after_run [OF conversations_accepted(2)] hopping_split(1) by simp
  then obtain r where r: "apply_all (\<lambda>_. True) (take 6 hopping) new_reducer = Some r"
    and rest: "apply_all (\<lambda>_. True) (hopping ! 6 # [hopping ! 7]) r = Some (room_after hopping)"
    unfolding apply_all_append bind_eq_Some_conv append_Cons append_Nil by blast
  from rest [unfolded apply_all_Cons [where e = "hopping ! 6"]] obtain d r1
    where e: "apply_event (\<lambda>_. True) (hopping ! 6) r = (Ok d, r1)"
    and r2: "apply_all (\<lambda>_. True) [hopping ! 7] r1 = Some (room_after hopping)" by blast
  have reach: "reachable (\<lambda>_. True) r" by (rule run_reachable [OF r])
  have new: "events_by_id r (ev_event_id (hopping ! 6)) = None" using before_completion r by simp
  note grows = completed_turn_grows_by_hops [OF reach e hopping_split(2) new r2, unfolded hopping_split(3)]
  from hopped_room obtain l where l: "lanes (room_after hopping) ''k'' = Some l" "ln_phase l = Queued"
    "ln_turn_id l = ''t''" by auto
  note wf = room_wfD [OF reachable_room_wf [OF hopped]]
  have "ln_id l = ''k''" by (rule well_ordered_key [OF tables_okD(1) [OF wf(1)] l(1)])
  then have l2: "l \<in> set (turn_lanes (room_after hopping) ''t'')"
    using turn_lanes_set [OF wf(1,4)] l by simp
  have "\<not> terminal (ln_phase l)" using l(2) by (simp add: terminal_def)
  then have l1: "l \<notin> set (turn_lanes r1 ''t'')" using grows by blast
  with l2 have "l \<in> set (turn_lanes (room_after hopping) ''t'') - set (turn_lanes r1 ''t'')" by simp
  from bspec [OF grows [THEN conjunct2, THEN conjunct2] this] obtain h :: hop_state where
    "ln_origin l = OriginAgent" "hp_disposition h = Dispatched" "hp_to_agent h = ln_agent l" by blast
  with l1 l2 l(2) reach e r2 show ?thesis by (intro exI [of _ r] exI [of _ d] exI [of _ r1] exI) blast
qed

end
