(* ===== verification/Room_JsonRpc.thy ===== *)
theory Room_JsonRpc
  imports Room_Event
begin

section \<open>JSON-RPC envelopes\<close>

text \<open>
  \<open>jsonrpc.rs\<close>: identifiers, requests, responses and notifications with their hand-written and
  derived \<open>Serialize\<close> and \<open>Deserialize\<close>, between \<open>serde_json::Value\<close> and the Rust types.
  \<open>None\<close> is serde's error, whose text is not modelled. Objects are written with their keys in
  order, as everywhere in this development.
\<close>

subsection \<open>Version and identifiers\<close>

definition json_rpc_version_to_json :: json where
  "json_rpc_version_to_json = JString ''2.0''"

definition json_rpc_version_of_json :: "json \<Rightarrow> unit option" where
  "json_rpc_version_of_json v = (if as_str v = Some ''2.0'' then Some () else None)"

datatype json_rpc_id = IdString string | IdNumber json_number

text \<open>\<open>unsigned_abs\<close> of an \<open>i64\<close> is its absolute value.\<close>

definition is_safe_number :: "json_number \<Rightarrow> bool" where
  "is_safe_number n \<longleftrightarrow>
     (case number_as_i64 n of Some i \<Rightarrow> \<bar>i\<bar> \<le> 9007199254740991 | None \<Rightarrow> False)
     \<or> (case number_as_u64 n of Some u \<Rightarrow> u \<le> 9007199254740991 | None \<Rightarrow> False)"

fun json_rpc_id_to_json :: "json_rpc_id \<Rightarrow> json option" where
  "json_rpc_id_to_json (IdString s) = Some (JString s)"
| "json_rpc_id_to_json (IdNumber n) = (if is_safe_number n then Some (JNumber n) else None)"

fun json_rpc_id_of_json :: "json \<Rightarrow> json_rpc_id option" where
  "json_rpc_id_of_json (JString s) = Some (IdString s)"
| "json_rpc_id_of_json (JNumber n) = (if is_safe_number n then Some (IdNumber n) else None)"
| "json_rpc_id_of_json _ = None"

datatype json_rpc_response_id = ResponseId json_rpc_id | ResponseNull

fun response_id_to_json :: "json_rpc_response_id \<Rightarrow> json option" where
  "response_id_to_json (ResponseId i) = json_rpc_id_to_json i"
| "response_id_to_json ResponseNull = Some JNull"

definition response_id_of_json :: "json \<Rightarrow> json_rpc_response_id option" where
  "response_id_of_json v =
     (if v = JNull then Some ResponseNull else map_option ResponseId (json_rpc_id_of_json v))"

subsection \<open>Requests\<close>

record json_rpc_request =
  rq_id :: json_rpc_id
  rq_method :: string
  rq_params :: json

definition object_value :: "json \<Rightarrow> json option" where
  "object_value v = (if as_object v \<noteq> None then Some v else None)"

definition request_to_json :: "json_rpc_request \<Rightarrow> json option" where
  "request_to_json rq =
     do {
       i \<leftarrow> json_rpc_id_to_json (rq_id rq);
       params \<leftarrow> object_value (rq_params rq);
       Some (JObject [(''id'', i), (''jsonrpc'', json_rpc_version_to_json),
                      (''method'', JString (rq_method rq)), (''params'', params)])
     }"

definition request_of_json :: "json \<Rightarrow> json_rpc_request option" where
  "request_of_json v =
     do {
       fs \<leftarrow> struct_fields [''jsonrpc'', ''id'', ''method'', ''params''] v;
       _ \<leftarrow> Option.bind (fs ! 0) json_rpc_version_of_json;
       i \<leftarrow> Option.bind (fs ! 1) json_rpc_id_of_json;
       method \<leftarrow> Option.bind (fs ! 2) as_str;
       params \<leftarrow> Option.bind (fs ! 3) object_value;
       Some \<lparr>rq_id = i, rq_method = method, rq_params = params\<rparr>
     }"

subsection \<open>Responses\<close>

text \<open>\<open>code: i32\<close>; an \<open>Option\<close> field reads \<open>null\<close> as \<open>None\<close> and is left out when \<open>None\<close>.\<close>

record json_rpc_error =
  er_code :: "32 word"
  er_message :: string
  er_data :: "json option"

fun i32_of_json :: "json \<Rightarrow> 32 word option" where
  "i32_of_json (JNumber (PosInt n)) = (if uint n < 2 ^ 31 then Some (word_of_int (uint n)) else None)"
| "i32_of_json (JNumber (NegInt i)) =
     (if - (2 ^ 31) \<le> i \<and> i < 2 ^ 31 then Some (word_of_int i) else None)"
| "i32_of_json _ = None"

definition i32_to_json :: "32 word \<Rightarrow> json" where
  "i32_to_json c = JNumber (if 0 \<le> sint c then PosInt (word_of_int (sint c)) else NegInt (sint c))"

fun option_of_json :: "json option \<Rightarrow> json option" where
  "option_of_json None = None"
| "option_of_json (Some v) = (if v = JNull then None else Some v)"

definition error_to_json :: "json_rpc_error \<Rightarrow> json" where
  "error_to_json er =
     JObject ((''code'', i32_to_json (er_code er))
       # (case er_data er of None \<Rightarrow> [] | Some d \<Rightarrow> [(''data'', d)])
       @ [(''message'', JString (er_message er))])"

definition error_of_json :: "json \<Rightarrow> json_rpc_error option" where
  "error_of_json v =
     do {
       fs \<leftarrow> struct_fields [''code'', ''message'', ''data''] v;
       code \<leftarrow> Option.bind (fs ! 0) i32_of_json;
       message \<leftarrow> Option.bind (fs ! 1) as_str;
       Some \<lparr>er_code = code, er_message = message, er_data = option_of_json (fs ! 2)\<rparr>
     }"

datatype json_rpc_response =
    ResponseSuccess json_rpc_response_id json
  | ResponseError json_rpc_response_id json_rpc_error

definition success_response_of_json :: "json \<Rightarrow> json_rpc_response option" where
  "success_response_of_json v =
     do {
       fs \<leftarrow> struct_fields [''jsonrpc'', ''id'', ''result''] v;
       _ \<leftarrow> Option.bind (fs ! 0) json_rpc_version_of_json;
       i \<leftarrow> Option.bind (fs ! 1) response_id_of_json;
       result \<leftarrow> fs ! 2;
       Some (ResponseSuccess i result)
     }"

definition error_response_of_json :: "json \<Rightarrow> json_rpc_response option" where
  "error_response_of_json v =
     do {
       fs \<leftarrow> struct_fields [''jsonrpc'', ''id'', ''error''] v;
       _ \<leftarrow> Option.bind (fs ! 0) json_rpc_version_of_json;
       i \<leftarrow> Option.bind (fs ! 1) response_id_of_json;
       er \<leftarrow> Option.bind (fs ! 2) error_of_json;
       Some (ResponseError i er)
     }"

text \<open>An untagged enum tries its variants in order.\<close>

definition response_of_json :: "json \<Rightarrow> json_rpc_response option" where
  "response_of_json v =
     (case success_response_of_json v of Some r \<Rightarrow> Some r | None \<Rightarrow> error_response_of_json v)"

fun response_to_json :: "json_rpc_response \<Rightarrow> json option" where
  "response_to_json (ResponseSuccess i result) =
     map_option (\<lambda>i'. JObject [(''id'', i'), (''jsonrpc'', json_rpc_version_to_json), (''result'', result)])
       (response_id_to_json i)"
| "response_to_json (ResponseError i er) =
     map_option (\<lambda>i'. JObject [(''error'', error_to_json er), (''id'', i'),
         (''jsonrpc'', json_rpc_version_to_json)])
       (response_id_to_json i)"

subsection \<open>Notifications and frames\<close>

definition notification_method_to_json :: json where
  "notification_method_to_json = JString ''zer0/room/event''"

definition notification_method_of_json :: "json \<Rightarrow> unit option" where
  "notification_method_of_json v = (if as_str v = Some ''zer0/room/event'' then Some () else None)"

text \<open>The derived \<open>Serialize\<close> of \<open>RoomEvent\<close>.\<close>

definition room_event_to_json :: "room_event \<Rightarrow> json" where
  "room_event_to_json e =
     JObject [(''eventId'', JString (ev_event_id e)), (''eventSeq'', JString (ev_event_seq e)),
       (''occurredAt'', JString (ev_occurred_at e)), (''payload'', ev_payload e),
       (''protocol'', JString (ev_protocol e)), (''sessionId'', JString (ev_session_id e)),
       (''turnId'', JString (ev_turn_id e)), (''type'', JString (ev_kind e)),
       (''version'', JNumber (PosInt (ev_version e)))]"

fun result_option :: "('e, 'a) result \<Rightarrow> 'a option" where
  "result_option (Ok a) = Some a"
| "result_option _ = None"

lemma result_option_eq_Some [simp]: "result_option m = Some a \<longleftrightarrow> m = Ok a"
  by (cases m) auto

definition notification_of_json ::
  "(string \<Rightarrow> bool) \<Rightarrow> (json \<Rightarrow> string) \<Rightarrow> json \<Rightarrow> room_event option" where
  "notification_of_json rfc3339 serde_err v =
     do {
       fs \<leftarrow> struct_fields [''jsonrpc'', ''method'', ''params''] v;
       _ \<leftarrow> Option.bind (fs ! 0) json_rpc_version_of_json;
       _ \<leftarrow> Option.bind (fs ! 1) notification_method_of_json;
       Option.bind (fs ! 2) (\<lambda>params. result_option (from_value rfc3339 serde_err params))
     }"

definition notification_to_json :: "room_event \<Rightarrow> json" where
  "notification_to_json e =
     JObject [(''jsonrpc'', json_rpc_version_to_json), (''method'', notification_method_to_json),
       (''params'', room_event_to_json e)]"

datatype server_frame = EventFrame room_event | ResponseFrame json_rpc_response

definition frame_of_json ::
  "(string \<Rightarrow> bool) \<Rightarrow> (json \<Rightarrow> string) \<Rightarrow> json \<Rightarrow> server_frame option" where
  "frame_of_json rfc3339 serde_err v =
     Option.bind (as_object v) (\<lambda>m.
       if contains_key m ''method''
       then map_option EventFrame (notification_of_json rfc3339 serde_err v)
       else map_option ResponseFrame (response_of_json v))"

fun frame_to_json :: "server_frame \<Rightarrow> json option" where
  "frame_to_json (EventFrame e) = Some (notification_to_json e)"
| "frame_to_json (ResponseFrame r) = response_to_json r"

text \<open>\<open>parse_json\<close> is \<open>serde_json::from_slice\<close>, from bytes to a value.\<close>

definition decode_server_frame ::
  "(string \<Rightarrow> bool) \<Rightarrow> (json \<Rightarrow> string) \<Rightarrow> (string \<Rightarrow> json option) \<Rightarrow> string \<Rightarrow> server_frame option" where
  "decode_server_frame rfc3339 serde_err parse_json bytes =
     Option.bind (parse_json bytes) (frame_of_json rfc3339 serde_err)"

subsection \<open>Round trips\<close>

lemma version_round_trip [simp]: "json_rpc_version_of_json json_rpc_version_to_json = Some ()"
  by (simp add: json_rpc_version_of_json_def json_rpc_version_to_json_def)

lemma method_round_trip [simp]: "notification_method_of_json notification_method_to_json = Some ()"
  by (simp add: notification_method_of_json_def notification_method_to_json_def)

lemma id_round_trip: "json_rpc_id_to_json i = Some v \<Longrightarrow> json_rpc_id_of_json v = Some i"
  by (cases i) (auto split: if_splits)

lemma response_id_round_trip: "response_id_to_json i = Some v \<Longrightarrow> response_id_of_json v = Some i"
proof (cases i)
  case (ResponseId j)
  moreover assume "response_id_to_json i = Some v"
  ultimately have "json_rpc_id_of_json v = Some j" using id_round_trip by simp
  moreover from this have "v \<noteq> JNull" by auto
  ultimately show ?thesis using ResponseId by (simp add: response_id_of_json_def)
qed (simp add: response_id_of_json_def)

lemma u64_of_nonneg:
  assumes "0 \<le> k" and "k < 2 ^ 31"
  shows "uint (word_of_int k :: u64) = k"
  using assms by (simp add: uint_word_of_int)

lemma i32_round_trip [simp]: "i32_of_json (i32_to_json c) = Some c"
proof -
  have "- (2 ^ 31) \<le> sint c" and "sint c < 2 ^ 31"
    using sint_ge [of c] sint_lt [of c] by simp_all
  moreover obtain k where "k = sint c" and "word_of_int k = c"
    by (rule that [of "sint c"]) simp_all
  ultimately show ?thesis
    using u64_of_nonneg [of k] by (cases "0 \<le> k") (auto simp: i32_to_json_def)
qed

lemma room_event_round_trip [simp]: "room_event_of_json (room_event_to_json e) = Some e"
  by (simp add: room_event_of_json_def room_event_to_json_def struct_fields_def room_event_fields_def
      keys_def)

text \<open>Encoding loses one distinction: error data that is an explicit \<open>null\<close>.\<close>

definition plain_error :: "json_rpc_error \<Rightarrow> json_rpc_error" where
  "plain_error er = er\<lparr>er_data := option_of_json (er_data er)\<rparr>"

fun plain_frame :: "server_frame \<Rightarrow> server_frame" where
  "plain_frame (ResponseFrame (ResponseError i er)) = ResponseFrame (ResponseError i (plain_error er))"
| "plain_frame f = f"

lemma error_round_trip: "error_of_json (error_to_json er) = Some (plain_error er)"
  by (cases "er_data er")
    (simp_all add: error_of_json_def error_to_json_def struct_fields_def keys_def plain_error_def)

lemma success_not_error:
  "success_response_of_json (JObject [(''error'', x), (''id'', y), (''jsonrpc'', z)]) = None"
  by (simp add: success_response_of_json_def struct_fields_def keys_def)

lemma response_round_trip:
  assumes "response_to_json r = Some v"
  shows "map_option ResponseFrame (response_of_json v) = Some (plain_frame (ResponseFrame r))"
proof (cases r)
  case (ResponseSuccess i result)
  with assms obtain j where "response_id_of_json j = Some i"
    "v = JObject [(''id'', j), (''jsonrpc'', json_rpc_version_to_json), (''result'', result)]"
    using response_id_round_trip by auto
  with ResponseSuccess show ?thesis
    by (simp add: response_of_json_def success_response_of_json_def struct_fields_def keys_def)
next
  case (ResponseError i er)
  with assms obtain j where "response_id_of_json j = Some i"
    "v = JObject [(''error'', error_to_json er), (''id'', j), (''jsonrpc'', json_rpc_version_to_json)]"
    using response_id_round_trip by auto
  with ResponseError show ?thesis
    by (simp add: response_of_json_def success_not_error error_response_of_json_def struct_fields_def
        keys_def error_round_trip)
qed

lemma from_value_round_trip:
  "validate rfc3339 e = Ok () \<Longrightarrow> from_value rfc3339 serde_err (room_event_to_json e) = Ok e"
  by (simp add: from_value_def)

lemma notification_round_trip:
  "validate rfc3339 e = Ok () \<Longrightarrow>
   notification_of_json rfc3339 serde_err (notification_to_json e) = Some e"
  by (simp add: notification_of_json_def notification_to_json_def struct_fields_def keys_def
      from_value_round_trip)

end
