(* ===== verification/Room_Transport.thy ===== *)
theory Room_Transport
  imports Room_JsonRpc Room_Handlers
begin

section \<open>The room transport\<close>

text \<open>
  \<open>transport.rs\<close>: what stands between the host's output and the reducer. It waits for the
  readiness event, asks for the journal after its frontier, buffers the live events that arrive
  meanwhile, merges them with the pages of the answer, and then applies events as they come;
  a gap sends it back to asking, and anything the protocol does not allow freezes it.

  Parameters: \<open>rfc3339\<close> (the date check), \<open>serde_err\<close> (the text of a decoding error),
  \<open>event_size\<close> (the length of an event printed as JSON), \<open>parse_json\<close> (the JSON parser, with its
  error text) and \<open>frame_err\<close> (the text of a frame decoding error). Lengths are \<open>usize\<close>, 64 bits.
\<close>

subsection \<open>Frames\<close>

definition MAX_FRAME_BYTES :: nat where
  "MAX_FRAME_BYTES = 1048576"

definition MAX_FRAME_CONTENT_BYTES :: nat where
  "MAX_FRAME_CONTENT_BYTES = MAX_FRAME_BYTES - 1"

definition MAX_BUFFERED_RESYNC_EVENTS :: nat where
  "MAX_BUFFERED_RESYNC_EVENTS = 4096"

definition MAX_BUFFERED_RESYNC_BYTES :: u64 where
  "MAX_BUFFERED_RESYNC_BYTES = 16 * 1024 * 1024"

datatype transport_error =
    DuplicateConflict string
  | FatalError string
  | InvalidFrame string
  | InvalidResponse string
  | InvalidUtf8
  | OversizedFrame nat
  | ProtocolFailure protocol_error

fun display_transport_error :: "transport_error \<Rightarrow> string" where
  "display_transport_error (DuplicateConflict event_id) =
     ''conflicting duplicate room event id: '' @ event_id"
| "display_transport_error (FatalError message) = ''fatal room transport error: '' @ message"
| "display_transport_error (InvalidFrame message) = ''invalid strict stdout frame: '' @ message"
| "display_transport_error (InvalidResponse message) = ''invalid room response: '' @ message"
| "display_transport_error InvalidUtf8 = ''stdout frame is not UTF-8''"
| "display_transport_error (OversizedFrame bytes) = ''stdout frame exceeds 1 MiB: '' @ show_nat bytes"
| "display_transport_error (ProtocolFailure error) =
     ''room protocol error: '' @ display_protocol_error error"

definition validate_frame_content ::
  "(string \<Rightarrow> (string, json) result) \<Rightarrow> string \<Rightarrow> (transport_error, unit) result" where
  "validate_frame_content parse_json bytes =
     (if length bytes > MAX_FRAME_CONTENT_BYTES then Err (OversizedFrame (length bytes))
      else if \<not> utf8_valid (bytes_of bytes) then Err InvalidUtf8
      else map_err InvalidFrame (tryR (parse_json bytes) (\<lambda>_. Ok ())))"

definition classify_frame ::
  "(string \<Rightarrow> bool) \<Rightarrow> (json \<Rightarrow> string) \<Rightarrow> (string \<Rightarrow> (string, json) result) \<Rightarrow> (string \<Rightarrow> string) \<Rightarrow>
   string \<Rightarrow> (transport_error, server_frame) result" where
  "classify_frame rfc3339 serde_err parse_json frame_err bytes =
     tryR (validate_frame_content parse_json bytes) (\<lambda>_.
       ok_or (decode_server_frame rfc3339 serde_err (\<lambda>b. result_option (parse_json b)) bytes)
         (InvalidFrame (frame_err bytes)))"

subsection \<open>State\<close>

datatype sync_phase = AwaitingReadiness | Resyncing | Live | Fatal

datatype transport_action =
  RequestResync (request_id: string) (resync_session_id: string) (after_event_seq: string)

record transport_effects =
  fx_actions :: "transport_action list"
  fx_applied_events :: "room_event list"
  fx_readiness :: "room_event option"

definition no_effects :: transport_effects where
  "no_effects = \<lparr>fx_actions = [], fx_applied_events = [], fx_readiness = None\<rparr>"

record room_transport =
  tr_reducer :: reducer
  tr_phase :: sync_phase
  tr_readiness :: "room_event option"
  tr_buffered :: "room_event list"
  tr_buffered_bytes :: u64
  tr_request_counter :: u64
  tr_pending_resync_id :: "string option"

type_synonym 'a transported = "(room_transport, transport_error, 'a) outcome"

definition new_transport :: room_transport where
  "new_transport =
     \<lparr>tr_reducer = new_reducer, tr_phase = AwaitingReadiness, tr_readiness = None,
      tr_buffered = [], tr_buffered_bytes = 0, tr_request_counter = 0, tr_pending_resync_id = None\<rparr>"

subsection \<open>Freezing, and the guards of an event\<close>

definition fatal :: "string \<Rightarrow> room_transport \<Rightarrow> 'a transported" where
  "fatal message t = (Err (FatalError message), t\<lparr>tr_phase := Fatal\<rparr>)"

text \<open>\<open>m.or_else(|error| self.fatal(\<dots>))?\<close>.\<close>

fun or_fatal ::
  "('e \<Rightarrow> string) \<Rightarrow> ('e, 'a) result \<Rightarrow> room_transport \<Rightarrow> ('a \<Rightarrow> 'b transported) \<Rightarrow> 'b transported" where
  "or_fatal text_of (Ok a) t k = k a"
| "or_fatal text_of (Err e) t k = fatal (text_of e) t"
| "or_fatal text_of (Panic m) t k = (Panic m, t)"

definition ensure_event_session :: "room_event \<Rightarrow> room_transport \<Rightarrow> unit transported" where
  "ensure_event_session event t =
     (case session_id (tr_reducer t) of
        None \<Rightarrow> fatal ''room event arrived before session readiness'' t
      | Some sid \<Rightarrow>
          if sid \<noteq> ev_session_id event
          then fatal (''room event session mismatch: expected '' @ sid @ '', got ''
                      @ ev_session_id event) t
          else (Ok (), t))"

definition validate_ordinary_event :: "room_event \<Rightarrow> room_transport \<Rightarrow> unit transported" where
  "validate_ordinary_event event t =
     (if ev_event_seq event = ''0'' \<or> ev_kind event = ''session.saved''
      then fatal ''resync cannot contain readiness or session.saved events'' t
      else (Ok (), t))"

text \<open>The counter is a \<open>u64\<close>; its \<open>+= 1\<close> wraps, as the release build does.\<close>

definition begin_resync :: "room_transport \<Rightarrow> transport_action transported" where
  "begin_resync t =
     (let counter = tr_request_counter t + 1;
          rid = ''room-resync-'' @ show_nat (unat counter);
          t1 = t\<lparr>tr_phase := Resyncing, tr_request_counter := counter,
                 tr_pending_resync_id := Some rid\<rparr>
      in tryS (ok_or (session_id (tr_reducer t1))
                 (FatalError ''resync requested without readiness session'')) t1 (\<lambda>sid.
           (Ok (RequestResync rid sid (last_event_seq (tr_reducer t1))), t1)))"

subsection \<open>The buffer\<close>

definition checked_add :: "u64 \<Rightarrow> u64 \<Rightarrow> u64 option" where
  "checked_add a b = (if unat a + unat b < 2 ^ 64 then Some (a + b) else None)"

definition buffer_event :: "(room_event \<Rightarrow> u64) \<Rightarrow> room_event \<Rightarrow> room_transport \<Rightarrow> unit transported" where
  "buffer_event event_size event t =
     (if length (tr_buffered t) \<ge> MAX_BUFFERED_RESYNC_EVENTS
      then fatal ''room resync event buffer exceeded its event limit'' t
      else
        tryS (ok_or (checked_add (tr_buffered_bytes t) (event_size event))
                (FatalError ''room resync byte counter overflowed'')) t (\<lambda>next_bytes.
        if next_bytes > MAX_BUFFERED_RESYNC_BYTES
        then fatal ''room resync event buffer exceeded its byte limit'' t
        else (Ok (), t\<lparr>tr_buffered := tr_buffered t @ [event], tr_buffered_bytes := next_bytes\<rparr>)))"

definition prune_buffered_events_already_applied ::
  "(room_event \<Rightarrow> u64) \<Rightarrow> room_transport \<Rightarrow> room_transport" where
  "prune_buffered_events_already_applied event_size t =
     (let kept = filter (\<lambda>event. \<not> has_event_id (tr_reducer t) (ev_event_id event)) (tr_buffered t)
      in t\<lparr>tr_buffered := kept, tr_buffered_bytes := sum_list (map event_size kept)\<rparr>)"

subsection \<open>Merging a page with the buffer\<close>

text \<open>
  \<open>sort_by\<close> is stable; its comparator panics on a sequence that is not decimal. Inserting from
  the right, each event before the ones it is not greater than, is that sort.
\<close>

fun insert_event :: "room_event \<Rightarrow> room_event list \<Rightarrow> (transport_error, room_event list) result" where
  "insert_event event [] = Ok [event]"
| "insert_event event (other # rest) =
     (case decimal_cmp (ev_event_seq event) (ev_event_seq other) of
        Ok order \<Rightarrow>
          if order = Greater
          then tryR (insert_event event rest) (\<lambda>rest'. Ok (other # rest'))
          else Ok (event # other # rest)
      | _ \<Rightarrow> Panic ''RoomEvent validation already checked decimal event sequences'')"

fun sort_events :: "room_event list \<Rightarrow> (transport_error, room_event list) result" where
  "sort_events [] = Ok []"
| "sort_events (event # rest) = tryR (sort_events rest) (insert_event event)"

fun merge_loop ::
  "(string \<Rightarrow> room_event option) \<Rightarrow> room_event list \<Rightarrow> room_event list \<Rightarrow>
   (transport_error, room_event list) result" where
  "merge_loop by_id merged [] = Ok merged"
| "merge_loop by_id merged (event # rest) =
     (case by_id (ev_event_id event) of
        Some previous \<Rightarrow>
          if previous = event then merge_loop by_id merged rest
          else Err (DuplicateConflict (ev_event_id event))
      | None \<Rightarrow>
          merge_loop (by_id(ev_event_id event \<mapsto> event)) (merged @ [event]) rest)"

definition merge_events ::
  "room_event list \<Rightarrow> room_event list \<Rightarrow> (transport_error, room_event list) result" where
  "merge_events replay buffered =
     tryR (sort_events (replay @ buffered)) (merge_loop Map.empty [])"

subsection \<open>The answer to a resync request\<close>

fun response_string_id :: "json_rpc_response \<Rightarrow> string option" where
  "response_string_id (ResponseSuccess (ResponseId (IdString i)) result) = Some i"
| "response_string_id (ResponseError (ResponseId (IdString i)) er) = Some i"
| "response_string_id _ = None"

record resync_page =
  pg_events :: "room_event list"
  pg_has_more :: bool

definition resync_page_from_result ::
  "(string \<Rightarrow> bool) \<Rightarrow> (json \<Rightarrow> string) \<Rightarrow> json \<Rightarrow> (transport_error, resync_page) result" where
  "resync_page_from_result rfc3339 serde_err v =
     tryR (ok_or (opt_filter (\<lambda>m. length m = 1
                    \<or> length m = 2 \<and> contains_key m ''events'' \<and> contains_key m ''hasMore'')
                   (as_object v))
            (InvalidResponse ''resync result must be exactly {events:[...]} or {events:[...],hasMore:boolean}''))
       (\<lambda>object.
     tryR (ok_or (Option.bind (get object ''events'') as_array)
            (InvalidResponse ''resync events must be an array'')) (\<lambda>values.
     tryR (map_err ProtocolFailure (collect_results (from_value rfc3339 serde_err) values)) (\<lambda>events.
     tryR (case get object ''hasMore'' of
             None \<Rightarrow> Ok False
           | Some flag \<Rightarrow> ok_or (as_bool flag) (InvalidResponse ''resync hasMore must be a boolean''))
       (\<lambda>has_more. Ok \<lparr>pg_events = events, pg_has_more = has_more\<rparr>))))"

fun apply_replay_events ::
  "(string \<Rightarrow> bool) \<Rightarrow> room_event list \<Rightarrow> room_event list \<Rightarrow> room_transport \<Rightarrow>
   room_event list transported" where
  "apply_replay_events rfc3339 applied [] t = (Ok applied, t)"
| "apply_replay_events rfc3339 applied (event # rest) t =
     bindS (validate_ordinary_event event t) (\<lambda>_ t1.
     bindS (ensure_event_session event t1) (\<lambda>_ t2.
     let is_new = \<not> has_event_id (tr_reducer t2) (ev_event_id event) in
     case apply_event rfc3339 event (tr_reducer t2) of
       (Ok delta, r) \<Rightarrow>
         apply_replay_events rfc3339 (if is_new then applied @ [event] else applied) rest
           (t2\<lparr>tr_reducer := r\<rparr>)
     | (Err error, r) \<Rightarrow>
         fatal (''resync did not repair the journal: '' @ display_protocol_error error)
           (t2\<lparr>tr_reducer := r\<rparr>)
     | (Panic m, r) \<Rightarrow> (Panic m, t2\<lparr>tr_reducer := r\<rparr>)))"

text \<open>
  The rest of \<open>ingest_response\<close> once the page is read: a page with more to come, whose replay must
  advance the frontier before the next request, or the final one, merged with the buffer.
\<close>

definition request_next_page ::
  "(room_event \<Rightarrow> u64) \<Rightarrow> string \<Rightarrow> room_event list \<Rightarrow> room_transport \<Rightarrow>
   transport_effects transported" where
  "request_next_page event_size previous_frontier applied t =
     (case decimal_cmp (last_event_seq (tr_reducer t)) previous_frontier of
        Ok order \<Rightarrow>
          if order \<noteq> Greater
          then fatal ''paginated room resync did not advance the event frontier'' t
          else
            bindS (begin_resync (prune_buffered_events_already_applied event_size t)) (\<lambda>action t1.
              (Ok (no_effects\<lparr>fx_actions := [action], fx_applied_events := applied\<rparr>), t1))
      | _ \<Rightarrow> (Panic ''validated decimal reducer frontiers'', t))"

definition ingest_partial_page ::
  "(string \<Rightarrow> bool) \<Rightarrow> (room_event \<Rightarrow> u64) \<Rightarrow> room_event list \<Rightarrow> room_transport \<Rightarrow>
   transport_effects transported" where
  "ingest_partial_page rfc3339 event_size page_events t =
     (if page_events = []
      then fatal ''paginated room resync returned an empty non-final page'' t
      else
        let previous_frontier = last_event_seq (tr_reducer t) in
        or_fatal display_transport_error (merge_events page_events []) t (\<lambda>events.
        bindS (apply_replay_events rfc3339 [] events t) (request_next_page event_size previous_frontier)))"

definition ingest_final_page ::
  "(string \<Rightarrow> bool) \<Rightarrow> room_event list \<Rightarrow> room_transport \<Rightarrow> transport_effects transported" where
  "ingest_final_page rfc3339 page_events t =
     (let buffered = tr_buffered t; t1 = t\<lparr>tr_buffered := [], tr_buffered_bytes := 0\<rparr> in
      or_fatal display_transport_error (merge_events page_events buffered) t1 (\<lambda>events.
      bindS (apply_replay_events rfc3339 [] events t1) (\<lambda>applied t2.
        (Ok (no_effects\<lparr>fx_applied_events := applied\<rparr>),
         t2\<lparr>tr_phase := Live, tr_pending_resync_id := None\<rparr>))))"

definition ingest_page ::
  "(string \<Rightarrow> bool) \<Rightarrow> (room_event \<Rightarrow> u64) \<Rightarrow> resync_page \<Rightarrow> room_transport \<Rightarrow>
   transport_effects transported" where
  "ingest_page rfc3339 event_size page t =
     (if pg_has_more page then ingest_partial_page rfc3339 event_size (pg_events page) t
      else ingest_final_page rfc3339 (pg_events page) t)"

definition ingest_response ::
  "(string \<Rightarrow> bool) \<Rightarrow> (json \<Rightarrow> string) \<Rightarrow> (room_event \<Rightarrow> u64) \<Rightarrow> json_rpc_response \<Rightarrow>
   room_transport \<Rightarrow> transport_effects transported" where
  "ingest_response rfc3339 serde_err event_size response t =
     (case response_string_id response of
        None \<Rightarrow> (Ok no_effects, t)
      | Some response_id \<Rightarrow>
          if tr_phase t \<noteq> Resyncing \<or> tr_pending_resync_id t \<noteq> Some response_id
          then (Ok no_effects, t)
          else
            (case response of
               ResponseError i er \<Rightarrow> fatal ''room resync returned an error response'' t
             | ResponseSuccess i result \<Rightarrow>
                 or_fatal display_transport_error
                   (resync_page_from_result rfc3339 serde_err result) t (\<lambda>page.
                   ingest_page rfc3339 event_size page t)))"

subsection \<open>Events\<close>

definition ingest_readiness :: "room_event \<Rightarrow> room_transport \<Rightarrow> transport_effects transported" where
  "ingest_readiness event t =
     (case tr_readiness t of
        Some previous \<Rightarrow>
          if previous = event then (Ok no_effects, t)
          else fatal ''readiness differs from the canonical sequence-zero event'' t
      | None \<Rightarrow>
          if tr_phase t \<noteq> AwaitingReadiness then fatal ''readiness arrived outside startup'' t
          else
            case bind_session (ev_session_id event) (tr_reducer t) of (bound, r) \<Rightarrow>
              tryS (map_err ProtocolFailure bound) (t\<lparr>tr_reducer := r\<rparr>) (\<lambda>_.
              bindS (begin_resync (t\<lparr>tr_reducer := r, tr_readiness := Some event\<rparr>)) (\<lambda>action t1.
                (Ok (no_effects\<lparr>fx_actions := [action], fx_readiness := Some event\<rparr>), t1))))"

definition apply_live_event ::
  "(string \<Rightarrow> bool) \<Rightarrow> (room_event \<Rightarrow> u64) \<Rightarrow> room_event \<Rightarrow> room_transport \<Rightarrow>
   transport_effects transported" where
  "apply_live_event rfc3339 event_size event t =
     bindS (ensure_event_session event t) (\<lambda>_ t1.
     let is_new = \<not> has_event_id (tr_reducer t1) (ev_event_id event) in
     case apply_event rfc3339 event (tr_reducer t1) of
       (Ok delta, r) \<Rightarrow>
         (Ok (no_effects\<lparr>fx_applied_events := (if is_new then [event] else [])\<rparr>),
          t1\<lparr>tr_reducer := r\<rparr>)
     | (Err (EventGap expected received), r) \<Rightarrow>
         bindS (buffer_event event_size event (t1\<lparr>tr_reducer := r\<rparr>)) (\<lambda>_ t2.
         bindS (begin_resync t2) (\<lambda>action t3. (Ok (no_effects\<lparr>fx_actions := [action]\<rparr>), t3)))
     | (Err error, r) \<Rightarrow> fatal (display_protocol_error error) (t1\<lparr>tr_reducer := r\<rparr>)
     | (Panic m, r) \<Rightarrow> (Panic m, t1\<lparr>tr_reducer := r\<rparr>))"

definition ingest_event ::
  "(string \<Rightarrow> bool) \<Rightarrow> (room_event \<Rightarrow> u64) \<Rightarrow> room_event \<Rightarrow> room_transport \<Rightarrow>
   transport_effects transported" where
  "ingest_event rfc3339 event_size event t =
     (if is_readiness event then ingest_readiness event t
      else if ev_event_seq event = ''0''
      then fatal ''event sequence zero is reserved for exact readiness'' t
      else if ev_kind event = ''session.saved''
      then fatal ''session.saved must be the exact sequence-zero readiness event'' t
      else
        (case tr_phase t of
           AwaitingReadiness \<Rightarrow> fatal ''ordinary room event arrived before readiness'' t
         | Resyncing \<Rightarrow>
             bindS (ensure_event_session event t) (\<lambda>_ t1.
             bindS (buffer_event event_size event t1) (\<lambda>_ t2. (Ok no_effects, t2)))
         | Live \<Rightarrow> apply_live_event rfc3339 event_size event t
         | Fatal \<Rightarrow> (Panic ''fatal phase returned before dispatch'', t)))"

definition ingest_effects ::
  "(string \<Rightarrow> bool) \<Rightarrow> (json \<Rightarrow> string) \<Rightarrow> (room_event \<Rightarrow> u64) \<Rightarrow> server_frame \<Rightarrow>
   room_transport \<Rightarrow> transport_effects transported" where
  "ingest_effects rfc3339 serde_err event_size frame t =
     (if tr_phase t = Fatal
      then (Err (FatalError ''transport is frozen after a fatal protocol error''), t)
      else
        case frame of
          EventFrame event \<Rightarrow> ingest_event rfc3339 event_size event t
        | ResponseFrame response \<Rightarrow> ingest_response rfc3339 serde_err event_size response t)"

definition ingest ::
  "(string \<Rightarrow> bool) \<Rightarrow> (json \<Rightarrow> string) \<Rightarrow> (room_event \<Rightarrow> u64) \<Rightarrow> server_frame \<Rightarrow>
   room_transport \<Rightarrow> transport_action list transported" where
  "ingest rfc3339 serde_err event_size frame t =
     bindS (ingest_effects rfc3339 serde_err event_size frame t) (\<lambda>fx t1. (Ok (fx_actions fx), t1))"

definition ingest_line ::
  "(string \<Rightarrow> bool) \<Rightarrow> (json \<Rightarrow> string) \<Rightarrow> (room_event \<Rightarrow> u64) \<Rightarrow>
   (string \<Rightarrow> (string, json) result) \<Rightarrow> (string \<Rightarrow> string) \<Rightarrow> string \<Rightarrow> room_transport \<Rightarrow>
   transport_action list transported" where
  "ingest_line rfc3339 serde_err event_size parse_json frame_err bytes t =
     tryS (classify_frame rfc3339 serde_err parse_json frame_err bytes) t (\<lambda>frame.
       ingest rfc3339 serde_err event_size frame t)"

end
