(* ===== verification/Room_Merge.thy ===== *)
theory Room_Merge
  imports Room_Transport Room_Runs
begin

section \<open>Merging a page with the buffer\<close>

text \<open>
  \<open>merge_events\<close> against its reference: the library's stable sort by the number a sequence
  writes, then each event once. It fails exactly on two different events with one identifier.
\<close>

abbreviation seq_value :: "room_event \<Rightarrow> nat" where
  "seq_value e \<equiv> dec_value (ev_event_seq e)"

definition decimal_events :: "room_event list \<Rightarrow> bool" where
  "decimal_events es \<longleftrightarrow> (\<forall>e \<in> set es. valid_decimal (ev_event_seq e))"

text \<open>No two events share an identifier.\<close>

definition one_event_per_id :: "room_event set \<Rightarrow> bool" where
  "one_event_per_id es \<longleftrightarrow> (\<forall>a \<in> es. \<forall>b \<in> es. ev_event_id a = ev_event_id b \<longrightarrow> a = b)"

lemma insert_event_insort:
  "valid_decimal (ev_event_seq e) \<Longrightarrow> decimal_events es \<Longrightarrow>
   insert_event e es = Ok (insort_key seq_value e es)"
  by (induction es) (auto simp: decimal_events_def decimal_cmp_valid cmp_def)

lemma sort_events_sort_key: "decimal_events es \<Longrightarrow> sort_events es = Ok (sort_key seq_value es)"
proof (induction es)
  case (Cons e es)
  then have "decimal_events (sort_key seq_value es)" by (simp add: decimal_events_def)
  with Cons show ?case by (simp add: insert_event_insort decimal_events_def)
qed simp

lemma fresh_again: "e \<in> set acc \<Longrightarrow> fresh (acc @ e # es) = fresh (acc @ es)"
proof (induction es rule: rev_induct)
  case (snoc x es)
  then show ?case
    using fresh_snoc [of "acc @ e # es" x] fresh_snoc [of "acc @ es" x] by auto
qed (use fresh_snoc [of acc e] in simp)

lemma merge_loop_fresh:
  assumes "\<And>i e. by_id i = Some e \<longleftrightarrow> e \<in> set acc \<and> ev_event_id e = i" "distinct acc"
  shows "merge_loop by_id acc es = Ok ms \<longleftrightarrow>
    one_event_per_id (set (acc @ es)) \<and> ms = fresh (acc @ es)"
  using assms
proof (induction es arbitrary: by_id acc)
  case Nil
  have "one_event_per_id (set acc)"
    unfolding one_event_per_id_def using Nil.prems(1) by (metis option.inject)
  moreover have "fresh acc = acc"
    using Nil.prems(2) by (simp add: fresh_def distinct_remdups_id)
  ultimately show ?case by auto
next
  case (Cons e es)
  show ?case
  proof (cases "by_id (ev_event_id e)")
    case None
    then have new: "e \<notin> set acc" "\<And>d. d \<in> set acc \<Longrightarrow> ev_event_id d \<noteq> ev_event_id e"
      using Cons.prems(1) by (metis option.distinct(1))+
    have "merge_loop by_id acc (e # es) = merge_loop (by_id(ev_event_id e \<mapsto> e)) (acc @ [e]) es"
      using None by simp
    moreover have "merge_loop (by_id(ev_event_id e \<mapsto> e)) (acc @ [e]) es = Ok ms \<longleftrightarrow>
        one_event_per_id (set ((acc @ [e]) @ es)) \<and> ms = fresh ((acc @ [e]) @ es)"
      using Cons.prems new by (intro Cons.IH) auto
    ultimately show ?thesis by simp
  next
    case (Some previous)
    then have p: "previous \<in> set acc" "ev_event_id previous = ev_event_id e" using Cons.prems(1) by auto
    show ?thesis
    proof (cases "previous = e")
      case True
      have "fresh (acc @ e # es) = fresh (acc @ es)" using p True by (intro fresh_again) simp
      moreover have "set (acc @ e # es) = set (acc @ es)" using p True by auto
      ultimately show ?thesis using Cons.IH [OF Cons.prems] Some True p by simp
    next
      case False
      with p have "\<not> one_event_per_id (set (acc @ e # es))" by (auto simp: one_event_per_id_def)
      with Some False show ?thesis by simp
    qed
  qed
qed

lemma merge_loop_result:
  "\<not> is_panic (merge_loop by_id acc es)
   \<and> (merge_loop by_id acc es = Err x \<longrightarrow> (\<exists>i. x = DuplicateConflict i))"
  by (induction by_id acc es rule: merge_loop.induct)
    (auto split: option.splits simp del: fun_upd_apply)

lemma merge_events_Ok:
  assumes "decimal_events (replay @ buffered)"
  shows "merge_events replay buffered = Ok ms \<longleftrightarrow>
    one_event_per_id (set replay \<union> set buffered) \<and> ms = fresh (sort_key seq_value (replay @ buffered))"
proof -
  let ?es = "sort_key seq_value (replay @ buffered)"
  have "merge_events replay buffered = merge_loop Map.empty [] ?es"
    using sort_events_sort_key [OF assms] by (simp add: merge_events_def)
  moreover have "merge_loop Map.empty [] ?es = Ok ms \<longleftrightarrow>
      one_event_per_id (set ([] @ ?es)) \<and> ms = fresh ([] @ ?es)"
    by (rule merge_loop_fresh) simp_all
  ultimately show ?thesis by simp
qed

lemma merge_events_no_panic:
  "decimal_events (replay @ buffered) \<Longrightarrow> \<not> is_panic (merge_events replay buffered)"
  using merge_loop_result sort_events_sort_key [of "replay @ buffered"] by (simp add: merge_events_def)

lemma sorted_wrt_fresh: "sorted_wrt R es \<Longrightarrow> sorted_wrt R (fresh es)"
  by (induction es rule: rev_induct) (auto simp: sorted_wrt_append)

lemma distinct_fresh: "distinct (fresh es)"
  by (simp add: fresh_def)

lemma merge_events_sorted:
  assumes "decimal_events (replay @ buffered)" "merge_events replay buffered = Ok ms"
  shows "sorted_wrt (\<lambda>a b. seq_value a \<le> seq_value b) ms" "distinct ms" "distinct (map ev_event_id ms)"
    "set ms = set replay \<union> set buffered"
proof -
  from assms have ms: "ms = fresh (sort_key seq_value (replay @ buffered))"
    and one: "one_event_per_id (set replay \<union> set buffered)" by (simp_all add: merge_events_Ok)
  have "sorted_wrt (\<lambda>a b. seq_value a \<le> seq_value b) (sort_key seq_value (replay @ buffered))"
    using sorted_sort_key [of seq_value] by (simp add: sorted_map)
  then show "sorted_wrt (\<lambda>a b. seq_value a \<le> seq_value b) ms" unfolding ms by (rule sorted_wrt_fresh)
  show "distinct ms" unfolding ms by (rule distinct_fresh)
  moreover show set: "set ms = set replay \<union> set buffered" unfolding ms by simp
  ultimately show "distinct (map ev_event_id ms)"
    using one by (auto simp: distinct_map inj_on_def one_event_per_id_def)
qed

end
