(* ===== verification/Room_Journal.thy ===== *)
theory Room_Journal
  imports Room_Runs
begin

section \<open>The journal the reducer keeps for its clients\<close>

text \<open>
  What the transport relies on: the reducer accepts the events of the journal one after the
  other, each with the next sequence, ignores the ones it has already seen, and remembers them
  all. \<open>event_journal\<close> states this contract; its lemmas say what a run of new events does, that
  replaying seen events is harmless, and that a list sorted by sequence that holds a run of new
  events among seen ones has the effect of the run. The reducer's \<open>apply\<close> is an instance.
\<close>

fun steps :: "('e \<Rightarrow> 'r \<Rightarrow> 'r option) \<Rightarrow> 'e list \<Rightarrow> 'r \<Rightarrow> 'r option" where
  "steps f [] r = Some r"
| "steps f (e # es) r = Option.bind (f e r) (steps f es)"

lemma steps_append: "steps f (es @ es') r = Option.bind (steps f es r) (steps f es')"
  by (induction es arbitrary: r) (auto simp: bind_eq_Some_conv split: Option.bind_splits)

lemma steps_snoc:
  "steps f (es @ [e]) r = Some r' \<longleftrightarrow> (\<exists>r1. steps f es r = Some r1 \<and> f e r1 = Some r')"
  by (auto simp: steps_append bind_eq_Some_conv)

lemma sorted_filter_split:
  assumes "sorted_wrt (\<lambda>a b. k a \<le> (k b :: nat)) xs"
    and "\<And>a b. a \<in> set xs \<Longrightarrow> b \<in> set xs \<Longrightarrow> P a \<Longrightarrow> \<not> P b \<Longrightarrow> k a < k b"
  shows "xs = filter P xs @ filter (\<lambda>x. \<not> P x) xs"
  using assms
proof (induction xs)
  case (Cons x xs)
  then have xs: "xs = filter P xs @ filter (\<lambda>x. \<not> P x) xs" by simp
  show ?case
  proof (cases "P x")
    case False
    have "\<not> P a" if "a \<in> set xs" for a
      using Cons.prems(2) [of a x] Cons.prems(1) that False by auto
    then have "filter P xs = []" "filter (\<lambda>x. \<not> P x) xs = xs" by (simp_all add: filter_id_conv)
    with False show ?thesis by simp
  qed (use xs in simp)
qed simp

locale event_journal = counter_format valid value_of next_of
  for valid :: "'s \<Rightarrow> bool" and value_of :: "'s \<Rightarrow> nat" and next_of :: "'s \<Rightarrow> 's" +
  fixes good :: "'r \<Rightarrow> bool" and accept :: "'e \<Rightarrow> 'r \<Rightarrow> 'r option" and seen :: "'r \<Rightarrow> 'e \<Rightarrow> bool"
    and frontier :: "'r \<Rightarrow> 's" and seq_of :: "'e \<Rightarrow> 's"
  assumes accept_good: "good r \<Longrightarrow> accept e r = Some r' \<Longrightarrow> good r'"
    and frontier_valid: "good r \<Longrightarrow> valid (frontier r)"
    and accept_seen: "good r \<Longrightarrow> seen r e \<Longrightarrow> accept e r = Some r"
    and accept_new: "good r \<Longrightarrow> \<not> seen r e \<Longrightarrow> accept e r = Some r' \<Longrightarrow>
      seq_of e = next_of (frontier r) \<and> frontier r' = seq_of e \<and> (\<forall>d. seen r' d \<longleftrightarrow> d = e \<or> seen r d)"
    and seen_below: "good r \<Longrightarrow> seen r e \<Longrightarrow> value_of (seq_of e) \<le> value_of (frontier r)"
begin

lemma run_good: "good r \<Longrightarrow> steps accept es r = Some r' \<Longrightarrow> good r'"
  by (induction es arbitrary: r) (auto simp: bind_eq_Some_conv dest: accept_good)

lemma run_seen: "good r \<Longrightarrow> (\<And>e. e \<in> set es \<Longrightarrow> seen r e) \<Longrightarrow> steps accept es r = Some r"
  by (induction es) (auto simp: accept_seen)

lemma run_new:
  assumes "good r" "steps accept es r = Some r'" "distinct es" "\<And>e. e \<in> set es \<Longrightarrow> \<not> seen r e"
  shows "consecutive next_of (frontier r) (map seq_of es)
    \<and> frontier r' = last (frontier r # map seq_of es)
    \<and> (\<forall>d. seen r' d \<longleftrightarrow> d \<in> set es \<or> seen r d)"
  using assms
proof (induction es arbitrary: r)
  case (Cons e es)
  then obtain r1 where e: "accept e r = Some r1" and es: "steps accept es r1 = Some r'"
    by (auto simp: bind_eq_Some_conv)
  note new = accept_new [OF Cons.prems(1) _ e]
  have "\<not> seen r e" using Cons.prems(4) by simp
  note new = new [OF this]
  have "\<And>d. d \<in> set es \<Longrightarrow> \<not> seen r1 d" using Cons.prems(3,4) new by auto
  with Cons.IH [OF accept_good [OF Cons.prems(1) e] es] Cons.prems(3) new show ?case by auto
qed simp

lemma run_frontier:
  assumes "good r" "steps accept es r = Some r'" "distinct es" "\<And>e. e \<in> set es \<Longrightarrow> \<not> seen r e"
  shows "value_of (frontier r') = value_of (frontier r) + length es"
  using consecutive_last [OF frontier_valid [OF assms(1)]] run_new [OF assms] by fastforce

lemma run_replay:
  assumes "good r" "steps accept es r = Some r'" "distinct es" "\<And>e. e \<in> set es \<Longrightarrow> \<not> seen r e"
  shows "steps accept es r' = Some r'"
  using run_seen [OF run_good [OF assms(1,2)]] run_new [OF assms] by blast

lemma run_above:
  assumes "good r" "steps accept es r = Some r'" "distinct es" "\<And>e. e \<in> set es \<Longrightarrow> \<not> seen r e"
  shows "sorted_wrt (<) (map (\<lambda>e. value_of (seq_of e)) es)"
    and "e \<in> set es \<Longrightarrow> value_of (frontier r) < value_of (seq_of e)"
proof -
  have "sorted_wrt (<) (map value_of (frontier r # map seq_of es))"
    using run_new [OF assms] by (intro consecutive_sorted [OF frontier_valid [OF assms(1)]]) simp
  then show "sorted_wrt (<) (map (\<lambda>e. value_of (seq_of e)) es)"
    and "e \<in> set es \<Longrightarrow> value_of (frontier r) < value_of (seq_of e)"
    by (auto simp: comp_def)
qed

lemma run_in_order:
  assumes run: "good r" "steps accept es r = Some r'" "distinct es" "\<And>e. e \<in> set es \<Longrightarrow> \<not> seen r e"
    and ms: "sorted_wrt (\<lambda>a b. value_of (seq_of a) \<le> value_of (seq_of b)) ms" "distinct ms"
    and sets: "set es \<subseteq> set ms" "\<And>e. e \<in> set ms \<Longrightarrow> e \<in> set es \<or> seen r e"
  shows "steps accept ms r = Some r' \<and> ms = filter (seen r) ms @ es"
proof -
  let ?k = "\<lambda>e. value_of (seq_of e)"
  let ?new = "filter (\<lambda>e. \<not> seen r e) ms"
  have set_new: "set ?new = set es" using sets run(4) by auto
  have split: "ms = filter (seen r) ms @ ?new"
  proof (rule sorted_filter_split [OF ms(1)])
    fix a b assume "a \<in> set ms" "b \<in> set ms" "seen r a" "\<not> seen r b"
    with set_new have "b \<in> set es" by auto
    with run_above(2) [OF run] seen_below [OF run(1) \<open>seen r a\<close>] show "?k a < ?k b"
      by (meson le_less_trans)
  qed
  have "sorted (map ?k ?new)" using ms(1) by (simp add: sorted_map sorted_wrt_filter)
  moreover have "sorted_wrt (<) (map ?k es)" by (rule run_above(1) [OF run])
  moreover have inj: "inj_on ?k (set es)"
    using \<open>sorted_wrt (<) (map ?k es)\<close> by (simp add: strict_sorted_iff distinct_map)
  moreover have "distinct (map ?k ?new)" using inj ms(2) set_new by (simp add: distinct_map)
  ultimately have "map ?k ?new = map ?k es"
    using set_new by (intro sorted_distinct_set_unique) (auto simp: strict_sorted_iff)
  then have "?new = es" using inj set_new by (intro map_inj_on [of ?k]) auto
  moreover have "steps accept (filter (seen r) ms) r = Some r"
    by (rule run_seen [OF run(1)]) simp
  ultimately show ?thesis using split run(2) by (metis bind.bind_lunit steps_append)
qed

end

subsection \<open>The reducer is one\<close>

definition accept :: "(string \<Rightarrow> bool) \<Rightarrow> room_event \<Rightarrow> reducer \<Rightarrow> reducer option" where
  "accept rfc3339 e r =
     (case apply_event rfc3339 e r of (Ok d, r') \<Rightarrow> Some r' | (_, _) \<Rightarrow> None)"

definition logged :: "reducer \<Rightarrow> room_event \<Rightarrow> bool" where
  "logged r e \<longleftrightarrow> events_by_id r (ev_event_id e) = Some e"

lemma accept_iff: "accept f e r = Some r' \<longleftrightarrow> (\<exists>d. apply_event f e r = (Ok d, r'))"
  by (auto simp: accept_def split: prod.splits result.splits)

lemma apply_all_steps: "apply_all f es r = steps (accept f) es r"
  by (induction f es r rule: apply_all.induct)
    (auto simp: accept_def split: prod.splits result.splits)

lemma logged_validated:
  "reachable f r \<Longrightarrow> \<forall>i e. events_by_id r i = Some e \<longrightarrow> validate f e = Ok ()"
  by (induction rule: reachable_invariant) (auto simp: new_reducer_def room_step_log)

lemma logged_accepted: "reachable f r \<Longrightarrow> logged r e \<Longrightarrow> accept f e r = Some r"
proof -
  assume r: "reachable f r" and e: "logged r e"
  then have "validate f e = Ok ()" "session_id r = Some (ev_session_id e)"
    using logged_validated [OF r] room_wfD(15) [OF reachable_room_wf [OF r]]
    by (auto simp: logged_def log_ok_def)
  with e show ?thesis by (simp add: accept_def apply_event_def ensure_session_def logged_def)
qed

lemma logged_range:
  assumes "reachable f r" "logged r e"
  shows "dec_value (ev_event_seq e) \<in> {1 .. dec_value (last_event_seq r)}"
proof -
  have "bij_betw (\<lambda>i. dec_value (ev_event_seq (the (events_by_id r i)))) (dom (events_by_id r))
      {1 .. dec_value (last_event_seq r)}"
    using room_wfD(15) [OF reachable_room_wf [OF assms(1)]] by (simp add: log_ok_def)
  moreover have "ev_event_id e \<in> dom (events_by_id r)" using assms(2) by (auto simp: logged_def)
  ultimately have "dec_value (ev_event_seq (the (events_by_id r (ev_event_id e))))
      \<in> {1 .. dec_value (last_event_seq r)}"
    by (rule bij_betwE [THEN bspec])
  with assms(2) show ?thesis by (simp add: logged_def)
qed

lemma logged_below:
  "reachable f r \<Longrightarrow> logged r e \<Longrightarrow> dec_value (ev_event_seq e) \<le> dec_value (last_event_seq r)"
  using logged_range by auto

lemma accept_unlogged:
  assumes "reachable f r" "\<not> logged r e" "accept f e r = Some r'"
  shows "events_by_id r (ev_event_id e) = None \<and> ev_event_seq e = increment_decimal (last_event_seq r)
    \<and> last_event_seq r' = ev_event_seq e \<and> (\<forall>d. logged r' d \<longleftrightarrow> d = e \<or> logged r d)"
proof -
  from assms(3) obtain d where "apply_event f e r = (Ok d, r')" by (auto simp: accept_iff)
  with assms(1) show ?thesis
  proof (cases rule: apply_event_reachable_cases)
    case repeated
    with assms(2) show ?thesis by (simp add: logged_def)
  next
    case (applied r1)
    have "logged r' d \<longleftrightarrow> d = e \<or> logged r d" for d
      using applied(1,3,4) by (auto simp: logged_def room_step_log(2))
    with applied show ?thesis by simp
  qed
qed

interpretation journal:
  event_journal valid_decimal dec_value increment_decimal "reachable f" "accept f" logged
    last_event_seq ev_event_seq for f
proof unfold_locales
  fix r e r' assume "reachable f r" "accept f e r = Some r'"
  then show "reachable f r'" by (auto simp: accept_iff intro: reachable.applied)
next
  fix r assume "reachable f r"
  then show "valid_decimal (last_event_seq r)"
    using room_wfD(15) [OF reachable_room_wf] by (simp add: log_ok_def)
qed (use logged_accepted logged_below accept_unlogged in blast)+

end
