(* ===== verification/Room_Sync.thy ===== *)
theory Room_Sync
  imports Room_Merge Room_Journal
begin

section \<open>The transport keeps the journal\<close>

text \<open>
  \<open>extends f r es r'\<close>: the new events \<open>es\<close> take the reducer from \<open>r\<close> to \<open>r'\<close>. Every operation
  of the transport extends its reducer by exactly the events it reports as applied, or freezes.
  \<open>transport_ok\<close> is its invariant, kept by every frame, and \<open>synced\<close> are the transports a host's
  output can lead to. Frames are those \<open>classify_frame\<close> lets through (\<open>frame_ok\<close>).
\<close>

definition extends :: "(string \<Rightarrow> bool) \<Rightarrow> reducer \<Rightarrow> room_event list \<Rightarrow> reducer \<Rightarrow> bool" where
  "extends f r es r' \<longleftrightarrow>
     steps (accept f) es r = Some r' \<and> distinct es
     \<and> (\<forall>e \<in> set es. events_by_id r (ev_event_id e) = None)"

lemma not_has_event_id: "\<not> has_event_id r i \<longleftrightarrow> events_by_id r i = None"
  by (simp add: has_event_id_def)

lemma extends_Nil [simp]: "extends f r [] r"
  by (simp add: extends_def)

lemma extends_unseen: "extends f r es r' \<Longrightarrow> e \<in> set es \<Longrightarrow> \<not> logged r e"
  by (auto simp: extends_def logged_def)

lemma extends_reachable: "reachable f r \<Longrightarrow> extends f r es r' \<Longrightarrow> reachable f r'"
  using journal.run_good by (auto simp: extends_def)

lemma extends_run:
  assumes "reachable f r" "extends f r es r'"
  shows "consecutive increment_decimal (last_event_seq r) (map ev_event_seq es)
    \<and> last_event_seq r' = last (last_event_seq r # map ev_event_seq es)
    \<and> (\<forall>d. logged r' d \<longleftrightarrow> d \<in> set es \<or> logged r d)"
  using assms extends_unseen [OF assms(2)] by (intro journal.run_new) (auto simp: extends_def)

lemma extends_frontier:
  assumes "reachable f r" "extends f r es r'"
  shows "dec_value (last_event_seq r') = dec_value (last_event_seq r) + length es"
  using assms extends_unseen [OF assms(2)] by (intro journal.run_frontier) (auto simp: extends_def)

lemma log_entry_id: "reachable f r \<Longrightarrow> events_by_id r i = Some d \<Longrightarrow> ev_event_id d = i"
  using room_wfD(15) [OF reachable_room_wf] by (auto simp: log_ok_def)

lemma extends_log:
  assumes "reachable f r" "extends f r es r'" "events_by_id r' i = Some d"
  shows "d \<in> set es \<or> events_by_id r i = Some d"
proof -
  have "ev_event_id d = i" using log_entry_id [OF extends_reachable [OF assms(1,2)] assms(3)] .
  then have "logged r' d" using assms(3) by (simp add: logged_def)
  with extends_run [OF assms(1,2)] \<open>ev_event_id d = i\<close> show ?thesis by (auto simp: logged_def)
qed

lemma extends_log_kept:
  assumes "reachable f r" "extends f r es r'" "events_by_id r i = Some d"
  shows "events_by_id r' i = Some d"
proof -
  have "logged r d" "ev_event_id d = i"
    using log_entry_id [OF assms(1,3)] assms(3) by (simp_all add: logged_def)
  with extends_run [OF assms(1,2)] show ?thesis by (auto simp: logged_def)
qed

lemma extends_trans:
  assumes "reachable f r" "extends f r es r1" "extends f r1 es' r'"
  shows "extends f r (es @ es') r'"
proof -
  have *: "events_by_id r (ev_event_id e) = None" if "e \<in> set es'" for e
    using assms(3) that extends_log_kept [OF assms(1,2)]
    by (cases "events_by_id r (ev_event_id e)") (auto simp: extends_def)
  moreover have "e \<notin> set es'" if "e \<in> set es" for e
  proof -
    have "logged r1 e" using extends_run [OF assms(1,2)] that by blast
    then show ?thesis using extends_unseen [OF assms(3)] by blast
  qed
  ultimately show ?thesis
    using assms(2,3) by (auto simp: extends_def steps_append)
qed

lemma extends_one:
  "events_by_id r (ev_event_id e) = None \<Longrightarrow> apply_event f e r = (Ok d, r') \<Longrightarrow> extends f r [e] r'"
  by (simp add: extends_def accept_def)

lemma apply_known:
  assumes "reachable f r" "events_by_id r (ev_event_id e) \<noteq> None" "apply_event f e r = (Ok d, r')"
  shows "r' = r"
  using assms(1,3,2) by (cases rule: apply_event_reachable_cases) auto

lemma apply_refused: "apply_event f e r = (Err x, r') \<Longrightarrow> r' = r"
  using atomic_atD [OF apply_event_atomic_at] by auto

lemma apply_no_panic: "reachable f r \<Longrightarrow> apply_event f e r \<noteq> (Panic m, r')"
  using apply_event_calm [OF reachable_room_wf, of f r f e] by (auto simp: calm_def)

lemma extends_ids:
  assumes "reachable f r" "extends f r es r'"
  shows "distinct (map ev_event_id es)"
proof -
  have "events_by_id r' (ev_event_id e) = Some e" if "e \<in> set es" for e
    using extends_run [OF assms] that by (auto simp: logged_def)
  then have "inj_on ev_event_id (set es)" by (metis inj_onI option.inject)
  with assms(2) show ?thesis by (simp add: distinct_map extends_def)
qed

lemma extends_ConsE:
  assumes "reachable f r" "extends f r (e # es) r'"
  obtains r1 d where "apply_event f e r = (Ok d, r1)" "extends f r [e] r1" "extends f r1 es r'"
proof -
  from assms(2) obtain r1 d where e: "apply_event f e r = (Ok d, r1)"
    and es: "steps (accept f) es r1 = Some r'" and new: "events_by_id r (ev_event_id e) = None"
    by (auto simp: extends_def bind_eq_Some_conv accept_iff)
  have one: "extends f r [e] r1" by (rule extends_one [OF new e])
  have "events_by_id r1 (ev_event_id d) = None" if d: "d \<in> set es" for d
  proof (rule ccontr)
    assume "events_by_id r1 (ev_event_id d) \<noteq> None"
    then obtain d' where d': "events_by_id r1 (ev_event_id d) = Some d'" by blast
    have "d' = e" using extends_log [OF assms(1) one d'] assms(2) d by (auto simp: extends_def)
    moreover have "ev_event_id d' = ev_event_id d"
      by (rule log_entry_id [OF extends_reachable [OF assms(1) one] d'])
    ultimately show False using extends_ids [OF assms] d by auto
  qed
  with e one es assms(2) that show thesis by (auto simp: extends_def)
qed

lemma apply_keeps_session:
  assumes "reachable f r" "apply_event f e r = (Ok d, r')" "session_id r = Some sid"
  shows "session_id r' = Some sid"
  using assms(1,2)
proof (cases rule: apply_event_reachable_cases)
  case (applied r1)
  with assms(3) show ?thesis by (simp add: note_applied_def room_step_log(1))
qed (use assms(3) in simp)

lemma steps_keep_session:
  "reachable f r \<Longrightarrow> steps (accept f) es r = Some r' \<Longrightarrow> session_id r = Some sid \<Longrightarrow>
   session_id r' = Some sid"
proof (induction es arbitrary: r)
  case (Cons e es)
  then obtain r1 d where "apply_event f e r = (Ok d, r1)" "steps (accept f) es r1 = Some r'"
    by (auto simp: bind_eq_Some_conv accept_iff)
  with Cons show ?case by (meson apply_keeps_session reachable.applied)
qed simp

lemma extends_session:
  "reachable f r \<Longrightarrow> extends f r es r' \<Longrightarrow> session_id r = Some sid \<Longrightarrow> session_id r' = Some sid"
  unfolding extends_def using steps_keep_session by blast

subsection \<open>Replaying a page\<close>

text \<open>\<open>same_queue\<close>: nothing but the reducer and the phase moved.\<close>

definition same_queue :: "room_transport \<Rightarrow> room_transport \<Rightarrow> bool" where
  "same_queue t t' \<longleftrightarrow>
     tr_readiness t' = tr_readiness t \<and> tr_buffered t' = tr_buffered t
     \<and> tr_buffered_bytes t' = tr_buffered_bytes t \<and> tr_request_counter t' = tr_request_counter t
     \<and> tr_pending_resync_id t' = tr_pending_resync_id t"

lemma apply_replay_events_ensures:
  "reachable f (tr_reducer t) \<Longrightarrow>
   ensures (apply_replay_events f acc es t)
     (\<lambda>acc' t'. \<exists>applied. acc' = acc @ applied \<and> extends f (tr_reducer t) applied (tr_reducer t')
        \<and> set applied \<subseteq> set es \<and> (\<forall>e \<in> set es. logged (tr_reducer t') e)
        \<and> tr_phase t' = tr_phase t \<and> same_queue t t')
     (\<lambda>t'. reachable f (tr_reducer t') \<and> tr_phase t' = Fatal \<and> same_queue t t')
     (\<lambda>t'. False)"
proof (induction es arbitrary: acc t)
  case (Cons e es)
  let ?r = "tr_reducer t"
  show ?case
  proof (cases "apply_event f e ?r")
    case (Pair res r1)
    show ?thesis
    proof (cases "ev_event_seq e = ''0'' \<or> ev_kind e = ''session.saved'' \<or> session_id ?r \<noteq> Some (ev_session_id e)")
      case True
      then show ?thesis using Cons.prems
        by (auto simp: validate_ordinary_event_def ensure_event_session_def fatal_def same_queue_def
            split: option.splits)
    next
      case ordinary: False
      show ?thesis
      proof (cases res)
        case (Ok d)
        with Pair have e: "apply_event f e ?r = (Ok d, r1)" by simp
        note r1 = reachable.applied [OF Cons.prems e]
        let ?new = "if has_event_id ?r (ev_event_id e) then [] else [e]"
        have one: "extends f ?r ?new r1"
          using apply_known [OF Cons.prems _ e] extends_one [OF _ e] by (auto simp: has_event_id_def)
        have logged: "logged r1 e" using apply_event_logged [OF e] by (simp add: logged_def)
        let ?t = "t\<lparr>tr_reducer := r1\<rparr>"
        have eq: "apply_replay_events f acc (e # es) t = apply_replay_events f (acc @ ?new) es ?t"
          using Ok Pair ordinary by (simp add: validate_ordinary_event_def ensure_event_session_def)
        show ?thesis
          unfolding eq
        proof (rule ensures_mono [OF Cons.IH [of ?t "acc @ ?new"]])
          fix acc' t'
          assume "\<exists>applied. acc' = (acc @ ?new) @ applied \<and> extends f (tr_reducer ?t) applied (tr_reducer t')
            \<and> set applied \<subseteq> set es \<and> (\<forall>e \<in> set es. logged (tr_reducer t') e)
            \<and> tr_phase t' = tr_phase ?t \<and> same_queue ?t t'"
          then obtain applied where ih: "acc' = acc @ ?new @ applied" "extends f r1 applied (tr_reducer t')"
            "set applied \<subseteq> set es" "\<forall>e \<in> set es. logged (tr_reducer t') e"
            "tr_phase t' = tr_phase t" "same_queue t t'"
            by (auto simp: same_queue_def)
          moreover have "logged (tr_reducer t') e" using extends_run [OF r1 ih(2)] logged by blast
          ultimately show "\<exists>applied. acc' = acc @ applied \<and> extends f ?r applied (tr_reducer t')
            \<and> set applied \<subseteq> set (e # es) \<and> (\<forall>e \<in> set (e # es). logged (tr_reducer t') e)
            \<and> tr_phase t' = tr_phase t \<and> same_queue t t'"
            using extends_trans [OF Cons.prems one ih(2)] by (intro exI [of _ "?new @ applied"]) auto
        qed (use r1 in \<open>auto simp: same_queue_def\<close>)
      next
        case (Err x)
        with Pair ordinary Cons.prems apply_refused [of f e ?r x r1] show ?thesis
          by (auto simp: validate_ordinary_event_def ensure_event_session_def fatal_def same_queue_def)
      next
        case (Panic m)
        with Pair apply_no_panic [OF Cons.prems] show ?thesis by auto
      qed
    qed
  qed
qed (simp add: same_queue_def)

subsection \<open>The invariant\<close>

definition started :: "room_transport \<Rightarrow> bool" where
  "started t \<longleftrightarrow>
     (\<exists>e. tr_readiness t = Some e \<and> is_readiness e
        \<and> session_id (tr_reducer t) = Some (ev_session_id e))"

definition pending_ok :: "room_transport \<Rightarrow> bool" where
  "pending_ok t \<longleftrightarrow>
     tr_pending_resync_id t = Some (''room-resync-'' @ show_nat (unat (tr_request_counter t)))"

definition phase_ok :: "room_transport \<Rightarrow> bool" where
  "phase_ok t \<longleftrightarrow>
     (case tr_phase t of
        AwaitingReadiness \<Rightarrow>
          tr_readiness t = None \<and> tr_reducer t = new_reducer \<and> tr_buffered t = []
          \<and> tr_pending_resync_id t = None
      | Resyncing \<Rightarrow> started t \<and> pending_ok t
      | Live \<Rightarrow> started t \<and> tr_buffered t = [] \<and> tr_pending_resync_id t = None
      | Fatal \<Rightarrow> True)"

definition buffer_ok :: "(room_event \<Rightarrow> u64) \<Rightarrow> room_transport \<Rightarrow> bool" where
  "buffer_ok z t \<longleftrightarrow>
     length (tr_buffered t) \<le> MAX_BUFFERED_RESYNC_EVENTS
     \<and> unat (tr_buffered_bytes t) = (\<Sum>e \<leftarrow> tr_buffered t. unat (z e))
     \<and> tr_buffered_bytes t \<le> MAX_BUFFERED_RESYNC_BYTES"

definition buffered_valid :: "(string \<Rightarrow> bool) \<Rightarrow> room_transport \<Rightarrow> bool" where
  "buffered_valid f t \<longleftrightarrow> (\<forall>e \<in> set (tr_buffered t). validate f e = Ok ())"

definition transport_ok :: "(string \<Rightarrow> bool) \<Rightarrow> (room_event \<Rightarrow> u64) \<Rightarrow> room_transport \<Rightarrow> bool" where
  "transport_ok f z t \<longleftrightarrow>
     reachable f (tr_reducer t) \<and> phase_ok t \<and> buffer_ok z t \<and> buffered_valid f t"

text \<open>The request a resyncing transport has just sent.\<close>

definition resync_request :: "room_transport \<Rightarrow> transport_action" where
  "resync_request t =
     RequestResync (the (tr_pending_resync_id t)) (the (session_id (tr_reducer t)))
       (last_event_seq (tr_reducer t))"

text \<open>
  What an accepted frame does: from a transport that was started, the reducer is extended by the
  applied events; a request is sent exactly when the transport (again) waits for its answer.
\<close>

definition progress ::
  "(string \<Rightarrow> bool) \<Rightarrow> (room_event \<Rightarrow> u64) \<Rightarrow> room_transport \<Rightarrow> transport_effects \<Rightarrow>
   room_transport \<Rightarrow> bool" where
  "progress f z t fx t' \<longleftrightarrow>
     transport_ok f z t' \<and> tr_phase t' \<noteq> Fatal
     \<and> extends f (tr_reducer t) (fx_applied_events fx) (tr_reducer t')
     \<and> (fx_actions fx = [] \<or> fx_actions fx = [resync_request t'] \<and> tr_phase t' = Resyncing)
     \<and> fx_readiness fx = None \<and> tr_readiness t' = tr_readiness t"

definition frozen :: "(string \<Rightarrow> bool) \<Rightarrow> (room_event \<Rightarrow> u64) \<Rightarrow> room_transport \<Rightarrow> bool" where
  "frozen f z t \<longleftrightarrow> transport_ok f z t \<and> tr_phase t = Fatal"

lemma no_effects_simps [simp]:
  "fx_actions no_effects = []" "fx_applied_events no_effects = []" "fx_readiness no_effects = None"
  by (simp_all add: no_effects_def)

lemma transport_okD:
  assumes "transport_ok f z t"
  shows "reachable f (tr_reducer t)" "phase_ok t" "buffer_ok z t" "buffered_valid f t"
  using assms by (simp_all add: transport_ok_def)

lemma progress_same: "transport_ok f z t \<Longrightarrow> tr_phase t \<noteq> Fatal \<Longrightarrow> progress f z t no_effects t"
  by (simp add: progress_def)

lemma frozen_fatal: "transport_ok f z t \<Longrightarrow> frozen f z (t\<lparr>tr_phase := Fatal\<rparr>)"
  by (simp add: frozen_def transport_ok_def phase_ok_def buffer_ok_def buffered_valid_def)

lemma ensures_fatal: "transport_ok f z t \<Longrightarrow> ensures (fatal message t) Q (frozen f z) P"
  by (simp add: fatal_def frozen_fatal)

lemma started_update [simp]:
  "started (t\<lparr>tr_phase := p\<rparr>) = started t"
  "started (t\<lparr>tr_pending_resync_id := q\<rparr>) = started t"
  "started (t\<lparr>tr_buffered := es\<rparr>) = started t"
  "started (t\<lparr>tr_buffered_bytes := n\<rparr>) = started t"
  by (simp_all add: started_def)

lemma started_session: "started t \<Longrightarrow> session_id (tr_reducer t) \<noteq> None"
  by (auto simp: started_def)

lemma session_phase_ok:
  "phase_ok t \<Longrightarrow> tr_phase t = Resyncing \<or> tr_phase t = Live \<Longrightarrow> started t"
  by (auto simp: phase_ok_def)

lemma ensure_event_session_ensures:
  assumes "transport_ok f z t" "started t"
  shows "ensures (ensure_event_session e t)
    (\<lambda>_ t'. t' = t \<and> session_id (tr_reducer t) = Some (ev_session_id e)) (frozen f z) (\<lambda>_. False)"
  using assms started_session [OF assms(2)]
  by (auto simp: ensure_event_session_def fatal_def frozen_fatal)

subsection \<open>The buffer\<close>

lemma checked_add_Some:
  "checked_add a b = Some c \<longleftrightarrow> c = a + b \<and> unat a + unat b < 2 ^ 64"
  by (auto simp: checked_add_def)

lemma unat_checked: "unat (a :: u64) + unat b < 2 ^ 64 \<Longrightarrow> unat (a + b) = unat a + unat b"
  by (simp add: unat_plus_if_size word_size)

lemma unat_sum_list:
  "(\<Sum>w \<leftarrow> ws. unat w) < 2 ^ 64 \<Longrightarrow> unat (sum_list ws :: u64) = (\<Sum>w \<leftarrow> ws. unat w)"
  by (induction ws) (auto simp: unat_checked)

lemma buffered_small: "buffer_ok z t \<Longrightarrow> unat (tr_buffered_bytes t) \<le> 16777216"
  by (simp add: buffer_ok_def MAX_BUFFERED_RESYNC_BYTES_def word_le_nat_alt)

text \<open>No allocation is larger than \<open>isize::MAX\<close> bytes, so no event prints to more.\<close>

definition sizes_ok :: "(room_event \<Rightarrow> u64) \<Rightarrow> bool" where
  "sizes_ok z \<longleftrightarrow> (\<forall>e. unat (z e) < 2 ^ 63)"

lemma buffer_event_ensures:
  assumes ok: "transport_ok f z t" and e: "validate f e = Ok ()" and z: "sizes_ok z"
  shows "ensures (buffer_event z e t)
    (\<lambda>_ t'. t' = t\<lparr>tr_buffered := tr_buffered t @ [e], tr_buffered_bytes := tr_buffered_bytes t + z e\<rparr>
       \<and> buffer_ok z t' \<and> buffered_valid f t') (frozen f z) (\<lambda>_. False)"
proof -
  have "unat (tr_buffered_bytes t) \<le> 16777216" by (rule buffered_small [OF transport_okD(3) [OF ok]])
  moreover have "unat (z e) < 2 ^ 63" using z by (simp add: sizes_ok_def)
  ultimately have small: "unat (tr_buffered_bytes t) + unat (z e) < 2 ^ 64" by simp
  then have "checked_add (tr_buffered_bytes t) (z e) = Some (tr_buffered_bytes t + z e)"
    using small by (simp add: checked_add_Some)
  then show ?thesis
    using transport_okD(3,4) [OF ok] e small frozen_fatal [OF ok]
    by (auto simp: buffer_event_def fatal_def buffer_ok_def buffered_valid_def unat_checked)
qed

lemma prune_ok:
  assumes "buffer_ok z t" "buffered_valid f t"
  shows "buffer_ok z (prune_buffered_events_already_applied z t)
    \<and> buffered_valid f (prune_buffered_events_already_applied z t)"
proof -
  let ?kept = "filter (\<lambda>e. \<not> has_event_id (tr_reducer t) (ev_event_id e)) (tr_buffered t)"
  have sums: "(\<Sum>e \<leftarrow> ?kept. unat (z e)) \<le> unat (tr_buffered_bytes t)"
    using assms(1) sum_list_filter_le_nat [of "\<lambda>e. unat (z e)"] by (simp add: buffer_ok_def)
  then have "unat (sum_list (map z ?kept)) = (\<Sum>e \<leftarrow> ?kept. unat (z e))"
    using buffered_small [OF assms(1)] unat_sum_list [of "map z ?kept"] by (simp add: comp_def)
  moreover from this sums have "sum_list (map z ?kept) \<le> tr_buffered_bytes t"
    by (simp add: word_le_nat_alt)
  moreover have "length ?kept \<le> MAX_BUFFERED_RESYNC_EVENTS"
    using assms(1) length_filter_le [of _ "tr_buffered t"] by (meson buffer_ok_def le_trans)
  ultimately show ?thesis
    using assms unfolding buffer_ok_def buffered_valid_def prune_buffered_events_already_applied_def
    by (auto simp: Let_def)
qed

subsection \<open>Every frame keeps the invariant\<close>

definition frame_ok :: "(string \<Rightarrow> bool) \<Rightarrow> server_frame \<Rightarrow> bool" where
  "frame_ok f frame \<longleftrightarrow>
     (case frame of EventFrame e \<Rightarrow> validate f e = Ok () | ResponseFrame r \<Rightarrow> True)"

lemma from_value_validated: "from_value f se v = Ok e \<Longrightarrow> validate f e = Ok ()"
  by (auto simp: from_value_def)

lemma validate_decimal_event: "validate f e = Ok () \<Longrightarrow> valid_decimal (ev_event_seq e)"
  by (auto simp: validate_def valid_decimal_def split: if_splits)

lemma page_validated:
  "resync_page_from_result f se v = Ok page \<Longrightarrow> e \<in> set (pg_events page) \<Longrightarrow> validate f e = Ok ()"
  by (auto simp: resync_page_from_result_def collect_results_Ok from_value_validated list_all2_conv_all_nth
      in_set_conv_nth)

lemma page_no_panic: "\<not> is_panic (resync_page_from_result f se v)"
  by (auto simp: resync_page_from_result_def is_panic_collect from_value_no_panic split: option.splits)

lemma ensures_bind:
  assumes "ensures p Q1 E1 P1" "\<And>a t. Q1 a t \<Longrightarrow> ensures (k a t) Q E P" "\<And>t. P1 t \<Longrightarrow> P t"
    "\<And>t. E1 t \<Longrightarrow> E t"
  shows "ensures (bindS p k) Q E P"
  using assms by (cases p; cases "fst p") auto

lemma ensures_or_fatal:
  assumes "\<And>a. m = Ok a \<Longrightarrow> ensures (k a) Q (frozen f z) P" "transport_ok f z t" "\<not> is_panic m"
  shows "ensures (or_fatal text_of m t k) Q (frozen f z) P"
  using assms by (cases m) (auto simp: ensures_fatal)

lemma begin_resync_ensures:
  assumes ok: "reachable f (tr_reducer t)" "started t" "buffer_ok z t" "buffered_valid f t"
  shows "ensures (begin_resync t)
    (\<lambda>action t'. transport_ok f z t' \<and> tr_phase t' = Resyncing \<and> action = resync_request t'
       \<and> tr_reducer t' = tr_reducer t \<and> tr_readiness t' = tr_readiness t)
    (\<lambda>_. False) (\<lambda>_. False)"
proof -
  obtain e where "tr_readiness t = Some e" "is_readiness e"
    "session_id (tr_reducer t) = Some (ev_session_id e)"
    using ok(2) by (auto simp: started_def)
  with ok show ?thesis
    by (auto simp: begin_resync_def Let_def transport_ok_def phase_ok_def started_def pending_ok_def
        buffer_ok_def buffered_valid_def resync_request_def)
qed

text \<open>The reducer moved on, the queue did not.\<close>

lemma same_queue_started:
  assumes "same_queue t t'" "started t" "reachable f (tr_reducer t)"
    "extends f (tr_reducer t) es (tr_reducer t')"
  shows "started t'"
  using assms extends_session [OF assms(3,4)] by (auto simp: started_def same_queue_def)

lemma same_queue_buffer:
  "same_queue t t' \<Longrightarrow> buffer_ok z t \<Longrightarrow> buffer_ok z t'"
  "same_queue t t' \<Longrightarrow> buffered_valid f t \<Longrightarrow> buffered_valid f t'"
  by (simp_all add: same_queue_def buffer_ok_def buffered_valid_def)

lemma replay_ensures:
  assumes "reachable f (tr_reducer t)" "started t" "buffer_ok z t" "buffered_valid f t"
  shows "ensures (apply_replay_events f [] es t)
    (\<lambda>applied t'. extends f (tr_reducer t) applied (tr_reducer t') \<and> same_queue t t'
       \<and> tr_phase t' = tr_phase t \<and> reachable f (tr_reducer t') \<and> started t'
       \<and> buffer_ok z t' \<and> buffered_valid f t')
    (frozen f z) (\<lambda>_. False)"
  by (rule ensures_mono [OF apply_replay_events_ensures [OF assms(1)]])
    (use assms same_queue_started same_queue_buffer extends_reachable in
      \<open>auto simp: frozen_def transport_ok_def phase_ok_def\<close>)

lemma page_merge:
  assumes "\<And>e. e \<in> set page \<Longrightarrow> validate f e = Ok ()" "\<And>e. e \<in> set es \<Longrightarrow> validate f e = Ok ()"
  shows "decimal_events (page @ es)" "\<not> is_panic (merge_events page es)"
proof -
  show "decimal_events (page @ es)"
    using assms validate_decimal_event by (auto simp: decimal_events_def)
  then show "\<not> is_panic (merge_events page es)" by (rule merge_events_no_panic)
qed

lemma frontier_cmp:
  assumes "reachable f r" "extends f r es r'"
  shows "decimal_cmp (last_event_seq r') (last_event_seq r) = Ok (if es = [] then Equal else Greater)"
  using extends_frontier [OF assms] journal.frontier_valid [OF assms(1)]
    journal.frontier_valid [OF extends_reachable [OF assms]]
  by (auto simp: decimal_cmp_valid cmp_def)

lemma request_next_page_ensures:
  assumes "reachable f r" "extends f r applied (tr_reducer t)" "started t" "buffer_ok z t"
    "buffered_valid f t" "reachable f (tr_reducer t)" "tr_phase t = Resyncing" "pending_ok t"
  shows "ensures (request_next_page z (last_event_seq r) applied t)
    (\<lambda>fx t'. transport_ok f z t' \<and> tr_phase t' = Resyncing \<and> fx_actions fx = [resync_request t']
       \<and> fx_applied_events fx = applied \<and> applied \<noteq> [] \<and> fx_readiness fx = None
       \<and> tr_reducer t' = tr_reducer t \<and> tr_readiness t' = tr_readiness t)
    (frozen f z) (\<lambda>_. False)"
proof -
  have ok: "transport_ok f z t" using assms by (simp add: transport_ok_def phase_ok_def)
  let ?t = "prune_buffered_events_already_applied z t"
  have pruned: "tr_reducer ?t = tr_reducer t" "tr_readiness ?t = tr_readiness t"
    by (simp_all add: prune_buffered_events_already_applied_def Let_def)
  with assms(3,6) prune_ok [OF assms(4,5)] have "reachable f (tr_reducer ?t)" "started ?t" "buffer_ok z ?t"
    "buffered_valid f ?t" by (simp_all add: started_def)
  note resync = begin_resync_ensures [OF this]
  show ?thesis
  proof (cases "applied = []")
    case False
    with frontier_cmp [OF assms(1,2)] have eq: "request_next_page z (last_event_seq r) applied t =
        bindS (begin_resync ?t) (\<lambda>action t1.
          (Ok (no_effects\<lparr>fx_actions := [action], fx_applied_events := applied\<rparr>), t1))"
      by (simp add: request_next_page_def)
    show ?thesis
      unfolding eq by (rule ensures_bind [OF resync]) (use False pruned in auto)
  qed (use frontier_cmp [OF assms(1,2)] ensures_fatal [OF ok] in \<open>simp add: request_next_page_def\<close>)
qed

lemma ingest_partial_page_ensures:
  assumes ok: "transport_ok f z t" and phase: "tr_phase t = Resyncing"
    and page: "\<And>e. e \<in> set page \<Longrightarrow> validate f e = Ok ()"
  shows "ensures (ingest_partial_page f z page t)
    (\<lambda>fx t'. progress f z t fx t' \<and> fx_actions fx = [resync_request t'] \<and> fx_applied_events fx \<noteq> [])
    (frozen f z) (\<lambda>_. False)"
proof -
  note okD = transport_okD [OF ok]
  have start: "started t" using session_phase_ok okD(2) phase by blast
  have "\<not> is_panic (merge_events page [])" using page_merge(2) [of page f "[]"] page by simp
  then show ?thesis
    unfolding ingest_partial_page_def Let_def
    by (intro ensures_if ensures_fatal [OF ok] ensures_or_fatal [OF _ ok]
        ensures_bind [OF replay_ensures [OF okD(1) start okD(3,4)]]
        ensures_mono [OF request_next_page_ensures])
      (use okD phase in \<open>auto simp: progress_def phase_ok_def pending_ok_def same_queue_def\<close>)
qed

lemma ingest_final_page_ensures:
  assumes ok: "transport_ok f z t" and phase: "tr_phase t = Resyncing"
    and page: "\<And>e. e \<in> set page \<Longrightarrow> validate f e = Ok ()"
  shows "ensures (ingest_final_page f page t)
    (\<lambda>fx t'. progress f z t fx t' \<and> fx_actions fx = [] \<and> tr_phase t' = Live)
    (frozen f z) (\<lambda>_. False)"
proof -
  note okD = transport_okD [OF ok]
  let ?t = "t\<lparr>tr_buffered := [], tr_buffered_bytes := 0\<rparr>"
  have start: "started ?t" using session_phase_ok okD(2) phase by (auto simp: started_def)
  have queue: "buffer_ok z ?t" "buffered_valid f ?t" by (simp_all add: buffer_ok_def buffered_valid_def)
  have ok': "transport_ok f z ?t" and r: "reachable f (tr_reducer ?t)"
    using okD start queue phase by (simp_all add: transport_ok_def phase_ok_def pending_ok_def)
  have "\<not> is_panic (merge_events page (tr_buffered t))"
    using page_merge(2) [of page f "tr_buffered t"] page okD(4) by (simp add: buffered_valid_def)
  then show ?thesis
    unfolding ingest_final_page_def Let_def
    by (intro ensures_or_fatal [OF _ ok'] ensures_bind [OF replay_ensures [OF r start queue]])
      (auto simp: progress_def transport_ok_def phase_ok_def same_queue_def buffer_ok_def buffered_valid_def)
qed

lemma ingest_response_ensures:
  assumes ok: "transport_ok f z t" and phase: "tr_phase t \<noteq> Fatal"
  shows "ensures (ingest_response f se z response t) (progress f z t) (frozen f z) (\<lambda>_. False)"
proof (cases "response_string_id response = None \<or> tr_phase t \<noteq> Resyncing
    \<or> tr_pending_resync_id t \<noteq> response_string_id response")
  case True
  then have "ingest_response f se z response t = (Ok no_effects, t)"
    by (auto simp: ingest_response_def split: option.splits)
  with progress_same [OF ok phase] show ?thesis by simp
next
  case False
  then have resyncing: "tr_phase t = Resyncing" by simp
  have page: "ensures (ingest_page f z page t) (progress f z t) (frozen f z) (\<lambda>_. False)"
    if "resync_page_from_result f se v = Ok page" for v page
    using ensures_mono [OF ingest_partial_page_ensures [OF ok resyncing page_validated [OF that]]]
      ensures_mono [OF ingest_final_page_ensures [OF ok resyncing page_validated [OF that]]]
    by (auto simp: ingest_page_def)
  show ?thesis
  proof (cases response)
    case (ResponseSuccess i v)
    with False have "ingest_response f se z response t =
        or_fatal display_transport_error (resync_page_from_result f se v) t (\<lambda>page. ingest_page f z page t)"
      by (auto simp: ingest_response_def split: option.splits)
    then show ?thesis using ensures_or_fatal [OF page ok page_no_panic] by simp
  qed (use False ensures_fatal [OF ok] in \<open>auto simp: ingest_response_def split: option.splits\<close>)
qed

lemma apply_live_event_ensures:
  assumes ok: "transport_ok f z t" and phase: "tr_phase t = Live" and e: "validate f e = Ok ()"
    and z: "sizes_ok z"
  shows "ensures (apply_live_event f z e t) (progress f z t) (frozen f z) (\<lambda>_. False)"
proof -
  note okD = transport_okD [OF ok]
  let ?r = "tr_reducer t"
  have start: "started t" using session_phase_ok okD(2) phase by blast
  have live: "tr_buffered t = []" "tr_pending_resync_id t = None" using okD(2) phase by (simp_all add: phase_ok_def)
  obtain res r1 where app: "apply_event f e ?r = (res, r1)" by (cases "apply_event f e ?r")
  show ?thesis
  proof (cases "session_id ?r = Some (ev_session_id e)")
    case False
    with started_session [OF start] ensures_fatal [OF ok] show ?thesis
      by (auto simp: apply_live_event_def ensure_event_session_def fatal_def)
  next
    case True
    have fail: "ensures (fatal m (t\<lparr>tr_reducer := r1\<rparr>)) (progress f z t) (frozen f z) (\<lambda>_. False)"
      if "r1 = ?r" for m
      using ensures_fatal [OF ok] that by simp
    show ?thesis
    proof (cases res)
      case (Ok d)
      with app have applied: "apply_event f e ?r = (Ok d, r1)" by simp
      let ?new = "if has_event_id ?r (ev_event_id e) then [] else [e]"
      have one: "extends f ?r ?new r1"
        using apply_known [OF okD(1) _ applied] extends_one [OF _ applied] by (auto simp: has_event_id_def)
      have "started (t\<lparr>tr_reducer := r1\<rparr>)"
        using start extends_session [OF okD(1) one] by (auto simp: started_def)
      with one okD live phase reachable.applied [OF okD(1) applied]
      have "progress f z t (no_effects\<lparr>fx_applied_events := ?new\<rparr>) (t\<lparr>tr_reducer := r1\<rparr>)"
        by (simp add: progress_def transport_ok_def phase_ok_def buffer_ok_def buffered_valid_def)
      with True applied show ?thesis
        by (cases "has_event_id ?r (ev_event_id e)")
          (simp_all add: apply_live_event_def ensure_event_session_def Let_def)
    next
      case (Err x)
      with app apply_refused have r1: "r1 = ?r" by blast
      show ?thesis
      proof (cases x)
        case (EventGap expected received)
        let ?t = "\<lambda>t. t\<lparr>tr_buffered := tr_buffered t @ [e], tr_buffered_bytes := tr_buffered_bytes t + z e\<rparr>"
        have eq: "apply_live_event f z e t = bindS (buffer_event z e t) (\<lambda>_ t2.
           bindS (begin_resync t2) (\<lambda>action t3. (Ok (no_effects\<lparr>fx_actions := [action]\<rparr>), t3)))"
          using True app Err EventGap r1 by (simp add: apply_live_event_def ensure_event_session_def Let_def)
        show ?thesis
          unfolding eq
          by (rule ensures_bind [OF buffer_event_ensures [OF ok e z]], rule ensures_bind,
              rule begin_resync_ensures [where z = z and f = f])
            (use okD start in \<open>auto simp: progress_def\<close>)
      qed (use True app Err fail [OF r1] in \<open>simp_all add: apply_live_event_def ensure_event_session_def Let_def\<close>)
    next
      case (Panic m)
      with app apply_no_panic [OF okD(1)] show ?thesis by simp
    qed
  qed
qed

text \<open>Binding the session of the readiness event to the new room.\<close>

definition bound_room :: "string option \<Rightarrow> reducer" where
  "bound_room sid = new_reducer\<lparr>session_id := sid\<rparr>"

lemma bound_room_None [simp]: "bound_room None = new_reducer"
  by (simp add: bound_room_def new_reducer_def)

lemma bound_room_reachable [simp]: "reachable f (bound_room sid)"
proof (cases sid)
  case (Some s)
  have "bind_session s new_reducer = (Ok (), bound_room sid)"
    using Some by (simp add: bind_session_def bound_room_def new_reducer_def)
  then show ?thesis by (rule reachable.bound [OF reachable.created])
qed (simp add: reachable.created)

lemma bound_room_simps [simp]:
  "session_id (bound_room sid) = sid" "last_event_seq (bound_room sid) = ''0''"
  "events_by_id (bound_room sid) i = None"
  by (simp_all add: bound_room_def new_reducer_def)

definition welcomed ::
  "(string \<Rightarrow> bool) \<Rightarrow> (room_event \<Rightarrow> u64) \<Rightarrow> room_event \<Rightarrow> transport_effects \<Rightarrow>
   room_transport \<Rightarrow> bool" where
  "welcomed f z e fx t' \<longleftrightarrow>
     transport_ok f z t' \<and> tr_phase t' = Resyncing \<and> tr_readiness t' = Some e
     \<and> tr_reducer t' = bound_room (Some (ev_session_id e))
     \<and> fx = no_effects\<lparr>fx_actions := [resync_request t'], fx_readiness := Some e\<rparr>"

lemma ingest_readiness_ensures:
  assumes ok: "transport_ok f z t" and phase: "tr_phase t \<noteq> Fatal" and e: "is_readiness e"
  shows "ensures (ingest_readiness e t)
    (\<lambda>fx t'. if tr_phase t = AwaitingReadiness then welcomed f z e fx t' else progress f z t fx t')
    (frozen f z) (\<lambda>_. False)"
proof -
  note okD = transport_okD [OF ok]
  show ?thesis
  proof (cases "tr_phase t = AwaitingReadiness")
    case True
    with okD(2) have new: "tr_readiness t = None" "tr_reducer t = new_reducer" "tr_buffered t = []"
      by (simp_all add: phase_ok_def)
    let ?r = "bound_room (Some (ev_session_id e))"
    let ?t = "t\<lparr>tr_reducer := ?r, tr_readiness := Some e\<rparr>"
    have bind: "bind_session (ev_session_id e) new_reducer = (Ok (), ?r)"
      by (simp add: bind_session_def bound_room_def new_reducer_def)
    have eq: "ingest_readiness e t = bindS (begin_resync ?t) (\<lambda>action t1.
        (Ok (no_effects\<lparr>fx_actions := [action], fx_readiness := Some e\<rparr>), t1))"
      using True new bind by (simp add: ingest_readiness_def)
    have "reachable f (tr_reducer ?t)" "started ?t" "buffer_ok z ?t" "buffered_valid f ?t"
      using okD(3,4) e by (simp_all add: started_def buffer_ok_def buffered_valid_def)
    note resync = begin_resync_ensures [OF this]
    show ?thesis
      unfolding eq by (rule ensures_bind [OF resync]) (use True in \<open>auto simp: welcomed_def\<close>)
  next
    case False
    with ensures_fatal [OF ok] progress_same [OF ok phase] show ?thesis
      by (auto simp: ingest_readiness_def split: option.splits)
  qed
qed

definition accepted ::
  "(string \<Rightarrow> bool) \<Rightarrow> (room_event \<Rightarrow> u64) \<Rightarrow> room_transport \<Rightarrow> transport_effects \<Rightarrow>
   room_transport \<Rightarrow> bool" where
  "accepted f z t fx t' \<longleftrightarrow>
     progress f z t fx t'
     \<or> tr_phase t = AwaitingReadiness \<and> (\<exists>e. is_readiness e \<and> welcomed f z e fx t')"

lemma ingest_event_ensures:
  assumes ok: "transport_ok f z t" and phase: "tr_phase t \<noteq> Fatal" and e: "validate f e = Ok ()"
    and z: "sizes_ok z"
  shows "ensures (ingest_event f z e t) (accepted f z t) (frozen f z) (\<lambda>_. False)"
proof -
  note okD = transport_okD [OF ok]
  show ?thesis
  proof (cases "is_readiness e")
    case True
    have "ensures (ingest_readiness e t) (accepted f z t) (frozen f z) (\<lambda>_. False)"
      by (rule ensures_mono [OF ingest_readiness_ensures [OF ok phase True]])
        (use True in \<open>auto simp: accepted_def split: if_splits\<close>)
    with True show ?thesis by (simp add: ingest_event_def)
  next
    case ordinary: False
    show ?thesis
    proof (cases "ev_event_seq e = ''0'' \<or> ev_kind e = ''session.saved''")
      case True
      with ordinary ensures_fatal [OF ok] show ?thesis by (auto simp: ingest_event_def)
    next
      case False
      show ?thesis
      proof (cases "tr_phase t")
        case Resyncing
        with okD(2) have start: "started t" "pending_ok t" by (simp_all add: phase_ok_def)
        have eq: "ingest_event f z e t = bindS (ensure_event_session e t) (\<lambda>_ t1.
            bindS (buffer_event z e t1) (\<lambda>_ t2. (Ok no_effects, t2)))"
          using ordinary False Resyncing by (simp add: ingest_event_def)
        have "ensures (bindS (buffer_event z e t) (\<lambda>_ t2. (Ok no_effects, t2))) (accepted f z t)
            (frozen f z) (\<lambda>_. False)"
          by (rule ensures_bind [OF buffer_event_ensures [OF ok e z]])
            (use okD(1) start Resyncing in
              \<open>auto simp: accepted_def progress_def transport_ok_def phase_ok_def pending_ok_def\<close>)
        then show ?thesis
          unfolding eq by (intro ensures_bind [OF ensure_event_session_ensures [OF ok start(1)]]) auto
      next
        case Live
        have "ensures (apply_live_event f z e t) (accepted f z t) (frozen f z) (\<lambda>_. False)"
          by (rule ensures_mono [OF apply_live_event_ensures [OF ok Live e z]]) (auto simp: accepted_def)
        with ordinary False Live show ?thesis by (simp add: ingest_event_def)
      qed (use ordinary False phase ensures_fatal [OF ok] in \<open>simp_all add: ingest_event_def\<close>)
    qed
  qed
qed

lemma ingest_effects_ensures:
  assumes ok: "transport_ok f z t" and frame: "frame_ok f frame" and z: "sizes_ok z"
  shows "ensures (ingest_effects f se z frame t) (accepted f z t) (frozen f z) (\<lambda>_. False)"
proof (cases "tr_phase t = Fatal")
  case True
  with ok show ?thesis by (simp add: ingest_effects_def frozen_def)
next
  case False
  show ?thesis
  proof (cases frame)
    case (EventFrame e)
    with False frame ingest_event_ensures [OF ok False _ z] show ?thesis
      by (simp add: ingest_effects_def frame_ok_def)
  next
    case (ResponseFrame response)
    have "ensures (ingest_response f se z response t) (accepted f z t) (frozen f z) (\<lambda>_. False)"
      by (rule ensures_mono [OF ingest_response_ensures [OF ok False]]) (auto simp: accepted_def)
    with False ResponseFrame show ?thesis by (simp add: ingest_effects_def)
  qed
qed

lemma new_transport_ok: "transport_ok f z new_transport"
  by (simp add: transport_ok_def new_transport_def phase_ok_def buffer_ok_def buffered_valid_def
      reachable.created)

end
