(* ===== verification/Room_Delivery.thy ===== *)
theory Room_Delivery
  imports Room_Sync
begin

section \<open>What a run of the transport delivers\<close>

text \<open>
  \<open>ingest_all\<close> feeds frames to the transport one after the other and collects the events it
  reports as applied, as the host process does. \<open>delivered\<close> relates them to the reducer: they are
  a run of new events from the room bound to the readiness session. The last part is recovery:
  any page and buffer that together hold the missing run of the journal repair it.
\<close>

fun ingest_all ::
  "(string \<Rightarrow> bool) \<Rightarrow> (json \<Rightarrow> string) \<Rightarrow> (room_event \<Rightarrow> u64) \<Rightarrow> server_frame list \<Rightarrow>
   room_transport \<Rightarrow> room_event list \<times> room_transport" where
  "ingest_all f se z [] t = ([], t)"
| "ingest_all f se z (x # xs) t =
     (case ingest_effects f se z x t of
        (Ok fx, t1) \<Rightarrow>
          (case ingest_all f se z xs t1 of (es, t2) \<Rightarrow> (fx_applied_events fx @ es, t2))
      | (Err e, t1) \<Rightarrow> ingest_all f se z xs t1
      | (Panic m, t1) \<Rightarrow> ([], t1))"

definition delivered :: "(string \<Rightarrow> bool) \<Rightarrow> room_event list \<Rightarrow> room_transport \<Rightarrow> bool" where
  "delivered f es t \<longleftrightarrow>
     (\<exists>sid r. extends f (bound_room sid) es r
        \<and> (tr_phase t \<noteq> Fatal \<longrightarrow>
             r = tr_reducer t \<and> sid = map_option ev_session_id (tr_readiness t)))"

lemma ingest_effects_cases:
  assumes "transport_ok f z t" "frame_ok f x" "sizes_ok z"
  obtains (accepted) fx t1 where "ingest_effects f se z x t = (Ok fx, t1)" "accepted f z t fx t1"
    | (refused) e t1 where "ingest_effects f se z x t = (Err e, t1)" "frozen f z t1"
proof -
  obtain res t1 where eq: "ingest_effects f se z x t = (res, t1)" by (cases "ingest_effects f se z x t")
  with ingest_effects_ensures [OF assms, of se] that show thesis by (cases res) auto
qed

lemma accepted_ok: "accepted f z t fx t1 \<Longrightarrow> transport_ok f z t1 \<and> tr_phase t1 \<noteq> Fatal"
  by (auto simp: accepted_def progress_def welcomed_def)

lemma frozen_ok: "frozen f z t \<Longrightarrow> transport_ok f z t \<and> tr_phase t = Fatal"
  by (simp add: frozen_def)

lemma ingest_fatal:
  "tr_phase t = Fatal \<Longrightarrow> ingest_effects f se z x t
     = (Err (FatalError ''transport is frozen after a fatal protocol error''), t)"
  by (simp add: ingest_effects_def)

lemma ingest_all_fatal: "tr_phase t = Fatal \<Longrightarrow> ingest_all f se z xs t = ([], t)"
  by (induction xs) (simp_all add: ingest_fatal)

lemma delivered_frozen: "delivered f es t \<Longrightarrow> tr_phase t1 = Fatal \<Longrightarrow> delivered f es t1"
  by (auto simp: delivered_def)

lemma delivered_accepted:
  assumes ok: "transport_ok f z t" and es: "delivered f es t" and phase: "tr_phase t \<noteq> Fatal"
    and acc: "accepted f z t fx t1"
  shows "delivered f (es @ fx_applied_events fx) t1"
proof -
  from es phase have run: "extends f (bound_room (map_option ev_session_id (tr_readiness t))) es (tr_reducer t)"
    by (auto simp: delivered_def)
  from acc consider (progress) "progress f z t fx t1"
    | (welcomed) e where "tr_phase t = AwaitingReadiness" "welcomed f z e fx t1"
    by (auto simp: accepted_def)
  then show ?thesis
  proof cases
    case progress
    then have "extends f (tr_reducer t) (fx_applied_events fx) (tr_reducer t1)"
      "tr_readiness t1 = tr_readiness t" by (simp_all add: progress_def)
    with extends_trans [OF bound_room_reachable run] show ?thesis by (auto simp: delivered_def)
  next
    case welcomed
    then have "tr_reducer t = new_reducer" "tr_readiness t = None"
      using transport_okD(2) [OF ok] by (simp_all add: phase_ok_def)
    with extends_frontier [OF bound_room_reachable run] have "es = []" by (simp add: new_reducer_def)
    with welcomed(2) show ?thesis by (auto simp: delivered_def welcomed_def)
  qed
qed

lemma ingest_all_delivered:
  assumes "transport_ok f z t" "delivered f es t" "sizes_ok z" "\<And>x. x \<in> set xs \<Longrightarrow> frame_ok f x"
    "ingest_all f se z xs t = (es', t')"
  shows "delivered f (es @ es') t' \<and> transport_ok f z t'"
  using assms
proof (induction xs arbitrary: t es es')
  case (Cons x xs)
  from Cons.prems(4) have x: "frame_ok f x" by simp
  show ?case
  proof (cases "tr_phase t = Fatal")
    case True
    with Cons.prems ingest_all_fatal [OF True] show ?thesis by simp
  next
    case phase: False
    show ?thesis
      using Cons.prems(1) x Cons.prems(3)
    proof (cases rule: ingest_effects_cases [where se = se])
      case (accepted fx t1)
      then obtain es1 where rest: "ingest_all f se z xs t1 = (es1, t')"
        and es': "es' = fx_applied_events fx @ es1"
        using Cons.prems(5) by (auto split: prod.splits)
      have ok1: "transport_ok f z t1" using accepted_ok [OF accepted(2)] by simp
      have "\<And>x. x \<in> set xs \<Longrightarrow> frame_ok f x" using Cons.prems(4) by simp
      note Cons.IH [OF ok1 delivered_accepted [OF Cons.prems(1,2) phase accepted(2)] Cons.prems(3) this rest]
      with es' show ?thesis by simp
    next
      case (refused e t1)
      with frozen_ok [OF refused(2)] Cons.prems show ?thesis
        by (intro Cons.IH delivered_frozen [OF Cons.prems(2)]) auto
    qed
  qed
qed simp

lemma run_delivered:
  assumes "sizes_ok z" "\<And>x. x \<in> set xs \<Longrightarrow> frame_ok f x" "ingest_all f se z xs new_transport = (es, t)"
  shows "delivered f es t \<and> transport_ok f z t"
proof -
  have "delivered f [] new_transport"
    by (auto simp: delivered_def new_transport_def intro!: exI [of _ None])
  from ingest_all_delivered [OF new_transport_ok this assms] show ?thesis by simp
qed

subsection \<open>Recovery\<close>

lemma nonzero_seq: "0 < dec_value s \<Longrightarrow> s \<noteq> ''0''"
  using dec_value_numerals(1) by (metis less_irrefl)

lemma replay_append:
  "apply_replay_events f acc (es @ es') t =
     bindS (apply_replay_events f acc es t) (\<lambda>acc' t'. apply_replay_events f acc' es' t')"
  by (induction es arbitrary: acc t)
    (auto simp: validate_ordinary_event_def ensure_event_session_def fatal_def Let_def
      split: option.splits prod.splits result.splits)

lemma replay_logged:
  assumes "reachable f (tr_reducer t)" "\<And>e. e \<in> set es \<Longrightarrow> logged (tr_reducer t) e"
    "\<And>e. e \<in> set es \<Longrightarrow> ev_kind e \<noteq> ''session.saved''"
  shows "apply_replay_events f acc es t = (Ok acc, t)"
  using assms(2,3)
proof (induction es)
  case (Cons e es)
  let ?r = "tr_reducer t"
  have e: "logged ?r e" "ev_kind e \<noteq> ''session.saved''" using Cons.prems by auto
  have log: "log_ok ?r" using room_wfD(15) [OF reachable_room_wf [OF assms(1)]] .
  have "session_id ?r = Some (ev_session_id e)" using log e(1) by (auto simp: log_ok_def logged_def)
  moreover have "ev_event_seq e \<noteq> ''0''"
    using logged_range [OF assms(1) e(1)] by (intro nonzero_seq) simp
  moreover obtain d where "apply_event f e ?r = (Ok d, ?r)"
    using logged_accepted [OF assms(1) e(1)] by (auto simp: accept_iff)
  moreover have "has_event_id ?r (ev_event_id e)" using e(1) by (simp add: has_event_id_def logged_def)
  ultimately show ?case
    using Cons e(2) by (simp add: validate_ordinary_event_def ensure_event_session_def)
qed simp

lemma replay_new:
  assumes "reachable f (tr_reducer t)" "extends f (tr_reducer t) es r'" "session_id (tr_reducer t) \<noteq> None"
    "\<And>e. e \<in> set es \<Longrightarrow> ev_kind e \<noteq> ''session.saved''"
  shows "apply_replay_events f acc es t = (Ok (acc @ es), t\<lparr>tr_reducer := r'\<rparr>)"
  using assms
proof (induction es arbitrary: acc t)
  case (Cons e es)
  let ?r = "tr_reducer t"
  obtain r1 d where e: "apply_event f e ?r = (Ok d, r1)" and one: "extends f ?r [e] r1"
    and rest: "extends f r1 es r'"
    by (rule extends_ConsE [OF Cons.prems(1,2)])
  have new: "events_by_id ?r (ev_event_id e) = None" using one by (simp add: extends_def)
  note r1 = reachable.applied [OF Cons.prems(1) e]
  have sid: "session_id ?r = Some (ev_session_id e)"
    using apply_event_validated [OF e] Cons.prems(3) by auto
  have "session_id r1 \<noteq> None" using apply_keeps_session [OF Cons.prems(1) e sid] by simp
  with Cons.IH [of "t\<lparr>tr_reducer := r1\<rparr>" "acc @ [e]"] r1 rest Cons.prems(4)
  have "apply_replay_events f (acc @ [e]) es (t\<lparr>tr_reducer := r1\<rparr>)
      = (Ok (acc @ e # es), t\<lparr>tr_reducer := r'\<rparr>)" by simp
  moreover have "ev_event_seq e \<noteq> ''0''"
    using extends_run [OF Cons.prems(1) one] seq.next_value [OF journal.frontier_valid [OF Cons.prems(1)]]
    by (intro nonzero_seq) simp
  ultimately show ?case
    using e sid new Cons.prems(4)
    by (auto simp: validate_ordinary_event_def ensure_event_session_def has_event_id_def)
qed (simp add: extends_def)

text \<open>
  \<open>holds_run r missing es\<close>: the events \<open>es\<close> are the missing run and, besides, only events the room
  has already seen.
\<close>

definition holds_run :: "reducer \<Rightarrow> room_event list \<Rightarrow> room_event set \<Rightarrow> bool" where
  "holds_run r missing es \<longleftrightarrow>
     set missing \<subseteq> es \<and> (\<forall>e \<in> es. e \<in> set missing \<or> logged r e)
     \<and> (\<forall>e \<in> es. ev_kind e \<noteq> ''session.saved'')"

lemma holds_run_one_per_id:
  assumes "reachable f r" "extends f r missing r'" "holds_run r missing es"
  shows "one_event_per_id es"
  unfolding one_event_per_id_def
proof (intro ballI impI)
  fix a b assume ab: "a \<in> es" "b \<in> es" "ev_event_id a = ev_event_id b"
  have "logged r' e" if "e \<in> es" for e
    using assms(3) that extends_run [OF assms(1,2)] by (auto simp: holds_run_def)
  from this [OF ab(1)] this [OF ab(2)] ab(3) show "a = b" by (simp add: logged_def)
qed

lemma merge_recovers:
  assumes r: "reachable f r" and run: "extends f r missing r'" and dec: "decimal_events (page @ buffered)"
    and holds: "holds_run r missing (set page \<union> set buffered)"
  shows "\<exists>ms. merge_events page buffered = Ok (filter (logged r) ms @ missing)
    \<and> set ms = set page \<union> set buffered"
proof -
  obtain ms where ms: "merge_events page buffered = Ok ms"
    using merge_events_Ok [OF dec] holds_run_one_per_id [OF r run holds] by blast
  note sorted = merge_events_sorted [OF dec ms]
  have "steps (accept f) ms r = Some r' \<and> ms = filter (logged r) ms @ missing"
    using run holds sorted(4) extends_unseen [OF run]
    by (intro journal.run_in_order [OF r _ _ _ sorted(1,2)]) (auto simp: extends_def holds_run_def)
  with ms sorted(4) show ?thesis by metis
qed

lemma final_page_recovers:
  assumes ok: "transport_ok f z t" and phase: "tr_phase t = Resyncing"
    and page: "\<And>e. e \<in> set page \<Longrightarrow> validate f e = Ok ()"
    and run: "extends f (tr_reducer t) missing r'"
    and holds: "holds_run (tr_reducer t) missing (set page \<union> set (tr_buffered t))"
  shows "ingest_final_page f page t =
    (Ok (no_effects\<lparr>fx_applied_events := missing\<rparr>),
     t\<lparr>tr_reducer := r', tr_phase := Live, tr_buffered := [], tr_buffered_bytes := 0,
       tr_pending_resync_id := None\<rparr>)"
proof -
  let ?r = "tr_reducer t" and ?t = "t\<lparr>tr_buffered := [], tr_buffered_bytes := 0\<rparr>"
  note okD = transport_okD [OF ok]
  have dec: "decimal_events (page @ tr_buffered t)"
    using page_merge(1) [of page f "tr_buffered t"] page okD(4) by (simp add: buffered_valid_def)
  obtain ms where ms: "merge_events page (tr_buffered t) = Ok (filter (logged ?r) ms @ missing)"
    "set ms = set page \<union> set (tr_buffered t)"
    using merge_recovers [OF okD(1) run dec holds] by blast
  have "session_id ?r \<noteq> None"
    using started_session session_phase_ok [OF okD(2)] phase by blast
  then have "apply_replay_events f [] missing ?t = (Ok ([] @ missing), ?t\<lparr>tr_reducer := r'\<rparr>)"
    using okD(1) run holds by (intro replay_new) (auto simp: holds_run_def)
  moreover have "apply_replay_events f [] (filter (logged ?r) ms) ?t = (Ok [], ?t)"
    using okD(1) holds ms(2) by (intro replay_logged) (auto simp: holds_run_def)
  ultimately show ?thesis
    using ms(1) by (simp add: ingest_final_page_def Let_def replay_append)
qed

end
