(* ===== verification/Room_Transport_Sample.thy ===== *)
theory Room_Transport_Sample
  imports Room_Delivery Room_Sample
begin

section \<open>A concrete session of the transport\<close>

text \<open>
  The host says it is ready; a live event arrives while the transport asks for the journal; the
  answer holds the events before it. \<open>greeted\<close> is the transport after the readiness event,
  \<open>waiting\<close> after the live event, \<open>recovered\<close> after the answer.
\<close>

definition hello :: room_event where
  "hello = sample_event ''0'' ''session.saved'' [(''ready'', JBool True)]"

definition final_page :: "room_event list \<Rightarrow> json" where
  "final_page es = JObject [(''events'', JArray (map room_event_to_json es))]"

definition answer :: "string \<Rightarrow> room_event list \<Rightarrow> server_frame" where
  "answer rid es =
     ResponseFrame (ResponseSuccess (ResponseId (IdString rid))
       (final_page es))"

definition accepted_turn :: room_event where
  "accepted_turn = sample_event ''1'' ''turn.accepted''
     [(''agents'', JArray [JString ''claude'']), (''ledgerSeq'', JString ''1''),
      (''messageId'', JString ''m1''), (''text'', JString ''hello'')]"

definition routed_turn :: room_event where
  "routed_turn = sample_event ''2'' ''route.resolved'' [(''agents'', JArray [JString ''claude''])]"

abbreviation any_date :: "string \<Rightarrow> bool" where "any_date \<equiv> \<lambda>_. True"
abbreviation no_text :: "json \<Rightarrow> string" where "no_text \<equiv> \<lambda>_. ''''"
abbreviation hundred :: "room_event \<Rightarrow> u64" where "hundred \<equiv> \<lambda>_. 100"

definition after_frames :: "server_frame list \<Rightarrow> room_transport" where
  "after_frames xs = snd (ingest_all any_date no_text hundred xs new_transport)"

definition greeted :: room_transport where
  "greeted = after_frames [EventFrame hello]"

definition waiting :: room_transport where
  "waiting = after_frames [EventFrame hello, EventFrame routed_turn]"

lemmas transport_eval = ingest_effects_def ingest_event_def is_readiness_def ingest_readiness_def
  bind_session_def begin_resync_def fatal_def ensure_event_session_def buffer_event_def checked_add_def
  MAX_BUFFERED_RESYNC_EVENTS_def MAX_BUFFERED_RESYNC_BYTES_def apply_live_event_def has_event_id_def
  no_effects_def

lemma hundred_ok: "sizes_ok hundred"
  by (simp add: sizes_ok_def)

lemma show_nat_one: "show_nat (Suc 0) = ''1''"
  by (subst show_nat.simps) (simp add: digit_char_def digit_literals)

lemma valid_samples:
  "validate any_date hello = Ok ()" "validate any_date accepted_turn = Ok ()"
  "validate any_date routed_turn = Ok ()"
  by (simp_all add: hello_def accepted_turn_def routed_turn_def event_eval)

lemma greeting:
  "ingest_effects any_date no_text hundred (EventFrame hello) new_transport =
     (Ok \<lparr>fx_actions = [RequestResync ''room-resync-1'' ''s'' ''0''], fx_applied_events = [],
          fx_readiness = Some hello\<rparr>, greeted)
   \<and> tr_phase greeted = Resyncing \<and> tr_reducer greeted = bound_room (Some ''s'')
   \<and> tr_pending_resync_id greeted = Some ''room-resync-1'' \<and> tr_buffered greeted = []"
  unfolding greeted_def after_frames_def new_transport_def hello_def bound_room_def new_reducer_def
  by (simp add: transport_eval event_eval show_nat_one)

lemma waiting_facts:
  "ingest_effects any_date no_text hundred (EventFrame routed_turn) greeted = (Ok no_effects, waiting)
   \<and> tr_phase waiting = Resyncing \<and> tr_reducer waiting = bound_room (Some ''s'')
   \<and> tr_pending_resync_id waiting = Some ''room-resync-1'' \<and> tr_buffered waiting = [routed_turn]"
  unfolding waiting_def greeted_def after_frames_def new_transport_def hello_def routed_turn_def
    bound_room_def new_reducer_def
  by (simp add: transport_eval event_eval show_nat_one)

definition recovered_room :: reducer where
  "recovered_room = the (steps (accept any_date) [accepted_turn, routed_turn] (bound_room (Some ''s'')))"

lemma missing_run: "extends any_date (bound_room (Some ''s'')) [accepted_turn, routed_turn] recovered_room"
proof -
  have "apply_all any_date [accepted_turn, routed_turn] (bound_room (Some ''s'')) \<noteq> None"
    unfolding accepted_turn_def routed_turn_def bound_room_def new_reducer_def
    by (simp add: event_eval handler_eval)
  then have "steps (accept any_date) [accepted_turn, routed_turn] (bound_room (Some ''s'')) = Some recovered_room"
    by (auto simp: apply_all_steps recovered_room_def simp del: steps.simps)
  moreover have "accepted_turn \<noteq> routed_turn"
    by (simp add: accepted_turn_def routed_turn_def sample_event_def)
  ultimately show ?thesis by (simp add: extends_def)
qed

lemma final_page_read:
  assumes "\<And>e. e \<in> set es \<Longrightarrow> validate f e = Ok ()"
  shows "resync_page_from_result f se (final_page es) = Ok \<lparr>pg_events = es, pg_has_more = False\<rparr>"
proof -
  have "collect_results (from_value f se) (map room_event_to_json es) = Ok es"
    using assms by (induction es) (auto simp: from_value_round_trip)
  then show ?thesis by (simp add: resync_page_from_result_def final_page_def)
qed

lemma sample_transports_ok: "transport_ok any_date hundred greeted" "transport_ok any_date hundred waiting"
proof -
  have "frame_ok any_date (EventFrame hello)" "frame_ok any_date (EventFrame routed_turn)"
    using valid_samples by (simp_all add: frame_ok_def)
  then have "ensures (ingest_effects any_date no_text hundred (EventFrame hello) new_transport)
      (accepted any_date hundred new_transport) (frozen any_date hundred) (\<lambda>_. False)"
    and live: "transport_ok any_date hundred t \<Longrightarrow>
      ensures (ingest_effects any_date no_text hundred (EventFrame routed_turn) t)
      (accepted any_date hundred t) (frozen any_date hundred) (\<lambda>_. False)" for t
    by (simp_all add: ingest_effects_ensures new_transport_ok hundred_ok)
  with greeting show ok: "transport_ok any_date hundred greeted" by (auto dest: accepted_ok)
  from live [OF ok] waiting_facts show "transport_ok any_date hundred waiting" by (auto dest: accepted_ok)
qed

definition recovered :: room_transport where
  "recovered = waiting\<lparr>tr_reducer := recovered_room, tr_phase := Live, tr_buffered := [],
     tr_buffered_bytes := 0, tr_pending_resync_id := None\<rparr>"

lemma waiting_holds_run:
  "holds_run (tr_reducer waiting) [accepted_turn, routed_turn] (set [accepted_turn] \<union> set (tr_buffered waiting))"
  using waiting_facts by (auto simp: holds_run_def accepted_turn_def routed_turn_def sample_event_def)

lemma recovery:
  "ingest_effects any_date no_text hundred (answer ''room-resync-1'' [accepted_turn]) waiting =
     (Ok (no_effects\<lparr>fx_applied_events := [accepted_turn, routed_turn]\<rparr>), recovered)"
proof -
  have "ingest_final_page any_date [accepted_turn] waiting =
      (Ok (no_effects\<lparr>fx_applied_events := [accepted_turn, routed_turn]\<rparr>), recovered)"
    unfolding recovered_def
    using waiting_facts missing_run waiting_holds_run valid_samples
    by (intro final_page_recovers [OF sample_transports_ok(2)]) simp_all
  moreover have "resync_page_from_result any_date no_text (final_page [accepted_turn])
      = Ok \<lparr>pg_events = [accepted_turn], pg_has_more = False\<rparr>"
    using valid_samples by (intro final_page_read) simp
  ultimately show ?thesis
    using waiting_facts
    by (simp add: ingest_effects_def answer_def ingest_response_def ingest_page_def)
qed

definition partial_page :: "room_event list \<Rightarrow> json" where
  "partial_page es = JObject [(''events'', JArray (map room_event_to_json es)), (''hasMore'', JBool True)]"

lemma partial_page_read:
  assumes "\<And>e. e \<in> set es \<Longrightarrow> validate f e = Ok ()"
  shows "resync_page_from_result f se (partial_page es) = Ok \<lparr>pg_events = es, pg_has_more = True\<rparr>"
proof -
  have "collect_results (from_value f se) (map room_event_to_json es) = Ok es"
    using assms by (induction es) (auto simp: from_value_round_trip)
  then show ?thesis by (simp add: resync_page_from_result_def partial_page_def contains_key_def)
qed

lemma partial_page_accepted:
  "\<exists>fx t'. ingest_effects any_date no_text hundred
     (ResponseFrame (ResponseSuccess (ResponseId (IdString ''room-resync-1'')) (partial_page [accepted_turn]))) greeted
     = (Ok fx, t')"
proof -
  obtain r1 where one: "extends any_date (bound_room (Some ''s'')) [accepted_turn] r1"
    by (rule extends_ConsE [OF bound_room_reachable missing_run])
  have "apply_replay_events any_date [] [accepted_turn] greeted
      = (Ok [accepted_turn], greeted\<lparr>tr_reducer := r1\<rparr>)"
    using greeting one replay_new [of any_date greeted "[accepted_turn]" r1 "[]"]
    by (simp add: accepted_turn_def sample_event_def del: apply_replay_events.simps)
  moreover have "decimal_cmp (last_event_seq r1) ''0'' = Ok Greater"
    using frontier_cmp [OF bound_room_reachable one] by simp
  moreover have "session_id r1 = Some ''s''"
    using extends_session [OF bound_room_reachable one] by simp
  moreover have "merge_events [accepted_turn] [] = Ok [accepted_turn]" by (simp add: merge_events_def)
  ultimately have "\<exists>fx t'. ingest_partial_page any_date hundred [accepted_turn] greeted = (Ok fx, t')"
    using greeting
    by (simp add: ingest_partial_page_def request_next_page_def begin_resync_def Let_def
        prune_buffered_events_already_applied_def del: apply_replay_events.simps)
  with greeting partial_page_read [of "[accepted_turn]" any_date no_text] valid_samples show ?thesis
    by (simp add: ingest_effects_def ingest_response_def ingest_page_def)
qed

end
