(* ===== verification/Room_Transport_Properties.thy ===== *)
theory Room_Transport_Properties
  imports Room_Transport_Sample
begin

section \<open>Properties of the transport\<close>

text \<open>
  What the transport promises to the host process and the interface: the events it delivers are
  the journal, errors freeze it, its buffer is bounded, its requests and its reading of answers
  are exact, and an answer that holds the missing events repairs any gap. Each is a few steps
  over \<^theory_text>\<open>Room_Delivery\<close> and \<^theory_text>\<open>Room_Sync\<close>, followed by its witness.
\<close>

lemma sample_frames_ok:
  "x \<in> set [EventFrame hello, EventFrame routed_turn] \<Longrightarrow> frame_ok any_date x"
  "x \<in> set [EventFrame hello, EventFrame routed_turn, answer ''room-resync-1'' [accepted_turn]] \<Longrightarrow>
     frame_ok any_date x"
  using valid_samples by (auto simp: frame_ok_def answer_def)

lemma sample_run:
  "ingest_all any_date no_text hundred [EventFrame hello] new_transport = ([], greeted)"
  "ingest_all any_date no_text hundred [EventFrame hello, EventFrame routed_turn] new_transport = ([], waiting)"
  "ingest_all any_date no_text hundred
     [EventFrame hello, EventFrame routed_turn, answer ''room-resync-1'' [accepted_turn]] new_transport
     = ([accepted_turn, routed_turn], recovered)"
  using greeting waiting_facts recovery by simp_all

text \<open>C11: Over any sequence of frames the events the transport reports as applied carry the
  sequence numbers 1, 2, 3, ... without gap or repetition and with distinct identifiers; and while
  the transport is not frozen, its reducer is what a plain replay of exactly these events gives in
  a room bound to the readiness session.\<close>

theorem transport_delivers_journal:
  assumes "sizes_ok z" "\<And>x. x \<in> set xs \<Longrightarrow> frame_ok f x"
    "ingest_all f se z xs new_transport = (es, t)"
  shows "consecutive increment_decimal ''0'' (map ev_event_seq es) \<and> distinct (map ev_event_id es)
    \<and> (tr_phase t \<noteq> Fatal \<longrightarrow>
        apply_all f es (bound_room (map_option ev_session_id (tr_readiness t))) = Some (tr_reducer t))"
proof -
  obtain sid r where run: "extends f (bound_room sid) es r"
    and live: "tr_phase t \<noteq> Fatal \<longrightarrow> r = tr_reducer t \<and> sid = map_option ev_session_id (tr_readiness t)"
    using run_delivered [OF assms] by (auto simp: delivered_def)
  have "apply_all f es (bound_room sid) = Some r" using run by (simp add: apply_all_steps extends_def)
  with live extends_run [OF bound_room_reachable run] extends_ids [OF bound_room_reachable run]
  show ?thesis by auto
qed

lemma transport_delivers_journal_witness:
  "consecutive increment_decimal ''0'' (map ev_event_seq [accepted_turn, routed_turn])
    \<and> distinct (map ev_event_id [accepted_turn, routed_turn])
    \<and> apply_all any_date [accepted_turn, routed_turn]
          (bound_room (map_option ev_session_id (tr_readiness recovered))) = Some (tr_reducer recovered)"
proof -
  have "tr_phase recovered \<noteq> Fatal" by (simp add: recovered_def)
  with transport_delivers_journal [OF hundred_ok sample_frames_ok(2) sample_run(3)] show ?thesis by blast
qed

text \<open>In any reachable transport a validated frame never panics; it is either accepted, leaving
  the transport unfrozen, or refused with an error that freezes it, after which every frame is
  refused and nothing changes.\<close>

theorem transport_error_freezes:
  assumes "sizes_ok z" "\<And>x. x \<in> set xs \<Longrightarrow> frame_ok f x"
    "ingest_all f se z xs new_transport = (es, t)" "frame_ok f x"
  shows "(\<exists>fx t'. ingest_effects f se z x t = (Ok fx, t') \<and> tr_phase t' \<noteq> Fatal)
    \<or> (\<exists>e t'. ingest_effects f se z x t = (Err e, t') \<and> tr_phase t' = Fatal
          \<and> (\<forall>y. ingest_effects f se z y t'
                = (Err (FatalError ''transport is frozen after a fatal protocol error''), t')))"
proof -
  have "transport_ok f z t" using run_delivered [OF assms(1-3)] by simp
  from this assms(4,1) show ?thesis
  proof (cases rule: ingest_effects_cases [where se = se])
    case (accepted fx t1)
    then show ?thesis using accepted_ok [OF accepted(2)] by blast
  next
    case (refused e t1)
    then show ?thesis using frozen_ok [OF refused(2)] ingest_fatal by blast
  qed
qed

lemma transport_error_freezes_witness:
  "(\<exists>fx t'. ingest_effects any_date no_text hundred (EventFrame hello) waiting = (Ok fx, t')
      \<and> tr_phase t' \<noteq> Fatal)
    \<or> (\<exists>e t'. ingest_effects any_date no_text hundred (EventFrame hello) waiting = (Err e, t')
          \<and> tr_phase t' = Fatal
          \<and> (\<forall>y. ingest_effects any_date no_text hundred y t'
                = (Err (FatalError ''transport is frozen after a fatal protocol error''), t')))"
  by (rule transport_error_freezes [OF hundred_ok sample_frames_ok(1) sample_run(2)])
    (simp_all add: sample_frames_ok(1))

text \<open>C13: The resync buffer never holds more than 4096 events nor more than 16 MiB of them, and
  its byte counter is exactly the sum of their sizes: no addition ever wraps.\<close>

theorem transport_buffer_bounded:
  assumes "sizes_ok z" "\<And>x. x \<in> set xs \<Longrightarrow> frame_ok f x"
    "ingest_all f se z xs new_transport = (es, t)"
  shows "length (tr_buffered t) \<le> 4096
    \<and> unat (tr_buffered_bytes t) = (\<Sum>e \<leftarrow> tr_buffered t. unat (z e))
    \<and> (\<Sum>e \<leftarrow> tr_buffered t. unat (z e)) \<le> 16 * 1024 * 1024"
proof -
  have "buffer_ok z t" using run_delivered [OF assms] by (simp add: transport_ok_def)
  with buffered_small [OF this] show ?thesis
    by (simp add: buffer_ok_def MAX_BUFFERED_RESYNC_EVENTS_def)
qed

lemma transport_buffer_bounded_witness:
  "length (tr_buffered waiting) = 1 \<and> length (tr_buffered waiting) \<le> 4096
    \<and> unat (tr_buffered_bytes waiting) = (\<Sum>e \<leftarrow> tr_buffered waiting. unat (hundred e))
    \<and> (\<Sum>e \<leftarrow> tr_buffered waiting. unat (hundred e)) \<le> 16 * 1024 * 1024"
  using transport_buffer_bounded [OF hundred_ok sample_frames_ok(1) sample_run(2)] waiting_facts by simp

text \<open>Whenever a frame makes the transport ask for the journal, the request is the one the
  transport now waits for, it names the bound session, and it asks for the events after the last
  one the reducer has applied.\<close>

theorem resync_requests_exact:
  assumes "sizes_ok z" "\<And>x. x \<in> set xs \<Longrightarrow> frame_ok f x"
    "ingest_all f se z xs new_transport = (es, t)" "frame_ok f x"
    "ingest_effects f se z x t = (Ok fx, t')" "fx_actions fx \<noteq> []"
  shows "tr_phase t' = Resyncing
    \<and> (\<exists>rid sid. fx_actions fx = [RequestResync rid sid (last_event_seq (tr_reducer t'))]
         \<and> tr_pending_resync_id t' = Some rid \<and> session_id (tr_reducer t') = Some sid
         \<and> rid = ''room-resync-'' @ show_nat (unat (tr_request_counter t')))"
proof -
  have "transport_ok f z t" using run_delivered [OF assms(1-3)] by simp
  from ingest_effects_ensures [OF this assms(4,1), of se] assms(5)
  have acc: "accepted f z t fx t'" by simp
  with assms(6) have asks: "fx_actions fx = [resync_request t']" "tr_phase t' = Resyncing"
    by (auto simp: accepted_def progress_def welcomed_def)
  have "phase_ok t'" using accepted_ok [OF acc] by (simp add: transport_ok_def)
  with asks(2) have "started t'" "pending_ok t'" by (simp_all add: phase_ok_def)
  with asks show ?thesis by (auto simp: resync_request_def started_def pending_ok_def)
qed

lemma resync_requests_exact_witness:
  "tr_phase greeted = Resyncing
    \<and> (\<exists>rid sid. [RequestResync ''room-resync-1'' ''s'' ''0'']
           = [RequestResync rid sid (last_event_seq (tr_reducer greeted))]
         \<and> tr_pending_resync_id greeted = Some rid \<and> session_id (tr_reducer greeted) = Some sid
         \<and> rid = ''room-resync-'' @ show_nat (unat (tr_request_counter greeted)))"
proof -
  have frames: "\<And>x. x \<in> set [] \<Longrightarrow> frame_ok any_date x" and run: "ingest_all any_date no_text hundred [] new_transport = ([], new_transport)"
    by simp_all
  show ?thesis
    using resync_requests_exact [OF hundred_ok frames run _ greeting [THEN conjunct1]]
      sample_frames_ok(1) [of "EventFrame hello"] by simp
qed

text \<open>C12: Gap recovery. Suppose the transport waits for an answer, and the events of the final page
  together with the ones it buffered are, in any order and with any repetitions, the run of events
  missing from its reducer (besides events it has already seen). Then the answer is accepted, the
  missing events are delivered once and in order, and the transport is live with an empty buffer
  and the reducer the run leads to.\<close>

theorem resync_repairs_gap:
  assumes "sizes_ok z" "\<And>x. x \<in> set xs \<Longrightarrow> frame_ok f x"
    "ingest_all f se z xs new_transport = (es, t)" "tr_phase t = Resyncing"
    and answer: "tr_pending_resync_id t = Some rid"
      "resync_page_from_result f se v = Ok \<lparr>pg_events = page, pg_has_more = False\<rparr>"
    and run: "extends f (tr_reducer t) missing r'"
    and holds: "holds_run (tr_reducer t) missing (set page \<union> set (tr_buffered t))"
  shows "ingest_effects f se z (ResponseFrame (ResponseSuccess (ResponseId (IdString rid)) v)) t =
    (Ok (no_effects\<lparr>fx_applied_events := missing\<rparr>),
     t\<lparr>tr_reducer := r', tr_phase := Live, tr_buffered := [], tr_buffered_bytes := 0,
       tr_pending_resync_id := None\<rparr>)"
proof -
  have "transport_ok f z t" using run_delivered [OF assms(1-3)] by simp
  moreover have "\<And>e. e \<in> set page \<Longrightarrow> validate f e = Ok ()" using page_validated [OF answer(2)] by simp
  ultimately have "ingest_final_page f page t =
      (Ok (no_effects\<lparr>fx_applied_events := missing\<rparr>),
       t\<lparr>tr_reducer := r', tr_phase := Live, tr_buffered := [], tr_buffered_bytes := 0,
         tr_pending_resync_id := None\<rparr>)"
    using assms(4) run holds by (intro final_page_recovers) auto
  with answer assms(4) show ?thesis
    by (simp add: ingest_effects_def ingest_response_def ingest_page_def)
qed

lemma resync_repairs_gap_witness:
  "ingest_effects any_date no_text hundred
     (ResponseFrame (ResponseSuccess (ResponseId (IdString ''room-resync-1'')) (final_page [accepted_turn]))) waiting =
    (Ok (no_effects\<lparr>fx_applied_events := [accepted_turn, routed_turn]\<rparr>),
     waiting\<lparr>tr_reducer := recovered_room, tr_phase := Live, tr_buffered := [], tr_buffered_bytes := 0,
       tr_pending_resync_id := None\<rparr>)"
proof -
  have "resync_page_from_result any_date no_text (final_page [accepted_turn])
      = Ok \<lparr>pg_events = [accepted_turn], pg_has_more = False\<rparr>"
    using valid_samples by (intro final_page_read) simp
  then show ?thesis
    using waiting_facts missing_run waiting_holds_run
    by (intro resync_repairs_gap [where page = "[accepted_turn]", OF hundred_ok sample_frames_ok(1) sample_run(2)])
      simp_all
qed

text \<open>A response whose identifier is not the one the transport waits for (a stale answer, a
  numeric or null identifier, any response while it is live) has no effect at all.\<close>

theorem stale_response_ignored:
  assumes "tr_phase t \<noteq> Fatal"
    "tr_phase t \<noteq> Resyncing \<or> response_string_id response = None
     \<or> response_string_id response \<noteq> tr_pending_resync_id t"
  shows "ingest_effects f se z (ResponseFrame response) t = (Ok no_effects, t)"
  using assms by (auto simp: ingest_effects_def ingest_response_def split: option.splits)

lemma stale_response_ignored_witness:
  "ingest_effects any_date no_text hundred (answer ''room-resync-0'' [accepted_turn]) waiting
     = (Ok no_effects, waiting)"
  unfolding answer_def by (rule stale_response_ignored) (simp_all add: waiting_facts)

text \<open>A page with more to come, when accepted, strictly advances the frontier of the reducer by
  the number of events it delivers, at least one, and the next request asks for the events after
  the new frontier: paging cannot loop.\<close>

theorem partial_page_advances:
  assumes "sizes_ok z" "\<And>x. x \<in> set xs \<Longrightarrow> frame_ok f x"
    "ingest_all f se z xs new_transport = (es, t)" "tr_phase t = Resyncing"
    and answer: "tr_pending_resync_id t = Some rid"
      "resync_page_from_result f se v = Ok \<lparr>pg_events = page, pg_has_more = True\<rparr>"
      "ingest_effects f se z (ResponseFrame (ResponseSuccess (ResponseId (IdString rid)) v)) t = (Ok fx, t')"
  shows "fx_applied_events fx \<noteq> []
    \<and> dec_value (last_event_seq (tr_reducer t'))
        = dec_value (last_event_seq (tr_reducer t)) + length (fx_applied_events fx)
    \<and> map after_event_seq (fx_actions fx) = [last_event_seq (tr_reducer t')]"
proof -
  have ok: "transport_ok f z t" using run_delivered [OF assms(1-3)] by simp
  have "ensures (ingest_partial_page f z page t)
      (\<lambda>fx t'. progress f z t fx t' \<and> fx_actions fx = [resync_request t'] \<and> fx_applied_events fx \<noteq> [])
      (frozen f z) (\<lambda>_. False)"
    using page_validated [OF answer(2)] by (intro ingest_partial_page_ensures [OF ok assms(4)]) simp
  moreover have "ingest_partial_page f z page t = (Ok fx, t')"
    using answer assms(4) by (simp add: ingest_effects_def ingest_response_def ingest_page_def)
  ultimately have "progress f z t fx t'" "fx_actions fx = [resync_request t']" "fx_applied_events fx \<noteq> []"
    by auto
  moreover from this have "extends f (tr_reducer t) (fx_applied_events fx) (tr_reducer t')"
    by (simp add: progress_def)
  ultimately show ?thesis
    using extends_frontier [OF transport_okD(1) [OF ok]] by (simp add: resync_request_def)
qed

lemma partial_page_advances_witness:
  "\<exists>fx t'. ingest_effects any_date no_text hundred
       (ResponseFrame (ResponseSuccess (ResponseId (IdString ''room-resync-1'')) (partial_page [accepted_turn]))) greeted
       = (Ok fx, t')
    \<and> fx_applied_events fx \<noteq> []
    \<and> dec_value (last_event_seq (tr_reducer t'))
        = dec_value (last_event_seq (tr_reducer greeted)) + length (fx_applied_events fx)
    \<and> map after_event_seq (fx_actions fx) = [last_event_seq (tr_reducer t')]"
proof -
  have frames: "\<And>x. x \<in> set [EventFrame hello] \<Longrightarrow> frame_ok any_date x" using sample_frames_ok(1) by simp
  obtain fx t' where "ingest_effects any_date no_text hundred
      (ResponseFrame (ResponseSuccess (ResponseId (IdString ''room-resync-1'')) (partial_page [accepted_turn]))) greeted
      = (Ok fx, t')"
    using partial_page_accepted by blast
  from partial_page_advances [OF hundred_ok frames sample_run(1) _ _ partial_page_read this]
  show ?thesis using greeting valid_samples \<open>_ = (Ok fx, t')\<close> by auto
qed

text \<open>C14: Merging a page with the buffer gives every event once, in the order of the sequence numbers,
  whatever the order of arrival; it fails exactly when two different events carry one identifier.\<close>

theorem merge_is_sorted_union:
  assumes "\<And>e. e \<in> set page \<union> set buffered \<Longrightarrow> validate f e = Ok ()"
  shows "if one_event_per_id (set page \<union> set buffered)
    then \<exists>ms. merge_events page buffered = Ok ms \<and> set ms = set page \<union> set buffered
      \<and> distinct (map ev_event_id ms)
      \<and> sorted (map (\<lambda>e. dec_value (ev_event_seq e)) ms)
      \<and> ms = fresh (sort_key (\<lambda>e. dec_value (ev_event_seq e)) (page @ buffered))
    else \<exists>i. merge_events page buffered = Err (DuplicateConflict i)"
proof -
  have dec: "decimal_events (page @ buffered)" using page_merge(1) [of page f buffered] assms by simp
  show ?thesis
  proof (cases "one_event_per_id (set page \<union> set buffered)")
    case True
    then obtain ms where ms: "merge_events page buffered = Ok ms"
      using merge_events_Ok [OF dec] by blast
    note sorted = merge_events_sorted [OF dec ms]
    have "ms = fresh (sort_key (\<lambda>e. dec_value (ev_event_seq e)) (page @ buffered))"
      using ms merge_events_Ok [OF dec] by blast
    with ms sorted have "\<exists>ms. merge_events page buffered = Ok ms \<and> set ms = set page \<union> set buffered
      \<and> distinct (map ev_event_id ms) \<and> sorted (map (\<lambda>e. dec_value (ev_event_seq e)) ms)
      \<and> ms = fresh (sort_key (\<lambda>e. dec_value (ev_event_seq e)) (page @ buffered))"
      by (intro exI [of _ ms]) (simp add: sorted_map)
    with True show ?thesis by (simp only: if_True)
  next
    case False
    then have "\<nexists>ms. merge_events page buffered = Ok ms" using merge_events_Ok [OF dec] by blast
    moreover have eq: "merge_events page buffered = merge_loop Map.empty [] (sort_key seq_value (page @ buffered))"
      using sort_events_sort_key [OF dec] by (simp add: merge_events_def)
    ultimately have "\<exists>i. merge_events page buffered = Err (DuplicateConflict i)"
      using merge_loop_result unfolding eq
      by (cases "merge_loop Map.empty [] (sort_key seq_value (page @ buffered))") (auto, metis is_panic.simps(1))
    with False show ?thesis by simp
  qed
qed

lemma merge_is_sorted_union_witness:
  "\<exists>ms. merge_events [routed_turn] [accepted_turn, routed_turn] = Ok ms
    \<and> set ms = {routed_turn, accepted_turn}"
proof -
  have "one_event_per_id (set [routed_turn] \<union> set [accepted_turn, routed_turn])"
    by (simp add: one_event_per_id_def routed_turn_def accepted_turn_def sample_event_def)
  note one = this
  have "\<And>e. e \<in> set [routed_turn] \<union> set [accepted_turn, routed_turn] \<Longrightarrow> validate any_date e = Ok ()"
    using valid_samples by auto
  from merge_is_sorted_union [of "[routed_turn]" "[accepted_turn, routed_turn]", OF this] one
  obtain ms where "merge_events [routed_turn] [accepted_turn, routed_turn] = Ok ms"
    "set ms = set [routed_turn] \<union> set [accepted_turn, routed_turn]"
    by (simp only: if_True) blast
  then show ?thesis by auto
qed

text \<open>A line of output that classifies as a frame is at most 1 MiB less one byte, is UTF-8, parses
  as JSON, and every room event it brings has passed the protocol's validation.\<close>

theorem classified_frame_is_valid:
  assumes "classify_frame f se parse_json frame_err bytes = Ok frame"
  shows "length bytes < 1024 * 1024 \<and> utf8_valid (bytes_of bytes)
    \<and> (\<exists>m. parse_json bytes = Ok (JObject m)) \<and> frame_ok f frame"
proof -
  from assms obtain v where "parse_json bytes = Ok v" "frame_of_json f se v = Some frame"
    "length bytes \<le> MAX_FRAME_CONTENT_BYTES" "utf8_valid (bytes_of bytes)"
    by (auto simp: classify_frame_def validate_frame_content_def decode_server_frame_def split: if_splits)
  moreover from this(2) obtain m where "v = JObject m"
    by (auto simp: frame_of_json_def bind_eq_Some_conv)
  moreover have "frame_ok f frame"
    using \<open>frame_of_json f se v = Some frame\<close> from_value_validated
    by (auto simp: frame_of_json_def frame_ok_def notification_of_json_def bind_eq_Some_conv split: if_splits server_frame.splits result.splits)
  ultimately show ?thesis
    by (simp add: MAX_FRAME_CONTENT_BYTES_def MAX_FRAME_BYTES_def)
qed

lemma classified_frame_is_valid_witness:
  "length ''{}'' < (1024 * 1024 :: nat) \<and> utf8_valid (bytes_of ''{}'')
    \<and> (\<exists>m. (\<lambda>b. Ok (notification_to_json hello) :: (string, json) result) ''{}'' = Ok (JObject m))
    \<and> frame_ok any_date (EventFrame hello)"
proof (rule classified_frame_is_valid)
  have "notification_of_json any_date no_text (notification_to_json hello) = Some hello"
    using valid_samples by (intro notification_round_trip) simp
  then show "classify_frame any_date no_text (\<lambda>b. Ok (notification_to_json hello)) (\<lambda>b. '''') ''{}''
      = Ok (EventFrame hello)"
    by (simp add: classify_frame_def validate_frame_content_def decode_server_frame_def frame_of_json_def
        MAX_FRAME_CONTENT_BYTES_def MAX_FRAME_BYTES_def bytes_of_def notification_to_json_def contains_key_def)
qed

text \<open>On a live transport an event that skips a sequence number is kept, not applied and not lost:
  the reducer is untouched, the event waits in the buffer, and the journal after the frontier is
  requested.\<close>

theorem live_gap_requests_journal:
  assumes "sizes_ok z" "\<And>x. x \<in> set xs \<Longrightarrow> frame_ok f x"
    "ingest_all f se z xs new_transport = (es, t)" "tr_phase t = Live"
    and e: "validate f e = Ok ()" "ev_kind e \<noteq> ''session.saved''" "ev_event_seq e \<noteq> ''0''"
      "session_id (tr_reducer t) = Some (ev_session_id e)" "z e \<le> MAX_BUFFERED_RESYNC_BYTES"
    and gap: "\<not> has_event_id (tr_reducer t) (ev_event_id e)"
      "ev_event_seq e \<noteq> increment_decimal (last_event_seq (tr_reducer t))"
  shows "\<exists>rid t'. ingest_effects f se z (EventFrame e) t =
      (Ok (no_effects\<lparr>fx_actions :=
             [RequestResync rid (ev_session_id e) (last_event_seq (tr_reducer t))]\<rparr>), t')
    \<and> tr_phase t' = Resyncing \<and> tr_reducer t' = tr_reducer t \<and> tr_buffered t' = [e]
    \<and> tr_pending_resync_id t' = Some rid"
proof -
  have ok: "transport_ok f z t" using run_delivered [OF assms(1-3)] by simp
  have empty: "tr_buffered t = []" "tr_buffered_bytes t = 0"
    using transport_okD(2,3) [OF ok] assms(4) by (simp_all add: phase_ok_def buffer_ok_def unat_eq_0)
  have "apply_event f e (tr_reducer t) =
      (Err (EventGap (increment_decimal (last_event_seq (tr_reducer t))) (ev_event_seq e)), tr_reducer t)"
    using e gap by (simp add: apply_event_def ensure_session_def has_event_id_def)
  moreover have "\<not> is_readiness e" using e(2) by (simp add: is_readiness_def)
  moreover have "checked_add 0 (z e) = Some (z e)"
    using assms(1) by (auto simp: checked_add_Some sizes_ok_def intro: less_trans)
  ultimately show ?thesis
    using assms(4) e empty
    by (auto simp: ingest_effects_def ingest_event_def apply_live_event_def ensure_event_session_def
        buffer_event_def MAX_BUFFERED_RESYNC_EVENTS_def begin_resync_def Let_def)
qed

definition late_event :: room_event where
  "late_event = sample_event ''9'' ''route.resolved'' [(''agents'', JArray [JString ''claude''])]"

lemma late_event_facts:
  "validate any_date late_event = Ok ()" "ev_kind late_event \<noteq> ''session.saved''"
  "ev_event_seq late_event \<noteq> ''0''" "session_id (tr_reducer recovered) = Some (ev_session_id late_event)"
  "\<not> has_event_id (tr_reducer recovered) (ev_event_id late_event)"
  "ev_event_seq late_event \<noteq> increment_decimal (last_event_seq (tr_reducer recovered))"
proof -
  have r: "tr_reducer recovered = recovered_room" by (simp add: recovered_def)
  show "validate any_date late_event = Ok ()" by (simp add: late_event_def event_eval)
  show "ev_kind late_event \<noteq> ''session.saved''" "ev_event_seq late_event \<noteq> ''0''"
    by (simp_all add: late_event_def sample_event_def)
  show "session_id (tr_reducer recovered) = Some (ev_session_id late_event)"
    using extends_session [OF bound_room_reachable missing_run, of "''s''"]
    by (simp add: r late_event_def sample_event_def)
  show "\<not> has_event_id (tr_reducer recovered) (ev_event_id late_event)"
  proof
    assume "has_event_id (tr_reducer recovered) (ev_event_id late_event)"
    then obtain d where d: "events_by_id recovered_room (ev_event_id late_event) = Some d"
      by (auto simp: has_event_id_def r)
    have "d = accepted_turn \<or> d = routed_turn"
      using extends_log [OF bound_room_reachable missing_run d] by simp
    moreover have "ev_event_id d = ev_event_id late_event"
      by (rule log_entry_id [OF extends_reachable [OF bound_room_reachable missing_run] d])
    ultimately show False by (auto simp: accepted_turn_def routed_turn_def late_event_def sample_event_def)
  qed
  have "last_event_seq recovered_room = ''2''"
    using extends_run [OF bound_room_reachable missing_run] by (simp add: routed_turn_def sample_event_def)
  then show "ev_event_seq late_event \<noteq> increment_decimal (last_event_seq (tr_reducer recovered))"
    by (simp add: r late_event_def sample_event_def increment_decimal_def digit_literals)
qed

lemma live_gap_requests_journal_witness:
  "\<exists>rid t'. ingest_effects any_date no_text hundred (EventFrame late_event) recovered =
      (Ok (no_effects\<lparr>fx_actions :=
             [RequestResync rid (ev_session_id late_event) (last_event_seq (tr_reducer recovered))]\<rparr>), t')
    \<and> tr_phase t' = Resyncing \<and> tr_reducer t' = tr_reducer recovered \<and> tr_buffered t' = [late_event]
    \<and> tr_pending_resync_id t' = Some rid"
  by (rule live_gap_requests_journal [OF hundred_ok sample_frames_ok(2) sample_run(3) _ late_event_facts(1-4)
        _ late_event_facts(5,6)])
    (simp_all add: recovered_def MAX_BUFFERED_RESYNC_BYTES_def)

text \<open>C15: A frame that can be encoded decodes to itself, except that an explicit null error datum is
  dropped: nothing the client or the host sends is changed on the way.\<close>

theorem frame_round_trip:
  assumes "frame_to_json frame = Some v" "frame_ok f frame"
  shows "frame_of_json f se v = Some (plain_frame frame)"
proof (cases frame)
  case (EventFrame e)
  with assms have v: "v = notification_to_json e" and e: "validate f e = Ok ()" by (simp_all add: frame_ok_def)
  from notification_round_trip [OF e] EventFrame show ?thesis
    by (simp add: v frame_of_json_def) (simp add: notification_to_json_def contains_key_def)
next
  case (ResponseFrame r)
  with assms have r: "response_to_json r = Some v" by simp
  then obtain m where "v = JObject m" "\<not> contains_key m ''method''"
    by (cases r) (auto simp: contains_key_def)
  with ResponseFrame response_round_trip [OF r] show ?thesis by (simp add: frame_of_json_def)
qed

lemma frame_round_trip_witness:
  "frame_of_json any_date no_text (notification_to_json hello) = Some (EventFrame hello)"
  using frame_round_trip [of "EventFrame hello" "notification_to_json hello" any_date no_text] valid_samples
  by (simp add: frame_ok_def)

text \<open>A request the client can encode decodes to itself: its identifier is a string or an integer
  a JavaScript peer reads exactly, and its parameters are an object.\<close>

theorem request_round_trip:
  assumes "request_to_json rq = Some v"
  shows "request_of_json v = Some rq \<and> (\<exists>m. rq_params rq = JObject m)
    \<and> (case rq_id rq of IdString s \<Rightarrow> True
       | IdNumber (PosInt n) \<Rightarrow> n \<le> 9007199254740991
       | IdNumber (NegInt i) \<Rightarrow> \<bar>i\<bar> \<le> 9007199254740991
       | IdNumber (Float q) \<Rightarrow> False)"
proof -
  from assms obtain i m where v: "json_rpc_id_to_json (rq_id rq) = Some i" "rq_params rq = JObject m"
    "v = JObject [(''id'', i), (''jsonrpc'', json_rpc_version_to_json),
           (''method'', JString (rq_method rq)), (''params'', JObject m)]"
    by (auto simp: request_to_json_def object_value_def bind_eq_Some_conv split: if_splits)
  have "request_of_json v = Some rq"
    using id_round_trip [OF v(1)] v(2)
    by (simp add: v(3) request_of_json_def struct_fields_def keys_def object_value_def)
  with v(1,2) show ?thesis
    by (cases "rq_id rq" rule: json_rpc_id_to_json.cases)
      (auto simp: is_safe_number_def word_le_def split: json_number.splits if_splits)
qed

lemma request_round_trip_witness:
  "request_of_json (JObject [(''id'', JString ''1''), (''jsonrpc'', JString ''2.0''),
       (''method'', JString ''m''), (''params'', JObject [])])
     = Some \<lparr>rq_id = IdString ''1'', rq_method = ''m'', rq_params = JObject []\<rparr>"
  using request_round_trip [of "\<lparr>rq_id = IdString ''1'', rq_method = ''m'', rq_params = JObject []\<rparr>"]
  by (simp add: request_to_json_def object_value_def json_rpc_version_to_json_def)

end
