(* ===== verification/Host_Shutdown.thy ===== *)
theory Host_Shutdown
  imports Room_Prelude
begin

section \<open>How a room host dies, and what is said about it\<close>

text \<open>
  \<open>host_shutdown.rs\<close>, \<open>host_exit_words.rs\<close> and the error type of \<open>host_process.rs\<close>: the bounds of a
  shutdown with the derivations that back them, the record of an exit, what a quit reports, and
  the sentences shown for it. A \<open>Duration\<close> is its number of nanoseconds.
\<close>

type_synonym duration = nat

definition from_micros :: "nat \<Rightarrow> duration" where "from_micros n = n * 1000"
definition from_millis :: "nat \<Rightarrow> duration" where "from_millis n = n * 1000000"
definition from_secs :: "nat \<Rightarrow> duration" where "from_secs n = n * 1000000000"
definition as_millis :: "duration \<Rightarrow> nat" where "as_millis d = d div 1000000"
definition as_secs :: "duration \<Rightarrow> nat" where "as_secs d = d div 1000000000"

text \<open>\<open>saturating_sub\<close> is subtraction of natural numbers.\<close>

lemmas duration_defs = from_micros_def from_millis_def from_secs_def as_millis_def as_secs_def

subsection \<open>Bounds\<close>

definition SHUTDOWN_RESPONSE_BOUND :: duration where
  "SHUTDOWN_RESPONSE_BOUND = from_millis 250"

definition SHUTDOWN_GRACEFUL_REAP_BOUND :: duration where
  "SHUTDOWN_GRACEFUL_REAP_BOUND = from_millis 6200"

definition SHUTDOWN_TOTAL_BOUND :: duration where
  "SHUTDOWN_TOTAL_BOUND = from_secs 7"

definition KILL_REAP_RESERVE :: duration where
  "KILL_REAP_RESERVE = from_millis 500"

definition FAILURE_REAP_GRACE :: duration where
  "FAILURE_REAP_GRACE = from_millis 250"

definition LOADED_EXIT_LATENCY_MS :: "nat list" where
  "LOADED_EXIT_LATENCY_MS = [1140, 1160, 1292, 1330, 1340, 1654, 1833, 2106, 2369, 3094]"

definition ACKNOWLEDGEMENT_US :: "nat list" where
  "ACKNOWLEDGEMENT_US = [600, 800, 800, 800, 1000, 1100, 1100, 1300, 2800, 16000]"

definition div_ceil :: "nat \<Rightarrow> nat \<Rightarrow> nat" where
  "div_ceil a b = (if a mod b = 0 then a div b else a div b + 1)"

definition nearest_rank_index :: "nat \<Rightarrow> nat \<Rightarrow> nat" where
  "nearest_rank_index len percentile =
     (let rank = div_ceil (percentile * len) 100 in if rank = 0 then 0 else rank - 1)"

definition derived_minimum_response_bound :: duration where
  "derived_minimum_response_bound =
     (let index = nearest_rank_index (length ACKNOWLEDGEMENT_US) 95
      in from_micros (2 * ACKNOWLEDGEMENT_US ! index))"

definition derived_minimum_graceful_reap :: duration where
  "derived_minimum_graceful_reap =
     (let index = nearest_rank_index (length LOADED_EXIT_LATENCY_MS) 95
      in from_millis (2 * LOADED_EXIT_LATENCY_MS ! index))"

definition graceful_reap_for :: "duration \<Rightarrow> duration" where
  "graceful_reap_for elapsed =
     min SHUTDOWN_GRACEFUL_REAP_BOUND (SHUTDOWN_TOTAL_BOUND - elapsed - KILL_REAP_RESERVE)"

lemmas bound_defs = SHUTDOWN_RESPONSE_BOUND_def SHUTDOWN_GRACEFUL_REAP_BOUND_def
  SHUTDOWN_TOTAL_BOUND_def KILL_REAP_RESERVE_def FAILURE_REAP_GRACE_def

subsection \<open>Errors of the host\<close>

datatype host_error =
    AdmissionClosed
  | Frame string
  | InvalidArgument string
  | Io string
  | Remote string
  | RequestTimedOut string
  | Startup string
  | StartupStalled string
  | Stopped string

fun display_host_error :: "host_error \<Rightarrow> string" where
  "display_host_error AdmissionClosed = ''host is not accepting requests''"
| "display_host_error (Frame message) = ''fatal host stdout frame: '' @ message"
| "display_host_error (InvalidArgument message) = ''invalid host argument: '' @ message"
| "display_host_error (Io message) = ''host I/O failure: '' @ message"
| "display_host_error (Remote message) = ''host response error: '' @ message"
| "display_host_error (RequestTimedOut i) = ''host request timed out: '' @ i"
| "display_host_error (Startup message) = ''host startup failed: '' @ message"
| "display_host_error (StartupStalled message) = message"
| "display_host_error (Stopped message) = ''host stopped: '' @ message"

subsection \<open>The record of an exit\<close>

datatype termination_branch =
    ShutdownReap bool
  | TransportFailureReap
  | OwnerDropped

record launcher_termination =
  lt_branch :: termination_branch
  lt_waited :: duration

datatype host_exit_cause = ByHost | LauncherTerminated launcher_termination

text \<open>\<open>code: Option<i32>\<close>.\<close>

record host_exit =
  he_code :: "32 word option"
  he_success :: bool
  he_cause :: host_exit_cause

definition ended_itself_cleanly :: "host_exit \<Rightarrow> bool" where
  "ended_itself_cleanly e \<longleftrightarrow> he_success e \<and> he_cause e = ByHost"

subsection \<open>The words\<close>

fun display_branch :: "termination_branch \<Rightarrow> string" where
  "display_branch (ShutdownReap True) = ''it answered the shutdown and did not exit''"
| "display_branch (ShutdownReap False) = ''no acknowledgement came back from it''"
| "display_branch TransportFailureReap = ''its transport had failed and it did not exit''"
| "display_branch OwnerDropped = ''the room that owned it was dropped''"

definition display_termination :: "launcher_termination \<Rightarrow> string" where
  "display_termination t =
     ''m0irai ended the room host after waiting '' @ show_nat (as_millis (lt_waited t)) @ '' ms: ''
     @ display_branch (lt_branch t)"

fun display_exit_code :: "32 word option \<Rightarrow> string" where
  "display_exit_code (Some code) = ''code '' @ show_int (sint code)"
| "display_exit_code None = ''no exit code''"

definition display_exit :: "host_exit \<Rightarrow> string" where
  "display_exit e =
     (case (he_cause e, he_success e) of
        (LauncherTerminated t, True) \<Rightarrow>
          ''the room host exited normally ('' @ display_exit_code (he_code e)
          @ ''); m0irai's terminate landed '' @ show_nat (as_millis (lt_waited t))
          @ '' ms into its wait''
      | (LauncherTerminated t, False) \<Rightarrow> display_termination t
      | (ByHost, True) \<Rightarrow> ''the room host exited normally ('' @ display_exit_code (he_code e) @ '')''
      | (ByHost, False) \<Rightarrow>
          (case he_code e of
             Some code \<Rightarrow> ''the room host exited on its own with code '' @ show_int (sint code)
           | None \<Rightarrow> ''the room host was ended by a signal''))"

subsection \<open>What a quit reports\<close>

datatype shutdown_report = Closed | HostFailed | AcknowledgementStands

definition classify_shutdown_exit :: "host_exit \<Rightarrow> shutdown_report" where
  "classify_shutdown_exit e =
     (case (he_cause e, he_success e) of
        (ByHost, True) \<Rightarrow> Closed
      | (ByHost, False) \<Rightarrow> HostFailed
      | (LauncherTerminated t, _) \<Rightarrow> AcknowledgementStands)"

definition quit_outcome :: "host_exit \<Rightarrow> (host_error, unit) result \<Rightarrow> (host_error, unit) result" where
  "quit_outcome e acknowledgement =
     (let unanswered = (case he_cause e of
                          LauncherTerminated t \<Rightarrow> lt_branch t = ShutdownReap False
                        | ByHost \<Rightarrow> False)
      in case classify_shutdown_exit e of
           Closed \<Rightarrow> Ok ()
         | HostFailed \<Rightarrow> Err (Stopped (display_exit e))
         | AcknowledgementStands \<Rightarrow>
             if unanswered then Err (Stopped (display_exit e)) else acknowledgement)"

subsection \<open>Lemmas\<close>

lemma div_ceil_le: "0 < b \<Longrightarrow> a \<le> div_ceil a b * b"
proof -
  assume b: "0 < b"
  have "a < b * (a div b) + b"
    using mod_less_divisor [OF b, of a] mult_div_mod_eq [of b a] by linarith
  then show ?thesis by (auto simp: div_ceil_def algebra_simps)
qed

lemma nearest_rank_index_bound: "0 < n \<Longrightarrow> p \<le> 100 \<Longrightarrow> nearest_rank_index n p < n"
proof -
  assume n: "0 < n" and p: "p \<le> 100"
  have "div_ceil (p * n) 100 \<le> n"
  proof (cases "p * n mod 100 = 0")
    case True
    have "p * n div 100 \<le> 100 * n div 100" using p by (intro div_le_mono mult_le_mono1)
    with True show ?thesis by (simp add: div_ceil_def)
  next
    case False
    have "p * n \<le> 100 * n" using p by simp
    moreover have "p * n \<noteq> 100 * n" using False by (metis mod_mult_self1_is_0)
    ultimately have "p * n < n * 100" by simp
    then have "p * n div 100 < n" by (rule less_mult_imp_div_less)
    with False n show ?thesis by (simp add: div_ceil_def)
  qed
  with n show ?thesis by (simp add: nearest_rank_index_def Let_def) linarith
qed

lemma index_covers:
  assumes "sorted xs" "i < length xs"
  shows "i + 1 \<le> length (filter (\<lambda>x. x \<le> xs ! i) xs)"
proof -
  have "\<forall>x \<in> set (take (i + 1) xs). x \<le> xs ! i"
    using assms by (auto simp: in_set_conv_nth sorted_iff_nth_mono)
  then have "filter (\<lambda>x. x \<le> xs ! i) (take (i + 1) xs) = take (i + 1) xs" by simp
  moreover have "filter (\<lambda>x. x \<le> xs ! i) xs
      = filter (\<lambda>x. x \<le> xs ! i) (take (i + 1) xs) @ filter (\<lambda>x. x \<le> xs ! i) (drop (i + 1) xs)"
    by (metis append_take_drop_id filter_append)
  ultimately have "length (take (i + 1) xs) \<le> length (filter (\<lambda>x. x \<le> xs ! i) xs)" by simp
  with assms(2) show ?thesis by simp
qed

lemma length_millis: "as_millis d < 1000000 \<Longrightarrow> length (show_nat (as_millis d)) \<le> 6"
  using length_show_nat_le [of "as_millis d" 6] by simp

lemma length_display_branch: "length (display_branch b) \<le> 44"
  by (cases b rule: display_branch.cases) simp_all

end
