(* ===== verification/Boot_Progress.thy ===== *)
theory Boot_Progress
  imports Room_Json Host_Shutdown
begin

section \<open>Startup progress\<close>

text \<open>
  \<open>boot_progress.rs\<close>: the stage reports a host sends while it starts, how a line of its output is
  told apart from a room frame, and the bounds and sentences of a startup that stalls.
  \<open>parse_json\<close> is \<open>serde_json::from_slice\<close>.
\<close>

definition BOOT_PROGRESS_METHOD :: string where
  "BOOT_PROGRESS_METHOD = ''zer0/room/boot_progress''"

definition MAX_DETAIL_CHARS :: nat where "MAX_DETAIL_CHARS = 80"
definition MAX_STAGE_CHARS :: nat where "MAX_STAGE_CHARS = 40"

record boot_progress =
  bp_stage :: string
  bp_detail :: "string option"

definition describe :: "boot_progress \<Rightarrow> string" where
  "describe b =
     (let words =
        (if bp_stage b = ''evidence'' then ''opening the evidence ledger''
         else if bp_stage b = ''liveness'' then ''claiming the project lock''
         else if bp_stage b = ''migrate'' then ''migrating the evidence ledger''
         else if bp_stage b = ''session'' then ''opening the session''
         else if bp_stage b = ''journal'' then ''replaying the room journal''
         else bp_stage b)
      in case bp_detail b of
           Some detail \<Rightarrow> words @ '' ('' @ detail @ '')''
         | None \<Rightarrow> words)"

datatype boot_frame = Progress boot_progress | RoomFrame | Malformed string

definition printable :: "string \<Rightarrow> bool" where
  "printable s \<longleftrightarrow> \<not> list_ex (\<lambda>c. is_control c \<or> c = 127) (chars s)"

text \<open>\<open>windows(n).any(\<dots>)\<close>: some window of the line is the method name.\<close>

fun contains_window :: "string \<Rightarrow> string \<Rightarrow> bool" where
  "contains_window needle [] = (needle = [])"
| "contains_window needle (c # rest) \<longleftrightarrow>
     take (length needle) (c # rest) = needle \<or> contains_window needle rest"

definition contains_method :: "string \<Rightarrow> bool" where
  "contains_method line = contains_window BOOT_PROGRESS_METHOD line"

text \<open>A short printable string, of at most \<open>n\<close> characters.\<close>

definition short_printable :: "nat \<Rightarrow> string \<Rightarrow> bool" where
  "short_printable n s \<longleftrightarrow> s \<noteq> [] \<and> length (chars s) \<le> n \<and> printable s"

definition classify_boot_frame :: "(string \<Rightarrow> json option) \<Rightarrow> string \<Rightarrow> boot_frame" where
  "classify_boot_frame parse_json line =
     (if \<not> contains_method line then RoomFrame
      else case Option.bind (parse_json line) as_object of
        None \<Rightarrow> RoomFrame
      | Some object \<Rightarrow>
          if get_str object ''method'' \<noteq> Some BOOT_PROGRESS_METHOD then RoomFrame
          else if length object \<noteq> 3 \<or> get_str object ''jsonrpc'' \<noteq> Some ''2.0''
          then Malformed ''boot progress must be exactly {jsonrpc,method,params}''
          else case Option.bind (get object ''params'') as_object of
            None \<Rightarrow> Malformed ''boot progress params must be an object''
          | Some params \<Rightarrow>
              if length params > 2
                 \<or> \<not> list_all (\<lambda>key. key = ''stage'' \<or> key = ''detail'') (keys params)
              then Malformed ''boot progress params accept only stage and detail''
              else case opt_filter (short_printable MAX_STAGE_CHARS) (get_str params ''stage'') of
                None \<Rightarrow> Malformed ''boot progress stage must be a short printable string''
              | Some stage \<Rightarrow>
                  (case get params ''detail'' of
                     None \<Rightarrow> Progress \<lparr>bp_stage = stage, bp_detail = None\<rparr>
                   | Some v \<Rightarrow>
                       (case opt_filter (short_printable MAX_DETAIL_CHARS) (as_str v) of
                          Some detail \<Rightarrow> Progress \<lparr>bp_stage = stage, bp_detail = Some detail\<rparr>
                        | None \<Rightarrow>
                            Malformed ''boot progress detail must be a short printable string'')))"

subsection \<open>Budgets and stalls\<close>

record startup_budget =
  sb_handshake :: duration
  sb_inactivity :: duration
  sb_ceiling :: duration

definition default_budget :: startup_budget where
  "default_budget =
     \<lparr>sb_handshake = from_secs 20, sb_inactivity = from_secs 20, sb_ceiling = from_secs 120\<rparr>"

record progress_wait =
  pw_inactivity :: duration
  pw_ceiling :: duration

datatype stall_kind = Silent | Ceiling

definition stall_message :: "string \<Rightarrow> stall_kind \<Rightarrow> duration \<Rightarrow> duration \<Rightarrow> string" where
  "stall_message stage kind waited budget =
     (let waited = as_secs waited; budget = as_secs budget in
      case kind of
        Silent \<Rightarrow>
          ''the room host stopped reporting during '' @ [CHR 0x22] @ stage @ [CHR 0x22]
          @ '': nothing for '' @ show_nat budget @ ''s, '' @ show_nat waited @ ''s into startup''
      | Ceiling \<Rightarrow>
          ''the room host was still working on '' @ [CHR 0x22] @ stage @ [CHR 0x22]
          @ '' after '' @ show_nat waited @ ''s, and startup waits at most '' @ show_nat budget @ ''s'')"

subsection \<open>Lemmas\<close>

lemma classify_progress:
  assumes "classify_boot_frame parse_json line = Progress b"
  shows "short_printable MAX_STAGE_CHARS (bp_stage b)
    \<and> (\<forall>d. bp_detail b = Some d \<longrightarrow> short_printable MAX_DETAIL_CHARS d)
    \<and> (\<exists>m. parse_json line = Some (JObject m) \<and> get_str m ''method'' = Some BOOT_PROGRESS_METHOD)"
  using assms
  by (auto simp: classify_boot_frame_def bind_eq_Some_conv split: if_splits option.splits)

lemma classify_claims:
  assumes "classify_boot_frame parse_json line \<noteq> RoomFrame"
  shows "\<exists>m. parse_json line = Some (JObject m) \<and> get_str m ''method'' = Some BOOT_PROGRESS_METHOD"
  using assms
  by (auto simp: classify_boot_frame_def bind_eq_Some_conv split: if_splits option.splits)

lemma contains_window_iff: "contains_window needle line \<longleftrightarrow> (\<exists>pre post. line = pre @ needle @ post)"
proof (induction line)
  case (Cons c rest)
  show ?case
  proof
    assume "contains_window needle (c # rest)"
    with Cons consider "take (length needle) (c # rest) = needle" | pre post where "rest = pre @ needle @ post"
      by auto
    then show "\<exists>pre post. c # rest = pre @ needle @ post"
    proof cases
      case 1
      then have "c # rest = [] @ needle @ drop (length needle) (c # rest)"
        by (metis append_Nil append_take_drop_id)
      then show ?thesis by blast
    next
      case 2
      then have "c # rest = (c # pre) @ needle @ post" by simp
      then show ?thesis by blast
    qed
  next
    assume "\<exists>pre post. c # rest = pre @ needle @ post"
    then obtain pre post where eq: "c # rest = pre @ needle @ post" by blast
    show "contains_window needle (c # rest)"
    proof (cases pre)
      case Nil
      have "take (length needle) (c # rest) = needle" unfolding eq Nil by simp
      then show ?thesis by simp
    next
      case (Cons d pre')
      with eq Cons.IH show ?thesis by auto
    qed
  qed
qed simp

end
