(* ===== verification/Startup_Wait.thy ===== *)
theory Startup_Wait
  imports Boot_Progress
begin

section \<open>Waiting for a host that starts\<close>

text \<open>
  The wait that progress renews (\<open>await_response_awaiting_progress\<close> and \<open>stalled\<close> of
  \<open>host_process.rs\<close>) and the deadlines of a whole startup (\<open>Deadlines\<close> of \<open>cli.rs\<close>). Time is the
  number of nanoseconds since the wait started, on an ideal clock: a sleep ends when it is due.
  A wait is a step relation over what wakes it, in order of time; where two branches of the
  \<open>select!\<close> are ready at the same moment, either may be taken, as tokio documents.
\<close>

datatype wakeup =
    ResponseReady "(host_error, json) result"
  | ResponseClosed
  | StageReported boot_progress
  | StagesClosed

definition stalled_error ::
  "string \<Rightarrow> boot_progress option \<Rightarrow> stall_kind \<Rightarrow> duration \<Rightarrow> progress_wait \<Rightarrow> host_error" where
  "stalled_error fallback_stage progress kind waited w =
     (let stage = (case progress of None \<Rightarrow> fallback_stage | Some b \<Rightarrow> describe b);
          budget = (case kind of Silent \<Rightarrow> pw_inactivity w | Ceiling \<Rightarrow> pw_ceiling w)
      in StartupStalled (stall_message stage kind waited budget))"

definition wait_slice :: "progress_wait \<Rightarrow> duration \<Rightarrow> duration" where
  "wait_slice w elapsed = min (pw_inactivity w) (pw_ceiling w - elapsed)"

definition wait_kind :: "progress_wait \<Rightarrow> duration \<Rightarrow> stall_kind" where
  "wait_kind w elapsed = (if wait_slice w elapsed = pw_ceiling w - elapsed then Ceiling else Silent)"

fun is_answer :: "wakeup \<Rightarrow> bool" where
  "is_answer (ResponseReady r) = True"
| "is_answer ResponseClosed = True"
| "is_answer u = False"

text \<open>
  \<open>awaits fallback w elapsed watching progress wakeups outcome finished\<close>: one round of the loop
  starts at \<open>elapsed\<close>, and the wait ends with \<open>outcome\<close> at \<open>finished\<close>.
\<close>

inductive awaits ::
  "string \<Rightarrow> progress_wait \<Rightarrow> duration \<Rightarrow> bool \<Rightarrow> boot_progress option \<Rightarrow>
   (duration \<times> wakeup) list \<Rightarrow> (host_error, json) result \<Rightarrow> duration \<Rightarrow> bool"
  for fallback :: string and w :: progress_wait where
  expired: "pw_ceiling w < elapsed \<Longrightarrow>
    awaits fallback w elapsed watching progress wakeups
      (Err (stalled_error fallback progress Ceiling elapsed w)) elapsed"
| answered: "elapsed \<le> pw_ceiling w \<Longrightarrow> elapsed \<le> t \<Longrightarrow> t \<le> elapsed + wait_slice w elapsed \<Longrightarrow>
    awaits fallback w elapsed watching progress ((t, ResponseReady answer) # wakeups) answer t"
| closed: "elapsed \<le> pw_ceiling w \<Longrightarrow> elapsed \<le> t \<Longrightarrow> t \<le> elapsed + wait_slice w elapsed \<Longrightarrow>
    awaits fallback w elapsed watching progress ((t, ResponseClosed) # wakeups)
      (Err (Stopped ''response channel closed'')) t"
| renewed: "elapsed \<le> pw_ceiling w \<Longrightarrow> elapsed \<le> t \<Longrightarrow> t \<le> elapsed + wait_slice w elapsed \<Longrightarrow>
    awaits fallback w t True (Some b) wakeups outcome finished \<Longrightarrow>
    awaits fallback w elapsed True progress ((t, StageReported b) # wakeups) outcome finished"
| unwatched: "elapsed \<le> pw_ceiling w \<Longrightarrow> elapsed \<le> t \<Longrightarrow> t \<le> elapsed + wait_slice w elapsed \<Longrightarrow>
    awaits fallback w t False progress wakeups outcome finished \<Longrightarrow>
    awaits fallback w elapsed True progress ((t, StagesClosed) # wakeups) outcome finished"
| unseen: "\<not> is_answer u \<Longrightarrow>
    awaits fallback w elapsed False progress wakeups outcome finished \<Longrightarrow>
    awaits fallback w elapsed False progress ((t, u) # wakeups) outcome finished"
| slept: "elapsed \<le> pw_ceiling w \<Longrightarrow>
    (\<forall>t \<in> fst ` set wakeups. elapsed + wait_slice w elapsed \<le> t) \<Longrightarrow>
    awaits fallback w elapsed watching progress wakeups
      (Err (stalled_error fallback progress (wait_kind w elapsed) (elapsed + wait_slice w elapsed) w))
      (elapsed + wait_slice w elapsed)"

inductive_cases awaits_NilE: "awaits fallback w elapsed watching progress [] outcome finished"
inductive_cases awaits_ConsE: "awaits fallback w elapsed watching progress (x # xs) outcome finished"

lemma wait_slice_ceiling: "elapsed \<le> pw_ceiling w \<Longrightarrow> elapsed + wait_slice w elapsed \<le> pw_ceiling w"
  by (simp add: wait_slice_def)

lemma awaits_ceiling:
  "awaits fallback w elapsed watching progress wakeups outcome finished \<Longrightarrow> elapsed \<le> pw_ceiling w \<Longrightarrow>
   elapsed \<le> finished \<and> finished \<le> pw_ceiling w"
proof (induction rule: awaits.induct)
  case (renewed elapsed t b wakeups outcome finished progress)
  with wait_slice_ceiling [of elapsed w] show ?case by auto
next
  case (unwatched elapsed t progress wakeups outcome finished)
  with wait_slice_ceiling [of elapsed w] show ?case by auto
qed (auto dest: wait_slice_ceiling)

text \<open>The times at which a wait was woken: every wakeup, or those of the answer when not watching.\<close>

lemma awaits_total:
  assumes "sorted (map fst wakeups)" "\<forall>t \<in> fst ` set wakeups. elapsed \<le> t"
  shows "\<exists>outcome finished. awaits fallback w elapsed watching progress wakeups outcome finished"
  using assms
proof (induction wakeups arbitrary: elapsed watching progress)
  case Nil
  show ?case
  proof (cases "elapsed \<le> pw_ceiling w")
    case True
    from awaits.slept [OF this, of "[]"] show ?thesis by simp blast
  next
    case False
    then have "pw_ceiling w < elapsed" by simp
    from awaits.expired [OF this] show ?thesis by blast
  qed
next
  case (Cons x wakeups)
  obtain t u where x: "x = (t, u)" by (cases x)
  show ?case
  proof (cases "elapsed \<le> pw_ceiling w")
    case False
    then have "pw_ceiling w < elapsed" by simp
    from awaits.expired [OF this] show ?thesis by blast
  next
    case early: True
    show ?thesis
    proof (cases "t \<le> elapsed + wait_slice w elapsed")
      case False
      with Cons.prems x have "\<forall>t \<in> fst ` set (x # wakeups). elapsed + wait_slice w elapsed \<le> t" by auto
      from awaits.slept [OF early this] show ?thesis by blast
    next
      case True
      have le: "elapsed \<le> t" using Cons.prems x by simp
      have later: "\<forall>s \<in> fst ` set wakeups. t \<le> s" using Cons.prems x by auto
      have sorted: "sorted (map fst wakeups)" using Cons.prems by simp
      have early': "\<forall>s \<in> fst ` set wakeups. elapsed \<le> s" using later le by auto
      show ?thesis
      proof (cases u)
        case (ResponseReady r)
        with x awaits.answered [OF early le True] show ?thesis by blast
      next
        case ResponseClosed
        with x awaits.closed [OF early le True] show ?thesis by blast
      next
        case (StageReported b)
        obtain o1 f1 o2 f2 where "awaits fallback w t True (Some b) wakeups o1 f1"
          "awaits fallback w elapsed False progress wakeups o2 f2"
          using Cons.IH [OF sorted later] Cons.IH [OF sorted early'] by metis
        with x StageReported awaits.renewed [OF early le True] awaits.unseen [of u] show ?thesis
          by (cases watching) (simp, blast)+
      next
        case StagesClosed
        obtain o1 f1 o2 f2 where "awaits fallback w t False progress wakeups o1 f1"
          "awaits fallback w elapsed False progress wakeups o2 f2"
          using Cons.IH [OF sorted later] Cons.IH [OF sorted early'] by metis
        with x StagesClosed awaits.unwatched [OF early le True] awaits.unseen [of u] show ?thesis
          by (cases watching) (simp, blast)+
      qed
    qed
  qed
qed

text \<open>\<open>steady w elapsed reports\<close>: the stage reports come quicker than the inactivity bound, before the ceiling.\<close>

fun steady :: "progress_wait \<Rightarrow> duration \<Rightarrow> duration list \<Rightarrow> bool" where
  "steady w elapsed [] = True"
| "steady w elapsed (t # ts) \<longleftrightarrow>
     elapsed \<le> t \<and> t < elapsed + pw_inactivity w \<and> t < pw_ceiling w \<and> steady w t ts"

lemma steady_slice: "elapsed \<le> t \<Longrightarrow> t < elapsed + pw_inactivity w \<Longrightarrow> t < pw_ceiling w \<Longrightarrow>
    t < elapsed + wait_slice w elapsed"
  by (auto simp: wait_slice_def)

lemma steady_answered:
  assumes "steady w elapsed (map fst reports @ [t])"
    "\<And>x. x \<in> set reports \<Longrightarrow> \<exists>b. snd x = StageReported b"
    "awaits fallback w elapsed True progress (reports @ (t, ResponseReady answer) # rest) outcome finished"
  shows "outcome = answer \<and> finished = t"
  using assms
proof (induction reports arbitrary: elapsed progress)
  case Nil
  then have "t < elapsed + wait_slice w elapsed" "t < pw_ceiling w" "elapsed \<le> t"
    by (auto intro: steady_slice)
  with Nil.prems(3) show ?case by (auto elim!: awaits_ConsE)
next
  case (Cons x reports)
  obtain s b where x: "x = (s, StageReported b)" using Cons.prems(2) by (metis list.set_intros(1) prod.collapse)
  with Cons.prems(1) have s: "elapsed \<le> s" "s < elapsed + wait_slice w elapsed" "s < pw_ceiling w"
    "steady w s (map fst reports @ [t])"
    by (auto intro: steady_slice)
  from Cons.prems(3) x s have "awaits fallback w s True (Some b) (reports @ (t, ResponseReady answer) # rest) outcome finished"
    by (auto elim!: awaits_ConsE)
  with Cons.IH [OF s(4)] Cons.prems(2) show ?case by auto
qed

text \<open>Silence: a wait that ends as silent ended a whole inactivity bound after the last report.\<close>

lemma awaits_silent:
  assumes "awaits fallback w elapsed True progress wakeups outcome finished"
    "outcome = Err (StartupStalled m)" "sorted (map fst wakeups)" "\<forall>t \<in> fst ` set wakeups. elapsed \<le> t"
    "elapsed \<le> pw_ceiling w" "finished \<noteq> pw_ceiling w"
    "\<And>x. x \<in> set wakeups \<Longrightarrow> (\<exists>b. snd x = StageReported b)"
  shows "\<exists>last. elapsed \<le> last \<and> finished = last + pw_inactivity w
    \<and> (last = elapsed \<or> last \<in> fst ` set wakeups)
    \<and> (\<forall>t \<in> fst ` set wakeups. t \<le> last \<or> finished \<le> t)"
  using assms
proof (induction wakeups arbitrary: elapsed progress)
  case Nil
  then show ?case by (auto elim!: awaits_NilE simp: wait_slice_def min_def split: if_splits)
next
  case (Cons x wakeups)
  obtain s b where x: "x = (s, StageReported b)" using Cons.prems(7) by (metis list.set_intros(1) prod.collapse)
  have "sorted (map fst wakeups)" "\<forall>t \<in> fst ` set wakeups. s \<le> t" "elapsed \<le> s" using Cons.prems(3,4) x by auto
  note rest = Cons.IH [OF _ Cons.prems(2) this(1,2) _ Cons.prems(6)]
  from Cons.prems(1) x have "awaits fallback w elapsed True progress ((s, StageReported b) # wakeups) outcome finished"
    by simp
  then show ?case
  proof cases
    case renewed
    then have "s \<le> pw_ceiling w" using x wait_slice_ceiling [of elapsed w] by simp
    moreover have "\<And>x. x \<in> set wakeups \<Longrightarrow> \<exists>b. snd x = StageReported b" using Cons.prems(7) by simp
    ultimately obtain last where "s \<le> last" "finished = last + pw_inactivity w"
      "last = s \<or> last \<in> fst ` set wakeups" "\<forall>t \<in> fst ` set wakeups. t \<le> last \<or> finished \<le> t"
      using rest [OF renewed(4)] by blast
    with \<open>elapsed \<le> s\<close> x show ?thesis by (intro exI [of _ last]) auto
  next
    case slept
    with Cons.prems(5,6) x show ?thesis
      by (intro exI [of _ elapsed]) (auto simp: wait_slice_def min_def split: if_splits)
  qed (use Cons.prems x in auto)
qed

subsection \<open>The deadlines of a startup\<close>

record deadlines =
  dl_handshake :: duration
  dl_inactivity :: duration
  dl_ceiling :: duration
  dl_ceiling_budget :: duration

definition new_deadlines :: "duration \<Rightarrow> startup_budget \<Rightarrow> deadlines" where
  "new_deadlines now b =
     \<lparr>dl_handshake = sb_handshake b, dl_inactivity = sb_inactivity b,
      dl_ceiling = now + sb_ceiling b, dl_ceiling_budget = sb_ceiling b\<rparr>"

text \<open>\<open>checked_duration_since\<close>: \<open>None\<close> when the instant has passed.\<close>

definition checked_duration_since :: "duration \<Rightarrow> duration \<Rightarrow> duration option" where
  "checked_duration_since later earlier = (if earlier \<le> later then Some (later - earlier) else None)"

definition silent_step :: "deadlines \<Rightarrow> duration \<Rightarrow> string \<Rightarrow> duration \<Rightarrow> (host_error, duration) result" where
  "silent_step d now stage bound =
     tryR (ok_or (checked_duration_since (dl_ceiling d) now)
             (StartupStalled (stall_message stage Ceiling (dl_ceiling_budget d) (dl_ceiling_budget d))))
       (\<lambda>left. Ok (min bound left))"

definition stalled_step :: "string \<Rightarrow> duration \<Rightarrow> host_error \<Rightarrow> host_error" where
  "stalled_step stage waited error =
     (case error of
        RequestTimedOut i \<Rightarrow> StartupStalled (stall_message stage Silent waited waited)
      | other \<Rightarrow> other)"

definition progress_step :: "deadlines \<Rightarrow> duration \<Rightarrow> progress_wait" where
  "progress_step d now =
     \<lparr>pw_inactivity = dl_inactivity d,
      pw_ceiling = (case checked_duration_since (dl_ceiling d) now of Some left \<Rightarrow> left | None \<Rightarrow> 0)\<rparr>"

end
