(* ===== verification/Host_Output.thy ===== *)
theory Host_Output
  imports Room_Prelude
begin

section \<open>The host's output streams\<close>

text \<open>
  \<open>StrictLinesCodec\<close> of \<open>host_process.rs\<close>, which cuts standard output into lines and refuses an
  unterminated last one, and the bounded tail kept of standard error. \<open>read_chunks\<close> is the loop of
  tokio's \<open>FramedRead\<close>, documented as: decode until there is no frame, read more, and at the end
  of the stream call \<open>decode_eof\<close> until there is none.
\<close>

definition LF :: char where "LF = CHR 0x0A"

definition frame_too_long :: string where
  "frame_too_long = ''room host stdout frame exceeds 1 MiB including LF''"

definition frame_unterminated :: string where
  "frame_unterminated = ''room host stdout closed with an unterminated frame''"

text \<open>\<open>iter().position(\<dots>)\<close>.\<close>

definition position_of :: "char \<Rightarrow> string \<Rightarrow> nat option" where
  "position_of c s = (if c \<in> set s then Some (length (takeWhile (\<lambda>d. d \<noteq> c) s)) else None)"

definition decode :: "nat \<Rightarrow> string \<Rightarrow> (string, string option \<times> string) result" where
  "decode max_length source =
     (case position_of LF source of
        None \<Rightarrow>
          if length source > max_length then Err frame_too_long else Ok (None, source)
      | Some newline \<Rightarrow>
          if newline > max_length then Err frame_too_long
          else Ok (Some (take newline source), drop (newline + 1) source))"

definition decode_eof :: "nat \<Rightarrow> string \<Rightarrow> (string, string option \<times> string) result" where
  "decode_eof max_length source =
     (if source = [] then Ok (None, source)
      else tryR (decode max_length source) (\<lambda>(item, rest).
        case item of
          Some frame \<Rightarrow> Ok (Some frame, rest)
        | None \<Rightarrow> Err frame_unterminated))"

lemma decode_shorter: "decode m s = Ok (Some f, rest) \<Longrightarrow> length rest < length s"
  by (auto simp: decode_def position_of_def split: if_splits option.splits dest: length_pos_if_in_set)

lemma decode_eof_shorter: "decode_eof m s = Ok (Some f, rest) \<Longrightarrow> length rest < length s"
  by (auto simp: decode_eof_def dest: decode_shorter split: if_splits option.splits)

function drain ::
  "(nat \<Rightarrow> string \<Rightarrow> (string, string option \<times> string) result) \<Rightarrow> nat \<Rightarrow> string \<Rightarrow>
   string list \<times> (string, string) result" where
  "drain step m s =
     (case step m s of
        Ok (Some frame, rest) \<Rightarrow>
          if length rest < length s
          then (case drain step m rest of (frames, r) \<Rightarrow> (frame # frames, r))
          else ([frame], Ok rest)
      | Ok (None, rest) \<Rightarrow> ([], Ok rest)
      | Err e \<Rightarrow> ([], Err e)
      | Panic p \<Rightarrow> ([], Panic p))"
  by pat_completeness auto
termination by (relation "measure (\<lambda>(step, m, s). length s)") auto

declare drain.simps [simp del]

fun read_chunks :: "nat \<Rightarrow> string \<Rightarrow> string list \<Rightarrow> string list \<times> (string, unit) result" where
  "read_chunks m buffer [] =
     (case drain decode_eof m buffer of (frames, r) \<Rightarrow> (frames, tryR r (\<lambda>_. Ok ())))"
| "read_chunks m buffer (chunk # chunks) =
     (case drain decode m (buffer @ chunk) of
        (frames, Ok rest) \<Rightarrow>
          (case read_chunks m rest chunks of (frames', r) \<Rightarrow> (frames @ frames', r))
      | (frames, Err e) \<Rightarrow> (frames, Err e)
      | (frames, Panic p) \<Rightarrow> (frames, Panic p))"

subsection \<open>The tail of standard error\<close>

definition MAX_STDERR_TAIL_BYTES :: nat where "MAX_STDERR_TAIL_BYTES = 64 * 1024"

definition push_stderr :: "string \<Rightarrow> string \<Rightarrow> string" where
  "push_stderr tail_bytes chunk =
     (let t = tail_bytes @ chunk in
      if length t > MAX_STDERR_TAIL_BYTES then drop (length t - MAX_STDERR_TAIL_BYTES) t else t)"

lemma push_stderr_drop:
  "push_stderr (drop (length s - MAX_STDERR_TAIL_BYTES) s) chunk
     = drop (length (s @ chunk) - MAX_STDERR_TAIL_BYTES) (s @ chunk)"
  by (cases "length s \<le> MAX_STDERR_TAIL_BYTES") (simp_all add: push_stderr_def Let_def add.commute)

lemma stderr_tail: "foldl push_stderr [] chunks
    = drop (length (concat chunks) - MAX_STDERR_TAIL_BYTES) (concat chunks)"
proof (induction chunks rule: rev_induct)
  case (snoc c cs)
  then show ?case using push_stderr_drop [of "concat cs" c] by simp
qed simp

subsection \<open>Cutting does not depend on the chunks\<close>

lemma position_of_append:
  "position_of c s = None \<Longrightarrow> position_of c (s @ t) = map_option (\<lambda>k. length s + k) (position_of c t)"
proof -
  assume "position_of c s = None"
  then have c: "c \<notin> set s" by (auto simp: position_of_def split: if_splits)
  then have "takeWhile (\<lambda>d. d \<noteq> c) (s @ t) = s @ takeWhile (\<lambda>d. d \<noteq> c) t"
    by (intro takeWhile_append2) auto
  with c show ?thesis by (simp add: position_of_def)
qed

lemma takeWhile_line: "LF \<notin> set l \<Longrightarrow> takeWhile (\<lambda>d. d \<noteq> LF) (l @ LF # s) = l"
  by (subst takeWhile_append2) auto

lemma decode_line:
  "LF \<notin> set l \<Longrightarrow> decode m (l @ LF # s) = (if length l > m then Err frame_too_long else Ok (Some l, s))"
  by (simp add: decode_def position_of_def takeWhile_line)

lemma drain_line:
  "LF \<notin> set l \<Longrightarrow> length l \<le> m \<Longrightarrow>
   drain decode m (l @ LF # s) = (case drain decode m s of (frames, r) \<Rightarrow> (l # frames, r))"
  by (subst drain.simps) (simp add: decode_line split: prod.splits)

lemma drain_partial:
  "LF \<notin> set s \<Longrightarrow> drain decode m s = ([], if length s > m then Err frame_too_long else Ok s)"
  by (subst drain.simps) (simp add: decode_def position_of_def)

lemma line_split: "LF \<in> set s \<Longrightarrow> \<exists>l rest. s = l @ LF # rest \<and> LF \<notin> set l"
  by (metis split_list_first)

lemma drain_append:
  "drain decode m (s @ t) =
     (case drain decode m s of
        (frames, Ok rest) \<Rightarrow>
          (case drain decode m (rest @ t) of (frames', r) \<Rightarrow> (frames @ frames', r))
      | (frames, Err e) \<Rightarrow> (frames, Err e)
      | (frames, Panic p) \<Rightarrow> (frames, Panic p))"
proof (induction "length s" arbitrary: s rule: less_induct)
  case less
  show ?case
  proof (cases "LF \<in> set s")
    case True
    then obtain l rest where s: "s = l @ LF # rest" "LF \<notin> set l" using line_split by blast
    show ?thesis
    proof (cases "length l \<le> m")
      case True
      with less [of rest] s show ?thesis by (auto simp: drain_line split: prod.splits result.splits)
    next
      case False
      with s show ?thesis by (subst (1 2) drain.simps) (simp add: decode_line)
    qed
  next
    case partial: False
    show ?thesis
    proof (cases "length s \<le> m")
      case True
      with partial show ?thesis by (simp add: drain_partial split: prod.splits)
    next
      case False
      have "decode m (s @ t) = Err frame_too_long"
        using partial False position_of_append [of LF s t]
        by (auto simp: decode_def position_of_def split: option.splits)
      with partial False show ?thesis by (simp add: drain_partial) (subst drain.simps, simp)
    qed
  qed
qed

lemma drain_rest: "drain decode m s = (frames, Ok rest) \<Longrightarrow> LF \<notin> set rest \<and> length rest \<le> m"
proof (induction "length s" arbitrary: s frames rule: less_induct)
  case less
  show ?case
  proof (cases "LF \<in> set s")
    case True
    then obtain l r where s: "s = l @ LF # r" "LF \<notin> set l" using line_split by blast
    show ?thesis
    proof (cases "length l \<le> m")
      case True
      obtain fs where "drain decode m r = (fs, Ok rest)"
        using less.prems s True by (auto simp: drain_line split: prod.splits)
      with less.hyps [of r fs] s show ?thesis by simp
    next
      case False
      with less.prems s show ?thesis by (subst (asm) drain.simps) (simp add: decode_line)
    qed
  qed (use less.prems in \<open>auto simp: drain_partial split: if_splits\<close>)
qed

lemma drain_eof:
  "LF \<notin> set s \<Longrightarrow> length s \<le> m \<Longrightarrow>
   drain decode_eof m s = ([], if s = [] then Ok [] else Err frame_unterminated)"
  by (subst drain.simps) (simp add: decode_eof_def decode_def position_of_def)

text \<open>The reference: all the bytes at once.\<close>

definition strict_lines :: "nat \<Rightarrow> string \<Rightarrow> string list \<times> (string, unit) result" where
  "strict_lines m s =
     (case drain decode m s of
        (frames, Ok rest) \<Rightarrow> (frames, if rest = [] then Ok () else Err frame_unterminated)
      | (frames, Err e) \<Rightarrow> (frames, Err e)
      | (frames, Panic p) \<Rightarrow> (frames, Panic p))"

lemma read_chunks_strict_lines:
  "LF \<notin> set buffer \<Longrightarrow> length buffer \<le> m \<Longrightarrow>
   read_chunks m buffer chunks = strict_lines m (buffer @ concat chunks)"
proof (induction chunks arbitrary: buffer)
  case Nil
  then show ?case by (simp add: strict_lines_def drain_partial drain_eof)
next
  case (Cons chunk chunks)
  show ?case
  proof (cases "drain decode m (buffer @ chunk)")
    case (Pair frames r)
    show ?thesis
    proof (cases r)
      case (Ok rest)
      with Pair drain_rest have "LF \<notin> set rest" "length rest \<le> m" by blast+
      from Cons.IH [OF this] Pair Ok show ?thesis
        using drain_append [of m "buffer @ chunk" "concat chunks"]
        by (simp add: strict_lines_def split: prod.splits result.splits)
    qed (use Pair drain_append [of m "buffer @ chunk" "concat chunks"] in
        \<open>simp_all add: strict_lines_def\<close>)
  qed
qed

lemma strict_lines_lines:
  assumes "\<forall>l \<in> set ls. LF \<notin> set l \<and> length l \<le> m" "LF \<notin> set rest" "length rest \<le> m"
  shows "strict_lines m (concat (map (\<lambda>l. l @ [LF]) ls) @ rest)
    = (ls, if rest = [] then Ok () else Err frame_unterminated)"
proof -
  have "drain decode m (concat (map (\<lambda>l. l @ [LF]) ls) @ rest) = (ls, Ok rest)"
    using assms(1)
  proof (induction ls)
    case Nil
    with assms(2,3) show ?case by (simp add: drain_partial)
  next
    case (Cons l ls)
    then have "drain decode m (l @ LF # (concat (map (\<lambda>l. l @ [LF]) ls) @ rest)) = (l # ls, Ok rest)"
      by (subst drain_line) simp_all
    then show ?case by simp
  qed
  then show ?thesis by (simp add: strict_lines_def)
qed

lemma drain_frames: "f \<in> set (fst (drain decode m s)) \<Longrightarrow> LF \<notin> set f \<and> length f \<le> m"
proof (induction "length s" arbitrary: s rule: less_induct)
  case less
  show ?case
  proof (cases "LF \<in> set s")
    case True
    then obtain l r where s: "s = l @ LF # r" "LF \<notin> set l" using line_split by blast
    show ?thesis
    proof (cases "length l \<le> m")
      case True
      obtain fs r' where r: "drain decode m r = (fs, r')" by (cases "drain decode m r")
      with less.prems s True have "f = l \<or> f \<in> set (fst (drain decode m r))" by (auto simp: drain_line)
      with less.hyps [of r] s True show ?thesis by auto
    next
      case False
      with less.prems s show ?thesis by (subst (asm) drain.simps) (simp add: decode_line)
    qed
  qed (use less.prems in \<open>auto simp: drain_partial\<close>)
qed

end
