(* ===== verification/Host_State.thy ===== *)
theory Host_State
  imports Room_Transport Startup_Wait Host_Output
begin

section \<open>The state of a running host\<close>

text \<open>
  \<open>HostInner\<close> of \<open>host_process.rs\<close> and everything that changes it: requests and their answers,
  the frames of the host's output, failures, exits, the shutdown and the drop of the owner. One
  definition is what a task does between two points where it waits; what it waits for (whether a
  send was taken, which answer came) is an argument. Only the waits for the exit and those of a
  shutdown are played out, with what the other tasks do in the meantime. A channel is the
  list of what was sent on it; \<open>hi_answers\<close> is what the one-shot channel of each request received.
\<close>

datatype host_event = HostReadiness room_event | HostRoom room_event | HostExited host_exit

type_synonym answer = "(host_error, json) result"

record host_inner =
  hi_accepting :: bool
  hi_shutdown_started :: bool
  hi_failure_recorded :: bool
  hi_next_request :: u64
  hi_writer :: bool
  hi_sent :: "json list"
  hi_pending :: "string set"
  hi_answers :: "string \<Rightarrow> answer option"
  hi_events :: "host_event list"
  hi_readiness :: "room_event option"
  hi_room_view_revision :: u64
  hi_live :: bool
  hi_exit :: "host_exit option"
  hi_transport_failure :: "host_error option"
  hi_boot_progress :: "boot_progress option"
  hi_transport :: room_transport
  hi_termination :: "launcher_termination option"
  hi_killed :: bool
  hi_cancelled :: bool
  hi_handoffs :: nat

definition new_host :: host_inner where
  "new_host =
     \<lparr>hi_accepting = True, hi_shutdown_started = False, hi_failure_recorded = False,
      hi_next_request = 1, hi_writer = True, hi_sent = [], hi_pending = {},
      hi_answers = Map.empty, hi_events = [], hi_readiness = None, hi_room_view_revision = 0,
      hi_live = False, hi_exit = None, hi_transport_failure = None, hi_boot_progress = None,
      hi_transport = new_transport, hi_termination = None, hi_killed = False,
      hi_cancelled = False, hi_handoffs = 0\<rparr>"

text \<open>What the host process is given by libraries: see \<^theory_text>\<open>Room_Transport\<close>; \<open>en_json_size\<close> is the
  length of a printed value.\<close>

record host_env =
  en_rfc3339 :: "string \<Rightarrow> bool"
  en_serde_err :: "json \<Rightarrow> string"
  en_event_size :: "room_event \<Rightarrow> u64"
  en_parse_json :: "string \<Rightarrow> (string, json) result"
  en_frame_err :: "string \<Rightarrow> string"
  en_json_size :: "json \<Rightarrow> nat"

type_synonym 'a hosted = "(host_inner, host_error, 'a) outcome"

subsection \<open>Pending requests\<close>

definition pending_insert :: "string \<Rightarrow> host_inner \<Rightarrow> host_inner" where
  "pending_insert i h = h\<lparr>hi_pending := insert i (hi_pending h)\<rparr>"

definition pending_remove :: "string \<Rightarrow> host_inner \<Rightarrow> host_inner" where
  "pending_remove i h = h\<lparr>hi_pending := hi_pending h - {i}\<rparr>"

definition answer_pending :: "string \<Rightarrow> answer \<Rightarrow> host_inner \<Rightarrow> host_inner" where
  "answer_pending i answer h =
     (if i \<in> hi_pending h
      then (pending_remove i h)\<lparr>hi_answers := (hi_answers h)(i \<mapsto> answer)\<rparr>
      else h)"

definition fail_pending :: "host_error \<Rightarrow> host_inner \<Rightarrow> host_inner" where
  "fail_pending error h =
     h\<lparr>hi_answers := (\<lambda>i. if i \<in> hi_pending h then Some (Err error) else hi_answers h i),
       hi_pending := {}\<rparr>"

definition next_id :: "string \<Rightarrow> host_inner \<Rightarrow> string \<times> host_inner" where
  "next_id prefix h =
     (prefix @ ''-'' @ show_nat (unat (hi_next_request h)),
      h\<lparr>hi_next_request := hi_next_request h + 1\<rparr>)"

subsection \<open>Sending\<close>

text \<open>Whether the writer's queue took the line within its bound.\<close>

datatype send_outcome = Queued | WriterStopped | Backpressure

definition send_value :: "host_env \<Rightarrow> send_outcome \<Rightarrow> json \<Rightarrow> host_inner \<Rightarrow> unit hosted" where
  "send_value env sent v h =
     (if en_json_size env v + 1 > MAX_FRAME_BYTES
      then (Err (Frame ''outbound request exceeds 1 MiB''), h)
      else if \<not> hi_writer h then (Err AdmissionClosed, h)
      else case sent of
        Queued \<Rightarrow> (Ok (), h\<lparr>hi_sent := hi_sent h @ [v]\<rparr>)
      | WriterStopped \<Rightarrow> (Err (Stopped ''stdin writer stopped''), h)
      | Backpressure \<Rightarrow> (Err (RequestTimedOut ''stdin writer backpressure''), h))"

definition send_request ::
  "host_env \<Rightarrow> send_outcome \<Rightarrow> string \<Rightarrow> string \<Rightarrow> json \<Rightarrow> host_inner \<Rightarrow> unit hosted" where
  "send_request env sent i method params h =
     (case request_to_json \<lparr>rq_id = IdString i, rq_method = method, rq_params = params\<rparr> of
        None \<Rightarrow> (Err (Io (''JSON-RPC request serialization failed: '' @ en_serde_err env params)), h)
      | Some v \<Rightarrow>
          (case send_value env sent v (pending_insert i h) of
             (Ok u, h1) \<Rightarrow> (Ok (), h1)
           | (Err e, h1) \<Rightarrow> (Err e, pending_remove i h1)
           | (Panic m, h1) \<Rightarrow> (Panic m, h1)))"

definition send_resync ::
  "host_env \<Rightarrow> send_outcome \<Rightarrow> string \<Rightarrow> string \<Rightarrow> string \<Rightarrow> host_inner \<Rightarrow> unit hosted" where
  "send_resync env sent rid sid after h =
     (let params = JObject [(''afterEventSeq'', JString after), (''sessionId'', JString sid)] in
      case request_to_json \<lparr>rq_id = IdString rid, rq_method = ''zer0/room/resync'', rq_params = params\<rparr> of
        None \<Rightarrow> (Err (Io (''resync request serialization failed: '' @ en_serde_err env params)), h)
      | Some v \<Rightarrow> send_value env sent v h)"

text \<open>How a wait for an answer ends.\<close>

datatype awaited = Answered answer | AnswerChannelClosed | AnswerTimedOut

definition await_response :: "string \<Rightarrow> awaited \<Rightarrow> host_inner \<Rightarrow> json hosted" where
  "await_response i awaited h =
     (case awaited of
        Answered answer \<Rightarrow> (answer, h)
      | AnswerChannelClosed \<Rightarrow> (Err (Stopped ''response channel closed''), h)
      | AnswerTimedOut \<Rightarrow> (Err (RequestTimedOut i), pending_remove i h))"

text \<open>A client's request up to the wait, and its end: the guard removes the identifier.\<close>

definition begin_request ::
  "host_env \<Rightarrow> send_outcome \<Rightarrow> string \<Rightarrow> json \<Rightarrow> host_inner \<Rightarrow> string hosted" where
  "begin_request env sent method params h =
     (if \<not> hi_accepting h then (Err AdmissionClosed, h)
      else case next_id ''zer0-request'' h of (i, h1) \<Rightarrow>
        (case send_request env sent i method params h1 of
           (Ok u, h2) \<Rightarrow> (Ok i, h2)
         | (Err e, h2) \<Rightarrow> (Err e, pending_remove i h2)
         | (Panic m, h2) \<Rightarrow> (Panic m, h2)))"

definition end_request :: "string \<Rightarrow> awaited \<Rightarrow> host_inner \<Rightarrow> json hosted" where
  "end_request i awaited h =
     (case await_response i awaited h of (r, h1) \<Rightarrow> (r, pending_remove i h1))"

subsection \<open>Failures\<close>

definition note_transport_failure :: "host_error \<Rightarrow> host_inner \<Rightarrow> bool \<times> host_inner" where
  "note_transport_failure error h =
     (if hi_failure_recorded h then (False, h)
      else (True, (fail_pending error
                    (h\<lparr>hi_failure_recorded := True, hi_accepting := False,
                       hi_transport_failure := Some error\<rparr>))\<lparr>hi_writer := False\<rparr>))"

subsection \<open>Exits\<close>

definition note_launcher_termination :: "launcher_termination \<Rightarrow> host_inner \<Rightarrow> host_inner" where
  "note_launcher_termination termination h =
     (if hi_exit h \<noteq> None then h
      else case hi_termination h of
        None \<Rightarrow> h\<lparr>hi_termination := Some termination\<rparr>
      | Some _ \<Rightarrow> h)"

definition take_launcher_termination :: "host_inner \<Rightarrow> launcher_termination option \<times> host_inner" where
  "take_launcher_termination h = (hi_termination h, h\<lparr>hi_termination := None\<rparr>)"

fun debug_code :: "32 word option \<Rightarrow> string" where
  "debug_code (Some code) = ''Some('' @ show_int (sint code) @ '')''"
| "debug_code None = ''None''"

definition record_exit :: "32 word option \<Rightarrow> bool \<Rightarrow> host_inner \<Rightarrow> host_inner" where
  "record_exit code success h =
     (case take_launcher_termination h of (termination, h1) \<Rightarrow>
        let exit = \<lparr>he_code = code, he_success = success,
                    he_cause = (case termination of None \<Rightarrow> ByHost | Some t \<Rightarrow> LauncherTerminated t)\<rparr>;
            pending_error = (case hi_transport_failure h1 of
                               Some e \<Rightarrow> e
                             | None \<Rightarrow> Stopped (''host exited with '' @ debug_code code));
            h2 = fail_pending pending_error (h1\<lparr>hi_accepting := False\<rparr>)
        in h2\<lparr>hi_writer := False, hi_exit := Some exit,
              hi_events := hi_events h2 @ [HostExited exit], hi_cancelled := True\<rparr>)"

definition record_reap_failure :: "host_error \<Rightarrow> host_inner \<Rightarrow> host_inner" where
  "record_reap_failure error h =
     (snd (note_transport_failure error (h\<lparr>hi_accepting := False\<rparr>)))\<lparr>hi_cancelled := True\<rparr>"

subsection \<open>Waiting while other tasks run\<close>

text \<open>
  A wait does not stop the process: the reader, the monitor, the clients and the reaper of a failure
  change the same state until it ends. A \<open>doing\<close> is such a change with the time it is made.
  \<open>run_until\<close> takes a schedule of them in order, up to the deadline, until the awaited condition
  holds, and returns the time that has then come and what is left of the schedule; the condition is
  read before the deadline, as a \<open>timeout\<close> polls what it wraps before its timer. Times count from
  the start of the operation that waits, and the clock is ideal: a wait that runs out ends at its
  deadline.
\<close>

type_synonym doing = "duration \<times> (host_inner \<Rightarrow> host_inner)"

fun run_until ::
  "(host_inner \<Rightarrow> bool) \<Rightarrow> duration \<Rightarrow> duration \<Rightarrow> doing list \<Rightarrow> host_inner \<Rightarrow>
   duration \<times> doing list \<times> host_inner" where
  "run_until ready deadline now [] h = (if ready h then now else deadline, [], h)"
| "run_until ready deadline now ((t, act) # rest) h =
     (if ready h then (now, (t, act) # rest, h)
      else if t \<le> deadline then run_until ready deadline (max now t) rest (act h)
      else (deadline, (t, act) # rest, h))"

text \<open>A wait for nothing but time.\<close>

abbreviation run_others ::
  "duration \<Rightarrow> duration \<Rightarrow> doing list \<Rightarrow> host_inner \<Rightarrow> duration \<times> doing list \<times> host_inner" where
  "run_others \<equiv> run_until (\<lambda>_. False)"

text \<open>\<open>wait_for_exit\<close>: the exit published when the wait ends, or none.\<close>

definition wait_for_exit ::
  "duration \<Rightarrow> duration \<Rightarrow> doing list \<Rightarrow> host_inner \<Rightarrow>
   host_exit option \<times> duration \<times> doing list \<times> host_inner" where
  "wait_for_exit deadline now doings h =
     (case run_until (\<lambda>h. hi_exit h \<noteq> None) deadline now doings h of
        (now1, rest, h1) \<Rightarrow> (hi_exit h1, now1, rest, h1))"

definition kill_all :: "host_inner \<Rightarrow> host_inner" where
  "kill_all h = h\<lparr>hi_killed := True\<rparr>"

definition consume_digest_handoff :: "host_inner \<Rightarrow> host_inner" where
  "consume_digest_handoff h = h\<lparr>hi_handoffs := Suc (hi_handoffs h)\<rparr>"

text \<open>The task a recorded transport failure starts.\<close>

definition reap_after_failure :: "doing list \<Rightarrow> host_inner \<Rightarrow> host_inner" where
  "reap_after_failure doings h =
     (case wait_for_exit FAILURE_REAP_GRACE 0 doings h of (exit, waited, rest, h1) \<Rightarrow>
        let h2 = (if exit = None
                  then kill_all (note_launcher_termination
                         \<lparr>lt_branch = TransportFailureReap, lt_waited = waited\<rparr> h1)
                  else h1)
        in h2\<lparr>hi_cancelled := True\<rparr>)"

subsection \<open>Frames\<close>

fun response_for_pending :: "server_frame \<Rightarrow> (string \<times> answer) option" where
  "response_for_pending (ResponseFrame (ResponseSuccess (ResponseId (IdString i)) result)) =
     Some (i, Ok result)"
| "response_for_pending (ResponseFrame (ResponseError (ResponseId (IdString i)) er)) =
     Some (i, Err (Remote (er_message er)))"
| "response_for_pending _ = None"

fun send_actions ::
  "host_env \<Rightarrow> (transport_action \<Rightarrow> send_outcome) \<Rightarrow> transport_action list \<Rightarrow> host_inner \<Rightarrow> unit hosted" where
  "send_actions env sent [] h = (Ok (), h)"
| "send_actions env sent (action # rest) h =
     bindS (send_resync env (sent action) (request_id action) (resync_session_id action)
              (after_event_seq action) h) (\<lambda>_ h1. send_actions env sent rest h1)"

text \<open>The synchronous part: what an accepted frame publishes.\<close>

definition publish_effects :: "transport_effects \<Rightarrow> room_transport \<Rightarrow> host_inner \<Rightarrow> host_inner" where
  "publish_effects fx t h =
     h\<lparr>hi_transport := t,
       hi_room_view_revision :=
         (if fx_readiness fx \<noteq> None \<or> fx_applied_events fx \<noteq> []
          then hi_room_view_revision h + 1 else hi_room_view_revision h),
       hi_live := (tr_phase t = Live),
       hi_readiness := (case fx_readiness fx of None \<Rightarrow> hi_readiness h | Some r \<Rightarrow> Some r),
       hi_events := hi_events h
         @ (case fx_readiness fx of None \<Rightarrow> [] | Some r \<Rightarrow> [HostReadiness r])
         @ map HostRoom (fx_applied_events fx)\<rparr>"

definition process_frame ::
  "host_env \<Rightarrow> (transport_action \<Rightarrow> send_outcome) \<Rightarrow> server_frame \<Rightarrow> host_inner \<Rightarrow> unit hosted" where
  "process_frame env sent frame h =
     (case ingest_effects (en_rfc3339 env) (en_serde_err env) (en_event_size env) frame (hi_transport h) of
        (Ok fx, t) \<Rightarrow>
          bindS (send_actions env sent (fx_actions fx) (publish_effects fx t h)) (\<lambda>_ h1.
            (Ok (), case response_for_pending frame of
                      None \<Rightarrow> h1
                    | Some (i, answer) \<Rightarrow> answer_pending i answer h1))
      | (Err e, t) \<Rightarrow> (Err (Frame (display_transport_error e)), h\<lparr>hi_transport := t\<rparr>)
      | (Panic m, t) \<Rightarrow> (Panic m, h\<lparr>hi_transport := t\<rparr>))"

text \<open>One line of standard output. The flag says whether the reader goes on.\<close>

definition handle_line ::
  "host_env \<Rightarrow> (transport_action \<Rightarrow> send_outcome) \<Rightarrow> string \<Rightarrow> host_inner \<Rightarrow> bool \<times> host_inner" where
  "handle_line env sent line h =
     (case classify_boot_frame (\<lambda>b. result_option (en_parse_json env b)) line of
        Progress progress \<Rightarrow> (True, h\<lparr>hi_boot_progress := Some progress\<rparr>)
      | Malformed reason \<Rightarrow> (False, snd (note_transport_failure (Frame reason) h))
      | RoomFrame \<Rightarrow>
          (case classify_frame (en_rfc3339 env) (en_serde_err env) (en_parse_json env) (en_frame_err env) line of
             Ok frame \<Rightarrow>
               (case process_frame env sent frame h of
                  (Ok u, h1) \<Rightarrow> (True, h1)
                | (Err e, h1) \<Rightarrow> (False, snd (note_transport_failure e h1))
                | (Panic m, h1) \<Rightarrow> (False, h1))
           | Err e \<Rightarrow> (False, snd (note_transport_failure (Frame (display_transport_error e)) h))
           | Panic m \<Rightarrow> (False, h)))"

text \<open>The end of standard output: an error of the codec, or the end of the stream.\<close>

definition handle_end :: "(string, unit) result \<Rightarrow> host_inner \<Rightarrow> host_inner" where
  "handle_end ended h =
     (case ended of
        Err e \<Rightarrow> snd (note_transport_failure (Frame e) h)
      | _ \<Rightarrow>
          if \<not> hi_shutdown_started h \<and> hi_exit h = None
          then snd (note_transport_failure (Stopped ''stdout closed before host reaping'') h)
          else h)"

fun read_output ::
  "host_env \<Rightarrow> (transport_action \<Rightarrow> send_outcome) \<Rightarrow> string list \<Rightarrow> (string, unit) result \<Rightarrow>
   host_inner \<Rightarrow> host_inner" where
  "read_output env sent [] ended h = handle_end ended h"
| "read_output env sent (line # rest) ended h =
     (case handle_line env sent line h of
        (True, h1) \<Rightarrow> read_output env sent rest ended h1
      | (False, h1) \<Rightarrow> h1)"

definition spawn_stdout_reader ::
  "host_env \<Rightarrow> (transport_action \<Rightarrow> send_outcome) \<Rightarrow> string list \<Rightarrow> host_inner \<Rightarrow> host_inner" where
  "spawn_stdout_reader env sent chunks h =
     (case read_chunks MAX_FRAME_CONTENT_BYTES [] chunks of
        (lines, ended) \<Rightarrow> read_output env sent lines ended h)"

subsection \<open>Shutdown\<close>

text \<open>What a shutdown finds while it waits: when the transport is free to be read, what becomes of the
  send and when, when the writer is free to be closed, and what the other tasks do, with the times.
  All times count from the start of the shutdown.\<close>

record shutdown_script =
  ss_asked_at :: duration
  ss_sent :: send_outcome
  ss_sent_at :: duration
  ss_closed_at :: duration
  ss_doings :: "doing list"

text \<open>The wait for the answer: the channel has a value, has lost its sender, or neither in time.\<close>

definition await_answer ::
  "string \<Rightarrow> duration \<Rightarrow> duration \<Rightarrow> doing list \<Rightarrow> host_inner \<Rightarrow>
   awaited \<times> duration \<times> doing list \<times> host_inner" where
  "await_answer i deadline now doings h =
     (case run_until (\<lambda>h. hi_answers h i \<noteq> None \<or> i \<notin> hi_pending h) deadline now doings h of
        (now1, rest, h1) \<Rightarrow>
          (case hi_answers h1 i of
             Some reply \<Rightarrow> Answered reply
           | None \<Rightarrow> if i \<in> hi_pending h1 then AnswerTimedOut else AnswerChannelClosed,
           now1, rest, h1))"

text \<open>The question and what became of it: the acknowledgement, whether the host answered well, the
  time, the schedule left and the state.\<close>

type_synonym asked = "(host_error, unit) result \<times> bool \<times> duration \<times> doing list \<times> host_inner"

definition ask_shutdown :: "host_env \<Rightarrow> shutdown_script \<Rightarrow> host_inner \<Rightarrow> asked" where
  "ask_shutdown env script h =
     (case run_others (ss_asked_at script) 0 (ss_doings script) h of (now, ds, h1) \<Rightarrow>
       (case session_id (tr_reducer (hi_transport h1)) of
          None \<Rightarrow> (Ok (), False, now, ds, h1)
        | Some sid \<Rightarrow>
            (case next_id ''zer0-shutdown'' h1 of (i, h2) \<Rightarrow>
            (case send_request env (ss_sent script) i ''zer0/room/shutdown''
                    (JObject [(''sessionId'', JString sid)]) h2 of (sending, h3) \<Rightarrow>
            (case run_others (max now (ss_sent_at script)) now ds h3 of (now1, ds1, h4) \<Rightarrow>
              (case sending of
                 Ok u \<Rightarrow>
                   (case await_answer i (max now1 SHUTDOWN_RESPONSE_BOUND) now1 ds1 h4 of
                      (awaited, now2, ds2, h5) \<Rightarrow>
                     (case await_response i awaited h5 of (reply, h6) \<Rightarrow>
                        (tryR reply (\<lambda>_. Ok ()), is_ok reply, now2, ds2, pending_remove i h6)))
               | Err e \<Rightarrow> (Err e, False, now1, ds1, pending_remove i h4)
               | Panic m \<Rightarrow> (Panic m, False, now1, ds1, h4)))))))"

definition ask_and_close :: "host_env \<Rightarrow> shutdown_script \<Rightarrow> host_inner \<Rightarrow> asked" where
  "ask_and_close env script h =
     (case ask_shutdown env script h of (graceful, acknowledged, now, ds, h1) \<Rightarrow>
     (case run_others (max now (ss_closed_at script)) now ds h1 of (now1, ds1, h2) \<Rightarrow>
       (graceful, acknowledged, now1, ds1, h2\<lparr>hi_writer := False\<rparr>)))"

text \<open>When a host that stays is killed, the writer being closed at the given time.\<close>

definition kill_time :: "duration \<Rightarrow> duration" where
  "kill_time closed_at = closed_at + graceful_reap_for closed_at"

definition reap_shutdown ::
  "(host_error, unit) result \<Rightarrow> bool \<Rightarrow> duration \<Rightarrow> doing list \<Rightarrow> host_inner \<Rightarrow> unit hosted" where
  "reap_shutdown graceful acknowledged closed_at doings h =
     (case wait_for_exit (kill_time closed_at) closed_at doings h of
        (Some exit, now, ds, h1) \<Rightarrow>
          (quit_outcome exit graceful, consume_digest_handoff (h1\<lparr>hi_cancelled := True\<rparr>))
      | (None, now, ds, h1) \<Rightarrow>
          (let h2 = kill_all (note_launcher_termination
                      \<lparr>lt_branch = ShutdownReap acknowledged, lt_waited = now - closed_at\<rparr> h1)
           in case wait_for_exit (now + (SHUTDOWN_TOTAL_BOUND - now)) now ds h2 of
                (reaped, now1, ds1, h3) \<Rightarrow>
                  (case reaped of
                     Some exit \<Rightarrow> quit_outcome exit graceful
                   | None \<Rightarrow> Err (Stopped ''timed out waiting for host reaping''),
                   consume_digest_handoff (h3\<lparr>hi_cancelled := True\<rparr>))))"

definition shutdown :: "host_env \<Rightarrow> shutdown_script \<Rightarrow> host_inner \<Rightarrow> unit hosted" where
  "shutdown env script h =
     (if hi_shutdown_started h then (Err AdmissionClosed, h)
      else
        let h1 = h\<lparr>hi_shutdown_started := True, hi_accepting := False\<rparr> in
        if hi_exit h1 \<noteq> None then (Ok (), consume_digest_handoff h1)
        else
          (case ask_and_close env script h1 of
             (graceful, acknowledged, closed_at, ds, h2) \<Rightarrow>
               reap_shutdown graceful acknowledged closed_at ds h2))"

text \<open>The drop of the owner.\<close>

definition drop_host :: "host_inner \<Rightarrow> host_inner" where
  "drop_host h =
     consume_digest_handoff (kill_all
       (note_launcher_termination \<lparr>lt_branch = OwnerDropped, lt_waited = 0\<rparr>
         (h\<lparr>hi_accepting := False, hi_cancelled := True\<rparr>)))"

subsection \<open>What a client reads\<close>

text \<open>One round of \<open>wait_until_live\<close>: \<open>None\<close> when it has to wait for a change.\<close>

definition poll_live :: "host_inner \<Rightarrow> (host_error, reducer) result option" where
  "poll_live h =
     (if hi_live h then Some (Ok (tr_reducer (hi_transport h)))
      else case hi_transport_failure h of
        Some e \<Rightarrow> Some (Err e)
      | None \<Rightarrow>
          map_option (\<lambda>exit. Err (Stopped (''host exited before room became live: ''
            @ debug_code (he_code exit)))) (hi_exit h))"

end
