(* ===== verification/Host_Invariant.thy ===== *)
theory Host_Invariant
  imports Host_State Room_Delivery
begin

section \<open>Invariants of a running host\<close>

text \<open>
  \<open>host_step\<close> is everything that can happen to a host, one atomic part of one task at a time, in
  any order; \<open>reachable_host\<close> the states this leads to from \<open>spawn\<close>, as long as the request
  counter (64 bits) has not come round. \<open>gate_ok\<close>, \<open>ids_ok\<close> and \<open>feed_ok\<close> hold in all of them:
  what a failure or an exit closes, how requests are identified and answered, and that the room
  events broadcast are the journal the transport delivers.
\<close>

inductive host_step :: "host_env \<Rightarrow> host_inner \<Rightarrow> host_inner \<Rightarrow> bool" for env where
  requested: "begin_request env sent method params h = (r, h') \<Longrightarrow> host_step env h h'"
| finished: "end_request i awaited h = (r, h') \<Longrightarrow> host_step env h h'"
| line: "handle_line env sends bytes h = (on, h') \<Longrightarrow> host_step env h h'"
| output_ended: "host_step env h (handle_end ended h)"
| pipe_failed: "host_step env h (snd (note_transport_failure error h))"
| exited: "hi_exit h = None \<Longrightarrow> host_step env h (record_exit code success h)"
| reap_failed: "hi_exit h = None \<Longrightarrow> host_step env h (record_reap_failure error h)"
| quit_began: "host_step env h (h\<lparr>hi_shutdown_started := True, hi_accepting := False\<rparr>)"
| quit_asked: "next_id ''zer0-shutdown'' h = (i, h1) \<Longrightarrow>
    send_request env sent i ''zer0/room/shutdown'' params h1 = (r, h') \<Longrightarrow> host_step env h h'"
| input_closed: "host_step env h (h\<lparr>hi_writer := False\<rparr>)"
| killed: "host_step env h (kill_all (note_launcher_termination t h))"
| cancelled: "host_step env h (h\<lparr>hi_cancelled := True\<rparr>)"
| consumed: "host_step env h (consume_digest_handoff h)"
| dropped: "host_step env h (drop_host h)"

inductive reachable_host :: "host_env \<Rightarrow> host_inner \<Rightarrow> bool" for env where
  spawned: "reachable_host env new_host"
| stepped: "reachable_host env h \<Longrightarrow> host_step env h h' \<Longrightarrow> hi_next_request h' \<noteq> 0 \<Longrightarrow>
    reachable_host env h'"

locale host_invariant =
  fixes env :: host_env and inv :: "host_inner \<Rightarrow> bool"
  assumes at_spawn: "inv new_host"
    and kept: "inv h \<Longrightarrow> host_step env h h' \<Longrightarrow> hi_next_request h' \<noteq> 0 \<Longrightarrow> inv h'"
begin

lemma always: "reachable_host env h \<Longrightarrow> inv h"
  by (induction rule: reachable_host.induct) (blast intro: at_spawn kept)+

end

subsection \<open>The gate\<close>

definition gate_closed :: "host_inner \<Rightarrow> bool" where
  "gate_closed h \<longleftrightarrow> \<not> hi_accepting h \<and> \<not> hi_writer h \<and> hi_pending h = {}"

definition gate_ok :: "host_inner \<Rightarrow> bool" where
  "gate_ok h \<longleftrightarrow>
     (hi_failure_recorded h \<longrightarrow> gate_closed h) \<and> (hi_exit h \<noteq> None \<longrightarrow> gate_closed h)
     \<and> (hi_failure_recorded h \<longleftrightarrow> hi_transport_failure h \<noteq> None)
     \<and> (hi_termination h \<noteq> None \<longrightarrow> hi_killed h)
     \<and> (\<forall>e. hi_exit h = Some e \<longrightarrow> he_cause e \<noteq> ByHost \<longrightarrow> hi_killed h)"

lemmas host_op_defs = pending_insert_def pending_remove_def answer_pending_def fail_pending_def
  next_id_def note_launcher_termination_def take_launcher_termination_def kill_all_def
  consume_digest_handoff_def

lemma note_transport_failure_simps [simp]:
  "hi_handoffs (snd (note_transport_failure e h)) = hi_handoffs h"
  "hi_failure_recorded (snd (note_transport_failure e h))"
  "hi_exit (snd (note_transport_failure e h)) = hi_exit h"
  "hi_termination (snd (note_transport_failure e h)) = hi_termination h"
  "hi_killed (snd (note_transport_failure e h)) = hi_killed h"
  "hi_events (snd (note_transport_failure e h)) = hi_events h"
  "hi_transport (snd (note_transport_failure e h)) = hi_transport h"
  "hi_live (snd (note_transport_failure e h)) = hi_live h"
  "hi_next_request (snd (note_transport_failure e h)) = hi_next_request h"
  by (simp_all add: note_transport_failure_def fail_pending_def)

lemma record_exit_simps [simp]:
  "hi_handoffs (record_exit c s h) = hi_handoffs h"
  "hi_shutdown_started (record_exit c s h) = hi_shutdown_started h"
  "\<not> hi_accepting (record_exit c s h)" "\<not> hi_writer (record_exit c s h)"
  "hi_pending (record_exit c s h) = {}" "hi_termination (record_exit c s h) = None"
  "hi_killed (record_exit c s h) = hi_killed h" "hi_cancelled (record_exit c s h)"
  "hi_failure_recorded (record_exit c s h) = hi_failure_recorded h"
  "hi_transport_failure (record_exit c s h) = hi_transport_failure h"
  "hi_transport (record_exit c s h) = hi_transport h" "hi_live (record_exit c s h) = hi_live h"
  "hi_next_request (record_exit c s h) = hi_next_request h"
  "hi_exit (record_exit c s h) = Some \<lparr>he_code = c, he_success = s,
     he_cause = (case hi_termination h of None \<Rightarrow> ByHost | Some t \<Rightarrow> LauncherTerminated t)\<rparr>"
  "hi_events (record_exit c s h) = hi_events h @ [HostExited (the (hi_exit (record_exit c s h)))]"
  by (simp_all add: record_exit_def take_launcher_termination_def fail_pending_def Let_def)

lemma gate_closed_failure: "hi_failure_recorded h \<longrightarrow> gate_closed h \<Longrightarrow> gate_closed (snd (note_transport_failure e h))"
  by (simp add: gate_closed_def note_transport_failure_def fail_pending_def)

lemma gate_closed_update [simp]:
  "gate_closed (h\<lparr>hi_cancelled := b\<rparr>) = gate_closed h" "gate_closed (h\<lparr>hi_killed := b\<rparr>) = gate_closed h"
  "gate_closed (h\<lparr>hi_termination := t\<rparr>) = gate_closed h" "gate_closed (h\<lparr>hi_handoffs := n\<rparr>) = gate_closed h"
  "gate_closed (h\<lparr>hi_boot_progress := p\<rparr>) = gate_closed h" "gate_closed (h\<lparr>hi_transport := tr\<rparr>) = gate_closed h"
  "gate_closed (h\<lparr>hi_next_request := k\<rparr>) = gate_closed h"
  by (simp_all add: gate_closed_def)

lemma gate_ok_failure: "gate_ok h \<Longrightarrow> gate_ok (snd (note_transport_failure e h))"
  using gate_closed_failure [of h e]
  by (simp add: gate_ok_def) (simp add: note_transport_failure_def fail_pending_def)

lemma gate_ok_exit: "gate_ok h \<Longrightarrow> gate_ok (record_exit c s h)"
  by (simp add: gate_ok_def gate_closed_def split: option.splits)

lemma gate_ok_kill: "gate_ok h \<Longrightarrow> gate_ok (kill_all (note_launcher_termination t h))"
  by (simp add: gate_ok_def kill_all_def note_launcher_termination_def split: option.splits)

lemma gate_ok_update:
  "gate_ok h \<Longrightarrow> gate_ok (h\<lparr>hi_cancelled := b\<rparr>)" "gate_ok h \<Longrightarrow> gate_ok (consume_digest_handoff h)"
  "gate_ok h \<Longrightarrow> gate_ok (h\<lparr>hi_boot_progress := p\<rparr>)" "gate_ok h \<Longrightarrow> gate_ok (h\<lparr>hi_transport := tr\<rparr>)"
  "gate_ok h \<Longrightarrow> gate_ok (h\<lparr>hi_next_request := k\<rparr>)"
  by (simp_all add: gate_ok_def consume_digest_handoff_def)

lemma gate_ok_close:
  "gate_ok h \<Longrightarrow> gate_ok (h\<lparr>hi_writer := False\<rparr>)" "gate_ok h \<Longrightarrow> gate_ok (h\<lparr>hi_accepting := False\<rparr>)"
  "gate_ok h \<Longrightarrow> gate_ok (h\<lparr>hi_shutdown_started := b, hi_accepting := False\<rparr>)"
  by (simp_all add: gate_ok_def gate_closed_def)

lemma gate_ok_remove: "gate_ok h \<Longrightarrow> gate_ok (pending_remove i h)"
  by (auto simp: gate_ok_def gate_closed_def pending_remove_def)

lemma gate_ok_answer: "gate_ok h \<Longrightarrow> gate_ok (answer_pending i a h)"
  by (auto simp: gate_ok_def gate_closed_def answer_pending_def pending_remove_def)

lemma send_value_outcome:
  "send_value env sent v h =
     (if en_json_size env v + 1 \<le> MAX_FRAME_BYTES \<and> hi_writer h \<and> sent = Queued
      then (Ok (), h\<lparr>hi_sent := hi_sent h @ [v]\<rparr>)
      else (Err (case fst (send_value env sent v h) of Err e \<Rightarrow> e | _ \<Rightarrow> AdmissionClosed), h))"
  by (cases sent) (simp_all add: send_value_def)

lemma send_value_cases:
  assumes "send_value env sent v h = (r, h')"
  obtains (sent) "r = Ok ()" "hi_writer h" "h' = h\<lparr>hi_sent := hi_sent h @ [v]\<rparr>"
    | (refused) e where "r = Err e" "h' = h"
proof (cases "en_json_size env v + 1 \<le> MAX_FRAME_BYTES \<and> hi_writer h \<and> sent = Queued")
  case True
  with assms that(1) show thesis by (simp add: send_value_def)
next
  case False
  with assms send_value_outcome [of env sent v h] that(2) show thesis by (metis prod.inject)
qed

lemma send_request_cases:
  assumes "send_request env sent i m p h = (r, h')"
  obtains (sent) v where "r = Ok ()" "hi_writer h" "h' = (pending_insert i h)\<lparr>hi_sent := hi_sent h @ [v]\<rparr>"
    | (refused) e where "r = Err e" "h' = h"
    | (removed) e where "r = Err e" "h' = pending_remove i (pending_insert i h)"
proof (cases "request_to_json \<lparr>rq_id = IdString i, rq_method = m, rq_params = p\<rparr>")
  case None
  with assms refused show thesis by (auto simp: send_request_def)
next
  case (Some v)
  obtain r1 h1 where one: "send_value env sent v (pending_insert i h) = (r1, h1)" by fastforce
  then show thesis
  proof (cases rule: send_value_cases)
    case sent
    with one assms Some that(1) show thesis by (auto simp: send_request_def pending_insert_def)
  next
    case (refused e)
    with one assms Some that(3) show thesis by (auto simp: send_request_def)
  qed
qed

text \<open>Sending the requests of a frame changes nothing else.\<close>

definition same_but_sent :: "host_inner \<Rightarrow> host_inner \<Rightarrow> bool" where
  "same_but_sent h h' \<longleftrightarrow> h' = h\<lparr>hi_sent := hi_sent h'\<rparr>"

lemma same_but_sent_refl [simp]: "same_but_sent h h"
  by (cases h) (simp add: same_but_sent_def)

lemma same_but_sent_update [simp]: "same_but_sent h (h\<lparr>hi_sent := vs\<rparr>)"
  by (cases h) (simp add: same_but_sent_def)

lemma same_but_sent_trans: "same_but_sent h h1 \<Longrightarrow> same_but_sent h1 h2 \<Longrightarrow> same_but_sent h h2"
  by (cases h; cases h1; cases h2) (simp add: same_but_sent_def)

lemma same_but_sentD:
  assumes "same_but_sent h h'"
  shows "hi_accepting h' = hi_accepting h" "hi_writer h' = hi_writer h" "hi_pending h' = hi_pending h"
    "hi_failure_recorded h' = hi_failure_recorded h" "hi_exit h' = hi_exit h"
    "hi_transport_failure h' = hi_transport_failure h" "hi_termination h' = hi_termination h"
    "hi_killed h' = hi_killed h" "hi_answers h' = hi_answers h" "hi_next_request h' = hi_next_request h"
    "hi_events h' = hi_events h" "hi_transport h' = hi_transport h" "hi_live h' = hi_live h"
    "hi_readiness h' = hi_readiness h"
  using assms by (cases h; cases h'; simp add: same_but_sent_def)+

lemma send_resync_sent: "send_resync env sent rid sid after h = (r, h') \<Longrightarrow> same_but_sent h h'"
  by (auto simp: send_resync_def Let_def elim!: send_value_cases split: option.splits)

lemma send_actions_sent: "send_actions env sends acts h = (r, h') \<Longrightarrow> same_but_sent h h'"
proof (induction acts arbitrary: h)
  case (Cons a acts)
  obtain r1 h1 where one: "send_resync env (sends a) (request_id a) (resync_session_id a) (after_event_seq a) h = (r1, h1)"
    by fastforce
  note send_resync_sent [OF this]
  with one Cons show ?case by (cases r1) (auto intro: same_but_sent_trans)
qed simp

lemma send_actions_calm: "send_actions env sends acts h = (r, h') \<Longrightarrow> r \<noteq> Panic m"
proof (induction acts arbitrary: h)
  case (Cons a acts)
  obtain r1 h1 where one: "send_resync env (sends a) (request_id a) (resync_session_id a) (after_event_seq a) h = (r1, h1)"
    by fastforce
  then have "r1 \<noteq> Panic m"
    by (auto simp: send_resync_def Let_def elim: send_value_cases split: option.splits)
  with one Cons show ?case by (cases r1) auto
qed auto

lemma same_but_sent_gate: "same_but_sent h h' \<Longrightarrow> gate_ok h \<Longrightarrow> gate_ok h'"
  using same_but_sentD [of h h'] by (simp add: gate_ok_def gate_closed_def)

lemma same_but_sent_send:
  assumes "send_value env sent v h = (r, h')"
  shows "same_but_sent h h'"
  using assms by (cases rule: send_value_cases) simp_all

text \<open>What the ways through a frame are.\<close>

lemma process_frame_cases:
  assumes "process_frame env sends frame h = (r, h')"
  obtains (accepted) fx t h1 where
      "ingest_effects (en_rfc3339 env) (en_serde_err env) (en_event_size env) frame (hi_transport h) = (Ok fx, t)"
      "same_but_sent (publish_effects fx t h) h1"
      "h' = (case response_for_pending frame of None \<Rightarrow> h1 | Some (i, a) \<Rightarrow> answer_pending i a h1)"
      "r = Ok ()"
    | (unsent) fx t e where
      "ingest_effects (en_rfc3339 env) (en_serde_err env) (en_event_size env) frame (hi_transport h) = (Ok fx, t)"
      "same_but_sent (publish_effects fx t h) h'" "r = Err e"
    | (refused) e t where
      "ingest_effects (en_rfc3339 env) (en_serde_err env) (en_event_size env) frame (hi_transport h) = (Err e, t)"
      "h' = h\<lparr>hi_transport := t\<rparr>" "r = Err (Frame (display_transport_error e))"
    | (panicked) m t where
      "ingest_effects (en_rfc3339 env) (en_serde_err env) (en_event_size env) frame (hi_transport h) = (Panic m, t)"
      "h' = h\<lparr>hi_transport := t\<rparr>" "r = Panic m"
proof -
  obtain res t where eq:
    "ingest_effects (en_rfc3339 env) (en_serde_err env) (en_event_size env) frame (hi_transport h) = (res, t)"
    by fastforce
  show thesis
  proof (cases res)
    case (Ok fx)
    obtain r1 h1 where sent: "send_actions env sends (fx_actions fx) (publish_effects fx t h) = (r1, h1)"
      by fastforce
    note same = send_actions_sent [OF sent]
    show thesis
    proof (cases r1)
      case Ok': (Ok u)
      with assms eq Ok sent same accepted show thesis by (simp add: process_frame_def)
    next
      case (Err e)
      with assms eq Ok sent same unsent [of fx t] show thesis
        by (auto simp: process_frame_def)
    next
      case (Panic m)
      with send_actions_calm [OF sent, of m] show thesis by simp
    qed
  next
    case (Err e)
    with assms eq refused show thesis by (simp add: process_frame_def)
  next
    case (Panic m)
    with assms eq panicked show thesis by (simp add: process_frame_def)
  qed
qed

lemma gate_ok_publish: "gate_ok h \<Longrightarrow> gate_ok (publish_effects fx t h)"
  by (simp add: gate_ok_def gate_closed_def publish_effects_def)

lemma gate_ok_frame:
  assumes "process_frame env sends frame h = (r, h')" "gate_ok h"
  shows "gate_ok h'"
  using assms(1)
proof (cases rule: process_frame_cases)
  case (accepted fx t h1)
  with same_but_sent_gate gate_ok_publish [OF assms(2)] have "gate_ok h1" by blast
  with accepted(3) show ?thesis by (auto intro: gate_ok_answer split: option.splits)
next
  case (unsent fx t e)
  with same_but_sent_gate gate_ok_publish [OF assms(2)] show ?thesis by blast
qed (use assms(2) gate_ok_update in simp_all)

text \<open>What a line of output leads to.\<close>

lemma handle_line_cases:
  assumes "handle_line env sends bytes h = (on, h')"
  obtains (progress) p where "on" "h' = h\<lparr>hi_boot_progress := Some p\<rparr>"
      "classify_boot_frame (\<lambda>b. result_option (en_parse_json env b)) bytes = Progress p"
    | (frame) frame u where "on"
      "classify_frame (en_rfc3339 env) (en_serde_err env) (en_parse_json env) (en_frame_err env) bytes = Ok frame"
      "process_frame env sends frame h = (Ok u, h')"
    | (failed) e frame h1 where "\<not> on"
      "classify_frame (en_rfc3339 env) (en_serde_err env) (en_parse_json env) (en_frame_err env) bytes = Ok frame"
      "process_frame env sends frame h = (Err e, h1)" "h' = snd (note_transport_failure e h1)"
    | (panicked) m frame where "\<not> on"
      "classify_frame (en_rfc3339 env) (en_serde_err env) (en_parse_json env) (en_frame_err env) bytes = Ok frame"
      "process_frame env sends frame h = (Panic m, h')"
    | (malformed) e where "\<not> on" "h' = snd (note_transport_failure e h)"
    | (unread) "\<not> on" "h' = h"
proof (cases "classify_boot_frame (\<lambda>b. result_option (en_parse_json env b)) bytes")
  case (Progress p)
  with assms progress [of p] show thesis by (auto simp: handle_line_def)
next
  case (Malformed e)
  with assms malformed [of "Frame e"] show thesis by (auto simp: handle_line_def)
next
  case room: RoomFrame
  show thesis
  proof (cases "classify_frame (en_rfc3339 env) (en_serde_err env) (en_parse_json env) (en_frame_err env) bytes")
    case (Ok fr)
    obtain r h1 where one: "process_frame env sends fr h = (r, h1)" by fastforce
    then show thesis
      using assms room Ok frame [of fr] failed [of fr] panicked [of fr] by (cases r) (auto simp: handle_line_def)
  next
    case (Err e)
    with assms room malformed [of "Frame (display_transport_error e)"] show thesis
      by (auto simp: handle_line_def)
  next
    case (Panic m)
    with assms room unread show thesis by (simp add: handle_line_def)
  qed
qed

lemma gate_ok_line:
  assumes "handle_line env sends bytes h = (on, h')" "gate_ok h"
  shows "gate_ok h'"
  using assms(1)
  by (cases rule: handle_line_cases)
    (use assms(2) in \<open>auto intro: gate_ok_update gate_ok_failure dest: gate_ok_frame\<close>)

lemma gate_ok_send:
  assumes "send_request env sent i m p h = (r, h')" "gate_ok h"
  shows "gate_ok h'"
  using assms(1)
proof (cases rule: send_request_cases)
  case (sent v)
  with assms(2) show ?thesis by (auto simp: gate_ok_def gate_closed_def pending_insert_def)
next
  case (removed e)
  with assms(2) show ?thesis
    by (auto simp: gate_ok_def gate_closed_def pending_insert_def pending_remove_def)
qed (use assms(2) in simp)

lemma begin_request_cases:
  assumes "begin_request env sent m p h = (r, h')"
  obtains (refused) e where "r = Err e" "h' = h"
    | (unsent) i h1 h2 e where "next_id ''zer0-request'' h = (i, h1)" "hi_accepting h"
        "send_request env sent i m p h1 = (Err e, h2)" "h' = pending_remove i h2" "r = Err e"
    | (sent) i h1 where "next_id ''zer0-request'' h = (i, h1)" "hi_accepting h"
        "send_request env sent i m p h1 = (Ok (), h')" "r = Ok i"
proof (cases "hi_accepting h")
  case False
  with assms refused [of AdmissionClosed] show thesis by (simp add: begin_request_def)
next
  case True
  obtain i h1 where id: "next_id ''zer0-request'' h = (i, h1)" by fastforce
  obtain r1 h2 where one: "send_request env sent i m p h1 = (r1, h2)" by fastforce
  then show thesis
  proof (cases rule: send_request_cases)
    case (sent v)
    with assms True id one that(3) show thesis by (auto simp: begin_request_def)
  next
    case (refused e)
    with assms True id one that(2) show thesis by (auto simp: begin_request_def)
  next
    case (removed e)
    with assms True id one that(2) show thesis by (auto simp: begin_request_def)
  qed
qed

lemma gate_ok_next: "gate_ok h \<Longrightarrow> next_id p h = (i, h1) \<Longrightarrow> gate_ok h1"
  by (auto simp: next_id_def gate_ok_update)

lemma end_request_state: "end_request i awaited h = (r, h') \<Longrightarrow> h' = pending_remove i h"
  by (cases awaited) (auto simp: end_request_def await_response_def pending_remove_def)

lemma gate_ok_ended: "gate_ok h \<Longrightarrow> gate_ok (handle_end ended h)"
  by (cases ended) (simp_all add: handle_end_def gate_ok_failure)

lemma gate_ok_begin:
  assumes "begin_request env sent m p h = (r, h')" "gate_ok h"
  shows "gate_ok h'"
  using assms(1)
  by (cases rule: begin_request_cases)
    (use assms(2) in \<open>auto intro: gate_ok_remove dest: gate_ok_next gate_ok_send\<close>)

lemma gate_ok_step: "host_step env h h' \<Longrightarrow> gate_ok h \<Longrightarrow> gate_ok h'"
proof (induction rule: host_step.induct)
  case (dropped h)
  then show ?case
    by (simp add: drop_host_def gate_ok_kill gate_ok_close(2) gate_ok_update(1,2))
next
  case (reap_failed h error)
  then show ?case
    by (simp add: record_reap_failure_def gate_ok_update gate_ok_failure gate_ok_close)
qed (auto simp: end_request_state gate_ok_remove gate_ok_ended gate_ok_failure gate_ok_exit
    gate_ok_close gate_ok_kill gate_ok_update dest: gate_ok_begin gate_ok_line gate_ok_next gate_ok_send
    end_request_state)

interpretation gate: host_invariant env gate_ok
  by unfold_locales (simp add: gate_ok_def gate_closed_def new_host_def, blast intro: gate_ok_step)


subsection \<open>Requests and their answers\<close>

definition issued :: "u64 \<Rightarrow> string \<Rightarrow> bool" where
  "issued k i \<longleftrightarrow>
     (\<exists>n < unat k. i = ''zer0-request-'' @ show_nat n \<or> i = ''zer0-shutdown-'' @ show_nat n)"

definition ids_ok :: "host_inner \<Rightarrow> bool" where
  "ids_ok h \<longleftrightarrow>
     (\<forall>i \<in> hi_pending h \<union> dom (hi_answers h). issued (hi_next_request h) i)
     \<and> hi_pending h \<inter> dom (hi_answers h) = {}"

lemma show_nat_inject: "show_nat m = show_nat n \<longleftrightarrow> m = n"
  by (metis dec_value_show_nat)

lemma issued_mono: "issued k i \<Longrightarrow> unat k \<le> unat l \<Longrightarrow> issued l i"
  by (auto simp: issued_def show_nat_inject)

lemma unat_next: "(k :: u64) + 1 \<noteq> 0 \<Longrightarrow> unat (k + 1) = Suc (unat k)"
  by (simp add: unatSuc add.commute)

lemma next_id_fresh:
  assumes "next_id p h = (i, h1)" "p = ''zer0-request'' \<or> p = ''zer0-shutdown''"
  shows "\<not> issued (hi_next_request h) i"
    and "h1 = h\<lparr>hi_next_request := hi_next_request h + 1\<rparr>"
    and "hi_next_request h1 \<noteq> 0 \<Longrightarrow> issued (hi_next_request h1) i"
proof -
  have i: "i = p @ ''-'' @ show_nat (unat (hi_next_request h))"
    and h1: "h1 = h\<lparr>hi_next_request := hi_next_request h + 1\<rparr>"
    using assms(1) by (auto simp: next_id_def)
  show "\<not> issued (hi_next_request h) i"
    using assms(2) i by (auto simp: issued_def show_nat_inject)
  show "h1 = h\<lparr>hi_next_request := hi_next_request h + 1\<rparr>" by (rule h1)
  show "issued (hi_next_request h1) i" if "hi_next_request h1 \<noteq> 0"
    using that assms(2) i h1 by (auto simp: issued_def unat_next)
qed

text \<open>A new request, sent or not, finished or not.\<close>

definition asks :: "host_inner \<Rightarrow> host_inner \<Rightarrow> bool" where
  "asks h h' \<longleftrightarrow>
     hi_answers h' = hi_answers h \<and> hi_events h' = hi_events h \<and> hi_transport h' = hi_transport h
     \<and> hi_live h' = hi_live h \<and> hi_failure_recorded h' = hi_failure_recorded h
     \<and> hi_transport_failure h' = hi_transport_failure h \<and> hi_exit h' = hi_exit h
     \<and> (hi_next_request h' = hi_next_request h \<and> hi_pending h' \<subseteq> hi_pending h
        \<or> hi_next_request h' = hi_next_request h + 1
          \<and> (\<exists>i. hi_pending h' \<subseteq> insert i (hi_pending h) \<and> \<not> issued (hi_next_request h) i
               \<and> (hi_next_request h' \<noteq> 0 \<longrightarrow> issued (hi_next_request h') i)))"

lemma asks_request:
  assumes "next_id p h = (i, h1)" "p = ''zer0-request'' \<or> p = ''zer0-shutdown''"
    and "send_request env sent i m ps h1 = (r, h2)"
  shows "asks h h2" "asks h (pending_remove i h2)"
proof -
  note fresh = next_id_fresh [OF assms(1,2)]
  from assms(3) have "asks h h2 \<and> asks h (pending_remove i h2)"
  proof (cases rule: send_request_cases)
    case (sent v)
    with fresh show ?thesis by (auto simp: asks_def pending_insert_def pending_remove_def)
  next
    case (refused e)
    with fresh show ?thesis by (auto simp: asks_def pending_remove_def)
  next
    case (removed e)
    with fresh show ?thesis by (auto simp: asks_def pending_insert_def pending_remove_def)
  qed
  then show "asks h h2" "asks h (pending_remove i h2)" by simp_all
qed

lemma asks_begin:
  assumes "begin_request env sent m p h = (r, h')"
  shows "asks h h'"
  using assms
proof (cases rule: begin_request_cases)
  case (refused e)
  then show ?thesis by (simp add: asks_def)
next
  case (unsent i h1 h2 e)
  with asks_request(2) show ?thesis by blast
next
  case (sent i h1)
  with asks_request(1) show ?thesis by blast
qed

lemma asks_ids:
  assumes "asks h h'" "ids_ok h" "hi_next_request h' \<noteq> 0"
  shows "ids_ok h'"
proof -
  have "unat (hi_next_request h) \<le> unat (hi_next_request h')"
    using assms(1,3) unat_next by (fastforce simp: asks_def)
  then have "issued (hi_next_request h') i" if "issued (hi_next_request h) i" for i
    using that issued_mono by blast
  with assms show ?thesis unfolding ids_ok_def asks_def by (auto; blast)
qed


text \<open>Every other step answers or drops requests that wait.\<close>

definition settles :: "host_inner \<Rightarrow> host_inner \<Rightarrow> bool" where
  "settles h h' \<longleftrightarrow>
     hi_next_request h' = hi_next_request h \<and> hi_pending h' \<subseteq> hi_pending h
     \<and> (\<forall>i. hi_answers h' i \<noteq> hi_answers h i \<longrightarrow>
            i \<in> hi_pending h \<and> i \<notin> hi_pending h' \<and> hi_answers h' i \<noteq> None)"

lemma settles_refl [simp]: "settles h h"
  by (simp add: settles_def)

lemma settles_trans: "settles h h1 \<Longrightarrow> settles h1 h2 \<Longrightarrow> settles h h2"
  unfolding settles_def by (metis subset_iff)

lemma settles_same: "hi_next_request h' = hi_next_request h \<Longrightarrow> hi_pending h' = hi_pending h \<Longrightarrow>
    hi_answers h' = hi_answers h \<Longrightarrow> settles h h'"
  by (simp add: settles_def)

lemma settles_ops:
  "settles h (pending_remove i h)" "settles h (answer_pending i a h)"
  "settles h (snd (note_transport_failure e h))" "settles h (record_exit c s h)"
  "settles h (publish_effects fx t h)" "settles h (kill_all (note_launcher_termination lt h))"
  by (auto simp: settles_def pending_remove_def answer_pending_def note_transport_failure_def
      fail_pending_def record_exit_def take_launcher_termination_def Let_def publish_effects_def
      kill_all_def note_launcher_termination_def split: option.splits)

lemma settles_sent: "same_but_sent h h' \<Longrightarrow> settles h h'"
  using same_but_sentD [of h h'] by (intro settles_same) simp_all

lemma settles_frame:
  assumes "process_frame env sends frame h = (r, h')"
  shows "settles h h'"
  using assms
proof (cases rule: process_frame_cases)
  case (accepted fx t h1)
  have one: "settles h h1" using settles_trans [OF settles_ops(5) settles_sent [OF accepted(2)]] .
  show ?thesis
  proof (cases "response_for_pending frame")
    case (Some ia)
    obtain i a where "ia = (i, a)" by fastforce
    with Some accepted(3) settles_trans [OF one settles_ops(2)] show ?thesis by simp
  qed (use one accepted(3) in simp)
next
  case (unsent fx t e)
  from settles_trans [OF settles_ops(5) settles_sent [OF this(2)]] show ?thesis .
qed (simp_all add: settles_same)

lemma settles_line:
  assumes "handle_line env sends bytes h = (on, h')"
  shows "settles h h'"
  using assms
proof (cases rule: handle_line_cases)
  case (failed e frame h1)
  with settles_trans [OF settles_frame [OF failed(3)] settles_ops(3)] show ?thesis by simp
qed (auto simp: settles_same settles_ops(3) dest: settles_frame)

lemma step_asks_or_settles: "host_step env h h' \<Longrightarrow> asks h h' \<or> settles h h'"
proof (induction rule: host_step.induct)
  case (output_ended h ended)
  then show ?case by (simp add: handle_end_def settles_ops split: result.splits)
next
  case (reap_failed h error)
  have "settles h (snd (note_transport_failure error (h\<lparr>hi_accepting := False\<rparr>)))"
    by (rule settles_trans [OF settles_same settles_ops(3)]) simp_all
  then show ?case by (simp add: record_reap_failure_def settles_def)
next
  case (finished i awaited h r h')
  from end_request_state [OF this] show ?case by (simp add: settles_ops)
next
  case (dropped h)
  show ?case
    by (simp add: drop_host_def consume_digest_handoff_def kill_all_def note_launcher_termination_def
        settles_same split: option.splits)
qed (auto simp: settles_ops settles_same consume_digest_handoff_def
    dest: asks_begin asks_request(1) settles_line)

lemma settles_ids:
  assumes "settles h h'" "ids_ok h"
  shows "ids_ok h'"
proof -
  have changed: "i \<in> hi_pending h \<and> i \<notin> hi_pending h'" if "hi_answers h' i \<noteq> hi_answers h i" for i
    using assms(1) that unfolding settles_def by blast
  have "i \<in> hi_pending h \<union> dom (hi_answers h)" if "i \<in> dom (hi_answers h')" for i
    using changed [of i] that by (metis UnCI domIff)
  moreover have "i \<notin> dom (hi_answers h')" if "i \<in> hi_pending h'" for i
  proof
    assume "i \<in> dom (hi_answers h')"
    then have "i \<in> dom (hi_answers h)" using changed [of i] that by (metis domIff)
    moreover have "i \<in> hi_pending h" using assms(1) that by (auto simp: settles_def)
    ultimately show False using assms(2) by (auto simp: ids_ok_def)
  qed
  moreover have "hi_next_request h' = hi_next_request h" "hi_pending h' \<subseteq> hi_pending h"
    using assms(1) by (simp_all add: settles_def)
  moreover have "\<forall>i \<in> hi_pending h \<union> dom (hi_answers h). issued (hi_next_request h) i"
    using assms(2) by (simp add: ids_ok_def)
  ultimately show ?thesis unfolding ids_ok_def by (metis Un_iff disjoint_iff subsetD)
qed

interpretation ids: host_invariant env ids_ok
proof unfold_locales
  show "ids_ok new_host" by (simp add: ids_ok_def new_host_def)
  show "ids_ok h'" if "ids_ok h" "host_step env h h'" "hi_next_request h' \<noteq> 0" for h h'
    using step_asks_or_settles [OF that(2)] that asks_ids settles_ids by blast
qed

lemma step_keeps_answer:
  assumes "host_step env h h'" "ids_ok h" "hi_answers h i = Some a"
  shows "hi_answers h' i = Some a"
  using step_asks_or_settles [OF assms(1)]
proof
  assume "settles h h'"
  moreover have "i \<notin> hi_pending h" using assms(2,3) by (auto simp: ids_ok_def)
  ultimately show ?thesis using assms(3) by (metis settles_def)
qed (use assms(3) in \<open>simp add: asks_def\<close>)


subsection \<open>The feed\<close>

fun room_part :: "host_event \<Rightarrow> room_event list" where
  "room_part (HostRoom e) = [e]"
| "room_part _ = []"

fun exit_part :: "host_event \<Rightarrow> host_exit list" where
  "exit_part (HostExited e) = [e]"
| "exit_part _ = []"

definition room_feed :: "host_inner \<Rightarrow> room_event list" where
  "room_feed h = concat (map room_part (hi_events h))"

definition exit_feed :: "host_inner \<Rightarrow> host_exit list" where
  "exit_feed h = concat (map exit_part (hi_events h))"

definition feed_ok :: "host_env \<Rightarrow> host_inner \<Rightarrow> bool" where
  "feed_ok env h \<longleftrightarrow>
     transport_ok (en_rfc3339 env) (en_event_size env) (hi_transport h)
     \<and> delivered (en_rfc3339 env) (room_feed h) (hi_transport h)
     \<and> exit_feed h = (case hi_exit h of None \<Rightarrow> [] | Some e \<Rightarrow> [e])
     \<and> (if tr_phase (hi_transport h) = Fatal then hi_failure_recorded h
         else hi_live h = (tr_phase (hi_transport h) = Live))"

lemma room_part_map [simp]: "concat (map (room_part \<circ> HostRoom) es) = es"
  "concat (map (exit_part \<circ> HostRoom) es) = []"
  by (induction es) simp_all

lemma feeds_publish [simp]:
  "room_feed (publish_effects fx t h) = room_feed h @ fx_applied_events fx"
  "exit_feed (publish_effects fx t h) = exit_feed h"
  by (cases "fx_readiness fx"; simp add: room_feed_def exit_feed_def publish_effects_def)+

lemma feeds_exit [simp]:
  "room_feed (record_exit c s h) = room_feed h"
  "exit_feed (record_exit c s h) = exit_feed h @ [the (hi_exit (record_exit c s h))]"
  by (simp_all add: room_feed_def exit_feed_def)

text \<open>Steps that leave the feed alone.\<close>

definition same_feed :: "host_inner \<Rightarrow> host_inner \<Rightarrow> bool" where
  "same_feed h h' \<longleftrightarrow>
     hi_events h' = hi_events h \<and> hi_transport h' = hi_transport h \<and> hi_live h' = hi_live h
     \<and> hi_exit h' = hi_exit h \<and> (hi_failure_recorded h \<longrightarrow> hi_failure_recorded h')"

lemma same_feed_ok: "same_feed h h' \<Longrightarrow> feed_ok env h \<Longrightarrow> feed_ok env h'"
  by (simp add: same_feed_def feed_ok_def room_feed_def exit_feed_def split: if_splits)

lemma same_feed_ops:
  "same_feed h (pending_remove i h)" "same_feed h (answer_pending i a h)"
  "same_feed h (snd (note_transport_failure e h))" "same_feed h (handle_end ended h)"
  "same_feed h (record_reap_failure e h)" "same_feed h (kill_all (note_launcher_termination t h))"
  "same_feed h (drop_host h)" "same_feed h (consume_digest_handoff h)"
  by (auto simp: same_feed_def pending_remove_def answer_pending_def handle_end_def
      record_reap_failure_def drop_host_def consume_digest_handoff_def kill_all_def
      note_launcher_termination_def split: option.splits result.splits)

lemma asks_same_feed: "asks h h' \<Longrightarrow> same_feed h h'"
  by (simp add: asks_def same_feed_def)

lemma same_but_sent_feed: "same_but_sent h h' \<Longrightarrow> same_feed h h'"
  using same_but_sentD [of h h'] by (simp add: same_feed_def)

lemma from_value_frame_ok: "frame_of_json f se v = Some frame \<Longrightarrow> frame_ok f frame"
  using from_value_validated
  by (auto simp: frame_of_json_def frame_ok_def notification_of_json_def bind_eq_Some_conv
      split: if_splits server_frame.splits result.splits)

lemma classify_frame_ok:
  assumes "classify_frame f se parse frame_err bytes = Ok frame"
  shows "frame_ok f frame"
proof -
  from assms obtain v where "frame_of_json f se v = Some frame"
    by (auto simp: classify_frame_def validate_frame_content_def decode_server_frame_def split: if_splits)
  then show ?thesis by (rule from_value_frame_ok)
qed

lemma feed_ok_publish:
  assumes "feed_ok env h" "tr_phase (hi_transport h) \<noteq> Fatal"
    and "accepted (en_rfc3339 env) (en_event_size env) (hi_transport h) fx t"
  shows "feed_ok env (publish_effects fx t h)"
proof -
  have old: "transport_ok (en_rfc3339 env) (en_event_size env) (hi_transport h)"
    "delivered (en_rfc3339 env) (room_feed h) (hi_transport h)"
    using assms(1) by (simp_all add: feed_ok_def)
  have fields: "hi_transport (publish_effects fx t h) = t" "hi_exit (publish_effects fx t h) = hi_exit h"
    "hi_live (publish_effects fx t h) = (tr_phase t = Live)"
    by (simp_all add: publish_effects_def)
  show ?thesis
    using accepted_ok [OF assms(3)] delivered_accepted [OF old assms(2,3)] assms(1)
    by (simp add: feed_ok_def fields)
qed

lemma feed_ok_frame:
  assumes frame: "process_frame env sends frame h = (r, h')" and valid: "frame_ok (en_rfc3339 env) frame"
    and ok: "feed_ok env h" and z: "sizes_ok (en_event_size env)"
  shows "(case r of Ok u \<Rightarrow> feed_ok env h'
     | Err e \<Rightarrow> feed_ok env (snd (note_transport_failure e h')) | Panic m \<Rightarrow> False)"
proof -
  let ?ingest = "ingest_effects (en_rfc3339 env) (en_serde_err env) (en_event_size env) frame (hi_transport h)"
  have t: "transport_ok (en_rfc3339 env) (en_event_size env) (hi_transport h)"
    using ok by (simp add: feed_ok_def)
  have published: "feed_ok env (publish_effects fx t h)" if "?ingest = (Ok fx, t)" for fx t
    using t valid z
  proof (cases rule: ingest_effects_cases [where se = "en_serde_err env"])
    case (accepted fx1 t1)
    moreover have "tr_phase (hi_transport h) \<noteq> Fatal" using that by (auto simp: ingest_fatal)
    ultimately show ?thesis using that ok by (auto intro: feed_ok_publish)
  qed (use that in simp)
  from frame show ?thesis
  proof (cases rule: process_frame_cases)
    case (accepted fx t h1)
    have "feed_ok env h1"
      using same_feed_ok [OF same_but_sent_feed [OF accepted(2)] published [OF accepted(1)]] .
    then show ?thesis
      using accepted(3,4) same_feed_ok [OF same_feed_ops(2)] by (auto split: option.splits)
  next
    case (unsent fx t e)
    have "feed_ok env h'"
      using same_feed_ok [OF same_but_sent_feed [OF unsent(2)] published [OF unsent(1)]] .
    then show ?thesis
      using unsent(3) same_feed_ok [OF same_feed_ops(3)] by simp
  next
    case (refused e t)
    from t valid z show ?thesis
    proof (cases rule: ingest_effects_cases [where se = "en_serde_err env"])
      case inner: (refused e1 t1)
      have "frozen (en_rfc3339 env) (en_event_size env) t" using inner refused(1) by simp
      moreover have "delivered (en_rfc3339 env) (room_feed h) t"
        using delivered_frozen ok frozen_ok [OF calculation] by (auto simp: feed_ok_def)
      ultimately show ?thesis
        using refused(2,3) ok frozen_ok by (simp add: feed_ok_def room_feed_def exit_feed_def)
    qed (use refused(1) in simp)
  next
    case (panicked m t)
    from t valid z show ?thesis
      by (cases rule: ingest_effects_cases [where se = "en_serde_err env"]) (use panicked(1) in simp_all)
  qed
qed


lemma feed_ok_line:
  assumes "handle_line env sends bytes h = (on, h')" "feed_ok env h" "sizes_ok (en_event_size env)"
  shows "feed_ok env h'"
  using assms(1)
proof (cases rule: handle_line_cases)
  case (progress p)
  with assms(2) show ?thesis by (intro same_feed_ok [OF _ assms(2)]) (simp add: same_feed_def)
next
  case (frame fr u)
  with feed_ok_frame [OF frame(3) classify_frame_ok [OF frame(2)] assms(2,3)] show ?thesis by simp
next
  case (failed e fr h1)
  with feed_ok_frame [OF failed(3) classify_frame_ok [OF failed(2)] assms(2,3)] show ?thesis by simp
next
  case (panicked m fr)
  with feed_ok_frame [OF panicked(3) classify_frame_ok [OF panicked(2)] assms(2,3)] show ?thesis by simp
next
  case (malformed e)
  with same_feed_ok [OF same_feed_ops(3) assms(2)] show ?thesis by simp
qed (use assms(2) in simp)

lemma feed_ok_exit: "feed_ok env h \<Longrightarrow> hi_exit h = None \<Longrightarrow> feed_ok env (record_exit c s h)"
  by (simp add: feed_ok_def)

lemma feed_ok_step:
  assumes "host_step env h h'" "feed_ok env h" "sizes_ok (en_event_size env)"
  shows "feed_ok env h'"
  using assms
proof (induction rule: host_step.induct)
  case (line sends bytes h on h')
  then show ?case by (rule feed_ok_line)
next
  case (requested sent m p h r h')
  from same_feed_ok [OF asks_same_feed [OF asks_begin [OF this(1)]] this(2)] show ?case .
next
  case (quit_asked h i h1 sent p r h')
  with asks_request(1) [OF quit_asked(1) _ quit_asked(2)] have "asks h h'" by simp
  from same_feed_ok [OF asks_same_feed [OF this] quit_asked(3)] show ?case .
next
  case (finished i a h r h')
  with end_request_state [OF finished(1)] same_feed_ok [OF same_feed_ops(1)] show ?case by simp
qed (auto simp: feed_ok_exit intro: same_feed_ok same_feed_ops same_feed_ok [rotated] simp: same_feed_def)

text \<open>The feed invariant, for an environment whose event sizes are those of Rust allocations.\<close>

definition feed_inv :: "host_env \<Rightarrow> host_inner \<Rightarrow> bool" where
  "feed_inv env h \<longleftrightarrow> (sizes_ok (en_event_size env) \<longrightarrow> feed_ok env h)"

lemma feed_ok_new: "feed_ok env new_host"
  using new_transport_ok [of "en_rfc3339 env" "en_event_size env"]
  by (auto simp: feed_ok_def new_host_def room_feed_def exit_feed_def delivered_def new_transport_def
      intro!: exI [of _ None])

interpretation feed: host_invariant env "feed_inv env"
  by unfold_locales (auto simp: feed_inv_def feed_ok_new intro: feed_ok_step)

lemma feed_always: "reachable_host env h \<Longrightarrow> sizes_ok (en_event_size env) \<Longrightarrow> feed_ok env h"
  using feed.always by (simp add: feed_inv_def)

subsection \<open>The first failure\<close>

definition keeps_failure :: "host_inner \<Rightarrow> host_inner \<Rightarrow> bool" where
  "keeps_failure h h' \<longleftrightarrow>
     (hi_failure_recorded h \<longrightarrow>
        hi_failure_recorded h' \<and> hi_transport_failure h' = hi_transport_failure h)"

lemma keeps_failure_trans: "keeps_failure h h1 \<Longrightarrow> keeps_failure h1 h2 \<Longrightarrow> keeps_failure h h2"
  by (simp add: keeps_failure_def)

lemma keeps_failure_ops:
  "keeps_failure h (snd (note_transport_failure e h))" "keeps_failure h (pending_remove i h)"
  "keeps_failure h (answer_pending i a h)" "keeps_failure h (record_exit c s h)"
  "keeps_failure h (publish_effects fx t h)"
  "keeps_failure h (kill_all (note_launcher_termination lt h))"
  by (simp_all add: keeps_failure_def note_transport_failure_def pending_remove_def answer_pending_def
      publish_effects_def kill_all_def note_launcher_termination_def split: option.splits)

lemma keeps_failure_frame:
  assumes "process_frame env sends frame h = (r, h')"
  shows "keeps_failure h h'"
  using assms
proof (cases rule: process_frame_cases)
  case (accepted fx t h1)
  have "keeps_failure h h1"
    using keeps_failure_ops(5) [of h fx t] same_but_sentD [OF accepted(2)] by (simp add: keeps_failure_def)
  with accepted(3) keeps_failure_trans [OF _ keeps_failure_ops(3)] show ?thesis
    by (auto split: option.splits)
next
  case (unsent fx t e)
  with keeps_failure_ops(5) [of h fx t] same_but_sentD [OF unsent(2)] show ?thesis
    by (simp add: keeps_failure_def)
qed (simp_all add: keeps_failure_def)

lemma keeps_failure_line:
  assumes "handle_line env sends bytes h = (on, h')"
  shows "keeps_failure h h'"
  using assms
proof (cases rule: handle_line_cases)
  case (failed e fr h1)
  with keeps_failure_trans [OF keeps_failure_frame [OF failed(3)] keeps_failure_ops(1)] show ?thesis by simp
qed (auto simp: keeps_failure_ops(1) dest: keeps_failure_frame, simp_all add: keeps_failure_def)

lemma step_keeps_failure: "host_step env h h' \<Longrightarrow> keeps_failure h h'"
proof (induction rule: host_step.induct)
  case (requested sent m p h r h')
  from asks_begin [OF this] show ?case by (simp add: asks_def keeps_failure_def)
next
  case (quit_asked h i h1 sent p r h')
  from asks_request(1) [OF quit_asked(1) _ quit_asked(2)] show ?case
    by (simp add: asks_def keeps_failure_def)
next
  case (line sends bytes h on h')
  then show ?case by (rule keeps_failure_line)
next
  case (finished i a h r h')
  with end_request_state [OF finished] keeps_failure_ops(2) show ?case by simp
next
  case (output_ended h ended)
  show ?case
    using keeps_failure_ops(1) by (auto simp: handle_end_def keeps_failure_def split: result.splits)
next
  case (reap_failed h e)
  show ?case by (simp add: record_reap_failure_def keeps_failure_def note_transport_failure_def)
next
  case (dropped h)
  show ?case
    by (simp add: drop_host_def keeps_failure_def consume_digest_handoff_def kill_all_def
        note_launcher_termination_def split: option.splits)
qed (auto simp: keeps_failure_ops, auto simp: keeps_failure_def consume_digest_handoff_def)

text \<open>Any number of steps later.\<close>

inductive host_steps :: "host_env \<Rightarrow> host_inner \<Rightarrow> host_inner \<Rightarrow> bool" for env where
  none: "host_steps env h h"
| more: "host_steps env h h1 \<Longrightarrow> host_step env h1 h2 \<Longrightarrow> hi_next_request h2 \<noteq> 0 \<Longrightarrow>
    host_steps env h h2"

lemma steps_reachable: "host_steps env h h' \<Longrightarrow> reachable_host env h \<Longrightarrow> reachable_host env h'"
  by (induction rule: host_steps.induct) (auto intro: reachable_host.stepped)

lemma steps_keep_failure: "host_steps env h h' \<Longrightarrow> keeps_failure h h'"
  by (induction rule: host_steps.induct)
    (simp_all add: keeps_failure_def, metis step_keeps_failure keeps_failure_def)

lemma steps_keep_answer:
  assumes "host_steps env h h'" "reachable_host env h" "hi_answers h i = Some a"
  shows "hi_answers h' i = Some a"
  using assms
proof (induction rule: host_steps.induct)
  case (more h h1 h2)
  with step_keeps_answer ids.always steps_reachable show ?case by blast
qed simp


lemma one_step: "host_step env h h' \<Longrightarrow> hi_next_request h' \<noteq> 0 \<Longrightarrow> host_steps env h h'"
  by (rule host_steps.more [OF host_steps.none])

lemma host_steps_trans: "host_steps env h1 h2 \<Longrightarrow> host_steps env h h1 \<Longrightarrow> host_steps env h h2"
  by (induction rule: host_steps.induct) (auto intro: host_steps.more)

lemma reachable_nonzero: "reachable_host env h \<Longrightarrow> hi_next_request h \<noteq> 0"
  by (induction rule: reachable_host.induct) (simp_all add: new_host_def)

end
