(* ===== verification/Host_Sample.thy ===== *)
theory Host_Sample
  imports Host_Invariant Room_Transport_Sample
begin

section \<open>A concrete run of a host\<close>

text \<open>
  The session of \<^theory_text>\<open>Room_Transport_Sample\<close> once more, as lines of a host's output: \<open>h\<close>, \<open>r\<close>
  and \<open>a\<close> stand for the texts of the readiness event, the live event and the answer. \<open>busy\<close> is a
  host with one request under way.
\<close>

definition sample_parse :: "string \<Rightarrow> (string, json) result" where
  "sample_parse line =
     (if line = ''h'' then Ok (notification_to_json hello)
      else if line = ''r'' then Ok (notification_to_json routed_turn)
      else if line = ''a'' then
        Ok (JObject [(''id'', JString ''room-resync-1''), (''jsonrpc'', JString ''2.0''),
                     (''result'', final_page [accepted_turn])])
      else Err '''')"

definition sample_env :: host_env where
  "sample_env =
     \<lparr>en_rfc3339 = any_date, en_serde_err = no_text, en_event_size = hundred,
      en_parse_json = sample_parse, en_frame_err = (\<lambda>_. ''''), en_json_size = (\<lambda>_. 10)\<rparr>"

lemma sample_env_simps [simp]:
  "en_rfc3339 sample_env = any_date" "en_serde_err sample_env = no_text"
  "en_event_size sample_env = hundred" "en_parse_json sample_env = sample_parse"
  "en_frame_err sample_env = (\<lambda>_. '''')" "en_json_size sample_env = (\<lambda>_. 10)"
  by (simp_all add: sample_env_def)

text \<open>A line that brings an accepted frame.\<close>

lemma line_accepted:
  assumes "handle_line env sends bytes h = (on, h')"
    and boot: "classify_boot_frame (\<lambda>b. result_option (en_parse_json env b)) bytes = RoomFrame"
    and frame: "classify_frame (en_rfc3339 env) (en_serde_err env) (en_parse_json env) (en_frame_err env) bytes = Ok fr"
    and fx: "ingest_effects (en_rfc3339 env) (en_serde_err env) (en_event_size env) fr (hi_transport h) = (Ok fx, t)"
  shows "hi_transport h' = t \<and> room_feed h' = room_feed h @ fx_applied_events fx
    \<and> hi_next_request h' = hi_next_request h"
proof -
  have frames: "hi_transport h1 = t \<and> room_feed h1 = room_feed h @ fx_applied_events fx
      \<and> hi_next_request h1 = hi_next_request h"
    if "process_frame env sends fr h = (r, h1)" for r h1
  proof -
    have pub: "hi_transport (publish_effects fx t h) = t"
      "hi_next_request (publish_effects fx t h) = hi_next_request h"
      by (simp_all add: publish_effects_def)
    have ans: "hi_transport (answer_pending i a h2) = hi_transport h2"
      "room_feed (answer_pending i a h2) = room_feed h2"
      "hi_next_request (answer_pending i a h2) = hi_next_request h2" for i a h2
      by (simp_all add: answer_pending_def pending_remove_def room_feed_def)
    from that show ?thesis
    proof (cases rule: process_frame_cases)
      case (accepted fx1 t1 h2)
      with fx same_but_sentD [OF accepted(2)] pub feeds_publish(1) [of fx t h] ans
      show ?thesis by (auto simp: room_feed_def split: option.splits)
    next
      case (unsent fx1 t1 e)
      with fx same_but_sentD [OF unsent(2)] pub feeds_publish(1) [of fx t h]
      show ?thesis by (auto simp: room_feed_def)
    qed (use fx in auto)
  qed
  have kept: "hi_transport (snd (note_transport_failure e h1)) = hi_transport h1"
    "room_feed (snd (note_transport_failure e h1)) = room_feed h1"
    "hi_next_request (snd (note_transport_failure e h1)) = hi_next_request h1" for e h1
    by (simp_all add: room_feed_def)
  obtain r h1 where pf: "process_frame env sends fr h = (r, h1)" by fastforce
  with assms(1) boot frame have "h' = h1 \<or> (\<exists>e. h' = snd (note_transport_failure e h1))"
    by (cases r) (auto simp: handle_line_def)
  with frames [OF pf] kept show ?thesis by metis
qed

lemma sample_lines:
  "classify_boot_frame (\<lambda>b. result_option (sample_parse b)) ''h'' = RoomFrame"
  "classify_boot_frame (\<lambda>b. result_option (sample_parse b)) ''r'' = RoomFrame"
  "classify_boot_frame (\<lambda>b. result_option (sample_parse b)) ''a'' = RoomFrame"
  "classify_frame any_date no_text sample_parse (\<lambda>_. '''') ''h'' = Ok (EventFrame hello)"
  "classify_frame any_date no_text sample_parse (\<lambda>_. '''') ''r'' = Ok (EventFrame routed_turn)"
  "classify_frame any_date no_text sample_parse (\<lambda>_. '''') ''a'' = Ok (answer ''room-resync-1'' [accepted_turn])"
proof -
  have no_method: "\<not> contains_method ''h''" "\<not> contains_method ''r''" "\<not> contains_method ''a''"
    by (simp_all add: contains_method_def BOOT_PROGRESS_METHOD_def)
  then show "classify_boot_frame (\<lambda>b. result_option (sample_parse b)) ''h'' = RoomFrame"
    "classify_boot_frame (\<lambda>b. result_option (sample_parse b)) ''r'' = RoomFrame"
    "classify_boot_frame (\<lambda>b. result_option (sample_parse b)) ''a'' = RoomFrame"
    by (simp_all add: classify_boot_frame_def)
  have "notification_of_json any_date no_text (notification_to_json hello) = Some hello"
    "notification_of_json any_date no_text (notification_to_json routed_turn) = Some routed_turn"
    using valid_samples by (simp_all add: notification_round_trip)
  then show "classify_frame any_date no_text sample_parse (\<lambda>_. '''') ''h'' = Ok (EventFrame hello)"
    "classify_frame any_date no_text sample_parse (\<lambda>_. '''') ''r'' = Ok (EventFrame routed_turn)"
    by (simp_all add: classify_frame_def validate_frame_content_def decode_server_frame_def frame_of_json_def
        sample_parse_def MAX_FRAME_CONTENT_BYTES_def MAX_FRAME_BYTES_def bytes_of_def
        notification_to_json_def contains_key_def)
  let ?r = "ResponseSuccess (ResponseId (IdString ''room-resync-1'')) (final_page [accepted_turn])"
  have "response_to_json ?r = Some (JObject [(''id'', JString ''room-resync-1''),
      (''jsonrpc'', JString ''2.0''), (''result'', final_page [accepted_turn])])"
    by (simp add: json_rpc_version_to_json_def)
  from response_round_trip [OF this]
  show "classify_frame any_date no_text sample_parse (\<lambda>_. '''') ''a'' = Ok (answer ''room-resync-1'' [accepted_turn])"
    by (simp add: classify_frame_def validate_frame_content_def decode_server_frame_def frame_of_json_def
        sample_parse_def MAX_FRAME_CONTENT_BYTES_def MAX_FRAME_BYTES_def bytes_of_def contains_key_def
        answer_def)
qed

lemma line_reached:
  assumes "reachable_host sample_env h"
    "classify_boot_frame (\<lambda>b. result_option (sample_parse b)) bytes = RoomFrame"
    "classify_frame any_date no_text sample_parse (\<lambda>_. '''') bytes = Ok fr"
    "ingest_effects any_date no_text hundred fr (hi_transport h) = (Ok fx, t)"
  obtains h' where "reachable_host sample_env h'" "hi_transport h' = t"
    "room_feed h' = room_feed h @ fx_applied_events fx"
proof -
  obtain on h' where eq: "handle_line sample_env (\<lambda>_. Queued) bytes h = (on, h')" by fastforce
  note line_accepted [OF this] assms
  then have h': "hi_transport h' = t" "room_feed h' = room_feed h @ fx_applied_events fx"
    "hi_next_request h' = hi_next_request h" by simp_all
  have "reachable_host sample_env h'"
    by (rule reachable_host.stepped [OF assms(1) host_step.line [OF eq]])
      (simp add: h' reachable_nonzero [OF assms(1)])
  with h' that show thesis by blast
qed

lemma sample_host:
  obtains h where "reachable_host sample_env h" "hi_transport h = recovered"
    "room_feed h = [accepted_turn, routed_turn]"
proof -
  have new: "hi_transport new_host = new_transport" "room_feed new_host = []"
    by (simp_all add: new_host_def room_feed_def)
  obtain h1 where h1: "reachable_host sample_env h1" "hi_transport h1 = greeted" "room_feed h1 = []"
    using line_reached [OF reachable_host.spawned sample_lines(1,4), of _ greeted] greeting new
    by (metis append.right_neutral transport_effects.select_convs(2))
  obtain h2 where h2: "reachable_host sample_env h2" "hi_transport h2 = waiting" "room_feed h2 = []"
    using line_reached [OF h1(1) sample_lines(2,5), of no_effects waiting] waiting_facts h1(2,3)
    by (metis append.right_neutral no_effects_simps(2))
  show thesis
    using line_reached [OF h2(1) sample_lines(3,6), of "no_effects\<lparr>fx_applied_events := [accepted_turn, routed_turn]\<rparr>"
        recovered] recovery h2(2,3) that by auto
qed

definition busy :: host_inner where
  "busy = snd (begin_request sample_env Queued ''zer0/room/prompt'' (JObject []) new_host)"

lemma busy_request:
  "begin_request sample_env Queued ''zer0/room/prompt'' (JObject []) new_host = (Ok ''zer0-request-1'', busy)"
  by (simp add: busy_def begin_request_def next_id_def send_request_def send_value_def new_host_def
      show_nat_one pending_insert_def MAX_FRAME_BYTES_def request_to_json_def object_value_def)

lemma busy_simps:
  "hi_pending busy = {''zer0-request-1''}" "hi_next_request busy = 2" "\<not> hi_failure_recorded busy"
  "\<not> hi_shutdown_started busy" "hi_exit busy = None" "\<not> hi_killed busy"
  by (simp_all add: busy_def begin_request_def next_id_def send_request_def send_value_def new_host_def
      show_nat_one pending_insert_def MAX_FRAME_BYTES_def request_to_json_def object_value_def)

lemma busy_reachable: "reachable_host sample_env busy"
  by (rule reachable_host.stepped [OF reachable_host.spawned host_step.requested [OF busy_request]])
    (simp add: busy_simps)

end
