(* ===== verification/Host_Quit.thy ===== *)
theory Host_Quit
  imports Host_Invariant
begin

section \<open>Quitting a running host\<close>

text \<open>
  A shutdown waits four times, and at each the other tasks of the process go on. \<open>meanwhile\<close> is
  what they can do to a host that is being shut down, \<open>others\<close> a schedule of it, and \<open>aside\<close> what no
  schedule changes: the exit once it is published, the handoffs, the closed admission, and who can
  have terminated the process. The lemmas say what each part of a shutdown makes of it, and that a
  shutdown with its schedule is a run of the steps of \<^theory_text>\<open>Host_Invariant\<close>.
\<close>

inductive meanwhile :: "host_env \<Rightarrow> host_inner \<Rightarrow> host_inner \<Rightarrow> bool" for env where
  requested: "begin_request env sent method params h = (r, h') \<Longrightarrow> meanwhile env h h'"
| finished: "end_request i awaited h = (r, h') \<Longrightarrow> meanwhile env h h'"
| line: "handle_line env sends bytes h = (on, h') \<Longrightarrow> meanwhile env h h'"
| output_ended: "meanwhile env h (handle_end ended h)"
| pipe_failed: "meanwhile env h (snd (note_transport_failure error h))"
| exited: "hi_exit h = None \<Longrightarrow> meanwhile env h (record_exit code success h)"
| reap_failed: "hi_exit h = None \<Longrightarrow> meanwhile env h (record_reap_failure error h)"
| failure_reaped: "hi_failure_recorded h \<Longrightarrow> meanwhile env h
    (kill_all (note_launcher_termination \<lparr>lt_branch = TransportFailureReap, lt_waited = d\<rparr> h))"
| cancelled: "meanwhile env h (h\<lparr>hi_cancelled := True\<rparr>)"

lemma meanwhile_step: "meanwhile env h h' \<Longrightarrow> host_step env h h'"
  by (induction rule: meanwhile.induct) (blast intro: host_step.intros)+

text \<open>The schedules: in the order of their times, each entry one such change, or none where the task
  has nothing to do in the state it finds.\<close>

definition others :: "host_env \<Rightarrow> doing list \<Rightarrow> bool" where
  "others env ds \<longleftrightarrow> List.sorted (map fst ds)
     \<and> (\<forall>(t, act) \<in> set ds. \<forall>h. act h = h \<or> meanwhile env h (act h))"

lemma others_Cons: "others env ((t, act) # ds) \<Longrightarrow> others env ds \<and> (act h = h \<or> meanwhile env h (act h))"
  by (auto simp: others_def)

text \<open>The monitor seeing the process end, unless it has before.\<close>

definition exits :: "32 word option \<Rightarrow> bool \<Rightarrow> host_inner \<Rightarrow> host_inner" where
  "exits code success h = (if hi_exit h = None then record_exit code success h else h)"

lemma exits_meanwhile: "exits code success h = h \<or> meanwhile env h (exits code success h)"
  by (simp add: exits_def meanwhile.exited)

lemma exits_exit: "hi_exit (exits code success h) \<noteq> None"
  by (simp add: exits_def)

subsection \<open>What other tasks leave alone\<close>

definition launchers :: "host_inner \<Rightarrow> termination_branch set" where
  "launchers h =
     {b. \<exists>t. b = lt_branch t \<and> (hi_termination h = Some t
        \<or> (\<exists>e. hi_exit h = Some e \<and> he_cause e = LauncherTerminated t))}"

definition aside :: "host_inner \<Rightarrow> host_inner \<Rightarrow> bool" where
  "aside h h' \<longleftrightarrow>
     hi_handoffs h' = hi_handoffs h \<and> hi_shutdown_started h' = hi_shutdown_started h
     \<and> (hi_accepting h' \<longrightarrow> hi_accepting h) \<and> (hi_failure_recorded h \<longrightarrow> hi_failure_recorded h')
     \<and> (hi_exit h \<noteq> None \<longrightarrow> hi_exit h' = hi_exit h)
     \<and> (\<forall>b \<in> launchers h'. b \<in> launchers h \<or> b = TransportFailureReap \<and> hi_failure_recorded h')"

lemma aside_refl [simp]: "aside h h"
  by (simp add: aside_def)

lemma aside_trans: "aside h h1 \<Longrightarrow> aside h1 h2 \<Longrightarrow> aside h h2"
  unfolding aside_def by (metis (no_types, lifting))

text \<open>The changes that leave the exit and its cause alone.\<close>

definition quiet :: "host_inner \<Rightarrow> host_inner \<Rightarrow> bool" where
  "quiet h h' \<longleftrightarrow>
     hi_handoffs h' = hi_handoffs h \<and> hi_shutdown_started h' = hi_shutdown_started h
     \<and> (hi_accepting h' \<longrightarrow> hi_accepting h) \<and> (hi_failure_recorded h \<longrightarrow> hi_failure_recorded h')
     \<and> hi_exit h' = hi_exit h \<and> hi_termination h' = hi_termination h"

lemma quiet_refl [simp]: "quiet h h"
  by (simp add: quiet_def)

lemma quiet_trans: "quiet h h1 \<Longrightarrow> quiet h1 h2 \<Longrightarrow> quiet h h2"
  by (simp add: quiet_def)

lemma quiet_aside: "quiet h h' \<Longrightarrow> aside h h'"
  by (simp add: quiet_def aside_def launchers_def)

lemma quiet_ops:
  "quiet h (snd (note_transport_failure e h))" "quiet h (pending_remove i h)"
  "quiet h (pending_insert i h)" "quiet h (answer_pending i a h)" "quiet h (publish_effects fx t h)"
  "quiet h (h\<lparr>hi_cancelled := c\<rparr>)" "quiet h (h\<lparr>hi_writer := w\<rparr>)" "quiet h (h\<lparr>hi_sent := vs\<rparr>)"
  "quiet h (h\<lparr>hi_boot_progress := p\<rparr>)" "quiet h (h\<lparr>hi_transport := tr\<rparr>)"
  "next_id p' h = (i', h1) \<Longrightarrow> quiet h h1"
  by (auto simp: quiet_def note_transport_failure_def fail_pending_def pending_remove_def
      pending_insert_def answer_pending_def publish_effects_def next_id_def)

lemma quiet_sent: "same_but_sent h h' \<Longrightarrow> quiet h h'"
  unfolding same_but_sent_def by (metis quiet_ops(8))

lemma quiet_request: "send_request env sent i m p h = (r, h') \<Longrightarrow> quiet h h'"
  by (erule send_request_cases) (auto intro: quiet_trans quiet_ops)

lemma quiet_begin:
  assumes "begin_request env sent m p h = (r, h')"
  shows "quiet h h'"
  using assms
proof (cases rule: begin_request_cases)
  case (unsent i h1 h2 e)
  from quiet_trans [OF quiet_trans [OF quiet_ops(11) [OF unsent(1)] quiet_request [OF unsent(3)]] quiet_ops(2)]
  show ?thesis using unsent(4) by simp
next
  case (sent i h1)
  from quiet_trans [OF quiet_ops(11) [OF sent(1)] quiet_request [OF sent(3)]] show ?thesis .
qed simp

lemma quiet_frame:
  assumes "process_frame env sends frame h = (r, h')"
  shows "quiet h h'"
  using assms
proof (cases rule: process_frame_cases)
  case (accepted fx t h1)
  have "quiet h h1" by (rule quiet_trans [OF quiet_ops(5) quiet_sent [OF accepted(2)]])
  with accepted(3) quiet_trans [OF _ quiet_ops(4)] show ?thesis by (auto split: option.splits)
next
  case (unsent fx t e)
  from quiet_trans [OF quiet_ops(5) quiet_sent [OF unsent(2)]] show ?thesis .
qed (simp_all add: quiet_ops)

lemma quiet_line:
  assumes "handle_line env sends bytes h = (on, h')"
  shows "quiet h h'"
  using assms
proof (cases rule: handle_line_cases)
  case (failed e fr h1)
  with quiet_trans [OF quiet_frame [OF failed(3)] quiet_ops(1)] show ?thesis by simp
qed (auto simp: quiet_ops dest: quiet_frame)

lemma aside_exit: "hi_exit h = None \<Longrightarrow> aside h (record_exit c s h)"
  by (auto simp: aside_def launchers_def split: option.splits)

lemma aside_reaped:
  "hi_failure_recorded h \<Longrightarrow>
    aside h (kill_all (note_launcher_termination \<lparr>lt_branch = TransportFailureReap, lt_waited = d\<rparr> h))"
  by (auto simp: aside_def launchers_def kill_all_def note_launcher_termination_def split: option.splits)

lemma meanwhile_aside: "meanwhile env h h' \<Longrightarrow> aside h h'"
proof (induction rule: meanwhile.induct)
  case (finished i a h r h')
  with end_request_state [OF finished] show ?case by (simp add: quiet_ops quiet_aside)
next
  case (output_ended h ended)
  show ?case by (auto simp: handle_end_def quiet_ops intro: quiet_aside split: result.splits)
next
  case (reap_failed h e)
  have "quiet h (h\<lparr>hi_accepting := False\<rparr>)" by (simp add: quiet_def)
  from quiet_trans [OF quiet_trans [OF this quiet_ops(1)] quiet_ops(6)] show ?case
    by (simp add: record_reap_failure_def quiet_aside)
qed (auto intro: quiet_aside quiet_begin quiet_line quiet_ops aside_exit aside_reaped)

subsection \<open>Waiting\<close>

text \<open>What every wait keeps is proved once: a relation that contains the steps of the other tasks and
  composes relates the states before and after.\<close>

locale kept_aside =
  fixes env :: host_env and R :: "host_inner \<Rightarrow> host_inner \<Rightarrow> bool"
  assumes refl: "R h h"
    and trans: "R h h1 \<Longrightarrow> R h1 h2 \<Longrightarrow> R h h2"
    and step: "meanwhile env h h' \<Longrightarrow> R h h'"
begin

lemma run_until_kept:
  "run_until ready deadline now ds h = (now1, rest, h1) \<Longrightarrow> others env ds \<Longrightarrow> R h h1 \<and> others env rest"
proof (induction ready deadline now ds h rule: run_until.induct)
  case (2 ready deadline now t act ds h)
  note tail = others_Cons [OF "2.prems"(2), of h]
  show ?case
  proof (cases "ready h \<or> \<not> t \<le> deadline")
    case True
    with "2.prems" have "h1 = h" "rest = (t, act) # ds" by (auto split: if_splits)
    with "2.prems"(2) refl show ?thesis by simp
  next
    case False
    with "2.prems"(1) have "run_until ready deadline (max now t) ds (act h) = (now1, rest, h1)" by simp
    with "2.IH" False tail have "R (act h) h1 \<and> others env rest" by simp
    moreover have "R h (act h)" using tail refl step by auto
    ultimately show ?thesis using trans by blast
  qed
qed (auto simp: refl)

end

interpretation aside: kept_aside env aside for env
  by unfold_locales (auto intro: aside_trans meanwhile_aside)

interpretation run: kept_aside env "(host_step env)\<^sup>*\<^sup>*" for env
  by unfold_locales (auto intro: meanwhile_step)

lemma run_until_time: "run_until ready deadline now ds h = (now1, rest, h1) \<Longrightarrow> now \<le> deadline \<Longrightarrow>
    now \<le> now1 \<and> now1 \<le> deadline \<and> (\<not> ready h1 \<longrightarrow> now1 = deadline)"
  by (induction ready deadline now ds h rule: run_until.induct) (auto split: if_splits)

text \<open>A doing that is due is done, unless the wait is over before.\<close>

lemma run_until_due:
  assumes "run_until ready deadline now ds h = (now1, rest, h1)" "others env ds" "x \<in> set ds"
  shows "x \<in> set rest \<and> (ready h1 \<or> deadline < fst x) \<or> (\<exists>h2. aside (snd x h2) h1)"
  using assms
proof (induction ready deadline now ds h rule: run_until.induct)
  case (2 ready deadline now t act ds h)
  note tail = others_Cons [OF "2.prems"(2), of h]
  consider (over) "ready h" | (late) "\<not> ready h" "deadline < t" | (due) "\<not> ready h" "t \<le> deadline" by force
  then show ?case
  proof cases
    case late
    then have "deadline < fst x" using "2.prems"(2,3) by (auto simp: others_def)
    with late "2.prems" show ?thesis by auto
  next
    case due
    with "2.prems"(1) have run: "run_until ready deadline (max now t) ds (act h) = (now1, rest, h1)" by simp
    show ?thesis
    proof (cases "x = (t, act)")
      case True
      from aside.run_until_kept [OF run] tail True show ?thesis by auto
    next
      case False
      with "2.IH" due run tail "2.prems"(3) show ?thesis by auto
    qed
  qed (use "2.prems" in auto)
qed simp


subsection \<open>The question and the close\<close>

text \<open>How a part of a shutdown moves on from a time, a schedule and a state: nothing but what is
  \<open>aside\<close> has changed, and what is no longer on the schedule was done.\<close>

definition moves :: "host_env \<Rightarrow> duration \<times> doing list \<times> host_inner \<Rightarrow> duration \<times> doing list \<times> host_inner \<Rightarrow> bool" where
  "moves env c c' \<longleftrightarrow>
     (case (c, c') of ((now, ds, h), (now1, rest, h1)) \<Rightarrow>
        others env ds \<longrightarrow>
          aside h h1 \<and> (host_step env)\<^sup>*\<^sup>* h h1 \<and> others env rest
          \<and> (\<forall>x \<in> set ds. x \<in> set rest \<or> (\<exists>h2. aside (snd x h2) h1)))"

lemma moves_trans:
  assumes "moves env c c1" "moves env c1 c2"
  shows "moves env c c2"
proof -
  obtain now ds h now1 ds1 h1 now2 ds2 h2 where c: "c = (now, ds, h)" "c1 = (now1, ds1, h1)" "c2 = (now2, ds2, h2)"
    by (metis prod_cases3)
  have "x \<in> set ds2 \<or> (\<exists>h3. aside (snd x h3) h2)" if "x \<in> set ds" "others env ds" for x
    using assms that unfolding moves_def c by (auto intro: aside_trans)
  then show ?thesis using assms unfolding moves_def c by (auto intro: aside_trans)
qed

lemma moves_until: "run_until ready deadline now ds h = (now1, rest, h1) \<Longrightarrow> moves env (now, ds, h) (now1, rest, h1)"
  using aside.run_until_kept [of ready deadline now ds h] run.run_until_kept [of ready deadline now ds h]
    run_until_due [of ready deadline now ds h now1 rest h1 env]
  unfolding moves_def by (simp, blast)

lemma moves_quiet: "quiet h h1 \<Longrightarrow> host_step env h h1 \<Longrightarrow> moves env (now, ds, h) (now, ds, h1)"
  by (simp add: moves_def quiet_aside r_into_rtranclp)

lemma moves_refl [simp]: "moves env c c"
  by (cases c) (simp add: moves_def)

lemma forget_step: "host_step env h (pending_remove i h)"
proof -
  have "end_request i AnswerTimedOut h = (Err (RequestTimedOut i), pending_remove i h)"
    by (simp add: end_request_def await_response_def pending_remove_def)
  then show ?thesis by (rule host_step.finished)
qed

lemma moves_forget: "moves env (now, ds, h) (now, ds, pending_remove i h)"
  by (rule moves_quiet [OF quiet_ops(2) forget_step])

lemma await_response_same: "pending_remove i (snd (await_response i awaited h)) = pending_remove i h"
  by (cases awaited) (simp_all add: await_response_def pending_remove_def)

text \<open>The parts of the question.\<close>

lemma ask_shutdown_cases:
  assumes "ask_shutdown env script h = (g, a, now, ds, h')"
  obtains (no_session) "g = Ok ()" "\<not> a"
        "run_others (ss_asked_at script) 0 (ss_doings script) h = (now, ds, h')"
    | (asked) now0 ds0 h0 i h1 sid sending h2 now1 ds1 h3 where
        "run_others (ss_asked_at script) 0 (ss_doings script) h = (now0, ds0, h0)"
        "next_id ''zer0-shutdown'' h0 = (i, h1)"
        "send_request env (ss_sent script) i ''zer0/room/shutdown'' (JObject [(''sessionId'', JString sid)]) h1
           = (sending, h2)"
        "run_others (max now0 (ss_sent_at script)) now0 ds0 h2 = (now1, ds1, h3)"
        "(\<exists>e. sending = Err e \<and> g = Err e \<and> \<not> a \<and> now = now1 \<and> ds = ds1 \<and> h' = pending_remove i h3)
         \<or> (\<exists>awaited h4. sending = Ok ()
              \<and> await_answer i (max now1 SHUTDOWN_RESPONSE_BOUND) now1 ds1 h3 = (awaited, now, ds, h4)
              \<and> g = tryR (fst (await_response i awaited h4)) (\<lambda>_. Ok ())
              \<and> a = is_ok (fst (await_response i awaited h4)) \<and> h' = pending_remove i h4)"
proof -
  obtain now0 ds0 h0 where zero: "run_others (ss_asked_at script) 0 (ss_doings script) h = (now0, ds0, h0)"
    by (metis prod_cases3)
  show thesis
  proof (cases "session_id (tr_reducer (hi_transport h0))")
    case None
    with assms zero no_session show thesis by (simp add: ask_shutdown_def)
  next
    case (Some sid)
    obtain i h1 where id: "next_id ''zer0-shutdown'' h0 = (i, h1)" by fastforce
    obtain sending h2 where req: "send_request env (ss_sent script) i ''zer0/room/shutdown''
      (JObject [(''sessionId'', JString sid)]) h1 = (sending, h2)" by fastforce
    obtain now1 ds1 h3 where one: "run_others (max now0 (ss_sent_at script)) now0 ds0 h2 = (now1, ds1, h3)"
      by (metis prod_cases3)
    obtain awaited now2 ds2 h4 where two:
      "await_answer i (max now1 SHUTDOWN_RESPONSE_BOUND) now1 ds1 h3 = (awaited, now2, ds2, h4)"
      by (metis prod_cases4)
    have "sending \<noteq> Panic m" for m
      using req by (cases rule: send_request_cases) simp_all
    with assms zero Some id req one two asked [OF zero id req one] await_response_same [of i awaited h4] show thesis
      by (cases sending) (auto simp: ask_shutdown_def split: prod.splits)
  qed
qed

lemma await_answer_run:
  "await_answer i deadline now ds h = (awaited, now1, ds1, h1) \<Longrightarrow>
    run_until (\<lambda>h. hi_answers h i \<noteq> None \<or> i \<notin> hi_pending h) deadline now ds h = (now1, ds1, h1)"
  by (auto simp: await_answer_def split: prod.splits)

lemma ask_shutdown_moves:
  assumes "ask_shutdown env script h = (g, a, now, ds, h')"
  shows "moves env (0, ss_doings script, h) (now, ds, h')"
  using assms
proof (cases rule: ask_shutdown_cases)
  case no_session
  from moves_until [OF no_session(3)] show ?thesis .
next
  case (asked now0 ds0 h0 i h1 sid sending h2 now1 ds1 h3)
  have "quiet h0 h2" by (rule quiet_trans [OF quiet_ops(11) [OF asked(2)] quiet_request [OF asked(3)]])
  moreover have "host_step env h0 h2" by (rule host_step.quit_asked [OF asked(2,3)])
  ultimately have "moves env (now0, ds0, h0) (now0, ds0, h2)" by (rule moves_quiet)
  with moves_until [OF asked(1)] moves_until [OF asked(4)]
  have "moves env (0, ss_doings script, h) (now1, ds1, h3)" by (blast intro: moves_trans)
  with asked(5) show ?thesis
    by (auto intro: moves_trans moves_forget dest!: await_answer_run moves_until)
qed

lemma ask_shutdown_acknowledged: "ask_shutdown env script h = (g, True, now, ds, h') \<Longrightarrow> g = Ok ()"
  by (erule ask_shutdown_cases) (auto elim: is_ok.elims)

lemma ask_shutdown_time:
  assumes "ask_shutdown env script h = (g, a, now, ds, h')"
  shows "now \<le> max (ss_asked_at script) (max (ss_sent_at script) SHUTDOWN_RESPONSE_BOUND)"
  using assms
proof (cases rule: ask_shutdown_cases)
  case no_session
  from run_until_time [OF no_session(3)] show ?thesis by simp
next
  case (asked now0 ds0 h0 i h1 sid sending h2 now1 ds1 h3)
  have "now0 \<le> ss_asked_at script" using run_until_time [OF asked(1)] by simp
  moreover have "now1 \<le> max now0 (ss_sent_at script)" using run_until_time [OF asked(4)] by simp
  moreover have "now \<le> max now1 SHUTDOWN_RESPONSE_BOUND"
    using asked(5) by (auto dest!: await_answer_run run_until_time)
  ultimately show ?thesis by linarith
qed

lemma ask_and_close_parts:
  assumes "ask_and_close env script h = (g, a, closed_at, ds, h')"
  shows "\<exists>now ds1 h1. ask_shutdown env script h = (g, a, now, ds1, h1)"
    "moves env (0, ss_doings script, h) (closed_at, ds, h')" "a \<Longrightarrow> g = Ok ()"
    "closed_at \<le> Max {ss_asked_at script, ss_sent_at script, SHUTDOWN_RESPONSE_BOUND, ss_closed_at script}"
proof -
  obtain g1 a1 now ds1 h1 where ask: "ask_shutdown env script h = (g1, a1, now, ds1, h1)"
    by (metis prod_cases5)
  obtain now2 ds2 h2 where run: "run_others (max now (ss_closed_at script)) now ds1 h1 = (now2, ds2, h2)"
    by (metis prod_cases3)
  with assms ask have eq: "g1 = g" "a1 = a" "now2 = closed_at" "ds2 = ds" "h' = h2\<lparr>hi_writer := False\<rparr>"
    by (simp_all add: ask_and_close_def)
  show "\<exists>now ds1 h1. ask_shutdown env script h = (g, a, now, ds1, h1)" using ask eq by simp
  show "a \<Longrightarrow> g = Ok ()" using ask eq by (auto dest: ask_shutdown_acknowledged)
  have "moves env (now2, ds2, h2) (now2, ds2, h')"
    unfolding eq(5) by (rule moves_quiet [OF quiet_ops(7) host_step.input_closed])
  with moves_trans [OF moves_trans [OF ask_shutdown_moves [OF ask] moves_until [OF run]]] eq
  show "moves env (0, ss_doings script, h) (closed_at, ds, h')" by simp
  have "closed_at \<le> max now (ss_closed_at script)" using run_until_time [OF run] eq by simp
  with ask_shutdown_time [OF ask]
  show "closed_at \<le> Max {ss_asked_at script, ss_sent_at script, SHUTDOWN_RESPONSE_BOUND, ss_closed_at script}"
    by (auto simp: max_def split: if_splits)
qed

subsection \<open>The wait for the exit\<close>

text \<open>Who can have terminated the process: the given branches, or the reaper of a recorded failure.\<close>

definition ended_by :: "termination_branch set \<Rightarrow> host_inner \<Rightarrow> bool" where
  "ended_by S h \<longleftrightarrow> launchers h \<subseteq> S \<union> (if hi_failure_recorded h then {TransportFailureReap} else {})"

lemma ended_by_aside: "ended_by S h \<Longrightarrow> aside h h1 \<Longrightarrow> ended_by S h1"
  by (fastforce simp: ended_by_def aside_def split: if_splits)

lemma ended_by_kill:
  "ended_by {} h \<Longrightarrow> ended_by {b} (kill_all (note_launcher_termination \<lparr>lt_branch = b, lt_waited = d\<rparr> h))"
  by (auto simp: ended_by_def launchers_def kill_all_def note_launcher_termination_def split: option.splits if_splits)

lemma wait_for_exit_run:
  assumes "wait_for_exit deadline now ds h = (x, now1, ds1, h1)"
  shows "run_until (\<lambda>h. hi_exit h \<noteq> None) deadline now ds h = (now1, ds1, h1)" "x = hi_exit h1"
  using assms by (auto simp: wait_for_exit_def split: prod.splits)

lemma reap_shutdown_cases:
  assumes "reap_shutdown g a closed_at ds h = (r, h')"
  obtains (exited) exit now ds1 h1 where "wait_for_exit (kill_time closed_at) closed_at ds h = (Some exit, now, ds1, h1)"
      "r = quit_outcome exit g" "h' = consume_digest_handoff (h1\<lparr>hi_cancelled := True\<rparr>)"
    | (killed) now ds1 h1 h2 x now1 ds2 h3 where
      "wait_for_exit (kill_time closed_at) closed_at ds h = (None, now, ds1, h1)"
      "h2 = kill_all (note_launcher_termination \<lparr>lt_branch = ShutdownReap a, lt_waited = now - closed_at\<rparr> h1)"
      "wait_for_exit (now + (SHUTDOWN_TOTAL_BOUND - now)) now ds1 h2 = (x, now1, ds2, h3)"
      "r = (case x of Some exit \<Rightarrow> quit_outcome exit g
                    | None \<Rightarrow> Err (Stopped ''timed out waiting for host reaping''))"
      "h' = consume_digest_handoff (h3\<lparr>hi_cancelled := True\<rparr>)"
proof -
  obtain x now ds1 h1 where one: "wait_for_exit (kill_time closed_at) closed_at ds h = (x, now, ds1, h1)"
    by (metis prod_cases4)
  show thesis
  proof (cases x)
    case (Some exit)
    with assms one exited show thesis by (auto simp: reap_shutdown_def)
  next
    case None
    let ?h2 = "kill_all (note_launcher_termination \<lparr>lt_branch = ShutdownReap a, lt_waited = now - closed_at\<rparr> h1)"
    obtain y now1 ds2 h3 where
      two: "wait_for_exit (now + (SHUTDOWN_TOTAL_BOUND - now)) now ds1 ?h2 = (y, now1, ds2, h3)"
      by (metis prod_cases4)
    have "(case y of Some exit \<Rightarrow> quit_outcome exit g
                    | None \<Rightarrow> Err (Stopped ''timed out waiting for host reaping''),
        consume_digest_handoff (h3\<lparr>hi_cancelled := True\<rparr>)) = (r, h')"
      using assms unfolding reap_shutdown_def one None prod.case option.case Let_def two .
    then have "r = (case y of Some exit \<Rightarrow> quit_outcome exit g
                    | None \<Rightarrow> Err (Stopped ''timed out waiting for host reaping''))"
      "h' = consume_digest_handoff (h3\<lparr>hi_cancelled := True\<rparr>)"
      by (simp_all only: prod.inject)
    from killed [OF one [unfolded None] HOL.refl two this] show thesis .
  qed
qed

lemma shutdown_cases:
  assumes "shutdown env script h = (r, h')"
  obtains (again) "hi_shutdown_started h" "r = Err AdmissionClosed" "h' = h"
    | (gone) "\<not> hi_shutdown_started h" "hi_exit h \<noteq> None" "r = Ok ()"
        "h' = consume_digest_handoff (h\<lparr>hi_shutdown_started := True, hi_accepting := False\<rparr>)"
    | (reaped) g a closed_at ds h2 where "\<not> hi_shutdown_started h" "hi_exit h = None"
        "ask_and_close env script (h\<lparr>hi_shutdown_started := True, hi_accepting := False\<rparr>) = (g, a, closed_at, ds, h2)"
        "reap_shutdown g a closed_at ds h2 = (r, h')"
proof (cases "hi_shutdown_started h")
  case True
  with assms have "r = Err AdmissionClosed" "h' = h" by (simp_all add: shutdown_def)
  with True again show thesis by blast
next
  case fresh: False
  show thesis
  proof (cases "hi_exit h")
    case (Some e)
    with assms fresh have "r = Ok ()"
      "h' = consume_digest_handoff (h\<lparr>hi_shutdown_started := True, hi_accepting := False\<rparr>)"
      by (simp_all add: shutdown_def Let_def)
    with Some fresh gone show thesis by blast
  next
    case None
    obtain g a closed_at ds h2 where ask:
      "ask_and_close env script (h\<lparr>hi_shutdown_started := True, hi_accepting := False\<rparr>) = (g, a, closed_at, ds, h2)"
      by (metis prod_cases5)
    with assms fresh None have "reap_shutdown g a closed_at ds h2 = (r, h')"
      by (simp add: shutdown_def Let_def)
    with fresh None ask reaped show thesis by blast
  qed
qed

text \<open>A shutdown that reaps ends with \<open>settled\<close> changes after its last wait.\<close>

lemma settle_simps [simp]:
  "hi_exit (consume_digest_handoff (h\<lparr>hi_cancelled := True\<rparr>)) = hi_exit h"
  "hi_cancelled (consume_digest_handoff (h\<lparr>hi_cancelled := True\<rparr>))"
  "hi_handoffs (consume_digest_handoff (h\<lparr>hi_cancelled := True\<rparr>)) = Suc (hi_handoffs h)"
  "hi_shutdown_started (consume_digest_handoff (h\<lparr>hi_cancelled := True\<rparr>)) = hi_shutdown_started h"
  "hi_accepting (consume_digest_handoff (h\<lparr>hi_cancelled := True\<rparr>)) = hi_accepting h"
  "hi_failure_recorded (consume_digest_handoff (h\<lparr>hi_cancelled := True\<rparr>)) = hi_failure_recorded h"
  "launchers (consume_digest_handoff (h\<lparr>hi_cancelled := True\<rparr>)) = launchers h"
  by (simp_all add: consume_digest_handoff_def launchers_def)

lemma kill_simps [simp]:
  "hi_exit (kill_all (note_launcher_termination t h)) = hi_exit h"
  "hi_handoffs (kill_all (note_launcher_termination t h)) = hi_handoffs h"
  "hi_shutdown_started (kill_all (note_launcher_termination t h)) = hi_shutdown_started h"
  "hi_accepting (kill_all (note_launcher_termination t h)) = hi_accepting h"
  "hi_failure_recorded (kill_all (note_launcher_termination t h)) = hi_failure_recorded h"
  by (simp_all add: kill_all_def note_launcher_termination_def split: option.splits)

text \<open>The same reaping, as what the other tasks and the kill have made of the state.\<close>

lemma reap_shutdown_aside:
  assumes "reap_shutdown g a closed_at ds h = (r, h')" "others env ds"
  obtains (exited) exit h1 where "aside h h1" "hi_exit h1 = Some exit" "r = quit_outcome exit g"
      "h' = consume_digest_handoff (h1\<lparr>hi_cancelled := True\<rparr>)"
    | (killed) d h1 h3 where "aside h h1"
      "aside (kill_all (note_launcher_termination \<lparr>lt_branch = ShutdownReap a, lt_waited = d\<rparr> h1)) h3"
      "r = (case hi_exit h3 of Some exit \<Rightarrow> quit_outcome exit g
                    | None \<Rightarrow> Err (Stopped ''timed out waiting for host reaping''))"
      "h' = consume_digest_handoff (h3\<lparr>hi_cancelled := True\<rparr>)"
  using assms(1)
proof (cases rule: reap_shutdown_cases)
  case (exited exit now ds1 h1)
  note one = wait_for_exit_run [OF exited(1)]
  from aside.run_until_kept [OF one(1) assms(2)] one(2) exited(2,3) that(1) [of h1 exit] show thesis by simp
next
  case (killed now ds1 h1 h2 x now1 ds2 h3)
  note one = wait_for_exit_run [OF killed(1)] and two = wait_for_exit_run [OF killed(3)]
  from aside.run_until_kept [OF one(1) assms(2)] have h1: "aside h h1" "others env ds1" by simp_all
  from aside.run_until_kept [OF two(1) h1(2)] two(2) killed(2,4,5) h1 that(2) [of h1 "now - closed_at" h3] show thesis by simp
qed

lemma aside_exited: "aside (exits code success h) h1 \<Longrightarrow> hi_exit h1 \<noteq> None"
  using exits_exit [of code success h] by (simp add: aside_def)

text \<open>A process that is seen to exit in the time left is reaped.\<close>

lemma reaped_when_due:
  assumes "reap_shutdown g a closed_at ds h = (r, h')" "others env ds"
    and "(t, exits code success) \<in> set ds \<or> hi_exit h \<noteq> None"
    and "t \<le> kill_time closed_at + KILL_REAP_RESERVE"
    and "kill_time closed_at + KILL_REAP_RESERVE \<le> SHUTDOWN_TOTAL_BOUND"
  shows "hi_exit h' \<noteq> None"
  using assms(1)
proof (cases rule: reap_shutdown_cases)
  case (exited exit now ds1 h1)
  then show ?thesis using wait_for_exit_run(2) [OF exited(1), symmetric] by simp
next
  case (killed now ds1 h1 h2 x now1 ds2 h3)
  note one = wait_for_exit_run [OF killed(1)] and two = wait_for_exit_run [OF killed(3)]
  from aside.run_until_kept [OF one(1) assms(2)] have h1: "aside h h1" "others env ds1" by simp_all
  have "now = kill_time closed_at"
    using run_until_time [OF one(1)] one(2) by (simp add: kill_time_def)
  then have "t \<le> now + (SHUTDOWN_TOTAL_BOUND - now)" using assms(4,5) by linarith
  moreover have "(t, exits code success) \<in> set ds1"
  proof -
    have none: "hi_exit h1 = None" using one(2) by simp
    then have "hi_exit h = None" using h1(1) by (cases "hi_exit h") (simp_all add: aside_def)
    then have "(t, exits code success) \<in> set ds" using assms(3) by simp
    from run_until_due [OF one(1) assms(2) this] show ?thesis
      using none by (auto dest: aside_exited)
  qed
  ultimately have "hi_exit h3 \<noteq> None"
    using run_until_due [OF two(1) h1(2)] aside_exited by fastforce
  with killed(5) show ?thesis by simp
qed

subsection \<open>Composed operations are runs of steps\<close>

lemma settle_run: "(host_step env)\<^sup>*\<^sup>* h (consume_digest_handoff (h\<lparr>hi_cancelled := True\<rparr>))"
  by (rule converse_rtranclp_into_rtranclp, rule host_step.cancelled, rule r_into_rtranclp, rule host_step.consumed)

lemma reap_after_failure_run:
  assumes "others env ds"
  shows "(host_step env)\<^sup>*\<^sup>* h (reap_after_failure ds h)"
proof -
  obtain x waited rest h1 where wait: "wait_for_exit FAILURE_REAP_GRACE 0 ds h = (x, waited, rest, h1)"
    by (metis prod_cases4)
  have "(host_step env)\<^sup>*\<^sup>* h h1"
    using run.run_until_kept [OF wait_for_exit_run(1) [OF wait] assms] by simp
  with host_step.killed [of env h1] host_step.cancelled [of env] show ?thesis
    by (auto simp: reap_after_failure_def wait Let_def) (meson rtranclp.rtrancl_into_rtrancl)+
qed

lemma reap_shutdown_run:
  assumes "reap_shutdown g a closed_at ds h = (r, h')" "others env ds"
  shows "(host_step env)\<^sup>*\<^sup>* h h'"
  using assms(1)
proof (cases rule: reap_shutdown_cases)
  case (exited exit now ds1 h1)
  from run.run_until_kept [OF wait_for_exit_run(1) [OF exited(1)] assms(2)] settle_run [of env h1] exited(3)
  show ?thesis by auto
next
  case (killed now ds1 h1 h2 x now1 ds2 h3)
  from run.run_until_kept [OF wait_for_exit_run(1) [OF killed(1)] assms(2)]
  have one: "(host_step env)\<^sup>*\<^sup>* h h1" "others env ds1" by simp_all
  have two: "host_step env h1 h2" unfolding killed(2) by (rule host_step.killed)
  from run.run_until_kept [OF wait_for_exit_run(1) [OF killed(3)] one(2)] settle_run [of env h3] killed(5)
  have "(host_step env)\<^sup>*\<^sup>* h2 h'" by auto
  with one(1) two show ?thesis by (meson converse_rtranclp_into_rtranclp rtranclp_trans)
qed

lemma shutdown_run:
  assumes "shutdown env script h = (r, h')" "others env (ss_doings script)"
  shows "(host_step env)\<^sup>*\<^sup>* h h'"
  using assms(1)
proof (cases rule: shutdown_cases)
  case gone
  have "host_step env (h\<lparr>hi_shutdown_started := True, hi_accepting := False\<rparr>) h'"
    unfolding gone(4) by (rule host_step.consumed)
  with host_step.quit_began show ?thesis by (meson converse_rtranclp_into_rtranclp r_into_rtranclp)
next
  case (reaped g a closed_at ds h2)
  from ask_and_close_parts(2) [OF reaped(3)] assms(2)
  have "(host_step env)\<^sup>*\<^sup>* (h\<lparr>hi_shutdown_started := True, hi_accepting := False\<rparr>) h2" "others env ds"
    by (simp_all add: moves_def)
  with reap_shutdown_run [OF reaped(4)] host_step.quit_began show ?thesis
    by (meson converse_rtranclp_into_rtranclp rtranclp_trans)
qed simp

end
