(* ===== verification/Host_Properties.thy ===== *)
theory Host_Properties
  imports Host_Sample Host_Quit
begin

section \<open>Properties of the host\<close>

text \<open>
  What the room's owner relies on: the events a running host broadcasts are the journal, a request
  is answered at most once, a failure closes the host for good, a shutdown ends in time and tells
  the truth about it, and the lines and words in between. Each rests on the invariants of
  \<^theory_text>\<open>Host_Invariant\<close> and the lemmas of the component theories, followed by its witness.
\<close>

text \<open>C16: In every state a host can reach, whatever its output and its failures, the room events it
  has broadcast carry the sequence numbers 1, 2, 3, ... with distinct identifiers, at most one exit
  was announced and it is the recorded one, and while no failure is recorded the reducer a client
  reads is the plain replay of the broadcast events and the live flag says whether it is live.\<close>

theorem host_feed_is_journal:
  assumes "sizes_ok (en_event_size env)" "reachable_host env h"
  shows "consecutive increment_decimal ''0'' (map ev_event_seq (room_feed h))
    \<and> distinct (map ev_event_id (room_feed h))
    \<and> exit_feed h = (case hi_exit h of None \<Rightarrow> [] | Some e \<Rightarrow> [e])
    \<and> (\<not> hi_failure_recorded h \<longrightarrow>
        apply_all (en_rfc3339 env) (room_feed h)
            (bound_room (map_option ev_session_id (tr_readiness (hi_transport h))))
          = Some (tr_reducer (hi_transport h))
        \<and> hi_live h = (tr_phase (hi_transport h) = Live))"
proof -
  note ok = feed_always [OF assms(2,1)]
  then obtain sid r where run: "extends (en_rfc3339 env) (bound_room sid) (room_feed h) r"
    and live: "tr_phase (hi_transport h) \<noteq> Fatal \<longrightarrow>
      r = tr_reducer (hi_transport h) \<and> sid = map_option ev_session_id (tr_readiness (hi_transport h))"
    by (auto simp: feed_ok_def delivered_def)
  have "apply_all (en_rfc3339 env) (room_feed h) (bound_room sid) = Some r"
    using run by (simp add: apply_all_steps extends_def)
  with live ok extends_run [OF bound_room_reachable run] extends_ids [OF bound_room_reachable run]
  show ?thesis by (auto simp: feed_ok_def split: if_splits)
qed

lemma host_feed_is_journal_witness:
  "\<exists>h. reachable_host sample_env h \<and> room_feed h = [accepted_turn, routed_turn]
    \<and> consecutive increment_decimal ''0'' (map ev_event_seq (room_feed h))
    \<and> distinct (map ev_event_id (room_feed h))"
proof -
  obtain h where h: "reachable_host sample_env h" "room_feed h = [accepted_turn, routed_turn]"
    using sample_host by blast
  from host_feed_is_journal [OF _ h(1)] hundred_ok h show ?thesis by (intro exI [of _ h]) simp
qed

text \<open>C17: A client's request gets an identifier no request had before; from then on it either waits or
  has been answered, never both, and an answer given to any request is never replaced, whatever
  happens to the host.\<close>

theorem request_answered_once:
  assumes "reachable_host env h" "begin_request env sent method params h = (Ok i, h1)"
    and "hi_next_request h1 \<noteq> 0" "host_steps env h1 h2" "host_steps env h2 h3"
  shows "i \<notin> hi_pending h \<and> hi_answers h i = None \<and> i \<in> hi_pending h1
    \<and> \<not> (i \<in> hi_pending h2 \<and> hi_answers h2 i \<noteq> None) \<and> hi_answers h2 \<subseteq>\<^sub>m hi_answers h3"
proof -
  have h1: "reachable_host env h1"
    by (rule reachable_host.stepped [OF assms(1) host_step.requested [OF assms(2)] assms(3)])
  note h2 = steps_reachable [OF assms(4) h1]
  from assms(2) obtain h0 where id: "next_id ''zer0-request'' h = (i, h0)"
    and send: "send_request env sent i method params h0 = (Ok (), h1)"
    by (cases rule: begin_request_cases) auto
  have "\<not> issued (hi_next_request h) i" using next_id_fresh(1) [OF id] by simp
  then have "i \<notin> hi_pending h \<and> hi_answers h i = None"
    using ids.always [OF assms(1)] by (auto simp: ids_ok_def)
  moreover have "i \<in> hi_pending h1"
    using send by (cases rule: send_request_cases) (simp_all add: pending_insert_def)
  moreover have "\<not> (i \<in> hi_pending h2 \<and> hi_answers h2 i \<noteq> None)"
    using ids.always [OF h2] by (auto simp: ids_ok_def)
  moreover have "hi_answers h2 \<subseteq>\<^sub>m hi_answers h3"
    using steps_keep_answer [OF assms(5) h2] by (fastforce simp: map_le_def)
  ultimately show ?thesis by simp
qed

lemma request_answered_once_witness:
  "''zer0-request-1'' \<notin> hi_pending new_host \<and> ''zer0-request-1'' \<in> hi_pending busy
    \<and> hi_answers busy \<subseteq>\<^sub>m hi_answers (snd (note_transport_failure AdmissionClosed busy))"
proof -
  have "host_steps sample_env busy (snd (note_transport_failure AdmissionClosed busy))"
    by (rule one_step [OF host_step.pipe_failed]) (simp add: busy_simps)
  from request_answered_once [OF reachable_host.spawned busy_request _ host_steps.none this]
  show ?thesis by (simp add: busy_simps)
qed

text \<open>C18: The first transport failure answers every waiting request with that error and shuts the
  host: in every later state the error stands, nothing waits, a new request is refused without any
  effect, and a second failure is not recorded.\<close>

theorem failure_closes_host:
  assumes "reachable_host env h" "\<not> hi_failure_recorded h" "note_transport_failure e h = (first, h1)"
    and "host_steps env h1 h2"
  shows "first \<and> (\<forall>i \<in> hi_pending h. hi_answers h2 i = Some (Err e))
    \<and> hi_transport_failure h2 = Some e \<and> hi_pending h2 = {}
    \<and> begin_request env sent method params h2 = (Err AdmissionClosed, h2)
    \<and> note_transport_failure e' h2 = (False, h2)"
proof -
  have h1: "h1 = snd (note_transport_failure e h)" and first: "first"
    using assms(2,3) by (auto simp: note_transport_failure_def)
  have r1: "reachable_host env h1" unfolding h1
    by (rule reachable_host.stepped [OF assms(1) host_step.pipe_failed])
      (simp add: reachable_nonzero [OF assms(1)])
  have "hi_answers h1 i = Some (Err e)" if "i \<in> hi_pending h" for i
    using assms(2) that by (simp add: h1 note_transport_failure_def fail_pending_def)
  then have answers: "hi_answers h2 i = Some (Err e)" if "i \<in> hi_pending h" for i
    using steps_keep_answer [OF assms(4) r1] that by blast
  have "hi_failure_recorded h1" "hi_transport_failure h1 = Some e"
    using assms(2) by (simp_all add: h1 note_transport_failure_def fail_pending_def)
  then have failed: "hi_failure_recorded h2" "hi_transport_failure h2 = Some e"
    using steps_keep_failure [OF assms(4)] by (simp_all add: keeps_failure_def)
  have "gate_closed h2"
    using gate.always [OF steps_reachable [OF assms(4) r1]] failed(1) by (simp add: gate_ok_def)
  with failed answers first show ?thesis
    by (simp add: gate_closed_def begin_request_def note_transport_failure_def)
qed

lemma failure_closes_host_witness:
  "hi_answers (snd (note_transport_failure (Io ''pipe'') busy)) ''zer0-request-1'' = Some (Err (Io ''pipe''))
    \<and> begin_request sample_env Queued ''m'' (JObject []) (snd (note_transport_failure (Io ''pipe'') busy))
        = (Err AdmissionClosed, snd (note_transport_failure (Io ''pipe'') busy))"
  using failure_closes_host [OF busy_reachable busy_simps(3) _ host_steps.none,
      of "Io ''pipe''" True _ Queued "''m''" "JObject []" AdmissionClosed]
  by (simp add: busy_simps note_transport_failure_def)

text \<open>What a shutdown says about the exit it ends with, the acknowledgement being what came of its
  question.\<close>

definition shutdown_words :: "(host_error, unit) result \<Rightarrow> host_exit option \<Rightarrow> (host_error, unit) result" where
  "shutdown_words acknowledgement exit =
     (case exit of
        None \<Rightarrow> Err (Stopped ''timed out waiting for host reaping'')
      | Some e \<Rightarrow>
          (case he_cause e of
             ByHost \<Rightarrow> if he_success e then Ok () else Err (Stopped (display_exit e))
           | LauncherTerminated t \<Rightarrow>
               (case lt_branch t of
                  ShutdownReap acknowledged \<Rightarrow>
                    if acknowledged then Ok () else Err (Stopped (display_exit e))
                | _ \<Rightarrow> acknowledgement)))"

lemma quit_words:
  assumes "\<And>t. he_cause e = LauncherTerminated t \<Longrightarrow> lt_branch t = ShutdownReap True \<Longrightarrow> g = Ok ()"
  shows "quit_outcome e g = shutdown_words g (Some e)"
  using assms
  by (auto simp: quit_outcome_def classify_shutdown_exit_def shutdown_words_def Let_def
      split: host_exit_cause.splits termination_branch.splits)

lemma launchers_exit: "hi_exit h = Some e \<Longrightarrow> he_cause e = LauncherTerminated t \<Longrightarrow> lt_branch t \<in> launchers h"
  by (auto simp: launchers_def)

text \<open>What the question of a shutdown came to, and whether the host answered it well.\<close>

definition acknowledged_as :: "host_env \<Rightarrow> shutdown_script \<Rightarrow> host_inner \<Rightarrow> (host_error, unit) result \<times> bool" where
  "acknowledged_as env script h =
     (case ask_shutdown env script (h\<lparr>hi_shutdown_started := True, hi_accepting := False\<rparr>) of
        (graceful, acknowledged, rest) \<Rightarrow> (graceful, acknowledged))"

text \<open>C19: Whatever the other tasks of the process do while it waits (requests, output, failures, the
  exit, and the reaper of a failure, which terminates the process too), what a first shutdown of a
  running host reports is decided by how the process ended: a clean exit of its own is success even
  when no acknowledgement came, a failed one is told as such, a process the shutdown itself had to
  kill is an error with the exit's own sentence unless the host had acknowledged, and one that
  cannot be reaped is reported as that. The one other end is a process terminated by the reaper of
  a transport failure: then the report is the acknowledgement as it came, an error or a timeout of
  the question included. So a timeout of the question is reported only when a failure is recorded.\<close>

theorem shutdown_speaks_exit:
  assumes "\<not> hi_shutdown_started h" "hi_exit h = None" "ended_by {} h"
    and "others env (ss_doings script)" "shutdown env script h = (r, h')"
    and "acknowledged_as env script h = (g, a)"
  shows "r = shutdown_words g (hi_exit h') \<and> (a \<longrightarrow> g = Ok ()) \<and> ended_by {ShutdownReap a} h'
    \<and> (hi_failure_recorded h' \<or> r \<noteq> Err (RequestTimedOut i))"
  using assms(5)
proof (cases rule: shutdown_cases)
  case (reaped g' a' closed_at ds h2)
  note parts = ask_and_close_parts [OF reaped(3)]
  have ga: "g' = g" "a' = a" using parts(1) assms(6) by (auto simp: acknowledged_as_def)
  then have g: "a \<Longrightarrow> g = Ok ()" using parts(3) by simp
  have "ended_by {} (h\<lparr>hi_shutdown_started := True, hi_accepting := False\<rparr>)"
    using assms(3) by (simp add: ended_by_def launchers_def)
  with parts(2) assms(4) have h2: "ended_by {} h2" "others env ds"
    by (auto simp: moves_def intro: ended_by_aside)
  have words: "r = shutdown_words g (hi_exit h') \<and> ended_by {ShutdownReap a} h'"
    using reaped(4) h2(2)
  proof (cases rule: reap_shutdown_aside)
    case (exited exit h1)
    have h1: "ended_by {} h1" by (rule ended_by_aside [OF h2(1) exited(1)])
    then have "lt_branch t = TransportFailureReap" if "he_cause exit = LauncherTerminated t" for t
      using launchers_exit [OF exited(2) that] by (auto simp: ended_by_def split: if_splits)
    with quit_words [of exit g] exited ga h1 show ?thesis by (auto simp: ended_by_def)
  next
    case (killed d h1 h3)
    have "ended_by {} h1" by (rule ended_by_aside [OF h2(1) killed(1)])
    from ended_by_aside [OF ended_by_kill [OF this] killed(2)] have h3: "ended_by {ShutdownReap a} h3"
      unfolding ga .
    have "quit_outcome exit g = shutdown_words g (Some exit)" if "hi_exit h3 = Some exit" for exit
      using launchers_exit [OF that] h3 g by (intro quit_words) (auto simp: ended_by_def split: if_splits)
    with killed(3,4) ga h3 show ?thesis
      by (cases "hi_exit h3") (auto simp: ended_by_def shutdown_words_def)
  qed
  moreover have "r \<noteq> Err (RequestTimedOut i)" if "\<not> hi_failure_recorded h'"
  proof -
    have "lt_branch t = ShutdownReap a" if "hi_exit h' = Some e" "he_cause e = LauncherTerminated t" for e t
      using launchers_exit [OF that] words \<open>\<not> hi_failure_recorded h'\<close> by (auto simp: ended_by_def)
    with words show ?thesis
      by (auto simp: shutdown_words_def split: option.splits host_exit_cause.splits)
  qed
  ultimately show ?thesis using g by blast
qed (use assms(1,2) in simp_all)


definition talking :: host_inner where
  "talking = busy\<lparr>hi_transport := greeted\<rparr>"

text \<open>Four quits: the answer is late and the host exits well after three seconds; it never exits and
  is killed; its transport fails once the wait for the answer is over, and the reaper of that
  failure ends it; and the same failure before the answer.\<close>

definition quitting :: "doing list \<Rightarrow> shutdown_script" where
  "quitting ds = \<lparr>ss_asked_at = 0, ss_sent = Queued, ss_sent_at = 0, ss_closed_at = 0, ss_doings = ds\<rparr>"

definition fails :: "host_inner \<Rightarrow> host_inner" where
  "fails h = snd (note_transport_failure (Frame ''x'') h)"

definition failure_reaps :: "host_inner \<Rightarrow> host_inner" where
  "failure_reaps h =
     (if hi_failure_recorded h
      then kill_all (note_launcher_termination \<lparr>lt_branch = TransportFailureReap, lt_waited = FAILURE_REAP_GRACE\<rparr> h)
      else h)"

definition slow_but_clean :: "doing list" where
  "slow_but_clean = [(from_secs 3, exits (Some 0) True)]"

definition never_answers :: "doing list" where
  "never_answers = [(from_millis 6600, exits (Some 1) False)]"

definition fails_late :: "doing list" where
  "fails_late = [(from_millis 300, fails), (from_millis 550, failure_reaps), (from_millis 560, exits (Some 1) False)]"

definition fails_early :: "doing list" where
  "fails_early = [(from_millis 100, fails), (from_millis 350, failure_reaps), (from_millis 360, exits (Some 1) False)]"

lemma sample_doings:
  "others sample_env slow_but_clean" "others sample_env never_answers"
  "others sample_env fails_late" "others sample_env fails_early"
  by (simp_all add: others_def slow_but_clean_def never_answers_def fails_late_def fails_early_def exits_meanwhile
      fails_def failure_reaps_def meanwhile.pipe_failed meanwhile.failure_reaped duration_defs)

lemma talking_simps:
  "\<not> hi_shutdown_started talking" "hi_exit talking = None" "hi_termination talking = None"
  "ended_by {} talking" "session_id (tr_reducer (hi_transport talking)) = Some ''s''"
  "hi_next_request talking = 2" "hi_writer talking" "hi_answers talking = Map.empty"
  "\<not> hi_failure_recorded talking" "hi_handoffs talking = 0"
  using greeting
  by (simp_all add: talking_def busy_simps ended_by_def launchers_def busy_def begin_request_def next_id_def
      send_request_def send_value_def new_host_def show_nat_one pending_insert_def MAX_FRAME_BYTES_def
      request_to_json_def object_value_def)

lemmas quit_eval = shutdown_def ask_and_close_def ask_shutdown_def reap_shutdown_def wait_for_exit_def
  await_answer_def await_response_def kill_time_def graceful_reap_for_def bound_defs duration_defs
  quitting_def slow_but_clean_def never_answers_def fails_late_def fails_early_def Let_def
  next_id_def send_request_def send_value_def request_to_json_def object_value_def pending_insert_def
  pending_remove_def MAX_FRAME_BYTES_def exits_def fails_def failure_reaps_def

lemma show_nat_two: "show_nat 2 = ''2''"
  by code_simp

lemma quits:
  "fst (shutdown sample_env (quitting fails_late) talking) = Err (RequestTimedOut ''zer0-shutdown-2'')"
  "fst (shutdown sample_env (quitting fails_early) talking) = Err (Frame ''x'')"
  "fst (shutdown sample_env (quitting slow_but_clean) talking) = Ok ()"
  by (simp_all add: quit_eval talking_simps note_transport_failure_def fail_pending_def show_nat_two
      kill_all_def note_launcher_termination_def record_exit_def take_launcher_termination_def
      quit_outcome_def classify_shutdown_exit_def consume_digest_handoff_def)

lemma shutdown_speaks_exit_witness:
  "\<exists>h1 h2 h3 g1 g2 g3. shutdown sample_env (quitting slow_but_clean) talking = (Ok (), h1)
    \<and> shutdown sample_env (quitting fails_early) talking = (Err (Frame ''x''), h2)
    \<and> shutdown sample_env (quitting fails_late) talking = (Err (RequestTimedOut ''zer0-shutdown-2''), h3)
    \<and> Ok () = shutdown_words g1 (hi_exit h1) \<and> Err (Frame ''x'') = shutdown_words g2 (hi_exit h2)
    \<and> Err (RequestTimedOut ''zer0-shutdown-2'') = shutdown_words g3 (hi_exit h3) \<and> hi_failure_recorded h3"
proof -
  have doings: "ss_doings (quitting ds) = ds" for ds by (simp add: quitting_def)
  have word: "\<exists>g h'. shutdown sample_env (quitting ds) talking = (r, h') \<and> r = shutdown_words g (hi_exit h')
      \<and> (hi_failure_recorded h' \<or> r \<noteq> Err (RequestTimedOut ''zer0-shutdown-2''))"
    if ds: "others sample_env ds" "fst (shutdown sample_env (quitting ds) talking) = r" for ds r
  proof -
    obtain h' where run: "shutdown sample_env (quitting ds) talking = (r, h')"
      using ds(2) by (metis prod.collapse)
    obtain g a where "acknowledged_as sample_env (quitting ds) talking = (g, a)" by fastforce
    from shutdown_speaks_exit [OF talking_simps(1,2,4) _ run this, unfolded doings, OF ds(1)] run
    show ?thesis by blast
  qed
  from word [OF sample_doings(1) quits(3)] word [OF sample_doings(4) quits(2)] word [OF sample_doings(3) quits(1)]
  show ?thesis by blast
qed

text \<open>C20: Whatever the other tasks do, unless asking the host took longer than the total bound less the
  reserve for a kill (6.5 seconds), a first shutdown of a running host decides about a kill within
  that time, and ends with the process reaped whenever the process is seen to exit no later than the
  reserve (half a second) after that decision. The digest handoff is consumed exactly once either
  way, and no client is admitted again.\<close>

theorem shutdown_reaps_in_time:
  assumes "\<not> hi_shutdown_started h" "hi_exit h = None" "shutdown env script h = (r, h')"
    and "others env (ss_doings script)"
    and "ask_and_close env script (h\<lparr>hi_shutdown_started := True, hi_accepting := False\<rparr>)
          = (g, acknowledged, closed_at, later, h1)"
    and "closed_at \<le> SHUTDOWN_TOTAL_BOUND - KILL_REAP_RESERVE"
    and "(t, exits code success) \<in> set (ss_doings script)" "t \<le> kill_time closed_at + KILL_REAP_RESERVE"
  shows "kill_time closed_at \<le> SHUTDOWN_TOTAL_BOUND - KILL_REAP_RESERVE
    \<and> hi_exit h' \<noteq> None \<and> hi_handoffs h' = Suc (hi_handoffs h) \<and> hi_cancelled h'
    \<and> hi_shutdown_started h' \<and> \<not> hi_accepting h'"
proof -
  have kill: "kill_time closed_at + KILL_REAP_RESERVE \<le> SHUTDOWN_TOTAL_BOUND"
    using assms(6) by (auto simp: kill_time_def graceful_reap_for_def bound_defs duration_defs)
  from assms(1-3,5) have reap: "reap_shutdown g acknowledged closed_at later h1 = (r, h')"
    by (simp add: shutdown_def Let_def)
  from ask_and_close_parts(2) [OF assms(5)] assms(4)
  have moved: "aside (h\<lparr>hi_shutdown_started := True, hi_accepting := False\<rparr>) h1" "others env later"
    "\<forall>x \<in> set (ss_doings script). x \<in> set later \<or> (\<exists>h2. aside (snd x h2) h1)"
    by (simp_all add: moves_def)
  then have h1: "hi_handoffs h1 = hi_handoffs h" "hi_shutdown_started h1" "\<not> hi_accepting h1" "others env later"
    by (simp_all add: aside_def)
  from bspec [OF moved(3) assms(7)] have due: "(t, exits code success) \<in> set later \<or> hi_exit h1 \<noteq> None"
    using aside_exited by fastforce
  have "hi_exit h' \<noteq> None"
    by (rule reaped_when_due [OF reap h1(4) due assms(8) kill])
  moreover have "hi_handoffs h' = Suc (hi_handoffs h) \<and> hi_cancelled h' \<and> hi_shutdown_started h' \<and> \<not> hi_accepting h'"
    using reap h1(4)
  proof (cases rule: reap_shutdown_aside)
    case (exited exit h2)
    then show ?thesis using h1 by (simp add: aside_def)
  next
    case (killed d h2 h3)
    then show ?thesis using h1 by (simp add: aside_def)
  qed
  ultimately show ?thesis using kill by simp
qed

lemma shutdown_reaps_in_time_witness:
  "hi_exit (snd (shutdown sample_env (quitting never_answers) talking)) \<noteq> None
    \<and> hi_handoffs (snd (shutdown sample_env (quitting never_answers) talking)) = 1"
proof -
  obtain r h' where run: "shutdown sample_env (quitting never_answers) talking = (r, h')" by fastforce
  obtain g a closed_at later h1 where ask: "ask_and_close sample_env (quitting never_answers)
      (talking\<lparr>hi_shutdown_started := True, hi_accepting := False\<rparr>) = (g, a, closed_at, later, h1)"
    by (metis prod_cases5)
  then have "closed_at = from_millis 250" by (auto simp: quit_eval talking_simps show_nat_two)
  with shutdown_reaps_in_time [OF talking_simps(1,2) run _ ask, of "from_millis 6600" "Some 1" False] run
  show ?thesis
    by (simp add: sample_doings talking_simps quitting_def)
      (simp add: never_answers_def kill_time_def graceful_reap_for_def bound_defs duration_defs)
qed

text \<open>C21: Whatever reports and answers arrive in order, the wait for a starting host ends, and however
  its branches race it ends no later than its ceiling: progress renews the inactivity bound but
  never the ceiling.\<close>

theorem startup_wait_ends:
  assumes "sorted (map fst wakeups)"
  shows "(\<exists>outcome finished. awaits fallback w 0 True None wakeups outcome finished)
    \<and> (\<forall>outcome finished. awaits fallback w 0 True None wakeups outcome finished \<longrightarrow>
          finished \<le> pw_ceiling w)"
  using awaits_total [OF assms, of 0] awaits_ceiling [of fallback w 0] by auto

definition sample_wait :: progress_wait where
  "sample_wait = \<lparr>pw_inactivity = from_secs 20, pw_ceiling = from_secs 120\<rparr>"

definition opening_stage :: boot_progress where
  "opening_stage = \<lparr>bp_stage = ''session'', bp_detail = None\<rparr>"

lemma startup_wait_ends_witness:
  "\<exists>outcome finished. awaits ''handshake'' sample_wait 0 True None
     [(from_secs 15, StageReported opening_stage), (from_secs 30, ResponseReady (Ok JNull))] outcome finished"
  using startup_wait_ends [of "[(from_secs 15, StageReported opening_stage), (from_secs 30, ResponseReady (Ok JNull))]"]
  by (simp add: from_secs_def)

text \<open>A host that keeps reporting stages quicker than the inactivity bound is never given up before
  the ceiling: the wait ends with the answer, when it comes.\<close>

theorem steady_progress_is_answered:
  assumes "steady w 0 (map fst reports @ [t])" "\<And>x. x \<in> set reports \<Longrightarrow> \<exists>b. snd x = StageReported b"
    and "awaits fallback w 0 True None (reports @ (t, ResponseReady reply) # rest) outcome finished"
  shows "outcome = reply \<and> finished = t"
  using steady_answered [OF assms(1) _ assms(3)] assms(2) by blast

lemma steady_progress_is_answered_witness:
  "awaits ''handshake'' sample_wait 0 True None
     [(from_secs 15, StageReported opening_stage), (from_secs 30, ResponseReady (Ok JNull))] (Ok JNull) (from_secs 30)"
proof -
  let ?w = "[(from_secs 15, StageReported opening_stage), (from_secs 30, ResponseReady (Ok JNull))]"
  have "sorted (map fst ?w)" "\<forall>t \<in> fst ` set ?w. 0 \<le> t" by (simp_all add: from_secs_def)
  from awaits_total [OF this] obtain outcome finished
    where run: "awaits ''handshake'' sample_wait 0 True None ?w outcome finished" by blast
  have "outcome = Ok JNull \<and> finished = from_secs 30"
    using steady_progress_is_answered [of sample_wait "[(from_secs 15, StageReported opening_stage)]" "from_secs 30"
        "''handshake''" "Ok JNull" "[]"] run
    by (simp add: sample_wait_def from_secs_def)
  with run show ?thesis by simp
qed

text \<open>The output reader cuts a host's output into exactly the lines it wrote, however the bytes are
  split into reads; an unterminated rest is an error, never a line.\<close>

theorem output_lines_are_exact:
  assumes "concat pieces = concat (map (\<lambda>l. l @ [LF]) lines) @ rest"
    and "\<And>l. l \<in> set lines \<Longrightarrow> LF \<notin> set l \<and> length l \<le> m" "LF \<notin> set rest" "length rest \<le> m"
  shows "read_chunks m [] pieces = (lines, if rest = [] then Ok () else Err frame_unterminated)"
  using read_chunks_strict_lines [of "[]" m pieces] strict_lines_lines [of lines m rest] assms by simp

lemma output_lines_are_exact_witness:
  "read_chunks 8 [] [''{'', ''}'' @ [LF] @ ''{'', [], ''}'' @ [LF] @ ''x''] = ([''{}'', ''{}''], Err frame_unterminated)"
  using output_lines_are_exact [of "[''{'', ''}'' @ [LF] @ ''{'', [], ''}'' @ [LF] @ ''x'']" "[''{}'', ''{}'']" "''x''" 8]
  by (simp add: LF_def)

text \<open>A line taken as startup progress, well-formed or not, is never a frame of the room protocol,
  and the stage and detail shown to the operator are short, printable and not empty.\<close>

theorem boot_line_is_no_room_frame:
  assumes "classify_boot_frame (\<lambda>b. result_option (parse b)) line = bf" "bf \<noteq> RoomFrame"
  shows "classify_frame f se parse frame_err line \<noteq> Ok frame
    \<and> (\<forall>b. bf = Progress b \<longrightarrow>
         short_printable 40 (bp_stage b) \<and> (\<forall>d. bp_detail b = Some d \<longrightarrow> short_printable 80 d))"
proof
  from classify_claims [of "\<lambda>b. result_option (parse b)" line] assms
  obtain m where m: "result_option (parse line) = Some (JObject m)"
    "get_str m ''method'' = Some BOOT_PROGRESS_METHOD" by blast
  then have "contains_key m ''method''" "get m ''method'' = Some (JString BOOT_PROGRESS_METHOD)"
    by (auto simp: contains_key_def get_str_eq_Some)
  then have "frame_of_json f se (JObject m) = None"
    by (auto simp: frame_of_json_def notification_of_json_def notification_method_of_json_def struct_fields_def
        BOOT_PROGRESS_METHOD_def bind_eq_Some_conv split: option.splits)
  with m(1) show "classify_frame f se parse frame_err line \<noteq> Ok frame"
    by (auto simp: classify_frame_def decode_server_frame_def)
  show "\<forall>b. bf = Progress b \<longrightarrow>
      short_printable 40 (bp_stage b) \<and> (\<forall>d. bp_detail b = Some d \<longrightarrow> short_printable 80 d)"
    using classify_progress [of "\<lambda>b. result_option (parse b)" line] assms(1)
    by (auto simp: MAX_STAGE_CHARS_def MAX_DETAIL_CHARS_def)
qed


definition stage_line :: "string \<Rightarrow> (string, json) result" where
  "stage_line line =
     Ok (JObject [(''jsonrpc'', JString ''2.0''), (''method'', JString BOOT_PROGRESS_METHOD),
                  (''params'', JObject [(''stage'', JString ''session'')])])"

lemma boot_line_is_no_room_frame_witness:
  "classify_boot_frame (\<lambda>b. result_option (stage_line b)) BOOT_PROGRESS_METHOD = Progress opening_stage
    \<and> classify_frame any_date no_text stage_line (\<lambda>_. '''') BOOT_PROGRESS_METHOD \<noteq> Ok (EventFrame hello)"
proof -
  have "short_printable MAX_STAGE_CHARS ''session''" by code_simp
  then have "classify_boot_frame (\<lambda>b. result_option (stage_line b)) BOOT_PROGRESS_METHOD = Progress opening_stage"
    by (simp add: classify_boot_frame_def contains_method_def stage_line_def BOOT_PROGRESS_METHOD_def
        opening_stage_def get_str_def keys_def)
  with boot_line_is_no_room_frame [OF this, of any_date no_text "\<lambda>_. ''''" "EventFrame hello"]
  show ?thesis by simp
qed

lemma length_show_code: "length (show_int (sint (c :: 32 word))) \<le> 11"
proof -
  have "- (2 ^ 31) \<le> sint c" "sint c < 2 ^ 31"
    using sint_ge [of c] sint_lt [of c] by simp_all
  then have "nat (- sint c) < 10 ^ 10" "nat (sint c) < 10 ^ 10" by simp_all
  from this [THEN length_show_nat_le] show ?thesis by (simp add: show_int_def)
qed

text \<open>The sentence shown for an exit fits the 96 columns of the room's failure row, as long as the
  launcher waited less than a thousand seconds and a successful exit has code 0 or none.\<close>

theorem exit_sentence_fits:
  assumes "\<And>t. he_cause e = LauncherTerminated t \<Longrightarrow> as_millis (lt_waited t) < 1000000"
    and "he_success e \<Longrightarrow> he_code e = None \<or> he_code e = Some 0"
  shows "length (display_exit e) \<le> 96"
proof (cases "he_cause e")
  case ByHost
  show ?thesis
  proof (cases "he_success e")
    case True
    with ByHost assms(2) show ?thesis
      using length_show_nat_le [of 0 1] by (auto simp: display_exit_def show_int_def)
  next
    case False
    with ByHost length_show_code show ?thesis
      by (cases "he_code e") (auto simp: display_exit_def intro: order_trans [OF length_show_code])
  qed
next
  case (LauncherTerminated t)
  have "length (show_nat (as_millis (lt_waited t))) \<le> 6" using assms(1) [OF LauncherTerminated] by (rule length_millis)
  moreover have "length (show_int 0) \<le> 1" using length_show_nat_le [of 0 1] by (simp add: show_int_def)
  moreover have "length (display_branch (lt_branch t)) \<le> 44" by (rule length_display_branch)
  ultimately show ?thesis
    using LauncherTerminated assms(2)
    by (cases "he_success e") (auto simp: display_exit_def display_termination_def)
qed


lemma exit_sentence_fits_witness:
  "length (display_exit \<lparr>he_code = Some 1, he_success = False,
     he_cause = LauncherTerminated \<lparr>lt_branch = TransportFailureReap, lt_waited = from_millis 999999\<rparr>\<rparr>) \<le> 96"
  by (rule exit_sentence_fits) (auto simp: duration_defs)

end
