(* ===== verification/Rust_Text.thy ===== *)
theory Rust_Text
  imports Host_Output
begin

section \<open>Lines and white space of Rust text\<close>

text \<open>
  \<open>str::lines\<close>, \<open>str::trim\<close> and \<open>str::trim_end\<close> on the bytes of a UTF-8 string, and \<open>join\<close>, as
  the digest handoff and the startup of the command line use them.
\<close>

text \<open>The encoded characters of a string, each with its bytes.\<close>

function char_pieces :: "string \<Rightarrow> string list" where
  "char_pieces [] = []"
| "char_pieces (c # cs) =
     (let w = utf8_width (of_char c) - 1 in (c # take w cs) # char_pieces (drop w cs))"
  by pat_completeness auto
termination by (relation "measure length") auto

definition blank_piece :: "string \<Rightarrow> bool" where
  "blank_piece piece \<longleftrightarrow> list_all is_whitespace (chars piece)"

definition trim_end :: "string \<Rightarrow> string" where
  "trim_end s = concat (rev (dropWhile blank_piece (rev (char_pieces s))))"

definition trim :: "string \<Rightarrow> string" where
  "trim s = concat (rev (dropWhile blank_piece (rev (dropWhile blank_piece (char_pieces s)))))"

definition strip_cr :: "string \<Rightarrow> string" where
  "strip_cr line = (if line \<noteq> [] \<and> last line = CHR 0x0D then butlast line else line)"

function text_lines :: "string \<Rightarrow> string list" where
  "text_lines s =
     (if s = [] then []
      else if LF \<in> set s
      then strip_cr (takeWhile (\<lambda>c. c \<noteq> LF) s) # text_lines (tl (dropWhile (\<lambda>c. c \<noteq> LF) s))
      else [s])"
  by pat_completeness auto
termination
proof (relation "measure length")
  fix s :: string
  assume "s \<noteq> []" "LF \<in> set s"
  then show "(tl (dropWhile (\<lambda>c. c \<noteq> LF) s), s) \<in> measure length"
    using length_dropWhile_le [of "\<lambda>c. c \<noteq> LF" s] by (cases "dropWhile (\<lambda>c. c \<noteq> LF) s") auto
qed simp

declare text_lines.simps [simp del]

text \<open>\<open>[\<dots>].join(separator)\<close>.\<close>

fun join :: "string \<Rightarrow> string list \<Rightarrow> string" where
  "join sep [] = []"
| "join sep [s] = s"
| "join sep (s # t # rest) = s @ sep @ join sep (t # rest)"

lemma concat_char_pieces [simp]: "concat (char_pieces s) = s"
  by (induction s rule: char_pieces.induct) (simp_all add: Let_def)

lemma trim_end_prefix: "\<exists>rest. s = trim_end s @ rest"
proof -
  let ?ps = "rev (char_pieces s)"
  have "s = concat (rev (takeWhile blank_piece ?ps @ dropWhile blank_piece ?ps))" by simp
  also have "\<dots> = trim_end s @ concat (rev (takeWhile blank_piece ?ps))"
    by (simp only: rev_append concat_append trim_end_def)
  finally show ?thesis by blast
qed

lemma char_pieces_nonempty: "p \<in> set (char_pieces s) \<Longrightarrow> p \<noteq> []"
  by (induction s rule: char_pieces.induct) (auto simp: Let_def)

lemma trim_empty_iff: "trim s = [] \<longleftrightarrow> list_all blank_piece (char_pieces s)"
proof -
  have "concat (rev (dropWhile blank_piece (rev ps))) = [] \<longleftrightarrow> (\<forall>p \<in> set ps. blank_piece p)"
    if "\<And>p. p \<in> set ps \<Longrightarrow> p \<noteq> []" for ps
  proof
    assume empty: "concat (rev (dropWhile blank_piece (rev ps))) = []"
    have "dropWhile blank_piece (rev ps) = []"
    proof (rule ccontr)
      assume "dropWhile blank_piece (rev ps) \<noteq> []"
      then obtain q qs where q: "dropWhile blank_piece (rev ps) = q # qs" by (cases "dropWhile blank_piece (rev ps)") auto
      then have "q \<in> set ps" by (metis list.set_intros(1) set_dropWhileD set_rev)
      with q empty that show False by auto
    qed
    then show "\<forall>p \<in> set ps. blank_piece p" by (simp add: dropWhile_eq_Nil_conv)
  next
    assume "\<forall>p \<in> set ps. blank_piece p"
    then have "dropWhile blank_piece (rev ps) = []" by (simp add: dropWhile_eq_Nil_conv)
    then show "concat (rev (dropWhile blank_piece (rev ps))) = []" by (simp only: rev.simps concat.simps)
  qed
  note this [of "dropWhile blank_piece (char_pieces s)"]
  moreover have "p \<noteq> []" if "p \<in> set (dropWhile blank_piece (char_pieces s))" for p
    using that char_pieces_nonempty set_dropWhileD by metis
  moreover have "(\<forall>p \<in> set (dropWhile blank_piece (char_pieces s)). blank_piece p)
      \<longleftrightarrow> list_all blank_piece (char_pieces s)"
    by (metis Ball_set dropWhile_eq_Nil_conv empty_iff hd_dropWhile list.set(1) list.set_sel(1))
  ultimately show ?thesis by (simp add: trim_def)
qed

lemma text_lines_line: "LF \<notin> set l \<Longrightarrow> text_lines (l @ LF # s) = strip_cr l # text_lines s"
proof -
  assume l: "LF \<notin> set l"
  then have "dropWhile (\<lambda>c. c \<noteq> LF) (l @ LF # s) = LF # s" by (subst dropWhile_append2) auto
  with l show ?thesis by (subst text_lines.simps) (simp add: takeWhile_line)
qed

lemma text_lines_written:
  assumes "\<And>l. l \<in> set ls \<Longrightarrow> LF \<notin> set l \<and> strip_cr l = l"
  shows "text_lines (concat (map (\<lambda>l. l @ [LF]) ls)) = ls"
  using assms
proof (induction ls)
  case Nil
  show ?case by (subst text_lines.simps) simp
next
  case (Cons l ls)
  then show ?case by (simp add: text_lines_line)
qed

end
