(* ===== verification/Digest_Handoff.thy ===== *)
theory Digest_Handoff
  imports Room_Json Rust_Text
begin

section \<open>The close-digest handoff\<close>

text \<open>
  \<open>digest_handoff.rs\<close>: once its host is gone, the launcher reads the request file the host may
  have left, starts a child for every request it fully understands, records everything else and
  removes the file. \<open>handoff_disk\<close> is what this changes: the request file, the failure log and the
  children started. What the machine answers (can a child be started, the file be removed, the log
  be opened) is the record \<open>handoff_env\<close>, with the JSON parser and Rust's \<open>Debug\<close> of a string.
\<close>

record digest_request =
  dr_session_id :: string
  dr_exec_path :: string
  dr_argv :: "string list"
  dr_cwd :: string
  dr_env :: "(string \<times> string) list"

record malformed_request =
  mr_session_id :: string
  mr_reason :: string

record digest_outcome =
  do_spawned :: nat
  do_malformed :: nat
  do_failed :: nat

definition no_outcome :: digest_outcome where
  "no_outcome = \<lparr>do_spawned = 0, do_malformed = 0, do_failed = 0\<rparr>"

definition outcome_is_empty :: "digest_outcome \<Rightarrow> bool" where
  "outcome_is_empty r \<longleftrightarrow> do_spawned r = 0 \<and> do_malformed r = 0 \<and> do_failed r = 0"

datatype request_file = NoFile | Denied string | Content string

record handoff_disk =
  hd_file :: request_file
  hd_log :: "string list"
  hd_children :: "digest_request list"

record handoff_env =
  hv_parse_json :: "string \<Rightarrow> (string, json) result"
  hv_debug_str :: "string \<Rightarrow> string"
  hv_is_dir :: "string \<Rightarrow> bool"
  hv_spawn :: "digest_request \<Rightarrow> string option"
  hv_remove :: "string option"
  hv_log_opens :: bool
  hv_now :: string
  hv_requests_path :: string

text \<open>The dash of the sentences, in UTF-8.\<close>

definition em_dash :: string where
  "em_dash = [CHR 0x20, CHR 0xE2, CHR 0x80, CHR 0x94, CHR 0x20]"

definition UNKNOWN_SESSION :: string where "UNKNOWN_SESSION = ''-''"

subsection \<open>Reading a request\<close>

fun debug_version :: "u64 option \<Rightarrow> string" where
  "debug_version (Some n) = ''Some('' @ show_nat (unat n) @ '')''"
| "debug_version None = ''None''"

fun debug_kind :: "(string \<Rightarrow> string) \<Rightarrow> string option \<Rightarrow> string" where
  "debug_kind debug_str (Some s) = ''Some('' @ debug_str s @ '')''"
| "debug_kind debug_str None = ''None''"

definition check_envelope :: "(string \<Rightarrow> string) \<Rightarrow> json \<Rightarrow> (string, unit) result" where
  "check_envelope debug_str v =
     (let version = Option.bind (value_get v ''v'') as_u64;
          kind = Option.bind (value_get v ''kind'') as_str in
      if version \<noteq> Some 1
      then Err (''seam version is '' @ debug_version version @ '', this binary consumes v1'' @ em_dash
                @ ''the host and this binary came from different trees; rebuild both from one'')
      else if kind \<noteq> Some ''digest''
      then Err (''kind is '' @ debug_kind debug_str kind @ '', expected '' @ [CHR 0x22] @ ''digest'' @ [CHR 0x22])
      else Ok ())"

definition require_string :: "json \<Rightarrow> string \<Rightarrow> (string, string) result" where
  "require_string v name =
     (case Option.bind (value_get v name) as_str of
        Some text \<Rightarrow> if text \<noteq> [] then Ok text else Err (name @ '' is empty'')
      | None \<Rightarrow> Err (name @ '' is missing or not a string''))"

definition require_argv :: "json \<Rightarrow> (string, string list) result" where
  "require_argv v =
     tryR (ok_or (Option.bind (value_get v ''argv'') as_array) ''argv is missing or not an array'')
       (\<lambda>items.
     if items = [] then Err ''argv is empty''
     else collect_results
            (\<lambda>(i, item). ok_or (as_str item) (''argv['' @ show_nat i @ ''] is not a string''))
            (List.enumerate 0 items))"

definition require_env :: "json \<Rightarrow> (string, (string \<times> string) list) result" where
  "require_env v =
     tryR (ok_or (Option.bind (value_get v ''env'') as_object) ''env is missing or not an object'')
       (collect_results
          (\<lambda>(key, item). ok_or (map_option (Pair key) (as_str item)) (''env['' @ key @ ''] is not a string'')))"

definition request_session :: "json \<Rightarrow> string" where
  "request_session v =
     (case Option.bind (value_get v ''sessionId'') as_str of Some s \<Rightarrow> s | None \<Rightarrow> UNKNOWN_SESSION)"

definition read_request :: "(string \<Rightarrow> string) \<Rightarrow> json \<Rightarrow> (string, digest_request) result" where
  "read_request debug_str v =
     tryR (check_envelope debug_str v) (\<lambda>_.
     tryR (for_each (\<lambda>name. tryR (require_string v name) (\<lambda>_. Ok ()))
             [''sessionId'', ''projectId'', ''repoRoot'', ''dbPath'', ''requestedAt'']) (\<lambda>_.
     tryR (require_string v ''execPath'') (\<lambda>exec_path.
     tryR (require_argv v) (\<lambda>argv.
     tryR (require_string v ''cwd'') (\<lambda>cwd.
     tryR (require_env v) (\<lambda>env.
     Ok \<lparr>dr_session_id = request_session v, dr_exec_path = exec_path, dr_argv = argv,
         dr_cwd = cwd, dr_env = env\<rparr>))))))"

definition parse_request :: "handoff_env \<Rightarrow> string \<Rightarrow> (malformed_request, digest_request) result" where
  "parse_request env line =
     tryR (map_err (\<lambda>e. \<lparr>mr_session_id = UNKNOWN_SESSION, mr_reason = ''not JSON: '' @ e\<rparr>)
             (hv_parse_json env line)) (\<lambda>v.
     map_err (\<lambda>reason. \<lparr>mr_session_id = request_session v, mr_reason = reason\<rparr>)
       (read_request (hv_debug_str env) v))"

subsection \<open>Consuming the file\<close>

definition record_failure :: "handoff_env \<Rightarrow> string \<Rightarrow> string \<Rightarrow> handoff_disk \<Rightarrow> handoff_disk" where
  "record_failure env session_id detail d =
     (if hv_log_opens env
      then d\<lparr>hd_log := hd_log d @ [hv_now env @ '' session='' @ session_id
                                  @ '' [digest-catastrophe] '' @ detail @ [LF]]\<rparr>
      else d)"

text \<open>The child that is started, or why it is not.\<close>

definition spawn_request :: "handoff_env \<Rightarrow> digest_request \<Rightarrow> (string, unit) result" where
  "spawn_request env q =
     (if \<not> hv_is_dir env (dr_cwd q)
      then Err (''working directory '' @ dr_cwd q @ '' does not exist'' @ em_dash
                @ ''the request named a cwd that was removed between the host's close and this spawn'')
      else case hv_spawn env q of
        None \<Rightarrow> Ok ()
      | Some error \<Rightarrow> Err (dr_exec_path q @ '' '' @ join '' '' (dr_argv q) @ '': '' @ error))"

definition consume_line ::
  "handoff_env \<Rightarrow> nat \<times> string \<Rightarrow> digest_outcome \<times> handoff_disk \<Rightarrow> digest_outcome \<times> handoff_disk" where
  "consume_line env numbered st =
     (case (numbered, st) of ((number, line), (r, d)) \<Rightarrow>
      if trim line = [] then (r, d)
      else case parse_request env line of
        Ok q \<Rightarrow>
          (case spawn_request env q of
             Err reason \<Rightarrow>
               (r\<lparr>do_failed := do_failed r + 1\<rparr>,
                record_failure env (dr_session_id q) (''parent handoff spawn failed: '' @ reason) d)
           | _ \<Rightarrow> (r\<lparr>do_spawned := do_spawned r + 1\<rparr>, d\<lparr>hd_children := hd_children d @ [q]\<rparr>))
      | Err m \<Rightarrow>
          (r\<lparr>do_malformed := do_malformed r + 1\<rparr>,
           record_failure env (mr_session_id m)
             (''parent handoff skipped a malformed request (line '' @ show_nat number @ ''): ''
              @ mr_reason m @ em_dash
              @ ''fix the writer in src/memory/digest-runner.ts; this session was not digested'') d)
      | Panic p \<Rightarrow> (r, d))"

datatype read_result = Absent | Body string | Unreadable string

definition read_requests :: "handoff_env \<Rightarrow> handoff_disk \<Rightarrow> read_result" where
  "read_requests env d =
     (let unreadable = (\<lambda>e. Unreadable (''parent handoff could not read '' @ hv_requests_path env @ '': '' @ e
            @ em_dash @ ''the close digest for this run was not started; the request may still be readable by hand''))
      in case hd_file d of
           NoFile \<Rightarrow> Absent
         | Denied e \<Rightarrow> unreadable e
         | Content body \<Rightarrow>
             if utf8_valid (bytes_of body) then Body body
             else unreadable ''stream did not contain valid UTF-8'')"

definition remove_consumed :: "handoff_env \<Rightarrow> handoff_disk \<Rightarrow> handoff_disk" where
  "remove_consumed env d =
     (case hv_remove env of
        None \<Rightarrow> d\<lparr>hd_file := NoFile\<rparr>
      | Some e \<Rightarrow>
          record_failure env UNKNOWN_SESSION
            (''parent handoff could not remove '' @ hv_requests_path env @ '': '' @ e @ em_dash
             @ ''its requests were already spawned, so the next run would spawn them again (harmless: ''
             @ ''the digest lease and watermark make a duplicate a no-op). Delete the file to silence this.'') d)"

definition consume_digest_requests :: "handoff_env \<Rightarrow> handoff_disk \<Rightarrow> digest_outcome \<times> handoff_disk" where
  "consume_digest_requests env d =
     (case read_requests env d of
        Absent \<Rightarrow> (no_outcome, d)
      | Unreadable reason \<Rightarrow>
          (no_outcome\<lparr>do_failed := 1\<rparr>, record_failure env UNKNOWN_SESSION reason d)
      | Body body \<Rightarrow>
          (case fold (consume_line env) (List.enumerate 1 (text_lines body)) (no_outcome, d) of
             (r, d1) \<Rightarrow> (r, remove_consumed env d1)))"

subsection \<open>What a pass does\<close>

text \<open>The requests of a file, and which of them are started.\<close>

definition request_lines :: "string \<Rightarrow> string list" where
  "request_lines body = filter (\<lambda>line. trim line \<noteq> []) (text_lines body)"

definition understood :: "handoff_env \<Rightarrow> string list \<Rightarrow> digest_request list" where
  "understood env ls = concat (map (\<lambda>l. case parse_request env l of Ok q \<Rightarrow> [q] | _ \<Rightarrow> []) ls)"

lemma check_envelope_calm [simp]: "\<not> is_panic (check_envelope dbg v)"
  by (simp add: check_envelope_def Let_def)

lemma require_string_calm [simp]: "\<not> is_panic (require_string v name)"
  by (simp add: require_string_def split: option.splits)

lemma require_argv_calm [simp]: "\<not> is_panic (require_argv v)"
  by (auto simp: require_argv_def intro!: is_panic_collect)

lemma require_env_calm [simp]: "\<not> is_panic (require_env v)"
  by (auto simp: require_env_def intro!: is_panic_collect)

lemma parse_request_calm: "\<not> is_panic (hv_parse_json env l) \<Longrightarrow> \<not> is_panic (parse_request env l)"
  by (auto simp: parse_request_def read_request_def intro!: is_panic_for_each)

lemma spawn_request_calm: "spawn_request env q \<noteq> Panic p"
  by (simp add: spawn_request_def split: option.splits)

text \<open>What a pass over some lines adds: \<open>adds env ls (r, d) (r', d')\<close>.\<close>

definition startable :: "handoff_env \<Rightarrow> string list \<Rightarrow> digest_request list" where
  "startable env ls = filter (\<lambda>q. is_ok (spawn_request env q)) (understood env ls)"

fun adds :: "handoff_env \<Rightarrow> string list \<Rightarrow> digest_outcome \<times> handoff_disk \<Rightarrow>
    digest_outcome \<times> handoff_disk \<Rightarrow> bool" where
  "adds env ls (r, d) (r', d') \<longleftrightarrow>
     hd_file d' = hd_file d \<and> hd_children d' = hd_children d @ startable env ls
     \<and> do_spawned r' = do_spawned r + length (startable env ls)
     \<and> do_malformed r' + length (understood env ls) = do_malformed r + length ls
     \<and> do_failed r' + length (startable env ls) = do_failed r + length (understood env ls)
     \<and> (\<exists>added. hd_log d' = hd_log d @ added
          \<and> length added = (if hv_log_opens env then length ls - length (startable env ls) else 0))"

lemma understood_simps [simp]:
  "understood env [] = []" "understood env (ls @ ms) = understood env ls @ understood env ms"
  "understood env (l # ls) = (case parse_request env l of Ok q \<Rightarrow> [q] | _ \<Rightarrow> []) @ understood env ls"
  by (simp_all add: understood_def)

lemma length_understood_le: "length (understood env ls) \<le> length ls"
  by (induction ls) (auto split: result.splits)

lemma length_startable_le: "length (startable env ls) \<le> length (understood env ls)"
  by (simp add: startable_def)

lemma adds_trans:
  assumes "adds env ls st st1" "adds env ms st1 st2"
  shows "adds env (ls @ ms) st st2"
proof -
  obtain r d r1 d1 r2 d2 where st: "st = (r, d)" "st1 = (r1, d1)" "st2 = (r2, d2)"
    by (cases st; cases st1; cases st2)
  have "length (startable env ls) \<le> length ls" "length (startable env ms) \<le> length ms"
    using length_startable_le length_understood_le order_trans by blast+
  with assms show ?thesis by (auto simp: st startable_def)
qed

lemma consume_line_adds:
  assumes "\<not> is_panic (hv_parse_json env l)"
  shows "adds env (if trim l = [] then [] else [l]) st (consume_line env (n, l) st)"
proof -
  obtain r d where st: "st = (r, d)" by (cases st)
  show ?thesis
  proof (cases "trim l = []")
    case True
    then show ?thesis by (simp add: st consume_line_def startable_def)
  next
    case nonblank: False
    show ?thesis
    proof (cases "parse_request env l")
      case (Ok q)
      with nonblank spawn_request_calm show ?thesis
        by (cases "spawn_request env q") (simp_all add: st consume_line_def startable_def record_failure_def)
    next
      case (Err m)
      with nonblank show ?thesis
        by (simp add: st consume_line_def startable_def record_failure_def)
    next
      case (Panic m)
      with parse_request_calm [OF assms] show ?thesis by simp
    qed
  qed
qed

lemma consume_lines_add:
  assumes "\<And>l. l \<in> set ls \<Longrightarrow> \<not> is_panic (hv_parse_json env l)"
  shows "adds env (filter (\<lambda>l. trim l \<noteq> []) ls) st (fold (consume_line env) (List.enumerate n ls) st)"
  using assms
proof (induction ls arbitrary: n st)
  case Nil
  show ?case by (cases st) (simp add: startable_def)
next
  case (Cons l ls)
  have one: "adds env (if trim l = [] then [] else [l]) st (consume_line env (n, l) st)"
    using Cons.prems by (intro consume_line_adds) simp
  have "adds env (filter (\<lambda>l. trim l \<noteq> []) ls) (consume_line env (n, l) st)
      (fold (consume_line env) (List.enumerate (Suc n) ls) (consume_line env (n, l) st))"
    using Cons.prems by (intro Cons.IH) simp
  from adds_trans [OF one this] show ?case by (simp split: if_splits)
qed

text \<open>What an understood request is made of.\<close>

lemma require_string_Ok: "require_string v name = Ok s \<Longrightarrow> s \<noteq> [] \<and> value_get v name = Some (JString s)"
  by (auto simp: require_string_def bind_eq_Some_conv split: option.splits if_splits)

lemma require_argv_Ok:
  assumes "require_argv v = Ok argv"
  shows "argv \<noteq> [] \<and> value_get v ''argv'' = Some (JArray (map JString argv))"
proof -
  from assms obtain items where items: "value_get v ''argv'' = Some (JArray items)" "items \<noteq> []"
    and ok: "list_all2 (\<lambda>x s. snd x = JString s) (List.enumerate 0 items) argv"
    by (auto simp: require_argv_def bind_eq_Some_conv collect_results_Ok split_beta split: if_splits)
  from ok have "items = map JString argv"
    by (auto simp: list_eq_iff_nth_eq list_all2_conv_all_nth nth_enumerate_eq)
  with items show ?thesis by auto
qed

lemma require_env_Ok:
  assumes "require_env v = Ok vars"
  shows "value_get v ''env'' = Some (JObject (map (\<lambda>(k, s). (k, JString s)) vars))"
proof -
  from assms obtain m where m: "value_get v ''env'' = Some (JObject m)"
    and ok: "list_all2 (\<lambda>x e. \<exists>z. snd x = JString z \<and> (fst x, z) = e) m vars"
    by (auto simp: require_env_def bind_eq_Some_conv collect_results_Ok split_beta)
  from ok have "m = map (\<lambda>(k, s). (k, JString s)) vars"
    by (auto simp: list_eq_iff_nth_eq list_all2_conv_all_nth split_beta prod_eq_iff)
  with m show ?thesis by simp
qed

end
