(* ===== verification/Client_Feed.thy ===== *)
theory Client_Feed
  imports Host_Invariant
begin

section \<open>A client of the host\<close>

text \<open>
  \<open>HostEventReceiver\<close> and \<open>HostClient::resync\<close> of \<open>host_process.rs\<close>. A receiver is a place in the
  host's broadcast, of which tokio documents that it keeps the last \<open>EVENT_BROADCAST_CAPACITY\<close>
  values and that a receiver that fell behind is told so once and goes on at the oldest one kept. A
  resync is the list of the answers its requests get before its deadline.
\<close>

definition EVENT_BROADCAST_CAPACITY :: nat where "EVENT_BROADCAST_CAPACITY = 32"

datatype receive_error = ReceiverClosed | Lagged "string option"

record event_receiver =
  rc_position :: nat
  rc_last :: "string option"

definition subscribe_events :: "host_event list \<Rightarrow> event_receiver" where
  "subscribe_events events = \<lparr>rc_position = length events, rc_last = None\<rparr>"

fun delivered_seq :: "host_event \<Rightarrow> string option \<Rightarrow> string option" where
  "delivered_seq (HostReadiness e) prior = Some (ev_event_seq e)"
| "delivered_seq (HostRoom e) prior = Some (ev_event_seq e)"
| "delivered_seq (HostExited e) prior = prior"

text \<open>\<open>None\<close>: the receiver waits. \<open>alive\<close> says whether a sender is left.\<close>

definition recv ::
  "host_event list \<Rightarrow> bool \<Rightarrow> event_receiver \<Rightarrow> ((receive_error, host_event) result \<times> event_receiver) option" where
  "recv events alive rc =
     (let oldest = length events - EVENT_BROADCAST_CAPACITY in
      if rc_position rc < oldest
      then Some (Err (Lagged (rc_last rc)), rc\<lparr>rc_position := oldest\<rparr>)
      else if rc_position rc < length events
      then (let event = events ! rc_position rc in
            Some (Ok event, \<lparr>rc_position = rc_position rc + 1, rc_last = delivered_seq event (rc_last rc)\<rparr>))
      else if alive then None else Some (Err ReceiverClosed, rc))"

subsection \<open>Resynchronizing\<close>

definition parse_resync_page ::
  "(string \<Rightarrow> bool) \<Rightarrow> (json \<Rightarrow> string) \<Rightarrow> json \<Rightarrow> (host_error, resync_page) result" where
  "parse_resync_page rfc3339 serde_err v =
     tryR (ok_or (opt_filter (\<lambda>m. length m = 1
                    \<or> length m = 2 \<and> contains_key m ''events'' \<and> contains_key m ''hasMore'')
                   (as_object v))
            (Frame ''resync result must be exactly {events:[...]} or {events:[...],hasMore:boolean}''))
       (\<lambda>object.
     tryR (ok_or (Option.bind (get object ''events'') as_array)
            (Frame ''resync events must be an array'')) (\<lambda>values.
     tryR (map_err (\<lambda>e. Frame (''invalid resync event: '' @ display_protocol_error e))
            (collect_results (from_value rfc3339 serde_err) values)) (\<lambda>events.
     tryR (case get object ''hasMore'' of
             None \<Rightarrow> Ok False
           | Some flag \<Rightarrow> ok_or (as_bool flag) (Frame ''resync hasMore must be a boolean''))
       (\<lambda>has_more. Ok \<lparr>pg_events = events, pg_has_more = has_more\<rparr>))))"

text \<open>One round of the loop: the page and the frontier after it.\<close>

definition read_page ::
  "(string \<Rightarrow> bool) \<Rightarrow> (json \<Rightarrow> string) \<Rightarrow> string \<Rightarrow> json \<Rightarrow> (host_error, resync_page \<times> string) result" where
  "read_page rfc3339 serde_err frontier v =
     tryR (parse_resync_page rfc3339 serde_err v) (\<lambda>page.
       if pg_has_more page \<and> pg_events page = []
       then Err (Frame ''resync returned an empty non-final page'')
       else if pg_events page = [] then Ok (page, frontier)
       else
         let seq = ev_event_seq (last (pg_events page)) in
         tryR (map_err (\<lambda>e. Frame (display_protocol_error e)) (decimal_cmp seq frontier)) (\<lambda>order.
           if order \<noteq> Greater then Err (Frame ''resync page did not advance the event frontier'')
           else Ok (page, seq)))"

text \<open>The loop; besides its result, the frontiers it asked after. No answer left: the deadline.\<close>

fun resync_loop ::
  "(string \<Rightarrow> bool) \<Rightarrow> (json \<Rightarrow> string) \<Rightarrow> string \<Rightarrow> room_event list \<Rightarrow> (host_error, json) result list \<Rightarrow>
   (host_error, room_event list) result \<times> string list" where
  "resync_loop rfc3339 serde_err frontier replay [] =
     (Err (RequestTimedOut ''room-resync-pagination''), [])"
| "resync_loop rfc3339 serde_err frontier replay (answer # rest) =
     (case tryR answer (read_page rfc3339 serde_err frontier) of
        Ok (page, frontier') \<Rightarrow>
          if pg_has_more page
          then (case resync_loop rfc3339 serde_err frontier' (replay @ pg_events page) rest of
                  (r, asked) \<Rightarrow> (r, frontier # asked))
          else (Ok (replay @ pg_events page), [frontier])
      | Err e \<Rightarrow> (Err e, [frontier])
      | Panic m \<Rightarrow> (Panic m, [frontier]))"

definition resync ::
  "(string \<Rightarrow> bool) \<Rightarrow> (json \<Rightarrow> string) \<Rightarrow> host_inner \<Rightarrow> string \<Rightarrow> (host_error, json) result list \<Rightarrow>
   (host_error, room_event list) result" where
  "resync rfc3339 serde_err h after answers =
     tryR (map_err (\<lambda>e. InvalidArgument (''after_event_seq: '' @ display_protocol_error e))
             (validate_decimal after)) (\<lambda>_.
     tryR (ok_or (session_id (tr_reducer (hi_transport h)))
             (Stopped ''room readiness has not bound a session'')) (\<lambda>sid.
     fst (resync_loop rfc3339 serde_err after [] answers)))"

subsection \<open>A host that serves its journal\<close>

text \<open>
  \<open>serve pages\<close> are the answers of a host that returns these pages one after the other, as the
  protocol documents \<open>zer0/room/resync\<close>.
\<close>

definition page_value :: "room_event list \<Rightarrow> bool \<Rightarrow> json" where
  "page_value es partial =
     JObject ((''events'', JArray (map room_event_to_json es))
              # (if partial then [(''hasMore'', JBool True)] else []))"

fun serve :: "room_event list list \<Rightarrow> (host_error, json) result list" where
  "serve [] = []"
| "serve [p] = [Ok (page_value p False)]"
| "serve (p # q # ps) = Ok (page_value p True) # serve (q # ps)"

lemma page_value_read:
  assumes "\<And>e. e \<in> set es \<Longrightarrow> validate f e = Ok ()"
  shows "parse_resync_page f se (page_value es partial) = Ok \<lparr>pg_events = es, pg_has_more = partial\<rparr>"
proof -
  have "collect_results (from_value f se) (map room_event_to_json es) = Ok es"
    using assms by (induction es) (auto simp: from_value_round_trip)
  then show ?thesis by (simp add: parse_resync_page_def page_value_def contains_key_def)
qed

lemma extends_appendE:
  assumes "reachable f r" "extends f r (es @ es') r'"
  obtains r1 where "extends f r es r1" "extends f r1 es' r'"
proof -
  have "\<exists>r1. extends f r es r1 \<and> extends f r1 es' r'"
    using assms
  proof (induction es arbitrary: r)
    case (Cons e es)
    obtain r0 d where one: "extends f r [e] r0" and rest: "extends f r0 (es @ es') r'"
      using Cons.prems(2) by (auto elim: extends_ConsE [OF Cons.prems(1)])
    have "reachable f r0" by (rule extends_reachable [OF Cons.prems(1) one])
    from Cons.IH [OF this rest] obtain r1 where r1: "extends f r0 es r1" "extends f r1 es' r'" by blast
    from extends_trans [OF Cons.prems(1) one r1(1)] r1(2) show ?case by auto
  next
    case Nil
    then have "extends f r [] r" "extends f r es' r'" by simp_all
    then show ?case by blast
  qed
  with that show thesis by blast
qed

lemma extends_valid:
  assumes "reachable f r" "extends f r es r'" "e \<in> set es"
  shows "validate f e = Ok ()"
proof -
  have "logged r' e" using extends_run [OF assms(1,2)] assms(3) by blast
  with logged_validated [OF extends_reachable [OF assms(1,2)]] show ?thesis by (auto simp: logged_def)
qed

lemma read_page_served:
  assumes "reachable f r" "extends f r p r'" "partial \<Longrightarrow> p \<noteq> []"
  shows "read_page f se (last_event_seq r) (page_value p partial)
    = Ok (\<lparr>pg_events = p, pg_has_more = partial\<rparr>, last_event_seq r')"
proof -
  have page: "parse_resync_page f se (page_value p partial) = Ok \<lparr>pg_events = p, pg_has_more = partial\<rparr>"
    by (rule page_value_read) (rule extends_valid [OF assms(1,2)])
  have last: "last_event_seq r' = last (last_event_seq r # map ev_event_seq p)"
    using extends_run [OF assms(1,2)] by blast
  show ?thesis
  proof (cases "p = []")
    case True
    with assms(3) page last show ?thesis by (auto simp: read_page_def)
  next
    case False
    then have "last_event_seq r' = ev_event_seq (last p)" using last by (simp add: last_map)
    moreover have "decimal_cmp (last_event_seq r') (last_event_seq r) = Ok Greater"
      using frontier_cmp [OF assms(1,2)] False by simp
    ultimately show ?thesis using False page by (simp add: read_page_def Let_def)
  qed
qed

lemma resync_loop_served:
  assumes "reachable f r" "extends f r (concat ps) r'" "ps \<noteq> []" "\<And>p. p \<in> set (butlast ps) \<Longrightarrow> p \<noteq> []"
  shows "resync_loop f se (last_event_seq r) replay (serve ps)
    = (Ok (replay @ concat ps), last_event_seq r # map (\<lambda>p. ev_event_seq (last p)) (butlast ps))"
  using assms
proof (induction ps arbitrary: r replay rule: serve.induct)
  case (2 p)
  with read_page_served [of f r p r' False se] show ?case by simp
next
  case (3 p q ps)
  have "extends f r (p @ concat (q # ps)) r'" using "3.prems"(2) by simp
  from extends_appendE [OF "3.prems"(1) this]
  obtain r1 where r1: "extends f r p r1" "extends f r1 (concat (q # ps)) r'" by blast
  have p: "p \<noteq> []" using "3.prems"(4) [of p] by simp
  have rest: "resync_loop f se (last_event_seq r1) (replay @ p) (serve (q # ps))
      = (Ok ((replay @ p) @ concat (q # ps)),
         last_event_seq r1 # map (\<lambda>p. ev_event_seq (last p)) (butlast (q # ps)))"
    using "3.prems"(4) by (intro "3.IH" extends_reachable [OF "3.prems"(1) r1(1)] r1(2)) auto
  have "last_event_seq r1 = ev_event_seq (last p)"
    using extends_run [OF "3.prems"(1) r1(1)] p by (simp add: last_map)
  with rest read_page_served [OF "3.prems"(1) r1(1), of True se] p show ?case by simp
qed simp

text \<open>Whatever the host answers, the frontiers asked after grow.\<close>

lemma read_page_advances:
  assumes "valid_decimal frontier" "read_page f se frontier v = Ok (page, frontier')"
  shows "valid_decimal frontier' \<and> (pg_has_more page \<longrightarrow> dec_value frontier < dec_value frontier')"
proof -
  have valid: "valid_decimal (ev_event_seq e)" if "parse_resync_page f se v = Ok page" "e \<in> set (pg_events page)" for e page
    using that from_value_validated validate_decimal_event
    by (fastforce simp: parse_resync_page_def collect_results_Ok list_all2_conv_all_nth in_set_conv_nth)
  have page: "parse_resync_page f se v = Ok page" using assms(2) by (auto simp: read_page_def Let_def split: if_splits)
  show ?thesis
  proof (cases "pg_events page = []")
    case True
    with assms page show ?thesis by (auto simp: read_page_def split: if_splits)
  next
    case False
    with assms(2) page have last: "frontier' = ev_event_seq (last (pg_events page))"
      and cmp: "decimal_cmp frontier' frontier = Ok Greater"
      by (auto simp: read_page_def Let_def split: if_splits)
    from valid [OF page] False have "valid_decimal frontier'" by (simp add: last)
    with cmp assms(1) show ?thesis by (auto simp: decimal_cmp_valid cmp_def split: if_splits)
  qed
qed

lemma resync_loop_asks:
  "valid_decimal frontier \<Longrightarrow>
   sorted_wrt (<) (map dec_value (snd (resync_loop f se frontier replay answers)))
     \<and> (\<forall>x \<in> set (snd (resync_loop f se frontier replay answers)). dec_value frontier \<le> dec_value x)
     \<and> length (snd (resync_loop f se frontier replay answers)) \<le> length answers"
proof (induction answers arbitrary: frontier replay)
  case (Cons answer rest)
  show ?case
  proof (cases "tryR answer (read_page f se frontier)")
    case (Ok p)
    then obtain page frontier' where p: "tryR answer (read_page f se frontier) = Ok (page, frontier')" by (cases p) simp
    then have adv: "valid_decimal frontier'" "pg_has_more page \<Longrightarrow> dec_value frontier < dec_value frontier'"
      using read_page_advances [OF Cons.prems] by auto
    obtain q asked where q: "resync_loop f se frontier' (replay @ pg_events page) rest = (q, asked)"
      by (cases "resync_loop f se frontier' (replay @ pg_events page) rest")
    have asks: "snd (resync_loop f se frontier replay (answer # rest))
        = (if pg_has_more page then frontier # asked else [frontier])"
      unfolding resync_loop.simps p by (simp add: q)
    show ?thesis
    proof (cases "pg_has_more page")
      case True
      with adv have less: "dec_value frontier < dec_value x" if "dec_value frontier' \<le> dec_value x" for x
        using that by simp
      show ?thesis
        using Cons.IH [OF adv(1), of "replay @ pg_events page"] less True
        unfolding asks q by (auto intro: less_imp_le)
    qed (unfold asks, simp)
  qed (unfold resync_loop.simps, simp_all only: result.case snd_conv list.map sorted_wrt.simps list.size list.set, simp_all)
qed simp

end
