(* ===== verification/Launcher_Properties.thy ===== *)
theory Launcher_Properties
  imports Digest_Handoff Client_Feed Host_Sample
begin

section \<open>Properties of the launcher\<close>

text \<open>
  What the launcher does around a running host: it consumes the digest handoff the host leaves
  behind, and it recovers the events a slow reader missed.
\<close>

subsection \<open>The digest handoff\<close>

text \<open>C22: A pass over a readable handoff file accounts for every request line in it: a child is
  started for each request that is understood and can be started, in the order of the file, every
  other line is counted as malformed or failed and, where the log can be opened, recorded there,
  and the file is removed last. A pass after a removal finds nothing and changes nothing.\<close>

theorem handoff_accounted_for:
  assumes content: "hd_file d = Content body" "utf8_valid (bytes_of body)"
    and parser: "\<And>l. \<not> is_panic (hv_parse_json env l)"
    and pass: "consume_digest_requests env d = (r, d')"
  shows "hd_children d' = hd_children d @ startable env (request_lines body)
    \<and> do_spawned r = length (startable env (request_lines body))
    \<and> do_malformed r + length (understood env (request_lines body)) = length (request_lines body)
    \<and> do_spawned r + do_malformed r + do_failed r = length (request_lines body)
    \<and> (hv_log_opens env \<and> hv_remove env = None
        \<longrightarrow> length (hd_log d') = length (hd_log d) + do_malformed r + do_failed r)
    \<and> hd_file d' = (if hv_remove env = None then NoFile else hd_file d)
    \<and> (hv_remove env = None \<longrightarrow> consume_digest_requests env d' = (no_outcome, d'))"
proof -
  obtain r1 d1 where lines: "fold (consume_line env) (List.enumerate 1 (text_lines body)) (no_outcome, d) = (r1, d1)"
    by (cases "fold (consume_line env) (List.enumerate 1 (text_lines body)) (no_outcome, d)")
  with content pass have r: "r = r1" and d': "d' = remove_consumed env d1"
    by (simp_all add: consume_digest_requests_def read_requests_def)
  have sum: "adds env (request_lines body) (no_outcome, d) (r1, d1)"
    using consume_lines_add [of "text_lines body" env "(no_outcome, d)" 1] parser lines
    by (simp add: request_lines_def)
  moreover have "length (startable env (request_lines body)) \<le> length (understood env (request_lines body))"
    by (rule length_startable_le)
  ultimately show ?thesis
    using r d' length_understood_le [of env "request_lines body"]
    by (auto simp: remove_consumed_def record_failure_def no_outcome_def consume_digest_requests_def
        read_requests_def split: option.splits)
qed

text \<open>A handoff of two lines: one is a request, the other is not.\<close>

definition sample_request :: json where
  "sample_request = JObject
     [(''argv'', JArray [JString ''d'']), (''cwd'', JString ''w''), (''dbPath'', JString ''b''),
      (''env'', JObject [(''K'', JString ''x'')]), (''execPath'', JString ''n''),
      (''kind'', JString ''digest''), (''projectId'', JString ''p''), (''repoRoot'', JString ''o''),
      (''requestedAt'', JString ''t''), (''sessionId'', JString ''s''), (''v'', JNumber (PosInt 1))]"

definition handoff_sample :: handoff_env where
  "handoff_sample =
     \<lparr>hv_parse_json = (\<lambda>l. if l = ''q'' then Ok sample_request else Err ''bad''), hv_debug_str = id,
      hv_is_dir = (\<lambda>_. True), hv_spawn = (\<lambda>_. None), hv_remove = None, hv_log_opens = True,
      hv_now = ''t'', hv_requests_path = ''f''\<rparr>"

definition left_by_host :: handoff_disk where
  "left_by_host = \<lparr>hd_file = Content [CHR ''q'', LF, CHR ''z'', LF], hd_log = [], hd_children = []\<rparr>"

lemma handoff_lines: "request_lines [CHR ''q'', LF, CHR ''z'', LF] = [''q'', ''z'']"
proof -
  have "text_lines [CHR ''q'', LF, CHR ''z'', LF] = [''q'', ''z'']"
    by (simp add: text_lines.simps [of "_ # _"] text_lines.simps [of "[]"] LF_def strip_cr_def)
  then show ?thesis
    by (simp add: request_lines_def trim_empty_iff blank_piece_def chars_def bytes_of_def is_whitespace_def utf8_width_def utf8_lead_def)
qed

lemma handoff_requests:
  "parse_request handoff_sample ''q'' = Ok \<lparr>dr_session_id = ''s'', dr_exec_path = ''n'', dr_argv = [''d''],
     dr_cwd = ''w'', dr_env = [(''K'', ''x'')]\<rparr>"
  "parse_request handoff_sample ''z'' = Err \<lparr>mr_session_id = UNKNOWN_SESSION, mr_reason = ''not JSON: bad''\<rparr>"
  by (simp_all add: parse_request_def handoff_sample_def read_request_def sample_request_def check_envelope_def
      require_string_def require_argv_def require_env_def request_session_def value_get_def numeral_nat)

lemma handoff_accounted_for_witness:
  "\<exists>r d'. consume_digest_requests handoff_sample left_by_host = (r, d')
    \<and> length (hd_children d') = 1 \<and> do_spawned r = 1 \<and> do_malformed r = 1 \<and> do_failed r = 0
    \<and> hd_file d' = NoFile \<and> length (hd_log d') = 1
    \<and> consume_digest_requests handoff_sample d' = (no_outcome, d')"
proof -
  obtain r d' where pass: "consume_digest_requests handoff_sample left_by_host = (r, d')"
    by (cases "consume_digest_requests handoff_sample left_by_host")
  have content: "hd_file left_by_host = Content [CHR ''q'', LF, CHR ''z'', LF]"
    "utf8_valid (bytes_of [CHR ''q'', LF, CHR ''z'', LF])"
    by (simp_all add: left_by_host_def bytes_of_def LF_def)
  have sample: "hv_remove handoff_sample = None" "hv_log_opens handoff_sample"
    "\<not> is_panic (hv_parse_json handoff_sample l)" "hd_children left_by_host = []" "hd_log left_by_host = []" for l
    by (simp_all add: handoff_sample_def left_by_host_def)
  have "length (startable handoff_sample [''q'', ''z'']) = 1" "length (understood handoff_sample [''q'', ''z'']) = 1"
    by (simp_all add: startable_def understood_def handoff_lines handoff_requests)
      (simp add: spawn_request_def handoff_sample_def)
  with handoff_accounted_for [OF content sample(3) pass] sample pass show ?thesis
    by (simp add: handoff_lines handoff_requests)
qed

text \<open>A request that is started is fully understood: its line is version 1 of the digest seam,
  names every field the seam calls required, has a program and at least one argument, and its
  program, arguments, directory and environment are the line's, complete and in order.\<close>

theorem started_request_understood:
  assumes "parse_request env line = Ok q"
  shows "\<exists>v. hv_parse_json env line = Ok v
    \<and> Option.bind (value_get v ''v'') as_u64 = Some 1 \<and> value_get v ''kind'' = Some (JString ''digest'')
    \<and> value_get v ''sessionId'' = Some (JString (dr_session_id q)) \<and> dr_session_id q \<noteq> []
    \<and> (\<exists>project repo db date. value_get v ''projectId'' = Some (JString project)
        \<and> value_get v ''repoRoot'' = Some (JString repo) \<and> value_get v ''dbPath'' = Some (JString db)
        \<and> value_get v ''requestedAt'' = Some (JString date) \<and> [] \<notin> {project, repo, db, date})
    \<and> value_get v ''execPath'' = Some (JString (dr_exec_path q)) \<and> dr_exec_path q \<noteq> []
    \<and> value_get v ''argv'' = Some (JArray (map JString (dr_argv q))) \<and> dr_argv q \<noteq> []
    \<and> value_get v ''cwd'' = Some (JString (dr_cwd q)) \<and> dr_cwd q \<noteq> []
    \<and> value_get v ''env'' = Some (JObject (map (\<lambda>(k, s). (k, JString s)) (dr_env q)))"
proof -
  from assms obtain v where v: "hv_parse_json env line = Ok v" and q: "read_request (hv_debug_str env) v = Ok q"
    by (auto simp: parse_request_def)
  from q obtain session project repo db date where envelope: "check_envelope (hv_debug_str env) v = Ok ()"
    and strings: "require_string v ''sessionId'' = Ok session" "require_string v ''projectId'' = Ok project"
      "require_string v ''repoRoot'' = Ok repo" "require_string v ''dbPath'' = Ok db" "require_string v ''requestedAt'' = Ok date"
      "require_string v ''execPath'' = Ok (dr_exec_path q)" "require_string v ''cwd'' = Ok (dr_cwd q)"
    and lists: "require_argv v = Ok (dr_argv q)" "require_env v = Ok (dr_env q)"
    and sid: "dr_session_id q = request_session v"
    by (auto simp: read_request_def)
  have "dr_session_id q = session" using require_string_Ok [OF strings(1)] by (simp add: sid request_session_def)
  moreover have "Option.bind (value_get v ''v'') as_u64 = Some 1 \<and> value_get v ''kind'' = Some (JString ''digest'')"
    using envelope by (auto simp: check_envelope_def Let_def bind_eq_Some_conv split: if_splits)
  ultimately show ?thesis
    using v strings [THEN require_string_Ok] require_argv_Ok [OF lists(1)] require_env_Ok [OF lists(2)]
    by (intro exI [of _ v]) auto
qed

lemma started_request_understood_witness:
  "\<exists>v. hv_parse_json handoff_sample ''q'' = Ok v \<and> value_get v ''argv'' = Some (JArray [JString ''d''])"
  using started_request_understood [OF handoff_requests(1)] by auto

subsection \<open>Recovering what a slow reader missed\<close>

text \<open>C23: Against a host that serves its journal in pages, however it cuts them, a resync after a
  sequence number returns exactly the events that follow it, and its requests ask after that number
  and then after the last event of each page.\<close>

theorem resync_returns_tail:
  assumes "reachable f r" "extends f r (concat ps) r'" "ps \<noteq> []" "\<And>p. p \<in> set (butlast ps) \<Longrightarrow> p \<noteq> []"
    and "session_id (tr_reducer (hi_transport h)) = Some sid"
  shows "resync f se h (last_event_seq r) (serve ps) = Ok (concat ps)
    \<and> snd (resync_loop f se (last_event_seq r) [] (serve ps))
        = last_event_seq r # map (\<lambda>p. ev_event_seq (last p)) (butlast ps)"
proof -
  have "valid_decimal (last_event_seq r)"
    using room_wfD(15) [OF reachable_room_wf [OF assms(1)]] by (simp add: log_ok_def)
  with resync_loop_served [OF assms(1-4), of se "[]"] assms(5) show ?thesis
    by (simp add: resync_def valid_decimal_def)
qed

lemma resync_returns_tail_witness:
  "\<exists>h. session_id (tr_reducer (hi_transport h)) = Some ''s''
    \<and> resync any_date no_text h ''0'' (serve [[accepted_turn], [routed_turn]]) = Ok [accepted_turn, routed_turn]"
proof -
  define h where "h = new_host\<lparr>hi_transport := (hi_transport new_host)\<lparr>tr_reducer := bound_room (Some ''s'')\<rparr>\<rparr>"
  have run: "extends any_date (bound_room (Some ''s'')) (concat [[accepted_turn], [routed_turn]]) recovered_room"
    using missing_run by simp
  have sid: "session_id (tr_reducer (hi_transport h)) = Some ''s''"
    by (simp add: h_def bound_room_def)
  have start: "last_event_seq (bound_room (Some ''s'')) = ''0''" by (simp add: bound_room_def new_reducer_def)
  from resync_returns_tail [OF bound_room_reachable run _ _ sid, of no_text] start sid show ?thesis
    by (intro exI [of _ h]) simp
qed

end
