(* ===== verification/Host_Growth.thy ===== *)
theory Host_Growth
  imports Host_Invariant
begin

section \<open>The broadcast only grows\<close>

text \<open>
  A step of a running host appends to its broadcast and never takes back, and the only readiness
  events it announces have the sequence number zero. So the room events broadcast by a later host
  begin with those broadcast before.
\<close>

definition ready_zero :: "host_event \<Rightarrow> bool" where
  "ready_zero x = (case x of HostReadiness e \<Rightarrow> ev_event_seq e = ''0'' | _ \<Rightarrow> True)"

definition grows :: "host_inner \<Rightarrow> host_inner \<Rightarrow> bool" where
  "grows h h' \<longleftrightarrow> (\<exists>new. hi_events h' = hi_events h @ new \<and> list_all ready_zero new)"

lemma grows_trans: "grows h h1 \<Longrightarrow> grows h1 h2 \<Longrightarrow> grows h h2"
  by (fastforce simp: grows_def)

lemma same_feed_grows: "same_feed h h' \<Longrightarrow> grows h h'"
  by (simp add: same_feed_def grows_def)

lemma grows_exit: "grows h (record_exit c s h)"
  by (simp add: grows_def ready_zero_def)

lemma accepted_ready_zero: "accepted f z t fx t1 \<Longrightarrow> fx_readiness fx = Some e \<Longrightarrow> ev_event_seq e = ''0''"
  by (auto simp: accepted_def progress_def welcomed_def is_readiness_def)

lemma grows_publish: "accepted f z t0 fx t \<Longrightarrow> grows h (publish_effects fx t h)"
  using accepted_ready_zero [of f z t0 fx t]
  by (auto simp: grows_def publish_effects_def ready_zero_def list_all_iff split: option.splits)

lemma grows_frame:
  assumes frame: "process_frame env sends frame h = (r, h')" and valid: "frame_ok (en_rfc3339 env) frame"
    and t: "transport_ok (en_rfc3339 env) (en_event_size env) (hi_transport h)" and z: "sizes_ok (en_event_size env)"
  shows "grows h h'"
proof -
  have published: "grows h (publish_effects fx t h)"
    if "ingest_effects (en_rfc3339 env) (en_serde_err env) (en_event_size env) frame (hi_transport h) = (Ok fx, t)" for fx t
    using t valid z
  proof (cases rule: ingest_effects_cases [where se = "en_serde_err env"])
    case (accepted fx1 t1)
    with that show ?thesis by (auto intro: grows_publish)
  qed (use that in simp)
  from frame show ?thesis
  proof (cases rule: process_frame_cases)
    case (accepted fx t h1)
    have "grows h h1"
      by (rule grows_trans [OF published [OF accepted(1)] same_feed_grows [OF same_but_sent_feed [OF accepted(2)]]])
    with accepted(3) grows_trans same_feed_grows [OF same_feed_ops(2)] show ?thesis by (auto split: option.splits)
  next
    case (unsent fx t e)
    show ?thesis
      by (rule grows_trans [OF published [OF unsent(1)] same_feed_grows [OF same_but_sent_feed [OF unsent(2)]]])
  qed (simp_all add: grows_def)
qed

lemma grows_line:
  assumes "handle_line env sends bytes h = (on, h')"
    and t: "transport_ok (en_rfc3339 env) (en_event_size env) (hi_transport h)" and z: "sizes_ok (en_event_size env)"
  shows "grows h h'"
  using assms(1)
proof (cases rule: handle_line_cases)
  case (frame fr u)
  from grows_frame [OF frame(3) classify_frame_ok [OF frame(2)] t z] show ?thesis .
next
  case (failed e fr h1)
  from grows_trans [OF grows_frame [OF failed(3) classify_frame_ok [OF failed(2)] t z] same_feed_grows [OF same_feed_ops(3)]]
  show ?thesis using failed(4) by simp
next
  case (panicked m fr)
  from grows_frame [OF panicked(3) classify_frame_ok [OF panicked(2)] t z] show ?thesis .
qed (simp_all add: grows_def)

lemma step_grows:
  assumes "host_step env h h'" "feed_ok env h" "sizes_ok (en_event_size env)"
  shows "grows h h'"
  using assms
proof (induction rule: host_step.induct)
  case (line sends bytes h on h')
  then show ?case by (intro grows_line [OF line(1)]) (simp_all add: feed_ok_def)
next
  case (requested sent m p h r h')
  from same_feed_grows [OF asks_same_feed [OF asks_begin [OF this(1)]]] show ?case .
next
  case (quit_asked h i h1 sent p r h')
  with asks_request(1) [OF quit_asked(1) _ quit_asked(2)] have "asks h h'" by simp
  from same_feed_grows [OF asks_same_feed [OF this]] show ?case .
next
  case (finished i a h r h')
  with end_request_state [OF finished(1)] same_feed_grows [OF same_feed_ops(1)] show ?case by simp
next
  case (exited h code success)
  show ?case by (rule grows_exit)
qed ((rule same_feed_grows, rule same_feed_ops)+ | simp add: grows_def)+

lemma steps_grow:
  assumes "host_steps env h h'" "reachable_host env h" "sizes_ok (en_event_size env)"
  shows "grows h h'"
  using assms
proof (induction rule: host_steps.induct)
  case (more h h1 h2)
  then have "reachable_host env h1" by (blast intro: steps_reachable)
  with step_grows [OF more(2)] feed_always more grows_trans show ?case by blast
qed (simp add: grows_def)

lemma reachable_ready_zero:
  assumes "reachable_host env h" "sizes_ok (en_event_size env)"
  shows "list_all ready_zero (hi_events h)"
  using assms
proof (induction rule: reachable_host.induct)
  case (stepped h h')
  with step_grows [OF stepped(2) feed_always] show ?case by (auto simp: grows_def)
qed (simp add: new_host_def)

lemma grows_feed: "grows h h' \<Longrightarrow> \<exists>new. room_feed h' = room_feed h @ new"
  by (auto simp: grows_def room_feed_def)

end
