(* ===== verification/Pager_Contracts.thy ===== *)
theory Pager_Contracts
  imports Room_Json Room_Sequence Rust_Text
begin

section \<open>The snapshots the pager takes from its host\<close>

text \<open>
  What the room's terminal accepts of a host's catalog, readiness, models and sessions:
  \<open>room_composer_menu.rs\<close> (the catalog), \<open>room_agents.rs\<close> and \<open>room_picker_contract.rs\<close>.
  Every decoder is strict, and every text it lets through can be painted.
\<close>

definition MAX_CATALOG_ROWS_PER_AGENT :: nat where "MAX_CATALOG_ROWS_PER_AGENT = 64"
definition MAX_CATALOG_DESCRIPTION_BYTES :: nat where "MAX_CATALOG_DESCRIPTION_BYTES = 240"
definition MAX_REMEDY_CHARS :: nat where "MAX_REMEDY_CHARS = 120"
definition MAX_MODELS :: nat where "MAX_MODELS = 128"
definition MAX_SESSIONS :: nat where "MAX_SESSIONS = 128"
definition MAX_MODEL_ID_BYTES :: nat where "MAX_MODEL_ID_BYTES = 512"
definition MAX_LABEL_BYTES :: nat where "MAX_LABEL_BYTES = 240"
definition MAX_DESCRIPTION_BYTES :: nat where "MAX_DESCRIPTION_BYTES = 512"
definition MAX_SESSION_ID_BYTES :: nat where "MAX_SESSION_ID_BYTES = 160"
definition MAX_CWD_BYTES :: nat where "MAX_CWD_BYTES = 1024"

subsection \<open>Safe text and exact keys\<close>

definition contains_unsafe_text :: "string \<Rightarrow> bool" where
  "contains_unsafe_text text \<longleftrightarrow>
     list_ex (\<lambda>c. is_control c \<or> c \<in> {0x061c, 0x200e, 0x200f, 0x202a, 0x202b, 0x202c, 0x202d, 0x202e,
                                      0x2066, 0x2067, 0x2068, 0x2069})
       (chars text)"

definition require_exact_keys :: "json_map \<Rightarrow> string list \<Rightarrow> string \<Rightarrow> (string, unit) result" where
  "require_exact_keys m expected subject =
     (if length m \<noteq> length expected \<or> list_ex (\<lambda>(k, _). k \<notin> set expected) m
      then Err (subject @ '' has unknown or missing fields'') else Ok ())"

definition require_allowed_keys ::
  "json_map \<Rightarrow> string list \<Rightarrow> string list \<Rightarrow> string \<Rightarrow> (string, unit) result" where
  "require_allowed_keys m allowed required subject =
     (if list_ex (\<lambda>(k, _). k \<notin> set allowed) m \<or> list_ex (\<lambda>k. \<not> contains_key m k) required
      then Err (subject @ '' has unknown or missing fields'') else Ok ())"

definition required_object :: "json \<Rightarrow> string \<Rightarrow> (string, json_map) result" where
  "required_object v subject = ok_or (as_object v) (subject @ '' must be an object'')"

definition validate_safe_string :: "string \<Rightarrow> string \<Rightarrow> nat \<Rightarrow> (string, unit) result" where
  "validate_safe_string s subject max_bytes =
     (if s = [] \<or> length s > max_bytes \<or> contains_unsafe_text s
      then Err (subject @ '' contains unsafe or oversized text'') else Ok ())"

definition required_safe_string :: "json_map \<Rightarrow> string \<Rightarrow> nat \<Rightarrow> (string, string) result" where
  "required_safe_string m key max_bytes =
     tryR (ok_or (Option.bind (get m key) as_str) (key @ '' must be a string'')) (\<lambda>s.
     tryR (validate_safe_string s key max_bytes) (\<lambda>_. Ok s))"

definition optional_safe_string :: "json_map \<Rightarrow> string \<Rightarrow> nat \<Rightarrow> (string, string option) result" where
  "optional_safe_string m key max_bytes =
     (case get m key of
        None \<Rightarrow> Ok None
      | Some (JString s) \<Rightarrow> tryR (validate_safe_string s key max_bytes) (\<lambda>_. Ok (Some s))
      | Some _ \<Rightarrow> Err (key @ '' must be a string''))"

subsection \<open>Agents and their readiness\<close>

datatype room_catalog_agent = Claude | Codex | Gemini

definition parse_catalog_agent :: "string \<Rightarrow> room_catalog_agent option" where
  "parse_catalog_agent s =
     (if s = ''claude'' then Some Claude else if s = ''codex'' then Some Codex
      else if s = ''gemini'' then Some Gemini else None)"

fun catalog_agent_name :: "room_catalog_agent \<Rightarrow> string" where
  "catalog_agent_name Claude = ''claude''"
| "catalog_agent_name Codex = ''codex''"
| "catalog_agent_name Gemini = ''gemini''"

datatype room_agent_readiness = Unknown | Ready | NeedsLogin string | Unusable string string

record room_readiness =
  rr_claude :: room_agent_readiness
  rr_codex :: room_agent_readiness
  rr_gemini :: room_agent_readiness

definition default_readiness :: room_readiness where
  "default_readiness = \<lparr>rr_claude = Unknown, rr_codex = Unknown, rr_gemini = Unknown\<rparr>"

definition safe_text :: "json option \<Rightarrow> string \<Rightarrow> string \<Rightarrow> (string, string) result" where
  "safe_text value agent field =
     tryR (ok_or (Option.bind value as_str) (''room agents '' @ agent @ '' '' @ field @ '' must be a string'')) (\<lambda>text.
     if text = [] then Err (''room agents '' @ agent @ '' '' @ field @ '' must not be empty'')
     else if length (chars text) > MAX_REMEDY_CHARS
     then Err (''room agents '' @ agent @ '' '' @ field @ '' exceeds its length limit'')
     else if contains_unsafe_text text
     then Err (''room agents '' @ agent @ '' '' @ field @ '' contains unsafe text'')
     else Ok text)"

definition parse_readiness :: "json \<Rightarrow> string \<Rightarrow> (string, room_agent_readiness) result" where
  "parse_readiness v agent =
     tryR (ok_or (as_object v) (''room agents '' @ agent @ '' must be an object'')) (\<lambda>m.
     tryR (ok_or (Option.bind (get m ''state'') as_str) (''room agents '' @ agent @ '' needs a state'')) (\<lambda>state.
     if state = ''ready'' then tryR (require_exact_keys m [''state''] agent) (\<lambda>_. Ok Ready)
     else if state = ''unknown'' then tryR (require_exact_keys m [''state''] agent) (\<lambda>_. Ok Unknown)
     else if state = ''needs_login'' then
       tryR (require_exact_keys m [''state'', ''command''] agent) (\<lambda>_.
       tryR (safe_text (get m ''command'') agent ''command'') (\<lambda>command. Ok (NeedsLogin command)))
     else if state = ''unusable'' then
       tryR (require_exact_keys m [''state'', ''reason'', ''remedy''] agent) (\<lambda>_.
       tryR (safe_text (get m ''reason'') agent ''reason'') (\<lambda>reason.
       tryR (safe_text (get m ''remedy'') agent ''remedy'') (\<lambda>remedy. Ok (Unusable reason remedy))))
     else Err (''room agents '' @ agent @ '' has an unknown state: '' @ state)))"

text \<open>The \<open>expect\<close> after the keys are checked is a panic of the code.\<close>

definition expect_key :: "json_map \<Rightarrow> string \<Rightarrow> (string, json) result" where
  "expect_key m k = expect (get m k) ''exact keys checked''"

definition versioned_agents :: "string \<Rightarrow> json \<Rightarrow> (string, json_map) result" where
  "versioned_agents subject v =
     tryR (ok_or (as_object v) (subject @ '' must be an object'')) (\<lambda>root.
     tryR (require_exact_keys root [''version'', ''agents''] subject) (\<lambda>_.
     if Option.bind (get root ''version'') as_u64 \<noteq> Some 1 then Err (subject @ '' version must be 1'')
     else
       tryR (ok_or (Option.bind (get root ''agents'') as_object) (subject @ '' agents must be an object'')) (\<lambda>agents.
       tryR (require_exact_keys agents [''claude'', ''codex'', ''gemini''] (subject @ '' agents'')) (\<lambda>_.
       Ok agents))))"

definition readiness_from_host_value :: "json \<Rightarrow> (string, room_readiness) result" where
  "readiness_from_host_value v =
     tryR (versioned_agents ''room agents'' v) (\<lambda>agents.
     tryR (tryR (expect_key agents ''claude'') (\<lambda>x. parse_readiness x ''claude'')) (\<lambda>claude.
     tryR (tryR (expect_key agents ''codex'') (\<lambda>x. parse_readiness x ''codex'')) (\<lambda>codex.
     tryR (tryR (expect_key agents ''gemini'') (\<lambda>x. parse_readiness x ''gemini'')) (\<lambda>gemini.
     Ok \<lparr>rr_claude = claude, rr_codex = codex, rr_gemini = gemini\<rparr>))))"

subsection \<open>The catalog\<close>

datatype catalog_kind = Builtin | Custom | Skill

definition parse_catalog_kind :: "string \<Rightarrow> catalog_kind option" where
  "parse_catalog_kind s =
     (if s = ''builtin'' then Some Builtin else if s = ''custom'' then Some Custom
      else if s = ''skill'' then Some Skill else None)"

record catalog_row =
  ct_name :: string
  ct_description :: string
  ct_kind :: catalog_kind
  ct_trusted :: bool

record room_catalog =
  rc_claude :: "catalog_row list"
  rc_codex :: "catalog_row list"
  rc_gemini :: "catalog_row list"

definition default_catalog :: room_catalog where
  "default_catalog = \<lparr>rc_claude = [], rc_codex = [], rc_gemini = []\<rparr>"

fun catalog_rows :: "room_catalog \<Rightarrow> room_catalog_agent \<Rightarrow> catalog_row list" where
  "catalog_rows c Claude = rc_claude c"
| "catalog_rows c Codex = rc_codex c"
| "catalog_rows c Gemini = rc_gemini c"

definition is_ascii_lowercase :: "char \<Rightarrow> bool" where
  "is_ascii_lowercase c \<longleftrightarrow> 97 \<le> (of_char c :: nat) \<and> (of_char c :: nat) \<le> 122"

fun is_safe_name :: "string \<Rightarrow> bool" where
  "is_safe_name [] = False"
| "is_safe_name (c # cs) =
     (length (c # cs) \<le> 49 \<and> (is_ascii_lowercase c \<or> is_ascii_digit c)
      \<and> list_all (\<lambda>b. is_ascii_lowercase b \<or> is_ascii_digit b \<or> b \<in> set '':._-'') cs)"

definition catalog_safe_string :: "json_map \<Rightarrow> string \<Rightarrow> nat \<Rightarrow> (string, string) result" where
  "catalog_safe_string m key max_bytes =
     tryR (ok_or (Option.bind (get m key) as_str) (''room catalog row '' @ key @ '' must be a string'')) (\<lambda>text.
     if length text > max_bytes \<or> contains_unsafe_text text
     then Err (''room catalog row '' @ key @ '' contains unsafe text'') else Ok text)"

text \<open>One row, given the names of the rows before it.\<close>

definition parse_catalog_row :: "string \<Rightarrow> string list \<Rightarrow> json \<Rightarrow> (string, catalog_row) result" where
  "parse_catalog_row agent names v =
     tryR (ok_or (as_object v) (''room catalog '' @ agent @ '' row must be an object'')) (\<lambda>row.
     tryR (require_exact_keys row [''name'', ''description'', ''kind'', ''trusted''] ''room catalog row'') (\<lambda>_.
     tryR (catalog_safe_string row ''name'' (min MAX_CATALOG_DESCRIPTION_BYTES 49)) (\<lambda>name.
     if \<not> is_safe_name name then Err ''room catalog name is not a safe command token''
     else if name \<in> set names then Err ''room catalog contains duplicate command names''
     else
       tryR (catalog_safe_string row ''description'' MAX_CATALOG_DESCRIPTION_BYTES) (\<lambda>description.
       tryR (ok_or (Option.bind (Option.bind (get row ''kind'') as_str) parse_catalog_kind)
              ''room catalog row has an unknown kind'') (\<lambda>kind.
       tryR (ok_or (Option.bind (get row ''trusted'') as_bool)
              ''room catalog row trusted must be a boolean'') (\<lambda>trusted.
       if trusted \<noteq> (kind = Builtin) then Err ''room catalog row has an invalid trust/kind pairing''
       else Ok \<lparr>ct_name = name, ct_description = description, ct_kind = kind, ct_trusted = trusted\<rparr>))))))"

text \<open>Rows in order, each parsed with the keys of those before it.\<close>

fun parse_rows :: "('k list \<Rightarrow> json \<Rightarrow> (string, 'row) result) \<Rightarrow> ('row \<Rightarrow> 'k) \<Rightarrow> 'k list \<Rightarrow> json list \<Rightarrow>
    (string, 'row list) result" where
  "parse_rows parse_row key prior [] = Ok []"
| "parse_rows parse_row key prior (v # vs) =
     tryR (parse_row prior v) (\<lambda>row.
     tryR (parse_rows parse_row key (key row # prior) vs) (\<lambda>rows. Ok (row # rows)))"

definition parse_agent_rows :: "json \<Rightarrow> string \<Rightarrow> (string, catalog_row list) result" where
  "parse_agent_rows v agent =
     tryR (ok_or (as_array v) (''room catalog '' @ agent @ '' must be an array'')) (\<lambda>rows.
     if length rows > MAX_CATALOG_ROWS_PER_AGENT then Err (''room catalog '' @ agent @ '' exceeds row limit'')
     else parse_rows (parse_catalog_row agent) ct_name [] rows)"

definition catalog_from_host_value :: "json \<Rightarrow> (string, room_catalog) result" where
  "catalog_from_host_value v =
     tryR (versioned_agents ''room catalog'' v) (\<lambda>agents.
     tryR (tryR (expect_key agents ''claude'') (\<lambda>x. parse_agent_rows x ''claude'')) (\<lambda>claude.
     tryR (tryR (expect_key agents ''codex'') (\<lambda>x. parse_agent_rows x ''codex'')) (\<lambda>codex.
     tryR (tryR (expect_key agents ''gemini'') (\<lambda>x. parse_agent_rows x ''gemini'')) (\<lambda>gemini.
     Ok \<lparr>rc_claude = claude, rc_codex = codex, rc_gemini = gemini\<rparr>))))"

definition is_command_kind :: "catalog_kind \<Rightarrow> bool" where
  "is_command_kind k \<longleftrightarrow> k = Builtin \<or> k = Custom"

definition has_command :: "room_catalog \<Rightarrow> room_catalog_agent \<Rightarrow> string \<Rightarrow> bool" where
  "has_command c agent name \<longleftrightarrow>
     list_ex (\<lambda>row. is_command_kind (ct_kind row) \<and> ct_name row = name) (catalog_rows c agent)"

subsection \<open>Models and sessions\<close>

record room_model_row =
  ml_id :: string
  ml_label :: string
  ml_description :: "string option"

record room_model_catalog =
  mc_agent :: room_catalog_agent
  mc_models :: "room_model_row list"
  mc_current_model_id :: "string option"

definition parse_model_row :: "string list \<Rightarrow> json \<Rightarrow> (string, room_model_row) result" where
  "parse_model_row ids v =
     tryR (required_object v ''room model row'') (\<lambda>row.
     tryR (require_allowed_keys row [''id'', ''label'', ''description''] [''id'', ''label''] ''room model row'') (\<lambda>_.
     tryR (required_safe_string row ''id'' MAX_MODEL_ID_BYTES) (\<lambda>i.
     if i \<in> set ids then Err ''room model catalog contains duplicate ids''
     else
       tryR (required_safe_string row ''label'' MAX_LABEL_BYTES) (\<lambda>label.
       tryR (optional_safe_string row ''description'' MAX_DESCRIPTION_BYTES) (\<lambda>description.
       Ok \<lparr>ml_id = i, ml_label = label, ml_description = description\<rparr>)))))"

definition models_from_host_value :: "json \<Rightarrow> (string, room_model_catalog) result" where
  "models_from_host_value v =
     tryR (required_object v ''room model catalog'') (\<lambda>root.
     tryR (require_allowed_keys root [''version'', ''agent'', ''models'', ''currentModelId'']
             [''version'', ''agent'', ''models''] ''room model catalog'') (\<lambda>_.
     if Option.bind (get root ''version'') as_u64 \<noteq> Some 1 then Err ''room model catalog version must be 1''
     else
       tryR (ok_or (Option.bind (Option.bind (get root ''agent'') as_str) parse_catalog_agent)
              ''room model catalog agent is invalid'') (\<lambda>agent.
       tryR (ok_or (Option.bind (get root ''models'') as_array) ''room model catalog models must be an array'') (\<lambda>rows.
       if length rows > MAX_MODELS then Err ''room model catalog exceeds row limit''
       else
         tryR (parse_rows parse_model_row ml_id [] rows) (\<lambda>models.
         tryR (optional_safe_string root ''currentModelId'' MAX_MODEL_ID_BYTES) (\<lambda>current.
         if (case current of None \<Rightarrow> False | Some c \<Rightarrow> \<not> list_ex (\<lambda>m. ml_id m = c) models)
         then Err ''room model catalog current model is not advertised''
         else Ok \<lparr>mc_agent = agent, mc_models = models, mc_current_model_id = current\<rparr>))))))"

record room_session_row =
  se_session_id :: string
  se_cwd :: string
  se_title :: string
  se_updated_at :: string

definition parse_session_row :: "string list \<Rightarrow> json \<Rightarrow> (string, room_session_row) result" where
  "parse_session_row ids v =
     tryR (required_object v ''room session row'') (\<lambda>row.
     tryR (require_allowed_keys row [''sessionId'', ''cwd'', ''title'', ''updatedAt'']
             [''sessionId'', ''cwd'', ''title'', ''updatedAt''] ''room session row'') (\<lambda>_.
     tryR (required_safe_string row ''sessionId'' MAX_SESSION_ID_BYTES) (\<lambda>session_id.
     if \<not> (take 5 session_id = ''chat-'') \<or> session_id \<in> set ids
     then Err ''room session list contains an invalid or duplicate id''
     else
       tryR (required_safe_string row ''cwd'' MAX_CWD_BYTES) (\<lambda>cwd.
       tryR (required_safe_string row ''title'' MAX_LABEL_BYTES) (\<lambda>title.
       tryR (required_safe_string row ''updatedAt'' 80) (\<lambda>updated_at.
       Ok \<lparr>se_session_id = session_id, se_cwd = cwd, se_title = title, se_updated_at = updated_at\<rparr>))))))"

definition parse_room_sessions :: "json \<Rightarrow> (string, room_session_row list) result" where
  "parse_room_sessions v =
     tryR (required_object v ''room session list'') (\<lambda>root.
     tryR (require_allowed_keys root [''sessions''] [''sessions''] ''room session list'') (\<lambda>_.
     tryR (ok_or (Option.bind (get root ''sessions'') as_array)
            ''room session list sessions must be an array'') (\<lambda>sessions.
     if length sessions > MAX_SESSIONS then Err ''room session list exceeds row limit''
     else parse_rows parse_session_row se_session_id [] sessions)))"

subsection \<open>What a decoded snapshot guarantees\<close>

text \<open>Lists of rows whose keys never repeat.\<close>

locale row_parser =
  fixes parse_row :: "'k list \<Rightarrow> json \<Rightarrow> (string, 'row) result" and key :: "'row \<Rightarrow> 'k" and ok :: "'row \<Rightarrow> bool"
  assumes row: "parse_row prior v = Ok r \<Longrightarrow> key r \<notin> set prior \<and> ok r"
    and calm: "\<not> is_panic (parse_row prior v)"
begin

lemma rows_Ok:
  "parse_rows parse_row key prior vs = Ok rows \<Longrightarrow>
   length rows = length vs \<and> distinct (map key rows) \<and> set prior \<inter> key ` set rows = {} \<and> list_all ok rows"
proof (induction vs arbitrary: prior rows)
  case (Cons v vs)
  then obtain r rs where r: "parse_row prior v = Ok r"
    and rs: "parse_rows parse_row key (key r # prior) vs = Ok rs" and rows: "rows = r # rs"
    by auto
  from Cons.IH [OF rs] row [OF r] show ?case by (auto simp: rows)
qed simp

lemma rows_calm: "\<not> is_panic (parse_rows parse_row key prior vs)"
  by (induction vs arbitrary: prior) (auto simp: calm)

end

definition safe_bounded :: "nat \<Rightarrow> string \<Rightarrow> bool" where
  "safe_bounded n s \<longleftrightarrow> length s \<le> n \<and> \<not> contains_unsafe_text s"

definition catalog_row_ok :: "catalog_row \<Rightarrow> bool" where
  "catalog_row_ok r \<longleftrightarrow> is_safe_name (ct_name r) \<and> safe_bounded 49 (ct_name r)
     \<and> safe_bounded MAX_CATALOG_DESCRIPTION_BYTES (ct_description r) \<and> ct_trusted r = (ct_kind r = Builtin)"

definition model_row_ok :: "room_model_row \<Rightarrow> bool" where
  "model_row_ok r \<longleftrightarrow> ml_id r \<noteq> [] \<and> safe_bounded MAX_MODEL_ID_BYTES (ml_id r)
     \<and> ml_label r \<noteq> [] \<and> safe_bounded MAX_LABEL_BYTES (ml_label r)
     \<and> (case ml_description r of None \<Rightarrow> True | Some d \<Rightarrow> d \<noteq> [] \<and> safe_bounded MAX_DESCRIPTION_BYTES d)"

definition session_row_ok :: "room_session_row \<Rightarrow> bool" where
  "session_row_ok r \<longleftrightarrow> take 5 (se_session_id r) = ''chat-'' \<and> safe_bounded MAX_SESSION_ID_BYTES (se_session_id r)
     \<and> se_cwd r \<noteq> [] \<and> safe_bounded MAX_CWD_BYTES (se_cwd r) \<and> se_title r \<noteq> [] \<and> safe_bounded MAX_LABEL_BYTES (se_title r)
     \<and> se_updated_at r \<noteq> [] \<and> safe_bounded 80 (se_updated_at r)"

lemma validate_safe_string_Ok: "validate_safe_string s subject n = Ok u \<longleftrightarrow> s \<noteq> [] \<and> safe_bounded n s"
  by (auto simp: validate_safe_string_def safe_bounded_def)

lemma required_safe_string_Ok:
  "required_safe_string m key n = Ok s \<Longrightarrow> s \<noteq> [] \<and> safe_bounded n s \<and> get m key = Some (JString s)"
  by (auto simp: required_safe_string_def validate_safe_string_Ok bind_eq_Some_conv)

lemma optional_safe_string_Ok:
  "optional_safe_string m key n = Ok x \<Longrightarrow> case x of None \<Rightarrow> True | Some s \<Rightarrow> s \<noteq> [] \<and> safe_bounded n s"
  by (auto simp: optional_safe_string_def validate_safe_string_Ok split: option.splits json.splits)

lemma catalog_safe_string_Ok: "catalog_safe_string m key n = Ok s \<Longrightarrow> safe_bounded n s"
  by (auto simp: catalog_safe_string_def safe_bounded_def split: if_splits)

lemma decoder_calm [simp]:
  "\<not> is_panic (validate_safe_string s key n)" "\<not> is_panic (required_safe_string m key n)"
  "\<not> is_panic (optional_safe_string m key n)" "\<not> is_panic (catalog_safe_string m key n)"
  "\<not> is_panic (require_exact_keys m ks subject)" "\<not> is_panic (require_allowed_keys m ks req subject)"
  "\<not> is_panic (required_object v subject)" "\<not> is_panic (safe_text x agent field)"
  by (auto simp: validate_safe_string_def required_safe_string_def optional_safe_string_def
      catalog_safe_string_def require_exact_keys_def require_allowed_keys_def required_object_def safe_text_def
      split: option.splits json.splits)

interpretation catalog_rows: row_parser "parse_catalog_row agent" ct_name catalog_row_ok for agent
proof unfold_locales
  fix prior v r assume "parse_catalog_row agent prior v = Ok r"
  then show "ct_name r \<notin> set prior \<and> catalog_row_ok r"
    by (auto simp: parse_catalog_row_def catalog_row_ok_def MAX_CATALOG_DESCRIPTION_BYTES_def
        dest!: catalog_safe_string_Ok split: if_splits)
qed (auto simp: parse_catalog_row_def)

interpretation model_rows: row_parser parse_model_row ml_id model_row_ok
proof unfold_locales
  fix prior v r assume "parse_model_row prior v = Ok r"
  then show "ml_id r \<notin> set prior \<and> model_row_ok r"
    by (auto simp: parse_model_row_def model_row_ok_def
        dest!: required_safe_string_Ok optional_safe_string_Ok split: if_splits)
qed (auto simp: parse_model_row_def)

interpretation session_rows: row_parser parse_session_row se_session_id session_row_ok
proof unfold_locales
  fix prior v r assume "parse_session_row prior v = Ok r"
  then show "se_session_id r \<notin> set prior \<and> session_row_ok r"
    by (auto simp: parse_session_row_def session_row_ok_def
        dest!: required_safe_string_Ok split: if_splits)
qed (auto simp: parse_session_row_def)

text \<open>Parsed objects repeat no key, so the \<open>expect\<close> after a check of the keys holds.\<close>

lemma exact_keys:
  assumes "distinct (map fst m)" "require_exact_keys m expected subject = Ok u" "distinct expected" "k \<in> set expected"
  shows "\<exists>v. get m k = Some v"
proof -
  from assms(2) have sub: "set (map fst m) \<subseteq> set expected" and len: "length m = length expected"
    by (auto simp: require_exact_keys_def list_ex_iff split: if_splits)
  have "card (set (map fst m)) = card (set expected)"
    using len distinct_card [OF assms(1)] distinct_card [OF assms(3)] by simp
  with sub have "set (map fst m) = set expected" by (intro card_subset_eq) auto
  with assms(4) have "k \<in> fst ` set m" by auto
  then show ?thesis by (simp add: get_def) (metis map_of_eq_None_iff option.exhaust)
qed

lemma versioned_agents_Ok:
  assumes "canonical v" "versioned_agents subject v = Ok agents" "k \<in> {''claude'', ''codex'', ''gemini''}"
  shows "\<exists>x. expect_key agents k = Ok x"
proof -
  from assms(2) obtain root where root: "v = JObject root" "get root ''agents'' = Some (JObject agents)"
    and exact: "require_exact_keys agents [''claude'', ''codex'', ''gemini''] (subject @ '' agents'') = Ok ()"
    by (cases v) (auto simp: versioned_agents_def bind_eq_Some_conv elim!: as_object.elims split: if_splits)
  from root(2) have "(''agents'', JObject agents) \<in> set root" by (simp add: get_def map_of_SomeD)
  with assms(1) root(1) have "canonical (JObject agents)" by (fastforce simp: list_all_iff)
  then have "distinct (map fst agents)" by (simp add: strict_sorted_iff)
  from exact_keys [OF this exact] assms(3) show ?thesis by (auto simp: expect_key_def)
qed

lemma readiness_parts_calm [simp]: "\<not> is_panic (parse_readiness v agent)" "\<not> is_panic (versioned_agents subject v)"
  "\<not> is_panic (parse_agent_rows v agent)"
  using catalog_rows.rows_calm by (auto simp: parse_readiness_def versioned_agents_def parse_agent_rows_def)

lemma snapshots_calm:
  "canonical v \<Longrightarrow> \<not> is_panic (catalog_from_host_value v)"
  "canonical v \<Longrightarrow> \<not> is_panic (readiness_from_host_value v)"
  "\<not> is_panic (models_from_host_value v)" "\<not> is_panic (parse_room_sessions v)"
proof -
  have one: "\<not> is_panic (expect_key agents k)"
    if "canonical v" "versioned_agents subject v = Ok agents" "k \<in> {''claude'', ''codex'', ''gemini''}" for subject agents k
    using versioned_agents_Ok [OF that] by auto
  show "canonical v \<Longrightarrow> \<not> is_panic (catalog_from_host_value v)"
    using one by (auto simp: catalog_from_host_value_def)
  show "canonical v \<Longrightarrow> \<not> is_panic (readiness_from_host_value v)"
    using one by (auto simp: readiness_from_host_value_def)
qed (use model_rows.rows_calm session_rows.rows_calm in \<open>auto simp: models_from_host_value_def parse_room_sessions_def\<close>)

text \<open>Whole snapshots.\<close>

definition readiness_ok :: "room_agent_readiness \<Rightarrow> bool" where
  "readiness_ok x =
     (let ok = (\<lambda>s. s \<noteq> [] \<and> length (chars s) \<le> MAX_REMEDY_CHARS \<and> \<not> contains_unsafe_text s)
      in case x of NeedsLogin c \<Rightarrow> ok c | Unusable a b \<Rightarrow> ok a \<and> ok b | _ \<Rightarrow> True)"

definition catalog_ok :: "room_catalog \<Rightarrow> bool" where
  "catalog_ok c \<longleftrightarrow> (\<forall>agent. length (catalog_rows c agent) \<le> MAX_CATALOG_ROWS_PER_AGENT
     \<and> distinct (map ct_name (catalog_rows c agent)) \<and> list_all catalog_row_ok (catalog_rows c agent))"

definition models_ok :: "room_model_catalog \<Rightarrow> bool" where
  "models_ok c \<longleftrightarrow> length (mc_models c) \<le> MAX_MODELS \<and> distinct (map ml_id (mc_models c))
     \<and> list_all model_row_ok (mc_models c)
     \<and> (case mc_current_model_id c of None \<Rightarrow> True | Some i \<Rightarrow> i \<in> ml_id ` set (mc_models c))"

definition sessions_ok :: "room_session_row list \<Rightarrow> bool" where
  "sessions_ok rows \<longleftrightarrow> length rows \<le> MAX_SESSIONS \<and> distinct (map se_session_id rows) \<and> list_all session_row_ok rows"

lemma parse_agent_rows_Ok:
  "parse_agent_rows v agent = Ok rows \<Longrightarrow> length rows \<le> MAX_CATALOG_ROWS_PER_AGENT
     \<and> distinct (map ct_name rows) \<and> list_all catalog_row_ok rows"
  by (auto simp: parse_agent_rows_def dest!: catalog_rows.rows_Ok split: if_splits)

lemma catalog_decoded: "catalog_from_host_value v = Ok c \<Longrightarrow> catalog_ok c"
proof -
  assume "catalog_from_host_value v = Ok c"
  then obtain x y z where "parse_agent_rows x ''claude'' = Ok (rc_claude c)"
    "parse_agent_rows y ''codex'' = Ok (rc_codex c)" "parse_agent_rows z ''gemini'' = Ok (rc_gemini c)"
    by (auto simp: catalog_from_host_value_def)
  from this [THEN parse_agent_rows_Ok] show ?thesis
    unfolding catalog_ok_def by (intro allI) (case_tac agent; simp)
qed

lemma readiness_decoded:
  "readiness_from_host_value v = Ok r \<Longrightarrow> readiness_ok (rr_claude r) \<and> readiness_ok (rr_codex r) \<and> readiness_ok (rr_gemini r)"
proof -
  have "parse_readiness x agent = Ok y \<Longrightarrow> readiness_ok y" for x agent y
    by (auto simp: parse_readiness_def readiness_ok_def safe_text_def split: if_splits)
  then show "readiness_from_host_value v = Ok r \<Longrightarrow> ?thesis"
    by (auto simp: readiness_from_host_value_def)
qed

lemma models_decoded:
  assumes "models_from_host_value v = Ok c"
  shows "models_ok c"
proof -
  from assms obtain agent rows models current where len: "length rows \<le> MAX_MODELS"
    and rows: "parse_rows parse_model_row ml_id [] rows = Ok models"
    and given: "\<not> (case current of None \<Rightarrow> False | Some i \<Rightarrow> \<not> list_ex (\<lambda>m. ml_id m = i) models)"
    and c: "c = \<lparr>mc_agent = agent, mc_models = models, mc_current_model_id = current\<rparr>"
    by (auto simp: models_from_host_value_def not_less split: if_splits)
  from model_rows.rows_Ok [OF rows] len given show ?thesis
    by (auto simp: models_ok_def list_ex_iff c split: option.splits)
qed

lemma sessions_decoded: "parse_room_sessions v = Ok rows \<Longrightarrow> sessions_ok rows"
  by (auto simp: parse_room_sessions_def sessions_ok_def dest!: session_rows.rows_Ok split: if_splits)

end
