(* ===== verification/Pager_Picker.thy ===== *)
theory Pager_Picker
  imports Pager_Contracts
begin

section \<open>The room's pickers\<close>

text \<open>
  \<open>room_picker.rs\<close>: the one global picker for models, skills and persisted conversations. It
  sends numbered requests and takes only the answer to the request it is waiting for. Its painting
  (\<open>overlay\<close>) is not modelled.
\<close>

datatype room_picker_kind = PickModels room_catalog_agent | PickSkills room_catalog_agent | PickSessions

datatype room_picker_request =
    ModelsRequest u64 room_catalog_agent
  | SelectModelRequest u64 room_catalog_agent string
  | SessionsRequest u64

fun picker_request_id :: "room_picker_request \<Rightarrow> u64" where
  "picker_request_id (ModelsRequest i _) = i"
| "picker_request_id (SelectModelRequest i _ _) = i"
| "picker_request_id (SessionsRequest i) = i"

datatype room_picker_choice =
    ModelChoice room_catalog_agent string
  | SkillChoice room_catalog_agent string
  | SessionChoice string bool

record picker_row =
  pk_id :: string
  pk_label :: string
  pk_description :: string
  pk_current :: bool

datatype picker_status = Closed | Loading u64 bool | PickerReady "string option" | PickerError string

record room_picker =
  pi_kind :: "room_picker_kind option"
  pi_status :: picker_status
  pi_rows :: "picker_row list"
  pi_selected :: nat
  pi_next_request_id :: u64
  pi_current_session_id :: string

definition new_picker :: "string \<Rightarrow> room_picker" where
  "new_picker current =
     \<lparr>pi_kind = None, pi_status = Closed, pi_rows = [], pi_selected = 0, pi_next_request_id = 1,
      pi_current_session_id = current\<rparr>"

definition picker_is_open :: "room_picker \<Rightarrow> bool" where
  "picker_is_open p \<longleftrightarrow> pi_kind p \<noteq> None"

definition close_picker :: "room_picker \<Rightarrow> room_picker" where
  "close_picker p = p\<lparr>pi_kind := None, pi_status := Closed, pi_rows := [], pi_selected := 0\<rparr>"

definition next_request :: "room_picker \<Rightarrow> u64 \<times> room_picker" where
  "next_request p = (pi_next_request_id p, p\<lparr>pi_next_request_id := max (pi_next_request_id p + 1) 1\<rparr>)"

definition open_models :: "room_catalog_agent \<Rightarrow> room_picker \<Rightarrow> room_picker_request \<times> room_picker" where
  "open_models agent p =
     (case next_request (p\<lparr>pi_kind := Some (PickModels agent), pi_rows := [], pi_selected := 0\<rparr>) of
        (i, p1) \<Rightarrow> (ModelsRequest i agent, p1\<lparr>pi_status := Loading i False\<rparr>))"

definition skill_rows :: "room_catalog_agent \<Rightarrow> room_catalog \<Rightarrow> picker_row list" where
  "skill_rows agent catalog =
     map (\<lambda>row. \<lparr>pk_id = ct_name row, pk_label = ct_name row, pk_description = ct_description row, pk_current = False\<rparr>)
       (filter (\<lambda>row. ct_kind row = Skill) (catalog_rows catalog agent))"

definition open_skills :: "room_catalog_agent \<Rightarrow> room_catalog \<Rightarrow> room_picker \<Rightarrow> room_picker" where
  "open_skills agent catalog p =
     p\<lparr>pi_kind := Some (PickSkills agent), pi_rows := skill_rows agent catalog, pi_selected := 0,
       pi_status := PickerReady None\<rparr>"

definition open_sessions :: "room_picker \<Rightarrow> room_picker_request \<times> room_picker" where
  "open_sessions p =
     (case next_request (p\<lparr>pi_kind := Some PickSessions, pi_rows := [], pi_selected := 0\<rparr>) of
        (i, p1) \<Rightarrow> (SessionsRequest i, p1\<lparr>pi_status := Loading i False\<rparr>))"

fun is_loading :: "picker_status \<Rightarrow> bool" where
  "is_loading (Loading _ _) = True"
| "is_loading _ = False"

definition move_selection :: "int \<Rightarrow> room_picker \<Rightarrow> room_picker" where
  "move_selection delta p =
     (if pi_rows p = [] \<or> is_loading (pi_status p) then p
      else p\<lparr>pi_selected := nat ((int (pi_selected p) + delta) mod int (length (pi_rows p)))\<rparr>)"

definition shifted_agent :: "room_catalog_agent \<Rightarrow> int \<Rightarrow> room_catalog_agent" where
  "shifted_agent agent delta =
     (let index = (case agent of Claude \<Rightarrow> 0 | Codex \<Rightarrow> 1 | Gemini \<Rightarrow> 2);
          shifted = (index + delta) mod 3
      in if shifted = 0 then Claude else if shifted = 1 then Codex else Gemini)"

definition switch_agent ::
  "int \<Rightarrow> room_catalog \<Rightarrow> room_picker \<Rightarrow> room_picker_request option \<times> room_picker" where
  "switch_agent delta catalog p =
     (case pi_kind p of
        Some (PickModels agent) \<Rightarrow>
          (case open_models (shifted_agent agent delta) p of (q, p1) \<Rightarrow> (Some q, p1))
      | Some (PickSkills agent) \<Rightarrow> (None, open_skills (shifted_agent agent delta) catalog p)
      | _ \<Rightarrow> (None, p))"

definition retry_picker :: "room_catalog \<Rightarrow> room_picker \<Rightarrow> room_picker_request option \<times> room_picker" where
  "retry_picker catalog p =
     (case pi_kind p of
        None \<Rightarrow> (None, p)
      | Some (PickModels agent) \<Rightarrow> (case open_models agent p of (q, p1) \<Rightarrow> (Some q, p1))
      | Some (PickSkills agent) \<Rightarrow> (None, open_skills agent catalog p)
      | Some PickSessions \<Rightarrow> (case open_sessions p of (q, p1) \<Rightarrow> (Some q, p1)))"

definition selected_choice :: "room_picker \<Rightarrow> room_picker_choice option" where
  "selected_choice p =
     (case pi_status p of
        PickerReady _ \<Rightarrow>
          if pi_selected p < length (pi_rows p)
          then (let row = pi_rows p ! pi_selected p in
                case pi_kind p of
                  None \<Rightarrow> None
                | Some (PickModels agent) \<Rightarrow> Some (ModelChoice agent (pk_id row))
                | Some (PickSkills agent) \<Rightarrow> Some (SkillChoice agent (pk_id row))
                | Some PickSessions \<Rightarrow> Some (SessionChoice (pk_id row) (pk_current row)))
          else None
      | _ \<Rightarrow> None)"

definition begin_model_select ::
  "room_catalog_agent \<Rightarrow> string \<Rightarrow> room_picker \<Rightarrow> room_picker_request \<times> room_picker" where
  "begin_model_select agent model_id p =
     (case next_request p of
        (i, p1) \<Rightarrow> (SelectModelRequest i agent model_id, p1\<lparr>pi_status := Loading i True\<rparr>))"

text \<open>\<open>position(\<dots>).unwrap_or(0)\<close>\<close>

definition first_row :: "(picker_row \<Rightarrow> bool) \<Rightarrow> picker_row list \<Rightarrow> nat" where
  "first_row P rows = (case List.find (P \<circ> fst) (zip rows [0..<length rows]) of None \<Rightarrow> 0 | Some (_, i) \<Rightarrow> i)"

definition model_picker_row :: "string option \<Rightarrow> room_model_row \<Rightarrow> picker_row" where
  "model_picker_row current m =
     \<lparr>pk_id = ml_id m, pk_label = ml_label m,
      pk_description = (case ml_description m of None \<Rightarrow> '''' | Some d \<Rightarrow> d),
      pk_current = (current = Some (ml_id m))\<rparr>"

definition apply_models :: "u64 \<Rightarrow> (string, room_model_catalog) result \<Rightarrow> room_picker \<Rightarrow> room_picker" where
  "apply_models i answer p =
     (case pi_kind p of
        Some (PickModels expected_agent) \<Rightarrow>
          (case pi_status p of
             Loading expected applying \<Rightarrow>
               if i \<noteq> expected then p
               else (case answer of
                 Ok catalog \<Rightarrow>
                   if mc_agent catalog = expected_agent
                   then (let rows = map (model_picker_row (mc_current_model_id catalog)) (mc_models catalog) in
                         p\<lparr>pi_rows := rows, pi_selected := first_row pk_current rows,
                           pi_status := PickerReady (if applying then Some ''Applied to the live session'' else None)\<rparr>)
                   else p\<lparr>pi_status := PickerError ''Host returned the wrong agent catalog''\<rparr>
               | Err message \<Rightarrow> p\<lparr>pi_status := PickerError message\<rparr>
               | Panic _ \<Rightarrow> p)
           | _ \<Rightarrow> p)
      | _ \<Rightarrow> p)"

text \<open>The middle dot of a description, in UTF-8.\<close>

definition middle_dot :: string where
  "middle_dot = [CHR 0x20, CHR 0xC2, CHR 0xB7, CHR 0x20]"

definition session_picker_row :: "string \<Rightarrow> room_session_row \<Rightarrow> picker_row" where
  "session_picker_row current s =
     (let is_current = se_session_id s = current in
      \<lparr>pk_id = se_session_id s, pk_label = se_title s,
       pk_description = (if is_current then ''current'' else se_updated_at s) @ middle_dot @ se_cwd s,
       pk_current = is_current\<rparr>)"

definition apply_sessions :: "u64 \<Rightarrow> (string, room_session_row list) result \<Rightarrow> room_picker \<Rightarrow> room_picker" where
  "apply_sessions i answer p =
     (if pi_kind p \<noteq> Some PickSessions then p
      else case pi_status p of
        Loading expected _ \<Rightarrow>
          if i \<noteq> expected then p
          else (case answer of
            Ok sessions \<Rightarrow>
              (let rows = map (session_picker_row (pi_current_session_id p)) sessions in
               p\<lparr>pi_rows := rows, pi_selected := first_row (\<lambda>r. \<not> pk_current r) rows,
                 pi_status := PickerReady None\<rparr>)
          | Err message \<Rightarrow> p\<lparr>pi_status := PickerError message\<rparr>
          | Panic _ \<Rightarrow> p)
      | _ \<Rightarrow> p)"

subsection \<open>The invariant\<close>

text \<open>
  The selection is on a row, what is awaited is the latest request, and closed means empty.
\<close>

definition picker_ok :: "room_picker \<Rightarrow> bool" where
  "picker_ok p \<longleftrightarrow>
     (pi_rows p = [] \<longrightarrow> pi_selected p = 0) \<and> (pi_rows p \<noteq> [] \<longrightarrow> pi_selected p < length (pi_rows p))
     \<and> pi_next_request_id p \<noteq> 0
     \<and> (\<forall>i a. pi_status p = Loading i a \<longrightarrow> pi_next_request_id p = max (i + 1) 1 \<and> i \<noteq> 0)
     \<and> (pi_kind p = None \<longrightarrow> pi_status p = Closed \<and> pi_rows p = [])"

lemma first_row_less: "rows \<noteq> [] \<Longrightarrow> first_row P rows < length rows"
  by (auto simp: first_row_def find_Some_iff split: option.splits)

lemma first_row_Nil [simp]: "first_row P [] = 0"
  by (simp add: first_row_def)

lemma first_row_map_less: "xs \<noteq> [] \<Longrightarrow> first_row P (map f xs) < length xs"
  using first_row_less [of "map f xs" P] by simp

lemma max_one_nonzero: "max (n :: u64) 1 \<noteq> 0"
  by (auto simp: max_def)

lemma picker_ok_operations:
  assumes "picker_ok p"
  shows "picker_ok (close_picker p)" "picker_ok (snd (open_models agent p))" "picker_ok (open_skills agent catalog p)"
    "picker_ok (snd (open_sessions p))" "picker_ok (move_selection delta p)" "picker_ok (snd (switch_agent delta catalog p))"
    "picker_ok (snd (retry_picker catalog p))" "picker_ok (apply_models i models p)" "picker_ok (apply_sessions i sessions p)"
proof -
  note ok = assms [unfolded picker_ok_def]
  note defs = picker_ok_def close_picker_def open_models_def open_skills_def open_sessions_def next_request_def
  show "picker_ok (close_picker p)" using ok by (simp add: defs)
  show models: "picker_ok (snd (open_models agent p))" for agent using ok by (simp add: defs max_one_nonzero)
  show skills: "picker_ok (open_skills agent catalog p)" for agent using ok by (simp add: defs)
  show sessions: "picker_ok (snd (open_sessions p))" using ok by (simp add: defs max_one_nonzero)
  show "picker_ok (move_selection delta p)"
    using ok by (auto simp: picker_ok_def move_selection_def nat_less_iff)
  show "picker_ok (snd (switch_agent delta catalog p))"
    using models [of "shifted_agent a delta" for a] skills assms
    by (auto simp: switch_agent_def split: option.splits room_picker_kind.splits prod.splits) (metis snd_conv)+
  show "picker_ok (snd (retry_picker catalog p))"
    using models skills sessions assms
    by (auto simp: retry_picker_def split: option.splits room_picker_kind.splits prod.splits) (metis snd_conv)+
  show "picker_ok (apply_models i models p)"
  proof (cases "apply_models i models p = p")
    case False
    then show ?thesis using ok
      by (auto simp: apply_models_def Let_def picker_ok_def first_row_map_less
          split: option.splits room_picker_kind.splits picker_status.splits result.splits if_splits)
  qed (simp add: assms)
  show "picker_ok (apply_sessions i sessions p)"
  proof (cases "apply_sessions i sessions p = p")
    case False
    then show ?thesis using ok
      by (auto simp: apply_sessions_def Let_def picker_ok_def first_row_map_less
          split: picker_status.splits result.splits if_splits)
  qed (simp add: assms)
qed

lemma picker_ok_select:
  "picker_ok p \<Longrightarrow> pi_kind p \<noteq> None \<Longrightarrow> picker_ok (snd (begin_model_select agent m p))"
  by (auto simp: picker_ok_def begin_model_select_def next_request_def max_one_nonzero)

lemma picker_ok_new: "picker_ok (new_picker current)"
  by (simp add: picker_ok_def new_picker_def)

end
