(* ===== verification/Pager_Wire.thy ===== *)
theory Pager_Wire
  imports Pager_Picker Room_Reducer
begin

section \<open>What the room and its host say to each other\<close>

text \<open>
  The commands and updates of \<open>room_runtime.rs\<close> and \<open>room_permission_view.rs\<close>, as datatypes, and
  the keys of an open picker, whose requests are commands.
\<close>

datatype room_permission_action = SelectOption string string | Deny string

datatype room_control_command = Pause | Resume | Cancel

datatype room_cancel_scope = ScopeLatest | ScopeAll | ScopeAgent

datatype room_command =
    Submit u64 string
  | CycleMode string
  | Control room_control_command "room_cancel_scope option" "string option"
  | PermissionResponse room_permission_action
  | PickerCommand room_picker_request
  | CancelPicker

datatype room_update =
    Event room_event
  | Snapshot reducer
  | PickerModels u64 "(string, room_model_catalog) result"
  | PickerSessions u64 "(string, room_session_row list) result"
  | AgentReadiness room_readiness
  | SubmitSettled u64 "string option"
  | Notice string
  | RoomFailed string
  | RoomHostExited bool string
  | CancelReachedHost u64

datatype room_runtime_exit = RoomExit | LoadSession string | NewSession

subsection \<open>The keys of an open picker\<close>

datatype picker_key = PkEsc | PkUp | PkDown | PkPageUp | PkPageDown | PkLeft | PkRight | PkRetry | PkEnter | PkOther

text \<open>What a key does besides: it may end the room or put a draft into the composer.\<close>

datatype picker_outcome = Stay | Stage string | Leave room_runtime_exit

definition send_picker :: "room_picker_request option \<times> room_picker \<Rightarrow>
    room_command list \<times> picker_outcome \<times> room_picker" where
  "send_picker x = (case x of (q, p) \<Rightarrow> (case q of None \<Rightarrow> [] | Some r \<Rightarrow> [PickerCommand r], Stay, p))"

definition handle_picker_key ::
  "room_catalog \<Rightarrow> picker_key \<Rightarrow> room_picker \<Rightarrow> room_command list \<times> picker_outcome \<times> room_picker" where
  "handle_picker_key catalog key p =
     (case key of
        PkEsc \<Rightarrow> ([CancelPicker], Stay, close_picker p)
      | PkUp \<Rightarrow> ([], Stay, move_selection (-1) p)
      | PkDown \<Rightarrow> ([], Stay, move_selection 1 p)
      | PkPageUp \<Rightarrow> ([], Stay, move_selection (-8) p)
      | PkPageDown \<Rightarrow> ([], Stay, move_selection 8 p)
      | PkLeft \<Rightarrow> send_picker (switch_agent (-1) catalog p)
      | PkRight \<Rightarrow> send_picker (switch_agent 1 catalog p)
      | PkRetry \<Rightarrow> send_picker (retry_picker catalog p)
      | PkEnter \<Rightarrow>
          (case selected_choice p of
             Some (ModelChoice agent model_id) \<Rightarrow>
               (case begin_model_select agent model_id p of (q, p1) \<Rightarrow> send_picker (Some q, p1))
           | Some (SkillChoice agent skill) \<Rightarrow>
               ([CancelPicker],
                Stage (''@'' @ catalog_agent_name agent @ '' use your '' @ skill @ '' skill: ''),
                close_picker p)
           | Some (SessionChoice sid current) \<Rightarrow>
               if current then ([CancelPicker], Stay, close_picker p) else ([], Leave (LoadSession sid), p)
           | None \<Rightarrow> ([], Stay, p))
      | PkOther \<Rightarrow> ([], Stay, p))"

subsection \<open>A picker's life\<close>

text \<open>
  \<open>picker_run catalog sent p\<close>: \<open>p\<close> is a picker of a running room and \<open>sent\<close> the requests it has
  sent, oldest first. Answers may arrive for any number at any time.
\<close>

inductive picker_run :: "room_catalog \<Rightarrow> room_picker_request list \<Rightarrow> room_picker \<Rightarrow> bool" for catalog where
  started: "picker_run catalog [] (new_picker current)"
| opened_models: "picker_run catalog sent p \<Longrightarrow> open_models agent p = (q, p') \<Longrightarrow> picker_run catalog (sent @ [q]) p'"
| opened_skills: "picker_run catalog sent p \<Longrightarrow> picker_run catalog sent (open_skills agent catalog p)"
| opened_sessions: "picker_run catalog sent p \<Longrightarrow> open_sessions p = (q, p') \<Longrightarrow> picker_run catalog (sent @ [q]) p'"
| key_pressed: "picker_run catalog sent p \<Longrightarrow> picker_is_open p \<Longrightarrow> handle_picker_key catalog key p = (cmds, out, p') \<Longrightarrow>
    picker_run catalog (sent @ List.map_filter (\<lambda>c. case c of PickerCommand q \<Rightarrow> Some q | _ \<Rightarrow> None) cmds) p'"
| models_answered: "picker_run catalog sent p \<Longrightarrow> picker_run catalog sent (apply_models i models p)"
| sessions_answered: "picker_run catalog sent p \<Longrightarrow> picker_run catalog sent (apply_sessions i sessions p)"

text \<open>What is awaited is the last request, and it is about what the picker shows.\<close>

definition request_kind :: "room_picker_request \<Rightarrow> room_picker_kind" where
  "request_kind q = (case q of ModelsRequest _ agent \<Rightarrow> PickModels agent
     | SelectModelRequest _ agent _ \<Rightarrow> PickModels agent | SessionsRequest _ \<Rightarrow> PickSessions)"

definition awaits_last :: "room_picker_request list \<Rightarrow> room_picker \<Rightarrow> bool" where
  "awaits_last sent p \<longleftrightarrow>
     (\<forall>i a. pi_status p = Loading i a \<longrightarrow>
        sent \<noteq> [] \<and> picker_request_id (last sent) = i \<and> pi_kind p = Some (request_kind (last sent))
        \<and> a = (\<exists>j agent m. last sent = SelectModelRequest j agent m))"

lemma awaits_last_ops:
  "open_models agent p = (q, p') \<Longrightarrow> awaits_last (sent @ [q]) p'"
  "open_sessions p = (q, p') \<Longrightarrow> awaits_last (sent @ [q]) p'"
  "awaits_last sent (open_skills agent catalog p)" "awaits_last sent (close_picker p)"
  "awaits_last sent p \<Longrightarrow> awaits_last sent (move_selection delta p)"
  "awaits_last sent p \<Longrightarrow> awaits_last sent (apply_models i models p)"
  "awaits_last sent p \<Longrightarrow> awaits_last sent (apply_sessions i sessions p)"
  "pi_kind p = Some (PickModels agent) \<Longrightarrow> begin_model_select agent m p = (q, p') \<Longrightarrow> awaits_last (sent @ [q]) p'"
  by (auto simp: awaits_last_def open_models_def open_sessions_def open_skills_def close_picker_def next_request_def
      move_selection_def apply_models_def apply_sessions_def begin_model_select_def request_kind_def Let_def
      split: option.splits room_picker_kind.splits picker_status.splits result.splits)

lemma selected_model: "selected_choice p = Some (ModelChoice agent m) \<Longrightarrow> pi_kind p = Some (PickModels agent)"
  by (auto simp: selected_choice_def Let_def split: picker_status.splits if_splits option.splits room_picker_kind.splits)

lemmas picker_ops_ok = picker_ok_operations picker_ok_select

definition picker_inv :: "room_picker_request list \<Rightarrow> room_picker \<Rightarrow> bool" where
  "picker_inv sent p \<longleftrightarrow> picker_ok p \<and> awaits_last sent p"

abbreviation requests_of :: "room_command list \<Rightarrow> room_picker_request list" where
  "requests_of cmds \<equiv> List.map_filter (\<lambda>c. case c of PickerCommand q \<Rightarrow> Some q | _ \<Rightarrow> None) cmds"

lemma requests_of_simps [simp]:
  "requests_of [] = []" "requests_of [CancelPicker] = []" "requests_of [PickerCommand q] = [q]"
  by (simp_all add: List.map_filter_def)

lemma picker_inv_ops:
  assumes "picker_inv sent p"
  shows "open_models agent p = (q, p') \<Longrightarrow> picker_inv (sent @ [q]) p'"
    "open_sessions p = (q, p') \<Longrightarrow> picker_inv (sent @ [q]) p'"
    "picker_inv sent (open_skills agent catalog p)" "picker_inv sent (close_picker p)"
    "picker_inv sent (move_selection delta p)"
    "picker_inv sent (apply_models i models p)" "picker_inv sent (apply_sessions i sessions p)"
  using assms picker_ok_operations [of p] awaits_last_ops [where sent = sent and p = p]
  by (auto simp: picker_inv_def) (metis snd_conv)+

lemma picker_inv_switched:
  assumes "picker_inv sent p" "switch_agent delta catalog p = (q, p') \<or> retry_picker catalog p = (q, p')"
  shows "picker_inv (sent @ (case q of None \<Rightarrow> [] | Some r \<Rightarrow> [r])) p'"
  using assms(2) picker_inv_ops [OF assms(1)] assms(1)
  by (auto simp: switch_agent_def retry_picker_def split: option.splits room_picker_kind.splits prod.splits)

lemma picker_inv_key:
  assumes "picker_inv sent p" "handle_picker_key catalog key p = (cmds, out, p')"
  shows "picker_inv (sent @ requests_of cmds) p'"
proof -
  have sent: "picker_inv (sent @ requests_of cmds) p'"
    if "send_picker x = (cmds, out, p')" "picker_inv (sent @ (case fst x of None \<Rightarrow> [] | Some r \<Rightarrow> [r])) (snd x)" for x
    using that by (cases x) (auto simp: send_picker_def split: option.splits)
  note ops = picker_inv_ops [OF assms(1)]
  have switched: "picker_inv (sent @ (case fst x of None \<Rightarrow> [] | Some r \<Rightarrow> [r])) (snd x)"
    if "x = switch_agent delta catalog p \<or> x = retry_picker catalog p" for x delta
    using picker_inv_switched [OF assms(1), of delta catalog "fst x" "snd x"] that by auto
  show ?thesis
  proof (cases key)
    case PkLeft
    with assms(2) have "send_picker (switch_agent (-1) catalog p) = (cmds, out, p')" by (simp add: handle_picker_key_def)
    then show ?thesis by (rule sent) (rule switched, blast)
  next
    case PkRight
    with assms(2) have "send_picker (switch_agent 1 catalog p) = (cmds, out, p')" by (simp add: handle_picker_key_def)
    then show ?thesis by (rule sent) (rule switched, blast)
  next
    case PkRetry
    with assms(2) have "send_picker (retry_picker catalog p) = (cmds, out, p')" by (simp add: handle_picker_key_def)
    then show ?thesis by (rule sent) (rule switched, blast)
  next
    case PkEnter
    show ?thesis
    proof (cases "selected_choice p")
      case (Some c)
      show ?thesis
      proof (cases c)
        case (ModelChoice agent m)
        obtain q p1 where q: "begin_model_select agent m p = (q, p1)" by (cases "begin_model_select agent m p")
        have "picker_inv (sent @ [q]) p1"
          using awaits_last_ops(8) [OF selected_model q] picker_ok_select [of p agent m] selected_model [of p agent m]
            assms(1) Some ModelChoice q
          by (auto simp: picker_inv_def)
        with sent [of "(Some q, p1)"] assms(2) PkEnter Some ModelChoice q show ?thesis by (simp add: handle_picker_key_def)
      qed (use assms PkEnter Some ops(4) in \<open>auto simp: handle_picker_key_def split: if_splits\<close>)
    qed (use assms PkEnter in \<open>simp add: handle_picker_key_def\<close>)
  qed (use assms ops in \<open>auto simp: handle_picker_key_def\<close>)
qed

lemma picker_run_inv: "picker_run catalog sent p \<Longrightarrow> picker_inv sent p"
proof (induction rule: picker_run.induct)
  case (started current)
  have "awaits_last [] (new_picker current)" by (simp add: awaits_last_def new_picker_def)
  with picker_ok_new show ?case by (simp add: picker_inv_def)
qed (auto intro: picker_inv_ops picker_inv_key)

text \<open>An answer that changes a picker answers its last request, about what it shows.\<close>

lemma models_taken:
  assumes "awaits_last sent p" "apply_models i models p \<noteq> p"
  shows "\<exists>agent. sent \<noteq> [] \<and> picker_request_id (last sent) = i \<and> request_kind (last sent) = PickModels agent
    \<and> pi_kind p = Some (PickModels agent)"
  using assms
  by (auto simp: apply_models_def awaits_last_def split: option.splits room_picker_kind.splits picker_status.splits if_splits)

lemma sessions_taken:
  assumes "awaits_last sent p" "apply_sessions i sessions p \<noteq> p"
  shows "sent \<noteq> [] \<and> last sent = SessionsRequest i"
proof -
  from assms have "sent \<noteq> []" "picker_request_id (last sent) = i" "request_kind (last sent) = PickSessions"
    by (auto simp: apply_sessions_def awaits_last_def split: picker_status.splits if_splits)
  then show ?thesis by (cases "last sent") (auto simp: request_kind_def)
qed

end
