(* ===== verification/Pager_Panic.thy ===== *)
theory Pager_Panic
  imports Room_Reducer Rust_Text
begin

section \<open>The panic button\<close>

text \<open>
  How the room's terminal reads \<open>Ctrl+C\<close> and \<open>Esc\<close>: \<open>room_ctrl_c_gesture.rs\<close>, the claim of
  \<open>room_view.rs\<close> and the ladder of \<open>room_runtime.rs\<close>. The part of \<open>RoomView\<close> this reads and
  writes is the record \<open>panic_room\<close>; the cancel channel is the list of asks in it, oldest first.
  Instants are nanoseconds.
\<close>

definition CTRL_C_GESTURE_QUIET :: nat where "CTRL_C_GESTURE_QUIET = 1000000000"
definition QUIT_CONFIRM_WINDOW :: nat where "QUIT_CONFIRM_WINDOW = 3000000000"
definition CANCEL_CHANNEL_CAPACITY :: nat where "CANCEL_CHANNEL_CAPACITY = 4"

type_synonym u32 = "32 word"

subsection \<open>One gesture\<close>

record ctrl_c_gesture =
  cg_latest :: "nat option"
  cg_key_downs :: u32

definition no_gesture :: ctrl_c_gesture where
  "no_gesture = \<lparr>cg_latest = None, cg_key_downs = 0\<rparr>"

definition saturating_inc :: "'a::len word \<Rightarrow> 'a word" where
  "saturating_inc n = (if n = - 1 then n else n + 1)"

definition key_down :: "nat \<Rightarrow> ctrl_c_gesture \<Rightarrow> ctrl_c_gesture" where
  "key_down now g =
     (let continues = (case cg_latest g of None \<Rightarrow> False | Some latest \<Rightarrow> now - latest < CTRL_C_GESTURE_QUIET)
      in \<lparr>cg_latest = Some now, cg_key_downs = (if continues then saturating_inc (cg_key_downs g) else 1)\<rparr>)"

definition ended :: "ctrl_c_gesture \<Rightarrow> ctrl_c_gesture" where
  "ended g = g\<lparr>cg_latest := None, cg_key_downs := 0\<rparr>"

definition opened_the_gesture :: "ctrl_c_gesture \<Rightarrow> bool" where
  "opened_the_gesture g \<longleftrightarrow> cg_key_downs g = 1"

subsection \<open>How far a cancel got\<close>

datatype room_cancel_claim = ClaimIdle | ClaimAsked u64 | ClaimReached u64

fun claim_seq :: "room_cancel_claim \<Rightarrow> u64" where
  "claim_seq ClaimIdle = 0"
| "claim_seq (ClaimAsked s) = s"
| "claim_seq (ClaimReached s) = s"

definition claim_ask :: "room_cancel_claim \<Rightarrow> room_cancel_claim" where
  "claim_ask c = ClaimAsked (saturating_inc (claim_seq c))"

fun claim_answered :: "u64 \<Rightarrow> room_cancel_claim \<Rightarrow> room_cancel_claim" where
  "claim_answered s (ClaimAsked asked) = (if asked = s then ClaimReached s else ClaimAsked asked)"
| "claim_answered s c = c"

fun host_answered :: "room_cancel_claim \<Rightarrow> bool" where
  "host_answered (ClaimReached s) = True"
| "host_answered c = False"

subsection \<open>Keys\<close>

datatype key_code =
    KeyChar nat | KeyEsc | KeyEnter | KeyTab | KeyBackTab | KeyUp | KeyDown | KeyLeft | KeyRight
  | KeyPageUp | KeyPageDown | KeyHome | KeyEnd | KeyOther string
datatype key_kind = KeyPress | KeyRepeat | KeyRelease
datatype key_modifier = ModShift | ModControl | ModAlt | ModSuper | ModHyper | ModMeta

record key_event =
  ke_code :: key_code
  ke_modifiers :: "key_modifier set"
  ke_kind :: key_kind

text \<open>The key of an ASCII character; a key may be any Unicode character.\<close>

abbreviation key_char :: "char \<Rightarrow> key_code" where
  "key_char c \<equiv> KeyChar (of_char c)"

definition is_ctrl_c :: "key_event \<Rightarrow> bool" where
  "is_ctrl_c k \<longleftrightarrow> ke_code k = key_char CHR ''c'' \<and> ModControl \<in> ke_modifiers k \<and> ke_kind k \<noteq> KeyRelease"

definition is_ctrl_c_release :: "key_event \<Rightarrow> bool" where
  "is_ctrl_c_release k \<longleftrightarrow> ke_code k = key_char CHR ''c'' \<and> ke_kind k = KeyRelease"

definition accepts_key :: "key_event \<Rightarrow> bool" where
  "accepts_key k \<longleftrightarrow> ke_kind k = KeyPress \<or> ke_kind k = KeyRepeat \<or> is_ctrl_c_release k"

definition is_bare_esc :: "key_event \<Rightarrow> bool" where
  "is_bare_esc k \<longleftrightarrow> ke_code k = KeyEsc \<and> ke_modifiers k = {}"

subsection \<open>The room\<close>

record panic_room =
  pr_reducer :: reducer
  pr_draft :: string
  pr_quit_armed_until :: "nat option"
  pr_gesture :: ctrl_c_gesture
  pr_claim :: room_cancel_claim
  pr_wire :: "u64 list"
  pr_wire_open :: bool

definition lane_busy :: "reducer \<Rightarrow> string option \<Rightarrow> bool" where
  "lane_busy r agent \<longleftrightarrow>
     list_ex (\<lambda>lane. (case agent of None \<Rightarrow> True | Some a \<Rightarrow> ln_agent lane = a)
                \<and> ln_phase lane \<in> {Running, Cancelling})
       (fst (ordered_lanes r 0))"

definition quit_is_armed_at :: "nat \<Rightarrow> panic_room \<Rightarrow> bool" where
  "quit_is_armed_at now room \<longleftrightarrow>
     (case pr_quit_armed_until room of None \<Rightarrow> False | Some deadline \<Rightarrow> now < deadline)
     \<and> lane_busy (pr_reducer room) None"

definition reconcile_quit_arm_at :: "nat \<Rightarrow> panic_room \<Rightarrow> bool \<times> panic_room" where
  "reconcile_quit_arm_at now room =
     (let stale = pr_quit_armed_until room \<noteq> None \<and> \<not> quit_is_armed_at now room in
      (stale, if stale then room\<lparr>pr_quit_armed_until := None\<rparr> else room))"

definition request_cancel_all :: "panic_room \<Rightarrow> (string, unit) result \<times> panic_room" where
  "request_cancel_all room =
     (let asked = claim_ask (pr_claim room) in
      if \<not> pr_wire_open room then (Err ''room host cancel bridge stopped'', room)
      else if length (pr_wire room) \<ge> CANCEL_CHANNEL_CAPACITY then (Ok (), room)
      else (Ok (), room\<lparr>pr_wire := pr_wire room @ [claim_seq asked], pr_claim := asked\<rparr>))"

datatype ctrl_c_outcome = CtrlCExit | CtrlCConsumed | CtrlCFallThrough

definition route_ctrl_c_at :: "nat \<Rightarrow> panic_room \<Rightarrow> (string, ctrl_c_outcome) result \<times> panic_room" where
  "route_ctrl_c_at now room =
     (if \<not> opened_the_gesture (pr_gesture room) then (Ok CtrlCConsumed, room)
      else if quit_is_armed_at now room then (Ok CtrlCExit, room\<lparr>pr_quit_armed_until := None\<rparr>)
      else if lane_busy (pr_reducer room) None
      then (case request_cancel_all room of
              (Ok _, room1) \<Rightarrow>
                (Ok CtrlCConsumed, room1\<lparr>pr_quit_armed_until := Some (now + QUIT_CONFIRM_WINDOW)\<rparr>)
            | (Err e, room1) \<Rightarrow> (Err e, room1)
            | (Panic m, room1) \<Rightarrow> (Panic m, room1))
      else if trim (pr_draft room) = [] then (Ok CtrlCExit, room)
      else (Ok CtrlCFallThrough, room))"

text \<open>What the key route does to this state before any owner sees the key.\<close>

definition before_route :: "nat \<Rightarrow> key_event \<Rightarrow> panic_room \<Rightarrow> panic_room" where
  "before_route now key room =
     (if is_ctrl_c_release key then room\<lparr>pr_gesture := ended (pr_gesture room)\<rparr>
      else
        let room1 = (if is_ctrl_c key then room\<lparr>pr_gesture := key_down now (pr_gesture room)\<rparr> else room);
            room2 = snd (reconcile_quit_arm_at now room1)
        in if is_ctrl_c key then room2
           else room2\<lparr>pr_quit_armed_until := None, pr_gesture := ended (pr_gesture room2)\<rparr>)"

text \<open>Who owns the next key: an open picker, the history search, or neither.\<close>

datatype key_owner = PickerOpen | HistorySearch | ComposerOwner

definition route_ctrl_c_key :: "key_owner \<Rightarrow> nat \<Rightarrow> key_event \<Rightarrow> panic_room \<Rightarrow>
    (string, ctrl_c_outcome) result \<times> panic_room" where
  "route_ctrl_c_key owner now key room =
     (let room1 = before_route now key room in
      case owner of
        PickerOpen \<Rightarrow>
          (Ok (if opened_the_gesture (pr_gesture room1) then CtrlCExit else CtrlCConsumed), room1)
      | HistorySearch \<Rightarrow> (Ok CtrlCConsumed, room1\<lparr>pr_quit_armed_until := None\<rparr>)
      | ComposerOwner \<Rightarrow> route_ctrl_c_at now room1)"

text \<open>\<open>Esc\<close>, once no menu, search or dropdown wants it.\<close>

definition route_esc :: "bool \<Rightarrow> key_event \<Rightarrow> panic_room \<Rightarrow> (string, unit) result \<times> panic_room" where
  "route_esc file_search_visible key room =
     (if is_bare_esc key \<and> \<not> file_search_visible \<and> lane_busy (pr_reducer room) None
      then request_cancel_all room else (Ok (), room))"

text \<open>The first two rungs of the guidance row.\<close>

definition HINT_AGENTS_STOPPED :: string where
  "HINT_AGENTS_STOPPED = ''agents stopped'' @ [CHR 0x20, CHR 0xE2, CHR 0x80, CHR 0x94, CHR 0x20] @ ''press ctrl+c again to quit''"

definition HINT_STOPPING_AGENTS :: string where
  "HINT_STOPPING_AGENTS = ''stopping agents'' @ [CHR 0x20, CHR 0xE2, CHR 0x80, CHR 0x94, CHR 0x20] @ ''press ctrl+c again to quit''"

definition guidance_hint :: "nat \<Rightarrow> panic_room \<Rightarrow> string option" where
  "guidance_hint now room =
     (if quit_is_armed_at now room
      then Some (if host_answered (pr_claim room) then HINT_AGENTS_STOPPED else HINT_STOPPING_AGENTS)
      else if lane_busy (pr_reducer room) None then Some ''esc to interrupt''
      else None)"

subsection \<open>What a gesture remembers\<close>

text \<open>Everything that happens to the gesture: a \<open>Ctrl+C\<close> goes down, or the gesture ends.\<close>

datatype gesture_input = GestureDown nat | GestureEnd

fun gesture_step :: "gesture_input \<Rightarrow> ctrl_c_gesture \<Rightarrow> ctrl_c_gesture" where
  "gesture_step (GestureDown t) g = key_down t g"
| "gesture_step GestureEnd g = ended g"

definition gesture_after :: "gesture_input list \<Rightarrow> ctrl_c_gesture" where
  "gesture_after is = fold gesture_step is no_gesture"

definition held_at :: "gesture_input list \<Rightarrow> nat \<Rightarrow> bool" where
  "held_at is now \<longleftrightarrow> is \<noteq> [] \<and> (\<exists>t. last is = GestureDown t \<and> now - t < CTRL_C_GESTURE_QUIET)"

lemma saturating_inc_not_one: "n \<noteq> 0 \<Longrightarrow> saturating_inc (n :: u32) \<noteq> 1 \<and> saturating_inc n \<noteq> 0"
  using add_cancel_left_left [of n 1] eq_neg_iff_add_eq_0 [of n 1]
  by (cases "n = - 1") (simp_all add: saturating_inc_def)

lemma gesture_after_fields:
  "cg_latest (gesture_after is) = (if is = [] then None else case last is of GestureDown t \<Rightarrow> Some t | GestureEnd \<Rightarrow> None)
    \<and> (cg_latest (gesture_after is) \<noteq> None \<longrightarrow> cg_key_downs (gesture_after is) \<noteq> 0)"
proof (induction "is" rule: rev_induct)
  case Nil
  show ?case by (simp add: gesture_after_def no_gesture_def)
next
  case (snoc i "is")
  have step: "gesture_after (is @ [i]) = gesture_step i (gesture_after is)"
    by (simp add: gesture_after_def)
  show ?case
  proof (cases i)
    case (GestureDown t)
    with snoc saturating_inc_not_one [of "cg_key_downs (gesture_after is)"] show ?thesis
      unfolding step unfolding GestureDown by (auto simp: key_down_def Let_def split: option.splits if_splits)
  qed (unfold step, simp add: ended_def)
qed

lemma opened_iff: "opened_the_gesture (key_down now (gesture_after is)) \<longleftrightarrow> \<not> held_at is now"
proof -
  note fields = gesture_after_fields [of "is"]
  show ?thesis
  proof (cases "cg_latest (gesture_after is)")
    case None
    with fields show ?thesis
      by (auto simp: opened_the_gesture_def key_down_def held_at_def split: if_splits gesture_input.splits)
  next
    case (Some t)
    with fields have "is \<noteq> []" "last is = GestureDown t" "cg_key_downs (gesture_after is) \<noteq> 0"
      by (auto split: if_splits gesture_input.splits)
    with Some saturating_inc_not_one [of "cg_key_downs (gesture_after is)"] show ?thesis
      by (auto simp: opened_the_gesture_def key_down_def held_at_def)
  qed
qed

end
