(* ===== verification/Pager_Bridge.thy ===== *)
theory Pager_Bridge
  imports Client_Feed Host_Growth Pager_Wire Pager_Panic
begin

section \<open>Between the host and the room\<close>

text \<open>
  \<open>pager_room.rs\<close>: the task that turns the host's broadcast into updates, the bridge that carries
  the room's commands to the host one after the other, and the panic button's own bridge. What the
  host answers, and how many more updates the room takes before it is gone (\<open>lk_room\<close>), are
  arguments. Bounds are milliseconds.
\<close>

definition SUBMIT_TIMEOUT :: nat where "SUBMIT_TIMEOUT = 30000"
definition MODE_CYCLE_TIMEOUT :: nat where "MODE_CYCLE_TIMEOUT = 130000"
definition CATALOG_TIMEOUT :: nat where "CATALOG_TIMEOUT = 3000"
definition READINESS_TIMEOUT :: nat where "READINESS_TIMEOUT = 10000"
definition RESYNC_TIMEOUT :: nat where "RESYNC_TIMEOUT = 15000"
definition MODEL_PICKER_TIMEOUT :: nat where "MODEL_PICKER_TIMEOUT = 65000"
definition SESSION_PICKER_TIMEOUT :: nat where "SESSION_PICKER_TIMEOUT = 15000"
definition CANCEL_DRAIN_TIMEOUT :: nat where "CANCEL_DRAIN_TIMEOUT = 5000"

subsection \<open>Commands as requests\<close>

fun control_command :: "room_control_command \<Rightarrow> string" where
  "control_command Pause = ''pause''"
| "control_command Resume = ''resume''"
| "control_command Cancel = ''cancel''"

fun cancel_scope :: "room_cancel_scope \<Rightarrow> string" where
  "cancel_scope ScopeLatest = ''latest''"
| "cancel_scope ScopeAll = ''all''"
| "cancel_scope ScopeAgent = ''agent''"

definition control_params ::
  "string \<Rightarrow> room_control_command \<Rightarrow> room_cancel_scope option \<Rightarrow> string option \<Rightarrow> json" where
  "control_params sid command scope agent =
     JObject ((case agent of None \<Rightarrow> [] | Some a \<Rightarrow> [(''agent'', JString a)])
              @ [(''command'', JString (control_command command))]
              @ (case scope of None \<Rightarrow> [] | Some s \<Rightarrow> [(''scope'', JString (cancel_scope s))])
              @ [(''sessionId'', JString sid)])"

fun permission_response_params :: "string \<Rightarrow> room_permission_action \<Rightarrow> json" where
  "permission_response_params sid (SelectOption ask_id option_id) =
     JObject [(''askId'', JString ask_id), (''optionId'', JString option_id), (''sessionId'', JString sid)]"
| "permission_response_params sid (Deny ask_id) =
     JObject [(''askId'', JString ask_id), (''decision'', JString ''deny''), (''sessionId'', JString sid)]"

fun room_command_request :: "string \<Rightarrow> room_command \<Rightarrow> (host_error, string \<times> json) result" where
  "room_command_request sid (Submit _ text) =
     Ok (''zer0/room/submit'', JObject [(''sessionId'', JString sid), (''text'', JString text)])"
| "room_command_request sid (CycleMode text) =
     Ok (''zer0/room/mode_cycle'', JObject [(''sessionId'', JString sid), (''text'', JString text)])"
| "room_command_request sid (Control command scope agent) =
     Ok (''zer0/room/control'', control_params sid command scope agent)"
| "room_command_request sid (PermissionResponse action) =
     Ok (''zer0/room/permission_response'', permission_response_params sid action)"
| "room_command_request sid _ = Panic ''picker requests use the nonfatal picker bridge''"

definition room_command_timeout :: "room_command \<Rightarrow> nat" where
  "room_command_timeout c = (case c of CycleMode _ \<Rightarrow> MODE_CYCLE_TIMEOUT | _ \<Rightarrow> SUBMIT_TIMEOUT)"

fun submission_of :: "room_command \<Rightarrow> u64 option" where
  "submission_of (Submit i _) = Some i"
| "submission_of (CycleMode _) = None"
| "submission_of (Control _ _ _) = None"
| "submission_of (PermissionResponse _) = None"
| "submission_of (PickerCommand _) = None"
| "submission_of CancelPicker = None"

definition submitted_turn_id :: "json \<Rightarrow> string option" where
  "submitted_turn_id v = opt_filter (\<lambda>t. t \<noteq> []) (Option.bind (value_get v ''turnId'') as_str)"

fun command_failure_is_recoverable :: "host_error \<Rightarrow> bool" where
  "command_failure_is_recoverable (InvalidArgument _) = True"
| "command_failure_is_recoverable (Remote _) = True"
| "command_failure_is_recoverable (RequestTimedOut _) = True"
| "command_failure_is_recoverable _ = False"

fun failure_reason :: "host_error \<Rightarrow> string" where
  "failure_reason AdmissionClosed = ''host is not accepting room commands''"
| "failure_reason (Frame _) = ''host transport rejected a protocol frame''"
| "failure_reason (InvalidArgument _) = ''host rejected room command parameters''"
| "failure_reason (Io _) = ''host I/O failed''"
| "failure_reason (Remote _) = ''host rejected the room command''"
| "failure_reason (RequestTimedOut _) = ''host request timed out''"
| "failure_reason (Startup _) = ''host startup failed''"
| "failure_reason (StartupStalled _) = ''host startup stalled''"
| "failure_reason (Stopped _) = ''host stopped''"

definition command_failure_message :: "string \<Rightarrow> host_error \<Rightarrow> string" where
  "command_failure_message method_name e = ''room command '' @ method_name @ '' failed: '' @ failure_reason e"

subsection \<open>The update channel\<close>

record room_link =
  lk_updates :: "room_update list"
  lk_room :: nat

definition send_update :: "room_update \<Rightarrow> room_link \<Rightarrow> bool \<times> room_link" where
  "send_update u l =
     (if lk_room l = 0 then (False, l)
      else (True, l\<lparr>lk_updates := lk_updates l @ [u], lk_room := lk_room l - 1\<rparr>))"

text \<open>Sends until the room is gone.\<close>

fun send_updates :: "room_update list \<Rightarrow> room_link \<Rightarrow> bool \<times> room_link" where
  "send_updates [] l = (True, l)"
| "send_updates (u # us) l = (case send_update u l of (True, l1) \<Rightarrow> send_updates us l1 | (False, l1) \<Rightarrow> (False, l1))"

subsection \<open>The event pump\<close>

text \<open>
  One turn of the loop: the updates it sends, and whether it goes on. \<open>resynced\<close> is what a resync
  after a sequence number returns. \<open>None\<close>: nothing to read yet.
\<close>

definition pump_updates ::
  "(string \<Rightarrow> (host_error, room_event list) result) \<Rightarrow> (receive_error, host_event) result \<Rightarrow> room_update list \<times> bool" where
  "pump_updates resynced received =
     (case received of
        Ok (HostRoom event) \<Rightarrow> ([Event event], True)
      | Ok (HostReadiness _) \<Rightarrow> ([], True)
      | Ok (HostExited exit) \<Rightarrow> ([RoomHostExited (ended_itself_cleanly exit) (display_exit exit)], False)
      | Err (Lagged last_seq) \<Rightarrow>
          (case resynced (case last_seq of None \<Rightarrow> ''0'' | Some s \<Rightarrow> s) of
             Ok replay \<Rightarrow> (map Event replay, True)
           | Err e \<Rightarrow> ([RoomFailed (''room event replay failed after receiver lag: '' @ display_host_error e)], False)
           | Panic m \<Rightarrow> ([], False))
      | Err ReceiverClosed \<Rightarrow> ([RoomFailed ''room host event stream closed''], False)
      | Panic m \<Rightarrow> ([], False))"

definition pump_step ::
  "host_event list \<Rightarrow> bool \<Rightarrow> (string \<Rightarrow> (host_error, room_event list) result) \<Rightarrow> event_receiver \<times> room_link \<Rightarrow>
   (bool \<times> event_receiver \<times> room_link) option" where
  "pump_step events alive resynced st =
     (case st of (rc, l) \<Rightarrow>
      case recv events alive rc of
        None \<Rightarrow> None
      | Some (received, rc') \<Rightarrow>
          (case pump_updates resynced received of
             (us, on) \<Rightarrow> (case send_updates us l of (sent, l') \<Rightarrow> Some (on \<and> sent, rc', l'))))"

subsection \<open>What the room is opened with\<close>

text \<open>A catalog or readiness that cannot be had never keeps the room from opening.\<close>

definition opening_catalog :: "answer \<Rightarrow> room_catalog" where
  "opening_catalog answered =
     (case answered of
        Ok v \<Rightarrow> (case catalog_from_host_value v of Ok c \<Rightarrow> c | _ \<Rightarrow> default_catalog)
      | _ \<Rightarrow> default_catalog)"

definition readiness_update :: "answer \<Rightarrow> room_update" where
  "readiness_update answered =
     AgentReadiness
       (case answered of
          Ok v \<Rightarrow> (case readiness_from_host_value v of Ok r \<Rightarrow> r | _ \<Rightarrow> default_readiness)
        | _ \<Rightarrow> default_readiness)"

text \<open>The message of an exit whose cancel was not confirmed within its bound.\<close>

definition drain_message :: string where
  "drain_message = ''zer0: exited before the host confirmed the cancel ('' @ show_nat (CANCEL_DRAIN_TIMEOUT div 1000)
     @ ''s). Host shutdown stops the agent processes next; if any survive, stop them with your process manager.''"

subsection \<open>The command bridge\<close>

definition picker_call :: "string \<Rightarrow> room_picker_request \<Rightarrow> string \<times> json \<times> nat" where
  "picker_call sid q =
     (case q of
        ModelsRequest _ agent \<Rightarrow>
          (''zer0/room/models'',
           JObject [(''agent'', JString (catalog_agent_name agent)), (''sessionId'', JString sid)], MODEL_PICKER_TIMEOUT)
      | SelectModelRequest _ agent model_id \<Rightarrow>
          (''zer0/room/model_select'',
           JObject [(''agent'', JString (catalog_agent_name agent)), (''modelId'', JString model_id),
                    (''sessionId'', JString sid)], MODEL_PICKER_TIMEOUT)
      | SessionsRequest _ \<Rightarrow> (''session/list'', JObject [], SESSION_PICKER_TIMEOUT))"

definition picker_answer :: "string \<Rightarrow> answer \<Rightarrow> (json \<Rightarrow> (string, 'a) result) \<Rightarrow> (string, 'a) result" where
  "picker_answer method_name answered decode_value =
     tryR (map_err (command_failure_message method_name) answered) decode_value"

definition picker_update :: "room_picker_request \<Rightarrow> answer \<Rightarrow> room_update" where
  "picker_update q answered =
     (case q of
        ModelsRequest i _ \<Rightarrow> PickerModels i (picker_answer ''zer0/room/models'' answered models_from_host_value)
      | SelectModelRequest i _ _ \<Rightarrow> PickerModels i (picker_answer ''zer0/room/model_select'' answered models_from_host_value)
      | SessionsRequest i \<Rightarrow> PickerSessions i (picker_answer ''session/list'' answered parse_room_sessions))"

text \<open>
  \<open>br_picker\<close> is the picker task under way: at most one, and a new one aborts it. \<open>br_calls\<close> are
  the requests of the bridge itself, with their bounds.
\<close>

record command_bridge =
  br_calls :: "(string \<times> json \<times> nat) list"
  br_link :: room_link
  br_picker :: "room_picker_request option"
  br_running :: bool

definition new_bridge :: "room_link \<Rightarrow> command_bridge" where
  "new_bridge l = \<lparr>br_calls = [], br_link = l, br_picker = None, br_running = True\<rparr>"

definition stop_bridge :: "command_bridge \<Rightarrow> command_bridge" where
  "stop_bridge b = b\<lparr>br_picker := None, br_running := False\<rparr>"

text \<open>The updates an answer leads to, and whether the loop goes on if they were taken.\<close>

definition answer_updates :: "string \<Rightarrow> u64 option \<Rightarrow> answer \<Rightarrow> room_update list \<times> bool" where
  "answer_updates method_name submission answered =
     (case answered of
        Ok v \<Rightarrow>
          (case submission of
             None \<Rightarrow> ([], True)
           | Some i \<Rightarrow>
               ((if submitted_turn_id v = None
                 then [Notice (''room host accepted a submit without naming a turn; the prompt was not kept for a cancel'')]
                 else [])
                @ [SubmitSettled i (submitted_turn_id v)], True))
      | Err e \<Rightarrow>
          ((case submission of None \<Rightarrow> [] | Some i \<Rightarrow> [SubmitSettled i None])
           @ [if command_failure_is_recoverable e then Notice (command_failure_message method_name e)
              else RoomFailed (command_failure_message method_name e)],
           command_failure_is_recoverable e)
      | Panic m \<Rightarrow> ([], False))"

definition bridge_command :: "string \<Rightarrow> room_command \<Rightarrow> answer \<Rightarrow> command_bridge \<Rightarrow> command_bridge" where
  "bridge_command sid command answered b =
     (case command of
        CancelPicker \<Rightarrow> b\<lparr>br_picker := None\<rparr>
      | PickerCommand q \<Rightarrow> b\<lparr>br_picker := Some q\<rparr>
      | _ \<Rightarrow>
          (case room_command_request sid command of
             Ok (method_name, params) \<Rightarrow>
               (case answer_updates method_name (submission_of command) answered of
                  (us, on) \<Rightarrow>
                    (case send_updates us (br_link b) of
                       (sent, l) \<Rightarrow>
                         let b1 = b\<lparr>br_calls := br_calls b @ [(method_name, params, room_command_timeout command)], br_link := l\<rparr>
                         in if on \<and> sent then b1 else stop_bridge b1))
           | _ \<Rightarrow> stop_bridge b))"

text \<open>What reaches the bridge: a command with the answer to its request, or the answer to the picker's.\<close>

datatype bridge_input = Dequeued room_command answer | PickerAnswered answer

definition bridge_step :: "string \<Rightarrow> bridge_input \<Rightarrow> command_bridge \<Rightarrow> command_bridge" where
  "bridge_step sid input b =
     (if \<not> br_running b then b
      else case input of
        Dequeued command answered \<Rightarrow> bridge_command sid command answered b
      | PickerAnswered answered \<Rightarrow>
          (case br_picker b of
             None \<Rightarrow> b
           | Some q \<Rightarrow> b\<lparr>br_picker := None, br_link := snd (send_update (picker_update q answered) (br_link b))\<rparr>))"

definition run_command_bridge :: "string \<Rightarrow> bridge_input list \<Rightarrow> command_bridge \<Rightarrow> command_bridge" where
  "run_command_bridge sid inputs b = fold (bridge_step sid) inputs b"

subsection \<open>The panic button's bridge\<close>

definition cancel_update :: "u64 \<Rightarrow> answer \<Rightarrow> room_update" where
  "cancel_update s answered =
     (case answered of
        Ok _ \<Rightarrow> CancelReachedHost s
      | Err e \<Rightarrow> Notice (command_failure_message ''zer0/room/control'' e)
      | Panic m \<Rightarrow> Notice m)"

fun run_cancel_bridge ::
  "string \<Rightarrow> (u64 \<times> answer) list \<Rightarrow> room_link \<Rightarrow> (string \<times> json \<times> nat) list \<times> room_link" where
  "run_cancel_bridge sid [] l = ([], l)"
| "run_cancel_bridge sid ((s, answered) # waiting) l =
     (let call = (''zer0/room/control'', control_params sid Cancel (Some ScopeAll) None, SUBMIT_TIMEOUT) in
      case send_update (cancel_update s answered) l of
        (True, l1) \<Rightarrow> (case run_cancel_bridge sid waiting l1 of (calls, l2) \<Rightarrow> (call # calls, l2))
      | (False, l1) \<Rightarrow> ([call], l1))"

subsection \<open>What the bridges send\<close>

lemma send_updates_alt:
  "send_updates us l =
     (length us \<le> lk_room l,
      l\<lparr>lk_updates := lk_updates l @ take (lk_room l) us, lk_room := lk_room l - length us\<rparr>)"
proof (induction us arbitrary: l)
  case (Cons u us)
  show ?case
  proof (cases "lk_room l")
    case 0
    then show ?thesis by (simp add: send_update_def)
  next
    case (Suc n)
    then show ?thesis by (simp add: send_update_def Cons.IH)
  qed
qed simp

lemma cancel_bridge_spec:
  assumes "run_cancel_bridge sid waiting l = (calls, l')"
  shows "l' = snd (send_updates (map (\<lambda>(s, a). cancel_update s a) waiting) l)"
    "calls = replicate (min (length waiting) (Suc (lk_room l)))
       (''zer0/room/control'', control_params sid Cancel (Some ScopeAll) None, SUBMIT_TIMEOUT)"
proof -
  have "run_cancel_bridge sid waiting l =
      (replicate (min (length waiting) (Suc (lk_room l)))
         (''zer0/room/control'', control_params sid Cancel (Some ScopeAll) None, SUBMIT_TIMEOUT),
       snd (send_updates (map (\<lambda>(s, a). cancel_update s a) waiting) l))"
  proof (induction waiting arbitrary: l)
    case (Cons w waiting)
    obtain s a where w: "w = (s, a)" by (cases w)
    show ?case
      by (cases "lk_room l") (simp_all add: w send_update_def Cons.IH Let_def)
  qed simp
  with assms show "l' = snd (send_updates (map (\<lambda>(s, a). cancel_update s a) waiting) l)"
    "calls = replicate (min (length waiting) (Suc (lk_room l)))
       (''zer0/room/control'', control_params sid Cancel (Some ScopeAll) None, SUBMIT_TIMEOUT)" by simp_all
qed

text \<open>The commands that are requests of the bridge, the answers that end it, and what each input owes.\<close>

definition is_rpc :: "room_command \<Rightarrow> bool" where
  "is_rpc c = (case c of PickerCommand _ \<Rightarrow> False | CancelPicker \<Rightarrow> False | _ \<Rightarrow> True)"

fun bridge_ends :: "bridge_input \<Rightarrow> bool" where
  "bridge_ends (Dequeued c (Err e)) = (is_rpc c \<and> \<not> command_failure_is_recoverable e)"
| "bridge_ends _ = False"

fun served :: "bridge_input list \<Rightarrow> bridge_input list" where
  "served [] = []"
| "served (x # xs) = x # (if bridge_ends x then [] else served xs)"

fun settlement :: "bridge_input \<Rightarrow> (u64 \<times> string option) list" where
  "settlement (Dequeued (Submit i text) (Ok v)) = [(i, submitted_turn_id v)]"
| "settlement (Dequeued (Submit i text) (Err e)) = [(i, None)]"
| "settlement _ = []"

fun bridge_call :: "string \<Rightarrow> bridge_input \<Rightarrow> (string \<times> json \<times> nat) list" where
  "bridge_call sid (Dequeued c a) =
     (case room_command_request sid c of
        Ok (method_name, params) \<Rightarrow> [(method_name, params, room_command_timeout c)] | _ \<Rightarrow> [])"
| "bridge_call sid (PickerAnswered a) = []"

fun settled_of :: "room_update list \<Rightarrow> (u64 \<times> string option) list" where
  "settled_of [] = []"
| "settled_of (SubmitSettled i t # us) = (i, t) # settled_of us"
| "settled_of (_ # us) = settled_of us"

fun calm_input :: "bridge_input \<Rightarrow> bool" where
  "calm_input (Dequeued c a) = (\<not> is_panic a)"
| "calm_input (PickerAnswered a) = True"

lemma settled_of_append [simp]: "settled_of (us @ vs) = settled_of us @ settled_of vs"
  by (induction us rule: settled_of.induct) auto

lemma settled_of_picker [simp]: "settled_of [picker_update q a] = []"
  by (cases q) (simp_all add: picker_update_def)

lemma rpc_request:
  assumes "is_rpc c"
  obtains method_name params where "room_command_request sid c = Ok (method_name, params)"
  using assms by (cases c) (auto simp: is_rpc_def)

lemma not_rpc_request: "\<not> is_rpc c \<Longrightarrow> \<exists>m. room_command_request sid c = Panic m"
  by (cases c) (auto simp: is_rpc_def)

lemma answer_updates_settled:
  assumes "\<not> is_panic a" "answer_updates method_name (submission_of c) a = (us, on)" "is_rpc c"
  shows "settled_of us = settlement (Dequeued c a) \<and> on = (\<not> bridge_ends (Dequeued c a))"
  using assms by (cases a; cases c) (auto simp: answer_updates_def is_rpc_def)

lemma bridge_step_served:
  assumes "br_running b" "calm_input x" "lk_room (br_link (bridge_step sid x b)) \<noteq> 0"
  shows "\<exists>us. lk_updates (br_link (bridge_step sid x b)) = lk_updates (br_link b) @ us \<and> settled_of us = settlement x
    \<and> br_calls (bridge_step sid x b) = br_calls b @ bridge_call sid x
    \<and> br_running (bridge_step sid x b) = (\<not> bridge_ends x)"
proof (cases x)
  case (Dequeued c a)
  show ?thesis
  proof (cases "is_rpc c")
    case True
    obtain method_name params where q: "room_command_request sid c = Ok (method_name, params)"
      using rpc_request [OF True] .
    obtain us on where us: "answer_updates method_name (submission_of c) a = (us, on)"
      by (cases "answer_updates method_name (submission_of c) a")
    have "bridge_command sid c a b =
        (let (sent, l) = send_updates us (br_link b);
             b1 = b\<lparr>br_calls := br_calls b @ [(method_name, params, room_command_timeout c)], br_link := l\<rparr>
         in if on \<and> sent then b1 else stop_bridge b1)"
      using True q us by (cases c) (simp_all add: bridge_command_def is_rpc_def)
    then have step: "bridge_step sid x b =
        (let b1 = b\<lparr>br_calls := br_calls b @ [(method_name, params, room_command_timeout c)],
               br_link := snd (send_updates us (br_link b))\<rparr>
         in if on \<and> length us \<le> lk_room (br_link b) then b1 else stop_bridge b1)"
      using assms(1) Dequeued by (simp add: bridge_step_def send_updates_alt Let_def)
    have room: "length us < lk_room (br_link b)"
      using assms(3) unfolding step by (simp add: send_updates_alt Let_def stop_bridge_def split: if_splits)
    have "settled_of us = settlement x \<and> on = (\<not> bridge_ends x)"
      using answer_updates_settled [OF _ us True] assms(2) Dequeued by simp
    with room q show ?thesis
      unfolding step by (intro exI [of _ us]) (auto simp: send_updates_alt stop_bridge_def Dequeued assms(1) Let_def)
  next
    case False
    then have "bridge_step sid x b = b\<lparr>br_picker := (case c of PickerCommand q \<Rightarrow> Some q | _ \<Rightarrow> None)\<rparr>"
      using assms(1) Dequeued by (cases c) (simp_all add: bridge_step_def bridge_command_def is_rpc_def)
    moreover have "settlement x = []" "bridge_call sid x = []" "\<not> bridge_ends x"
      using False Dequeued not_rpc_request [of c sid] by (cases a; cases c; auto simp: is_rpc_def)+
    ultimately show ?thesis using assms(1) by simp
  qed
next
  case (PickerAnswered a)
  show ?thesis
  proof (cases "br_picker b")
    case None
    with assms(1) PickerAnswered show ?thesis by (simp add: bridge_step_def)
  next
    case (Some q)
    with assms(1) PickerAnswered have step: "bridge_step sid x b =
        b\<lparr>br_picker := None, br_link := snd (send_update (picker_update q a) (br_link b))\<rparr>"
      by (simp add: bridge_step_def)
    have "lk_room (br_link b) \<noteq> 0" using assms(3) unfolding step by (auto simp: send_update_def split: if_splits)
    then show ?thesis
      unfolding step using PickerAnswered assms(1)
      by (intro exI [of _ "[picker_update q a]"]) (simp add: send_update_def)
  qed
qed

lemma bridge_step_room: "lk_room (br_link (bridge_step sid x b)) \<le> lk_room (br_link b)"
  by (auto simp: bridge_step_def bridge_command_def send_updates_alt send_update_def stop_bridge_def Let_def
      split: bridge_input.split room_command.split option.split result.split prod.split)

lemma run_bridge_room: "lk_room (br_link (run_command_bridge sid xs b)) \<le> lk_room (br_link b)"
proof (induction xs arbitrary: b)
  case (Cons x xs)
  from Cons.IH [of "bridge_step sid x b"] bridge_step_room [of sid x b] show ?case
    by (simp add: run_command_bridge_def)
qed (simp add: run_command_bridge_def)

lemma run_bridge_stopped: "\<not> br_running b \<Longrightarrow> run_command_bridge sid xs b = b"
  by (induction xs) (simp_all add: run_command_bridge_def bridge_step_def)

lemma run_bridge_served:
  assumes "br_running b" "list_all calm_input xs" "lk_room (br_link (run_command_bridge sid xs b)) \<noteq> 0"
  shows "\<exists>us. lk_updates (br_link (run_command_bridge sid xs b)) = lk_updates (br_link b) @ us
    \<and> settled_of us = concat (map settlement (served xs))
    \<and> br_calls (run_command_bridge sid xs b) = br_calls b @ concat (map (bridge_call sid) (served xs))
    \<and> br_running (run_command_bridge sid xs b) = (\<not> list_ex bridge_ends xs)"
  using assms
proof (induction xs arbitrary: b)
  case Nil
  then show ?case by (simp add: run_command_bridge_def)
next
  case (Cons x xs)
  let ?b1 = "bridge_step sid x b"
  have run: "run_command_bridge sid (x # xs) b = run_command_bridge sid xs ?b1"
    by (simp add: run_command_bridge_def)
  have "lk_room (br_link ?b1) \<noteq> 0"
    using Cons.prems(3) run_bridge_room [of sid xs ?b1] unfolding run by simp
  with bridge_step_served [OF Cons.prems(1), of x sid] Cons.prems(2) obtain us where
    one: "lk_updates (br_link ?b1) = lk_updates (br_link b) @ us" "settled_of us = settlement x"
      "br_calls ?b1 = br_calls b @ bridge_call sid x" "br_running ?b1 = (\<not> bridge_ends x)"
    by auto
  show ?case
  proof (cases "bridge_ends x")
    case True
    with one run_bridge_stopped [of ?b1] show ?thesis unfolding run by (intro exI [of _ us]) simp
  next
    case False
    with Cons.IH [of ?b1] one Cons.prems run obtain vs where
      "lk_updates (br_link (run_command_bridge sid xs ?b1)) = lk_updates (br_link ?b1) @ vs"
      "settled_of vs = concat (map settlement (served xs))"
      "br_calls (run_command_bridge sid xs ?b1) = br_calls ?b1 @ concat (map (bridge_call sid) (served xs))"
      "br_running (run_command_bridge sid xs ?b1) = (\<not> list_ex bridge_ends xs)"
      by auto
    with one False show ?thesis unfolding run by (intro exI [of _ "us @ vs"]) simp
  qed
qed

end
