(* ===== verification/Pager_Cancel.thy ===== *)
theory Pager_Cancel
  imports Pager_Bridge
begin

section \<open>A cancel, from the key to the host and back\<close>

text \<open>
  The panic button's whole way: a key asks, the ask waits on the wire, the bridge takes it and asks
  the host, and the host's answer comes back as an update. \<open>panic_run room flight ups made confirmed\<close>
  is what this can come to in any order: \<open>flight\<close> is the ask the bridge is waiting for, \<open>ups\<close> the
  updates on their way, \<open>made\<close> all asks made and \<open>confirmed\<close> those the host has answered with
  success.
\<close>

definition deliver_update :: "room_update \<Rightarrow> panic_room \<Rightarrow> panic_room" where
  "deliver_update u room =
     (case u of CancelReachedHost s \<Rightarrow> room\<lparr>pr_claim := claim_answered s (pr_claim room)\<rparr> | _ \<Rightarrow> room)"

inductive panic_run ::
  "panic_room \<Rightarrow> u64 option \<Rightarrow> room_update list \<Rightarrow> u64 list \<Rightarrow> u64 set \<Rightarrow> bool" where
  began: "pr_claim room = ClaimIdle \<Longrightarrow> pr_wire room = [] \<Longrightarrow> panic_run room None [] [] {}"
| key: "panic_run room flight ups made confirmed \<Longrightarrow> before_route now k room = room' \<Longrightarrow>
    panic_run room' flight ups made confirmed"
| ctrl_c: "panic_run room flight ups made confirmed \<Longrightarrow> is_ctrl_c k \<Longrightarrow> route_ctrl_c_key owner now k room = (r, room') \<Longrightarrow>
    panic_run room' flight ups (made @ drop (length (pr_wire room)) (pr_wire room')) confirmed"
| esc: "panic_run room flight ups made confirmed \<Longrightarrow> route_esc searching k room = (r, room') \<Longrightarrow>
    panic_run room' flight ups (made @ drop (length (pr_wire room)) (pr_wire room')) confirmed"
| ticked: "panic_run room flight ups made confirmed \<Longrightarrow>
    panic_run (snd (reconcile_quit_arm_at now room)) flight ups made confirmed"
| changed: "panic_run room flight ups made confirmed \<Longrightarrow>
    panic_run (room\<lparr>pr_reducer := red, pr_draft := draft\<rparr>) flight ups made confirmed"
| taken: "panic_run room None ups made confirmed \<Longrightarrow> pr_wire room = s # wire \<Longrightarrow>
    panic_run (room\<lparr>pr_wire := wire\<rparr>) (Some s) ups made confirmed"
| answered: "panic_run room (Some s) ups made confirmed \<Longrightarrow>
    panic_run room None (ups @ [cancel_update s a]) made (if is_ok a then insert s confirmed else confirmed)"
| delivered: "panic_run room flight (u # ups) made confirmed \<Longrightarrow>
    panic_run (deliver_update u room) flight ups made confirmed"
| bridge_gone: "panic_run room flight ups made confirmed \<Longrightarrow>
    panic_run (room\<lparr>pr_wire_open := False\<rparr>) flight ups made confirmed"

text \<open>Asks are numbered 1, 2, 3, \<dots>, and the claim is about the last one.\<close>

definition panic_inv :: "panic_room \<Rightarrow> u64 option \<Rightarrow> room_update list \<Rightarrow> u64 list \<Rightarrow> u64 set \<Rightarrow> bool" where
  "panic_inv room flight ups made confirmed \<longleftrightarrow>
     made = map of_nat [1..<Suc (length made)] \<and> claim_seq (pr_claim room) = of_nat (length made)
     \<and> set (pr_wire room) \<subseteq> set made \<and> set_option flight \<subseteq> set made \<and> confirmed \<subseteq> set made
     \<and> (\<forall>s. CancelReachedHost s \<in> set ups \<longrightarrow> s \<in> confirmed)
     \<and> (\<forall>s. pr_claim room = ClaimReached s \<longrightarrow> s \<in> confirmed)"

text \<open>What a key can do to the wire and the claim.\<close>

definition asks_once :: "panic_room \<Rightarrow> panic_room \<Rightarrow> bool" where
  "asks_once room room' \<longleftrightarrow>
     pr_wire room' = pr_wire room \<and> pr_claim room' = pr_claim room
     \<or> pr_claim room' = claim_ask (pr_claim room) \<and> pr_wire room' = pr_wire room @ [claim_seq (claim_ask (pr_claim room))]"

lemma before_route_wire [simp]:
  "pr_wire (before_route now k room) = pr_wire room" "pr_claim (before_route now k room) = pr_claim room"
  "pr_reducer (before_route now k room) = pr_reducer room" "pr_draft (before_route now k room) = pr_draft room"
  "pr_wire_open (before_route now k room) = pr_wire_open room"
  by (simp_all add: before_route_def reconcile_quit_arm_at_def Let_def)

lemma request_asks_once: "asks_once room (snd (request_cancel_all room))"
  by (simp add: request_cancel_all_def asks_once_def Let_def)

lemma request_cancel_outcome:
  "request_cancel_all room =
     (if pr_wire_open room then Ok () else Err ''room host cancel bridge stopped'', snd (request_cancel_all room))"
  by (simp add: request_cancel_all_def Let_def)

lemma ctrl_c_asks_once: "route_ctrl_c_key owner now k room = (r, room') \<Longrightarrow> asks_once room room'"
  using request_asks_once [of "before_route now k room"] request_cancel_outcome [of "before_route now k room"]
  by (auto simp: route_ctrl_c_key_def route_ctrl_c_at_def asks_once_def Let_def
      split: key_owner.splits if_splits prod.splits result.splits)

lemma esc_asks_once: "route_esc searching k room = (r, room') \<Longrightarrow> asks_once room room'"
  using request_asks_once [of room] by (auto simp: route_esc_def asks_once_def split: if_splits)

lemma panic_inv_asks:
  assumes inv: "panic_inv room flight ups made confirmed" and once: "asks_once room room'"
    and room: "length (made @ drop (length (pr_wire room)) (pr_wire room')) < 2 ^ 64"
  shows "panic_inv room' flight ups (made @ drop (length (pr_wire room)) (pr_wire room')) confirmed"
proof (cases "pr_wire room' = pr_wire room \<and> pr_claim room' = pr_claim room")
  case True
  with inv show ?thesis by (simp add: panic_inv_def)
next
  case False
  with once have asked: "pr_claim room' = claim_ask (pr_claim room)"
    "pr_wire room' = pr_wire room @ [claim_seq (claim_ask (pr_claim room))]"
    by (auto simp: asks_once_def)
  with room have "Suc (length made) < 2 ^ 64" by simp
  then have "of_nat (Suc (length made)) \<noteq> (0 :: u64)" by (simp add: word_unat_eq_iff unat_of_nat take_bit_nat_eq_self del: of_nat_Suc)
  then have "(of_nat (length made) :: u64) \<noteq> - 1"
    by (simp add: eq_neg_iff_add_eq_0 add.commute)
  with inv have seq: "claim_seq (claim_ask (pr_claim room)) = of_nat (Suc (length made))"
    by (simp add: panic_inv_def claim_ask_def saturating_inc_def)
  have "made @ [of_nat (Suc (length made))] = map of_nat [1..<Suc (Suc (length made))]"
    using inv by (simp add: panic_inv_def)
  with inv asked seq show ?thesis
    by (auto simp: panic_inv_def claim_ask_def)
qed

lemma panic_run_inv:
  "panic_run room flight ups made confirmed \<Longrightarrow> length made < 2 ^ 64 \<Longrightarrow> panic_inv room flight ups made confirmed"
proof (induction rule: panic_run.induct)
  case (ctrl_c room flight ups made confirmed k owner now r room')
  then have "panic_inv room flight ups made confirmed" by simp
  from panic_inv_asks [OF this ctrl_c_asks_once [OF ctrl_c(3)] ctrl_c.prems] show ?case .
next
  case (esc room flight ups made confirmed searching k r room')
  then have "panic_inv room flight ups made confirmed" by simp
  from panic_inv_asks [OF this esc_asks_once [OF esc(2)] esc.prems] show ?case .
next
  case (answered room s ups made confirmed a)
  then show ?case by (cases a) (auto simp: panic_inv_def cancel_update_def)
next
  case (delivered room flight u ups made confirmed)
  show ?case
  proof (cases u)
    case (CancelReachedHost s)
    with delivered show ?thesis
      by (cases "pr_claim room") (auto simp: panic_inv_def deliver_update_def)
  qed (use delivered in \<open>simp_all add: panic_inv_def deliver_update_def\<close>)
qed (auto simp: panic_inv_def reconcile_quit_arm_at_def Let_def)

lemma panic_asks_distinct:
  assumes "panic_inv room flight ups made confirmed" "length made < 2 ^ 64"
  shows "distinct made"
proof -
  have "inj_on (of_nat :: nat \<Rightarrow> u64) {1..<Suc (length made)}"
    using assms(2) by (intro inj_onI) (simp add: word_unat_eq_iff unat_of_nat take_bit_nat_eq_self)
  with assms(1) show ?thesis by (metis distinct_map distinct_upt panic_inv_def set_upt)
qed

end
