(* ===== verification/Pager_Restore.thy ===== *)
theory Pager_Restore
  imports Room_Invariant Rust_Text
begin

section \<open>Prompts that may come back\<close>

text \<open>
  \<open>room_prompt_restore.rs\<close> and what \<open>room_runtime_events.rs\<close> does with it: the prompts that left
  the composer, each bound by its own identifier to the turn it became, and settled when the
  reducer says that turn is over. The composer and what it stashes belong to the pager's prompt
  widget; the record \<open>composer\<close> holds the operations used here, over any types of them.
\<close>

record ('s, 'p) composer =
  cm_text :: "'p \<Rightarrow> string"
  cm_restore :: "'s \<Rightarrow> 'p \<Rightarrow> 'p"

definition MAX_PENDING_RESTORES :: nat where "MAX_PENDING_RESTORES = 8"

record 's pending_restore =
  rs_id :: u64
  rs_stash :: 's
  rs_turn_id :: "string option"

record restore_outcome =
  ro_restored :: bool
  ro_refused :: nat
  ro_evicted :: nat
  ro_failed :: nat

definition default_outcome :: restore_outcome where
  "default_outcome = \<lparr>ro_restored = False, ro_refused = 0, ro_evicted = 0, ro_failed = 0\<rparr>"

definition outcome_notices :: "restore_outcome \<Rightarrow> string list" where
  "outcome_notices oc =
     (if ro_evicted oc > 0
      then [show_nat (ro_evicted oc) @ '' older submitted prompt(s) can no longer be restored: too many turns are still ''
            @ ''unfinished. Find them with /history.''] else [])
     @ (if ro_refused oc = 0 then []
        else if ro_refused oc = 1
        then [''A cancelled prompt was not restored because the composer already has text. Find ''
              @ ''it with /history.'']
        else [show_nat (ro_refused oc) @ '' cancelled prompts were not restored because the composer already has ''
              @ ''text. Find them with /history.''])
     @ (if ro_failed oc > 0
        then [''That turn failed instead of answering. Your prompt was not put back in the ''
              @ ''composer; find it with /history.''] else [])"

record 's pending_restores =
  pd_entries :: "'s pending_restore list"
  pd_next_id :: u64

definition no_restores :: "'s pending_restores" where
  "no_restores = \<lparr>pd_entries = [], pd_next_id = 0\<rparr>"

fun evict :: "'a list \<Rightarrow> nat \<Rightarrow> 'a list \<times> nat" where
  "evict [] evicted = ([], evicted)"
| "evict (e # es) evicted =
     (if length (e # es) > MAX_PENDING_RESTORES then evict es (evicted + 1) else (e # es, evicted))"

definition submitted :: "'s \<Rightarrow> 's pending_restores \<Rightarrow> (u64 \<times> restore_outcome) \<times> 's pending_restores" where
  "submitted stash p =
     (let i = pd_next_id p in
      case evict (pd_entries p @ [\<lparr>rs_id = i, rs_stash = stash, rs_turn_id = None\<rparr>]) 0 of
        (entries, evicted) \<Rightarrow>
          ((i, default_outcome\<lparr>ro_evicted := evicted\<rparr>), \<lparr>pd_entries = entries, pd_next_id = i + 1\<rparr>))"

fun bind_entry :: "u64 \<Rightarrow> string \<Rightarrow> 's pending_restore list \<Rightarrow> 's pending_restore list" where
  "bind_entry i turn_id [] = []"
| "bind_entry i turn_id (e # es) =
     (if rs_id e = i then e\<lparr>rs_turn_id := Some turn_id\<rparr> # es else e # bind_entry i turn_id es)"

definition bind_submission :: "u64 \<Rightarrow> string \<Rightarrow> 's pending_restores \<Rightarrow> bool \<times> 's pending_restores" where
  "bind_submission i turn_id p =
     (list_ex (\<lambda>e. rs_id e = i) (pd_entries p), p\<lparr>pd_entries := bind_entry i turn_id (pd_entries p)\<rparr>)"

fun drop_entry :: "u64 \<Rightarrow> 's pending_restore list \<Rightarrow> 's pending_restore list" where
  "drop_entry i [] = []"
| "drop_entry i (e # es) = (if rs_id e = i then es else e # drop_entry i es)"

definition drop_submission :: "u64 \<Rightarrow> 's pending_restores \<Rightarrow> bool \<times> 's pending_restores" where
  "drop_submission i p =
     (list_ex (\<lambda>e. rs_id e = i) (pd_entries p), p\<lparr>pd_entries := drop_entry i (pd_entries p)\<rparr>)"

definition turn_settled :: "reducer \<Rightarrow> string \<Rightarrow> bool" where
  "turn_settled r turn_id \<longleftrightarrow> (case turn r turn_id of None \<Rightarrow> False | Some t \<Rightarrow> tn_completed_at t \<noteq> None)"

definition turn_has_lane :: "lane_phase \<Rightarrow> reducer \<Rightarrow> string \<Rightarrow> bool" where
  "turn_has_lane phase r turn_id \<longleftrightarrow>
     list_ex (\<lambda>lane. ln_turn_id lane = turn_id \<and> ln_phase lane = phase) (fst (ordered_lanes r 0))"

definition turn_was_cancelled :: "reducer \<Rightarrow> string \<Rightarrow> bool" where
  "turn_was_cancelled = turn_has_lane Cancelled"

definition turn_lane_failed :: "reducer \<Rightarrow> string \<Rightarrow> bool" where
  "turn_lane_failed = turn_has_lane Failed"

fun settle_loop ::
  "('s, 'p) composer \<Rightarrow> reducer \<Rightarrow> 's pending_restore list \<Rightarrow> 's pending_restore list \<Rightarrow> restore_outcome \<Rightarrow> 'p \<Rightarrow>
   's pending_restore list \<times> restore_outcome \<times> 'p" where
  "settle_loop cm r [] kept oc prompt = (kept, oc, prompt)"
| "settle_loop cm r (e # es) kept oc prompt =
     (case rs_turn_id e of
        None \<Rightarrow> settle_loop cm r es (kept @ [e]) oc prompt
      | Some turn_id \<Rightarrow>
          if \<not> turn_settled r turn_id then settle_loop cm r es (kept @ [e]) oc prompt
          else if \<not> turn_was_cancelled r turn_id
          then settle_loop cm r es kept
                 (if turn_lane_failed r turn_id then oc\<lparr>ro_failed := ro_failed oc + 1\<rparr> else oc) prompt
          else if ro_restored oc \<or> trim (cm_text cm prompt) \<noteq> []
          then settle_loop cm r es kept (oc\<lparr>ro_refused := ro_refused oc + 1\<rparr>) prompt
          else settle_loop cm r es kept (oc\<lparr>ro_restored := True\<rparr>) (cm_restore cm (rs_stash e) prompt))"

definition settle ::
  "('s, 'p) composer \<Rightarrow> reducer \<Rightarrow> 's pending_restores \<Rightarrow> 'p \<Rightarrow> restore_outcome \<times> 's pending_restores \<times> 'p" where
  "settle cm r p prompt =
     (case settle_loop cm r (pd_entries p) [] default_outcome prompt of
        (kept, oc, prompt') \<Rightarrow> (oc, p\<lparr>pd_entries := kept\<rparr>, prompt'))"

definition invalidate :: "'s pending_restores \<Rightarrow> 's pending_restores" where
  "invalidate p = p\<lparr>pd_entries := []\<rparr>"

subsection \<open>The room around it\<close>

text \<open>The part of the room the three handlers of \<open>room_runtime_events.rs\<close> touch for this.\<close>

record ('s, 'p) restore_room =
  rm_reducer :: reducer
  rm_prompt :: 'p
  rm_pending :: "'s pending_restores"
  rm_notices :: "string list"

definition settle_room :: "('s, 'p) composer \<Rightarrow> ('s, 'p) restore_room \<Rightarrow> ('s, 'p) restore_room" where
  "settle_room cm room =
     (case settle cm (rm_reducer room) (rm_pending room) (rm_prompt room) of
        (oc, pending, prompt) \<Rightarrow>
          room\<lparr>rm_pending := pending, rm_prompt := prompt, rm_notices := rm_notices room @ outcome_notices oc\<rparr>)"

definition apply_room_event ::
  "('s, 'p) composer \<Rightarrow> (string \<Rightarrow> bool) \<Rightarrow> room_event \<Rightarrow> ('s, 'p) restore_room \<Rightarrow>
   (string, unit) result \<times> ('s, 'p) restore_room" where
  "apply_room_event cm rfc3339 event room =
     (case apply_event rfc3339 event (rm_reducer room) of
        (Ok _, r) \<Rightarrow> (Ok (), settle_room cm (room\<lparr>rm_reducer := r\<rparr>))
      | (Err _, r) \<Rightarrow> (Err ''room host emitted an invalid event'', room\<lparr>rm_reducer := r\<rparr>)
      | (Panic m, r) \<Rightarrow> (Panic m, room\<lparr>rm_reducer := r\<rparr>))"

definition apply_submit_settled ::
  "('s, 'p) composer \<Rightarrow> u64 \<Rightarrow> string option \<Rightarrow> ('s, 'p) restore_room \<Rightarrow> ('s, 'p) restore_room" where
  "apply_submit_settled cm i named room =
     (case named of
        None \<Rightarrow> room\<lparr>rm_pending := snd (drop_submission i (rm_pending room))\<rparr>
      | Some turn_id \<Rightarrow>
          settle_room cm (room\<lparr>rm_pending := snd (bind_submission i turn_id (rm_pending room))\<rparr>))"

definition apply_room_snapshot :: "reducer \<Rightarrow> ('s, 'p) restore_room \<Rightarrow> ('s, 'p) restore_room" where
  "apply_room_snapshot r room = room\<lparr>rm_reducer := r, rm_pending := invalidate (rm_pending room)\<rparr>"

text \<open>A submission leaves: its identifier is what goes out with the text.\<close>

definition hold_submission :: "'s \<Rightarrow> ('s, 'p) restore_room \<Rightarrow> u64 \<times> ('s, 'p) restore_room" where
  "hold_submission stash room =
     (case submitted stash (rm_pending room) of
        ((i, overflow), pending) \<Rightarrow>
          (i, room\<lparr>rm_pending := pending, rm_notices := rm_notices room @ outcome_notices overflow\<rparr>))"

subsection \<open>What a settle pass does\<close>

text \<open>The entries it keeps, those whose turn was cancelled, and those whose turn failed.\<close>

definition unsettled :: "reducer \<Rightarrow> 's pending_restore \<Rightarrow> bool" where
  "unsettled r e \<longleftrightarrow> (case rs_turn_id e of None \<Rightarrow> True | Some turn_id \<Rightarrow> \<not> turn_settled r turn_id)"

definition owed :: "reducer \<Rightarrow> 's pending_restore \<Rightarrow> bool" where
  "owed r e \<longleftrightarrow> \<not> unsettled r e \<and> turn_was_cancelled r (the (rs_turn_id e))"

definition failed_entry :: "reducer \<Rightarrow> 's pending_restore \<Rightarrow> bool" where
  "failed_entry r e \<longleftrightarrow> \<not> unsettled r e \<and> \<not> turn_was_cancelled r (the (rs_turn_id e))
     \<and> turn_lane_failed r (the (rs_turn_id e))"

lemma settle_step:
  "settle_loop cm r (e # es) kept oc prompt =
     (if unsettled r e then settle_loop cm r es (kept @ [e]) oc prompt
      else if owed r e
      then (if ro_restored oc \<or> trim (cm_text cm prompt) \<noteq> []
            then settle_loop cm r es kept (oc\<lparr>ro_refused := ro_refused oc + 1\<rparr>) prompt
            else settle_loop cm r es kept (oc\<lparr>ro_restored := True\<rparr>) (cm_restore cm (rs_stash e) prompt))
      else settle_loop cm r es kept (if failed_entry r e then oc\<lparr>ro_failed := ro_failed oc + 1\<rparr> else oc) prompt)"
  by (simp add: unsettled_def owed_def failed_entry_def split: option.split)

lemma settle_loop_full:
  assumes "ro_restored oc \<or> trim (cm_text cm prompt) \<noteq> []"
  shows "settle_loop cm r es kept oc prompt =
    (kept @ filter (unsettled r) es,
     oc\<lparr>ro_refused := ro_refused oc + length (filter (owed r) es),
        ro_failed := ro_failed oc + length (filter (failed_entry r) es)\<rparr>, prompt)"
  using assms
proof (induction es arbitrary: kept oc)
  case (Cons e es)
  show ?case
    unfolding settle_step using Cons.prems
    by (simp add: Cons.IH) (simp add: owed_def failed_entry_def)
qed simp

lemma settle_loop_blank:
  assumes "\<not> ro_restored oc" "trim (cm_text cm prompt) = []"
  shows "settle_loop cm r es kept oc prompt =
    (kept @ filter (unsettled r) es,
     oc\<lparr>ro_restored := filter (owed r) es \<noteq> [],
        ro_refused := ro_refused oc + (length (filter (owed r) es) - 1),
        ro_failed := ro_failed oc + length (filter (failed_entry r) es)\<rparr>,
     if filter (owed r) es = [] then prompt else cm_restore cm (rs_stash (hd (filter (owed r) es))) prompt)"
  using assms
proof (induction es arbitrary: kept oc)
  case (Cons e es)
  show ?case
  proof (cases "owed r e")
    case True
    then have "\<not> unsettled r e" "\<not> failed_entry r e" by (simp_all add: owed_def failed_entry_def)
    with True Cons.prems show ?thesis unfolding settle_step by (simp add: settle_loop_full)
  next
    case False
    with Cons.prems show ?thesis
      unfolding settle_step by (simp add: Cons.IH) (simp add: failed_entry_def)
  qed
qed simp

text \<open>The whole pass, as a function of the three kinds of entries.\<close>

lemma settle_alt:
  "settle cm r p prompt =
     (let owing = filter (owed r) (pd_entries p); blank = trim (cm_text cm prompt) = [] in
      (\<lparr>ro_restored = blank \<and> owing \<noteq> [],
        ro_refused = (if blank then length owing - 1 else length owing), ro_evicted = 0,
        ro_failed = length (filter (failed_entry r) (pd_entries p))\<rparr>,
       p\<lparr>pd_entries := filter (unsettled r) (pd_entries p)\<rparr>,
       if blank \<and> owing \<noteq> [] then cm_restore cm (rs_stash (hd owing)) prompt else prompt))"
proof (cases "trim (cm_text cm prompt) = []")
  case True
  then show ?thesis
    by (simp add: settle_def settle_loop_blank default_outcome_def Let_def)
next
  case False
  then show ?thesis
    by (simp add: settle_def settle_loop_full default_outcome_def Let_def)
qed

subsection \<open>A room's life\<close>

text \<open>
  \<open>restore_run cm f room held named back\<close>: what a running room may have come to, with the
  submissions it held (identifier and stash), the turns the host named for them, and what came
  back into the composer. The host may answer in any order, and also answer what it was not asked.
\<close>

inductive restore_run ::
  "('s, 'p) composer \<Rightarrow> (string \<Rightarrow> bool) \<Rightarrow> ('s, 'p) restore_room \<Rightarrow>
   (u64 \<times> 's) list \<Rightarrow> (u64 \<times> string) set \<Rightarrow> bool" for cm f where
  began: "rm_pending room = no_restores \<Longrightarrow> restore_run cm f room [] {}"
| held: "restore_run cm f room held named \<Longrightarrow> hold_submission stash room = (i, room') \<Longrightarrow>
    restore_run cm f room' (held @ [(i, stash)]) named"
| settled: "restore_run cm f room held named \<Longrightarrow>
    restore_run cm f (apply_submit_settled cm i turn_id room) held
      (named \<union> (case turn_id of None \<Rightarrow> {} | Some t \<Rightarrow> {(i, t)}))"
| event: "restore_run cm f room held named \<Longrightarrow> apply_room_event cm f e room = (Ok (), room') \<Longrightarrow>
    restore_run cm f room' held named"
| typed: "restore_run cm f room held named \<Longrightarrow> restore_run cm f (room\<lparr>rm_prompt := prompt\<rparr>) held named"
| replaced: "restore_run cm f room held named \<Longrightarrow> restore_run cm f (apply_room_snapshot r room) held named"

text \<open>
  At most eight prompts are held; each is one that was submitted, bound only to the turn the host
  named for it, and none of them is bound to a turn that is over.
\<close>

definition restore_inv :: "('s, 'p) restore_room \<Rightarrow> (u64 \<times> 's) list \<Rightarrow> (u64 \<times> string) set \<Rightarrow> bool" where
  "restore_inv room held named \<longleftrightarrow>
     length (pd_entries (rm_pending room)) \<le> MAX_PENDING_RESTORES
     \<and> (\<forall>e \<in> set (pd_entries (rm_pending room)).
          (rs_id e, rs_stash e) \<in> set held
          \<and> (case rs_turn_id e of None \<Rightarrow> True | Some t \<Rightarrow> (rs_id e, t) \<in> named)
          \<and> unsettled (rm_reducer room) e)"

lemma evict_spec: "evict es n = (drop (length es - MAX_PENDING_RESTORES) es, n + (length es - MAX_PENDING_RESTORES))"
  by (induction es n rule: evict.induct) (auto simp: Suc_diff_le not_less)

lemma set_bind_entry: "e \<in> set (bind_entry i t es) \<Longrightarrow>
   e \<in> set es \<or> (\<exists>d \<in> set es. e = d\<lparr>rs_turn_id := Some t\<rparr> \<and> rs_id d = i)"
  by (induction es) (auto split: if_splits)

lemma set_drop_entry: "e \<in> set (drop_entry i es) \<Longrightarrow> e \<in> set es"
  by (induction es) (auto split: if_splits)

lemma length_entries [simp]: "length (bind_entry i t es) = length es" "length (drop_entry i es) \<le> length es"
  by (induction es) auto

lemma restore_inv_settle:
  assumes "length (pd_entries (rm_pending room)) \<le> MAX_PENDING_RESTORES"
    "\<forall>e \<in> set (pd_entries (rm_pending room)). (rs_id e, rs_stash e) \<in> set held
       \<and> (case rs_turn_id e of None \<Rightarrow> True | Some t \<Rightarrow> (rs_id e, t) \<in> named)"
  shows "restore_inv (settle_room cm room) held named"
proof -
  have "length (filter (unsettled (rm_reducer room)) (pd_entries (rm_pending room))) \<le> MAX_PENDING_RESTORES"
    using assms(1) le_trans length_filter_le by blast
  with assms(2) show ?thesis by (simp add: settle_room_def restore_inv_def settle_alt Let_def)
qed

lemma unsettled_unbound: "rs_turn_id e = None \<Longrightarrow> unsettled r e"
  by (simp add: unsettled_def)

lemma restore_run_inv: "restore_run cm f room held named \<Longrightarrow> restore_inv room held named"
proof (induction rule: restore_run.induct)
  case (began room)
  then show ?case by (simp add: restore_inv_def no_restores_def)
next
  case (held room held named stash i room')
  then show ?case
    by (auto simp: restore_inv_def hold_submission_def submitted_def evict_spec Let_def unsettled_unbound dest!: in_set_dropD)
next
  case (settled room held named i turn_id)
  show ?case
  proof (cases turn_id)
    case None
    with settled.IH length_entries(2) [of i "pd_entries (rm_pending room)"] show ?thesis
      by (auto simp: apply_submit_settled_def restore_inv_def drop_submission_def simp del: length_entries dest!: set_drop_entry)
  next
    case (Some t)
    have "restore_inv (settle_room cm (room\<lparr>rm_pending := snd (bind_submission i t (rm_pending room))\<rparr>)) held (named \<union> {(i, t)})"
      using settled.IH
      by (intro restore_inv_settle) (auto simp: restore_inv_def bind_submission_def dest!: set_bind_entry split: option.splits)
    with Some show ?thesis by (simp add: apply_submit_settled_def)
  qed
next
  case (event room held named e room')
  then obtain d r where "apply_event f e (rm_reducer room) = (Ok d, r)" "room' = settle_room cm (room\<lparr>rm_reducer := r\<rparr>)"
    by (auto simp: apply_room_event_def split: prod.splits result.splits)
  with event.IH restore_inv_settle [of "room\<lparr>rm_reducer := r\<rparr>" held named cm] show ?case
    by (simp add: restore_inv_def)
qed (simp_all add: restore_inv_def apply_room_snapshot_def invalidate_def)

text \<open>Identifiers are never used twice (before 64 bits run out).\<close>

lemma settle_room_simps [simp]:
  "pd_next_id (rm_pending (settle_room cm room)) = pd_next_id (rm_pending room)"
  "rm_reducer (settle_room cm room) = rm_reducer room"
  by (simp_all add: settle_room_def settle_alt Let_def)

lemma restore_run_ids:
  "restore_run cm f room held named \<Longrightarrow>
   map fst held = map of_nat [0..<length held] \<and> pd_next_id (rm_pending room) = of_nat (length held)"
proof (induction rule: restore_run.induct)
  case (held room held named stash i room')
  then show ?case by (auto simp: hold_submission_def submitted_def evict_spec Let_def)
qed (auto simp: no_restores_def apply_submit_settled_def drop_submission_def bind_submission_def
    apply_room_event_def apply_room_snapshot_def invalidate_def split: option.splits prod.splits result.splits)

lemma held_distinct:
  assumes "restore_run cm f room held named" "length held \<le> 2 ^ 64"
  shows "distinct (map fst held)"
proof -
  have "inj_on (of_nat :: nat \<Rightarrow> u64) {0..<length held}"
    using assms(2) by (intro inj_onI) (simp add: word_unat_eq_iff unat_of_nat take_bit_nat_eq_self)
  with restore_run_ids [OF assms(1)] show ?thesis by (simp add: distinct_map)
qed

text \<open>A pass that changes the composer.\<close>

lemma settle_room_restores:
  assumes "rm_prompt (settle_room cm room) \<noteq> rm_prompt room"
  shows "trim (cm_text cm (rm_prompt room)) = []
    \<and> (\<exists>e t. e \<in> set (pd_entries (rm_pending room)) \<and> e \<notin> set (pd_entries (rm_pending (settle_room cm room)))
        \<and> rs_turn_id e = Some t \<and> turn_settled (rm_reducer room) t \<and> turn_was_cancelled (rm_reducer room) t
        \<and> rm_prompt (settle_room cm room) = cm_restore cm (rs_stash e) (rm_prompt room))"
proof -
  let ?owing = "filter (owed (rm_reducer room)) (pd_entries (rm_pending room))"
  have "rm_prompt (settle_room cm room) =
      (if trim (cm_text cm (rm_prompt room)) = [] \<and> ?owing \<noteq> []
       then cm_restore cm (rs_stash (hd ?owing)) (rm_prompt room) else rm_prompt room)"
    by (simp add: settle_room_def settle_alt Let_def)
  with assms have blank: "trim (cm_text cm (rm_prompt room)) = []" and some: "?owing \<noteq> []"
    and prompt: "rm_prompt (settle_room cm room) = cm_restore cm (rs_stash (hd ?owing)) (rm_prompt room)"
    by (auto split: if_splits)
  have mem: "hd ?owing \<in> set ?owing" using some by (rule hd_in_set)
  then have gone: "hd ?owing \<notin> set (pd_entries (rm_pending (settle_room cm room)))"
    by (auto simp: settle_room_def settle_alt Let_def owed_def)
  from mem obtain t where "rs_turn_id (hd ?owing) = Some t" "turn_settled (rm_reducer room) t" "turn_was_cancelled (rm_reducer room) t"
    by (auto simp: owed_def unsettled_def split: option.splits)
  with blank mem gone prompt show ?thesis by auto
qed

lemma restores_submission:
  assumes prompt: "rm_prompt (settle_room cm room) \<noteq> rm_prompt room"
    and entries: "\<forall>e \<in> set (pd_entries (rm_pending room)). (rs_id e, rs_stash e) \<in> set held
       \<and> (case rs_turn_id e of None \<Rightarrow> True | Some t \<Rightarrow> (rs_id e, t) \<in> named)"
  shows "trim (cm_text cm (rm_prompt room)) = []
    \<and> (\<exists>i s t. (i, s) \<in> set held \<and> (i, t) \<in> named \<and> turn_settled (rm_reducer room) t \<and> turn_was_cancelled (rm_reducer room) t
        \<and> rm_prompt (settle_room cm room) = cm_restore cm s (rm_prompt room))"
proof -
  from settle_room_restores [OF prompt] obtain e t where e: "e \<in> set (pd_entries (rm_pending room))" "rs_turn_id e = Some t"
    and rest: "trim (cm_text cm (rm_prompt room)) = []" "turn_settled (rm_reducer room) t" "turn_was_cancelled (rm_reducer room) t"
      "rm_prompt (settle_room cm room) = cm_restore cm (rs_stash e) (rm_prompt room)"
    by blast
  with entries have "(rs_id e, rs_stash e) \<in> set held" "(rs_id e, t) \<in> named" by fastforce+
  with rest show ?thesis by blast
qed

end
