(* ===== verification/Pager_Commands.thy ===== *)
theory Pager_Commands
  imports Pager_Wire Pager_Restore
begin

section \<open>What a line of the composer means\<close>

text \<open>
  \<open>app/room_runtime_commands.rs\<close>, the submissions of \<open>room_view.rs\<close> and what
  \<open>app/room_runtime.rs\<close> does with a line that is sent: a slash command of the room, a command
  for the host, or a submission.
\<close>

subsection \<open>Words\<close>

text \<open>\<open>split_whitespace\<close>, on the encoded characters of a text.\<close>

function split_words :: "string list \<Rightarrow> string list" where
  "split_words ps =
     (case dropWhile blank_piece ps of
        [] \<Rightarrow> []
      | q # qs \<Rightarrow> concat (q # takeWhile (\<lambda>p. \<not> blank_piece p) qs)
                  # split_words (dropWhile (\<lambda>p. \<not> blank_piece p) qs))"
  by pat_completeness auto
termination
proof (relation "measure length")
  fix ps :: "string list" and q qs
  assume "dropWhile blank_piece ps = q # qs"
  then show "(dropWhile (\<lambda>p. \<not> blank_piece p) qs, ps) \<in> measure length"
    using length_dropWhile_le [of blank_piece ps] length_dropWhile_le [of "\<lambda>p. \<not> blank_piece p" qs] by simp
qed simp

declare split_words.simps [simp del]

definition split_whitespace :: "string \<Rightarrow> string list" where
  "split_whitespace s = split_words (char_pieces s)"

definition trim_start :: "string \<Rightarrow> string" where
  "trim_start s = concat (dropWhile blank_piece (char_pieces s))"

definition trim_start_matches :: "char \<Rightarrow> string \<Rightarrow> string" where
  "trim_start_matches c s = dropWhile (\<lambda>x. x = c) s"

definition starts_with :: "char \<Rightarrow> string \<Rightarrow> bool" where
  "starts_with c s \<longleftrightarrow> s \<noteq> [] \<and> hd s = c"

definition to_ascii_lowercase :: "string \<Rightarrow> string" where
  "to_ascii_lowercase s =
     map (\<lambda>c. let n = of_char c :: nat in if 65 \<le> n \<and> n \<le> 90 then char_of (n + 32) else c) s"

definition next_word :: "nat \<Rightarrow> string list \<Rightarrow> string option" where
  "next_word n ws = (if n < length ws then Some (ws ! n) else None)"

subsection \<open>Room commands\<close>

datatype parsed_room_command =
    ParsedSubmit
  | ParsedHost room_command
  | ParsedModels room_catalog_agent
  | ParsedSkills room_catalog_agent
  | ParsedSessions
  | ParsedNewSession
  | ParsedExit
  | ParsedHistory
  | ParsedStatus
  | DebateUnavailable
  | InvalidSlash
  | ParsedHelp

definition parse_picker_agent :: "string option \<Rightarrow> string option \<Rightarrow> room_catalog_agent option" where
  "parse_picker_agent requested trailing =
     (if trailing \<noteq> None then None
      else case requested of
        None \<Rightarrow> Some Claude
      | Some value \<Rightarrow> parse_catalog_agent (trim_start_matches CHR ''@'' value))"

definition parse_mode_target :: "string option \<Rightarrow> string option \<Rightarrow> string option" where
  "parse_mode_target requested trailing =
     (if trailing \<noteq> None then None
      else let target = trim_start_matches CHR ''@'' (case requested of None \<Rightarrow> ''all'' | Some t \<Rightarrow> t) in
        if target \<in> {''all'', ''claude'', ''codex'', ''gemini''} then Some (''@'' @ target) else None)"

definition or_invalid :: "('a \<Rightarrow> parsed_room_command) \<Rightarrow> 'a option \<Rightarrow> parsed_room_command option" where
  "or_invalid f x = Some (case x of None \<Rightarrow> InvalidSlash | Some y \<Rightarrow> f y)"

definition parse_cancel :: "string list \<Rightarrow> room_command option" where
  "parse_cancel ws =
     (case ws of
        [] \<Rightarrow> Some (Control Cancel (Some ScopeLatest) None)
      | [w] \<Rightarrow>
          if w = ''latest'' then Some (Control Cancel (Some ScopeLatest) None)
          else if w = ''all'' then Some (Control Cancel (Some ScopeAll) None)
          else if w \<in> {''claude'', ''codex'', ''gemini''} then Some (Control Cancel (Some ScopeAgent) (Some w))
          else None
      | _ \<Rightarrow> None)"

definition parse_approve :: "string list \<Rightarrow> room_command option" where
  "parse_approve ws =
     (case ws of [ask_id, option_id] \<Rightarrow> Some (PermissionResponse (SelectOption ask_id option_id)) | _ \<Rightarrow> None)"

text \<open>The words after \<open>@claude\<close>, \<open>@codex\<close> or \<open>@gemini\<close>.\<close>

definition parse_addressed ::
  "room_catalog \<Rightarrow> room_catalog_agent \<Rightarrow> string list \<Rightarrow> parsed_room_command option" where
  "parse_addressed catalog agent ws =
     (case next_word 0 ws of
        None \<Rightarrow> None
      | Some command \<Rightarrow>
          let has_arguments = (next_word 1 ws \<noteq> None) in
          if command \<in> {''/model'', ''/models''} \<and> \<not> has_arguments then Some (ParsedModels agent)
          else if command = ''/skills'' \<and> \<not> has_arguments then Some (ParsedSkills agent)
          else if command \<in> {''/model'', ''/models'', ''/skills''} then Some InvalidSlash
          else if starts_with CHR ''/'' command
          then (if has_command catalog agent (trim_start_matches CHR ''/'' command) then None else Some InvalidSlash)
          else None)"

definition parse_room_command :: "string \<Rightarrow> room_catalog \<Rightarrow> parsed_room_command option" where
  "parse_room_command text catalog =
     (case split_whitespace text of
        [] \<Rightarrow> None
      | w # ws \<Rightarrow>
          let alone = (ws = []);
              slash = (if starts_with CHR ''/'' (trim_start text) then Some InvalidSlash else None)
          in
          if w \<in> {''/model'', ''/models''}
          then or_invalid ParsedModels (parse_picker_agent (next_word 0 ws) (next_word 1 ws))
          else if w = ''/skills''
          then or_invalid ParsedSkills (parse_picker_agent (next_word 0 ws) (next_word 1 ws))
          else if w \<in> {''/resume'', ''/continue''} \<and> alone then Some ParsedSessions
          else if w = ''/new'' \<and> alone then Some ParsedNewSession
          else if w = ''/exit'' \<and> alone then Some ParsedExit
          else if w = ''/history'' \<and> alone then Some ParsedHistory
          else if w = ''/status'' \<and> alone then Some ParsedStatus
          else if w = ''/debate'' then Some DebateUnavailable
          else if w = ''/council'' \<and> \<not> alone then Some ParsedSubmit
          else if w = ''/help'' \<and> alone then Some ParsedHelp
          else if w = ''/mode''
          then or_invalid (\<lambda>t. ParsedHost (CycleMode t)) (parse_mode_target (next_word 0 ws) (next_word 1 ws))
          else if w = ''/pause'' \<and> alone then Some (ParsedHost (Control Pause None None))
          else if w = ''/unpause'' \<and> alone then Some (ParsedHost (Control Resume None None))
          else if w = ''/cancel'' then or_invalid ParsedHost (parse_cancel ws)
          else if w = ''/approve'' then or_invalid ParsedHost (parse_approve ws)
          else if w = ''@claude'' then parse_addressed catalog Claude ws
          else if w = ''@codex'' then parse_addressed catalog Codex ws
          else if w = ''@gemini'' then parse_addressed catalog Gemini ws
          else slash)"

subsection \<open>Submissions\<close>

definition is_explicit_room_address :: "string \<Rightarrow> bool" where
  "is_explicit_room_address text \<longleftrightarrow>
     (case split_whitespace text of
        [] \<Rightarrow> False
      | w # _ \<Rightarrow> to_ascii_lowercase w \<in> {''@all'', ''@claude'', ''@codex'', ''@gemini''})"

definition addressed_submission :: "string \<Rightarrow> string" where
  "addressed_submission text =
     (let trimmed = trim text in
      if is_explicit_room_address trimmed \<or> starts_with CHR ''/'' trimmed then trimmed
      else ''@all '' @ trimmed)"

definition MAX_HISTORY :: nat where "MAX_HISTORY = 100"

definition remember_submission :: "string \<Rightarrow> string list \<Rightarrow> string list" where
  "remember_submission text history =
     (let t = trim text in
      if t = [] \<or> (history \<noteq> [] \<and> hd history = t) then history else take MAX_HISTORY (t # history))"

subsection \<open>Words of ASCII text\<close>

definition is_word :: "string \<Rightarrow> bool" where
  "is_word w \<longleftrightarrow> w \<noteq> [] \<and> list_all (\<lambda>c. (of_char c :: nat) < 128 \<and> \<not> is_whitespace (of_char c)) w"

lemma blank_ascii: "(of_char c :: nat) < 128 \<Longrightarrow> blank_piece [c] = is_whitespace (of_char c)"
  by (simp add: blank_piece_def chars_def bytes_of_def utf8_width_def utf8_lead_def)

lemma char_pieces_ascii:
  "list_all (\<lambda>c. (of_char c :: nat) < 128) s \<Longrightarrow> char_pieces (s @ t) = map (\<lambda>c. [c]) s @ char_pieces t"
  by (induction s) (simp_all add: utf8_width_def Let_def)

lemma split_words_word:
  assumes "ps \<noteq> []" "list_all (\<lambda>p. \<not> blank_piece p) ps" "rest = [] \<or> blank_piece (hd rest)"
  shows "split_words (ps @ rest) = concat ps # split_words rest"
proof -
  obtain q qs where ps: "ps = q # qs" "\<not> blank_piece q" using assms by (cases ps) auto
  have stop: "takeWhile (\<lambda>p. \<not> blank_piece p) (qs @ rest) = qs \<and> dropWhile (\<lambda>p. \<not> blank_piece p) (qs @ rest) = rest"
    using assms(2,3) ps by (cases rest) (auto simp: list_all_iff)
  have "split_words (q # qs @ rest) = concat (q # qs) # split_words rest"
    using stop ps(2) by (subst split_words.simps) simp
  with ps show ?thesis by simp
qed

lemma split_words_blank: "blank_piece p \<Longrightarrow> split_words (p # ps) = split_words ps"
  by (subst (1 2) split_words.simps) simp

lemma split_words_Nil [simp]: "split_words [] = []"
  by (subst split_words.simps) simp

lemma split_word:
  assumes "is_word w"
  shows "split_whitespace (w @ '' '' @ t) = w # split_whitespace t" "split_whitespace w = [w]"
proof -
  let ?ps = "map (\<lambda>c. [c]) w"
  have ascii: "list_all (\<lambda>c. (of_char c :: nat) < 128) w" using assms by (auto simp: is_word_def list_all_iff)
  have ps: "?ps \<noteq> []" "list_all (\<lambda>p. \<not> blank_piece p) ?ps" "concat ?ps = w"
    using assms by (auto simp: is_word_def list_all_iff blank_ascii concat_map_singleton)
  have "char_pieces (w @ '' '' @ t) = ?ps @ '' '' # char_pieces t"
    using char_pieces_ascii [OF ascii, of "'' '' @ t"] char_pieces_ascii [of "'' ''" t] by simp
  with split_words_word [OF ps(1,2), of "'' '' # char_pieces t"] ps(3)
  show "split_whitespace (w @ '' '' @ t) = w # split_whitespace t"
    by (simp add: split_whitespace_def blank_ascii is_whitespace_def split_words_blank)
  from char_pieces_ascii [OF ascii, of "[]"] split_words_word [OF ps(1,2), of "[]"] ps(3)
  show "split_whitespace w = [w]" by (simp add: split_whitespace_def)
qed

lemma split_Nil [simp]: "split_whitespace [] = []"
  by (simp add: split_whitespace_def)

text \<open>The first word stands at the start of the trimmed text.\<close>

lemma first_word:
  assumes "split_whitespace s = w # ws"
  shows "\<exists>rest. trim_start s = w @ rest \<and> w \<noteq> []"
proof -
  let ?ps = "dropWhile blank_piece (char_pieces s)"
  have ne: "?ps \<noteq> []"
    using assms by (auto simp: split_whitespace_def split_words.simps [of "char_pieces s"] simp del: dropWhile_eq_Nil_conv)
  then obtain q qs where q: "?ps = q # qs" by (meson list.exhaust)
  then have w: "w = concat (q # takeWhile (\<lambda>p. \<not> blank_piece p) qs)"
    using assms by (simp add: split_whitespace_def split_words.simps [of "char_pieces s"])
  have "q \<in> set (char_pieces s)" using q by (metis list.set_intros(1) set_dropWhileD)
  then have "q \<noteq> []" by (rule char_pieces_nonempty)
  moreover have "concat qs = concat (takeWhile (\<lambda>p. \<not> blank_piece p) qs) @ concat (dropWhile (\<lambda>p. \<not> blank_piece p) qs)"
    by (simp flip: concat_append)
  ultimately show ?thesis using w q by (simp add: trim_start_def)
qed

text \<open>What is trimmed at both ends starts like what is trimmed at the start.\<close>

lemma trim_starts: "starts_with c (trim s) \<Longrightarrow> starts_with c (trim_start s)"
proof -
  let ?ps = "dropWhile blank_piece (char_pieces s)"
  have "\<exists>rest. trim_start s = trim s @ rest"
  proof -
    have "?ps = rev (takeWhile blank_piece (rev ?ps) @ dropWhile blank_piece (rev ?ps))" by simp
    also have "\<dots> = rev (dropWhile blank_piece (rev ?ps)) @ rev (takeWhile blank_piece (rev ?ps))"
      by (simp only: rev_append)
    finally have "concat ?ps = concat (rev (dropWhile blank_piece (rev ?ps))) @ concat (rev (takeWhile blank_piece (rev ?ps)))"
      by (metis concat_append)
    then show ?thesis by (auto simp: trim_start_def trim_def)
  qed
  then show "starts_with c (trim s) \<Longrightarrow> starts_with c (trim_start s)"
    by (auto simp: starts_with_def)
qed

lemma trim_keeps_head:
  assumes "starts_with c (trim_start s)"
  shows "starts_with c (trim s)"
proof -
  let ?ps = "dropWhile blank_piece (char_pieces s)"
  have "?ps \<noteq> []" using assms by (auto simp: trim_start_def starts_with_def simp del: dropWhile_eq_Nil_conv)
  then obtain q qs where q: "?ps = q # qs" by (meson list.exhaust)
  then have "\<not> blank_piece q" by (metis dropWhile_eq_Cons_conv)
  then have "\<exists>rs. dropWhile blank_piece (rev (q # qs)) = rs @ [q]"
    by (cases "\<forall>x \<in> set qs. blank_piece x") (auto simp: dropWhile_append)
  then have "\<exists>rest. trim s = q @ rest" by (auto simp: trim_def q)
  moreover have "q \<in> set (char_pieces s)" using q by (metis list.set_intros(1) set_dropWhileD)
  then have "q \<noteq> []" by (rule char_pieces_nonempty)
  ultimately show ?thesis using assms by (cases q) (auto simp: trim_start_def q starts_with_def)
qed

lemma slash_not_explicit:
  assumes "starts_with CHR ''/'' t"
  shows "\<not> is_explicit_room_address t"
proof (cases "split_whitespace t")
  case (Cons w ws)
  obtain u where t: "t = CHR ''/'' # u" using assms by (cases t) (auto simp: starts_with_def)
  have "char_pieces t = ''/'' # char_pieces u" using char_pieces_ascii [of "''/''" u] by (simp add: t)
  then have "trim_start t = CHR ''/'' # concat (char_pieces u)"
    by (simp add: trim_start_def blank_ascii is_whitespace_def)
  with first_word [OF Cons] obtain v where "w = CHR ''/'' # v" by (cases w) auto
  then show ?thesis by (simp add: is_explicit_room_address_def Cons to_ascii_lowercase_def Let_def)
qed (simp add: is_explicit_room_address_def)

subsection \<open>What reaches the agents\<close>

lemma slash_parsed:
  assumes "starts_with CHR ''/'' (trim_start text)"
  shows "parse_room_command text catalog \<noteq> None"
proof (cases "split_whitespace text")
  case Nil
  then have "dropWhile blank_piece (char_pieces text) = []"
    by (auto simp: split_whitespace_def split_words.simps [of "char_pieces text"] split: list.splits)
  with assms show ?thesis by (simp add: trim_start_def starts_with_def)
next
  case (Cons w ws)
  with first_word [OF Cons] assms have w: "starts_with CHR ''/'' w"
    by (cases w) (auto simp: starts_with_def)
  then have "w \<noteq> ''@claude''" "w \<noteq> ''@codex''" "w \<noteq> ''@gemini''" by (auto simp: starts_with_def)
  then show ?thesis using Cons assms by (auto simp: parse_room_command_def or_invalid_def Let_def)
qed

lemma at_all_explicit: "is_explicit_room_address (''@all '' @ t)"
proof -
  have "is_word ''@all''" by (simp add: is_word_def is_whitespace_def)
  from split_word(1) [OF this, of t] show ?thesis
    by (simp add: is_explicit_room_address_def to_ascii_lowercase_def Let_def)
qed

lemma unparsed_is_addressed:
  assumes "parse_room_command text catalog = None"
  shows "is_explicit_room_address (addressed_submission text)"
proof -
  have "\<not> starts_with CHR ''/'' (trim text)" using assms slash_parsed trim_starts by blast
  with at_all_explicit [of "trim text"] show ?thesis by (simp add: addressed_submission_def Let_def)
qed

lemma council_parsed:
  assumes "parse_room_command text catalog = Some ParsedSubmit"
  shows "\<exists>topic. split_whitespace text = ''/council'' # topic \<and> topic \<noteq> []"
  using assms
  by (auto simp: parse_room_command_def or_invalid_def parse_addressed_def Let_def split: list.splits option.splits if_splits)

lemma council_verbatim:
  assumes "parse_room_command text catalog = Some ParsedSubmit"
  shows "addressed_submission text = trim text" "\<not> is_explicit_room_address (trim text)"
proof -
  from council_parsed [OF assms] obtain topic where "split_whitespace text = ''/council'' # topic" by blast
  from first_word [OF this] have "starts_with CHR ''/'' (trim_start text)" by (auto simp: starts_with_def)
  then have slash: "starts_with CHR ''/'' (trim text)" by (rule trim_keeps_head)
  then show "addressed_submission text = trim text" by (simp add: addressed_submission_def Let_def)
  from slash show "\<not> is_explicit_room_address (trim text)" by (rule slash_not_explicit)
qed

lemma unparsed_submission:
  assumes "parse_room_command text catalog = None"
  shows "addressed_submission text
    = (if is_explicit_room_address (trim text) then trim text else ''@all '' @ trim text)"
proof -
  have "\<not> starts_with CHR ''/'' (trim text)" using assms slash_parsed trim_starts by blast
  then show ?thesis by (simp add: addressed_submission_def Let_def)
qed

end
