(* ===== verification/Pager_Menu.thy ===== *)
theory Pager_Menu
  imports Pager_Commands "HOL-Library.Sublist"
begin

section \<open>The composer's menus\<close>

text \<open>
  The completion menus of \<open>room_composer_menu.rs\<close>: after \<open>@\<close> the addresses, after \<open>@agent /\<close> the
  commands and skills of that agent. Their painting is not modelled.
\<close>

datatype agent_catalog_tab = TabCommands | TabSkills

datatype room_menu_kind = MenuAddress | MenuAgent room_catalog_agent agent_catalog_tab

record room_menu_row =
  mr_label :: string
  mr_description :: string
  mr_completion :: string

record room_menu_snapshot =
  ms_kind :: room_menu_kind
  ms_rows :: "room_menu_row list"
  ms_selected :: nat
  ms_range :: "nat \<times> nat"
  ms_empty :: "string option"

record room_composer_menu =
  mn_selected :: nat
  mn_tab :: agent_catalog_tab
  mn_dismissed_draft :: "(string \<times> nat) option"
  mn_last_context :: "(string \<times> nat \<times> agent_catalog_tab) option"

definition default_menu :: room_composer_menu where
  "default_menu = \<lparr>mn_selected = 0, mn_tab = TabCommands, mn_dismissed_draft = None, mn_last_context = None\<rparr>"

definition ADDRESS_ROWS :: "(string \<times> string) list" where
  "ADDRESS_ROWS =
     [(''all'', ''route to the whole council (claude + codex + gemini)''),
      (''claude'', ''lead reasoning + orchestration''),
      (''codex'', ''code architecture + execution''),
      (''gemini'', ''research, UX, multimodal'')]"

definition selected_completion :: "room_menu_snapshot \<Rightarrow> ((nat \<times> nat) \<times> string) option" where
  "selected_completion s =
     (if ms_selected s < length (ms_rows s)
      then Some (ms_range s, mr_completion (ms_rows s ! ms_selected s)) else None)"

subsection \<open>Contexts\<close>

datatype menu_context =
    AddressContext "nat \<times> nat" string
  | AgentContext "nat \<times> nat" room_catalog_agent string

definition is_char_boundary :: "string \<Rightarrow> nat \<Rightarrow> bool" where
  "is_char_boundary s i \<longleftrightarrow>
     i = 0 \<or> i = length s \<or> (i < length s \<and> (let n = of_char (s ! i) :: nat in n < 128 \<or> 192 \<le> n))"

definition has_whitespace :: "string \<Rightarrow> bool" where
  "has_whitespace s \<longleftrightarrow> list_ex blank_piece (char_pieces s)"

definition strip_first :: "char \<Rightarrow> string \<Rightarrow> string option" where
  "strip_first c s = (if starts_with c s then Some (tl s) else None)"

text \<open>\<open>split_once(char::is_whitespace)\<close>\<close>

definition split_once_blank :: "string \<Rightarrow> (string \<times> string) option" where
  "split_once_blank s =
     (case dropWhile (\<lambda>p. \<not> blank_piece p) (char_pieces s) of
        [] \<Rightarrow> None
      | _ # rest \<Rightarrow> Some (concat (takeWhile (\<lambda>p. \<not> blank_piece p) (char_pieces s)), concat rest))"

definition address_context :: "string \<Rightarrow> nat \<Rightarrow> menu_context option" where
  "address_context draft cursor =
     (let before = take cursor draft in
      if \<not> starts_with CHR ''@'' before \<or> has_whitespace before then None
      else let query = tl before in
        if \<not> list_ex (\<lambda>(name, _). prefix (to_ascii_lowercase query) name) ADDRESS_ROWS then None
        else Some (AddressContext (0, cursor) query))"

definition agent_context :: "string \<Rightarrow> nat \<Rightarrow> menu_context option" where
  "agent_context draft cursor =
     Option.bind (strip_first CHR ''@'' (take cursor draft)) (\<lambda>after_at.
     Option.bind (split_once_blank after_at) (\<lambda>(agent_text, rest).
     Option.bind (parse_catalog_agent (to_ascii_lowercase agent_text)) (\<lambda>agent.
     Option.bind (strip_first CHR ''/'' (trim_start rest)) (\<lambda>slash.
     if has_whitespace slash then None else Some (AgentContext (0, cursor) agent slash)))))"

subsection \<open>Snapshots\<close>

definition address_row :: "string \<times> string \<Rightarrow> room_menu_row" where
  "address_row x = (case x of (name, description) \<Rightarrow>
     \<lparr>mr_label = ''@'' @ name, mr_description = description, mr_completion = ''@'' @ name @ '' ''\<rparr>)"

definition address_snapshot :: "nat \<times> nat \<Rightarrow> string \<Rightarrow> room_menu_snapshot" where
  "address_snapshot place query =
     \<lparr>ms_kind = MenuAddress,
      ms_rows = map address_row (filter (\<lambda>(name, _). prefix (to_ascii_lowercase query) name) ADDRESS_ROWS),
      ms_selected = 0, ms_range = place, ms_empty = None\<rparr>"

fun in_tab :: "agent_catalog_tab \<Rightarrow> catalog_row \<Rightarrow> bool" where
  "in_tab TabCommands row = is_command_kind (ct_kind row)"
| "in_tab TabSkills row = (ct_kind row = Skill)"

definition agent_row :: "room_catalog_agent \<Rightarrow> agent_catalog_tab \<Rightarrow> catalog_row \<Rightarrow> room_menu_row" where
  "agent_row agent tab row =
     \<lparr>mr_label = ''/'' @ ct_name row, mr_description = ct_description row,
      mr_completion =
        (case tab of
           TabCommands \<Rightarrow> ''@'' @ catalog_agent_name agent @ '' /'' @ ct_name row @ '' ''
         | TabSkills \<Rightarrow> ''@'' @ catalog_agent_name agent @ '' use your '' @ ct_name row @ '' skill: '')\<rparr>"

definition matching_rows :: "string \<Rightarrow> catalog_row list \<Rightarrow> catalog_row list" where
  "matching_rows query candidates =
     (let matches = filter (\<lambda>row. prefix query (ct_name row)) candidates in
      if matches = [] \<and> query \<noteq> [] then filter (\<lambda>row. sublist query (ct_name row)) candidates else matches)"

definition agent_snapshot ::
  "nat \<times> nat \<Rightarrow> room_catalog_agent \<Rightarrow> string \<Rightarrow> agent_catalog_tab \<Rightarrow> room_catalog \<Rightarrow> room_menu_snapshot" where
  "agent_snapshot place agent query tab catalog =
     (let rows = map (agent_row agent tab)
            (matching_rows (to_ascii_lowercase query) (filter (in_tab tab) (catalog_rows catalog agent))) in
      \<lparr>ms_kind = MenuAgent agent tab, ms_rows = rows, ms_selected = 0, ms_range = place,
       ms_empty =
         (if rows \<noteq> [] then None
          else Some (case tab of TabCommands \<Rightarrow> ''No matching commands'' | TabSkills \<Rightarrow> ''No matching skills''))\<rparr>)"

definition menu_snapshot ::
  "string \<Rightarrow> nat \<Rightarrow> room_catalog \<Rightarrow> room_composer_menu \<Rightarrow> room_menu_snapshot option \<times> room_composer_menu" where
  "menu_snapshot draft cursor catalog menu =
     (if cursor > length draft \<or> \<not> is_char_boundary draft cursor then (None, menu)
      else if mn_dismissed_draft menu = Some (draft, cursor) then (None, menu)
      else
        case (case agent_context draft cursor of None \<Rightarrow> address_context draft cursor | Some c \<Rightarrow> Some c) of
          None \<Rightarrow> (None, menu)
        | Some context \<Rightarrow>
            let key = (draft, cursor, mn_tab menu);
                menu1 = (if mn_last_context menu \<noteq> Some key
                         then menu\<lparr>mn_selected := 0, mn_last_context := Some key\<rparr> else menu);
                snapshot = (case context of
                    AddressContext place query \<Rightarrow> address_snapshot place query
                  | AgentContext place agent query \<Rightarrow> agent_snapshot place agent query (mn_tab menu1) catalog);
                selected = (if ms_rows snapshot = [] then 0
                            else min (mn_selected menu1) (length (ms_rows snapshot) - 1))
            in (Some (snapshot\<lparr>ms_selected := selected\<rparr>), menu1\<lparr>mn_selected := selected\<rparr>))"

definition menu_move_selection :: "nat \<Rightarrow> int \<Rightarrow> room_composer_menu \<Rightarrow> room_composer_menu" where
  "menu_move_selection row_count delta menu =
     menu\<lparr>mn_selected := (if row_count = 0 then 0 else nat ((int (mn_selected menu) + delta) mod int row_count))\<rparr>"

definition switch_tab :: "int \<Rightarrow> room_composer_menu \<Rightarrow> room_composer_menu" where
  "switch_tab direction menu =
     menu\<lparr>mn_tab := (if direction < 0 then TabCommands else TabSkills), mn_selected := 0, mn_last_context := None\<rparr>"

definition dismiss_menu :: "string \<Rightarrow> nat \<Rightarrow> room_composer_menu \<Rightarrow> room_composer_menu" where
  "dismiss_menu draft cursor menu = menu\<lparr>mn_dismissed_draft := Some (draft, cursor), mn_last_context := None\<rparr>"

definition notify_draft_changed :: "room_composer_menu \<Rightarrow> room_composer_menu" where
  "notify_draft_changed menu = menu\<lparr>mn_dismissed_draft := None\<rparr>"

subsection \<open>Completions are commands\<close>

lemma safe_name_word: "is_safe_name name \<Longrightarrow> is_word name \<and> \<not> starts_with CHR ''/'' name"
proof -
  assume safe: "is_safe_name name"
  have ok: "(of_char c :: nat) < 128 \<and> \<not> is_whitespace (of_char c) \<and> c \<noteq> CHR ''/''"
    if "is_ascii_lowercase c \<or> is_ascii_digit c \<or> c \<in> set '':._-''" for c
    using that by (auto simp: is_ascii_lowercase_def is_ascii_digit_def is_whitespace_def less_eq_char_def)
  from safe obtain c cs where name: "name = c # cs" by (cases name) auto
  with safe ok [of c] ok show ?thesis
    by (fastforce simp: is_word_def starts_with_def list_all_iff)
qed

lemma agent_word: "is_word (''@'' @ catalog_agent_name agent)"
  "to_ascii_lowercase (''@'' @ catalog_agent_name agent) \<in> {''@all'', ''@claude'', ''@codex'', ''@gemini''}"
  by (cases agent; simp add: is_word_def is_whitespace_def to_ascii_lowercase_def Let_def)+

lemma parse_at_agent:
  assumes "split_whitespace text = (''@'' @ catalog_agent_name agent) # ws"
  shows "parse_room_command text catalog = parse_addressed catalog agent ws"
  using assms by (cases agent) (simp_all add: parse_room_command_def Let_def)

lemma slash_word: "is_word name \<Longrightarrow> is_word (''/'' @ name)"
  by (simp add: is_word_def is_whitespace_def)

definition completes :: "room_catalog \<Rightarrow> string \<Rightarrow> bool" where
  "completes catalog completion \<longleftrightarrow>
     is_explicit_room_address completion
     \<and> parse_room_command completion catalog
         \<in> {None} \<union> Some ` (range ParsedModels \<union> range ParsedSkills)"

lemma command_completes:
  assumes "catalog_row_ok row" "row \<in> set (catalog_rows catalog agent)" "in_tab tab row"
  shows "completes catalog (mr_completion (agent_row agent tab row))"
proof -
  have name: "is_word (ct_name row)" "\<not> starts_with CHR ''/'' (ct_name row)"
    using safe_name_word assms(1) by (auto simp: catalog_row_ok_def)
  show ?thesis
  proof (cases tab)
    case TabCommands
    have words: "split_whitespace ((''@'' @ catalog_agent_name agent) @ '' '' @ (''/'' @ ct_name row) @ '' '' @ [])
        = [''@'' @ catalog_agent_name agent, ''/'' @ ct_name row]"
      by (simp only: split_word(1) [OF agent_word(1)] split_word(1) [OF slash_word [OF name(1)]] split_Nil)
    have "has_command catalog agent (trim_start_matches CHR ''/'' (''/'' @ ct_name row))"
      using name assms(2,3) TabCommands
      by (cases "ct_name row") (auto simp: has_command_def trim_start_matches_def starts_with_def list_ex_iff)
    moreover note parse_at_agent [OF words, of catalog]
    moreover have "is_explicit_room_address ((''@'' @ catalog_agent_name agent) @ '' '' @ (''/'' @ ct_name row) @ '' '' @ [])"
      using agent_word(2) [of agent] unfolding is_explicit_room_address_def words by simp
    ultimately show ?thesis
      using TabCommands
      by (auto simp: completes_def agent_row_def parse_addressed_def next_word_def starts_with_def Let_def)
  next
    case TabSkills
    have "is_word ''use''" by (simp add: is_word_def is_whitespace_def)
    then have words: "split_whitespace ((''@'' @ catalog_agent_name agent) @ '' '' @ ''use'' @ '' '' @ (''your '' @ ct_name row @ '' skill: ''))
        = (''@'' @ catalog_agent_name agent) # ''use'' # split_whitespace (''your '' @ ct_name row @ '' skill: '')"
      by (simp only: split_word(1) [OF agent_word(1)] split_word(1) [of "''use''"])
    note parse_at_agent [OF words, of catalog]
    moreover have "is_explicit_room_address ((''@'' @ catalog_agent_name agent) @ '' '' @ ''use'' @ '' '' @ (''your '' @ ct_name row @ '' skill: ''))"
      using agent_word(2) [of agent] unfolding is_explicit_room_address_def words by simp
    ultimately show ?thesis
      using TabSkills
      by (auto simp: completes_def agent_row_def parse_addressed_def next_word_def starts_with_def Let_def)
  qed
qed

lemma address_completes: "x \<in> set ADDRESS_ROWS \<Longrightarrow> completes catalog (mr_completion (address_row x))"
proof -
  have one: "split_whitespace (w @ '' '') = [w]" if "is_word w" for w
    using split_word(1) [OF that, of "[]"] by simp
  have all: "completes catalog (''@all'' @ '' '')"
  proof -
    have words: "split_whitespace (''@all'' @ '' '') = [''@all'']" by (rule one) (simp add: is_word_def is_whitespace_def)
    have "\<not> starts_with CHR ''/'' (trim_start (''@all'' @ '' ''))"
      using first_word [OF words] by (auto simp: starts_with_def)
    with words have "parse_room_command (''@all'' @ '' '') catalog = None"
      by (simp add: parse_room_command_def Let_def)
    moreover have "is_explicit_room_address (''@all'' @ '' '')"
      using words by (simp add: is_explicit_room_address_def to_ascii_lowercase_def Let_def)
    ultimately show ?thesis by (simp add: completes_def)
  qed
  have agent: "completes catalog ((''@'' @ catalog_agent_name agent) @ '' '')" for agent
  proof -
    note words = one [OF agent_word(1) [of agent]]
    then have "is_explicit_room_address ((''@'' @ catalog_agent_name agent) @ '' '')"
      using agent_word(2) [of agent] by (simp add: is_explicit_room_address_def)
    with parse_at_agent [OF words, of catalog] show ?thesis
      by (simp add: completes_def parse_addressed_def next_word_def)
  qed
  from all agent [of Claude] agent [of Codex] agent [of Gemini]
  have "list_all (\<lambda>x. completes catalog (mr_completion (address_row x))) ADDRESS_ROWS"
    by (simp add: ADDRESS_ROWS_def address_row_def)
  then show "x \<in> set ADDRESS_ROWS \<Longrightarrow> ?thesis" by (simp add: list_all_iff)
qed

lemma set_matching: "set (matching_rows query rows) \<subseteq> set rows"
  by (auto simp: matching_rows_def Let_def)

lemma menu_snapshot_rows:
  assumes "menu_snapshot draft cursor catalog menu = (Some s, menu')" "row \<in> set (ms_rows s)"
  shows "(\<exists>x \<in> set ADDRESS_ROWS. row = address_row x)
    \<or> (\<exists>agent tab r. r \<in> set (catalog_rows catalog agent) \<and> in_tab tab r \<and> row = agent_row agent tab r)"
  using assms set_matching
  by (fastforce simp: menu_snapshot_def address_snapshot_def agent_snapshot_def Let_def
      split: if_splits option.splits menu_context.splits)

lemma menu_selected_less:
  assumes "menu_snapshot draft cursor catalog menu = (Some s, menu')"
  shows "ms_rows s = [] \<and> ms_selected s = 0 \<or> ms_selected s < length (ms_rows s)"
  using assms by (auto simp: menu_snapshot_def min_less_iff_disj Let_def split: if_splits option.splits)

end
