(* ===== verification/Pager_History.thy ===== *)
theory Pager_History
  imports Pager_Commands
begin

section \<open>Searching the history of submissions\<close>

text \<open>
  \<open>views/history_search.rs\<close>: the thread that answers queries over the submitted prompts, and the
  state the composer keeps of it. The matcher of the crate \<open>nucleo\<close> is an argument \<open>rank\<close>: from
  the items and a query, the matching items with the positions to highlight, best first; its
  first argument is the hint that the query only extends the previous one. The channel between the
  two sides is the list of the messages in flight.
\<close>

definition MAX_RESULTS :: nat where "MAX_RESULTS = 100"

type_synonym history_match = "string \<times> nat list"

record history_snapshot =
  hn_items :: "history_match list"
  hn_generation :: nat

definition empty_snapshot :: history_snapshot where
  "empty_snapshot = \<lparr>hn_items = [], hn_generation = 0\<rparr>"

datatype history_msg =
    SetItems "string list"
  | SetItemsAndQuery "string list" string
  | SetQuery string
  | StopDaemon

subsection \<open>The thread\<close>

record daemon =
  dm_items :: "string list"
  dm_prev_q :: string
  dm_generation :: nat
  dm_out :: history_snapshot

definition new_daemon :: daemon where
  "new_daemon = \<lparr>dm_items = [], dm_prev_q = [], dm_generation = 0, dm_out = empty_snapshot\<rparr>"

definition build_items :: "string list \<Rightarrow> string list" where
  "build_items items = filter (\<lambda>s. s \<noteq> []) items"

type_synonym matcher = "bool \<Rightarrow> string list \<Rightarrow> string \<Rightarrow> history_match list"

definition publish_query_matches :: "matcher \<Rightarrow> string list \<Rightarrow> string \<Rightarrow> bool \<Rightarrow> nat \<Rightarrow> history_snapshot" where
  "publish_query_matches rank items query reuse generation =
     \<lparr>hn_items = rev (take MAX_RESULTS (rank reuse items query)), hn_generation = generation\<rparr>"

definition publish_matches :: "matcher \<Rightarrow> string list \<Rightarrow> string \<Rightarrow> nat \<Rightarrow> history_snapshot" where
  "publish_matches rank items query generation =
     (if query = []
      then \<lparr>hn_items = rev (map (\<lambda>s. (s, [])) (take MAX_RESULTS items)), hn_generation = generation\<rparr>
      else publish_query_matches rank items query False generation)"

definition extends_query :: "string \<Rightarrow> string \<Rightarrow> bool" where
  "extends_query prev_q trimmed \<longleftrightarrow>
     prev_q \<noteq> [] \<and> take (length prev_q) trimmed = prev_q
     \<and> trimmed \<noteq> [] \<and> last trimmed \<noteq> CHR 0x5C
     \<and> last trimmed \<notin> {CHR 0x09, CHR 0x0A, CHR 0x0C, CHR 0x0D, CHR 0x20}"

fun daemon_step :: "matcher \<Rightarrow> history_msg \<Rightarrow> daemon \<Rightarrow> daemon" where
  "daemon_step rank (SetItems new) d =
     (let items = build_items new; g = dm_generation d + 1 in
      d\<lparr>dm_items := items, dm_prev_q := [], dm_generation := g, dm_out := publish_matches rank items [] g\<rparr>)"
| "daemon_step rank (SetItemsAndQuery new query) d =
     (let items = build_items new; g = dm_generation d + 1; trimmed = trim query in
      d\<lparr>dm_items := items, dm_prev_q := trimmed, dm_generation := g, dm_out := publish_matches rank items trimmed g\<rparr>)"
| "daemon_step rank (SetQuery query) d =
     (let g = dm_generation d + 1; trimmed = trim query in
      if trimmed = []
      then d\<lparr>dm_prev_q := [], dm_generation := g, dm_out := publish_matches rank (dm_items d) [] g\<rparr>
      else d\<lparr>dm_prev_q := trimmed, dm_generation := g,
             dm_out := publish_query_matches rank (dm_items d) trimmed (extends_query (dm_prev_q d) trimmed) g\<rparr>)"
| "daemon_step rank StopDaemon d = d"

text \<open>The messages that have queued up, reduced to one.\<close>

fun drain_to_latest :: "history_msg \<Rightarrow> history_msg list \<Rightarrow> history_msg" where
  "drain_to_latest current [] = current"
| "drain_to_latest current (next # queue) =
     (case (current, next) of
        (SetQuery _, SetQuery q) \<Rightarrow> drain_to_latest (SetQuery q) queue
      | (SetItems items, SetQuery q) \<Rightarrow> drain_to_latest (SetItemsAndQuery items q) queue
      | (SetItemsAndQuery items _, SetQuery q) \<Rightarrow> drain_to_latest (SetItemsAndQuery items q) queue
      | (_, StopDaemon) \<Rightarrow> StopDaemon
      | (_, other) \<Rightarrow> drain_to_latest other queue)"

definition answer_all :: "matcher \<Rightarrow> history_msg list \<Rightarrow> daemon \<Rightarrow> daemon" where
  "answer_all rank msgs d = fold (daemon_step rank) msgs d"

subsection \<open>The composer's side\<close>

record history_search =
  hs_active :: bool
  hs_saved_text :: string
  hs_snapshot :: history_snapshot
  hs_last_gen :: nat
  hs_selected :: nat
  hs_stick_to_bottom :: bool
  hs_last_query :: string
  hs_hovered :: "nat option"
  hs_browse :: bool
  hs_available :: bool
  hs_queue :: "history_msg list"

definition new_history_search :: "bool \<Rightarrow> history_search" where
  "new_history_search available =
     \<lparr>hs_active = False, hs_saved_text = [], hs_snapshot = empty_snapshot, hs_last_gen = 0, hs_selected = 0,
      hs_stick_to_bottom = True, hs_last_query = [], hs_hovered = None, hs_browse = False,
      hs_available = available, hs_queue = []\<rparr>"

definition tell_daemon :: "history_msg \<Rightarrow> history_search \<Rightarrow> history_search" where
  "tell_daemon msg hs = hs\<lparr>hs_queue := hs_queue hs @ [msg]\<rparr>"

definition refresh_items :: "string list \<Rightarrow> history_search \<Rightarrow> history_search" where
  "refresh_items history = tell_daemon (SetItems history)"

definition result_count :: "history_search \<Rightarrow> nat" where
  "result_count hs = length (hn_items (hs_snapshot hs))"

definition is_browse :: "history_search \<Rightarrow> bool" where
  "is_browse hs \<longleftrightarrow> hs_active hs \<and> hs_browse hs"

text \<open>\<open>published\<close> is what the thread has published when the lock is taken.\<close>

definition activate_inner ::
  "history_snapshot \<Rightarrow> string list \<Rightarrow> string \<Rightarrow> bool \<Rightarrow> history_search \<Rightarrow> history_search" where
  "activate_inner published history current_text browse hs =
     (if \<not> hs_available hs then hs
      else
        let hs1 = refresh_items history (hs\<lparr>hs_active := True, hs_browse := browse, hs_saved_text := current_text,
                    hs_stick_to_bottom := True, hs_last_query := []\<rparr>)
        in hs1\<lparr>hs_snapshot := published, hs_last_gen := hn_generation published,
               hs_selected := length (hn_items published) - 1\<rparr>)"

definition deactivate :: "history_search \<Rightarrow> history_search" where
  "deactivate hs = hs\<lparr>hs_active := False, hs_browse := False, hs_snapshot := empty_snapshot, hs_selected := 0\<rparr>"

definition update_query :: "string \<Rightarrow> history_search \<Rightarrow> history_search" where
  "update_query query hs =
     tell_daemon (SetQuery query)
       (if query \<noteq> hs_last_query hs then hs\<lparr>hs_last_query := query, hs_stick_to_bottom := True\<rparr> else hs)"

definition poll_history :: "history_snapshot \<Rightarrow> history_search \<Rightarrow> bool \<times> history_search" where
  "poll_history published hs =
     (if \<not> hs_active hs \<or> hn_generation published = hs_last_gen hs then (False, hs)
      else
        let len = length (hn_items published);
            selected = (if len = 0 then 0
                        else if hs_stick_to_bottom hs then len - 1
                        else min (hs_selected hs) (len - 1))
        in (True, hs\<lparr>hs_last_gen := hn_generation published, hs_snapshot := published, hs_selected := selected\<rparr>))"

definition set_hovered :: "nat option \<Rightarrow> history_search \<Rightarrow> bool \<times> history_search" where
  "set_hovered index hs =
     (let clamped = (case index of None \<Rightarrow> None | Some i \<Rightarrow> if i < result_count hs then Some i else None) in
      (clamped \<noteq> hs_hovered hs, hs\<lparr>hs_hovered := clamped\<rparr>))"

definition select_hovered :: "history_search \<Rightarrow> bool \<times> history_search" where
  "select_hovered hs =
     (case hs_hovered hs of
        Some idx \<Rightarrow>
          if idx < result_count hs then (True, hs\<lparr>hs_stick_to_bottom := False, hs_selected := idx\<rparr>) else (False, hs)
      | None \<Rightarrow> (False, hs))"

definition move_up :: "history_search \<Rightarrow> bool \<times> history_search" where
  "move_up hs =
     (if result_count hs = 0 \<or> hs_selected hs = 0 then (False, hs)
      else (True, hs\<lparr>hs_stick_to_bottom := False, hs_selected := hs_selected hs - 1\<rparr>))"

definition move_down :: "history_search \<Rightarrow> bool \<times> history_search" where
  "move_down hs =
     (if result_count hs = 0 \<or> hs_selected hs \<ge> result_count hs - 1 then (False, hs)
      else (True, hs\<lparr>hs_stick_to_bottom := False, hs_selected := hs_selected hs + 1\<rparr>))"

definition page_move :: "int \<Rightarrow> nat \<Rightarrow> history_search \<Rightarrow> history_search" where
  "page_move delta visible_rows hs =
     (let half = int (max (visible_rows div 2) 1); len = result_count hs in
      if len = 0 then hs
      else hs\<lparr>hs_stick_to_bottom := False,
              hs_selected := nat (max 0 (min (int (min (hs_selected hs) (len - 1)) + delta * half) (int (len - 1))))\<rparr>)"

definition selected_text :: "history_search \<Rightarrow> string option" where
  "selected_text hs =
     (if hs_selected hs < result_count hs then Some (fst (hn_items (hs_snapshot hs) ! hs_selected hs)) else None)"

subsection \<open>Coalescing loses nothing\<close>

text \<open>What is asked of the matcher: the hint is only a hint.\<close>

definition hint_only :: "matcher \<Rightarrow> bool" where
  "hint_only rank \<longleftrightarrow> rank True = rank False"

text \<open>Two threads that have the same items, the same last query and show the same results.\<close>

definition same_answers :: "daemon \<Rightarrow> daemon \<Rightarrow> bool" where
  "same_answers d d' \<longleftrightarrow>
     dm_items d = dm_items d' \<and> dm_prev_q d = dm_prev_q d' \<and> hn_items (dm_out d) = hn_items (dm_out d')"

lemma same_answers_trans: "same_answers d d' \<Longrightarrow> same_answers d' d'' \<Longrightarrow> same_answers d d''"
  by (simp add: same_answers_def)

lemma same_answers_step:
  "same_answers d d' \<Longrightarrow> same_answers (daemon_step rank msg d) (daemon_step rank msg d')"
  by (cases msg) (auto simp: same_answers_def publish_matches_def publish_query_matches_def Let_def)

lemma same_answers_all: "same_answers d d' \<Longrightarrow> same_answers (answer_all rank msgs d) (answer_all rank msgs d')"
  by (induction msgs arbitrary: d d') (simp_all add: answer_all_def same_answers_step)

text \<open>Every pair the drain merges, but for the stop.\<close>

definition merged :: "history_msg \<Rightarrow> history_msg \<Rightarrow> history_msg" where
  "merged m n =
     (case (m, n) of
        (SetItems items, SetQuery q) \<Rightarrow> SetItemsAndQuery items q
      | (SetItemsAndQuery items _, SetQuery q) \<Rightarrow> SetItemsAndQuery items q
      | _ \<Rightarrow> n)"

lemma merged_answers:
  assumes hint: "hint_only rank" and "m \<noteq> StopDaemon" "n \<noteq> StopDaemon"
  shows "same_answers (daemon_step rank n (daemon_step rank m d)) (daemon_step rank (merged m n) d)"
proof -
  have any: "rank b items q = rank False items q" for b items q using hint by (cases b) (auto simp: hint_only_def)
  show ?thesis
    using assms(2,3)
    by (cases m; cases n)
      (auto simp: same_answers_def merged_def publish_matches_def publish_query_matches_def Let_def
         any [of "extends_query _ _"])
qed

lemma drain_step: "m \<noteq> StopDaemon \<Longrightarrow> n \<noteq> StopDaemon \<Longrightarrow> drain_to_latest m (n # queue) = drain_to_latest (merged m n) queue"
  by (cases m; cases n) (simp_all add: merged_def)

lemma merged_not_stop: "n \<noteq> StopDaemon \<Longrightarrow> merged m n \<noteq> StopDaemon"
  by (cases m; cases n) (simp_all add: merged_def)

lemma drained_answers:
  assumes hint: "hint_only rank"
  shows "m \<noteq> StopDaemon \<Longrightarrow> StopDaemon \<notin> set queue \<Longrightarrow>
    same_answers (answer_all rank (m # queue) d) (daemon_step rank (drain_to_latest m queue) d)"
proof (induction queue arbitrary: m d)
  case Nil
  then show ?case by (simp add: answer_all_def same_answers_def)
next
  case (Cons n queue)
  then have "n \<noteq> StopDaemon" "StopDaemon \<notin> set queue" by auto
  note step = merged_answers [OF hint Cons.prems(1) this(1), where d = d]
  have "same_answers (answer_all rank (m # n # queue) d) (answer_all rank (merged m n # queue) d)"
    using same_answers_all [OF step, where rank = rank and msgs = queue] by (simp add: answer_all_def)
  moreover have "same_answers (answer_all rank (merged m n # queue) d) (daemon_step rank (drain_to_latest (merged m n) queue) d)"
    using Cons.IH merged_not_stop \<open>n \<noteq> StopDaemon\<close> \<open>StopDaemon \<notin> set queue\<close> by blast
  ultimately show ?case
    using same_answers_trans drain_step Cons.prems(1) \<open>n \<noteq> StopDaemon\<close> by metis
qed

subsection \<open>The selection is on a result\<close>

definition history_ok :: "history_search \<Rightarrow> bool" where
  "history_ok hs \<longleftrightarrow>
     (if result_count hs = 0 then hs_selected hs = 0 else hs_selected hs < result_count hs)
     \<and> (hs_browse hs \<longrightarrow> hs_active hs)"

lemma below_length: "xs \<noteq> [] \<Longrightarrow> n \<le> length xs - Suc 0 \<Longrightarrow> n < length xs"
  by (cases xs) auto

lemma history_ok_ops:
  "history_ok (new_history_search available)" "history_ok (deactivate hs)"
  "history_ok hs \<Longrightarrow> history_ok (activate_inner published history t browse hs)"
  "history_ok hs \<Longrightarrow> history_ok (refresh_items history hs)"
  "history_ok hs \<Longrightarrow> history_ok (update_query query hs)"
  "history_ok hs \<Longrightarrow> history_ok (snd (poll_history published hs))"
  "history_ok hs \<Longrightarrow> history_ok (snd (set_hovered index hs))"
  "history_ok hs \<Longrightarrow> history_ok (snd (select_hovered hs))"
  "history_ok hs \<Longrightarrow> history_ok (snd (move_up hs))"
  "history_ok hs \<Longrightarrow> history_ok (snd (move_down hs))"
  by (auto simp: history_ok_def new_history_search_def deactivate_def activate_inner_def refresh_items_def tell_daemon_def
      update_query_def poll_history_def set_hovered_def select_hovered_def move_up_def move_down_def
      result_count_def empty_snapshot_def Let_def min_def below_length split: option.splits)

lemma history_ok_page: "history_ok hs \<Longrightarrow> history_ok (page_move delta rows hs)"
proof -
  have "nat (max 0 (min x (int (n - 1)))) < n" if "n \<noteq> 0" for x and n :: nat
    using that by linarith
  then show "history_ok hs \<Longrightarrow> history_ok (page_move delta rows hs)"
    by (auto simp: history_ok_def page_move_def result_count_def Let_def)
qed

end
