(* ===== verification/Pager_Submit.thy ===== *)
theory Pager_Submit
  imports Pager_Menu Pager_History Pager_Panic
begin

section \<open>Sending a line\<close>

text \<open>
  What \<open>handle_key_at\<close> of \<open>app/room_runtime.rs\<close> does once the prompt gives up a line, with
  \<open>send_submission\<close> of \<open>app/room_runtime_events.rs\<close>. The command channel is a list, oldest first;
  \<open>cr_published\<close> is what the history's thread has published last; the one-line status is an
  argument. The editor itself (\<open>views/prompt_widget\<close>) is a parameter: the record \<open>prompt_widget\<close>
  holds its operations the room calls, over any type of editor.
\<close>

datatype enter_outcome = EnterSubmit | NewlineInserted | PassThrough

record ('s, 'p) prompt_widget =
  pw_composer :: "('s, 'p) composer"
  pw_set_text :: "string \<Rightarrow> 'p \<Rightarrow> 'p"
  pw_stash :: "'p \<Rightarrow> 's \<times> 'p"
  pw_cursor :: "'p \<Rightarrow> nat"
  pw_set_cursor :: "nat \<Rightarrow> 'p \<Rightarrow> 'p"
  pw_refresh_slash :: "'p \<Rightarrow> 'p"
  pw_fill_completion :: "nat \<times> nat \<Rightarrow> string \<Rightarrow> 'p \<Rightarrow> bool \<times> 'p"
  pw_slash_open :: "'p \<Rightarrow> bool"
  pw_slash_move :: "int \<Rightarrow> 'p \<Rightarrow> 'p"
  pw_accept_slash :: "'p \<Rightarrow> bool \<times> 'p"
  pw_slash_close :: "'p \<Rightarrow> 'p"
  pw_file_search_visible :: "'p \<Rightarrow> bool"
  pw_clear_file_context :: "'p \<Rightarrow> 'p"
  pw_route_enter :: "key_event \<Rightarrow> 'p \<Rightarrow> enter_outcome \<times> 'p"
  pw_handle_key :: "key_event \<Rightarrow> 'p \<Rightarrow> 'p"
  pw_try_send :: "'p \<Rightarrow> string option \<times> 'p"

abbreviation pw_text :: "('s, 'p) prompt_widget \<Rightarrow> 'p \<Rightarrow> string" where
  "pw_text pw \<equiv> cm_text (pw_composer pw)"

record ('s, 'p) composer_room =
  cr_room :: "('s, 'p) restore_room"
  cr_menu :: room_composer_menu
  cr_picker :: room_picker
  cr_history :: "string list"
  cr_search :: history_search
  cr_published :: history_snapshot
  cr_wire :: "room_command list"
  cr_wire_open :: bool

definition push_local_notice :: "string \<Rightarrow> ('s, 'p) composer_room \<Rightarrow> ('s, 'p) composer_room" where
  "push_local_notice notice room =
     room\<lparr>cr_room := (cr_room room)\<lparr>rm_notices := rm_notices (cr_room room) @ [notice]\<rparr>\<rparr>"

definition set_prompt :: "('p \<Rightarrow> 'p) \<Rightarrow> ('s, 'p) composer_room \<Rightarrow> ('s, 'p) composer_room" where
  "set_prompt f room = room\<lparr>cr_room := (cr_room room)\<lparr>rm_prompt := f (rm_prompt (cr_room room))\<rparr>\<rparr>"

definition send_command ::
  "string \<Rightarrow> room_command \<Rightarrow> ('s, 'p) composer_room \<Rightarrow> (string, unit) result \<times> ('s, 'p) composer_room" where
  "send_command context c room =
     (if cr_wire_open room then (Ok (), room\<lparr>cr_wire := cr_wire room @ [c]\<rparr>) else (Err context, room))"

definition BRIDGE_STOPPED :: string where "BRIDGE_STOPPED = ''room host command bridge stopped''"
definition PICKER_STOPPED :: string where "PICKER_STOPPED = ''room host picker bridge stopped''"

text \<open>\<open>remember_submission\<close>: the history thread hears of a new entry.\<close>

definition remember_line :: "string \<Rightarrow> ('s, 'p) composer_room \<Rightarrow> ('s, 'p) composer_room" where
  "remember_line text room =
     (let history = remember_submission text (cr_history room) in
      room\<lparr>cr_history := history,
           cr_search := (if history = cr_history room then cr_search room else refresh_items history (cr_search room))\<rparr>)"

definition send_submission ::
  "string \<Rightarrow> 's \<Rightarrow> ('s, 'p) composer_room \<Rightarrow> (string, unit) result \<times> ('s, 'p) composer_room" where
  "send_submission text stash room =
     (let room1 = remember_line text room in
      case hold_submission stash (cr_room room1) of
        (i, held) \<Rightarrow> send_command BRIDGE_STOPPED (Submit i (addressed_submission text)) (room1\<lparr>cr_room := held\<rparr>))"

definition stay ::
  "(string, unit) result \<times> ('s, 'p) composer_room \<Rightarrow>
   (string, room_runtime_exit option) result \<times> ('s, 'p) composer_room" where
  "stay x = (case x of (r, room) \<Rightarrow> (tryR r (\<lambda>_. Ok None), room))"

definition NO_DEBATE :: string where
  "NO_DEBATE = ''Structured debate is not available in Alive Room yet; use /council for independent multi-agent answers.''"
definition UNKNOWN_COMMAND :: string where
  "UNKNOWN_COMMAND = ''Unknown or invalid room command. Type /help to see available commands.''"

text \<open>The meaning of the line, once the composer is cleared.\<close>

definition dispatch_line ::
  "('s, 'p) prompt_widget \<Rightarrow> room_catalog \<Rightarrow> string \<Rightarrow> string \<Rightarrow> 's \<Rightarrow> ('s, 'p) composer_room \<Rightarrow>
   (string, room_runtime_exit option) result \<times> ('s, 'p) composer_room" where
  "dispatch_line pw catalog status text stash room =
     (case parse_room_command text catalog of
        None \<Rightarrow> stay (send_submission text stash room)
      | Some parsed \<Rightarrow>
          (case parsed of
             ParsedSubmit \<Rightarrow> stay (send_submission text stash room)
           | ParsedHost c \<Rightarrow> stay (send_command BRIDGE_STOPPED c room)
           | ParsedModels agent \<Rightarrow>
               (case open_models agent (cr_picker room) of
                  (q, p) \<Rightarrow> stay (send_command PICKER_STOPPED (PickerCommand q) (room\<lparr>cr_picker := p\<rparr>)))
           | ParsedSkills agent \<Rightarrow> (Ok None, room\<lparr>cr_picker := open_skills agent catalog (cr_picker room)\<rparr>)
           | ParsedSessions \<Rightarrow>
               (case open_sessions (cr_picker room) of
                  (q, p) \<Rightarrow> stay (send_command PICKER_STOPPED (PickerCommand q) (room\<lparr>cr_picker := p\<rparr>)))
           | ParsedNewSession \<Rightarrow> (Ok (Some NewSession), room)
           | ParsedExit \<Rightarrow> (Ok (Some RoomExit), room)
           | ParsedHistory \<Rightarrow> 
               (Ok None, room\<lparr>cr_search := activate_inner (cr_published room) (cr_history room) '''' False (cr_search room)\<rparr>)
           | ParsedStatus \<Rightarrow> (Ok None, push_local_notice status room)
           | DebateUnavailable \<Rightarrow> (Ok None, push_local_notice NO_DEBATE room)
           | InvalidSlash \<Rightarrow> (Ok None, push_local_notice UNKNOWN_COMMAND room)
           | ParsedHelp \<Rightarrow> (Ok None, set_prompt (pw_refresh_slash pw \<circ> pw_set_cursor pw 1 \<circ> pw_set_text pw ''/'') room)))"

definition submit_line ::
  "('s, 'p) prompt_widget \<Rightarrow> room_catalog \<Rightarrow> string \<Rightarrow> string \<Rightarrow> ('s, 'p) composer_room \<Rightarrow>
   (string, room_runtime_exit option) result \<times> ('s, 'p) composer_room" where
  "submit_line pw catalog status text room =
     (let (stash, prompt) = pw_stash pw (rm_prompt (cr_room room));
          cleared = set_prompt (\<lambda>_. pw_refresh_slash pw (pw_set_text pw '''' prompt)) room
      in dispatch_line pw catalog status text stash (cleared\<lparr>cr_menu := notify_draft_changed (cr_menu cleared)\<rparr>))"

subsection \<open>What a line can send\<close>

text \<open>
  What goes to the agents for a line: a line that is no room command goes out with an explicit
  address, its own or \<open>@all\<close>; the one command that is a submission, a council with a topic, goes out
  as it was typed, with no address.
\<close>

definition goes_out_as :: "room_catalog \<Rightarrow> string \<Rightarrow> string \<Rightarrow> bool" where
  "goes_out_as catalog line sent \<longleftrightarrow>
     (if parse_room_command line catalog = None
      then is_explicit_room_address sent
        \<and> sent = (if is_explicit_room_address (trim line) then trim line else ''@all '' @ trim line)
      else (\<exists>topic. split_whitespace line = ''/council'' # topic \<and> topic \<noteq> [])
        \<and> sent = trim line \<and> \<not> is_explicit_room_address sent)"

lemma goes_out_asD:
  "goes_out_as catalog line sent \<Longrightarrow> parse_room_command line catalog = None \<Longrightarrow> is_explicit_room_address sent"
  "goes_out_as catalog line sent \<Longrightarrow> parse_room_command line catalog \<noteq> None \<Longrightarrow>
     sent = trim line \<and> \<not> is_explicit_room_address sent"
  unfolding goes_out_as_def by (auto split: if_splits)

lemma send_command_wire:
  "cr_wire (snd (send_command context c room)) = cr_wire room @ (if cr_wire_open room then [c] else [])"
  "cr_room (snd (send_command context c room)) = cr_room room"
  by (simp_all add: send_command_def)

lemma stay_simps [simp]: "snd (stay x) = snd x" "fst (stay x) = Ok q \<Longrightarrow> q = None"
  by (auto simp: stay_def split: prod.splits)

text \<open>A line that leads to a submission, and every other line.\<close>

definition is_submission :: "room_catalog \<Rightarrow> string \<Rightarrow> bool" where
  "is_submission catalog text \<longleftrightarrow> parse_room_command text catalog \<in> {None, Some ParsedSubmit}"

lemma submission_goes_out:
  assumes "is_submission catalog line"
  shows "goes_out_as catalog line (addressed_submission line)"
proof (cases "parse_room_command line catalog")
  case None
  from unparsed_is_addressed [OF None] unparsed_submission [OF None] show ?thesis
    by (simp add: goes_out_as_def None)
next
  case (Some parsed)
  with assms have "parse_room_command line catalog = Some ParsedSubmit" by (simp add: is_submission_def)
  from council_parsed [OF this] council_verbatim [OF this] show ?thesis
    by (simp add: goes_out_as_def Some)
qed

fun is_submit :: "room_command \<Rightarrow> bool" where
  "is_submit (Submit _ _) = True"
| "is_submit _ = False"

lemma host_command_no_submit: "parse_room_command text catalog = Some (ParsedHost c) \<Longrightarrow> \<not> is_submit c"
  by (auto simp: parse_room_command_def or_invalid_def parse_cancel_def parse_approve_def parse_addressed_def Let_def
      split: list.splits option.splits if_splits)

lemma submit_line_other:
  assumes "\<not> is_submission catalog text"
  shows "\<exists>cmds. cr_wire (snd (submit_line pw catalog status text room)) = cr_wire room @ cmds
    \<and> length cmds \<le> 1 \<and> \<not> list_ex is_submit cmds
    \<and> rm_pending (cr_room (snd (submit_line pw catalog status text room))) = rm_pending (cr_room room)
    \<and> cr_history (snd (submit_line pw catalog status text room)) = cr_history room"
proof -
  from assms obtain parsed where parsed: "parse_room_command text catalog = Some parsed" "parsed \<noteq> ParsedSubmit"
    by (auto simp: is_submission_def)
  then show ?thesis
    using host_command_no_submit [of "text" catalog]
    by (cases parsed)
      (auto simp: submit_line_def dispatch_line_def send_command_def set_prompt_def push_local_notice_def Let_def
        split: prod.split)
qed

lemma submit_line_submission:
  assumes "is_submission catalog text" "cr_wire_open room"
    and "pw_stash pw (rm_prompt (cr_room room)) = (stash, prompt)"
    and "hold_submission stash ((cr_room room)\<lparr>rm_prompt := pw_refresh_slash pw (pw_set_text pw [] prompt)\<rparr>) = (i, held)"
  shows "cr_wire (snd (submit_line pw catalog status text room)) = cr_wire room @ [Submit i (addressed_submission text)]
    \<and> cr_room (snd (submit_line pw catalog status text room)) = held
    \<and> cr_history (snd (submit_line pw catalog status text room)) = remember_submission text (cr_history room)
    \<and> fst (submit_line pw catalog status text room) = Ok None"
  using assms
  by (auto simp: is_submission_def submit_line_def dispatch_line_def send_submission_def send_command_def stay_def
      remember_line_def set_prompt_def Let_def)

end
