(* ===== verification/Pager_Permission.thy ===== *)
theory Pager_Permission
  imports Pager_Submit Pager_Panic Room_Runs
begin

section \<open>The permission shelf\<close>

text \<open>
  \<open>room_permission_view.rs\<close> with the state of \<open>views/permission_presentation.rs\<close>, and the keys
  \<open>app/room_runtime.rs\<close> gives it. The reducer owns the permissions; the shelf shows the first
  pending one and answers it at most once, with one of its own options. What a frame paints is
  modelled as far as it decides which options a digit may name: the width of a text
  (\<open>unicode-width\<close>) and the glyphs of the console are arguments.
\<close>

datatype permission_option_kind = AllowOnce | AllowAlways | RejectOnce | RejectAlways | OtherKind

text \<open>\<open>replace(['-', ' '], "_")\<close>\<close>

definition underscores :: "string \<Rightarrow> string" where
  "underscores s = map (\<lambda>c. if c = CHR ''-'' \<or> c = CHR '' '' then CHR ''_'' else c) s"

definition from_wire_kind :: "string option \<Rightarrow> permission_option_kind" where
  "from_wire_kind value =
     (let kind = underscores (to_ascii_lowercase (trim (case value of None \<Rightarrow> '''' | Some s \<Rightarrow> s))) in
      if kind \<in> {''allow_once'', ''approve_once'', ''approved''} then AllowOnce
      else if kind \<in> {''allow_always'', ''approve_always''} then AllowAlways
      else if kind \<in> {''reject_once'', ''deny_once'', ''denied''} then RejectOnce
      else if kind \<in> {''reject_always'', ''deny_always''} then RejectAlways
      else OtherKind)"

record shelf_option =
  so_id :: string
  so_label :: string
  so_detail :: string
  so_kind :: permission_option_kind

datatype local_choice = ChooseOption string | ChooseDeny

record active_permission =
  ap_ask_id :: string
  ap_agent :: string
  ap_submitted :: bool
  ap_focused :: bool
  ap_title :: string
  ap_description :: "string list"
  ap_options :: "shelf_option list"
  ap_active_idx :: nat
  ap_choices :: "local_choice list"
  ap_visible_choices :: "nat list"

subsection \<open>Inert text\<close>

definition hex_digit :: "nat \<Rightarrow> char" where
  "hex_digit d = char_of (if d < 10 then 48 + d else 87 + d)"

fun hex_digits :: "nat \<Rightarrow> nat \<Rightarrow> string" where
  "hex_digits 0 n = []"
| "hex_digits (Suc k) n = hex_digits k (n div 16) @ [hex_digit (n mod 16)]"

definition hidden_format :: "nat \<Rightarrow> bool" where
  "hidden_format c \<longleftrightarrow> c = 0x061c \<or> 0x200b \<le> c \<and> c \<le> 0x200f \<or> 0x202a \<le> c \<and> c \<le> 0x202e
     \<or> c = 0x2060 \<or> 0x2066 \<le> c \<and> c \<le> 0x2069 \<or> c = 0xfeff"

definition inert_piece :: "string \<Rightarrow> string" where
  "inert_piece piece =
     (case chars piece of
        [c] \<Rightarrow>
          if is_control c then [CHR 0x5C] @ ''x'' @ hex_digits 2 c
          else if hidden_format c then [CHR 0x5C] @ ''u'' @ hex_digits 4 c
          else piece
      | _ \<Rightarrow> piece)"

definition inert_permission_text :: "string \<Rightarrow> string \<Rightarrow> nat \<Rightarrow> string" where
  "inert_permission_text ellipsis value max_chars =
     concat (map inert_piece (take max_chars (char_pieces value)))
     @ (if length (char_pieces value) > max_chars then ellipsis else [])"

subsection \<open>Following the reducer\<close>

definition shelf_option_of :: "string \<Rightarrow> permission_option \<Rightarrow> shelf_option" where
  "shelf_option_of ellipsis x =
     \<lparr>so_id = po_option_id x,
      so_label =
        (case po_name x of
           Some v \<Rightarrow> inert_permission_text ellipsis v 120
         | None \<Rightarrow> (case po_kind x of Some v \<Rightarrow> inert_permission_text ellipsis v 120 | None \<Rightarrow> ''Choose'')),
      so_detail = (case po_kind x of Some v \<Rightarrow> inert_permission_text ellipsis v 120 | None \<Rightarrow> ''''),
      so_kind = from_wire_kind (po_kind x)\<rparr>"

definition open_ask :: "string \<Rightarrow> permission_state \<Rightarrow> active_permission" where
  "open_ask ellipsis ask =
     \<lparr>ap_ask_id = pm_ask_id ask, ap_agent = pm_agent ask, ap_submitted = False, ap_focused = False,
      ap_title = pm_agent ask @ '' needs your approval'',
      ap_description = (case pm_tool_title ask of None \<Rightarrow> [] | Some t \<Rightarrow> [inert_permission_text ellipsis t 240]),
      ap_options =
        (if pm_options ask = []
         then [\<lparr>so_id = '''', so_label = ''Deny'',
                so_detail = ''The provider supplied no options; deny this request.'', so_kind = RejectOnce\<rparr>]
         else map (shelf_option_of ellipsis) (pm_options ask)),
      ap_active_idx = 0,
      ap_choices =
        (if pm_options ask = [] then [ChooseDeny] else map (ChooseOption \<circ> po_option_id) (pm_options ask)),
      ap_visible_choices = []\<rparr>"

definition sync_shelf :: "string \<Rightarrow> reducer \<Rightarrow> active_permission option \<Rightarrow> active_permission option" where
  "sync_shelf ellipsis r shelf =
     (let pending = pending_permissions r in
      if (case shelf of None \<Rightarrow> False | Some active \<Rightarrow> list_ex (\<lambda>ask. pm_ask_id ask = ap_ask_id active) pending)
      then shelf
      else (case pending of [] \<Rightarrow> None | ask # _ \<Rightarrow> Some (open_ask ellipsis ask)))"

subsection \<open>Answering\<close>

definition submit_active :: "active_permission \<Rightarrow> room_permission_action option \<times> active_permission" where
  "submit_active active =
     (if ap_submitted active then (None, active)
      else if ap_active_idx active \<notin> set (ap_visible_choices active) then (None, active)
      else if \<not> ap_active_idx active < length (ap_choices active) then (None, active)
      else
        case ap_choices active ! ap_active_idx active of
          ChooseOption option_id \<Rightarrow>
            if option_id \<noteq> []
            then (Some (SelectOption (ap_ask_id active) option_id), active\<lparr>ap_submitted := True\<rparr>)
            else (None, active)
        | ChooseDeny \<Rightarrow> (Some (Deny (ap_ask_id active)), active\<lparr>ap_submitted := True\<rparr>))"

definition shelf_key :: "key_event \<Rightarrow> active_permission \<Rightarrow> room_permission_action option \<times> active_permission" where
  "shelf_key key active =
     (if ke_code key \<in> {KeyUp, key_char CHR ''k''}
      then (None, active\<lparr>ap_active_idx := ap_active_idx active - 1\<rparr>)
      else if ke_code key \<in> {KeyDown, key_char CHR ''j''}
      then (None, active\<lparr>ap_active_idx := min (ap_active_idx active + 1) (length (ap_options active) - 1)\<rparr>)
      else if ke_code key \<in> {KeyEnter, key_char CHR '' ''} then submit_active active
      else (None, active))"

definition select_visible_digit ::
  "nat \<Rightarrow> active_permission \<Rightarrow> room_permission_action option \<times> active_permission" where
  "select_visible_digit digit active =
     (if digit = 0 then (None, active)
      else if digit - 1 \<notin> set (ap_visible_choices active) then (None, active)
      else submit_active (active\<lparr>ap_active_idx := digit - 1\<rparr>))"

definition has_visible_digit :: "nat \<Rightarrow> active_permission \<Rightarrow> bool" where
  "has_visible_digit digit active \<longleftrightarrow> digit > 0 \<and> digit - 1 \<in> set (ap_visible_choices active)"

subsection \<open>What a frame shows\<close>

record console =
  cn_width :: "string \<Rightarrow> nat"
  cn_char_width :: "string \<Rightarrow> nat"
  cn_ellipsis :: string
  cn_focus :: string

fun option_label :: "shelf_option \<Rightarrow> string" where
  "option_label x =
     (case so_kind x of AllowOnce \<Rightarrow> ''allow once'' | AllowAlways \<Rightarrow> ''always allow this''
      | RejectOnce \<Rightarrow> ''deny'' | RejectAlways \<Rightarrow> ''deny'' | OtherKind \<Rightarrow> so_label x)"

fun fitting :: "console \<Rightarrow> nat \<Rightarrow> nat \<Rightarrow> string list \<Rightarrow> string list" where
  "fitting cn used limit [] = []"
| "fitting cn used limit (p # ps) =
     (if used + cn_char_width cn p > limit then [] else p # fitting cn (used + cn_char_width cn p) limit ps)"

definition truncate_display_width :: "console \<Rightarrow> string \<Rightarrow> nat \<Rightarrow> string" where
  "truncate_display_width cn value width =
     (if width = 0 then []
      else if cn_width cn value \<le> width then value
      else if width \<le> cn_width cn (cn_ellipsis cn) then cn_ellipsis cn
      else concat (fitting cn (cn_width cn (cn_ellipsis cn)) width (char_pieces value)) @ cn_ellipsis cn)"

text \<open>The loop over the options of a row: the indices it paints.\<close>

fun painted_options ::
  "console \<Rightarrow> active_permission \<Rightarrow> nat \<Rightarrow> bool \<Rightarrow> nat \<Rightarrow> nat \<Rightarrow> shelf_option list \<Rightarrow> nat list" where
  "painted_options cn active available first used index [] = []"
| "painted_options cn active available first used index (x # xs) =
     (let gap_width = cn_width cn (if first then '''' else ''  '');
          marker = (if ap_focused active \<and> index = ap_active_idx active then cn_focus cn else '' '');
          number = ''['' @ show_nat (index + 1) @ '']'';
          prefix_width = cn_width cn marker + cn_width cn number + 1
      in if used + gap_width + prefix_width > available then []
         else
           let label = truncate_display_width cn (option_label x) (available - (used + gap_width + prefix_width))
           in index # painted_options cn active available False
                (used + gap_width + prefix_width + cn_width cn label) (index + 1) xs)"

definition render_shelf :: "console \<Rightarrow> nat \<Rightarrow> nat \<Rightarrow> active_permission \<Rightarrow> active_permission" where
  "render_shelf cn width height active =
     active\<lparr>ap_visible_choices :=
       (if width = 0 \<or> height \<le> 2 then []
        else
          let start = (if ap_focused active then min (ap_active_idx active) (length (ap_options active) - 1) else 0)
          in painted_options cn active (width - 2) True 0 start (drop start (ap_options active)))\<rparr>"

subsection \<open>Keys\<close>

datatype permission_key_route = NotHandled | KeyConsumed | KeyAction room_permission_action

definition is_shift_tab :: "key_event \<Rightarrow> bool" where
  "is_shift_tab key \<longleftrightarrow> ke_kind key \<noteq> KeyRelease
     \<and> (ke_code key = KeyBackTab \<and> ke_modifiers key \<subseteq> {ModShift}
        \<or> ke_code key = KeyTab \<and> ke_modifiers key = {ModShift})"

definition permission_digit :: "key_event \<Rightarrow> nat option" where
  "permission_digit key =
     (if ke_modifiers key \<noteq> {} then None
      else case ke_code key of
        KeyChar c \<Rightarrow> if 49 \<le> c \<and> c \<le> 57 then Some (c - 48) else None
      | _ \<Rightarrow> None)"

text \<open>\<open>.map(Action).unwrap_or(Consumed)\<close>\<close>

definition action_route ::
  "room_permission_action option \<times> active_permission \<Rightarrow> permission_key_route \<times> active_permission option" where
  "action_route x = (case x of (a, active) \<Rightarrow> (case a of None \<Rightarrow> KeyConsumed | Some act \<Rightarrow> KeyAction act, Some active))"

definition focus_keys :: "key_code set" where
  "focus_keys = {KeyUp, KeyDown, KeyEnter, key_char CHR '' '', key_char CHR ''j'', key_char CHR ''k''}"

definition focused_by :: "key_event \<Rightarrow> active_permission \<Rightarrow> active_permission" where
  "focused_by key active =
     (if ke_code key \<in> {KeyUp, KeyDown} \<and> ModAlt \<in> ke_modifiers key then active\<lparr>ap_focused := True\<rparr> else active)"

definition route_permission_key ::
  "string \<Rightarrow> key_event \<Rightarrow> active_permission option \<Rightarrow> permission_key_route \<times> active_permission option" where
  "route_permission_key draft key shelf =
     (case shelf of
        None \<Rightarrow> (NotHandled, None)
      | Some active0 \<Rightarrow>
          if is_shift_tab key then (NotHandled, Some active0)
          else if ke_code key = KeyEsc then (KeyConsumed, Some (active0\<lparr>ap_focused := False\<rparr>))
          else
            let active = focused_by key active0;
                digit = permission_digit key;
                unfocused = (if ap_focused active then active\<lparr>ap_focused := False\<rparr> else active)
            in if ap_focused active \<and> digit \<noteq> None
               then action_route (select_visible_digit (the digit) active)
               else if \<not> ap_focused active \<and> draft = [] \<and> digit \<noteq> None \<and> has_visible_digit (the digit) active
               then action_route (select_visible_digit (the digit) active)
               else if ap_focused active \<and> ke_code key \<in> focus_keys then action_route (shelf_key key active)
               else (NotHandled, Some unfocused))"

subsection \<open>The life of the shelf\<close>

text \<open>
  \<open>shelf_run f ellipsis r shelf acts\<close>: the shelf next to a running room's reducer, and the answers
  it has given, oldest first. The shelf is synchronised with every event that is not a repetition.
\<close>

definition route_actions :: "permission_key_route \<Rightarrow> room_permission_action list" where
  "route_actions route = (case route of KeyAction a \<Rightarrow> [a] | _ \<Rightarrow> [])"

inductive shelf_run ::
  "(string \<Rightarrow> bool) \<Rightarrow> string \<Rightarrow> reducer \<Rightarrow> active_permission option \<Rightarrow> room_permission_action list \<Rightarrow> bool"
  for f ellipsis where
  opened: "reachable f r \<Longrightarrow> shelf_run f ellipsis r (sync_shelf ellipsis r None) []"
| event: "shelf_run f ellipsis r shelf acts \<Longrightarrow> apply_event f e r = (Ok d, r') \<Longrightarrow>
    shelf_run f ellipsis r'
      (if has_event_id r (ev_event_id e) then shelf else sync_shelf ellipsis r' shelf) acts"
| painted: "shelf_run f ellipsis r (Some active) acts \<Longrightarrow>
    shelf_run f ellipsis r (Some (render_shelf cn width height active)) acts"
| key: "shelf_run f ellipsis r shelf acts \<Longrightarrow> route_permission_key draft k shelf = (route, shelf') \<Longrightarrow>
    shelf_run f ellipsis r shelf' (acts @ route_actions route)"

fun action_ask :: "room_permission_action \<Rightarrow> string" where
  "action_ask (SelectOption ask_id _) = ask_id"
| "action_ask (Deny ask_id) = ask_id"

text \<open>An answer the permission allows: one of its options, or a denial when it has none.\<close>

fun allowed :: "permission_state \<Rightarrow> room_permission_action \<Rightarrow> bool" where
  "allowed p (SelectOption _ option_id) = (option_id \<noteq> [] \<and> option_id \<in> po_option_id ` set (pm_options p))"
| "allowed p (Deny _) = (pm_options p = [])"

definition choices_of :: "permission_state \<Rightarrow> local_choice list" where
  "choices_of p = (if pm_options p = [] then [ChooseDeny] else map (ChooseOption \<circ> po_option_id) (pm_options p))"

text \<open>What the shelf shows is a pending permission of the reducer, with its own choices.\<close>

definition shows_pending :: "reducer \<Rightarrow> active_permission \<Rightarrow> bool" where
  "shows_pending r active \<longleftrightarrow>
     (\<exists>p. permission r (ap_ask_id active) = Some p \<and> pm_outcome p = None \<and> ap_choices active = choices_of p)"

definition answered_ok :: "reducer \<Rightarrow> active_permission option \<Rightarrow> room_permission_action \<Rightarrow> bool" where
  "answered_ok r shelf a \<longleftrightarrow>
     (\<exists>p. permission r (action_ask a) = Some p \<and> allowed p a
        \<and> (pm_outcome p \<noteq> None \<or> (\<exists>active. shelf = Some active \<and> ap_ask_id active = action_ask a \<and> ap_submitted active)))"

definition shelf_inv ::
  "(string \<Rightarrow> bool) \<Rightarrow> reducer \<Rightarrow> active_permission option \<Rightarrow> room_permission_action list \<Rightarrow> bool" where
  "shelf_inv f r shelf acts \<longleftrightarrow>
     reachable f r \<and> (\<forall>active. shelf = Some active \<longrightarrow> shows_pending r active)
     \<and> list_all (answered_ok r shelf) acts \<and> distinct (map action_ask acts)"

lemma pending_iff:
  assumes "reachable f r"
  shows "list_ex (\<lambda>ask. pm_ask_id ask = k) (pending_permissions r) \<longleftrightarrow>
    (\<exists>p. permission r k = Some p \<and> pm_outcome p = None)"
proof -
  have "indexed pm_ask_id (permission_indices r) (permissions r)"
    using tables_okD(5) [OF room_wfD(1) [OF reachable_room_wf [OF assms]]] .
  from permission_log.find_iff [OF this] show ?thesis
    by (auto simp: permission_def pending_permissions_def list_ex_iff)
qed

lemma open_ask_shows:
  assumes "reachable f r" "pending_permissions r = ask # rest"
  shows "shows_pending r (open_ask ellipsis ask)"
proof -
  have "indexed pm_ask_id (permission_indices r) (permissions r)"
    using tables_okD(5) [OF room_wfD(1) [OF reachable_room_wf [OF assms(1)]]] .
  moreover have "ask \<in> set (pending_permissions r)" using assms(2) by simp
  ultimately show ?thesis
    using permission_log.find_iff [of r "pm_ask_id ask" ask]
    by (auto simp: shows_pending_def open_ask_def choices_of_def permission_def pending_permissions_def)
qed

text \<open>Synchronising keeps the shelf, or opens the next ask once the old one is answered.\<close>

lemma sync_shelf_cases:
  assumes "reachable f r"
  obtains (kept) active where "shelf = Some active" "sync_shelf ellipsis r shelf = shelf"
      "\<exists>p. permission r (ap_ask_id active) = Some p \<and> pm_outcome p = None"
    | (moved) "\<And>active. shelf = Some active \<Longrightarrow> \<nexists>p. permission r (ap_ask_id active) = Some p \<and> pm_outcome p = None"
      "\<And>active. sync_shelf ellipsis r shelf = Some active \<Longrightarrow> shows_pending r active \<and> \<not> ap_submitted active"
proof (cases "case shelf of None \<Rightarrow> False
    | Some active \<Rightarrow> list_ex (\<lambda>ask. pm_ask_id ask = ap_ask_id active) (pending_permissions r)")
  case True
  then show thesis
    using kept pending_iff [OF assms] by (auto simp: sync_shelf_def Let_def split: option.splits)
next
  case False
  then have "sync_shelf ellipsis r shelf = (case pending_permissions r of [] \<Rightarrow> None | ask # _ \<Rightarrow> Some (open_ask ellipsis ask))"
    by (simp add: sync_shelf_def Let_def)
  then have "shows_pending r active \<and> \<not> ap_submitted active" if "sync_shelf ellipsis r shelf = Some active" for active
    using that open_ask_shows [OF assms, of _ _ ellipsis] by (auto simp: open_ask_def split: list.splits)
  moreover have "\<nexists>p. permission r (ap_ask_id active) = Some p \<and> pm_outcome p = None" if "shelf = Some active" for active
    using False that pending_iff [OF assms] by auto
  ultimately show thesis by (rule moved [rotated])
qed

text \<open>An answer is for the ask shown, and marks it answered.\<close>

lemma submit_active_cases:
  assumes "submit_active active = (x, active')" "shows_pending r active"
  shows "ap_ask_id active' = ap_ask_id active \<and> ap_choices active' = ap_choices active
    \<and> (case x of
         None \<Rightarrow> active' = active
       | Some a \<Rightarrow> \<not> ap_submitted active \<and> ap_submitted active' \<and> action_ask a = ap_ask_id active
           \<and> (\<exists>p. permission r (ap_ask_id active) = Some p \<and> allowed p a)
           \<and> ap_active_idx active \<in> set (ap_visible_choices active))"
proof -
  from assms(2) obtain p where p: "permission r (ap_ask_id active) = Some p" "ap_choices active = choices_of p"
    by (auto simp: shows_pending_def)
  have choice: "ap_active_idx active < length (ap_choices active) \<Longrightarrow>
      case ap_choices active ! ap_active_idx active of
        ChooseOption i \<Rightarrow> i \<in> po_option_id ` set (pm_options p) | ChooseDeny \<Rightarrow> pm_options p = []"
    using p(2) by (auto simp: choices_of_def split: if_splits)
  with assms(1) p(1) show ?thesis
    by (auto simp: submit_active_def split: if_splits local_choice.splits)
qed

definition answer_for :: "string \<Rightarrow> local_choice \<Rightarrow> room_permission_action" where
  "answer_for ask_id c = (case c of ChooseOption i \<Rightarrow> SelectOption ask_id i | ChooseDeny \<Rightarrow> Deny ask_id)"

definition answers_once :: "reducer \<Rightarrow> active_permission \<Rightarrow> active_permission \<Rightarrow> room_permission_action list \<Rightarrow> bool" where
  "answers_once r active active' acts \<longleftrightarrow>
     ap_ask_id active' = ap_ask_id active \<and> ap_choices active' = ap_choices active
     \<and> (acts = [] \<and> ap_submitted active' = ap_submitted active
        \<or> (\<exists>a i p. acts = [a] \<and> \<not> ap_submitted active \<and> ap_submitted active' \<and> action_ask a = ap_ask_id active
            \<and> permission r (ap_ask_id active) = Some p \<and> allowed p a
            \<and> i \<in> set (ap_visible_choices active) \<and> i < length (ap_choices active)
            \<and> a = answer_for (ap_ask_id active) (ap_choices active ! i)))"

lemma submit_answer:
  assumes "submit_active active = (Some a, active')"
  shows "ap_active_idx active < length (ap_choices active)
    \<and> a = answer_for (ap_ask_id active) (ap_choices active ! ap_active_idx active)"
  using assms by (auto simp: submit_active_def answer_for_def split: if_splits local_choice.splits)

lemma action_routed:
  assumes "action_route (submit_active active1) = (route, shelf')" "shows_pending r active1"
    and "ap_ask_id active1 = ap_ask_id active" "ap_choices active1 = ap_choices active"
      "ap_submitted active1 = ap_submitted active" "ap_visible_choices active1 = ap_visible_choices active"
  shows "\<exists>active'. shelf' = Some active' \<and> answers_once r active active' (route_actions route)"
proof -
  obtain x active' where x: "submit_active active1 = (x, active')" by fastforce
  from submit_active_cases [OF x assms(2)] have same: "ap_ask_id active' = ap_ask_id active1" "ap_choices active' = ap_choices active1"
    and rest: "case x of None \<Rightarrow> active' = active1
       | Some a \<Rightarrow> \<not> ap_submitted active1 \<and> ap_submitted active' \<and> action_ask a = ap_ask_id active1
           \<and> (\<exists>p. permission r (ap_ask_id active1) = Some p \<and> allowed p a)
           \<and> ap_active_idx active1 \<in> set (ap_visible_choices active1)" by simp_all
  show ?thesis
  proof (cases x)
    case None
    with x assms rest same show ?thesis by (auto simp: action_route_def route_actions_def answers_once_def)
  next
    case (Some a)
    note answer = submit_answer [OF x [unfolded Some]]
    from x Some assms(1) have "shelf' = Some active'" "route_actions route = [a]"
      by (auto simp: action_route_def route_actions_def)
    with Some rest same answer assms(3-) show ?thesis
      unfolding answers_once_def by (intro exI [of _ active']) auto
  qed
qed

lemma idle_answers_once:
  assumes "ap_ask_id active' = ap_ask_id active" "ap_choices active' = ap_choices active" "ap_submitted active' = ap_submitted active"
  shows "answers_once r active active' []"
  using assms by (simp add: answers_once_def)

lemma route_answers_once:
  assumes "route_permission_key draft k (Some active) = (route, shelf')" "shows_pending r active"
  shows "\<exists>active'. shelf' = Some active' \<and> answers_once r active active' (route_actions route)"
proof -
  define active1 where "active1 = focused_by k active"
  have same: "ap_ask_id active1 = ap_ask_id active" "ap_choices active1 = ap_choices active"
    "ap_submitted active1 = ap_submitted active" "ap_visible_choices active1 = ap_visible_choices active"
    by (simp_all add: active1_def focused_by_def)
  then have shows1: "shows_pending r (active1\<lparr>ap_active_idx := n\<rparr>)" "shows_pending r active1" for n
    using assms(2) by (simp_all add: shows_pending_def)
  have digit: "\<exists>active'. shelf' = Some active' \<and> answers_once r active active' (route_actions route)"
    if "action_route (select_visible_digit d active1) = (route, shelf')" for d
  proof (cases "d = 0 \<or> d - 1 \<notin> set (ap_visible_choices active1)")
    case True
    with that have "shelf' = Some active1" "route_actions route = []"
      by (auto simp: select_visible_digit_def action_route_def route_actions_def split: if_splits)
    with same show ?thesis by (auto intro: idle_answers_once)
  next
    case False
    with that have "action_route (submit_active (active1\<lparr>ap_active_idx := d - 1\<rparr>)) = (route, shelf')"
      by (simp add: select_visible_digit_def)
    from action_routed [OF this shows1(1)] same show ?thesis by simp
  qed
  have focused: "\<exists>active'. shelf' = Some active' \<and> answers_once r active active' (route_actions route)"
    if "action_route (shelf_key k active1) = (route, shelf')"
  proof (cases "shelf_key k active1 = submit_active active1")
    case True
    with that action_routed [OF _ shows1(2)] same show ?thesis by simp
  next
    case False
    then obtain n where "shelf_key k active1 = (None, active1\<lparr>ap_active_idx := n\<rparr>) \<or> shelf_key k active1 = (None, active1)"
      by (auto simp: shelf_key_def split: if_splits)
    with that have "\<exists>m. shelf' = Some (active1\<lparr>ap_active_idx := m\<rparr>) \<or> shelf' = Some active1" "route_actions route = []"
      by (auto simp: action_route_def route_actions_def)
    with same show ?thesis by (auto simp: idle_answers_once)
  qed
  have passed: "\<exists>active'. shelf' = Some active' \<and> answers_once r active active' (route_actions route)"
    if "route \<in> {NotHandled, KeyConsumed}" "shelf' = Some active2" "ap_ask_id active2 = ap_ask_id active"
      "ap_choices active2 = ap_choices active" "ap_submitted active2 = ap_submitted active" for active2
    using that by (auto simp: route_actions_def intro: idle_answers_once)
  consider (other) active2 where "route \<in> {NotHandled, KeyConsumed}" "shelf' = Some active2"
        "active2 \<in> {active, active\<lparr>ap_focused := False\<rparr>, active1, active1\<lparr>ap_focused := False\<rparr>}"
    | (by_digit) d where "action_route (select_visible_digit d active1) = (route, shelf')"
    | (by_focus) "action_route (shelf_key k active1) = (route, shelf')"
    using assms(1) unfolding route_permission_key_def option.case active1_def [symmetric] Let_def
    by (auto split: if_splits)
  then show ?thesis
  proof cases
    case other
    with same show ?thesis by (intro passed [OF other(1,2)]) auto
  qed (fact digit, fact focused)
qed

lemma answered_ok_kept:
  assumes "answered_ok r shelf a" "permissions_kept r r'"
    and "\<And>active. shelf = Some active \<Longrightarrow> shelf' = Some active
      \<or> (\<nexists>p. permission r' (ap_ask_id active) = Some p \<and> pm_outcome p = None)"
  shows "answered_ok r' shelf' a"
proof -
  from assms(1) obtain p where p: "permission r (action_ask a) = Some p" "allowed p a"
    and over: "pm_outcome p \<noteq> None \<or> (\<exists>active. shelf = Some active \<and> ap_ask_id active = action_ask a \<and> ap_submitted active)"
    by (auto simp: answered_ok_def)
  from assms(2) p(1) obtain p' where p': "permission r' (action_ask a) = Some p'" "pm_options p' = pm_options p"
    "pm_outcome p \<noteq> None \<longrightarrow> p' = p"
    unfolding permissions_kept_def by blast
  have "allowed p' a" using p(2) p'(2) by (cases a) auto
  with p' over assms(3) show ?thesis by (fastforce simp: answered_ok_def)
qed

lemma shelf_inv_event:
  assumes inv: "shelf_inv f r shelf acts" and e: "apply_event f e r = (Ok d, r')"
  shows "shelf_inv f r' (if has_event_id r (ev_event_id e) then shelf else sync_shelf ellipsis r' shelf) acts"
proof -
  have r: "reachable f r" using inv by (simp add: shelf_inv_def)
  then have r': "reachable f r'" using e by (rule reachable.applied)
  have "apply_all f [e] r = Some r'" using e by (simp add: apply_all_Cons)
  then have kept: "permissions_kept r r'" by (rule permissions_kept_run [OF r])
  show ?thesis
  proof (cases "has_event_id r (ev_event_id e)")
    case True
    with r e have "r' = r" by (cases rule: apply_event_reachable_cases) (auto simp: has_event_id_def)
    with True inv show ?thesis by simp
  next
    case False
    have still: "shows_pending r' active"
      if "shelf = Some active" "\<exists>p. permission r' (ap_ask_id active) = Some p \<and> pm_outcome p = None" for active
    proof -
      from that(1) inv obtain p where p: "permission r (ap_ask_id active) = Some p" "ap_choices active = choices_of p"
        by (auto simp: shelf_inv_def shows_pending_def)
      with kept obtain p' where "permission r' (ap_ask_id active) = Some p'" "pm_options p' = pm_options p"
        unfolding permissions_kept_def by blast
      with p(2) that(2) show ?thesis by (auto simp: shows_pending_def choices_of_def)
    qed
    from r' have "(\<forall>active. sync_shelf ellipsis r' shelf = Some active \<longrightarrow> shows_pending r' active)
        \<and> (\<forall>active. shelf = Some active \<longrightarrow> sync_shelf ellipsis r' shelf = Some active
            \<or> (\<nexists>p. permission r' (ap_ask_id active) = Some p \<and> pm_outcome p = None))"
      by (cases rule: sync_shelf_cases [where shelf = shelf and ellipsis = ellipsis]) (use still in auto)
    with inv kept r' False show ?thesis
      by (auto simp: shelf_inv_def list_all_iff intro: answered_ok_kept)
  qed
qed

lemma shelf_inv_key:
  assumes inv: "shelf_inv f r shelf acts" and k: "route_permission_key draft k shelf = (route, shelf')"
  shows "shelf_inv f r shelf' (acts @ route_actions route)"
proof (cases shelf)
  case None
  with k inv show ?thesis by (simp add: route_permission_key_def route_actions_def)
next
  case (Some active)
  with inv have "shows_pending r active" by (simp add: shelf_inv_def)
  from route_answers_once [OF k [unfolded Some] this] obtain active' where
    shelf': "shelf' = Some active'" and once: "answers_once r active active' (route_actions route)" by blast
  then have same: "ap_ask_id active' = ap_ask_id active" "ap_choices active' = ap_choices active"
    by (simp_all add: answers_once_def)
  have kept: "answered_ok r shelf' a" if "a \<in> set acts" for a
    using that inv once Some shelf' same by (auto simp: shelf_inv_def list_all_iff answered_ok_def answers_once_def)
  have "action_ask a \<noteq> ap_ask_id active" if "\<not> ap_submitted active" "a \<in> set acts" for a
    using that inv Some by (auto simp: shelf_inv_def list_all_iff answered_ok_def shows_pending_def)
  then show ?thesis
    using inv once Some shelf' same kept
    by (auto simp: shelf_inv_def list_all_iff shows_pending_def answers_once_def answered_ok_def)
qed

lemma shelf_run_inv: "shelf_run f ellipsis r shelf acts \<Longrightarrow> shelf_inv f r shelf acts"
proof (induction rule: shelf_run.induct)
  case (opened r)
  then show ?case
    by (cases rule: sync_shelf_cases [OF opened, where shelf = None and ellipsis = ellipsis]) (auto simp: shelf_inv_def)
next
  case (event r shelf acts e d r')
  then show ?case by (intro shelf_inv_event)
next
  case (painted r active acts cn width height)
  then show ?case
    by (auto simp: shelf_inv_def shows_pending_def list_all_iff answered_ok_def render_shelf_def)
next
  case (key r shelf acts draft k route shelf')
  then show ?case by (intro shelf_inv_key)
qed

text \<open>A frame paints options of the ask, in order.\<close>

lemma painted_options_less: "i \<in> set (painted_options cn active available first used index xs) \<Longrightarrow>
  index \<le> i \<and> i < index + length xs"
  by (induction xs arbitrary: first used index) (fastforce simp: Let_def split: if_splits)+

end
