(* ===== verification/Pager_Sample.thy ===== *)
theory Pager_Sample
  imports Room_Sample Pager_Cancel Pager_Permission
begin

section \<open>Concrete rooms for the terminal\<close>

text \<open>
  \<open>busy_reducer\<close> has a running lane; in \<open>cancelled_turn\<close> a running lane is cancelled and its turn
  completes.
\<close>

definition streaming :: "room_event list" where
  "streaming = first_events @
     [sample_event ''4'' ''lane.started''
        [(''agent'', JString ''claude''), (''laneId'', JString ''l''), (''streamId'', JString ''x'')]]"

definition cancelled_turn :: "room_event list" where
  "cancelled_turn = streaming @
     [sample_event ''5'' ''lane.cancelled''
        [(''agent'', JString ''claude''), (''laneId'', JString ''l''), (''streamId'', JString ''x'')],
      sample_event ''6'' ''turn.completed'' []]"

lemma streaming_facts:
  "case apply_all (\<lambda>_. True) streaming new_reducer of None \<Rightarrow> False | Some r \<Rightarrow> lane_busy r None"
  unfolding streaming_def first_events_def new_reducer_def
  by (simp add: event_eval handler_eval lane_busy_def ordered_lanes_def)

lemma cancelled_facts:
  "case apply_all (\<lambda>_. True) cancelled_turn new_reducer of None \<Rightarrow> False | Some r \<Rightarrow>
     turn_settled r ''t'' \<and> turn_was_cancelled r ''t'' \<and> \<not> lane_busy r None"
  unfolding cancelled_turn_def streaming_def first_events_def new_reducer_def
  by (simp add: event_eval handler_eval cancel_lane_def lane_busy_def ordered_lanes_def
      turn_settled_def turn_was_cancelled_def turn_has_lane_def)

lemma terminal_conversations: "accepts streaming" "accepts cancelled_turn"
  using streaming_facts cancelled_facts by (auto simp: accepts_def split: option.splits)

lemmas busy_room = streaming_facts [unfolded room_after_run [OF terminal_conversations(1)] option.case]
lemmas cancelled_room = cancelled_facts [unfolded room_after_run [OF terminal_conversations(2)] option.case]

text \<open>The panic button's room at the start of a gesture, and the key.\<close>

definition ctrl_c :: key_event where
  "ctrl_c = \<lparr>ke_code = key_char CHR ''c'', ke_modifiers = {ModControl}, ke_kind = KeyPress\<rparr>"

definition panicking :: panic_room where
  "panicking = \<lparr>pr_reducer = room_after streaming, pr_draft = '''', pr_quit_armed_until = None,
     pr_gesture = no_gesture, pr_claim = ClaimIdle, pr_wire = [], pr_wire_open = True\<rparr>"

lemma ctrl_c_is: "is_ctrl_c ctrl_c" "\<not> is_ctrl_c_release ctrl_c"
  by (simp_all add: is_ctrl_c_def is_ctrl_c_release_def ctrl_c_def)

lemma first_press:
  "route_ctrl_c_key ComposerOwner 0 ctrl_c panicking =
     (Ok CtrlCConsumed, panicking\<lparr>pr_gesture := \<lparr>cg_latest = Some 0, cg_key_downs = 1\<rparr>,
        pr_quit_armed_until := Some QUIT_CONFIRM_WINDOW, pr_wire := [1], pr_claim := ClaimAsked 1\<rparr>)"
  using busy_room
  by (simp add: route_ctrl_c_key_def before_route_def ctrl_c_is reconcile_quit_arm_at_def route_ctrl_c_at_def
      panicking_def no_gesture_def key_down_def opened_the_gesture_def quit_is_armed_at_def request_cancel_all_def
      claim_ask_def saturating_inc_def CANCEL_CHANNEL_CAPACITY_def Let_def)

text \<open>A composer whose prompt is text and whose stash replaces it.\<close>

definition plain_composer :: "(string, string) composer" where
  "plain_composer = \<lparr>cm_text = id, cm_restore = (\<lambda>stash _. stash)\<rparr>"

definition plain_widget :: "(string, string) prompt_widget" where
  "plain_widget =
     \<lparr>pw_composer = plain_composer, pw_set_text = (\<lambda>t _. t), pw_stash = (\<lambda>p. (p, p)), pw_cursor = length,
      pw_set_cursor = (\<lambda>_ p. p), pw_refresh_slash = id,
      pw_fill_completion = (\<lambda>(i, j) t p. (True, take i p @ t @ drop j p)),
      pw_slash_open = (\<lambda>_. False), pw_slash_move = (\<lambda>_ p. p), pw_accept_slash = (\<lambda>p. (False, p)), pw_slash_close = id,
      pw_file_search_visible = (\<lambda>_. False), pw_clear_file_context = id,
      pw_route_enter = (\<lambda>k p. (if ke_code k = KeyEnter \<and> ke_modifiers k = {} then EnterSubmit else PassThrough, p)),
      pw_handle_key = (\<lambda>k p. case ke_code k of KeyChar c \<Rightarrow> p @ [char_of c] | _ \<Rightarrow> p),
      pw_try_send = (\<lambda>p. (if trim p = [] then None else Some p, p))\<rparr>"

definition empty_room :: "(string, string) restore_room" where
  "empty_room = \<lparr>rm_reducer = room_after cancelled_turn, rm_prompt = '''', rm_pending = no_restores, rm_notices = []\<rparr>"

definition holding_room :: "(string, string) restore_room" where
  "holding_room = snd (hold_submission ''hello'' empty_room)"

lemma held_one:
  "hold_submission ''hello'' empty_room = (0, holding_room)"
  "rm_pending holding_room = \<lparr>pd_entries = [\<lparr>rs_id = 0, rs_stash = ''hello'', rs_turn_id = None\<rparr>], pd_next_id = 1\<rparr>"
  "rm_prompt holding_room = ''''" "rm_reducer holding_room = room_after cancelled_turn"
  by (simp_all add: hold_submission_def submitted_def empty_room_def no_restores_def MAX_PENDING_RESTORES_def
      holding_room_def outcome_notices_def default_outcome_def)

lemma restored_one: "rm_prompt (apply_submit_settled plain_composer 0 (Some ''t'') holding_room) = ''hello''"
  using cancelled_room
  by (simp add: apply_submit_settled_def bind_submission_def held_one settle_room_def settle_alt owed_def unsettled_def
      plain_composer_def trim_empty_iff chars_def Let_def)

lemma holding_run: "restore_run plain_composer (\<lambda>_. True) holding_room [(0, ''hello'')] {}"
proof -
  have "restore_run plain_composer (\<lambda>_. True) empty_room [] {}"
    by (rule restore_run.began) (simp add: empty_room_def)
  from restore_run.held [OF this held_one(1)] show ?thesis by simp
qed

text \<open>A permission the shelf can show.\<close>

definition waiting_ask :: "room_event list" where
  "waiting_ask = streaming @
     [sample_event ''5'' ''permission.requested''
        [(''agent'', JString ''claude''), (''askId'', JString ''a''),
         (''options'', JArray [JObject [(''optionId'', JString ''yes'')]])]]"

lemma waiting_facts_ask:
  "case apply_all (\<lambda>_. True) waiting_ask new_reducer of None \<Rightarrow> False | Some r \<Rightarrow>
     map (\<lambda>p. (pm_ask_id p, pm_agent p, pm_tool_title p, map po_option_id (pm_options p))) (pending_permissions r)
       = [(''a'', ''claude'', None, [''yes''])]"
  unfolding waiting_ask_def streaming_def first_events_def new_reducer_def
  by (simp add: event_eval handler_eval pending_permissions_def)

lemma ask_accepted: "accepts waiting_ask"
  using waiting_facts_ask by (auto simp: accepts_def split: option.splits)

lemmas ask_room = waiting_facts_ask [unfolded room_after_run [OF ask_accepted] option.case]

definition plain_console :: console where
  "plain_console = \<lparr>cn_width = length, cn_char_width = length, cn_ellipsis = ''.'', cn_focus = ''>''\<rparr>"

definition digit_one :: key_event where
  "digit_one = \<lparr>ke_code = key_char CHR ''1'', ke_modifiers = {}, ke_kind = KeyPress\<rparr>"

text \<open>The shelf opens, is painted, and the digit answers.\<close>

definition shown_ask :: active_permission where
  "shown_ask = the (sync_shelf ''.'' (room_after waiting_ask) None)"

lemma shown_ask_facts:
  "sync_shelf ''.'' (room_after waiting_ask) None = Some shown_ask" "ap_ask_id shown_ask = ''a''"
  "ap_choices shown_ask = [ChooseOption ''yes'']" "\<not> ap_submitted shown_ask" "\<not> ap_focused shown_ask"
  "\<exists>x. ap_options shown_ask = [x]"
proof -
  from ask_room obtain p x where p: "pending_permissions (room_after waiting_ask) = [p]" "pm_ask_id p = ''a''"
    "pm_options p = [x]" "po_option_id x = ''yes''"
    by auto
  then have s: "sync_shelf ''.'' (room_after waiting_ask) None = Some (open_ask ''.'' p)"
    by (simp add: sync_shelf_def)
  then have eq: "shown_ask = open_ask ''.'' p" by (simp add: shown_ask_def)
  show "sync_shelf ''.'' (room_after waiting_ask) None = Some shown_ask" "ap_ask_id shown_ask = ''a''"
    "ap_choices shown_ask = [ChooseOption ''yes'']" "\<not> ap_submitted shown_ask" "\<not> ap_focused shown_ask"
    "\<exists>x. ap_options shown_ask = [x]"
    unfolding eq using s p by (simp_all add: open_ask_def shelf_option_of_def)
qed

lemma digit_answers:
  "\<exists>shelf. route_permission_key '''' digit_one (Some (render_shelf plain_console 40 3 shown_ask))
    = (KeyAction (SelectOption ''a'' ''yes''), shelf)"
proof -
  from shown_ask_facts(6) obtain x where x: "ap_options shown_ask = [x]" by blast
  have "ap_visible_choices (render_shelf plain_console 40 3 shown_ask) = [0]"
    using shown_ask_facts x by (simp add: render_shelf_def plain_console_def show_nat.simps [of "Suc 0"] digit_char_def digit_literals Let_def)
  then show ?thesis
    using shown_ask_facts
    by (simp add: route_permission_key_def digit_one_def is_shift_tab_def permission_digit_def focused_by_def
        has_visible_digit_def select_visible_digit_def submit_active_def action_route_def render_shelf_def Let_def)
qed

end
