(* ===== verification/Pager_Feed.thy ===== *)
theory Pager_Feed
  imports Pager_Bridge "HOL-Library.Sublist"
begin

section \<open>The room misses nothing\<close>

text \<open>
  The room starts from a snapshot of the host's reducer and applies what the event pump sends it.
  A receiver that lags behind the broadcast loses events and recovers them with a resync; the room
  then sees some events twice. \<open>pump_run\<close> is everything this can come to, next to a running host;
  its invariant is that the room is always the plain replay of a prefix of the journal that holds
  at least what the receiver has passed.
\<close>

lemma extends_unique: "extends f b es r1 \<Longrightarrow> extends f b es r2 \<Longrightarrow> r1 = r2"
  by (simp add: extends_def)

lemma prefix_replay:
  assumes "reachable f b" "extends f b G rG"
  shows "\<exists>r. extends f b (take m G) r"
  using extends_appendE [OF assms(1), of "take m G" "drop m G" rG] assms(2) by auto

text \<open>Replaying a segment that begins inside the prefix a room already has.\<close>

lemma segment_replay:
  assumes b: "reachable f b" and G: "extends f b G rG" and r: "extends f b (take m G) r"
    and v: "v \<le> m" "m \<le> length G"
  shows "\<exists>r'. apply_all f (drop v (take w G)) r = Some r' \<and> extends f b (take (max m w) G) r'"
proof -
  have reach: "reachable f r" by (rule extends_reachable [OF b r])
  have known: "steps (accept f) es r = Some r" if "set es \<subseteq> set (take m G)" for es
    using extends_run [OF b r] that by (intro journal.run_seen [OF reach]) blast
  show ?thesis
  proof (cases "w \<le> m")
    case True
    have "set (drop v (take w G)) \<subseteq> set (take m G)"
      using set_drop_subset [of v "take w G"] set_take_subset_set_take [OF True, of G] by (rule subset_trans)
    with True r show ?thesis by (auto simp: apply_all_steps known max_absorb1)
  next
    case False
    then have split: "take w G = take m G @ drop m (take w G)"
      using append_take_drop_id [of m "take w G"] by (simp add: min_absorb1)
    obtain rw where "extends f b (take w G) rw" using prefix_replay [OF b G] by blast
    with split extends_appendE [OF b, of "take m G" "drop m (take w G)" rw]
    obtain r1 where r1: "extends f b (take m G) r1" "extends f r1 (drop m (take w G)) rw" by metis
    then have "r1 = r" by (metis extends_unique r)
    have "drop v (take w G) = drop v (take m G) @ drop m (take w G)"
      using v by (subst split) simp
    then have "steps (accept f) (drop v (take w G)) r = Some rw"
      using r1(2) \<open>r1 = r\<close> known [of "drop v (take m G)"] set_drop_subset [of v "take m G"]
      by (simp add: steps_append extends_def)
    with False \<open>extends f b (take w G) rw\<close> show ?thesis by (auto simp: apply_all_steps max_absorb2)
  qed
qed

subsection \<open>The run\<close>

fun room_events :: "room_update list \<Rightarrow> room_event list" where
  "room_events [] = []"
| "room_events (Event e # us) = e # room_events us"
| "room_events (_ # us) = room_events us"

lemma room_events_map [simp]: "room_events (map Event es) = es"
  by (induction es) simp_all

text \<open>
  A resync serves the journal: it returns what follows the given number, at least as far as the
  \<open>n\<close> events broadcast so far.
\<close>

definition serves_journal :: "room_event list \<Rightarrow> nat \<Rightarrow> (string \<Rightarrow> (host_error, room_event list) result) \<Rightarrow> bool" where
  "serves_journal G n resynced \<longleftrightarrow>
     (\<forall>s replay. resynced s = Ok replay \<longrightarrow> (\<exists>w. n \<le> w \<and> replay = drop (dec_value s) (take w G)))"

inductive pump_run ::
  "host_env \<Rightarrow> room_event list \<Rightarrow> string \<Rightarrow> host_inner \<Rightarrow> event_receiver \<Rightarrow> reducer option \<Rightarrow> bool \<Rightarrow> bool"
  for env G sid where
  opened: "reachable_host env h0 \<Longrightarrow> host_steps env h0 h \<Longrightarrow> tr_phase (hi_transport h) = Live \<Longrightarrow>
    map_option ev_session_id (tr_readiness (hi_transport h)) = Some sid \<Longrightarrow> prefix (room_feed h) G \<Longrightarrow>
    pump_run env G sid h (subscribe_events (hi_events h0)) (Some (tr_reducer (hi_transport h))) True"
| moved: "pump_run env G sid h rc room on \<Longrightarrow> host_steps env h h' \<Longrightarrow> prefix (room_feed h') G \<Longrightarrow>
    pump_run env G sid h' rc room on"
| pumped: "pump_run env G sid h rc room True \<Longrightarrow> serves_journal G (length (room_feed h)) resynced \<Longrightarrow>
    recv (hi_events h) alive rc = Some (received, rc') \<Longrightarrow> pump_updates resynced received = (us, on) \<Longrightarrow>
    pump_run env G sid h rc' (Option.bind room (apply_all (en_rfc3339 env) (room_events us))) on"

text \<open>How many room events lie before a place of the broadcast.\<close>

definition passed :: "host_event list \<Rightarrow> nat \<Rightarrow> nat" where
  "passed events p = length (concat (map room_part (take p events)))"

definition reached :: "event_receiver \<Rightarrow> nat" where
  "reached rc = dec_value (case rc_last rc of None \<Rightarrow> ''0'' | Some s \<Rightarrow> s)"

definition feed_inv_at ::
  "host_env \<Rightarrow> room_event list \<Rightarrow> string \<Rightarrow> host_inner \<Rightarrow> event_receiver \<Rightarrow> reducer option \<Rightarrow> bool \<Rightarrow> bool" where
  "feed_inv_at env G sid h rc room on \<longleftrightarrow>
     reachable_host env h \<and> prefix (room_feed h) G \<and> rc_position rc \<le> length (hi_events h)
     \<and> reached rc \<le> passed (hi_events h) (rc_position rc)
     \<and> (\<exists>m r. room = Some r \<and> (on \<longrightarrow> passed (hi_events h) (rc_position rc) \<le> m) \<and> m \<le> length G
          \<and> extends (en_rfc3339 env) (bound_room (Some sid)) (take m G) r)"

lemma passed_all: "passed (hi_events h) (length (hi_events h)) = length (room_feed h)"
  by (simp add: passed_def room_feed_def)

lemma passed_mono: "p \<le> q \<Longrightarrow> passed events p \<le> passed events q"
proof -
  assume "p \<le> q"
  then obtain d where "q = p + d" by (auto simp: le_iff_add)
  then show ?thesis by (simp add: passed_def take_add)
qed

lemma passed_grows: "p \<le> length events \<Longrightarrow> passed (events @ new) p = passed events p"
  by (simp add: passed_def)

lemma passed_Suc:
  "p < length events \<Longrightarrow> passed events (Suc p) = passed events p + length (room_part (events ! p))"
  by (simp add: passed_def take_Suc_conv_app_nth)

text \<open>The room event at a place is the next one of the feed.\<close>

lemma event_at:
  assumes "p < length (hi_events h)" "hi_events h ! p = HostRoom e"
  shows "passed (hi_events h) p < length (room_feed h) \<and> room_feed h ! passed (hi_events h) p = e"
proof -
  have "room_feed h = concat (map room_part (take p (hi_events h))) @ room_part (hi_events h ! p)
      @ concat (map room_part (drop (Suc p) (hi_events h)))"
    using arg_cong [OF id_take_nth_drop [OF assms(1)], of "\<lambda>es. concat (map room_part es)"]
    by (simp add: room_feed_def)
  with assms(2) show ?thesis by (simp add: passed_def nth_append)
qed

lemma feed_inv_moved:
  assumes "feed_inv_at env G sid h rc room on" "host_steps env h h'" "prefix (room_feed h') G" "sizes_ok (en_event_size env)"
  shows "feed_inv_at env G sid h' rc room on"
proof -
  have "reachable_host env h" using assms(1) by (simp add: feed_inv_at_def)
  from steps_grow [OF assms(2) this assms(4)] obtain new where "hi_events h' = hi_events h @ new"
    by (auto simp: grows_def)
  with assms steps_reachable [OF assms(2)] show ?thesis by (simp add: feed_inv_at_def passed_grows)
qed

lemma feed_inv_opened:
  assumes "reachable_host env h0" "host_steps env h0 h" "tr_phase (hi_transport h) = Live"
    and "map_option ev_session_id (tr_readiness (hi_transport h)) = Some sid"
    and "prefix (room_feed h) G" "sizes_ok (en_event_size env)"
  shows "feed_inv_at env G sid h (subscribe_events (hi_events h0)) (Some (tr_reducer (hi_transport h))) True"
proof -
  have h: "reachable_host env h" by (rule steps_reachable [OF assms(2,1)])
  from steps_grow [OF assms(2,1,6)] obtain new where new: "hi_events h = hi_events h0 @ new"
    by (auto simp: grows_def)
  have "extends (en_rfc3339 env) (bound_room (Some sid)) (room_feed h) (tr_reducer (hi_transport h))"
    using feed_always [OF h assms(6)] assms(3,4) by (auto simp: feed_ok_def delivered_def)
  moreover have "take (length (room_feed h)) G = room_feed h" using assms(5) by (auto simp: prefix_def)
  moreover have "passed (hi_events h) (length (hi_events h0)) \<le> length (room_feed h)"
    using passed_mono [of "length (hi_events h0)" "length (hi_events h)"] new by (simp flip: passed_all)
  ultimately show ?thesis
    using h assms(5) new prefix_length_le [OF assms(5)]
    by (auto simp: feed_inv_at_def subscribe_events_def reached_def digit_val_def intro!: exI [of _ "length (room_feed h)"])
qed

text \<open>What the room reads is applied, and the invariant follows the receiver.\<close>

lemma feed_inv_segment:
  assumes inv: "feed_inv_at env G sid h rc room True"
    and G: "extends (en_rfc3339 env) (bound_room (Some sid)) G rG"
    and v: "v \<le> passed (hi_events h) (rc_position rc)"
    and pos: "rc_position rc' \<le> length (hi_events h)" "passed (hi_events h) (rc_position rc') \<le> max (passed (hi_events h) (rc_position rc)) w"
    and last: "reached rc' \<le> passed (hi_events h) (rc_position rc')"
  shows "feed_inv_at env G sid h rc' (Option.bind room (apply_all (en_rfc3339 env) (drop v (take w G)))) on"
proof -
  from inv obtain m r where r: "room = Some r" "extends (en_rfc3339 env) (bound_room (Some sid)) (take m G) r"
    and m: "passed (hi_events h) (rc_position rc) \<le> m" "m \<le> length G"
    by (auto simp: feed_inv_at_def)
  from segment_replay [OF bound_room_reachable G r(2), of v w] v m
  obtain r' where r': "apply_all (en_rfc3339 env) (drop v (take w G)) r = Some r'"
    "extends (en_rfc3339 env) (bound_room (Some sid)) (take (max m w) G) r'" by auto
  have "passed (hi_events h) (rc_position rc') \<le> min (max m w) (length G)"
    using pos m inv passed_mono [OF pos(1), of "hi_events h"] passed_all [of h] prefix_length_le [of "room_feed h" G]
    by (auto simp: feed_inv_at_def)
  moreover have "take (min k (length G)) G = take k G" for k
    by (cases "k \<le> length G") (simp_all add: min_absorb1 min_absorb2)
  ultimately show ?thesis
    using inv r(1) r' pos(1) last
    by (auto simp: feed_inv_at_def intro!: exI [of _ "min (max m w) (length G)"])
qed

lemma feed_inv_stopped:
  assumes "feed_inv_at env G sid h rc room True" "rc_position rc' \<le> length (hi_events h)"
    and "reached rc' \<le> passed (hi_events h) (rc_position rc')"
  shows "feed_inv_at env G sid h rc' (Option.bind room (apply_all (en_rfc3339 env) [])) False"
  using assms by (auto simp: feed_inv_at_def)

lemma journal_value:
  assumes "extends f (bound_room sid) G rG" "i < length G"
  shows "dec_value (ev_event_seq (G ! i)) = Suc i"
proof -
  have "consecutive increment_decimal ''0'' (map ev_event_seq G)"
    using extends_run [OF bound_room_reachable assms(1)] by (simp add: bound_room_def new_reducer_def)
  from seq.consecutive_value [OF _ this, of i] assms(2) show ?thesis by (simp add: digit_val_def)
qed

lemma feed_inv_pumped:
  assumes inv: "feed_inv_at env G sid h rc room True"
    and G: "extends (en_rfc3339 env) (bound_room (Some sid)) G rG" and z: "sizes_ok (en_event_size env)"
    and serve: "serves_journal G (length (room_feed h)) resynced"
    and read: "recv (hi_events h) alive rc = Some (received, rc')"
    and sent: "pump_updates resynced received = (us, on)"
  shows "feed_inv_at env G sid h rc' (Option.bind room (apply_all (en_rfc3339 env) (room_events us))) on"
proof -
  let ?p = "rc_position rc" and ?n = "passed (hi_events h) (rc_position rc)"
  from inv have h: "reachable_host env h" "prefix (room_feed h) G" "?p \<le> length (hi_events h)" "reached rc \<le> ?n"
    by (auto simp: feed_inv_at_def)
  have idle: "feed_inv_at env G sid h rc1 (Option.bind room (apply_all (en_rfc3339 env) [])) on"
    if "rc_position rc1 \<le> length (hi_events h)" "passed (hi_events h) (rc_position rc1) = ?n" "reached rc1 \<le> ?n" for rc1
    using feed_inv_segment [OF inv G, of 0 rc1 0] that by simp
  consider (lagged) "?p < length (hi_events h) - EVENT_BROADCAST_CAPACITY"
      "received = Err (Lagged (rc_last rc))" "rc' = rc\<lparr>rc_position := length (hi_events h) - EVENT_BROADCAST_CAPACITY\<rparr>"
    | (event) "?p < length (hi_events h)" "received = Ok (hi_events h ! ?p)"
      "rc' = \<lparr>rc_position = Suc ?p, rc_last = delivered_seq (hi_events h ! ?p) (rc_last rc)\<rparr>"
    | (over) "received = Err ReceiverClosed" "rc' = rc"
    using read by (auto simp: recv_def Let_def split: if_splits)
  then show ?thesis
  proof cases
    case over
    with sent have "room_events us = []" by (auto simp: pump_updates_def)
    moreover have "feed_inv_at env G sid h rc (Option.bind room (apply_all (en_rfc3339 env) [])) on"
      by (rule idle [OF h(3) refl h(4)])
    ultimately show ?thesis using over by simp
  next
    case lagged
    let ?s = "case rc_last rc of None \<Rightarrow> ''0'' | Some s \<Rightarrow> s"
    have s: "dec_value ?s = reached rc" by (simp add: reached_def)
    have "?n \<le> passed (hi_events h) (rc_position rc')" using lagged by (intro passed_mono) simp
    then have last': "reached rc' \<le> passed (hi_events h) (rc_position rc')"
      using h(4) lagged(3) by (simp add: reached_def)
    have pos: "rc_position rc' \<le> length (hi_events h)" using lagged by simp
    then have top: "passed (hi_events h) (rc_position rc') \<le> length (room_feed h)"
      unfolding passed_all [symmetric] by (rule passed_mono)
    show ?thesis
    proof (cases "resynced ?s")
      case (Ok replay)
      with serve obtain w where w: "length (room_feed h) \<le> w" "replay = drop (dec_value ?s) (take w G)"
        unfolding serves_journal_def by blast
      from Ok sent lagged(2) have "us = map Event replay" by (simp add: pump_updates_def)
      with feed_inv_segment [OF inv G h(4) pos _ last', of w on] w s top show ?thesis by simp
    next
      case (Err e)
      with sent lagged(2) feed_inv_stopped [OF inv pos last'] show ?thesis by (auto simp: pump_updates_def)
    next
      case (Panic m)
      with sent lagged(2) feed_inv_stopped [OF inv pos last'] show ?thesis by (auto simp: pump_updates_def)
    qed
  next
    case event
    have pos: "rc_position rc' \<le> length (hi_events h)" using event by simp
    have n': "passed (hi_events h) (rc_position rc') = ?n + length (room_part (hi_events h ! ?p))"
      using event passed_Suc by simp
    show ?thesis
    proof (cases "hi_events h ! ?p")
      case (HostRoom e)
      from event_at [OF event(1) HostRoom] h(2) have e: "?n < length G" "G ! ?n = e"
        by (auto simp: prefix_def nth_append)
      have "drop ?n (take (Suc ?n) G) = [e]" using e by (simp add: take_Suc_conv_app_nth)
      moreover have "us = [Event e]" using sent event(2) HostRoom by (auto simp: pump_updates_def)
      moreover have "reached rc' = Suc ?n" using journal_value [OF G e(1)] e(2) event(3) HostRoom by (simp add: reached_def)
      ultimately show ?thesis
        using feed_inv_segment [OF inv G le_refl pos, of "Suc ?n" on] n' HostRoom by simp
    next
      case (HostReadiness e)
      have "ready_zero (HostReadiness e)"
        using reachable_ready_zero [OF h(1) z] event(1) HostReadiness by (auto simp: list_all_length)
      then have "reached rc' = 0" using event(3) HostReadiness by (simp add: reached_def ready_zero_def digit_val_def)
      moreover have "room_events us = []" using sent event(2) HostReadiness by (auto simp: pump_updates_def)
      ultimately show ?thesis using idle [OF pos] n' HostReadiness by simp
    next
      case (HostExited e)
      have "reached rc' = reached rc" using event(3) HostExited by (simp add: reached_def)
      moreover have "room_events us = []" using sent event(2) HostExited by (auto simp: pump_updates_def)
      ultimately show ?thesis using idle [OF pos] n' h(4) HostExited by simp
    qed
  qed
qed

lemma pump_run_inv:
  assumes "pump_run env G sid h rc room on"
    and "extends (en_rfc3339 env) (bound_room (Some sid)) G rG" "sizes_ok (en_event_size env)"
  shows "feed_inv_at env G sid h rc room on"
  using assms
proof (induction rule: pump_run.induct)
  case (opened h0 h)
  then show ?case by (intro feed_inv_opened)
next
  case (moved h rc room on h')
  then show ?case by (intro feed_inv_moved [OF moved.IH]) auto
next
  case (pumped h rc room resynced alive received rc' us on)
  then show ?case by (intro feed_inv_pumped [OF pumped.IH]) auto
qed

end
