(* ===== verification/Pager_Properties.thy ===== *)
theory Pager_Properties
  imports Pager_Sample Pager_Feed Host_Sample
begin

section \<open>Properties of the room's terminal\<close>

text \<open>
  What the terminal's parts promise, over the definitions of the \<open>Pager_\<close> theories: the event pump
  (\<^theory_text>\<open>Pager_Feed\<close>), the panic button (\<^theory_text>\<open>Pager_Cancel\<close>), the command bridge
  (\<^theory_text>\<open>Pager_Bridge\<close>), prompts that come back (\<^theory_text>\<open>Pager_Restore\<close>), the decoders of what
  the host says, the picker, the permission shelf and the lines the composer sends. Each property is
  followed by a concrete instance.
\<close>

subsection \<open>The event pump\<close>

text \<open>C24: Next to a running host whose broadcast is part of one journal, the room is always the
  plain replay of a prefix of that journal, however far its receiver lags and however resyncs
  repeat events it already has. As long as the pump goes on, that prefix holds at least every room
  event the receiver has passed, so a room that has caught up has logged every event broadcast.\<close>

theorem room_misses_nothing:
  assumes "pump_run env G sid h rc room on"
    and "extends (en_rfc3339 env) (bound_room (Some sid)) G rG" "sizes_ok (en_event_size env)"
  shows "\<exists>m r. room = Some r \<and> m \<le> length G
    \<and> extends (en_rfc3339 env) (bound_room (Some sid)) (take m G) r
    \<and> (on \<longrightarrow> passed (hi_events h) (rc_position rc) \<le> m)
    \<and> (on \<and> rc_position rc = length (hi_events h) \<longrightarrow> (\<forall>e \<in> set (room_feed h). logged r e))"
proof -
  from pump_run_inv [OF assms] obtain m r where r: "room = Some r" "m \<le> length G"
      "extends (en_rfc3339 env) (bound_room (Some sid)) (take m G) r"
    and m: "on \<longrightarrow> passed (hi_events h) (rc_position rc) \<le> m" and feed: "prefix (room_feed h) G"
    by (auto simp: feed_inv_at_def)
  have "logged r e" if "on" "rc_position rc = length (hi_events h)" "e \<in> set (room_feed h)" for e
  proof -
    have "prefix (room_feed h) (take m G)"
      using m that feed by (auto simp: passed_all prefix_def)
    with that(3) have "e \<in> set (take m G)" by (auto simp: prefix_def)
    with extends_run [OF bound_room_reachable r(3)] show ?thesis by blast
  qed
  with r m show ?thesis by blast
qed

lemma sample_readiness: "map_option ev_session_id (tr_readiness recovered) = Some ''s''"
proof -
  have "tr_readiness waiting = Some hello"
    unfolding waiting_def after_frames_def new_transport_def hello_def routed_turn_def new_reducer_def
    by (simp add: transport_eval event_eval show_nat_one)
  then show ?thesis by (simp add: recovered_def hello_def sample_event_def)
qed

lemma room_misses_nothing_witness:
  "\<exists>h r. reachable_host sample_env h
    \<and> pump_run sample_env [accepted_turn, routed_turn] ''s'' h (subscribe_events (hi_events h)) (Some r) True
    \<and> logged r accepted_turn \<and> logged r routed_turn"
proof -
  obtain h where h: "reachable_host sample_env h" "hi_transport h = recovered"
    "room_feed h = [accepted_turn, routed_turn]" by (rule sample_host)
  have run: "pump_run sample_env [accepted_turn, routed_turn] ''s'' h (subscribe_events (hi_events h))
      (Some (tr_reducer (hi_transport h))) True"
    using h sample_readiness
    by (intro pump_run.opened [where h0 = h]) (simp_all add: host_steps.intros(1) recovered_def)
  have "extends (en_rfc3339 sample_env) (bound_room (Some ''s'')) [accepted_turn, routed_turn] recovered_room"
    using missing_run by simp
  from room_misses_nothing [OF run this] hundred_ok h run show ?thesis
    by (auto simp: subscribe_events_def)
qed

subsection \<open>The panic button\<close>

text \<open>C25: The guidance row says the agents are stopped only when they are asked to be and the host
  has confirmed it: the last cancel the room asked for, whichever way keys, ticks, bridge and host
  interleave, is one the host answered with success, and no answer to an earlier one counts.\<close>

theorem stopped_claim_is_true:
  assumes "panic_run room flight ups made confirmed" "length made < 2 ^ 64"
    and "guidance_hint now room = Some HINT_AGENTS_STOPPED"
  shows "made \<noteq> [] \<and> last made \<in> confirmed \<and> last made \<notin> set (butlast made)
    \<and> quit_is_armed_at now room \<and> lane_busy (pr_reducer room) None"
proof -
  note inv = panic_run_inv [OF assms(1,2)]
  have hints: "HINT_STOPPING_AGENTS \<noteq> HINT_AGENTS_STOPPED" "''esc to interrupt'' \<noteq> HINT_AGENTS_STOPPED"
    by (simp_all add: HINT_STOPPING_AGENTS_def HINT_AGENTS_STOPPED_def)
  with assms(3) have armed: "quit_is_armed_at now room" "host_answered (pr_claim room)"
    by (auto simp: guidance_hint_def split: if_splits)
  then obtain s where s: "pr_claim room = ClaimReached s" by (cases "pr_claim room") auto
  with inv have sure: "s \<in> confirmed" "confirmed \<subseteq> set made" "s = of_nat (length made)"
    by (auto simp: panic_inv_def)
  then have some: "made \<noteq> []" by auto
  then have "last made = s"
    using inv sure(3) by (metis panic_inv_def last_map last_upt less_eq_Suc_le length_greater_0_conv
        diff_Suc_1 map_is_Nil_conv upt_eq_Nil_conv not_less)
  moreover have "distinct made" by (rule panic_asks_distinct [OF inv assms(2)])
  then have "last made \<notin> set (butlast made)"
    using some by (metis append_butlast_last_id distinct_append disjoint_insert(1) list.set(2) list.simps(15))
  ultimately show ?thesis using sure armed some by (auto simp: quit_is_armed_at_def)
qed

lemma stopped_claim_is_true_witness:
  "\<exists>room. panic_run room None [] [1] {1} \<and> guidance_hint 1 room = Some HINT_AGENTS_STOPPED
    \<and> last [1 :: u64] \<in> {1} \<and> lane_busy (pr_reducer room) None"
proof -
  let ?ups = "[] @ [cancel_update 1 (Ok JNull)]"
  have "panic_run panicking None [] [] {}" by (rule panic_run.began) (simp_all add: panicking_def)
  note asked = panic_run.ctrl_c [OF this ctrl_c_is(1) first_press]
  define room where "room = panicking\<lparr>pr_gesture := \<lparr>cg_latest = Some 0, cg_key_downs = 1\<rparr>,
     pr_quit_armed_until := Some QUIT_CONFIRM_WINDOW, pr_wire := [1], pr_claim := ClaimAsked 1\<rparr>"
  from asked have "panic_run room None [] [1] {}" by (simp add: room_def panicking_def)
  then have "panic_run (room\<lparr>pr_wire := []\<rparr>) (Some 1) [] [1] {}"
    by (rule panic_run.taken) (simp add: room_def)
  from panic_run.answered [OF this, of "Ok JNull"]
  have "panic_run (room\<lparr>pr_wire := []\<rparr>) None [CancelReachedHost 1] [1] {1}"
    by (simp add: cancel_update_def)
  note run = panic_run.delivered [OF this]
  let ?room = "deliver_update (CancelReachedHost 1) (room\<lparr>pr_wire := []\<rparr>)"
  have "guidance_hint 1 ?room = Some HINT_AGENTS_STOPPED"
    using busy_room by (simp add: guidance_hint_def deliver_update_def room_def panicking_def quit_is_armed_at_def
        QUIT_CONFIRM_WINDOW_def)
  with stopped_claim_is_true [OF run _ this] run show ?thesis by (intro exI [of _ ?room]) simp
qed

text \<open>A key held down: its repeats, one after the other.\<close>

fun press_all :: "key_owner \<Rightarrow> key_event \<Rightarrow> nat list \<Rightarrow> panic_room \<Rightarrow>
    (string, ctrl_c_outcome) result list \<times> panic_room" where
  "press_all owner k [] room = ([], room)"
| "press_all owner k (t # ts) room =
     (case route_ctrl_c_key owner t k room of
        (r, room1) \<Rightarrow> (case press_all owner k ts room1 of (rs, room2) \<Rightarrow> (r # rs, room2)))"

text \<open>One more press inside a gesture.\<close>

lemma held_press:
  assumes "is_ctrl_c k" "pr_gesture room = gesture_after is" "held_at is t"
    and "route_ctrl_c_key owner t k room = (r, room')"
  shows "r = Ok CtrlCConsumed \<and> pr_wire room' = pr_wire room \<and> pr_claim room' = pr_claim room
    \<and> pr_draft room' = pr_draft room \<and> pr_reducer room' = pr_reducer room"
proof -
  have "\<not> is_ctrl_c_release k" using assms(1) by (simp add: is_ctrl_c_def is_ctrl_c_release_def)
  with assms(1,2) have "pr_gesture (before_route t k room) = key_down t (gesture_after is)"
    by (simp add: before_route_def reconcile_quit_arm_at_def Let_def)
  with assms(3) have "\<not> opened_the_gesture (pr_gesture (before_route t k room))" by (simp add: opened_iff)
  with assms(4) show ?thesis
    by (cases owner) (auto simp: route_ctrl_c_key_def route_ctrl_c_at_def Let_def)
qed

lemma pressed_gesture:
  assumes "is_ctrl_c k" "pr_gesture room = gesture_after is"
  shows "pr_gesture (snd (route_ctrl_c_key owner t k room)) = gesture_after (is @ [GestureDown t])"
proof -
  have "\<not> is_ctrl_c_release k" using assms(1) by (simp add: is_ctrl_c_def is_ctrl_c_release_def)
  with assms have "pr_gesture (before_route t k room) = gesture_after (is @ [GestureDown t])"
    by (simp add: before_route_def reconcile_quit_arm_at_def gesture_after_def Let_def)
  then show ?thesis
    by (auto simp: route_ctrl_c_key_def route_ctrl_c_at_def request_cancel_all_def Let_def
        split: key_owner.split prod.split result.split)
qed

lemma held_presses:
  assumes "is_ctrl_c k" "pr_gesture room = gesture_after (is @ [GestureDown t])"
    and "successively (\<lambda>a b. b - a < CTRL_C_GESTURE_QUIET) (t # ts)" "press_all owner k ts room = (rs, room')"
  shows "rs = replicate (length ts) (Ok CtrlCConsumed) \<and> pr_wire room' = pr_wire room
    \<and> pr_claim room' = pr_claim room \<and> pr_draft room' = pr_draft room"
  using assms(2-)
proof (induction ts arbitrary: "is" t room rs)
  case (Cons u ts)
  obtain r room1 rs1 where one: "route_ctrl_c_key owner u k room = (r, room1)"
    and more: "press_all owner k ts room1 = (rs1, room')" and rs: "rs = r # rs1"
    using Cons.prems(3) by (auto split: prod.splits)
  have "held_at (is @ [GestureDown t]) u" using Cons.prems(2) by (simp add: held_at_def)
  from held_press [OF assms(1) Cons.prems(1) this one]
  have "r = Ok CtrlCConsumed" "pr_wire room1 = pr_wire room" "pr_claim room1 = pr_claim room" "pr_draft room1 = pr_draft room"
    by simp_all
  moreover have "pr_gesture room1 = gesture_after ((is @ [GestureDown t]) @ [GestureDown u])"
    using pressed_gesture [OF assms(1) Cons.prems(1), of owner u] one by simp
  note Cons.IH [OF this _ more]
  ultimately show ?case using Cons.prems(2) rs by simp
qed simp

text \<open>C26: A held key acts once: however many repeats follow the first press of \<open>Ctrl+C\<close>, each
  less than a second after the one before, every one of them is consumed, never exits, and leaves
  the cancels asked for, the claim and the draft as the first press left them.\<close>

theorem held_ctrl_c_acts_once:
  assumes "is_ctrl_c k" "pr_gesture room = gesture_after is"
    and "successively (\<lambda>a b. b - a < CTRL_C_GESTURE_QUIET) (t # ts)"
    and "route_ctrl_c_key owner t k room = (r, room1)" "press_all owner k ts room1 = (rs, room2)"
  shows "rs = replicate (length ts) (Ok CtrlCConsumed) \<and> pr_wire room2 = pr_wire room1
    \<and> pr_claim room2 = pr_claim room1 \<and> pr_draft room2 = pr_draft room1
    \<and> length (pr_wire room2) \<le> Suc (length (pr_wire room))"
proof -
  have "pr_gesture room1 = gesture_after (is @ [GestureDown t])"
    using pressed_gesture [OF assms(1,2), of owner t] assms(4) by simp
  from held_presses [OF assms(1) this assms(3,5)] ctrl_c_asks_once [OF assms(4)] show ?thesis
    by (auto simp: asks_once_def)
qed

lemma held_ctrl_c_acts_once_witness:
  "\<exists>room. fst (press_all ComposerOwner ctrl_c [0, 500000000, 900000000] panicking)
      = [Ok CtrlCConsumed, Ok CtrlCConsumed, Ok CtrlCConsumed]
    \<and> snd (press_all ComposerOwner ctrl_c [0, 500000000, 900000000] panicking) = room \<and> pr_wire room = [1]"
proof -
  have start: "pr_gesture panicking = gesture_after []" by (simp add: panicking_def gesture_after_def)
  have rapid: "successively (\<lambda>a b. b - a < CTRL_C_GESTURE_QUIET) [0, 500000000, 900000000]"
    by (simp add: CTRL_C_GESTURE_QUIET_def)
  let ?first = "panicking\<lparr>pr_gesture := \<lparr>cg_latest = Some 0, cg_key_downs = 1\<rparr>,
    pr_quit_armed_until := Some QUIT_CONFIRM_WINDOW, pr_wire := [1], pr_claim := ClaimAsked 1\<rparr>"
  obtain rs room2 where more: "press_all ComposerOwner ctrl_c [500000000, 900000000] ?first = (rs, room2)"
    by fastforce
  have all: "press_all ComposerOwner ctrl_c [0, 500000000, 900000000] panicking = (Ok CtrlCConsumed # rs, room2)"
    using first_press more by (simp del: press_all.simps(2) add: press_all.simps(2) [of _ _ 0])
  from held_ctrl_c_acts_once [OF ctrl_c_is(1) start rapid first_press more] all show ?thesis
    by (simp add: numeral_2_eq_2)
qed

text \<open>C27: The ladder of the panic button: with an agent at work a first \<open>Ctrl+C\<close> asks for one
  cancel of every lane and arms the exit, a new gesture within three seconds exits if an agent is
  still at work, and later than that it asks again; a press that could not be handed to the bridge
  arms nothing.\<close>

theorem second_ctrl_c_quits:
  assumes "is_ctrl_c k" "lane_busy (pr_reducer room) None" "\<not> quit_is_armed_at t room"
    and "pr_gesture room = gesture_after is" "\<not> held_at is t" "route_ctrl_c_key ComposerOwner t k room = (r, room1)"
  shows "if pr_wire_open room
    then r = Ok CtrlCConsumed \<and> pr_quit_armed_until room1 = Some (t + QUIT_CONFIRM_WINDOW)
      \<and> pr_wire room1 = (if length (pr_wire room) < CANCEL_CHANNEL_CAPACITY
          then pr_wire room @ [claim_seq (claim_ask (pr_claim room))] else pr_wire room)
      \<and> (\<forall>t2. fst (route_ctrl_c_key ComposerOwner t2 k (room1\<lparr>pr_gesture := ended (pr_gesture room1)\<rparr>)) = Ok CtrlCExit
          \<longleftrightarrow> t2 < t + QUIT_CONFIRM_WINDOW)
    else r = Err ''room host cancel bridge stopped'' \<and> pr_quit_armed_until room1 = None \<and> pr_wire room1 = pr_wire room"
proof -
  have release: "\<not> is_ctrl_c_release k" using assms(1) by (simp add: is_ctrl_c_def is_ctrl_c_release_def)
  define room0 where "room0 = before_route t k room"
  have room0: "pr_quit_armed_until room0 = None"
    "opened_the_gesture (pr_gesture room0)" "lane_busy (pr_reducer room0) None"
    using assms(1-5) release opened_iff [of t "is"]
    by (auto simp: room0_def before_route_def reconcile_quit_arm_at_def quit_is_armed_at_def Let_def)
  have route: "route_ctrl_c_at t room0 = (r, room1)"
    using assms(6) by (simp add: route_ctrl_c_key_def room0_def Let_def)
  show ?thesis
  proof (cases "pr_wire_open room")
    case True
    with route room0 have r: "r = Ok CtrlCConsumed"
      "room1 = snd (request_cancel_all room0)\<lparr>pr_quit_armed_until := Some (t + QUIT_CONFIRM_WINDOW)\<rparr>"
      using request_cancel_outcome [of room0]
      by (auto simp: route_ctrl_c_at_def quit_is_armed_at_def room0_def split: prod.splits)
    have again: "fst (route_ctrl_c_key ComposerOwner t2 k (room1\<lparr>pr_gesture := ended (pr_gesture room1)\<rparr>)) = Ok CtrlCExit
        \<longleftrightarrow> t2 < t + QUIT_CONFIRM_WINDOW" for t2
      using assms(1,2) release room0(3) True
      by (simp add: r route_ctrl_c_key_def before_route_def reconcile_quit_arm_at_def route_ctrl_c_at_def
          quit_is_armed_at_def opened_the_gesture_def key_down_def ended_def request_cancel_all_def room0_def Let_def)
    show ?thesis
      using True r again by (simp add: request_cancel_all_def room0_def Let_def)
  next
    case False
    with route room0 show ?thesis
      by (auto simp: route_ctrl_c_at_def quit_is_armed_at_def room0_def request_cancel_all_def Let_def)
  qed
qed

lemma second_ctrl_c_quits_witness:
  "\<exists>room1. route_ctrl_c_key ComposerOwner 0 ctrl_c panicking = (Ok CtrlCConsumed, room1) \<and> pr_wire room1 = [1]
    \<and> fst (route_ctrl_c_key ComposerOwner 2000000000 ctrl_c (room1\<lparr>pr_gesture := ended (pr_gesture room1)\<rparr>)) = Ok CtrlCExit
    \<and> fst (route_ctrl_c_key ComposerOwner 3000000000 ctrl_c (room1\<lparr>pr_gesture := ended (pr_gesture room1)\<rparr>)) \<noteq> Ok CtrlCExit"
proof -
  obtain r room1 where press: "route_ctrl_c_key ComposerOwner 0 ctrl_c panicking = (r, room1)" by fastforce
  have "lane_busy (pr_reducer panicking) None" "\<not> quit_is_armed_at 0 panicking"
    "pr_gesture panicking = gesture_after []" "\<not> held_at [] 0"
    using busy_room by (simp_all add: panicking_def quit_is_armed_at_def gesture_after_def held_at_def)
  note quits = second_ctrl_c_quits [OF ctrl_c_is(1) this press]
  have now: "r = Ok CtrlCConsumed" "pr_wire room1 = [1]" "pr_wire_open panicking"
    using press first_press by (auto simp: panicking_def)
  with quits have "fst (route_ctrl_c_key ComposerOwner t2 ctrl_c (room1\<lparr>pr_gesture := ended (pr_gesture room1)\<rparr>)) = Ok CtrlCExit
      \<longleftrightarrow> t2 < 3000000000" for t2
    by (simp add: QUIT_CONFIRM_WINDOW_def)
  with press now show ?thesis by simp
qed

subsection \<open>The command bridge\<close>

text \<open>C28: The command bridge carries every command once and in order, and settles every submission
  it carried exactly once: with the turn the host named, or with none when the host refused it or
  named none. It stops at the first command whose failure cannot be recovered from and carries
  nothing after it. (As long as the room takes updates, and the host answers.)\<close>

theorem bridge_settles_submissions:
  assumes "list_all calm_input xs" "run_command_bridge sid xs (new_bridge l) = b" "lk_room (br_link b) \<noteq> 0"
  shows "\<exists>us. lk_updates (br_link b) = lk_updates l @ us
    \<and> settled_of us = concat (map settlement (served xs))
    \<and> br_calls b = concat (map (bridge_call sid) (served xs))
    \<and> br_running b = (\<not> list_ex bridge_ends xs) \<and> prefix (served xs) xs"
proof -
  have "prefix (served xs) xs" by (induction xs) auto
  moreover have "br_running (new_bridge l)" "lk_updates (br_link (new_bridge l)) = lk_updates l" "br_calls (new_bridge l) = []"
    by (simp_all add: new_bridge_def)
  ultimately show ?thesis
    using run_bridge_served [of "new_bridge l" xs sid] assms by auto
qed

lemma bridge_settles_submissions_witness:
  "\<exists>us. lk_updates (br_link (run_command_bridge ''s''
        [Dequeued (Submit 0 ''hello'') (Ok (JObject [(''turnId'', JString ''t'')])),
         Dequeued (Submit 1 ''more'') (Err (Stopped ''gone'')),
         Dequeued (Submit 2 ''lost'') (Ok JNull)]
        (new_bridge \<lparr>lk_updates = [], lk_room = 9\<rparr>))) = us
    \<and> settled_of us = [(0, Some ''t''), (1, None)]"
proof -
  let ?xs = "[Dequeued (Submit 0 ''hello'') (Ok (JObject [(''turnId'', JString ''t'')])),
     Dequeued (Submit 1 ''more'') (Err (Stopped ''gone'')), Dequeued (Submit 2 ''lost'') (Ok JNull)]"
  let ?b = "run_command_bridge ''s'' ?xs (new_bridge \<lparr>lk_updates = [], lk_room = 9\<rparr>)"
  have calm: "list_all calm_input ?xs" by simp
  have room: "lk_room (br_link ?b) \<noteq> 0"
    by (simp add: run_command_bridge_def new_bridge_def bridge_step_def bridge_command_def answer_updates_def
        submitted_turn_id_def value_get_def send_updates_alt stop_bridge_def Let_def)
  have "concat (map settlement (served ?xs)) = [(0, Some ''t''), (1, None)]"
    by (simp add: is_rpc_def submitted_turn_id_def value_get_def)
  with bridge_settles_submissions [OF calm refl room] show ?thesis by auto
qed

subsection \<open>Prompts that come back\<close>

text \<open>C29: A prompt comes back into the composer only when the composer is blank and only one that
  was submitted: its own submission, bound by its own identifier to the turn the host named for it,
  when that turn is over and a lane of it was cancelled. Whichever handler runs the pass, and in
  whatever order events and answers arrive.\<close>

theorem restored_prompt_was_cancelled:
  assumes run: "restore_run cm f room held named"
    and passed_by: "apply_room_event cm f e room = (Ok (), room') \<or> room' = apply_submit_settled cm i turn_id room"
    and came: "rm_prompt room' \<noteq> rm_prompt room"
  shows "trim (cm_text cm (rm_prompt room)) = []
    \<and> (\<exists>j stash t. (j, stash) \<in> set held \<and> ((j, t) \<in> named \<or> j = i \<and> turn_id = Some t)
        \<and> turn_settled (rm_reducer room') t \<and> turn_was_cancelled (rm_reducer room') t
        \<and> rm_prompt room' = cm_restore cm stash (rm_prompt room))"
proof -
  note inv = restore_run_inv [OF run, unfolded restore_inv_def]
  let ?bound = "rm_pending room\<lparr>pd_entries := bind_entry i (the turn_id) (pd_entries (rm_pending room))\<rparr>"
  consider (event) r where "room' = settle_room cm (room\<lparr>rm_reducer := r\<rparr>)"
    | (bound) "turn_id \<noteq> None" "room' = settle_room cm (room\<lparr>rm_pending := ?bound\<rparr>)"
    using passed_by came
    by (auto simp: apply_room_event_def apply_submit_settled_def bind_submission_def split: prod.splits result.splits option.splits)
  then show ?thesis
  proof cases
    case event
    have "rm_prompt (settle_room cm (room\<lparr>rm_reducer := r\<rparr>)) \<noteq> rm_prompt (room\<lparr>rm_reducer := r\<rparr>)"
      using came event by simp
    from restores_submission [OF this, of held named] inv event show ?thesis by fastforce
  next
    case bound
    have change: "rm_prompt (settle_room cm (room\<lparr>rm_pending := ?bound\<rparr>)) \<noteq> rm_prompt (room\<lparr>rm_pending := ?bound\<rparr>)"
      using came bound by simp
    have "\<forall>e \<in> set (bind_entry i (the turn_id) (pd_entries (rm_pending room))). (rs_id e, rs_stash e) \<in> set held
       \<and> (case rs_turn_id e of None \<Rightarrow> True | Some t \<Rightarrow> (rs_id e, t) \<in> insert (i, the turn_id) named)"
      using inv by (auto dest!: set_bind_entry split: option.splits)
    with restores_submission [OF change, of held "insert (i, the turn_id) named"] bound show ?thesis by fastforce
  qed
qed

lemma restored_prompt_was_cancelled_witness:
  "rm_prompt (apply_submit_settled plain_composer 0 (Some ''t'') holding_room) = ''hello''
    \<and> turn_was_cancelled (rm_reducer (apply_submit_settled plain_composer 0 (Some ''t'') holding_room)) ''t''
    \<and> trim (rm_prompt holding_room) = []"
proof -
  have "rm_prompt (apply_submit_settled plain_composer 0 (Some ''t'') holding_room) \<noteq> rm_prompt holding_room"
    using restored_one held_one(3) by simp
  from restored_prompt_was_cancelled [OF holding_run disjI2 [OF refl] this] restored_one show ?thesis
    by (auto simp: plain_composer_def)
qed

text \<open>Of the prompts that left, a room holds at most eight, no two with the same identifier;
  each is one that was submitted and, if it is bound, it is bound to the turn the host named for it,
  a turn that is not over: nothing the room holds is stranded.\<close>

theorem held_prompts_bounded:
  assumes "restore_run cm f room held named" "length held \<le> 2 ^ 64"
  shows "length (pd_entries (rm_pending room)) \<le> 8 \<and> distinct (map fst held)
    \<and> (\<forall>e \<in> set (pd_entries (rm_pending room)). (rs_id e, rs_stash e) \<in> set held
        \<and> (\<forall>t. rs_turn_id e = Some t \<longrightarrow> (rs_id e, t) \<in> named \<and> \<not> turn_settled (rm_reducer room) t))"
  using restore_run_inv [OF assms(1)] held_distinct [OF assms]
  by (auto simp: restore_inv_def MAX_PENDING_RESTORES_def unsettled_def split: option.splits)

lemma held_prompts_bounded_witness:
  "length (pd_entries (rm_pending holding_room)) \<le> 8 \<and> distinct (map fst [(0 :: u64, ''hello'')])"
  using held_prompts_bounded [OF holding_run] by simp

text \<open>One settle pass, written as a loop over the prompts held, is this function of three
  filters: the prompts whose turn is not over stay, in order; the first of those whose turn was
  cancelled comes back if the composer is blank and the others are counted as refused; those
  whose turn failed are counted as failed.\<close>

theorem settle_is_three_filters:
  "settle cm r p prompt =
     (let owing = filter (owed r) (pd_entries p); blank = trim (cm_text cm prompt) = [] in
      (\<lparr>ro_restored = blank \<and> owing \<noteq> [],
        ro_refused = (if blank then length owing - 1 else length owing), ro_evicted = 0,
        ro_failed = length (filter (failed_entry r) (pd_entries p))\<rparr>,
       p\<lparr>pd_entries := filter (unsettled r) (pd_entries p)\<rparr>,
       if blank \<and> owing \<noteq> [] then cm_restore cm (rs_stash (hd owing)) prompt else prompt))"
  by (rule settle_alt)

subsection \<open>The pickers\<close>

text \<open>Whatever keys are pressed and whatever answers arrive, a picker's selection is on one of
  its rows, and an answer changes it only if it carries the number of the last request it sent and
  that request was about what the picker now shows: never an answer to another agent's models, nor
  one to a request a key has superseded.\<close>

theorem picker_takes_last_answer:
  assumes "picker_run catalog sent p"
  shows "picker_ok p
    \<and> (apply_models i models p \<noteq> p \<longrightarrow> (\<exists>agent. sent \<noteq> [] \<and> picker_request_id (last sent) = i
        \<and> request_kind (last sent) = PickModels agent \<and> pi_kind p = Some (PickModels agent)))
    \<and> (apply_sessions i sessions p \<noteq> p \<longrightarrow> sent \<noteq> [] \<and> last sent = SessionsRequest i)"
  using picker_run_inv [OF assms] models_taken [of sent p i models] sessions_taken [of sent p i sessions]
  by (auto simp: picker_inv_def)

lemma picker_takes_last_answer_witness:
  "\<exists>p. picker_run default_catalog [ModelsRequest 1 Claude, ModelsRequest 2 Codex] p
    \<and> apply_models 1 (Err ''late'') p = p
    \<and> apply_models 2 (Err ''gone'') p \<noteq> p \<and> pi_kind p = Some (PickModels Codex)"
proof -
  obtain p1 where p1: "open_models Claude (new_picker ''s'') = (ModelsRequest 1 Claude, p1)"
    by (simp add: open_models_def next_request_def new_picker_def)
  obtain p2 where p2: "handle_picker_key default_catalog PkRight p1 = ([PickerCommand (ModelsRequest 2 Codex)], Stay, p2)"
    and now: "pi_status p2 = Loading 2 False" "pi_kind p2 = Some (PickModels Codex)" "picker_is_open p1"
    using p1 by (auto simp: handle_picker_key_def switch_agent_def shifted_agent_def send_picker_def open_models_def
        next_request_def new_picker_def picker_is_open_def)
  have run: "picker_run default_catalog [ModelsRequest 1 Claude, ModelsRequest 2 Codex] p2"
    using picker_run.key_pressed [OF picker_run.opened_models [OF picker_run.started p1] now(3) p2] by simp
  have "apply_models 1 (Err ''late'') p2 = p2"
    using picker_takes_last_answer [OF run, of 1 "Err ''late''"] by auto
  moreover have "pi_status (apply_models 2 (Err ''gone'') p2) = PickerError ''gone''"
    using now by (simp add: apply_models_def)
  then have "apply_models 2 (Err ''gone'') p2 \<noteq> p2" using now(1) by auto
  ultimately show ?thesis using run now(2) by blast
qed

subsection \<open>What the host says about its agents\<close>

text \<open>C40: Whatever value a host sends as a catalog, a readiness, a model list or a session list,
  decoding it never panics, and what it decodes to is safe to show and to act on: within its row
  limit, without two rows of the same name or identifier, every text within its bytes and free of
  control characters, a trusted row only if it is built in, a current model only if it is listed.\<close>

theorem host_snapshots_safe:
  assumes "canonical v"
  shows "(case catalog_from_host_value v of Ok c \<Rightarrow> catalog_ok c | Err _ \<Rightarrow> True | Panic _ \<Rightarrow> False)
    \<and> (case readiness_from_host_value v of
         Ok r \<Rightarrow> readiness_ok (rr_claude r) \<and> readiness_ok (rr_codex r) \<and> readiness_ok (rr_gemini r)
       | Err _ \<Rightarrow> True | Panic _ \<Rightarrow> False)
    \<and> (case models_from_host_value v of Ok c \<Rightarrow> models_ok c | Err _ \<Rightarrow> True | Panic _ \<Rightarrow> False)
    \<and> (case parse_room_sessions v of Ok rows \<Rightarrow> sessions_ok rows | Err _ \<Rightarrow> True | Panic _ \<Rightarrow> False)"
  using snapshots_calm(1,2) [OF assms] snapshots_calm(3,4) [of v]
  by (auto split: result.split dest: catalog_decoded readiness_decoded models_decoded sessions_decoded)

lemma host_snapshots_safe_witness:
  "\<exists>rows. parse_room_sessions (JObject [(''sessions'', JArray [JObject
      [(''cwd'', JString ''w''), (''sessionId'', JString ''chat-1''), (''title'', JString ''t''), (''updatedAt'', JString ''u'')]])])
    = Ok rows \<and> length rows = 1 \<and> sessions_ok rows"
proof -
  let ?v = "JObject [(''sessions'', JArray [JObject
      [(''cwd'', JString ''w''), (''sessionId'', JString ''chat-1''), (''title'', JString ''t''), (''updatedAt'', JString ''u'')]])]"
  have "canonical ?v" by simp
  moreover have "parse_room_sessions ?v =
      Ok [\<lparr>se_session_id = ''chat-1'', se_cwd = ''w'', se_title = ''t'', se_updated_at = ''u''\<rparr>]"
    by (simp add: parse_room_sessions_def required_object_def require_allowed_keys_def get_def MAX_SESSIONS_def
        parse_session_row_def required_safe_string_def validate_safe_string_def MAX_SESSION_ID_BYTES_def MAX_CWD_BYTES_def
        MAX_LABEL_BYTES_def contains_unsafe_text_def is_control_def chars_def utf8_width_def utf8_lead_def bytes_of_def contains_key_def)
  ultimately show ?thesis using host_snapshots_safe [of ?v] by simp
qed

subsection \<open>The composer\<close>

text \<open>C31: What a sent line can do while the room's wire is open: it sends at most one command. It is a
  submission only if the line is meant for agents, and then what goes out is either explicitly
  addressed (as the line addresses it, or else to all), or, for \<open>/council\<close> with a topic, the line as
  it was typed, which carries no address. The identifier that goes out is the one under which the
  composer's content has just been kept, and the line is remembered. Any other line, a room command
  or a mistyped one, never reaches an agent, keeps nothing and leaves the history as it was.\<close>

theorem submission_is_addressed:
  assumes sent: "submit_line pw catalog status line room = (r, room')" and wire: "cr_wire_open room"
  shows "if is_submission catalog line
    then goes_out_as catalog line (addressed_submission line) \<and> r = Ok None
      \<and> (let i = pd_next_id (rm_pending (cr_room room)) in
           cr_wire room' = cr_wire room @ [Submit i (addressed_submission line)]
           \<and> (\<exists>e. last (pd_entries (rm_pending (cr_room room'))) = e
                \<and> rs_id e = i \<and> rs_stash e = fst (pw_stash pw (rm_prompt (cr_room room))) \<and> rs_turn_id e = None))
      \<and> cr_history room' = remember_submission line (cr_history room)
    else (\<exists>cmds. cr_wire room' = cr_wire room @ cmds \<and> length cmds \<le> 1 \<and> \<not> list_ex is_submit cmds)
      \<and> rm_pending (cr_room room') = rm_pending (cr_room room) \<and> cr_history room' = cr_history room"
proof (cases "is_submission catalog line")
  case True
  obtain stash prompt where stash: "pw_stash pw (rm_prompt (cr_room room)) = (stash, prompt)" by fastforce
  let ?room = "(cr_room room)\<lparr>rm_prompt := pw_refresh_slash pw (pw_set_text pw [] prompt)\<rparr>"
  obtain i held where held: "hold_submission stash ?room = (i, held)" by fastforce
  have pending: "rm_pending ?room = rm_pending (cr_room room)" by simp
  from held have "i = pd_next_id (rm_pending (cr_room room))"
      "rs_id (last (pd_entries (rm_pending held))) = i" "rs_stash (last (pd_entries (rm_pending held))) = stash"
      "rs_turn_id (last (pd_entries (rm_pending held))) = None"
    by (auto simp: hold_submission_def submitted_def evict_spec pending MAX_PENDING_RESTORES_def last_drop Let_def)
  with submit_line_submission [OF True wire stash held, of status] stash sent True submission_goes_out [OF True] show ?thesis
    by (auto simp: Let_def)
next
  case False
  with submit_line_other [OF False, of pw status room] sent show ?thesis by auto
qed

definition quiet_room :: "(string, string) composer_room" where
  "quiet_room = \<lparr>cr_room = empty_room, cr_menu = default_menu, cr_picker = new_picker ''s'', cr_history = [],
     cr_search = new_history_search True, cr_published = empty_snapshot, cr_wire = [], cr_wire_open = True\<rparr>"

lemma submission_is_addressed_witness:
  "(\<exists>r room'. submit_line plain_widget default_catalog '''' ''hi'' quiet_room = (r, room')
      \<and> cr_wire room' = [Submit 0 (addressed_submission ''hi'')] \<and> is_explicit_room_address (addressed_submission ''hi''))
    \<and> (\<exists>r room'. submit_line plain_widget default_catalog '''' ''/council x'' quiet_room = (r, room')
      \<and> cr_wire room' = [Submit 0 (trim ''/council x'')] \<and> \<not> is_explicit_room_address (trim ''/council x''))"
proof -
  have word: "is_word ''hi''" "is_word ''x''" "is_word ''/council''" by (simp_all add: is_word_def is_whitespace_def)
  note words = split_word(2) [OF word(1)]
  have "\<not> starts_with CHR ''/'' (trim_start ''hi'')" using first_word [OF words] by (auto simp: starts_with_def)
  with words have parsed: "parse_room_command ''hi'' default_catalog = None"
    by (simp add: parse_room_command_def Let_def)
  have council: "split_whitespace ''/council x'' = [''/council'', ''x'']"
    using split_word(1) [OF word(3), of "''x''"] split_word(2) [OF word(2)] by simp
  from first_word [OF this] have "starts_with CHR ''/'' (trim_start ''/council x'')" by (auto simp: starts_with_def)
  with council have submits: "parse_room_command ''/council x'' default_catalog = Some ParsedSubmit"
    by (simp add: parse_room_command_def Let_def)
  have start: "cr_wire_open quiet_room" "cr_wire quiet_room = []" "pd_next_id (rm_pending (cr_room quiet_room)) = 0"
    by (simp_all add: quiet_room_def empty_room_def no_restores_def)
  obtain r1 room1 where one: "submit_line plain_widget default_catalog '''' ''hi'' quiet_room = (r1, room1)" by fastforce
  obtain r2 room2 where two: "submit_line plain_widget default_catalog '''' ''/council x'' quiet_room = (r2, room2)" by fastforce
  have "is_submission default_catalog ''hi''" using parsed by (simp add: is_submission_def)
  with submission_is_addressed [OF one start(1)] start parsed
  have w1: "cr_wire room1 = [Submit 0 (addressed_submission ''hi'')]"
    and g1: "goes_out_as default_catalog ''hi'' (addressed_submission ''hi'')" by (simp_all add: Let_def)
  note e1 = goes_out_asD(1) [OF g1 parsed]
  have "is_submission default_catalog ''/council x''" using submits by (simp add: is_submission_def)
  with submission_is_addressed [OF two start(1)] start submits
  have w2: "cr_wire room2 = [Submit 0 (addressed_submission ''/council x'')]"
    and g2: "goes_out_as default_catalog ''/council x'' (addressed_submission ''/council x'')" by (simp_all add: Let_def)
  have "parse_room_command ''/council x'' default_catalog \<noteq> None" by (simp only: submits option.distinct not_False_eq_True)
  note e2 = goes_out_asD(2) [OF g2 this]
  from w2 have "cr_wire room2 = [Submit 0 (trim ''/council x'')]" unfolding conjunct1 [OF e2] .
  moreover from e2 have "\<not> is_explicit_room_address (trim ''/council x'')" by metis
  moreover note w1 e1 one two
  ultimately show ?thesis by blast
qed

text \<open>C32: Against a decoded catalog, every completion the composer's menu offers, once accepted and
  sent, is addressed explicitly and is either a submission or one of the room's own pickers, never
  a mistyped command; and the selection is on a row of the menu.\<close>

theorem completions_are_commands:
  assumes "catalog_from_host_value v = Ok catalog" "menu_snapshot draft cursor catalog menu = (Some s, menu')"
  shows "(\<forall>row \<in> set (ms_rows s). is_explicit_room_address (mr_completion row)
      \<and> parse_room_command (mr_completion row) catalog
          \<in> {None} \<union> Some ` (range ParsedModels \<union> range ParsedSkills))
    \<and> (ms_rows s \<noteq> [] \<longrightarrow> ms_selected s < length (ms_rows s)) \<and> mn_selected menu' = ms_selected s"
proof -
  have ok: "catalog_row_ok row" if "row \<in> set (catalog_rows catalog agent)" for row agent
    using catalog_decoded [OF assms(1)] that by (auto simp: catalog_ok_def list_all_iff)
  have "completes catalog (mr_completion row)" if "row \<in> set (ms_rows s)" for row
    using menu_snapshot_rows [OF assms(2) that] address_completes command_completes ok by metis
  moreover have "mn_selected menu' = ms_selected s"
    using assms(2) by (auto simp: menu_snapshot_def Let_def split: if_splits option.splits)
  ultimately show ?thesis using menu_selected_less [OF assms(2)] by (auto simp: completes_def)
qed

definition empty_catalog_value :: json where
  "empty_catalog_value = JObject
     [(''agents'', JObject [(''claude'', JArray []), (''codex'', JArray []), (''gemini'', JArray [])]),
      (''version'', JNumber (PosInt 1))]"

lemma empty_catalog: "catalog_from_host_value empty_catalog_value = Ok default_catalog"
  by (simp add: empty_catalog_value_def catalog_from_host_value_def versioned_agents_def require_exact_keys_def
      get_def expect_key_def parse_agent_rows_def MAX_CATALOG_ROWS_PER_AGENT_def default_catalog_def contains_key_def)

lemma completions_are_commands_witness:
  "\<exists>s menu'. menu_snapshot ''@'' 1 default_catalog default_menu = (Some s, menu') \<and> length (ms_rows s) = 4
    \<and> list_all (\<lambda>row. is_explicit_room_address (mr_completion row)) (ms_rows s)"
proof -
  have "\<not> has_whitespace ''@''"
    by (simp add: has_whitespace_def blank_ascii is_whitespace_def utf8_width_def)
  then have "address_context ''@'' 1 = Some (AddressContext (0, 1) '''')"
    by (simp add: address_context_def starts_with_def to_ascii_lowercase_def ADDRESS_ROWS_def)
  moreover have "agent_context ''@'' 1 = None"
    by (simp add: agent_context_def strip_first_def starts_with_def split_once_blank_def)
  ultimately obtain s menu' where s: "menu_snapshot ''@'' 1 default_catalog default_menu = (Some s, menu')"
    and rows: "ms_rows s = ms_rows (address_snapshot (0, 1) '''')"
    by (simp add: menu_snapshot_def is_char_boundary_def default_menu_def Let_def)
  from completions_are_commands [OF empty_catalog s] s rows show ?thesis
    by (simp add: list_all_iff address_snapshot_def to_ascii_lowercase_def ADDRESS_ROWS_def)
qed

subsection \<open>The permission shelf\<close>

text \<open>C30: The shelf answers every permission at most once, only while the reducer still has it
  pending, and only with one of its own options that the last frame painted, or with a denial when
  it offers none. Whatever keys, frames and events arrive, no two answers are for the same ask and
  each was allowed by the permission it names.\<close>

theorem shelf_answers_pending:
  assumes "shelf_run f ellipsis r shelf acts"
  shows "distinct (map action_ask acts)
    \<and> list_all (\<lambda>a. \<exists>p. permission r (action_ask a) = Some p \<and> allowed p a) acts
    \<and> (\<forall>draft k a shelf'. route_permission_key draft k shelf = (KeyAction a, shelf') \<longrightarrow>
        (\<exists>active p i. shelf = Some active \<and> action_ask a = ap_ask_id active
           \<and> permission r (ap_ask_id active) = Some p \<and> pm_outcome p = None \<and> allowed p a
           \<and> i \<in> set (ap_visible_choices active) \<and> a = answer_for (ap_ask_id active) (ap_choices active ! i)
           \<and> action_ask a \<notin> action_ask ` set acts))"
proof -
  note inv = shelf_run_inv [OF assms]
  have key: "\<exists>active p i. shelf = Some active \<and> action_ask a = ap_ask_id active
           \<and> permission r (ap_ask_id active) = Some p \<and> pm_outcome p = None \<and> allowed p a
           \<and> i \<in> set (ap_visible_choices active) \<and> a = answer_for (ap_ask_id active) (ap_choices active ! i)
           \<and> action_ask a \<notin> action_ask ` set acts"
    if k: "route_permission_key draft k shelf = (KeyAction a, shelf')" for draft k a shelf'
  proof -
    from k obtain active where shelf: "shelf = Some active" by (cases shelf) (auto simp: route_permission_key_def)
    then have pending: "shows_pending r active" using inv by (simp add: shelf_inv_def)
    from route_answers_once [OF k [unfolded shelf] pending] obtain active' where
      "answers_once r active active' [a]" by (auto simp: route_actions_def)
    moreover have "distinct (map action_ask (acts @ [a]))"
      using shelf_inv_key [OF inv k] by (simp add: shelf_inv_def route_actions_def)
    ultimately show ?thesis using shelf pending by (auto simp: answers_once_def shows_pending_def)
  qed
  from inv have "distinct (map action_ask acts)"
    "list_all (\<lambda>a. \<exists>p. permission r (action_ask a) = Some p \<and> allowed p a) acts"
    by (auto simp: shelf_inv_def list_all_iff answered_ok_def)
  with key show ?thesis by blast
qed

lemma shelf_answers_pending_witness:
  "\<exists>shelf. shelf_run (\<lambda>_. True) ''.'' (room_after waiting_ask) shelf [SelectOption ''a'' ''yes'']
    \<and> distinct (map action_ask [SelectOption ''a'' ''yes''])"
proof -
  have "shelf_run (\<lambda>_. True) ''.'' (room_after waiting_ask) (Some shown_ask) []"
    using shelf_run.opened [OF room_after_reachable [OF ask_accepted], of "''.''"] shown_ask_facts(1) by simp
  then have shown: "shelf_run (\<lambda>_. True) ''.'' (room_after waiting_ask) (Some (render_shelf plain_console 40 3 shown_ask)) []"
    by (rule shelf_run.painted)
  obtain shelf where "route_permission_key '''' digit_one (Some (render_shelf plain_console 40 3 shown_ask))
      = (KeyAction (SelectOption ''a'' ''yes''), shelf)" using digit_answers by blast
  from shelf_run.key [OF shown this]
  have run: "shelf_run (\<lambda>_. True) ''.'' (room_after waiting_ask) shelf [SelectOption ''a'' ''yes'']"
    by (simp add: route_actions_def)
  have "distinct (map action_ask [SelectOption ''a'' ''yes''])"
    by (rule shelf_answers_pending [OF run, THEN conjunct1])
  with run show ?thesis by (intro exI [of _ shelf] conjI)
qed

end
