(* ===== verification/Pager_Meters.thy ===== *)
theory Pager_Meters
  imports Pager_Permission
begin

section \<open>Usage meters\<close>

text \<open>
  \<open>app/room_usage_meters.rs\<close>, which decides what an agent's usage shows and what goes when it does
  not fit, and the footer's use of it (\<open>usage_suffix\<close> and the fragments of \<open>app/room_runtime.rs\<close>).
  A fragment is a text with its shade; the theme that gives a shade its colour is not modelled.
\<close>

definition WEEKLY_LOW_THRESHOLD :: u8 where "WEEKLY_LOW_THRESHOLD = 70"

datatype meter_kind = MeterContext | MeterFiveHour | MeterWeekly

record meter =
  mt_kind :: meter_kind
  mt_pct :: u8

fun meter_label :: "meter_kind \<Rightarrow> string" where
  "meter_label MeterContext = ''ctx''"
| "meter_label MeterFiveHour = ''5h''"
| "meter_label MeterWeekly = ''wk''"

subsection \<open>Which meters show\<close>

definition window_is_fresh :: "u64 option \<Rightarrow> u64 \<Rightarrow> bool" where
  "window_is_fresh resets_at_ms now_ms = (case resets_at_ms of None \<Rightarrow> True | Some reset \<Rightarrow> reset > now_ms)"

definition weekly_is_worth_the_width :: "agent_usage_state \<Rightarrow> bool" where
  "weekly_is_worth_the_width usage \<longleftrightarrow>
     us_five_hour_used_pct usage = None
     \<or> (case us_weekly_used_pct usage of None \<Rightarrow> 0 | Some p \<Rightarrow> p) \<ge> WEEKLY_LOW_THRESHOLD"

definition visible_meters :: "agent_usage_state \<Rightarrow> u64 \<Rightarrow> meter list" where
  "visible_meters usage now_ms =
     (case us_context_used_pct usage of None \<Rightarrow> [] | Some pct \<Rightarrow> [\<lparr>mt_kind = MeterContext, mt_pct = pct\<rparr>])
     @ (case us_five_hour_used_pct usage of None \<Rightarrow> []
        | Some pct \<Rightarrow>
            if window_is_fresh (us_five_hour_resets_at_ms usage) now_ms
            then [\<lparr>mt_kind = MeterFiveHour, mt_pct = pct\<rparr>] else [])
     @ (case us_weekly_used_pct usage of None \<Rightarrow> []
        | Some pct \<Rightarrow>
            if weekly_is_worth_the_width usage \<and> window_is_fresh (us_weekly_resets_at_ms usage) now_ms
            then [\<lparr>mt_kind = MeterWeekly, mt_pct = pct\<rparr>] else [])"

subsection \<open>What fits\<close>

definition meter_text :: "meter \<Rightarrow> string" where
  "meter_text m = meter_label (mt_kind m) @ show_nat (unat (mt_pct m)) @ ''%''"

definition dense_meter_text :: "meter list \<Rightarrow> string" where
  "dense_meter_text meters = join '' '' (map meter_text meters)"

text \<open>The loop over \<open>(1..meters.len()).rev()\<close>.\<close>

fun longest_fitting :: "(string \<Rightarrow> nat) \<Rightarrow> meter list \<Rightarrow> nat \<Rightarrow> string \<Rightarrow> nat \<Rightarrow> nat option" where
  "longest_fitting w meters available marker 0 = None"
| "longest_fitting w meters available marker (Suc k) =
     (if w (dense_meter_text (take (Suc k) meters) @ marker) \<le> available then Some (Suc k)
      else longest_fitting w meters available marker k)"

definition fit_compact_kept ::
  "(string \<Rightarrow> nat) \<Rightarrow> meter list \<Rightarrow> nat \<Rightarrow> string \<Rightarrow> meter list \<times> bool" where
  "fit_compact_kept w meters available marker =
     (if w (dense_meter_text meters) \<le> available then (meters, False)
      else
        case longest_fitting w meters available marker (length meters - 1) of
          Some keep \<Rightarrow> (take keep meters, True)
        | None \<Rightarrow> ([], w marker \<le> available))"

subsection \<open>The footer's fragments\<close>

datatype shade =
    ShadeAttention | ShadeDead | ShadeWarning | ShadeDim | ShadeFaint
  | ShadeBrand string | ShadeRest string

record footer_glyphs =
  fg_context :: string
  fg_quota_filled :: string
  fg_quota_empty :: string
  fg_mark :: "string \<Rightarrow> string"

definition meter_color :: "u8 \<Rightarrow> bool \<Rightarrow> shade" where
  "meter_color pct exhausted =
     (if exhausted \<or> pct \<ge> 85 then ShadeDead else if pct \<ge> 70 then ShadeWarning else ShadeDim)"

definition usage_exhausted_now :: "agent_usage_state \<Rightarrow> u64 \<Rightarrow> bool" where
  "usage_exhausted_now usage now_ms \<longleftrightarrow>
     us_exhausted usage
     \<and> (let reset_times = List.map_filter id [us_five_hour_resets_at_ms usage, us_weekly_resets_at_ms usage] in
        reset_times = [] \<or> list_ex (\<lambda>reset. reset > now_ms) reset_times)"

definition quota_bar :: "footer_glyphs \<Rightarrow> u8 \<Rightarrow> string" where
  "quota_bar fg pct =
     (let filled = min ((unat pct + 19) div 20) 5 in
      concat (replicate filled (fg_quota_filled fg)) @ concat (replicate (5 - filled) (fg_quota_empty fg)))"

definition rich_part :: "footer_glyphs \<Rightarrow> bool \<Rightarrow> bool \<Rightarrow> meter \<Rightarrow> string \<times> shade" where
  "rich_part fg exhausted first m =
     (let prefix = (if first then '' '' else ''  ''); pct = show_nat (unat (mt_pct m)) in
      (case mt_kind m of
         MeterContext \<Rightarrow> prefix @ fg_context fg @ '' ctx '' @ pct @ ''%''
       | MeterFiveHour \<Rightarrow> prefix @ quota_bar fg (mt_pct m) @ '' 5h '' @ pct @ ''%''
       | MeterWeekly \<Rightarrow> prefix @ ''wk '' @ pct @ ''%'',
       meter_color (mt_pct m) exhausted))"

definition rich_usage_parts :: "footer_glyphs \<Rightarrow> meter list \<Rightarrow> bool \<Rightarrow> (string \<times> shade) list" where
  "rich_usage_parts fg meters exhausted =
     (case meters of [] \<Rightarrow> [] | m # ms \<Rightarrow> rich_part fg exhausted True m # map (rich_part fg exhausted False) ms)"

definition compact_usage_parts :: "meter list \<Rightarrow> bool \<Rightarrow> string \<Rightarrow> bool \<Rightarrow> (string \<times> shade) list" where
  "compact_usage_parts kept needs_marker marker exhausted =
     map (\<lambda>m. ('' '' @ meter_text m, meter_color (mt_pct m) exhausted)) kept
     @ (if needs_marker then [((if kept = [] then '' '' else '''') @ marker, ShadeDim)] else [])"

definition parts_width :: "(string \<Rightarrow> nat) \<Rightarrow> (string \<times> shade) list \<Rightarrow> nat" where
  "parts_width w parts = sum_list (map (w \<circ> fst) parts)"

definition usage_suffix ::
  "console \<Rightarrow> footer_glyphs \<Rightarrow> agent_usage_state \<Rightarrow> nat \<Rightarrow> u64 \<Rightarrow> (string \<times> shade) list option" where
  "usage_suffix cn fg usage available now_ms =
     (let meters = visible_meters usage now_ms;
          exhausted = usage_exhausted_now usage now_ms;
          rich = rich_usage_parts fg meters exhausted in
      if meters = [] then None
      else if parts_width (cn_width cn) rich \<le> available then Some rich
      else
        case fit_compact_kept (cn_width cn) meters (available - 1) (cn_ellipsis cn) of
          (kept, needs_marker) \<Rightarrow>
            if kept = [] \<and> \<not> needs_marker then None
            else Some (compact_usage_parts kept needs_marker (cn_ellipsis cn) exhausted))"

subsection \<open>Readings are whole\<close>

text \<open>
  What the proofs need of \<open>unicode-width\<close>: printable ASCII takes a column a character, also in front
  of the marker.
\<close>

definition printable :: "string \<Rightarrow> bool" where
  "printable s \<longleftrightarrow> list_all (\<lambda>c. 32 \<le> (of_char c :: nat) \<and> (of_char c :: nat) < 127) s"

definition plain_width :: "(string \<Rightarrow> nat) \<Rightarrow> string \<Rightarrow> bool" where
  "plain_width w marker \<longleftrightarrow> 0 < w marker \<and> (\<forall>s. printable s \<longrightarrow> w s = length s \<and> w (s @ marker) = length s + w marker)"

lemma printable_Nil [simp]: "printable []"
  by (simp add: printable_def)

lemma printable_append [simp]: "printable (a @ b) \<longleftrightarrow> printable a \<and> printable b"
  by (simp add: printable_def)

lemma printable_show_nat [simp]: "printable (show_nat n)"
  by (induction n rule: show_nat.induct) (subst show_nat.simps, auto simp: printable_def digit_char_def)

lemma printable_meter [simp]: "printable (meter_text m)"
proof -
  have "printable (meter_label (mt_kind m))" by (cases "mt_kind m") (simp_all add: printable_def)
  moreover have "printable ''%''" by (simp add: printable_def)
  ultimately show ?thesis by (simp add: meter_text_def)
qed

lemma printable_join: "printable sep \<Longrightarrow> list_all printable ts \<Longrightarrow> printable (join sep ts)"
  by (induction sep ts rule: join.induct) auto

lemma printable_space: "printable '' ''"
  by (simp add: printable_def)

lemma printable_dense [simp]: "printable (dense_meter_text ms)"
  by (simp add: dense_meter_text_def printable_join printable_space list_all_iff)

lemma join_length: "ts \<noteq> [] \<Longrightarrow> length (join '' '' ts) + 1 = sum_list (map (\<lambda>t. 1 + length t) ts)"
  by (induction "'' ''" ts rule: join.induct) auto

lemma longest_fitting_spec:
  "longest_fitting w ms available marker n = Some k \<Longrightarrow>
     0 < k \<and> k \<le> n \<and> w (dense_meter_text (take k ms) @ marker) \<le> available
     \<and> (\<forall>j. k < j \<longrightarrow> j \<le> n \<longrightarrow> available < w (dense_meter_text (take j ms) @ marker))"
  "longest_fitting w ms available marker n = None \<Longrightarrow>
     (\<forall>j. 0 < j \<longrightarrow> j \<le> n \<longrightarrow> available < w (dense_meter_text (take j ms) @ marker))"
  by (induction n) (auto simp: le_Suc_eq split: if_splits)

lemma meter_text_shape: "meter_text m \<noteq> []"
  by (simp add: meter_text_def)

text \<open>The width of the compact form: a space before each reading, and the marker.\<close>

lemma compact_width:
  assumes "plain_width w marker"
  shows "parts_width w (compact_usage_parts kept needs_marker marker exhausted) =
      (if kept = [] then 0 else length (dense_meter_text kept) + 1)
      + (if needs_marker then (if kept = [] then 1 else 0) + w marker else 0)"
proof -
  have plain: "w s = length s" "w (s @ marker) = length s + w marker" if "printable s" for s
    using assms that by (auto simp: plain_width_def)
  have "w ('' '' @ meter_text m) = 1 + length (meter_text m)" for m
    using plain(1) [of "'' '' @ meter_text m", unfolded printable_append, OF conjI, OF printable_space printable_meter] by simp
  then have "sum_list (map (\<lambda>m. w ('' '' @ meter_text m)) kept) = sum_list (map (\<lambda>t. 1 + length t) (map meter_text kept))"
    by (simp add: o_def)
  also have "\<dots> = (if kept = [] then 0 else length (dense_meter_text kept) + 1)"
    using join_length [of "map meter_text kept"] by (simp add: dense_meter_text_def)
  finally show ?thesis
    using plain(2) [of "'' ''"] plain(2) [of "[]"] printable_space
    by (auto simp: parts_width_def compact_usage_parts_def o_def)
qed

definition shows_prefix ::
  "console \<Rightarrow> meter list \<Rightarrow> bool \<Rightarrow> nat \<Rightarrow> (string \<times> shade) list \<Rightarrow> nat \<Rightarrow> bool" where
  "shows_prefix cn meters exhausted available parts k \<longleftrightarrow>
     k \<le> length meters
     \<and> parts = compact_usage_parts (take k meters) (k < length meters) (cn_ellipsis cn) exhausted
     \<and> (\<forall>j. k < j \<longrightarrow> j < length meters \<longrightarrow>
          available < parts_width (cn_width cn) (compact_usage_parts (take j meters) True (cn_ellipsis cn) exhausted))
     \<and> (k < length meters \<longrightarrow>
          available < parts_width (cn_width cn) (compact_usage_parts meters False (cn_ellipsis cn) exhausted))"

lemma usage_suffix_whole:
  assumes plain: "plain_width (cn_width cn) (cn_ellipsis cn)"
    and suffix: "usage_suffix cn fg usage available now_ms = Some parts"
  defines "meters \<equiv> visible_meters usage now_ms" and "exhausted \<equiv> usage_exhausted_now usage now_ms"
  shows "parts_width (cn_width cn) parts \<le> available
    \<and> (parts = rich_usage_parts fg meters exhausted \<or> (\<exists>k. shows_prefix cn meters exhausted available parts k))"
proof (cases "parts_width (cn_width cn) (rich_usage_parts fg meters exhausted) \<le> available")
  case True
  with suffix show ?thesis by (auto simp: usage_suffix_def meters_def exhausted_def Let_def split: if_splits)
next
  case False
  let ?w = "cn_width cn" and ?marker = "cn_ellipsis cn"
  obtain kept needs where fit: "fit_compact_kept ?w meters (available - 1) ?marker = (kept, needs)" by fastforce
  from suffix False fit have ne: "meters \<noteq> []" and shown: "\<not> (kept = [] \<and> \<not> needs)"
    and parts: "parts = compact_usage_parts kept needs ?marker exhausted"
    by (auto simp: usage_suffix_def meters_def exhausted_def Let_def split: if_splits)
  note width = compact_width [OF plain]
  have dense: "?w (dense_meter_text ms) = length (dense_meter_text ms)"
    "?w (dense_meter_text ms @ ?marker) = length (dense_meter_text ms) + ?w ?marker" for ms
    using plain by (auto simp: plain_width_def)
  have wm: "0 < ?w ?marker" using plain by (simp add: plain_width_def)
  have long: "0 < length (dense_meter_text ms)" if "ms \<noteq> []" for ms
    using that by (cases ms; cases "tl ms") (auto simp: dense_meter_text_def meter_text_shape)
  consider (all) "?w (dense_meter_text meters) \<le> available - 1" "kept = meters" "\<not> needs"
    | (some) k where "available - 1 < ?w (dense_meter_text meters)"
        "longest_fitting ?w meters (available - 1) ?marker (length meters - 1) = Some k" "kept = take k meters" "needs"
    | (none) "available - 1 < ?w (dense_meter_text meters)"
        "longest_fitting ?w meters (available - 1) ?marker (length meters - 1) = None" "kept = []" "needs" "?w ?marker \<le> available - 1"
    using fit shown by (auto simp: fit_compact_kept_def split: if_splits option.splits)
  then show ?thesis
  proof cases
    case all
    then have "shows_prefix cn meters exhausted available parts (length meters)"
      by (simp add: shows_prefix_def parts)
    moreover have "length (dense_meter_text meters) + 1 \<le> available"
      using all(1) long [OF ne] unfolding dense by linarith
    then have "parts_width ?w parts \<le> available" using ne by (simp add: parts all(2,3) width)
    ultimately show ?thesis by blast
  next
    case some
    note spec = longest_fitting_spec(1) [OF some(2)]
    then have k: "take k meters \<noteq> []" "k < length meters" using ne by (auto simp: less_eq_Suc_le)
    have "shows_prefix cn meters exhausted available parts k"
      using spec k some ne unfolding shows_prefix_def parts width by (auto simp: dense)
    moreover from spec k wm have "parts_width ?w parts \<le> available" by (auto simp: parts some width dense)
    ultimately show ?thesis by blast
  next
    case none
    note spec = longest_fitting_spec(2) [OF none(2)]
    have "available < Suc (length (dense_meter_text (take j meters)) + ?w ?marker)" if "0 < j" "j < length meters" for j
      using spec [rule_format, of j] that unfolding dense by linarith
    then have "shows_prefix cn meters exhausted available parts 0"
      using none ne unfolding shows_prefix_def parts width by (auto simp: dense)
    moreover have "parts_width ?w parts \<le> available" using none wm by (auto simp: parts width)
    ultimately show ?thesis by blast
  qed
qed

end
