(* ===== verification/Pager_Health.thy ===== *)
theory Pager_Health
  imports Pager_Meters
begin

section \<open>The footer and what it remembers\<close>

text \<open>
  The footer of \<open>app/room_runtime.rs\<close>: which word an agent that cannot work wears, the memory that
  keeps it (\<open>spent_lanes\<close>), the deadline at which it goes by the clock alone
  (\<open>health_reset_due_ms\<close>), and the rows and the \<open>/status\<close> line built from it. The working directory
  is an argument; a line is its fragments.
\<close>

record footer_room =
  fr_reducer :: reducer
  fr_shelf :: "active_permission option"
  fr_readiness :: room_readiness
  fr_spent_lanes :: "string set"
  fr_health_reset_due_ms :: "u64 option"

definition roster :: "string list" where
  "roster = [''claude'', ''codex'', ''gemini'']"

subsection \<open>Health\<close>

definition active_availability :: "agent_status_state \<Rightarrow> u64 \<Rightarrow> agent_availability_state option" where
  "active_availability status now_ms =
     (if (case as_availability_resets_at_ms status of None \<Rightarrow> False | Some reset \<Rightarrow> reset \<le> now_ms)
      then None else as_availability status)"

datatype footer_health = OutOfUsage | NeedsSignIn | Offline

fun health_word :: "footer_health \<Rightarrow> string" where
  "health_word OutOfUsage = ''out of usage''"
| "health_word NeedsSignIn = ''needs sign-in''"
| "health_word Offline = ''offline''"

definition footer_health_of :: "agent_status_state \<Rightarrow> u64 \<Rightarrow> footer_health option" where
  "footer_health_of status now_ms =
     (let down = (if as_auth status = Some AuthDown then Some Offline else None) in
      case active_availability status now_ms of
        Some AvailExhausted \<Rightarrow> Some OutOfUsage
      | Some AvailNeedsAuth \<Rightarrow> Some NeedsSignIn
      | Some AvailLocalBlocked \<Rightarrow> Some Offline
      | _ \<Rightarrow> down)"

definition agent_footer_health :: "footer_room \<Rightarrow> string \<Rightarrow> u64 \<Rightarrow> footer_health option" where
  "agent_footer_health room agent now_ms =
     Option.bind (agent_status (fr_reducer room) agent) (\<lambda>status.
     Option.bind (footer_health_of status now_ms) (\<lambda>health.
       if health = Offline
          \<and> active_availability status now_ms = Some AvailLocalBlocked
          \<and> agent \<in> fr_spent_lanes room
          \<and> (case as_availability_resets_at_ms status of None \<Rightarrow> True | Some reset \<Rightarrow> reset > now_ms)
       then Some OutOfUsage
       else Some health))"

definition reconcile_spent_lanes :: "footer_room \<Rightarrow> footer_room" where
  "reconcile_spent_lanes room =
     (let availability = (\<lambda>agent. map_option as_availability (agent_status (fr_reducer room) agent));
          spent = filter (\<lambda>agent. availability agent = Some (Some AvailExhausted)) roster;
          recovered = filter (\<lambda>agent. availability agent = Some (Some AvailReady)) roster
      in room\<lparr>fr_spent_lanes := (fr_spent_lanes room \<union> set spent) - set recovered\<rparr>)"

definition painted_health_reset_due :: "footer_room \<Rightarrow> u64 \<Rightarrow> u64 option" where
  "painted_health_reset_due room now_ms =
     (let resets =
        filter (\<lambda>reset. reset > now_ms)
          (List.map_filter
            (\<lambda>agent. Option.bind (agent_status (fr_reducer room) agent) as_availability_resets_at_ms)
            (filter (\<lambda>agent. agent_footer_health room agent now_ms \<noteq> None) roster))
      in if resets = [] then None else Some (Min (set resets)))"

definition reconcile_health_reset_at :: "u64 \<Rightarrow> footer_room \<Rightarrow> bool \<times> footer_room" where
  "reconcile_health_reset_at now_ms room =
     ((case fr_health_reset_due_ms room of None \<Rightarrow> False | Some due \<Rightarrow> now_ms \<ge> due),
      room\<lparr>fr_health_reset_due_ms := painted_health_reset_due room now_ms\<rparr>)"

definition status_is_limited :: "agent_status_state \<Rightarrow> u64 \<Rightarrow> bool" where
  "status_is_limited status now_ms \<longleftrightarrow>
     as_auth status = Some AuthLimited
     \<and> (let resets = List.map_filter id
              [as_availability_resets_at_ms status,
               Option.bind (as_usage status) us_five_hour_resets_at_ms,
               Option.bind (as_usage status) us_weekly_resets_at_ms]
        in resets = [] \<or> list_ex (\<lambda>reset. reset > now_ms) resets)"

definition health_phrase :: "console \<Rightarrow> footer_health \<Rightarrow> nat \<Rightarrow> string" where
  "health_phrase cn health available =
     (if cn_width cn (health_word health) \<le> available then health_word health else [])"

definition STATUS_PHRASE_WIDTH :: nat where "STATUS_PHRASE_WIDTH = 65535"

subsection \<open>Readiness and mode\<close>

definition agent_readiness :: "footer_room \<Rightarrow> string \<Rightarrow> room_agent_readiness" where
  "agent_readiness room agent =
     (if agent = ''claude'' then rr_claude (fr_readiness room)
      else if agent = ''codex'' then rr_codex (fr_readiness room)
      else rr_gemini (fr_readiness room))"

definition readiness_suffix :: "room_agent_readiness \<Rightarrow> agent_status_state option \<Rightarrow> (string \<times> shade) option" where
  "readiness_suffix readiness status =
     (if (case status of None \<Rightarrow> False | Some s \<Rightarrow> as_auth s = Some AuthReady) then None
      else
        case readiness of
          NeedsLogin _ \<Rightarrow> Some ('' sign in'', ShadeWarning)
        | Unusable _ _ \<Rightarrow> Some ('' unavailable'', ShadeDead)
        | Ready \<Rightarrow> None
        | Unknown \<Rightarrow> None)"

definition mode_suffix :: "agent_mode_state option \<Rightarrow> (string \<times> shade) option" where
  "mode_suffix mode = map_option (\<lambda>word. ('' '' @ word, ShadeDim)) (Option.bind mode am_word)"

definition footer_mode_metadata :: "reducer \<Rightarrow> string option" where
  "footer_mode_metadata r =
     (let modes = List.map_filter (agent_mode r) roster in
      if modes = [] then None
      else if length modes \<noteq> 3 \<or> list_ex (\<lambda>m. am_word m = None) modes then None
      else
        let first = the (am_word (hd modes)) in
        if list_all (\<lambda>m. am_word m = Some first) modes
        then Some (if first \<in> {''plan'', ''careful'', ''edits'', ''auto'', ''strict'', ''smart''}
                   then first @ '' mode'' else ''mixed modes'')
        else Some ''mixed modes'')"

definition dash :: string where
  "dash = '' '' @ [CHR 0xE2, CHR 0x80, CHR 0x94] @ '' ''"

definition boot_remedy_lines :: "room_readiness \<Rightarrow> string list" where
  "boot_remedy_lines readiness =
     (let line = (\<lambda>(agent, state).
            case state of
              NeedsLogin command \<Rightarrow> [agent @ '' needs a sign-in'' @ dash @ ''run: '' @ command]
            | Unusable reason remedy \<Rightarrow> [agent @ '': '' @ reason @ dash @ remedy]
            | Ready \<Rightarrow> []
            | Unknown \<Rightarrow> []);
          lines = concat (map line
            [(''claude'', rr_claude readiness), (''codex'', rr_codex readiness), (''gemini'', rr_gemini readiness)])
      in if length lines = 3 then lines @ [''m0irai itself needs no account.''] else lines)"

subsection \<open>Cells and rows\<close>

definition as_u16 :: "nat \<Rightarrow> nat" where "as_u16 n = n mod 65536"
definition saturating_add16 :: "nat \<Rightarrow> nat \<Rightarrow> nat" where "saturating_add16 a b = min 65535 (a + b)"

definition truncate_width :: "console \<Rightarrow> string \<Rightarrow> nat \<Rightarrow> string" where
  "truncate_width cn value width =
     (if cn_width cn value \<le> width then value
      else if width = 0 then []
      else concat (fitting cn 0 (width - cn_width cn (cn_ellipsis cn)) (char_pieces value)) @ cn_ellipsis cn)"

text \<open>A line under construction: its fragments and its width so far.\<close>

type_synonym footer_cell = "(string \<times> shade) list \<times> nat"

definition append_footer_suffix :: "console \<Rightarrow> nat \<Rightarrow> string \<times> shade \<Rightarrow> footer_cell \<Rightarrow> footer_cell" where
  "append_footer_suffix cn cell_width word cell =
     (case cell of (spans, width) \<Rightarrow>
        let text = truncate_width cn (fst word) (cell_width - width) in
        (spans @ [(text, snd word)], saturating_add16 width (as_u16 (cn_width cn text))))"

fun append_footer_suffix_parts ::
  "console \<Rightarrow> nat \<Rightarrow> (string \<times> shade) list \<Rightarrow> footer_cell \<Rightarrow> footer_cell" where
  "append_footer_suffix_parts cn cell_width [] cell = cell"
| "append_footer_suffix_parts cn cell_width (part # parts) cell =
     (case cell of (spans, width) \<Rightarrow>
        let remaining = cell_width - width; text = truncate_width cn (fst part) remaining in
        if remaining = 0 then cell
        else if text = [] then append_footer_suffix_parts cn cell_width parts cell
        else append_footer_suffix_parts cn cell_width parts
               (spans @ [(text, snd part)], saturating_add16 width (as_u16 (cn_width cn text))))"

definition identity_shade :: "footer_room \<Rightarrow> string \<Rightarrow> u64 \<Rightarrow> shade" where
  "identity_shade room agent now_ms =
     (let status = agent_status (fr_reducer room) agent;
          pending = (case fr_shelf room of None \<Rightarrow> False | Some active \<Rightarrow> ap_agent active = agent) in
      if pending then ShadeAttention
      else if agent_footer_health room agent now_ms \<noteq> None then ShadeDead
      else if readiness_suffix (agent_readiness room agent) status \<noteq> None then ShadeFaint
      else if lane_busy (fr_reducer room) (Some agent) then ShadeBrand agent
      else ShadeRest agent)"

definition chip_word :: "footer_room \<Rightarrow> string \<Rightarrow> u64 \<Rightarrow> (string \<times> shade) option" where
  "chip_word room agent now_ms =
     (let status = agent_status (fr_reducer room) agent;
          health = agent_footer_health room agent now_ms;
          health_suffix =
            (if health \<noteq> None then None
             else if (case status of None \<Rightarrow> False | Some s \<Rightarrow> status_is_limited s now_ms)
             then Some ('' limited'', ShadeWarning)
             else if (case status of None \<Rightarrow> False | Some s \<Rightarrow> active_availability s now_ms = Some AvailRetrying)
             then Some ('' retrying'', ShadeWarning)
             else None)
      in if health \<noteq> None then None
         else opt_or health_suffix (readiness_suffix (agent_readiness room agent) status))"

definition footer_agent_cell ::
  "console \<Rightarrow> footer_glyphs \<Rightarrow> footer_room \<Rightarrow> string \<Rightarrow> nat \<Rightarrow> u64 \<Rightarrow> footer_cell" where
  "footer_agent_cell cn fg room agent cell_width now_ms =
     (let status = agent_status (fr_reducer room) agent;
          mark = fg_mark fg agent;
          cell0 = ([(mark, identity_shade room agent now_ms)], as_u16 (cn_width cn mark));
          cell1 = (case mode_suffix (agent_mode (fr_reducer room) agent) of
              None \<Rightarrow> cell0 | Some word \<Rightarrow> append_footer_suffix cn cell_width word cell0)
      in case chip_word room agent now_ms of
           Some word \<Rightarrow> append_footer_suffix cn cell_width word cell1
         | None \<Rightarrow>
             (case Option.bind (Option.bind status as_usage)
                     (\<lambda>usage. usage_suffix cn fg usage (cell_width - snd cell1) now_ms) of
                Some parts \<Rightarrow> append_footer_suffix_parts cn cell_width parts cell1
              | None \<Rightarrow> cell1))"

definition blanks :: "nat \<Rightarrow> string" where
  "blanks n = replicate n CHR '' ''"

text \<open>The widths of the three cells.\<close>

definition cell_widths :: "nat \<Rightarrow> nat list" where
  "cell_widths logical_width =
     map (\<lambda>i. logical_width div 3 + (if i < logical_width mod 3 then 1 else 0)) [0, 1, 2]"

definition footer_state_row ::
  "console \<Rightarrow> footer_room \<Rightarrow> nat \<Rightarrow> nat \<Rightarrow> u64 \<Rightarrow> (string \<times> shade) list option" where
  "footer_state_row cn room logical_width width now_ms =
     (let phrases = map (\<lambda>(agent, cell_width).
            case agent_footer_health room agent now_ms of
              None \<Rightarrow> ([], cell_width)
            | Some health \<Rightarrow> (health_phrase cn health cell_width, cell_width)) (zip roster (cell_widths logical_width));
          cells = map (\<lambda>(phrase, cell_width).
            let text = truncate_width cn phrase cell_width in
            [(text, ShadeDead), (blanks (cell_width - as_u16 (cn_width cn text)), ShadeDim)]) phrases
      in if list_ex (\<lambda>(phrase, _). phrase \<noteq> []) phrases
         then Some (concat cells @ [(blanks (width - logical_width), ShadeDim)]) else None)"

definition last_segment :: "string \<Rightarrow> string" where
  "last_segment s = rev (takeWhile (\<lambda>c. c \<noteq> CHR ''-'') (rev s))"

definition room_footer_at ::
  "console \<Rightarrow> footer_glyphs \<Rightarrow> string \<Rightarrow> footer_room \<Rightarrow> nat \<Rightarrow> u64 \<Rightarrow> (string \<times> shade) list list" where
  "room_footer_at cn fg cwd room width now_ms =
     (let logical_width = min width 180;
          cell = (\<lambda>(agent, cell_width).
            case footer_agent_cell cn fg room agent cell_width now_ms of
              (spans, used) \<Rightarrow> spans @ [(blanks (cell_width - used), ShadeDim)]);
          identities = concat (map cell (zip roster (cell_widths logical_width)))
                       @ [(blanks (width - logical_width), ShadeDim)];
          session = (case session_id (fr_reducer room) of None \<Rightarrow> ''room'' | Some i \<Rightarrow> last_segment i);
          metadata = ''m0irai'' @ middle_dot @ ''#'' @ session
            @ (if width \<ge> 120 \<and> cwd \<noteq> [] then middle_dot @ truncate_width cn cwd (width - 48) else [])
            @ (case footer_mode_metadata (fr_reducer room) of None \<Rightarrow> [] | Some mode \<Rightarrow> middle_dot @ mode)
      in identities
         # (case footer_state_row cn room logical_width width now_ms of None \<Rightarrow> [] | Some row \<Rightarrow> [row])
         @ [[(truncate_width cn metadata width, ShadeFaint)]])"

definition room_status_summary_at :: "console \<Rightarrow> footer_glyphs \<Rightarrow> footer_room \<Rightarrow> u64 \<Rightarrow> string" where
  "room_status_summary_at cn fg room now_ms =
     join ('' '' @ middle_dot @ '' '')
       (map (\<lambda>agent.
          let chip = trim (concat (map fst (fst (footer_agent_cell cn fg room agent 72 now_ms)))) in
          case agent_footer_health room agent now_ms of
            Some health \<Rightarrow> chip @ dash @ health_phrase cn health STATUS_PHRASE_WIDTH
          | None \<Rightarrow> chip) roster)"

subsection \<open>The memory of a spent agent\<close>

text \<open>
  \<open>health_run f room seen\<close>: the footer's state in a running room, and for each agent the
  availabilities its status has had: the one the room opened with, then the one after each event
  and snapshot. The loop opens a room with a reducer that may hold any status and with an empty
  memory, and reads no status into it before the first event or snapshot. Time may be polled at any
  moment.
\<close>

definition availability_now :: "reducer \<Rightarrow> string \<Rightarrow> agent_availability_state option" where
  "availability_now r agent = Option.bind (agent_status r agent) as_availability"

inductive health_run ::
  "(string \<Rightarrow> bool) \<Rightarrow> footer_room \<Rightarrow> (string \<Rightarrow> agent_availability_state option list) \<Rightarrow> bool" for f where
  opened: "fr_spent_lanes room = {} \<Longrightarrow>
    health_run f room (\<lambda>agent. [availability_now (fr_reducer room) agent])"
| event: "health_run f room seen \<Longrightarrow> apply_event f e (fr_reducer room) = (Ok d, r) \<Longrightarrow>
    health_run f (reconcile_spent_lanes (room\<lparr>fr_reducer := r\<rparr>)) (\<lambda>agent. seen agent @ [availability_now r agent])"
| snapshot: "health_run f room seen \<Longrightarrow>
    health_run f (reconcile_spent_lanes (room\<lparr>fr_reducer := r\<rparr>)) (\<lambda>agent. seen agent @ [availability_now r agent])"
| polled: "health_run f room seen \<Longrightarrow> health_run f (snd (reconcile_health_reset_at now_ms room)) seen"
| readied: "health_run f room seen \<Longrightarrow> health_run f (room\<lparr>fr_readiness := readiness, fr_shelf := shelf\<rparr>) seen"

text \<open>The last word on whether an agent's account is spent: \<open>exhausted\<close> or \<open>ready\<close>.\<close>

definition last_said_exhausted :: "agent_availability_state option list \<Rightarrow> bool" where
  "last_said_exhausted vs \<longleftrightarrow>
     (let said = filter (\<lambda>v. v = Some AvailExhausted \<or> v = Some AvailReady) vs in
      said \<noteq> [] \<and> last said = Some AvailExhausted)"

lemma last_said_snoc:
  "last_said_exhausted (vs @ [v]) \<longleftrightarrow>
     v = Some AvailExhausted \<or> (v \<noteq> Some AvailReady \<and> last_said_exhausted vs)"
  by (auto simp: last_said_exhausted_def Let_def)

lemma reconcile_spent:
  "agent \<in> fr_spent_lanes (reconcile_spent_lanes (room\<lparr>fr_reducer := r\<rparr>)) \<longleftrightarrow>
     (agent \<in> set roster \<and> availability_now r agent = Some AvailExhausted
      \<or> agent \<in> fr_spent_lanes room \<and> (agent \<in> set roster \<longrightarrow> availability_now r agent \<noteq> Some AvailReady))"
  by (auto simp: reconcile_spent_lanes_def availability_now_def Let_def Option.bind_eq_Some_conv)

lemma memory_step:
  assumes "fr_spent_lanes room = {agent \<in> set roster. last_said_exhausted (seen agent)}"
  shows "fr_spent_lanes (reconcile_spent_lanes (room\<lparr>fr_reducer := r\<rparr>)) =
    {agent \<in> set roster. last_said_exhausted (seen agent @ [availability_now r agent])}"
  unfolding set_eq_iff mem_Collect_eq reconcile_spent last_said_snoc assms by blast

lemma health_run_seen: "health_run f room seen \<Longrightarrow> seen agent \<noteq> []"
  by (induction rule: health_run.induct) simp_all

lemma health_run_memory:
  "health_run f room seen \<Longrightarrow>
     fr_spent_lanes room = {agent \<in> set roster. last_said_exhausted (tl (seen agent))}"
proof (induction rule: health_run.induct)
  case (opened room)
  then show ?case by (simp add: last_said_exhausted_def)
next
  case (event room seen e d r)
  from memory_step [OF event.IH] show ?case using health_run_seen [OF event.hyps(1)] by simp
next
  case (snapshot room seen r)
  from memory_step [OF snapshot.IH] show ?case using health_run_seen [OF snapshot.hyps] by simp
qed (simp_all add: reconcile_health_reset_at_def)

text \<open>The word of an agent that its status calls locally blocked, and no reset has passed.\<close>

lemma blocked_word:
  assumes "agent_status (fr_reducer room) agent = Some status"
    and "active_availability status now_ms = Some AvailLocalBlocked"
  shows "agent_footer_health room agent now_ms =
      Some (if agent \<in> fr_spent_lanes room then OutOfUsage else Offline)"
proof -
  have "case as_availability_resets_at_ms status of None \<Rightarrow> True | Some reset \<Rightarrow> reset > now_ms"
    using assms(2) by (cases "as_availability_resets_at_ms status") (auto simp: active_availability_def split: if_splits)
  moreover have "footer_health_of status now_ms = Some Offline" using assms(2) by (simp add: footer_health_of_def)
  ultimately show ?thesis using assms by (simp add: agent_footer_health_def)
qed

subsection \<open>A word that goes by the clock\<close>

lemma health_change:
  assumes "agent_footer_health room agent t1 \<noteq> agent_footer_health room agent t2" and "t1 \<le> t2"
  obtains status reset where "agent_status (fr_reducer room) agent = Some status"
    and "as_availability_resets_at_ms status = Some reset" and "t1 < reset" and "reset \<le> t2"
    and "agent_footer_health room agent t1 \<noteq> None"
proof -
  from assms(1) obtain status where status: "agent_status (fr_reducer room) agent = Some status"
    by (cases "agent_status (fr_reducer room) agent") (auto simp: agent_footer_health_def)
  from assms(1) status obtain reset where reset: "as_availability_resets_at_ms status = Some reset"
    by (cases "as_availability_resets_at_ms status")
      (auto simp: agent_footer_health_def footer_health_of_def active_availability_def)
  have between: "t1 < reset \<and> reset \<le> t2"
  proof (rule ccontr)
    assume "\<not> (t1 < reset \<and> reset \<le> t2)"
    then have "(reset \<le> t1) = (reset \<le> t2)" "(t1 < reset) = (t2 < reset)" using assms(2) by auto
    then show False using assms(1) status reset
      by (simp add: agent_footer_health_def footer_health_of_def active_availability_def)
  qed
  have "agent_footer_health room agent t1 \<noteq> None"
  proof
    assume none: "agent_footer_health room agent t1 = None"
    then have "footer_health_of status t1 = None"
      using status by (auto simp: agent_footer_health_def split: if_splits option.splits bind_splits)
    then have "footer_health_of status t2 = None" using order_trans [OF _ assms(2), of reset]
      by (auto simp: footer_health_of_def active_availability_def Let_def reset
          split: if_splits option.splits agent_availability_state.splits)
    with none assms(1) status show False by (simp add: agent_footer_health_def)
  qed
  with status reset between that show thesis by blast
qed

lemma painted_due_bound:
  assumes "agent \<in> set roster" and "agent_footer_health room agent t \<noteq> None"
    and "agent_status (fr_reducer room) agent = Some status"
    and "as_availability_resets_at_ms status = Some reset" and "t < reset"
  shows "\<exists>due. painted_health_reset_due room t = Some due \<and> due \<le> reset"
proof -
  let ?resets = "filter (\<lambda>reset. reset > t)
      (List.map_filter (\<lambda>agent. Option.bind (agent_status (fr_reducer room) agent) as_availability_resets_at_ms)
        (filter (\<lambda>agent. agent_footer_health room agent t \<noteq> None) roster))"
  have "reset \<in> set ?resets" using assms by (force simp: List.map_filter_def)
  then have "?resets \<noteq> []" "Min (set ?resets) \<le> reset" by (auto simp del: set_filter intro: Min_le)
  then show ?thesis by (simp add: painted_health_reset_due_def Let_def)
qed

end
