(* ===== verification/Pager_Keys.thy ===== *)
theory Pager_Keys
  imports Pager_Health
begin

section \<open>The one route of a key\<close>

text \<open>
  \<open>route_room_key_at\<close> of \<open>app/room_runtime.rs\<close> and everything it reaches: the permission shelf,
  the feed, the open picker, the history search, the \<open>Ctrl+C\<close> ladder, the composer's menus, \<open>Esc\<close>
  and the composer itself. \<open>live_room\<close> joins the states of those components; the editor and what
  the feed does with an action are parameters.
\<close>

subsection \<open>The room\<close>

record ('s, 'p, 'v) live_room =
  lr_composer :: "('s, 'p) composer_room"
  lr_catalog :: room_catalog
  lr_shelf :: "active_permission option"
  lr_quit_armed_until :: "nat option"
  lr_gesture :: ctrl_c_gesture
  lr_claim :: room_cancel_claim
  lr_cancels :: "u64 list"
  lr_cancels_open :: bool
  lr_readiness :: room_readiness
  lr_spent_lanes :: "string set"
  lr_health_reset_due_ms :: "u64 option"
  lr_feed :: 'v

abbreviation lr_reducer :: "('s, 'p, 'v) live_room \<Rightarrow> reducer" where
  "lr_reducer room \<equiv> rm_reducer (cr_room (lr_composer room))"

abbreviation lr_prompt :: "('s, 'p, 'v) live_room \<Rightarrow> 'p" where
  "lr_prompt room \<equiv> rm_prompt (cr_room (lr_composer room))"

text \<open>The parts of it that \<^theory_text>\<open>Pager_Panic\<close> and \<^theory_text>\<open>Pager_Health\<close> speak of.\<close>

definition panic_of :: "('s, 'p) prompt_widget \<Rightarrow> ('s, 'p, 'v) live_room \<Rightarrow> panic_room" where
  "panic_of pw room =
     \<lparr>pr_reducer = lr_reducer room, pr_draft = pw_text pw (lr_prompt room),
      pr_quit_armed_until = lr_quit_armed_until room, pr_gesture = lr_gesture room, pr_claim = lr_claim room,
      pr_wire = lr_cancels room, pr_wire_open = lr_cancels_open room\<rparr>"

definition with_panic :: "panic_room \<Rightarrow> ('s, 'p, 'v) live_room \<Rightarrow> ('s, 'p, 'v) live_room" where
  "with_panic p room =
     room\<lparr>lr_quit_armed_until := pr_quit_armed_until p, lr_gesture := pr_gesture p, lr_claim := pr_claim p,
          lr_cancels := pr_wire p\<rparr>"

definition footer_of :: "('s, 'p, 'v) live_room \<Rightarrow> footer_room" where
  "footer_of room =
     \<lparr>fr_reducer = lr_reducer room, fr_shelf = lr_shelf room, fr_readiness = lr_readiness room,
      fr_spent_lanes = lr_spent_lanes room, fr_health_reset_due_ms = lr_health_reset_due_ms room\<rparr>"

definition with_composer :: "('s, 'p) composer_room \<Rightarrow> ('s, 'p, 'v) live_room \<Rightarrow> ('s, 'p, 'v) live_room" where
  "with_composer c room = room\<lparr>lr_composer := c\<rparr>"

subsection \<open>The feed's keys\<close>

datatype feed_action =
  ScrollUp nat | ScrollDown nat | JumpToUnseen | FollowLatest | ToggleFold | ToggleRaw | SelectPrev | SelectNext

definition feed_key :: "string \<Rightarrow> bool \<Rightarrow> key_event \<Rightarrow> feed_action option" where
  "feed_key draft searching key =
     (let ctrl = (ModControl \<in> ke_modifiers key); alt = (ModAlt \<in> ke_modifiers key); code = ke_code key in
      if code = KeyPageUp then Some (ScrollUp 12)
      else if code = KeyPageDown then Some (ScrollDown 12)
      else if code = key_char CHR ''t'' \<and> ctrl then Some JumpToUnseen
      else if code = KeyEnd \<and> draft = [] \<and> \<not> searching then Some FollowLatest
      else if code = key_char CHR ''e'' \<and> ctrl then Some ToggleFold
      else if code = key_char CHR ''r'' \<and> ctrl then Some ToggleRaw
      else if code = KeyUp \<and> alt then Some SelectPrev
      else if code = KeyDown \<and> alt then Some SelectNext
      else None)"

subsection \<open>An open picker\<close>

fun picker_key_of :: "key_code \<Rightarrow> picker_key" where
  "picker_key_of KeyEsc = PkEsc"
| "picker_key_of KeyUp = PkUp"
| "picker_key_of KeyDown = PkDown"
| "picker_key_of KeyPageUp = PkPageUp"
| "picker_key_of KeyPageDown = PkPageDown"
| "picker_key_of KeyLeft = PkLeft"
| "picker_key_of KeyRight = PkRight"
| "picker_key_of KeyEnter = PkEnter"
| "picker_key_of (KeyChar c) = (if c = of_char CHR ''r'' \<or> c = of_char CHR ''R'' then PkRetry else PkOther)"
| "picker_key_of _ = PkOther"

fun send_all ::
  "string \<Rightarrow> room_command list \<Rightarrow> ('s, 'p) composer_room \<Rightarrow> (string, unit) result \<times> ('s, 'p) composer_room" where
  "send_all context [] room = (Ok (), room)"
| "send_all context (c # cs) room =
     (case send_command context c room of
        (Ok _, room1) \<Rightarrow> send_all context cs room1
      | (Err e, room1) \<Rightarrow> (Err e, room1)
      | (Panic m, room1) \<Rightarrow> (Panic m, room1))"

definition stage_draft :: "('s, 'p) prompt_widget \<Rightarrow> string \<Rightarrow> 'p \<Rightarrow> 'p" where
  "stage_draft pw draft = pw_refresh_slash pw \<circ> pw_set_cursor pw (length draft) \<circ> pw_set_text pw draft"

definition open_picker_key ::
  "('s, 'p) prompt_widget \<Rightarrow> room_catalog \<Rightarrow> ctrl_c_gesture \<Rightarrow> key_event \<Rightarrow> ('s, 'p) composer_room \<Rightarrow>
   (string, room_runtime_exit option) result \<times> ('s, 'p) composer_room" where
  "open_picker_key pw catalog gesture key room =
     (if is_ctrl_c key then (Ok (if opened_the_gesture gesture then Some RoomExit else None), room)
      else
        case handle_picker_key catalog (picker_key_of (ke_code key)) (cr_picker room) of
          (cmds, outcome, picker) \<Rightarrow>
            (case send_all PICKER_STOPPED cmds (room\<lparr>cr_picker := picker\<rparr>) of
               (Ok _, room1) \<Rightarrow>
                 (case outcome of
                    Stay \<Rightarrow> (Ok None, room1)
                  | Leave x \<Rightarrow> (Ok (Some x), room1)
                  | Stage draft \<Rightarrow>
                      (Ok None, (set_prompt (stage_draft pw draft) room1)\<lparr>cr_menu := notify_draft_changed (cr_menu room1)\<rparr>))
             | (Err e, room1) \<Rightarrow> (Err e, room1)
             | (Panic m, room1) \<Rightarrow> (Panic m, room1)))"

subsection \<open>An active history search\<close>

definition populate_history_selection ::
  "('s, 'p) prompt_widget \<Rightarrow> ('s, 'p) composer_room \<Rightarrow> ('s, 'p) composer_room" where
  "populate_history_selection pw room =
     (case selected_text (cr_search room) of
        None \<Rightarrow> room
      | Some t \<Rightarrow> set_prompt (pw_clear_file_context pw \<circ> pw_set_cursor pw (length t) \<circ> pw_set_text pw t) room)"

definition close_history_restoring_saved ::
  "('s, 'p) prompt_widget \<Rightarrow> ('s, 'p) composer_room \<Rightarrow> ('s, 'p) composer_room" where
  "close_history_restoring_saved pw room =
     (let saved = hs_saved_text (cr_search room) in
      set_prompt (pw_refresh_slash pw \<circ> pw_set_text pw saved) (room\<lparr>cr_search := deactivate (cr_search room)\<rparr>))"

definition accept_history_selection ::
  "('s, 'p) prompt_widget \<Rightarrow> ('s, 'p) composer_room \<Rightarrow> ('s, 'p) composer_room" where
  "accept_history_selection pw room =
     set_prompt (pw_refresh_slash pw)
       (case selected_text (cr_search room) of
          None \<Rightarrow> close_history_restoring_saved pw room
        | Some t \<Rightarrow>
            set_prompt (pw_clear_file_context pw \<circ> pw_set_cursor pw (length t) \<circ> pw_set_text pw t)
              (room\<lparr>cr_search := deactivate (cr_search room)\<rparr>))"

definition handle_history_key ::
  "('s, 'p) prompt_widget \<Rightarrow> key_event \<Rightarrow> ('s, 'p) composer_room \<Rightarrow> ('s, 'p) composer_room" where
  "handle_history_key pw key room =
     (let search = cr_search room;
          browse = is_browse search;
          follow = (\<lambda>room. if browse then populate_history_selection pw room else room)
      in if ke_code key = key_char CHR ''c'' \<and> ModControl \<in> ke_modifiers key
         then close_history_restoring_saved pw room
         else
           case ke_code key of
             KeyEsc \<Rightarrow> close_history_restoring_saved pw room
           | KeyEnter \<Rightarrow> accept_history_selection pw room
           | KeyTab \<Rightarrow> accept_history_selection pw room
           | KeyUp \<Rightarrow> (case move_up search of (moved, hs) \<Rightarrow>
               if moved then follow (room\<lparr>cr_search := hs\<rparr>) else room\<lparr>cr_search := hs\<rparr>)
           | KeyDown \<Rightarrow> (case move_down search of (moved, hs) \<Rightarrow>
               if moved then follow (room\<lparr>cr_search := hs\<rparr>) else close_history_restoring_saved pw (room\<lparr>cr_search := hs\<rparr>))
           | KeyPageUp \<Rightarrow> follow (room\<lparr>cr_search := page_move (-1) 8 search\<rparr>)
           | KeyPageDown \<Rightarrow> follow (room\<lparr>cr_search := page_move 1 8 search\<rparr>)
           | _ \<Rightarrow>
               if browse
               then set_prompt (pw_refresh_slash pw \<circ> pw_handle_key pw key) (room\<lparr>cr_search := deactivate search\<rparr>)
               else
                 let room1 = set_prompt (pw_handle_key pw key) room in
                 room1\<lparr>cr_search := update_query (pw_text pw (rm_prompt (cr_room room1))) search\<rparr>)"

subsection \<open>The composer's menus\<close>

text \<open>Each of these two says whether it consumed the key.\<close>

definition take_completion ::
  "('s, 'p) prompt_widget \<Rightarrow> room_menu_snapshot \<Rightarrow> ('s, 'p) composer_room \<Rightarrow> bool \<times> ('s, 'p) composer_room" where
  "take_completion pw snapshot room =
     (case selected_completion snapshot of
        None \<Rightarrow> (False, room)
      | Some (place, completion) \<Rightarrow>
          (case pw_fill_completion pw place completion (rm_prompt (cr_room room)) of
             (filled, prompt) \<Rightarrow>
               if filled
               then (True, (set_prompt (\<lambda>_. pw_refresh_slash pw prompt) room)\<lparr>cr_menu := notify_draft_changed (cr_menu room)\<rparr>)
               else (False, set_prompt (\<lambda>_. prompt) room)))"

definition handle_menu_key ::
  "('s, 'p) prompt_widget \<Rightarrow> room_catalog \<Rightarrow> key_event \<Rightarrow> ('s, 'p) composer_room \<Rightarrow> bool \<times> ('s, 'p) composer_room" where
  "handle_menu_key pw catalog key room =
     (let draft = pw_text pw (rm_prompt (cr_room room)); cursor = pw_cursor pw (rm_prompt (cr_room room)) in
      case menu_snapshot draft cursor catalog (cr_menu room) of
        (None, menu) \<Rightarrow> (False, room\<lparr>cr_menu := menu\<rparr>)
      | (Some snapshot, menu) \<Rightarrow>
          let room1 = room\<lparr>cr_menu := menu\<rparr>;
              agent = (case ms_kind snapshot of MenuAgent _ _ \<Rightarrow> True | MenuAddress \<Rightarrow> False);
              rows = length (ms_rows snapshot)
          in case ke_code key of
               KeyUp \<Rightarrow> (True, room1\<lparr>cr_menu := menu_move_selection rows (-1) menu\<rparr>)
             | KeyDown \<Rightarrow> (True, room1\<lparr>cr_menu := menu_move_selection rows 1 menu\<rparr>)
             | KeyLeft \<Rightarrow> if agent then (True, room1\<lparr>cr_menu := switch_tab (-1) menu\<rparr>) else (False, room1)
             | KeyRight \<Rightarrow> if agent then (True, room1\<lparr>cr_menu := switch_tab 1 menu\<rparr>) else (True, room1)
             | KeyTab \<Rightarrow> take_completion pw snapshot room1
             | KeyEnter \<Rightarrow> take_completion pw snapshot room1
             | KeyEsc \<Rightarrow>
                 (True, set_prompt (pw_clear_file_context pw \<circ> pw_slash_close pw) (room1\<lparr>cr_menu := dismiss_menu draft cursor menu\<rparr>))
             | KeyPageUp \<Rightarrow> (True, room1)
             | KeyPageDown \<Rightarrow> (True, room1)
             | KeyHome \<Rightarrow> (True, room1)
             | KeyEnd \<Rightarrow> (True, room1)
             | _ \<Rightarrow> (False, room1))"

definition accept_slash ::
  "('s, 'p) prompt_widget \<Rightarrow> ('s, 'p) composer_room \<Rightarrow> bool \<times> ('s, 'p) composer_room" where
  "accept_slash pw room =
     (case pw_accept_slash pw (rm_prompt (cr_room room)) of (accepted, prompt) \<Rightarrow> (accepted, set_prompt (\<lambda>_. prompt) room))"

definition handle_slash_key ::
  "('s, 'p) prompt_widget \<Rightarrow> key_event \<Rightarrow> ('s, 'p) composer_room \<Rightarrow> bool \<times> ('s, 'p) composer_room" where
  "handle_slash_key pw key room =
     (if \<not> pw_slash_open pw (rm_prompt (cr_room room)) then (False, room)
      else
        case ke_code key of
          KeyUp \<Rightarrow> (True, set_prompt (pw_slash_move pw (-1)) room)
        | KeyDown \<Rightarrow> (True, set_prompt (pw_slash_move pw 1) room)
        | KeyTab \<Rightarrow> accept_slash pw room
        | KeyEnter \<Rightarrow> accept_slash pw room
        | KeyEsc \<Rightarrow> (True, set_prompt (pw_slash_close pw) room)
        | _ \<Rightarrow> (False, room))"

subsection \<open>The composer\<close>

definition type_into_composer ::
  "('s, 'p) prompt_widget \<Rightarrow> room_catalog \<Rightarrow> string \<Rightarrow> key_event \<Rightarrow> ('s, 'p) composer_room \<Rightarrow>
   (string, room_runtime_exit option) result \<times> ('s, 'p) composer_room" where
  "type_into_composer pw catalog status key room =
     (case pw_route_enter pw key (rm_prompt (cr_room room)) of
        (outcome, prompt) \<Rightarrow>
          let room1 = set_prompt (\<lambda>_. prompt) room;
              changed = (\<lambda>f. (set_prompt (pw_refresh_slash pw \<circ> f) room1)\<lparr>cr_menu := notify_draft_changed (cr_menu room1)\<rparr>)
          in case outcome of
               EnterSubmit \<Rightarrow>
                 (case pw_try_send pw prompt of
                    (None, prompt') \<Rightarrow> (Ok None, set_prompt (\<lambda>_. prompt') room1)
                  | (Some line, prompt') \<Rightarrow> submit_line pw catalog status line (set_prompt (\<lambda>_. prompt') room1))
             | NewlineInserted \<Rightarrow> (Ok None, changed id)
             | PassThrough \<Rightarrow> (Ok None, changed (pw_handle_key pw key)))"

definition browses_history :: "('s, 'p) prompt_widget \<Rightarrow> key_event \<Rightarrow> ('s, 'p) composer_room \<Rightarrow> bool" where
  "browses_history pw key room \<longleftrightarrow>
     ke_code key = KeyUp \<and> pw_text pw (rm_prompt (cr_room room)) = [] \<and> cr_history room \<noteq> []
     \<and> hs_available (cr_search room)"

definition browse_history ::
  "('s, 'p) prompt_widget \<Rightarrow> ('s, 'p) composer_room \<Rightarrow> ('s, 'p) composer_room" where
  "browse_history pw room =
     set_prompt (pw_refresh_slash pw)
       (populate_history_selection pw
         (room\<lparr>cr_search := activate_inner (cr_published room) (cr_history room) [] True (cr_search room)\<rparr>))"

text \<open>\<open>handle_key_at\<close> from its menus on, once nobody else wants the key.\<close>

definition handle_composer_key ::
  "('s, 'p) prompt_widget \<Rightarrow> string \<Rightarrow> key_event \<Rightarrow> ('s, 'p, 'v) live_room \<Rightarrow>
   (string, room_runtime_exit option) result \<times> ('s, 'p, 'v) live_room" where
  "handle_composer_key pw status key room =
     (let c = lr_composer room; put = (\<lambda>c. with_composer c room) in
      if browses_history pw key c then (Ok None, put (browse_history pw c))
      else
        case handle_menu_key pw (lr_catalog room) key c of
          (consumed, c1) \<Rightarrow>
            if consumed then (Ok None, put c1)
            else
              (case handle_slash_key pw key c1 of
                 (consumed, c2) \<Rightarrow>
                   if consumed then (Ok None, put c2)
                   else if is_bare_esc key \<and> \<not> pw_file_search_visible pw (rm_prompt (cr_room c2)) \<and> lane_busy (lr_reducer room) None
                   then (case request_cancel_all (panic_of pw (put c2)) of
                           (r, p) \<Rightarrow> (tryR r (\<lambda>_. Ok None), with_panic p (put c2)))
                   else (case type_into_composer pw (lr_catalog room) status key c2 of (r, c3) \<Rightarrow> (r, put c3))))"

definition handle_key_at ::
  "('s, 'p) prompt_widget \<Rightarrow> string \<Rightarrow> nat \<Rightarrow> key_event \<Rightarrow> ('s, 'p, 'v) live_room \<Rightarrow>
   (string, room_runtime_exit option) result \<times> ('s, 'p, 'v) live_room" where
  "handle_key_at pw status now key room =
     (let c = lr_composer room in
      if is_shift_tab key
      then (case stay (send_command BRIDGE_STOPPED (CycleMode (pw_text pw (lr_prompt room))) c) of
              (r, c1) \<Rightarrow> (r, with_composer c1 room))
      else if picker_is_open (cr_picker c)
      then (case open_picker_key pw (lr_catalog room) (lr_gesture room) key c of (r, c1) \<Rightarrow> (r, with_composer c1 room))
      else if hs_active (cr_search c)
      then (Ok None, with_composer (handle_history_key pw key c)
              (if is_ctrl_c key then room\<lparr>lr_quit_armed_until := None\<rparr> else room))
      else if is_ctrl_c key
      then (case route_ctrl_c_at now (panic_of pw room) of
              (Ok CtrlCExit, p) \<Rightarrow> (Ok (Some RoomExit), with_panic p room)
            | (Ok CtrlCConsumed, p) \<Rightarrow> (Ok None, with_panic p room)
            | (Ok CtrlCFallThrough, p) \<Rightarrow> handle_composer_key pw status key (with_panic p room)
            | (Err e, p) \<Rightarrow> (Err e, with_panic p room)
            | (Panic m, p) \<Rightarrow> (Panic m, with_panic p room))
      else handle_composer_key pw status key room)"

subsection \<open>The route\<close>

datatype key_disposition = ExitRoom room_runtime_exit | PermissionShelf | FeedKey | CtrlCReleased | ComposerKey

definition handed_to_composer ::
  "(string, room_runtime_exit option) result \<times> ('s, 'p, 'v) live_room \<Rightarrow>
   (string, key_disposition) result \<times> ('s, 'p, 'v) live_room" where
  "handed_to_composer x =
     (case x of (r, room) \<Rightarrow> (tryR r (\<lambda>q. Ok (case q of None \<Rightarrow> ComposerKey | Some exit \<Rightarrow> ExitRoom exit)), room))"

definition route_room_key_at ::
  "('s, 'p) prompt_widget \<Rightarrow> (feed_action \<Rightarrow> 'v \<Rightarrow> 'v) \<Rightarrow> string \<Rightarrow> nat \<Rightarrow> key_event \<Rightarrow> ('s, 'p, 'v) live_room \<Rightarrow>
   (string, key_disposition) result \<times> ('s, 'p, 'v) live_room" where
  "route_room_key_at pw feed status now key room0 =
     (let room = with_panic (before_route now key (panic_of pw room0)) room0 in
      if is_ctrl_c_release key then (Ok CtrlCReleased, room)
      else if is_shift_tab key \<or> picker_is_open (cr_picker (lr_composer room))
      then handed_to_composer (handle_key_at pw status now key room)
      else
        case route_permission_key (pw_text pw (lr_prompt room)) key (lr_shelf room) of
          (route, shelf) \<Rightarrow>
            let room1 = room\<lparr>lr_shelf := shelf\<rparr> in
            case route of
              KeyAction action \<Rightarrow>
                (case send_command BRIDGE_STOPPED (PermissionResponse action) (lr_composer room1) of
                   (r, c) \<Rightarrow> (tryR r (\<lambda>_. Ok PermissionShelf), with_composer c room1))
            | KeyConsumed \<Rightarrow> (Ok PermissionShelf, room1)
            | NotHandled \<Rightarrow>
                (case feed_key (pw_text pw (lr_prompt room1)) (hs_active (cr_search (lr_composer room1))) key of
                   Some action \<Rightarrow> (Ok FeedKey, room1\<lparr>lr_feed := feed action (lr_feed room1)\<rparr>)
                 | None \<Rightarrow> handed_to_composer (handle_key_at pw status now key room1)))"

end
