(* ===== verification/Pager_Key_Effects.thy ===== *)
theory Pager_Key_Effects
  imports Pager_Keys
begin

section \<open>What a key may do\<close>

text \<open>
  Each owner of a key meets one contract (\<open>key_handler\<close>; for those that send nothing,
  \<open>silent_handler\<close>), and the route as a whole keeps it: a key sends at most one command or one
  cancel, sends a submission only of the line the composer gave up, and ends the room only for one
  of a few reasons. A \<open>Ctrl+C\<close> always reaches the ladder of \<^theory_text>\<open>Pager_Panic\<close>.
\<close>

subsection \<open>What a handler may do\<close>

text \<open>
  \<open>silent\<close>: nothing goes out and nothing that matters to a submission changes. \<open>line_effect\<close>: at
  most one command goes out; it is a submission only of the given line, with the identifier under
  which the prompt has just been kept.
\<close>

definition silent :: "('s, 'p) composer_room \<Rightarrow> ('s, 'p) composer_room \<Rightarrow> bool" where
  "silent c c' \<longleftrightarrow>
     rm_reducer (cr_room c') = rm_reducer (cr_room c) \<and> rm_pending (cr_room c') = rm_pending (cr_room c)
     \<and> cr_history c' = cr_history c \<and> cr_wire c' = cr_wire c \<and> cr_wire_open c' = cr_wire_open c"

definition submits :: "room_catalog \<Rightarrow> string option \<Rightarrow> bool" where
  "submits catalog sent \<longleftrightarrow> (case sent of None \<Rightarrow> False | Some t \<Rightarrow> is_submission catalog t)"

definition line_effect ::
  "room_catalog \<Rightarrow> string option \<Rightarrow> ('s, 'p) composer_room \<Rightarrow> ('s, 'p) composer_room \<Rightarrow> bool" where
  "line_effect catalog sent c c' \<longleftrightarrow>
     rm_reducer (cr_room c') = rm_reducer (cr_room c) \<and> cr_wire_open c' = cr_wire_open c
     \<and> (if submits catalog sent
        then cr_history c' = remember_submission (the sent) (cr_history c)
          \<and> cr_wire c' = cr_wire c @
              (if cr_wire_open c then [Submit (pd_next_id (rm_pending (cr_room c))) (addressed_submission (the sent))] else [])
        else rm_pending (cr_room c') = rm_pending (cr_room c) \<and> cr_history c' = cr_history c
          \<and> (\<exists>cmds. cr_wire c' = cr_wire c @ cmds \<and> length cmds \<le> 1 \<and> \<not> list_ex is_submit cmds))"

lemma submits_simps [simp]: "\<not> submits catalog None" "submits catalog (Some t) = is_submission catalog t"
  by (simp_all add: submits_def)

lemma silent_refl [simp]: "silent c c"
  by (simp add: silent_def)

lemma silent_trans: "silent c c1 \<Longrightarrow> silent c1 c' \<Longrightarrow> silent c c'"
  by (simp add: silent_def)

lemma silent_no_line: "silent c c' \<Longrightarrow> line_effect catalog None c c'"
  by (simp add: silent_def line_effect_def)

lemma silent_then: "silent c c1 \<Longrightarrow> line_effect catalog sent c1 c' \<Longrightarrow> line_effect catalog sent c c'"
  by (cases "submits catalog sent") (simp_all add: silent_def line_effect_def)

lemma silent_fields [simp]:
  "silent c (set_prompt f c') = silent c c'" "silent c (c'\<lparr>cr_menu := m\<rparr>) = silent c c'"
  "silent c (c'\<lparr>cr_search := hs\<rparr>) = silent c c'" "silent c (c'\<lparr>cr_picker := p\<rparr>) = silent c c'"
  by (simp_all add: silent_def set_prompt_def)

locale key_handler =
  fixes catalog :: room_catalog
    and sent_line :: "('s, 'p) composer_room \<Rightarrow> string option"
    and handle :: "('s, 'p) composer_room \<Rightarrow> 'r \<times> ('s, 'p) composer_room"
  assumes effect: "handle c = (r, c') \<Longrightarrow> line_effect catalog (sent_line c) c c'"
begin

lemma one_command: "handle c = (r, c') \<Longrightarrow> \<exists>cmds. cr_wire c' = cr_wire c @ cmds \<and> length cmds \<le> 1"
  by (drule effect) (auto simp: line_effect_def split: if_splits)

lemma only_its_line:
  assumes "handle c = (r, c')" and "cr_wire c' = cr_wire c @ [Submit i t]"
  shows "\<exists>line. sent_line c = Some line \<and> is_submission catalog line \<and> t = addressed_submission line
    \<and> i = pd_next_id (rm_pending (cr_room c))"
  using effect [OF assms(1)] assms(2)
  by (cases "sent_line c") (auto simp: line_effect_def split: if_splits)

end

locale silent_handler =
  fixes handle :: "('s, 'p) composer_room \<Rightarrow> 'r \<times> ('s, 'p) composer_room"
  assumes quiet: "handle c = (r, c') \<Longrightarrow> silent c c'"

sublocale silent_handler \<subseteq> key_handler catalog "\<lambda>_. None" handle for catalog
  using quiet by unfold_locales (rule silent_no_line)

lemma silent_history_ops [simp]:
  "silent c (populate_history_selection pw c') = silent c c'" "silent c (close_history_restoring_saved pw c') = silent c c'"
  "silent c (accept_history_selection pw c') = silent c c'" "silent c (browse_history pw c') = silent c c'"
  by (simp_all add: populate_history_selection_def close_history_restoring_saved_def accept_history_selection_def
      browse_history_def Let_def split: option.split)

lemma silent_history_key: "silent c (handle_history_key pw key c)"
  by (simp add: handle_history_key_def Let_def split: key_code.split prod.split)

lemma silent_take_completion: "take_completion pw snapshot c = (b, c') \<Longrightarrow> silent c0 c \<Longrightarrow> silent c0 c'"
  by (auto simp: take_completion_def split: option.splits prod.splits if_splits)

lemma silent_menu_key: "handle_menu_key pw catalog key c = (b, c') \<Longrightarrow> silent c c'"
  by (auto simp: handle_menu_key_def Let_def silent_take_completion split: key_code.splits prod.splits option.splits if_splits)

lemma silent_slash_key: "handle_slash_key pw key c = (b, c') \<Longrightarrow> silent c c'"
  by (auto simp: handle_slash_key_def accept_slash_def split: key_code.splits prod.splits if_splits)

interpretation history_keys: silent_handler "\<lambda>c. ((), handle_history_key pw key c)" for pw key
  by unfold_locales (use silent_history_key in auto)

interpretation menu_keys: silent_handler "handle_menu_key pw catalog key" for pw catalog key
  by unfold_locales (rule silent_menu_key)

interpretation slash_keys: silent_handler "handle_slash_key pw key" for pw key
  by unfold_locales (rule silent_slash_key)

lemma send_command_result:
  "send_command context cmd c = (r, c') \<Longrightarrow>
     cr_wire c' = cr_wire c @ (if cr_wire_open c then [cmd] else []) \<and> cr_wire_open c' = cr_wire_open c
     \<and> cr_room c' = cr_room c \<and> cr_history c' = cr_history c \<and> cr_picker c' = cr_picker c \<and> cr_menu c' = cr_menu c
     \<and> r = (if cr_wire_open c then Ok () else Err context)"
  by (auto simp: send_command_def split: if_splits)

lemma picker_key_commands:
  assumes "handle_picker_key catalog k p = (cmds, outcome, p')"
  shows "length cmds \<le> 1 \<and> \<not> list_ex is_submit cmds \<and> (\<forall>x. outcome = Leave x \<longrightarrow> cmds = [])"
  using assms
  by (auto simp: handle_picker_key_def send_picker_def split: picker_key.splits prod.splits option.splits
      room_picker_choice.splits if_splits)

lemma picker_key_leaves:
  assumes "handle_picker_key catalog k p = (cmds, Leave x, p')"
  shows "\<exists>sid. k = PkEnter \<and> selected_choice p = Some (SessionChoice sid False) \<and> x = LoadSession sid"
  using assms
  by (auto simp: handle_picker_key_def send_picker_def split: picker_key.splits prod.splits option.splits
      room_picker_choice.splits if_splits)

lemma send_all_le_one:
  assumes "length cmds \<le> 1" "send_all context cmds c = (r, c')"
  shows "cr_wire c' = cr_wire c @ (if cr_wire_open c then cmds else []) \<and> cr_wire_open c' = cr_wire_open c
     \<and> cr_room c' = cr_room c \<and> cr_history c' = cr_history c \<and> (cmds = [] \<longrightarrow> r = Ok ())"
  using assms
  by (cases cmds) (auto simp: send_command_def split: if_splits prod.splits result.splits)

lemma picker_key_effect:
  assumes "open_picker_key pw catalog gesture key c = (r, c')"
  shows "line_effect catalog None c c'"
proof (cases "is_ctrl_c key")
  case True
  with assms show ?thesis by (auto simp: open_picker_key_def line_effect_def)
next
  case False
  obtain cmds outcome p where k: "handle_picker_key catalog (picker_key_of (ke_code key)) (cr_picker c) = (cmds, outcome, p)"
    using prod_cases3 by blast
  obtain r1 c1 where sent: "send_all PICKER_STOPPED cmds (c\<lparr>cr_picker := p\<rparr>) = (r1, c1)" by fastforce
  note cmds = picker_key_commands [OF k]
  have "silent c1 c'" using assms False k sent
    by (auto simp: open_picker_key_def split: result.splits picker_outcome.splits)
  moreover have "\<exists>out. cr_wire c1 = cr_wire c @ out \<and> length out \<le> 1 \<and> \<not> list_ex is_submit out"
    using send_all_le_one [OF _ sent] cmds by (intro exI [of _ "if cr_wire_open c then cmds else []"]) auto
  ultimately show ?thesis
    using send_all_le_one [OF _ sent] cmds by (simp add: line_effect_def silent_def)
qed

lemma picker_key_exit:
  assumes "open_picker_key pw catalog gesture key c = (Ok (Some x), c')"
  shows "cr_wire c' = cr_wire c
    \<and> (is_ctrl_c key \<and> opened_the_gesture gesture \<and> x = RoomExit
       \<or> (\<exists>sid. ke_code key = KeyEnter \<and> selected_choice (cr_picker c) = Some (SessionChoice sid False) \<and> x = LoadSession sid))"
proof (cases "is_ctrl_c key")
  case True
  with assms show ?thesis by (auto simp: open_picker_key_def split: if_splits)
next
  case False
  obtain cmds outcome p where k: "handle_picker_key catalog (picker_key_of (ke_code key)) (cr_picker c) = (cmds, outcome, p)"
    using prod_cases3 by blast
  from assms False k have leave: "outcome = Leave x" and sent: "send_all PICKER_STOPPED cmds (c\<lparr>cr_picker := p\<rparr>) = (Ok (), c')"
    by (auto simp: open_picker_key_def split: result.splits picker_outcome.splits prod.splits)
  from k leave have "cmds = []" using picker_key_commands [OF k] by simp
  with sent have "cr_wire c' = cr_wire c" by auto
  moreover obtain sid where "picker_key_of (ke_code key) = PkEnter"
      "selected_choice (cr_picker c) = Some (SessionChoice sid False)" "x = LoadSession sid"
    using picker_key_leaves [OF k [unfolded leave]] by blast
  then have "ke_code key = KeyEnter \<and> selected_choice (cr_picker c) = Some (SessionChoice sid False) \<and> x = LoadSession sid"
    by (cases "ke_code key") (auto split: if_splits)
  ultimately show ?thesis by blast
qed

interpretation picker_keys: key_handler catalog "\<lambda>_. None" "open_picker_key pw catalog gesture key"
  for pw catalog gesture key
  by unfold_locales (rule picker_key_effect)

text \<open>The line a key sends, if the composer gets it.\<close>

definition line_of :: "('s, 'p) prompt_widget \<Rightarrow> key_event \<Rightarrow> ('s, 'p) composer_room \<Rightarrow> string option" where
  "line_of pw key c =
     (case pw_route_enter pw key (rm_prompt (cr_room c)) of
        (EnterSubmit, prompt) \<Rightarrow> fst (pw_try_send pw prompt)
      | _ \<Rightarrow> None)"

lemma submit_line_keeps:
  "rm_reducer (cr_room (snd (submit_line pw catalog status line c))) = rm_reducer (cr_room c)"
  "cr_wire_open (snd (submit_line pw catalog status line c)) = cr_wire_open c"
  by (auto simp: submit_line_def dispatch_line_def send_submission_def send_command_def hold_submission_def remember_line_def
      push_local_notice_def set_prompt_def Let_def split: prod.splits option.splits parsed_room_command.splits)

lemma submit_line_effect:
  assumes "submit_line pw catalog status line c = (r, c')"
  shows "line_effect catalog (Some line) c c'"
proof (cases "is_submission catalog line")
  case True
  obtain stash prompt where stash: "pw_stash pw (rm_prompt (cr_room c)) = (stash, prompt)" by fastforce
  obtain i overflow pending where sub: "submitted stash (rm_pending (cr_room c)) = ((i, overflow), pending)" by (metis prod.exhaust)
  then have "i = pd_next_id (rm_pending (cr_room c))" by (auto simp: submitted_def Let_def split: prod.splits)
  with True assms stash sub submit_line_keeps [of pw catalog status line c] show ?thesis
    by (auto simp: line_effect_def submit_line_def dispatch_line_def is_submission_def send_submission_def stay_def
        send_command_def hold_submission_def remember_line_def set_prompt_def Let_def)
next
  case False
  from submit_line_other [OF this, of pw status c] submit_line_keeps [of pw catalog status line c] assms False
  show ?thesis by (auto simp: line_effect_def)
qed

lemma stay_exit: "stay y = (Ok (Some x), c') \<longleftrightarrow> False"
  by (cases y; cases "fst y") (auto simp: stay_def)

lemma submit_line_exit:
  assumes "submit_line pw catalog status line c = (Ok (Some x), c')"
  shows "cr_wire c' = cr_wire c
    \<and> (parse_room_command line catalog = Some ParsedExit \<and> x = RoomExit
       \<or> parse_room_command line catalog = Some ParsedNewSession \<and> x = NewSession)"
proof -
  obtain stash prompt where stash: "pw_stash pw (rm_prompt (cr_room c)) = (stash, prompt)" by fastforce
  show ?thesis
  proof (cases "parse_room_command line catalog")
    case None
    with assms show ?thesis by (auto simp: submit_line_def dispatch_line_def stash stay_exit Let_def)
  next
    case (Some parsed)
    with assms show ?thesis
      by (cases parsed) (auto simp: submit_line_def dispatch_line_def stash stay_exit set_prompt_def Let_def split: prod.splits)
  qed
qed

lemma typing_effect:
  assumes "type_into_composer pw catalog status key c = (r, c')"
  shows "line_effect catalog (line_of pw key c) c c'"
proof -
  obtain outcome prompt where enter: "pw_route_enter pw key (rm_prompt (cr_room c)) = (outcome, prompt)" by fastforce
  show ?thesis
  proof (cases outcome)
    case EnterSubmit
    obtain sent prompt' where given: "pw_try_send pw prompt = (sent, prompt')" by fastforce
    have quiet: "silent c (set_prompt (\<lambda>_. prompt') (set_prompt (\<lambda>_. prompt) c))" by simp
    show ?thesis
    proof (cases sent)
      case None
      with assms enter EnterSubmit given show ?thesis
        by (auto simp: type_into_composer_def line_of_def intro: silent_no_line)
    next
      case (Some line)
      with assms enter EnterSubmit given show ?thesis
        using silent_then [OF quiet submit_line_effect] by (simp add: type_into_composer_def line_of_def Let_def)
    qed
  qed (use assms enter in \<open>auto simp: type_into_composer_def line_of_def Let_def intro: silent_no_line\<close>)
qed

lemma typing_exit:
  assumes "type_into_composer pw catalog status key c = (Ok (Some x), c')"
  shows "cr_wire c' = cr_wire c
    \<and> (\<exists>line. line_of pw key c = Some line
        \<and> (parse_room_command line catalog = Some ParsedExit \<and> x = RoomExit
           \<or> parse_room_command line catalog = Some ParsedNewSession \<and> x = NewSession))"
proof -
  obtain outcome prompt where enter: "pw_route_enter pw key (rm_prompt (cr_room c)) = (outcome, prompt)" by fastforce
  obtain sent prompt' where given: "pw_try_send pw prompt = (sent, prompt')" by fastforce
  from assms enter given obtain line where "outcome = EnterSubmit" "sent = Some line"
    and exit: "submit_line pw catalog status line (set_prompt (\<lambda>_. prompt') (set_prompt (\<lambda>_. prompt) c)) = (Ok (Some x), c')"
    by (auto simp: type_into_composer_def Let_def split: enter_outcome.splits option.splits)
  with enter given submit_line_exit [OF exit] show ?thesis
    by (auto simp: line_of_def set_prompt_def)
qed

interpretation composer_keys: key_handler catalog "line_of pw key" "type_into_composer pw catalog status key"
  for pw catalog status key
  by unfold_locales (rule typing_effect)

subsection \<open>What a key may do\<close>

text \<open>The line a key sends: only if no owner before the composer takes it.\<close>

definition composer_line :: "('s, 'p) prompt_widget \<Rightarrow> key_event \<Rightarrow> ('s, 'p, 'v) live_room \<Rightarrow> string option" where
  "composer_line pw key room =
     (let c = lr_composer room in
      if browses_history pw key c then None
      else
        case handle_menu_key pw (lr_catalog room) key c of
          (consumed, c1) \<Rightarrow>
            if consumed then None
            else
              (case handle_slash_key pw key c1 of
                 (consumed, c2) \<Rightarrow>
                   if consumed
                      \<or> is_bare_esc key \<and> \<not> pw_file_search_visible pw (rm_prompt (cr_room c2)) \<and> lane_busy (lr_reducer room) None
                   then None
                   else line_of pw key c2))"

definition sent_line :: "('s, 'p) prompt_widget \<Rightarrow> key_event \<Rightarrow> ('s, 'p, 'v) live_room \<Rightarrow> string option" where
  "sent_line pw key room =
     (if is_ctrl_c_release key \<or> is_shift_tab key \<or> picker_is_open (cr_picker (lr_composer room))
         \<or> hs_active (cr_search (lr_composer room))
      then None else composer_line pw key room)"

definition key_effect ::
  "string option \<Rightarrow> ('s, 'p, 'v) live_room \<Rightarrow> ('s, 'p, 'v) live_room \<Rightarrow> bool" where
  "key_effect sent room room' \<longleftrightarrow>
     line_effect (lr_catalog room) sent (lr_composer room) (lr_composer room')
     \<and> lr_catalog room' = lr_catalog room \<and> lr_cancels_open room' = lr_cancels_open room
     \<and> (\<exists>cs. lr_cancels room' = lr_cancels room @ cs \<and> length cs \<le> 1
          \<and> (cs \<noteq> [] \<longrightarrow> cr_wire (lr_composer room') = cr_wire (lr_composer room)))"

lemma cancel_all_wire:
  "request_cancel_all p = (r, p') \<Longrightarrow>
     \<exists>cs. pr_wire p' = pr_wire p @ cs \<and> length cs \<le> 1"
  by (auto simp: request_cancel_all_def Let_def split: if_splits)

lemma ladder_wire:
  assumes "route_ctrl_c_at now p = (r, p')"
  shows "\<exists>cs. pr_wire p' = pr_wire p @ cs \<and> length cs \<le> 1 \<and> (r \<noteq> Ok CtrlCConsumed \<and> (\<forall>e. r \<noteq> Err e) \<longrightarrow> cs = [])"
proof (cases "opened_the_gesture (pr_gesture p) \<and> \<not> quit_is_armed_at now p \<and> lane_busy (pr_reducer p) None")
  case True
  obtain q p1 where ask: "request_cancel_all p = (q, p1)" by fastforce
  from assms True ask cancel_all_wire [OF ask] show ?thesis
    by (cases q) (auto simp: route_ctrl_c_at_def request_cancel_all_def Let_def split: if_splits)
next
  case False
  with assms show ?thesis by (auto simp: route_ctrl_c_at_def split: if_splits)
qed

lemma composer_key_effect:
  assumes "handle_composer_key pw status key room = (r, room')"
  shows "key_effect (composer_line pw key room) room room'"
proof (cases "browses_history pw key (lr_composer room)")
  case True
  with assms show ?thesis
    by (auto simp: handle_composer_key_def key_effect_def composer_line_def with_composer_def Let_def intro: silent_no_line)
next
  case False
  let ?c = "lr_composer room"
  obtain b1 c1 where menu: "handle_menu_key pw (lr_catalog room) key ?c = (b1, c1)" by fastforce
  obtain b2 c2 where slash: "handle_slash_key pw key c1 = (b2, c2)" by fastforce
  note s1 = silent_menu_key [OF menu] and s2 = silent_trans [OF silent_menu_key [OF menu] silent_slash_key [OF slash]]
  let ?esc = "is_bare_esc key \<and> \<not> pw_file_search_visible pw (rm_prompt (cr_room c2)) \<and> lane_busy (lr_reducer room) None"
  consider (menu) b1 | (slash) "\<not> b1" b2 | (esc) "\<not> b1" "\<not> b2" ?esc | (typed) "\<not> b1" "\<not> b2" "\<not> ?esc" by blast
  then show ?thesis
  proof cases
    case esc
    obtain q p where ask: "request_cancel_all (panic_of pw (with_composer c2 room)) = (q, p)" by fastforce
    with esc False assms menu slash have "room' = with_panic p (with_composer c2 room)"
      and line: "composer_line pw key room = None"
      by (auto simp: handle_composer_key_def composer_line_def Let_def)
    with s2 cancel_all_wire [OF ask] silent_no_line [OF s2] show ?thesis
      by (auto simp: key_effect_def with_panic_def with_composer_def panic_of_def silent_def line)
  next
    case typed
    obtain q c3 where type: "type_into_composer pw (lr_catalog room) status key c2 = (q, c3)" by fastforce
    with typed False assms menu slash have "room' = with_composer c3 room"
      and line: "composer_line pw key room = line_of pw key c2"
      by (auto simp: handle_composer_key_def composer_line_def Let_def)
    with silent_then [OF s2 typing_effect [OF type]] show ?thesis
      by (auto simp: key_effect_def with_composer_def line)
  qed (use assms menu slash False silent_no_line [OF s1] silent_no_line [OF s2] in
      \<open>auto simp: handle_composer_key_def composer_line_def key_effect_def with_composer_def Let_def\<close>)
qed

lemma composer_key_exit:
  assumes "handle_composer_key pw status key room = (Ok (Some x), room')"
  shows "cr_wire (lr_composer room') = cr_wire (lr_composer room) \<and> lr_cancels room' = lr_cancels room
    \<and> (\<exists>line. composer_line pw key room = Some line
        \<and> (parse_room_command line (lr_catalog room) = Some ParsedExit \<and> x = RoomExit
           \<or> parse_room_command line (lr_catalog room) = Some ParsedNewSession \<and> x = NewSession))"
proof -
  let ?c = "lr_composer room"
  obtain b1 c1 where menu: "handle_menu_key pw (lr_catalog room) key ?c = (b1, c1)" by fastforce
  obtain b2 c2 where slash: "handle_slash_key pw key c1 = (b2, c2)" by fastforce
  note s2 = silent_trans [OF silent_menu_key [OF menu] silent_slash_key [OF slash]]
  let ?esc = "is_bare_esc key \<and> \<not> pw_file_search_visible pw (rm_prompt (cr_room c2)) \<and> lane_busy (lr_reducer room) None"
  have not_ask: "tryR q (\<lambda>_. Ok None) \<noteq> Ok (Some x)" for q :: "(string, unit) result" by (cases q) auto
  obtain q c3 where type: "type_into_composer pw (lr_catalog room) status key c2 = (q, c3)" by fastforce
  from assms menu slash type not_ask have typed: "\<not> browses_history pw key ?c" "\<not> b1" "\<not> b2" "\<not> ?esc"
    and q: "q = Ok (Some x)" and room': "room' = with_composer c3 room"
    by (auto simp: handle_composer_key_def Let_def split: if_splits prod.splits)
  have "composer_line pw key room = line_of pw key c2"
    using typed menu slash by (auto simp: composer_line_def Let_def)
  with typing_exit [OF type [unfolded q]] s2 room' show ?thesis by (auto simp: with_composer_def silent_def)
qed

lemma with_panic_of [simp]: "with_panic (panic_of pw room) room = room"
  by (simp add: with_panic_def panic_of_def)

lemma with_panic_fields [simp]:
  "lr_composer (with_panic p room) = lr_composer room" "lr_catalog (with_panic p room) = lr_catalog room"
  "lr_shelf (with_panic p room) = lr_shelf room" "lr_cancels (with_panic p room) = pr_wire p"
  "lr_cancels_open (with_panic p room) = lr_cancels_open room" "lr_gesture (with_panic p room) = pr_gesture p"
  by (simp_all add: with_panic_def)

lemma panic_of_fields [simp]:
  "pr_wire (panic_of pw room) = lr_cancels room" "pr_gesture (panic_of pw room) = lr_gesture room"
  by (simp_all add: panic_of_def)

lemma ladder_falls_through:
  assumes "route_ctrl_c_at now (panic_of pw room) = (Ok CtrlCFallThrough, p)"
  shows "with_panic p room = room"
proof -
  from assms have "p = panic_of pw room"
    by (auto simp: route_ctrl_c_at_def split: if_splits prod.splits result.splits)
  then show ?thesis by simp
qed

lemma ladder_exit:
  "route_ctrl_c_at now p = (Ok CtrlCExit, p') \<Longrightarrow> pr_wire p' = pr_wire p \<and> opened_the_gesture (pr_gesture p)"
  by (auto simp: route_ctrl_c_at_def split: if_splits prod.splits result.splits)

lemma quiet_effect:
  "silent (lr_composer room) c \<Longrightarrow> lr_composer room' = c \<Longrightarrow> lr_catalog room' = lr_catalog room \<Longrightarrow>
   lr_cancels_open room' = lr_cancels_open room \<Longrightarrow> lr_cancels room' = lr_cancels room @ cs \<Longrightarrow> length cs \<le> 1 \<Longrightarrow>
   key_effect None room room'"
  by (auto simp: key_effect_def silent_no_line silent_def)

lemma command_effect:
  assumes "send_command context cmd (lr_composer room) = (r, c)" and "\<not> is_submit cmd"
    and "lr_composer room' = c" "lr_catalog room' = lr_catalog room" "lr_cancels_open room' = lr_cancels_open room"
      "lr_cancels room' = lr_cancels room"
  shows "key_effect None room room'"
  using send_command_result [OF assms(1)] assms(2-)
  by (auto simp: key_effect_def line_effect_def)

lemma key_at_effect:
  assumes "handle_key_at pw status now key room = (r, room')" and "\<not> is_ctrl_c_release key"
  shows "key_effect None room room' \<or> key_effect (sent_line pw key room) room room'"
proof -
  let ?c = "lr_composer room"
  consider (tab) "is_shift_tab key"
    | (picker) "\<not> is_shift_tab key" "picker_is_open (cr_picker ?c)"
    | (search) "\<not> is_shift_tab key" "\<not> picker_is_open (cr_picker ?c)" "hs_active (cr_search ?c)"
    | (ladder) "\<not> is_shift_tab key" "\<not> picker_is_open (cr_picker ?c)" "\<not> hs_active (cr_search ?c)" "is_ctrl_c key"
    | (plain) "\<not> is_shift_tab key" "\<not> picker_is_open (cr_picker ?c)" "\<not> hs_active (cr_search ?c)" "\<not> is_ctrl_c key"
    by blast
  then show ?thesis
  proof cases
    case tab
    obtain q c where "send_command BRIDGE_STOPPED (CycleMode (pw_text pw (lr_prompt room))) ?c = (q, c)" by fastforce
    with tab assms(1) show ?thesis
      by (auto simp: handle_key_at_def stay_def with_composer_def intro: command_effect)
  next
    case picker
    obtain q c where picked: "open_picker_key pw (lr_catalog room) (lr_gesture room) key ?c = (q, c)" by fastforce
    with picker assms(1) picker_key_effect [OF picked] show ?thesis
      by (auto simp: handle_key_at_def with_composer_def key_effect_def line_effect_def)
  next
    case search
    with assms(1) have "key_effect None room room'"
      by (auto simp: handle_key_at_def with_composer_def intro!: quiet_effect [OF silent_history_key] split: if_splits)
    then show ?thesis ..
  next
    case ladder
    obtain q p where steps: "route_ctrl_c_at now (panic_of pw room) = (q, p)" by fastforce
    show ?thesis
    proof (cases "q = Ok CtrlCFallThrough")
      case True
      with ladder_falls_through [of now pw room p] steps ladder assms(1) have "handle_composer_key pw status key room = (r, room')"
        by (simp add: handle_key_at_def)
      from composer_key_effect [OF this] ladder assms(2) show ?thesis by (simp add: sent_line_def)
    next
      case False
      with ladder assms(1) steps have room': "room' = with_panic p room"
        by (auto simp: handle_key_at_def split: result.splits ctrl_c_outcome.splits)
      from ladder_wire [OF steps] have "key_effect None room room'"
        by (auto simp: room' intro: quiet_effect [of _ "lr_composer room"])
      then show ?thesis ..
    qed
  next
    case plain
    with assms have "handle_composer_key pw status key room = (r, room')" by (auto simp: handle_key_at_def)
    from composer_key_effect [OF this] plain assms(2) show ?thesis by (simp add: sent_line_def)
  qed
qed

text \<open>Why a key may end the room.\<close>

definition exit_reason ::
  "('s, 'p) prompt_widget \<Rightarrow> key_event \<Rightarrow> ('s, 'p, 'v) live_room \<Rightarrow> room_runtime_exit \<Rightarrow> bool" where
  "exit_reason pw key room x \<longleftrightarrow>
     is_ctrl_c key \<and> opened_the_gesture (lr_gesture room) \<and> x = RoomExit
     \<or> ke_code key = KeyEnter \<and> picker_is_open (cr_picker (lr_composer room))
        \<and> (\<exists>sid. selected_choice (cr_picker (lr_composer room)) = Some (SessionChoice sid False) \<and> x = LoadSession sid)
     \<or> (\<exists>line. sent_line pw key room = Some line
        \<and> (parse_room_command line (lr_catalog room) = Some ParsedExit \<and> x = RoomExit
           \<or> parse_room_command line (lr_catalog room) = Some ParsedNewSession \<and> x = NewSession))"

lemma key_at_exit:
  assumes "handle_key_at pw status now key room = (Ok (Some x), room')" and "\<not> is_ctrl_c_release key"
  shows "cr_wire (lr_composer room') = cr_wire (lr_composer room) \<and> lr_cancels room' = lr_cancels room
    \<and> exit_reason pw key room x"
proof -
  let ?c = "lr_composer room"
  have "\<not> is_shift_tab key"
  proof
    assume "is_shift_tab key"
    with assms(1) show False
      by (cases "stay (send_command BRIDGE_STOPPED (CycleMode (pw_text pw (lr_prompt room))) ?c)")
        (auto simp: handle_key_at_def stay_exit Let_def)
  qed
  then consider (picker) "picker_is_open (cr_picker ?c)"
    | (ladder) "\<not> picker_is_open (cr_picker ?c)" "\<not> hs_active (cr_search ?c)" "is_ctrl_c key"
    | (plain) "\<not> picker_is_open (cr_picker ?c)" "\<not> hs_active (cr_search ?c)" "\<not> is_ctrl_c key"
    using assms(1) by (auto simp: handle_key_at_def Let_def split: if_splits)
  note cases = this and no_tab = \<open>\<not> is_shift_tab key\<close>
  have composed: ?thesis if "handle_composer_key pw status key room = (Ok (Some x), room')"
    "\<not> picker_is_open (cr_picker ?c)" "\<not> hs_active (cr_search ?c)"
    using composer_key_exit [OF that(1)] that(2,3) no_tab assms(2) by (auto simp: exit_reason_def sent_line_def)
  from cases show ?thesis
  proof cases
    case picker
    obtain q c where picked: "open_picker_key pw (lr_catalog room) (lr_gesture room) key ?c = (q, c)" by fastforce
    with picker no_tab assms(1) have "q = Ok (Some x)" "room' = with_composer c room" by (auto simp: handle_key_at_def)
    with picker_key_exit [of pw "lr_catalog room" "lr_gesture room" key ?c x c] picked picker show ?thesis
      by (auto simp: with_composer_def exit_reason_def)
  next
    case ladder
    obtain q p where steps: "route_ctrl_c_at now (panic_of pw room) = (q, p)" by fastforce
    show ?thesis
    proof (cases "q = Ok CtrlCFallThrough")
      case True
      with ladder_falls_through [of now pw room p] steps ladder no_tab assms(1)
      have "handle_composer_key pw status key room = (Ok (Some x), room')"
        by (simp add: handle_key_at_def)
      with composed ladder show ?thesis by blast
    next
      case False
      with ladder no_tab assms(1) steps have "q = Ok CtrlCExit" "room' = with_panic p room" "x = RoomExit"
        by (auto simp: handle_key_at_def split: result.splits ctrl_c_outcome.splits)
      with ladder_exit [of now "panic_of pw room" p] steps ladder show ?thesis by (auto simp: exit_reason_def)
    qed
  next
    case plain
    with assms(1) no_tab composed show ?thesis by (auto simp: handle_key_at_def)
  qed
qed

subsection \<open>The route as a whole\<close>

text \<open>The room once the key is noticed, before any owner sees it.\<close>

definition noticed :: "('s, 'p) prompt_widget \<Rightarrow> nat \<Rightarrow> key_event \<Rightarrow> ('s, 'p, 'v) live_room \<Rightarrow> ('s, 'p, 'v) live_room" where
  "noticed pw now key room = with_panic (before_route now key (panic_of pw room)) room"

lemma route_keeps_wire [simp]: "pr_wire (before_route now key p) = pr_wire p"
  by (simp add: before_route_def reconcile_quit_arm_at_def Let_def)

lemma noticed_fields [simp]:
  "lr_composer (noticed pw now key room) = lr_composer room" "lr_catalog (noticed pw now key room) = lr_catalog room"
  "lr_shelf (noticed pw now key room) = lr_shelf room" "lr_cancels (noticed pw now key room) = lr_cancels room"
  "lr_cancels_open (noticed pw now key room) = lr_cancels_open room"
  by (simp_all add: noticed_def)

lemma key_effect_cong:
  "lr_composer room1 = lr_composer room \<Longrightarrow> lr_catalog room1 = lr_catalog room \<Longrightarrow> lr_cancels room1 = lr_cancels room \<Longrightarrow>
   lr_cancels_open room1 = lr_cancels_open room \<Longrightarrow> key_effect sent room1 room' = key_effect sent room room'"
  by (simp add: key_effect_def)

lemma sent_line_cong:
  assumes composer: "lr_composer room1 = lr_composer room" and catalog: "lr_catalog room1 = lr_catalog room"
  shows "sent_line pw key room1 = sent_line pw key room"
  unfolding sent_line_def composer_line_def composer catalog by (rule refl)

lemma handed_result: "handed_to_composer x = (res, room') \<Longrightarrow> snd x = room'"
  by (auto simp: handed_to_composer_def split: prod.splits)

lemma handed_exit: "handed_to_composer x = (Ok (ExitRoom e), room') \<Longrightarrow> x = (Ok (Some e), room')"
  by (cases x; cases "fst x") (auto simp: handed_to_composer_def split: option.splits)

text \<open>Where a key goes, given what the shelf made of it.\<close>

lemma route_cases:
  assumes "route_room_key_at pw feed status now key room = (res, room')"
  obtains (released) "is_ctrl_c_release key" "res = Ok CtrlCReleased" "room' = noticed pw now key room"
  | (first) "\<not> is_ctrl_c_release key" "is_shift_tab key \<or> picker_is_open (cr_picker (lr_composer room))"
      "handed_to_composer (handle_key_at pw status now key (noticed pw now key room)) = (res, room')"
  | (shelf) shelf r c action where "\<not> is_ctrl_c_release key" "res = tryR r (\<lambda>_. Ok PermissionShelf)"
      "route_permission_key (pw_text pw (lr_prompt room)) key (lr_shelf room) = (KeyAction action, shelf)"
      "send_command BRIDGE_STOPPED (PermissionResponse action) (lr_composer room) = (r, c)"
      "room' = with_composer c ((noticed pw now key room)\<lparr>lr_shelf := shelf\<rparr>)"
  | (consumed) shelf where "\<not> is_ctrl_c_release key" "res = Ok PermissionShelf"
      "route_permission_key (pw_text pw (lr_prompt room)) key (lr_shelf room) = (KeyConsumed, shelf)"
      "room' = (noticed pw now key room)\<lparr>lr_shelf := shelf\<rparr>"
  | (feed) shelf action where "\<not> is_ctrl_c_release key" "res = Ok FeedKey"
      "route_permission_key (pw_text pw (lr_prompt room)) key (lr_shelf room) = (NotHandled, shelf)"
      "feed_key (pw_text pw (lr_prompt room)) (hs_active (cr_search (lr_composer room))) key = Some action"
      "room' = (noticed pw now key room)\<lparr>lr_shelf := shelf, lr_feed := feed action (lr_feed (noticed pw now key room))\<rparr>"
  | (last) shelf where "\<not> is_ctrl_c_release key" "\<not> picker_is_open (cr_picker (lr_composer room))"
      "route_permission_key (pw_text pw (lr_prompt room)) key (lr_shelf room) = (NotHandled, shelf)"
      "feed_key (pw_text pw (lr_prompt room)) (hs_active (cr_search (lr_composer room))) key = None"
      "handed_to_composer (handle_key_at pw status now key ((noticed pw now key room)\<lparr>lr_shelf := shelf\<rparr>)) = (res, room')"
proof -
  obtain route shelf where r: "route_permission_key (pw_text pw (lr_prompt room)) key (lr_shelf room) = (route, shelf)" by fastforce
  let ?f = "feed_key (pw_text pw (lr_prompt room)) (hs_active (cr_search (lr_composer room))) key"
  note step = assms [unfolded route_room_key_at_def, folded noticed_def, unfolded Let_def noticed_fields r]
  show thesis
  proof (cases "is_ctrl_c_release key")
    case True
    with step released show thesis by simp
  next
    case False
    note no_release = this
    show thesis
    proof (cases "is_shift_tab key \<or> picker_is_open (cr_picker (lr_composer room))")
      case True
      with step no_release first show thesis by simp
    next
      case direct: False
      show thesis
      proof (cases route)
        case (KeyAction action)
        obtain q c where "send_command BRIDGE_STOPPED (PermissionResponse action) (lr_composer room) = (q, c)" by fastforce
        with step no_release direct KeyAction r show thesis by (intro shelf [where action = action and shelf = shelf]) auto
      next
        case KeyConsumed
        with step no_release direct r show thesis by (intro consumed [where shelf = shelf]) auto
      next
        case NotHandled
        show thesis
        proof (cases ?f)
          case None
          with step no_release direct r NotHandled show thesis by (intro last [where shelf = shelf]) auto
        next
          case (Some action)
          with step no_release direct r NotHandled show thesis
            by (intro feed [where shelf = shelf and action = action]) auto
        qed
      qed
    qed
  qed
qed

lemma route_effect:
  assumes "route_room_key_at pw feed status now key room = (res, room')"
  shows "key_effect None room room' \<or> key_effect (sent_line pw key room) room room'"
  using assms
proof (cases rule: route_cases)
  case released
  then show ?thesis by (auto intro!: quiet_effect [of _ "lr_composer room"])
next
  case first
  obtain r where "handle_key_at pw status now key (noticed pw now key room) = (r, room')"
    using handed_result [OF first(3)] by (cases "handle_key_at pw status now key (noticed pw now key room)") auto
  from key_at_effect [OF this first(1)] show ?thesis
    by (simp add: key_effect_cong [of "noticed pw now key room" room] sent_line_cong [of "noticed pw now key room" room])
next
  case (shelf shelf r c action)
  then have "key_effect None room room'"
    by (intro command_effect [OF shelf(4)]) (simp_all add: with_composer_def)
  then show ?thesis ..
next
  case (consumed shelf)
  then show ?thesis by (auto intro!: quiet_effect [of _ "lr_composer room"])
next
  case (feed shelf action)
  then show ?thesis by (auto intro!: quiet_effect [of _ "lr_composer room"])
next
  case (last shelf)
  let ?room = "(noticed pw now key room)\<lparr>lr_shelf := shelf\<rparr>"
  obtain r where "handle_key_at pw status now key ?room = (r, room')"
    using handed_result [OF last(5)] by (cases "handle_key_at pw status now key ?room") auto
  from key_at_effect [OF this last(1)] show ?thesis
    by (simp add: key_effect_cong [of ?room room] sent_line_cong [of ?room room])
qed

lemma route_exit:
  assumes "route_room_key_at pw feed status now key room = (Ok (ExitRoom x), room')"
  shows "cr_wire (lr_composer room') = cr_wire (lr_composer room) \<and> lr_cancels room' = lr_cancels room
    \<and> exit_reason pw key (noticed pw now key room) x"
  using assms
proof (cases rule: route_cases)
  case first
  from key_at_exit [OF handed_exit [OF first(3)] first(1)] show ?thesis by simp
next
  case (last shelf)
  from key_at_exit [OF handed_exit [OF last(5)] last(1)] show ?thesis
    by (simp add: exit_reason_def sent_line_cong [of "(noticed pw now key room)\<lparr>lr_shelf := shelf\<rparr>" "noticed pw now key room"])
next
  case (shelf shelf r c action)
  then show ?thesis by (cases r) auto
qed auto

subsection \<open>The ladder inside the route\<close>

definition owner_of :: "('s, 'p, 'v) live_room \<Rightarrow> key_owner" where
  "owner_of room =
     (if picker_is_open (cr_picker (lr_composer room)) then PickerOpen
      else if hs_active (cr_search (lr_composer room)) then HistorySearch
      else ComposerOwner)"

text \<open>The part of the room that belongs to the ladder.\<close>

definition ladder_fields :: "('s, 'p, 'v) live_room \<Rightarrow> nat option \<times> ctrl_c_gesture \<times> room_cancel_claim \<times> u64 list" where
  "ladder_fields room = (lr_quit_armed_until room, lr_gesture room, lr_claim room, lr_cancels room)"

lemma ladder_fields_simps [simp]:
  "ladder_fields (with_panic p room) = (pr_quit_armed_until p, pr_gesture p, pr_claim p, pr_wire p)"
  "ladder_fields (with_composer c room) = ladder_fields room"
  "ladder_fields (room\<lparr>lr_shelf := shelf\<rparr>) = ladder_fields room"
  by (simp_all add: ladder_fields_def with_panic_def with_composer_def)

lemma ctrl_c_code:
  "is_ctrl_c key \<Longrightarrow> ke_code key = key_char CHR ''c'' \<and> ModControl \<in> ke_modifiers key \<and> ke_kind key \<noteq> KeyRelease"
  by (simp add: is_ctrl_c_def)

lemma ctrl_c_elsewhere:
  assumes "is_ctrl_c key"
  shows "\<not> is_ctrl_c_release key" "\<not> is_shift_tab key" "\<not> is_bare_esc key"
    "fst (route_permission_key draft key shelf) = NotHandled" "feed_key draft searching key = None"
  using ctrl_c_code [OF assms]
  by (auto simp: is_ctrl_c_release_def is_shift_tab_def is_bare_esc_def route_permission_key_def focused_by_def
      permission_digit_def focus_keys_def feed_key_def Let_def split: option.splits)

lemma composer_key_ladder:
  "handle_composer_key pw status key room = (r, room') \<Longrightarrow> \<not> is_bare_esc key \<Longrightarrow> ladder_fields room' = ladder_fields room"
  by (auto simp: handle_composer_key_def Let_def split: if_splits prod.splits)

lemma key_at_ladder:
  assumes key: "is_ctrl_c key" and handled: "handle_key_at pw status now key room = (r, room')"
    and step: "(case owner_of room of
        PickerOpen \<Rightarrow> (Ok (if opened_the_gesture (lr_gesture room) then CtrlCExit else CtrlCConsumed), panic_of pw room)
      | HistorySearch \<Rightarrow> (Ok CtrlCConsumed, (panic_of pw room)\<lparr>pr_quit_armed_until := None\<rparr>)
      | ComposerOwner \<Rightarrow> route_ctrl_c_at now (panic_of pw room)) = (out, p)"
  shows "ladder_fields room' = (pr_quit_armed_until p, pr_gesture p, pr_claim p, pr_wire p)"
    and "out = Ok CtrlCExit \<Longrightarrow> r = Ok (Some RoomExit)" and "out = Ok CtrlCConsumed \<Longrightarrow> r = Ok None"
    and "out = Err e \<Longrightarrow> r = Err e"
proof -
  have here: "ladder_fields room = (pr_quit_armed_until (panic_of pw room), lr_gesture room, pr_claim (panic_of pw room), lr_cancels room)"
    by (simp add: ladder_fields_def panic_of_def)
  note no_tab = ctrl_c_elsewhere(2) [OF key]
  show "ladder_fields room' = (pr_quit_armed_until p, pr_gesture p, pr_claim p, pr_wire p)"
  proof (cases "owner_of room")
    case PickerOpen
    with handled step no_tab show ?thesis
      by (auto simp: owner_of_def handle_key_at_def ladder_fields_def panic_of_def with_composer_def split: if_splits prod.splits)
  next
    case HistorySearch
    with handled step no_tab key show ?thesis
      by (auto simp: owner_of_def handle_key_at_def ladder_fields_def panic_of_def with_composer_def split: if_splits)
  next
    case ComposerOwner
    then have mine: "\<not> picker_is_open (cr_picker (lr_composer room))" "\<not> hs_active (cr_search (lr_composer room))"
      and out: "route_ctrl_c_at now (panic_of pw room) = (out, p)"
      using step by (auto simp: owner_of_def split: if_splits)
    show ?thesis
    proof (cases "out = Ok CtrlCFallThrough")
      case True
      with mine out handled no_tab key ladder_falls_through [of now pw room p]
      have composed: "handle_composer_key pw status key room = (r, room')" and p: "p = panic_of pw room"
        by (auto simp: handle_key_at_def route_ctrl_c_at_def split: if_splits prod.splits result.splits)
      from composer_key_ladder [OF composed ctrl_c_elsewhere(3) [OF key]] here show ?thesis by (simp add: p)
    next
      case False
      with mine out handled no_tab key have "room' = with_panic p room"
        by (auto simp: handle_key_at_def split: result.splits ctrl_c_outcome.splits)
      then show ?thesis by simp
    qed
  qed
  show "out = Ok CtrlCExit \<Longrightarrow> r = Ok (Some RoomExit)" "out = Ok CtrlCConsumed \<Longrightarrow> r = Ok None" "out = Err e \<Longrightarrow> r = Err e"
    using handled step no_tab key
    by (auto simp: owner_of_def handle_key_at_def open_picker_key_def split: if_splits)
qed

lemma ctrl_c_route:
  assumes key: "is_ctrl_c key" and routed: "route_room_key_at pw feed status now key room = (res, room')"
    and step: "route_ctrl_c_key (owner_of room) now key (panic_of pw room) = (out, p)"
  shows "ladder_fields room' = (pr_quit_armed_until p, pr_gesture p, pr_claim p, pr_wire p)
    \<and> (out = Ok CtrlCExit \<longrightarrow> res = Ok (ExitRoom RoomExit)) \<and> (out = Ok CtrlCConsumed \<longrightarrow> res = Ok ComposerKey)
    \<and> (\<forall>e. out = Err e \<longrightarrow> res = Err e)"
proof -
  obtain shelf where handed: "handed_to_composer (handle_key_at pw status now key ((noticed pw now key room)\<lparr>lr_shelf := shelf\<rparr>)) = (res, room')"
    using routed
  proof (cases rule: route_cases)
    case first
    have "(noticed pw now key room)\<lparr>lr_shelf := lr_shelf (noticed pw now key room)\<rparr> = noticed pw now key room" by simp
    with first(3) that show ?thesis by metis
  next
    case (shelf shelf r c action)
    with ctrl_c_elsewhere(4) [OF key, of "pw_text pw (lr_prompt room)" "lr_shelf room"] show ?thesis by simp
  next
    case (consumed shelf)
    with ctrl_c_elsewhere(4) [OF key, of "pw_text pw (lr_prompt room)" "lr_shelf room"] show ?thesis by simp
  next
    case (feed shelf action)
    with ctrl_c_elsewhere(5) [OF key] show ?thesis by simp
  qed (use ctrl_c_elsewhere(1) [OF key] that in auto)
  let ?room = "(noticed pw now key room)\<lparr>lr_shelf := shelf\<rparr>"
  obtain r where r: "handle_key_at pw status now key ?room = (r, room')"
    using handed_result [OF handed] by (cases "handle_key_at pw status now key ?room") auto
  have panic: "panic_of pw ?room = before_route now key (panic_of pw room)"
    by (simp add: panic_of_def noticed_def with_panic_def before_route_def reconcile_quit_arm_at_def Let_def)
  have gesture: "lr_gesture ?room = pr_gesture (before_route now key (panic_of pw room))" by (simp add: noticed_def)
  have owner: "owner_of ?room = owner_of room" by (simp add: owner_of_def)
  from step have "(case owner_of ?room of
        PickerOpen \<Rightarrow> (Ok (if opened_the_gesture (lr_gesture ?room) then CtrlCExit else CtrlCConsumed), panic_of pw ?room)
      | HistorySearch \<Rightarrow> (Ok CtrlCConsumed, (panic_of pw ?room)\<lparr>pr_quit_armed_until := None\<rparr>)
      | ComposerOwner \<Rightarrow> route_ctrl_c_at now (panic_of pw ?room)) = (out, p)"
    unfolding owner panic gesture by (simp add: route_ctrl_c_key_def Let_def)
  from key_at_ladder [OF key r this] handed r show ?thesis by (auto simp: handed_to_composer_def)
qed

end
