(* ===== verification/Pager_View_Properties.thy ===== *)
theory Pager_View_Properties
  imports Pager_Key_Effects Pager_Sample
begin

section \<open>What the terminal shows and what its keys do\<close>

text \<open>
  The properties of the route of a key (\<^theory_text>\<open>Pager_Key_Effects\<close>), of the footer
  (\<^theory_text>\<open>Pager_Health\<close>, \<^theory_text>\<open>Pager_Meters\<close>) and of the history search
  (\<^theory_text>\<open>Pager_History\<close>), each with a concrete instance.
\<close>

subsection \<open>A room at the keyboard\<close>

definition at_keyboard :: "reducer \<Rightarrow> string \<Rightarrow> (string, string, unit) live_room" where
  "at_keyboard r draft =
     \<lparr>lr_composer =
        \<lparr>cr_room = \<lparr>rm_reducer = r, rm_prompt = draft, rm_pending = no_restores, rm_notices = []\<rparr>,
         cr_menu = default_menu, cr_picker = new_picker ''s'', cr_history = [], cr_search = new_history_search True,
         cr_published = empty_snapshot, cr_wire = [], cr_wire_open = True\<rparr>,
      lr_catalog = default_catalog, lr_shelf = None, lr_quit_armed_until = None, lr_gesture = no_gesture,
      lr_claim = ClaimIdle, lr_cancels = [], lr_cancels_open = True, lr_readiness = default_readiness,
      lr_spent_lanes = {}, lr_health_reset_due_ms = None, lr_feed = ()\<rparr>"

definition enter_key :: key_event where
  "enter_key = \<lparr>ke_code = KeyEnter, ke_modifiers = {}, ke_kind = KeyPress\<rparr>"

lemma enter_key_is:
  "\<not> is_ctrl_c enter_key" "\<not> is_ctrl_c_release enter_key" "\<not> is_shift_tab enter_key" "\<not> is_bare_esc enter_key"
  "ke_code enter_key = KeyEnter" "ke_modifiers enter_key = {}"
  by (simp_all add: enter_key_def is_ctrl_c_def is_ctrl_c_release_def is_shift_tab_def is_bare_esc_def)

lemma hi_line:
  "parse_room_command ''hi'' default_catalog = None" "is_submission default_catalog ''hi''" "trim ''hi'' \<noteq> []"
  "\<not> starts_with CHR ''/'' (trim_start ''hi'')"
proof -
  have "is_word ''hi''" by (simp add: is_word_def is_whitespace_def)
  note words = split_word(2) [OF this]
  show "\<not> starts_with CHR ''/'' (trim_start ''hi'')" using first_word [OF words] by (auto simp: starts_with_def)
  with words show "parse_room_command ''hi'' default_catalog = None"
    by (simp add: parse_room_command_def Let_def)
  then show "is_submission default_catalog ''hi''" by (simp add: is_submission_def)
  show "trim ''hi'' \<noteq> []"
    by (simp add: trim_empty_iff blank_piece_def chars_def bytes_of_def is_whitespace_def utf8_width_def utf8_lead_def)
qed

lemma no_menu: "menu_snapshot ''hi'' (Suc (Suc 0)) catalog default_menu = (None, default_menu)"
  by (simp add: menu_snapshot_def agent_context_def address_context_def strip_first_def starts_with_def)

lemma enter_sends:
  "fst (route_room_key_at plain_widget feed status 0 enter_key (at_keyboard r ''hi'')) = Ok ComposerKey"
  "cr_wire (lr_composer (snd (route_room_key_at plain_widget feed status 0 enter_key (at_keyboard r ''hi''))))
     = [Submit 0 (addressed_submission ''hi'')]"
  using hi_line no_menu
  by (simp_all add: route_room_key_at_def enter_key_is before_route_def reconcile_quit_arm_at_def at_keyboard_def
      with_panic_def panic_of_def picker_is_open_def new_picker_def route_permission_key_def feed_key_def
      handed_to_composer_def handle_key_at_def new_history_search_def no_restores_def handle_composer_key_def browses_history_def
      handle_menu_key_def handle_slash_key_def type_into_composer_def plain_widget_def plain_composer_def submit_line_def dispatch_line_def
      send_submission_def send_command_def stay_def hold_submission_def submitted_def no_restores_def
      remember_line_def set_prompt_def with_composer_def MAX_PENDING_RESTORES_def Let_def)


subsection \<open>The route of a key\<close>

text \<open>C33: A key the room is given sends at most one command or one cancel, and nothing of the reduced room or
  of the catalog changes. A submission is sent only of the line the composer gave up, addressed and
  with the next identifier. The room ends only for the reasons \<open>exit_reason\<close> lists, and a key that
  ends it sends nothing.\<close>

theorem key_does_one_thing:
  assumes "route_room_key_at pw feed status now key room = (res, room')"
  shows "lr_reducer room' = lr_reducer room \<and> lr_catalog room' = lr_catalog room
    \<and> (\<exists>cmds cs. cr_wire (lr_composer room') = cr_wire (lr_composer room) @ cmds
          \<and> lr_cancels room' = lr_cancels room @ cs \<and> length cmds + length cs \<le> 1
          \<and> (\<forall>i t. cmds = [Submit i t] \<longrightarrow>
               (\<exists>line. sent_line pw key room = Some line \<and> is_submission (lr_catalog room) line
                  \<and> t = addressed_submission line \<and> i = pd_next_id (rm_pending (cr_room (lr_composer room)))))
          \<and> (\<forall>x. res = Ok (ExitRoom x) \<longrightarrow> cmds = [] \<and> cs = [] \<and> exit_reason pw key (noticed pw now key room) x))"
proof -
  obtain sent where sent: "sent = None \<or> sent = sent_line pw key room" and effect: "key_effect sent room room'"
    using route_effect [OF assms] by blast
  then obtain cs where cs: "lr_cancels room' = lr_cancels room @ cs" "length cs \<le> 1"
    "cs \<noteq> [] \<longrightarrow> cr_wire (lr_composer room') = cr_wire (lr_composer room)"
    and line: "line_effect (lr_catalog room) sent (lr_composer room) (lr_composer room')"
    and kept: "lr_catalog room' = lr_catalog room"
    by (auto simp: key_effect_def)
  from line obtain cmds where cmds: "cr_wire (lr_composer room') = cr_wire (lr_composer room) @ cmds" "length cmds \<le> 1"
    by (auto simp: line_effect_def split: if_splits)
  have one: "length cmds + length cs \<le> 1" using cs cmds by (cases cs) auto
  have subm: "\<exists>line. sent_line pw key room = Some line \<and> is_submission (lr_catalog room) line
      \<and> t = addressed_submission line \<and> i = pd_next_id (rm_pending (cr_room (lr_composer room)))"
    if "cmds = [Submit i t]" for i t
  proof (cases sent)
    case None
    with that line cmds(1) show ?thesis by (auto simp: line_effect_def)
  next
    case (Some x)
    with sent have "sent_line pw key room = Some x" by auto
    with that Some line cmds(1) show ?thesis by (auto simp: line_effect_def split: if_splits)
  qed
  have quits: "cmds = [] \<and> cs = [] \<and> exit_reason pw key (noticed pw now key room) x" if "res = Ok (ExitRoom x)" for x
    using route_exit [OF assms [unfolded that]] cs(1) cmds(1) by simp
  have "lr_reducer room' = lr_reducer room" using line by (auto simp: line_effect_def)
  with kept cs(1) cmds(1) one subm quits show ?thesis by blast
qed

lemma key_does_one_thing_witness:
  "\<exists>room'. route_room_key_at plain_widget (\<lambda>_. id) '''' 0 enter_key (at_keyboard new_reducer ''hi'') = (Ok ComposerKey, room')
    \<and> cr_wire (lr_composer room') = [Submit 0 (addressed_submission ''hi'')] \<and> lr_cancels room' = []
    \<and> sent_line plain_widget enter_key (at_keyboard new_reducer ''hi'') = Some ''hi''"
proof -
  let ?room = "at_keyboard new_reducer ''hi''"
  obtain res room' where routed: "route_room_key_at plain_widget (\<lambda>_. id) '''' 0 enter_key ?room = (res, room')" by fastforce
  with enter_sends [of "\<lambda>_. id" "''''" new_reducer]
  have sent: "res = Ok ComposerKey" "cr_wire (lr_composer room') = [Submit 0 (addressed_submission ''hi'')]" by simp_all
  have start: "cr_wire (lr_composer ?room) = []" "lr_cancels ?room = []" by (simp_all add: at_keyboard_def)
  from key_does_one_thing [OF routed] sent start have "lr_cancels room' = []" by auto
  moreover have "sent_line plain_widget enter_key ?room = Some ''hi''"
    using hi_line no_menu
    by (simp add: sent_line_def composer_line_def enter_key_is at_keyboard_def picker_is_open_def new_picker_def
        new_history_search_def browses_history_def handle_menu_key_def handle_slash_key_def line_of_def
        plain_widget_def plain_composer_def Let_def)
  ultimately show ?thesis using routed sent by simp
qed

text \<open>C34: Whatever is open, a \<open>Ctrl+C\<close> reaches the ladder of the panic button: what the whole route does to
  the armed exit, the gesture, the claim and the cancels is what the ladder alone does, and when the
  ladder exits, consumes the key or fails, so does the route.\<close>

theorem ctrl_c_reaches_ladder:
  assumes "is_ctrl_c key" and "route_room_key_at pw feed status now key room = (res, room')"
    and "route_ctrl_c_key (owner_of room) now key (panic_of pw room) = (out, p)"
  shows "ladder_fields room' = (pr_quit_armed_until p, pr_gesture p, pr_claim p, pr_wire p)
    \<and> (out = Ok CtrlCExit \<longrightarrow> res = Ok (ExitRoom RoomExit)) \<and> (out = Ok CtrlCConsumed \<longrightarrow> res = Ok ComposerKey)
    \<and> (\<forall>e. out = Err e \<longrightarrow> res = Err e)"
  using ctrl_c_route [OF assms] .

lemma ctrl_c_reaches_ladder_witness:
  "\<exists>room'. route_room_key_at plain_widget (\<lambda>_. id) '''' 0 ctrl_c (at_keyboard (room_after streaming) '''') = (Ok ComposerKey, room')
    \<and> lr_cancels room' = [1] \<and> lr_quit_armed_until room' = Some QUIT_CONFIRM_WINDOW"
proof -
  let ?room = "at_keyboard (room_after streaming) ''''"
  obtain res room' where routed: "route_room_key_at plain_widget (\<lambda>_. id) '''' 0 ctrl_c ?room = (res, room')" by fastforce
  have same: "panic_of plain_widget ?room = panicking"
    by (simp add: panic_of_def at_keyboard_def panicking_def plain_widget_def plain_composer_def)
  have owner: "owner_of ?room = ComposerOwner"
    by (simp add: owner_of_def at_keyboard_def picker_is_open_def new_picker_def new_history_search_def)
  from ctrl_c_reaches_ladder [OF ctrl_c_is(1) routed, unfolded same owner, OF first_press] routed
  show ?thesis by (simp add: ladder_fields_def)
qed

subsection \<open>The footer\<close>

text \<open>An agent whose account runs out, and who is blocked some time later.\<close>

definition availability_event :: "string \<Rightarrow> json_map \<Rightarrow> room_event" where
  "availability_event sq availability =
     sample_event sq ''agent.status'' [(''agent'', JString ''codex''), (''availability'', JObject availability)]"

definition spent_event :: room_event where
  "spent_event = availability_event ''1'' [(''resetsAtMs'', JNumber (PosInt 1000)), (''state'', JString ''exhausted'')]"

definition blocked_event :: room_event where
  "blocked_event = availability_event ''2'' [(''state'', JString ''local_blocked'')]"

lemmas status_eval = event_eval handler_eval record_agent_status_def agent_status_def validate_agent_status_payload_def
  validate_agent_availability_def validate_optional_safe_integer_def optional_agent_auth_def optional_agent_usage_def
  optional_agent_availability_def optional_safe_u64_def opt_filter_eq_Some

lemma spent_facts:
  "case apply_all (\<lambda>_. True) [spent_event] new_reducer of None \<Rightarrow> False | Some r \<Rightarrow>
     map_option (\<lambda>s. (as_availability s, as_availability_resets_at_ms s, as_auth s)) (agent_status r ''codex'')
       = Some (Some AvailExhausted, Some 1000, None)"
  unfolding spent_event_def availability_event_def new_reducer_def
  by (simp add: status_eval)

lemma blocked_facts:
  "case apply_all (\<lambda>_. True) [spent_event, blocked_event] new_reducer of None \<Rightarrow> False | Some r \<Rightarrow>
     map_option (\<lambda>s. (as_availability s, as_availability_resets_at_ms s)) (agent_status r ''codex'')
       = Some (Some AvailLocalBlocked, None)"
  unfolding spent_event_def blocked_event_def availability_event_def new_reducer_def
  by (simp add: status_eval)

definition spent_footer :: "reducer \<Rightarrow> footer_room" where
  "spent_footer r =
     \<lparr>fr_reducer = r, fr_shelf = None, fr_readiness = default_readiness, fr_spent_lanes = {}, fr_health_reset_due_ms = None\<rparr>"

lemma spent_run:
  "\<exists>room seen status. health_run (\<lambda>_. True) room seen \<and> seen ''codex'' = [None, Some AvailExhausted, Some AvailLocalBlocked]
    \<and> agent_status (fr_reducer room) ''codex'' = Some status \<and> active_availability status 2000 = Some AvailLocalBlocked"
  "\<exists>room seen status. health_run (\<lambda>_. True) room seen \<and> seen ''codex'' = [Some AvailExhausted, Some AvailLocalBlocked]
    \<and> agent_status (fr_reducer room) ''codex'' = Some status \<and> active_availability status 2000 = Some AvailLocalBlocked"
proof -
  from spent_facts obtain d1 r1 where r1: "apply_event (\<lambda>_. True) spent_event new_reducer = (Ok d1, r1)"
    and one: "availability_now r1 ''codex'' = Some AvailExhausted"
    by (auto simp: availability_now_def split: result.splits prod.splits option.splits)
  from blocked_facts r1 obtain d2 r2 status where r2: "apply_event (\<lambda>_. True) blocked_event r1 = (Ok d2, r2)"
    and status: "agent_status r2 ''codex'' = Some status" "as_availability status = Some AvailLocalBlocked"
      "as_availability_resets_at_ms status = None"
    by (auto split: result.splits prod.splits option.splits)
  have open_run: "health_run (\<lambda>_. True) (spent_footer r) (\<lambda>agent. [availability_now r agent])" for r
    using health_run.opened [of "spent_footer r"] by (simp add: spent_footer_def)
  have none: "availability_now new_reducer ''codex'' = None"
    by (simp add: availability_now_def agent_status_def new_reducer_def)
  have kept: "fr_reducer (reconcile_spent_lanes (spent_footer r1)) = r1"
    by (simp add: reconcile_spent_lanes_def spent_footer_def Let_def)
  from health_run.event [OF open_run [of new_reducer]] r1
  have "health_run (\<lambda>_. True) (reconcile_spent_lanes (spent_footer r1))
      (\<lambda>agent. [availability_now new_reducer agent, availability_now r1 agent])"
    by (force simp: spent_footer_def)
  from health_run.event [OF this, of blocked_event d2 r2] kept r2
  have run: "health_run (\<lambda>_. True) (reconcile_spent_lanes ((reconcile_spent_lanes (spent_footer r1))\<lparr>fr_reducer := r2\<rparr>))
      (\<lambda>agent. [availability_now new_reducer agent, availability_now r1 agent, availability_now r2 agent])" by simp
  from health_run.event [OF open_run [of r1], of blocked_event d2 r2] r2
  have late: "health_run (\<lambda>_. True) (reconcile_spent_lanes ((spent_footer r1)\<lparr>fr_reducer := r2\<rparr>))
      (\<lambda>agent. [availability_now r1 agent, availability_now r2 agent])" by (simp add: spent_footer_def)
  have two: "availability_now r2 ''codex'' = Some AvailLocalBlocked" using status by (simp add: availability_now_def)
  have blocked: "active_availability status 2000 = Some AvailLocalBlocked" using status by (simp add: active_availability_def)
  have "fr_reducer (reconcile_spent_lanes (room\<lparr>fr_reducer := r2\<rparr>)) = r2" for room
    by (simp add: reconcile_spent_lanes_def Let_def)
  with status(1) have last_status: "agent_status (fr_reducer (reconcile_spent_lanes (room\<lparr>fr_reducer := r2\<rparr>))) ''codex'' = Some status" for room
    by simp
  show "\<exists>room seen status. health_run (\<lambda>_. True) room seen \<and> seen ''codex'' = [None, Some AvailExhausted, Some AvailLocalBlocked]
      \<and> agent_status (fr_reducer room) ''codex'' = Some status \<and> active_availability status 2000 = Some AvailLocalBlocked"
    by (intro exI conjI, rule run) (use none one two last_status blocked in auto)
  show "\<exists>room seen status. health_run (\<lambda>_. True) room seen \<and> seen ''codex'' = [Some AvailExhausted, Some AvailLocalBlocked]
      \<and> agent_status (fr_reducer room) ''codex'' = Some status \<and> active_availability status 2000 = Some AvailLocalBlocked"
    by (intro exI conjI, rule late) (use one two last_status blocked in auto)
qed


text \<open>C35: In every run of the footer, an agent that its last status calls locally blocked, with no reset
  of that status passed, reads \<open>out of usage\<close> if the last thing an event or a snapshot of the run
  left said of its account was that it is exhausted, and \<open>offline\<close> otherwise. Spent stays spent
  through any number of other words, until it is ready. Only that word ends it: the memory outlives
  the reset its own status named, and a status that names none, or a later one, reads \<open>out of
  usage\<close> when that reset has long passed. And only the run's own words are remembered: what the
  reducer said when the room opened (the head of \<open>seen\<close>) is not, unless it still says so after the
  first event. The witness shows both.\<close>

theorem spent_agent_stays_spent:
  assumes "health_run f room seen" and "agent \<in> set roster" and "agent_status (fr_reducer room) agent = Some status"
    and "active_availability status now_ms = Some AvailLocalBlocked"
  shows "agent_footer_health room agent now_ms
    = Some (if last_said_exhausted (tl (seen agent)) then OutOfUsage else Offline)"
  using blocked_word [OF assms(3,4)] health_run_memory [OF assms(1)] assms(2) by simp

text \<open>A status exhausted until time 1000 and then blocked without a reset, read at time 2000; and the
  same in a room that opens with the first of the two.\<close>

lemma spent_agent_stays_spent_witness:
  "(\<exists>room seen. health_run (\<lambda>_. True) room seen \<and> seen ''codex'' = [None, Some AvailExhausted, Some AvailLocalBlocked]
      \<and> agent_footer_health room ''codex'' 2000 = Some OutOfUsage)
    \<and> (\<exists>room seen. health_run (\<lambda>_. True) room seen \<and> seen ''codex'' = [Some AvailExhausted, Some AvailLocalBlocked]
      \<and> agent_footer_health room ''codex'' 2000 = Some Offline)"
proof -
  have word: "agent_footer_health room ''codex'' 2000
      = Some (if last_said_exhausted (tl (seen ''codex'')) then OutOfUsage else Offline)"
    if "health_run (\<lambda>_. True) room seen" "agent_status (fr_reducer room) ''codex'' = Some status"
      "active_availability status 2000 = Some AvailLocalBlocked" for room seen status
    by (rule spent_agent_stays_spent [OF that(1) _ that(2,3)]) (simp add: roster_def)
  have "last_said_exhausted [Some AvailExhausted, Some AvailLocalBlocked]"
    "\<not> last_said_exhausted [Some AvailLocalBlocked]"
    by (simp_all add: last_said_exhausted_def)
  note said = this
  from spent_run(1) obtain room seen status where one: "health_run (\<lambda>_. True) room seen"
    "seen ''codex'' = [None, Some AvailExhausted, Some AvailLocalBlocked]"
    "agent_status (fr_reducer room) ''codex'' = Some status" "active_availability status 2000 = Some AvailLocalBlocked"
    by blast
  from spent_run(2) obtain room' seen' status' where two: "health_run (\<lambda>_. True) room' seen'"
    "seen' ''codex'' = [Some AvailExhausted, Some AvailLocalBlocked]"
    "agent_status (fr_reducer room') ''codex'' = Some status'" "active_availability status' 2000 = Some AvailLocalBlocked"
    by blast
  from word [OF one(1,3,4)] one(2) said(1) have "agent_footer_health room ''codex'' 2000 = Some OutOfUsage" by simp
  moreover from word [OF two(1,3,4)] two(2) said(2) have "agent_footer_health room' ''codex'' 2000 = Some Offline" by simp
  ultimately show ?thesis using one(1,2) two(1,2) by blast
qed

text \<open>The loop that repaints the footer when \<open>reconcile_health_reset_at\<close> says so misses no change of
  health: if an agent's word at some later time differs from the one painted, the next call at or
  after that time says so.\<close>

theorem health_change_is_noticed:
  assumes "reconcile_health_reset_at t1 room = (fired, room1)" and "t1 \<le> t" and "t \<le> t2" and "agent \<in> set roster"
    and "agent_footer_health room1 agent t \<noteq> agent_footer_health room1 agent t1"
  shows "fst (reconcile_health_reset_at t2 room1)"
proof -
  from assms(1) have due: "fr_health_reset_due_ms room1 = painted_health_reset_due room t1"
    and room1: "room1 = room\<lparr>fr_health_reset_due_ms := painted_health_reset_due room t1\<rparr>"
    by (auto simp: reconcile_health_reset_at_def)
  have same: "agent_footer_health room1 agent = agent_footer_health room agent"
    by (rule ext) (simp add: agent_footer_health_def room1)
  from assms(5) have "agent_footer_health room agent t1 \<noteq> agent_footer_health room agent t" by (simp add: same)
  from health_change [OF this assms(2)] obtain status reset where
    "agent_status (fr_reducer room) agent = Some status" "as_availability_resets_at_ms status = Some reset"
    "t1 < reset" "reset \<le> t" "agent_footer_health room agent t1 \<noteq> None" .
  with painted_due_bound [OF assms(4) _ _ _ \<open>t1 < reset\<close>, of room status]
  obtain due where "painted_health_reset_due room t1 = Some due" "due \<le> t2" using assms(3) by force
  then show ?thesis by (simp add: reconcile_health_reset_at_def due)
qed

lemma health_change_is_noticed_witness:
  "\<exists>room room1. reconcile_health_reset_at 0 room = (False, room1)
    \<and> agent_footer_health room1 ''codex'' 0 = Some OutOfUsage \<and> agent_footer_health room1 ''codex'' 1000 = None
    \<and> fst (reconcile_health_reset_at 2000 room1)"
proof -
  from spent_facts obtain r status where status: "agent_status r ''codex'' = Some status"
      "as_availability status = Some AvailExhausted" "as_availability_resets_at_ms status = Some 1000" "as_auth status = None"
    by (auto split: option.splits)
  obtain room1 where step: "reconcile_health_reset_at 0 (spent_footer r) = (False, room1)" and "fr_reducer room1 = r"
    by (simp add: reconcile_health_reset_at_def spent_footer_def)
  with status have word: "agent_footer_health room1 ''codex'' 0 = Some OutOfUsage" "agent_footer_health room1 ''codex'' 1000 = None"
    by (simp_all add: agent_footer_health_def footer_health_of_def active_availability_def)
  with health_change_is_noticed [OF step, of 1000 2000 "''codex''"] have "fst (reconcile_health_reset_at 2000 room1)"
    by (simp add: roster_def)
  with step word show ?thesis by blast
qed

text \<open>On a terminal where printable ASCII takes a column a character, what an agent's cell says of its
  usage fits the space, and every reading in it is whole: it is the rich form, or the longest run of
  readings from the first that fits, with the mark of what was left out.\<close>

theorem usage_readings_whole:
  assumes "plain_width (cn_width cn) (cn_ellipsis cn)" and "usage_suffix cn fg usage available now_ms = Some parts"
  shows "parts_width (cn_width cn) parts \<le> available
    \<and> (parts = rich_usage_parts fg (visible_meters usage now_ms) (usage_exhausted_now usage now_ms)
       \<or> (\<exists>k. shows_prefix cn (visible_meters usage now_ms) (usage_exhausted_now usage now_ms) available parts k))"
  using usage_suffix_whole [OF assms] .

definition sample_usage :: agent_usage_state where
  "sample_usage = \<lparr>us_exhausted = False, us_context_used_pct = Some 7, us_five_hour_used_pct = None,
     us_five_hour_resets_at_ms = None, us_weekly_used_pct = Some 9, us_weekly_resets_at_ms = None\<rparr>"

definition sample_glyphs :: footer_glyphs where
  "sample_glyphs = \<lparr>fg_context = ''o'', fg_quota_filled = ''#'', fg_quota_empty = ''-'', fg_mark = id\<rparr>"

lemma usage_readings_whole_witness:
  "\<exists>parts. usage_suffix plain_console sample_glyphs sample_usage 8 0 = Some parts
    \<and> map fst parts = ['' ctx7%'', ''.''] \<and> parts_width (cn_width plain_console) parts \<le> 8"
proof -
  have plain: "plain_width (cn_width plain_console) (cn_ellipsis plain_console)"
    by (simp add: plain_width_def plain_console_def)
  have one: "usage_suffix plain_console sample_glyphs sample_usage 8 0 =
      Some [('' ctx7%'', ShadeDim), (''.'', ShadeDim)]"
    by (simp add: usage_suffix_def visible_meters_def sample_usage_def sample_glyphs_def plain_console_def
        weekly_is_worth_the_width_def window_is_fresh_def usage_exhausted_now_def rich_usage_parts_def rich_part_def
        parts_width_def fit_compact_kept_def dense_meter_text_def meter_text_def compact_usage_parts_def
        meter_color_def show_nat.simps [of "7 :: nat"] show_nat.simps [of "9 :: nat"] digit_char_def digit_literals Let_def)
  from usage_readings_whole [OF plain one] one show ?thesis by simp
qed

subsection \<open>The history search\<close>

text \<open>C39: The thread of the history search may answer only the last of the queries that have queued up, merged
  with the items that came before it: it holds the same items and shows the same results as if it
  had answered every message in turn.\<close>

theorem coalescing_is_lossless:
  assumes "hint_only rank" and "m \<noteq> StopDaemon" and "StopDaemon \<notin> set queue"
  shows "same_answers (answer_all rank (m # queue) d) (daemon_step rank (drain_to_latest m queue) d)"
  using drained_answers [OF assms] .

definition by_prefix :: matcher where
  "by_prefix reuse items query = map (\<lambda>s. (s, [])) (filter (\<lambda>s. take (length query) s = query) items)"

lemma coalescing_is_lossless_witness:
  "drain_to_latest (SetItems [''ab'', ''ac'']) [SetQuery ''a'', SetQuery ''ab''] = SetItemsAndQuery [''ab'', ''ac''] ''ab''
    \<and> same_answers (answer_all by_prefix [SetItems [''ab'', ''ac''], SetQuery ''a'', SetQuery ''ab''] new_daemon)
        (daemon_step by_prefix (SetItemsAndQuery [''ab'', ''ac''] ''ab'') new_daemon)"
proof -
  have "hint_only by_prefix" by (simp add: hint_only_def by_prefix_def fun_eq_iff)
  from coalescing_is_lossless [OF this, of "SetItems [''ab'', ''ac'']" "[SetQuery ''a'', SetQuery ''ab'']" new_daemon]
  show ?thesis by simp
qed

end
