(* ===== verification/Steps_Block.thy ===== *)
theory Steps_Block
  imports Pager_Health
begin

section \<open>The folded tool steps of a lane\<close>

text \<open>
  \<open>room_steps_block.rs\<close>: the one block a lane's tool calls fold into, what counts as a step that
  has ended, and the texts of its rows. Wall clocks, glyphs and the number format of a duration are
  parameters (\<open>feed_env\<close>); a colour is a \<open>shade\<close>.
\<close>

datatype room_speaker = SpeakerOperator | SpeakerClaude | SpeakerCodex | SpeakerGemini

text \<open>
  \<open>fe_room_time\<close> reads an RFC 3339 stamp as a local time of day, \<open>fe_span\<close> is the time between two
  stamps in nanoseconds when they are in order, \<open>fe_elapsed\<close> the seconds since a stamp.
\<close>

record feed_env =
  fe_console :: console
  fe_room_time :: "string \<Rightarrow> string option"
  fe_span :: "string \<Rightarrow> string \<Rightarrow> nat option"
  fe_elapsed :: "string \<Rightarrow> int option"
  fe_duration :: "nat \<Rightarrow> string"
  fe_glyph :: "room_speaker \<Rightarrow> string"
  fe_check :: string
  fe_hop_marker :: string
  fe_hop_arrow :: string
  fe_up_arrow :: string
  fe_ellipsis :: string
  fe_spinner :: "u64 \<Rightarrow> string"
  fe_strip_ansi :: "string \<Rightarrow> string"

abbreviation fe_width :: "feed_env \<Rightarrow> string \<Rightarrow> nat" where
  "fe_width env \<equiv> cn_width (fe_console env)"

subsection \<open>Steps\<close>

datatype step_outcome = NonTerminal | StepCompleted | StepFailed | UnknownTerminal

definition classify :: "string option \<Rightarrow> step_outcome" where
  "classify status =
     (case status of
        None \<Rightarrow> NonTerminal
      | Some s \<Rightarrow>
          let word = to_ascii_lowercase (trim s) in
          if word \<in> {''pending'', ''in_progress'', ''running''} then NonTerminal
          else if word = ''completed'' then StepCompleted
          else if word = ''failed'' then StepFailed
          else UnknownTerminal)"

definition is_terminal_step :: "step_outcome \<Rightarrow> bool" where
  "is_terminal_step outcome \<longleftrightarrow> outcome \<noteq> NonTerminal"

definition activity_label :: "lane_activity \<Rightarrow> string option" where
  "activity_label activity =
     map_option (map (\<lambda>c. if c = CHR ''_'' then CHR '' '' else c))
       (List.find (\<lambda>value. value \<noteq> [])
         (map trim (List.map_filter id [la_title activity, la_kind activity, la_status activity])))"

record room_step_row =
  sr_tool_call_id :: string
  sr_label :: string
  sr_outcome :: step_outcome

record steps_block =
  sb_live :: bool
  sb_steps :: "room_step_row list"
  sb_accent :: shade
  sb_duration :: "nat option"

definition steps_from :: "lane_activity list \<Rightarrow> room_step_row list" where
  "steps_from activities =
     List.map_filter (\<lambda>activity. map_option (\<lambda>label.
         \<lparr>sr_tool_call_id = la_tool_call_id activity, sr_label = label, sr_outcome = classify (la_status activity)\<rparr>)
       (activity_label activity)) activities"

definition live_steps :: "lane_activity list \<Rightarrow> shade \<Rightarrow> steps_block" where
  "live_steps activities accent =
     \<lparr>sb_live = True, sb_steps = steps_from activities, sb_accent = accent, sb_duration = None\<rparr>"

definition finalized_steps ::
  "feed_env \<Rightarrow> lane_activity list \<Rightarrow> shade \<Rightarrow> string option \<Rightarrow> string option \<Rightarrow> steps_block" where
  "finalized_steps env activities accent started_at end_at =
     \<lparr>sb_live = False, sb_steps = steps_from activities, sb_accent = accent,
      sb_duration = (case (started_at, end_at) of (Some s, Some e) \<Rightarrow> fe_span env s e | _ \<Rightarrow> None)\<rparr>"

definition terminal_steps :: "steps_block \<Rightarrow> room_step_row list" where
  "terminal_steps block = filter (\<lambda>step. is_terminal_step (sr_outcome step)) (sb_steps block)"

definition steps_empty :: "steps_block \<Rightarrow> bool" where
  "steps_empty block \<longleftrightarrow> \<not> list_ex (\<lambda>step. is_terminal_step (sr_outcome step)) (sb_steps block)"

subsection \<open>The summary\<close>

record step_counts =
  sc_total :: nat
  sc_failed :: nat
  sc_unknown :: nat

definition step_counts_of :: "steps_block \<Rightarrow> step_counts" where
  "step_counts_of block =
     fold (\<lambda>step counts.
       let counts = counts\<lparr>sc_total := sc_total counts + 1\<rparr> in
       case sr_outcome step of
         StepFailed \<Rightarrow> counts\<lparr>sc_failed := sc_failed counts + 1\<rparr>
       | UnknownTerminal \<Rightarrow> counts\<lparr>sc_unknown := sc_unknown counts + 1\<rparr>
       | _ \<Rightarrow> counts) (terminal_steps block) \<lparr>sc_total = 0, sc_failed = 0, sc_unknown = 0\<rparr>"

definition shows_check :: "step_counts \<Rightarrow> bool" where
  "shows_check counts \<longleftrightarrow> sc_total counts > 0 \<and> sc_failed counts = 0 \<and> sc_unknown counts = 0"

definition steps_noun :: "nat \<Rightarrow> string" where
  "steps_noun count = (if count = 1 then ''step'' else ''steps'')"

definition summary_plain :: "feed_env \<Rightarrow> steps_block \<Rightarrow> string" where
  "summary_plain env block =
     (let counts = step_counts_of block in
      (if shows_check counts then fe_check env @ '' '' else [])
      @ show_nat (sc_total counts) @ '' '' @ steps_noun (sc_total counts)
      @ (if sc_failed counts > 0 then middle_dot @ show_nat (sc_failed counts) @ '' failed'' else [])
      @ (case sb_duration block of None \<Rightarrow> [] | Some d \<Rightarrow> middle_dot @ fe_duration env d))"

definition full_text :: "feed_env \<Rightarrow> steps_block \<Rightarrow> string" where
  "full_text env block = join [CHR 0x0A] (map sr_label (terminal_steps block) @ [summary_plain env block])"

definition first_fitting :: "feed_env \<Rightarrow> (string \<times> shade) list list \<Rightarrow> nat \<Rightarrow> (string \<times> shade) list option" where
  "first_fitting env rungs width = List.find (\<lambda>spans. parts_width (fe_width env) spans \<le> width) rungs"

text \<open>The two ladders of \<open>summary_line\<close>.\<close>

definition failed_rungs :: "step_counts \<Rightarrow> string option \<Rightarrow> (string \<times> shade) list list" where
  "failed_rungs counts duration =
     (let count_text = show_nat (sc_total counts) @ '' '' @ steps_noun (sc_total counts);
          failed_text = show_nat (sc_failed counts) @ '' failed''
      in (case duration of None \<Rightarrow> []
          | Some d \<Rightarrow> [[(count_text @ middle_dot, ShadeDim), (failed_text, ShadeDead), (middle_dot @ d, ShadeDim)]])
         @ [[(count_text @ middle_dot, ShadeDim), (failed_text, ShadeDead)], [(failed_text, ShadeDead)]])"

definition clean_rungs :: "feed_env \<Rightarrow> step_counts \<Rightarrow> string option \<Rightarrow> (string \<times> shade) list list" where
  "clean_rungs env counts duration =
     (let mark = (if shows_check counts then fe_check env @ '' '' else []);
          count_text = show_nat (sc_total counts) @ '' '' @ steps_noun (sc_total counts)
      in (case duration of None \<Rightarrow> [] | Some d \<Rightarrow> [[(mark @ count_text @ middle_dot @ d, ShadeDim)]])
         @ [[(mark @ count_text, ShadeDim)], [(mark @ show_nat (sc_total counts), ShadeDim)]])"

definition summary_line :: "feed_env \<Rightarrow> steps_block \<Rightarrow> nat \<Rightarrow> (string \<times> shade) list" where
  "summary_line env block width =
     (let counts = step_counts_of block; duration = map_option (fe_duration env) (sb_duration block) in
      if sc_failed counts > 0
      then (case first_fitting env (failed_rungs counts duration) width of
              Some line \<Rightarrow> line
            | None \<Rightarrow> [(truncate_width (fe_console env) (show_nat (sc_failed counts) @ '' failed'') width, ShadeDead)])
      else (case first_fitting env (clean_rungs env counts duration) width of
              Some line \<Rightarrow> line
            | None \<Rightarrow>
                [(truncate_width (fe_console env)
                    ((if shows_check counts then fe_check env @ '' '' else []) @ show_nat (sc_total counts)) width, ShadeDim)]))"

subsection \<open>The rows\<close>

definition LIVE_WINDOW_STEPS :: nat where "LIVE_WINDOW_STEPS = 2"

definition step_line :: "feed_env \<Rightarrow> room_step_row \<Rightarrow> nat \<Rightarrow> string \<times> shade" where
  "step_line env step width =
     (case sr_outcome step of
        StepCompleted \<Rightarrow> (truncate_width (fe_console env) (fe_check env @ '' '' @ sr_label step) width, ShadeDim)
      | StepFailed \<Rightarrow> (truncate_width (fe_console env) (sr_label step) width, ShadeDead)
      | _ \<Rightarrow> (truncate_width (fe_console env) (sr_label step) width, ShadeDim))"

definition live_window :: "feed_env \<Rightarrow> steps_block \<Rightarrow> nat \<Rightarrow> (string \<times> shade) list list" where
  "live_window env block width =
     (let terminal = terminal_steps block; remainder = length terminal - LIVE_WINDOW_STEPS in
      (if remainder \<ge> 1
       then [[(truncate_width (fe_console env) (CHR ''+'' # show_nat remainder @ '' earlier '' @ steps_noun remainder) width, ShadeFaint)]]
       else [])
      @ map (\<lambda>step. [step_line env step width]) (drop remainder terminal))"

definition all_step_lines :: "feed_env \<Rightarrow> steps_block \<Rightarrow> nat \<Rightarrow> (string \<times> shade) list list" where
  "all_step_lines env block width = map (\<lambda>step. [step_line env step width]) (terminal_steps block)"

datatype display_mode = ModeCollapsed | ModeTruncated | ModeExpanded

definition EXPAND_HINT :: string where "EXPAND_HINT = ''(ctrl+e to expand)''"

definition append_expand_hint ::
  "feed_env \<Rightarrow> nat \<Rightarrow> display_mode \<Rightarrow> bool \<Rightarrow> (string \<times> shade) list \<Rightarrow> (string \<times> shade) list" where
  "append_expand_hint env width mode selected line =
     (if \<not> selected \<or> mode \<noteq> ModeCollapsed then line
      else if parts_width (fe_width env) line + fe_width env (''  '' @ EXPAND_HINT) > width then line
      else line @ [(''  '' @ EXPAND_HINT, ShadeFaint)])"

definition steps_output ::
  "feed_env \<Rightarrow> steps_block \<Rightarrow> nat \<Rightarrow> display_mode \<Rightarrow> bool \<Rightarrow> (string \<times> shade) list list" where
  "steps_output env block width mode selected =
     (let lines =
        (if sb_live block
         then if mode = ModeExpanded then all_step_lines env block width else live_window env block width
         else if mode = ModeExpanded then all_step_lines env block width @ [summary_line env block width]
         else [summary_line env block width])
      in if lines = [] then [] else butlast lines @ [append_expand_hint env width mode selected (last lines)])"

end
