(* ===== verification/Scroll_State.thy ===== *)
theory Scroll_State
  imports Steps_Block
begin

section \<open>The pager's scrollback, as the room uses it\<close>

text \<open>
  The part of \<open>scrollback/state/mod.rs\<close> that decides which entries there are, in which order and
  with which content: an \<open>IndexMap\<close> from identifiers to entries is an association list in its order.
  Layout, folding, the viewport and the caches are not modelled. A message block holds the text that
  was handed to the markdown renderer; a stub its plain text and colour.
\<close>

datatype feed_block =
    StubBlock string shade
  | MessageBlock string shade
  | StepsBlock steps_block

record feed_row =
  row_block :: feed_block
  row_cohesion :: "u64 option"
  row_running :: bool

record scroll_state =
  ss_entries :: "(nat \<times> feed_row) list"
  ss_next_id :: nat
  ss_running :: "nat set"
  ss_committed :: "nat set"
  ss_selected :: "nat option"

definition new_scroll :: scroll_state where
  "new_scroll = \<lparr>ss_entries = [], ss_next_id = 0, ss_running = {}, ss_committed = {}, ss_selected = None\<rparr>"

definition new_row :: "feed_block \<Rightarrow> feed_row" where
  "new_row block = \<lparr>row_block = block, row_cohesion = None, row_running = False\<rparr>"

subsection \<open>Looking up\<close>

definition row_ids :: "scroll_state \<Rightarrow> nat list" where
  "row_ids s = map fst (ss_entries s)"

definition get_by_id :: "scroll_state \<Rightarrow> nat \<Rightarrow> feed_row option" where
  "get_by_id s i = map_of (ss_entries s) i"

fun index_in :: "'a \<Rightarrow> 'a list \<Rightarrow> nat option" where
  "index_in x [] = None"
| "index_in x (y # ys) = (if x = y then Some 0 else map_option Suc (index_in x ys))"

definition index_of_id :: "scroll_state \<Rightarrow> nat \<Rightarrow> nat option" where
  "index_of_id s i = index_in i (row_ids s)"

subsection \<open>Writing\<close>

definition push :: "feed_row \<Rightarrow> scroll_state \<Rightarrow> nat \<times> scroll_state" where
  "push row s =
     (let i = ss_next_id s in
      (i, s\<lparr>ss_next_id := i + 1,
            ss_running := (if row_running row then insert i (ss_running s) else ss_running s),
            ss_entries := ss_entries s @ [(i, row)]\<rparr>))"

definition push_block :: "feed_block \<Rightarrow> scroll_state \<Rightarrow> nat \<times> scroll_state" where
  "push_block block = push (new_row block)"

definition push_block_with_cohesion :: "feed_block \<Rightarrow> u64 \<Rightarrow> scroll_state \<Rightarrow> nat \<times> scroll_state" where
  "push_block_with_cohesion block cohesion = push ((new_row block)\<lparr>row_cohesion := Some cohesion\<rparr>)"

definition insert_block_before_entry :: "nat \<Rightarrow> feed_row \<Rightarrow> scroll_state \<Rightarrow> nat \<times> scroll_state" where
  "insert_block_before_entry anchor row s =
     (case index_of_id s anchor of
        None \<Rightarrow> push row s
      | Some index \<Rightarrow>
          let i = ss_next_id s in
          (i, s\<lparr>ss_next_id := i + 1,
                ss_running := (if row_running row then insert i (ss_running s) else ss_running s),
                ss_entries := take index (ss_entries s) @ (i, row) # drop index (ss_entries s),
                ss_selected := map_option (\<lambda>selected. if selected \<ge> index then selected + 1 else selected) (ss_selected s)\<rparr>))"

definition insert_block_before :: "nat \<Rightarrow> feed_block \<Rightarrow> scroll_state \<Rightarrow> nat \<times> scroll_state" where
  "insert_block_before anchor block = insert_block_before_entry anchor (new_row block)"

definition insert_block_before_with_cohesion ::
  "nat \<Rightarrow> feed_block \<Rightarrow> u64 \<Rightarrow> scroll_state \<Rightarrow> nat \<times> scroll_state" where
  "insert_block_before_with_cohesion anchor block cohesion =
     insert_block_before_entry anchor ((new_row block)\<lparr>row_cohesion := Some cohesion\<rparr>)"

definition without_row :: "nat \<Rightarrow> (nat \<times> feed_row) list \<Rightarrow> (nat \<times> feed_row) list" where
  "without_row i entries = filter (\<lambda>(j, _). j \<noteq> i) entries"

definition remove_entry :: "nat \<Rightarrow> scroll_state \<Rightarrow> bool \<times> scroll_state" where
  "remove_entry i s =
     (case index_of_id s i of
        None \<Rightarrow> (False, s)
      | Some _ \<Rightarrow>
          let entries = without_row i (ss_entries s) in
          (True, s\<lparr>ss_entries := entries, ss_running := ss_running s - {i}, ss_committed := ss_committed s - {i},
                   ss_selected := Option.bind (ss_selected s) (\<lambda>selected.
                     if selected \<ge> length entries then (if entries = [] then None else Some (length entries - 1))
                     else Some selected)\<rparr>))"

definition any_committed :: "nat list \<Rightarrow> scroll_state \<Rightarrow> bool" where
  "any_committed is s \<longleftrightarrow> list_ex (\<lambda>i. i \<in> ss_committed s) is"

text \<open>\<open>move_group_to_end\<close>, in a build without debug assertions.\<close>

definition move_group_to_end :: "nat list \<Rightarrow> scroll_state \<Rightarrow> bool \<times> scroll_state" where
  "move_group_to_end is s =
     (let ordered = filter (\<lambda>i. i \<in> set (row_ids s)) (rev (remdups (rev is))) in
      if ordered = [] then (False, s)
      else if drop (length (ss_entries s) - length ordered) (row_ids s) = ordered then (False, s)
      else if any_committed ordered s then (False, s)
      else
        let selected_id = Option.bind (ss_selected s)
              (\<lambda>index. if index < length (ss_entries s) then Some (row_ids s ! index) else None);
            carried = map (\<lambda>i. (i, the (get_by_id s i))) ordered;
            s1 = s\<lparr>ss_entries := filter (\<lambda>(i, _). i \<notin> set ordered) (ss_entries s) @ carried\<rparr>
        in (True, s1\<lparr>ss_selected := Option.bind selected_id (index_of_id s1)\<rparr>))"

text \<open>Writing an entry in place: \<open>entries.get_mut\<close>.\<close>

definition update_row :: "nat \<Rightarrow> (feed_row \<Rightarrow> feed_row) \<Rightarrow> scroll_state \<Rightarrow> scroll_state" where
  "update_row i f s = s\<lparr>ss_entries := map (\<lambda>(j, row). (j, if j = i then f row else row)) (ss_entries s)\<rparr>"

definition push_chunk_to_agent :: "nat \<Rightarrow> string \<Rightarrow> scroll_state \<Rightarrow> bool \<times> scroll_state" where
  "push_chunk_to_agent i chunk s =
     (case map_option row_block (get_by_id s i) of
        Some (MessageBlock text accent) \<Rightarrow>
          (True, update_row i (\<lambda>row. row\<lparr>row_block := MessageBlock (text @ chunk) accent\<rparr>) s)
      | _ \<Rightarrow> (False, s))"

fun same_kind :: "feed_block \<Rightarrow> feed_block \<Rightarrow> bool" where
  "same_kind (StubBlock _ _) (StubBlock _ _) \<longleftrightarrow> True"
| "same_kind (MessageBlock _ _) (MessageBlock _ _) \<longleftrightarrow> True"
| "same_kind (StepsBlock _) (StepsBlock _) \<longleftrightarrow> True"
| "same_kind _ _ \<longleftrightarrow> False"

text \<open>
  \<open>replace_agent_message\<close>, \<open>replace_room_status\<close> and \<open>replace_room_steps\<close>: each takes a block of its own
  kind, and only in place of one.
\<close>

definition replace_agent_message :: "nat \<Rightarrow> feed_block \<Rightarrow> scroll_state \<Rightarrow> bool \<times> scroll_state" where
  "replace_agent_message i block s =
     (if \<not> same_kind block (MessageBlock [] ShadeDim) then (False, s)
      else case get_by_id s i of
        None \<Rightarrow> (False, s)
      | Some row \<Rightarrow>
          if \<not> same_kind (row_block row) (MessageBlock [] ShadeDim) then (False, s)
          else (True, update_row i (\<lambda>row. row\<lparr>row_block := block\<rparr>) s))"

definition replace_room_status :: "nat \<Rightarrow> feed_block \<Rightarrow> scroll_state \<Rightarrow> bool \<times> scroll_state" where
  "replace_room_status i block s =
     (if \<not> same_kind block (StubBlock [] ShadeDim) then (False, s)
      else case get_by_id s i of
        None \<Rightarrow> (False, s)
      | Some row \<Rightarrow>
          if \<not> same_kind (row_block row) (StubBlock [] ShadeDim) then (False, s)
          else (True, update_row i (\<lambda>row. row\<lparr>row_block := block\<rparr>) s))"

definition replace_room_steps :: "nat \<Rightarrow> steps_block \<Rightarrow> scroll_state \<Rightarrow> bool \<times> scroll_state" where
  "replace_room_steps i block s =
     (case map_option row_block (get_by_id s i) of
        Some (StepsBlock _) \<Rightarrow> (True, update_row i (\<lambda>row. row\<lparr>row_block := StepsBlock block\<rparr>) s)
      | _ \<Rightarrow> (False, s))"

definition set_entry_running :: "nat \<Rightarrow> bool \<Rightarrow> scroll_state \<Rightarrow> scroll_state" where
  "set_entry_running i running s =
     (case get_by_id s i of
        None \<Rightarrow> s
      | Some row \<Rightarrow>
          (update_row i (\<lambda>row. row\<lparr>row_running := running\<rparr>) s)
            \<lparr>ss_running := (if running \<and> \<not> row_running row then insert i (ss_running s)
                           else if \<not> running \<and> row_running row then ss_running s - {i}
                           else ss_running s)\<rparr>)"

definition finish_running :: "nat \<Rightarrow> scroll_state \<Rightarrow> scroll_state" where
  "finish_running i s =
     (update_row i (\<lambda>row. row\<lparr>row_running := False\<rparr>) s)\<lparr>ss_running := ss_running s - {i}\<rparr>"

definition set_selected :: "nat option \<Rightarrow> scroll_state \<Rightarrow> scroll_state" where
  "set_selected index s = s\<lparr>ss_selected := opt_filter (\<lambda>i. i < length (ss_entries s)) index\<rparr>"

end
