(* ===== verification/Room_Scrollback.thy ===== *)
theory Room_Scrollback
  imports Scroll_State Boot_Progress "HOL-Library.AList"
begin

section \<open>The room's feed\<close>

text \<open>
  \<open>room_scrollback.rs\<close> and \<open>room_scrollback/relocation.rs\<close>: the rows the room draws for the
  reducer's events, which lane's and turn's rows they are, and where they go. The maps of the
  adapter are maps, but for \<open>turn_blocks\<close>, which the code also iterates: an association list. A row of
  several styled spans is its plain text and its first colour.
\<close>

subsection \<open>State\<close>

fun speaker_of_agent :: "string \<Rightarrow> room_speaker" where
  "speaker_of_agent agent =
     (if agent = ''claude'' then SpeakerClaude else if agent = ''codex'' then SpeakerCodex
      else if agent = ''gemini'' then SpeakerGemini else SpeakerOperator)"

fun speaker_label :: "room_speaker \<Rightarrow> string" where
  "speaker_label SpeakerOperator = ''you''"
| "speaker_label SpeakerClaude = ''claude''"
| "speaker_label SpeakerCodex = ''codex''"
| "speaker_label SpeakerGemini = ''gemini''"

definition speaker_color :: "room_speaker \<Rightarrow> shade" where
  "speaker_color speaker = ShadeBrand (speaker_label speaker)"

record stream_binding =
  bd_header_entry_id :: nat
  bd_entry_id :: nat
  bd_status_entry_id :: nat
  bd_cohesion_group :: u64
  bd_text :: string
  bd_completed :: bool
  bd_status_cleared :: bool
  bd_speaker :: room_speaker
  bd_activity_label :: "string option"
  bd_steps_entry_id :: "nat option"
  bd_steps_folded :: bool
  bd_turn_id :: string
  bd_roster_index :: u64

record turn_lane_rows =
  tl_roster_index :: u64
  tl_entry_ids :: "nat set"

record turn_lane_block =
  tb_lanes :: "turn_lane_rows list"
  tb_relocated :: bool

record answer_group =
  ag_cohesion_group :: u64
  ag_ids :: "nat list"
  ag_top :: nat
  ag_back_reference :: "nat option"

record scrollback =
  fd_state :: scroll_state
  fd_stream_entries :: "string \<Rightarrow> stream_binding option"
  fd_content_entries :: "string \<Rightarrow> nat option"
  fd_content_speakers :: "string \<Rightarrow> room_speaker option"
  fd_lane_streams :: "string \<Rightarrow> string option"
  fd_lane_speakers :: "string \<Rightarrow> room_speaker option"
  fd_hop_entries :: "string set"
  fd_terminal_lanes :: "string set"
  fd_turn_blocks :: "(string \<times> turn_lane_block) list"
  fd_answer_groups :: "string \<Rightarrow> answer_group option"
  fd_reduced_motion :: bool
  fd_next_cohesion_group :: u64

definition new_scrollback :: scrollback where
  "new_scrollback =
     \<lparr>fd_state = new_scroll, fd_stream_entries = Map.empty, fd_content_entries = Map.empty,
      fd_content_speakers = Map.empty, fd_lane_streams = Map.empty, fd_lane_speakers = Map.empty,
      fd_hop_entries = {}, fd_terminal_lanes = {}, fd_turn_blocks = [], fd_answer_groups = Map.empty,
      fd_reduced_motion = False, fd_next_cohesion_group = 1\<rparr>"

type_synonym lane_order_key = "string \<times> u64"

definition order_of :: "lane_state \<Rightarrow> lane_order_key" where
  "order_of l = (ln_turn_id l, ln_roster_index l)"

definition write_binding :: "string \<Rightarrow> (stream_binding \<Rightarrow> stream_binding) \<Rightarrow> scrollback \<Rightarrow> scrollback" where
  "write_binding sid f fd =
     fd\<lparr>fd_stream_entries := (fd_stream_entries fd)(sid := map_option f (fd_stream_entries fd sid))\<rparr>"

text \<open>Running an operation of the scrollback state inside the feed.\<close>

definition on_state :: "(scroll_state \<Rightarrow> 'a \<times> scroll_state) \<Rightarrow> scrollback \<Rightarrow> 'a \<times> scrollback" where
  "on_state f fd = (case f (fd_state fd) of (a, s) \<Rightarrow> (a, fd\<lparr>fd_state := s\<rparr>))"

definition allocate_cohesion_group :: "scrollback \<Rightarrow> u64 \<times> scrollback" where
  "allocate_cohesion_group fd =
     (fd_next_cohesion_group fd, fd\<lparr>fd_next_cohesion_group := max (saturating_inc (fd_next_cohesion_group fd)) 1\<rparr>)"

subsection \<open>Rows of fixed wording\<close>

definition speaker_header_block :: "feed_env \<Rightarrow> room_speaker \<Rightarrow> string option \<Rightarrow> feed_block" where
  "speaker_header_block env speaker occurred_at =
     StubBlock (fe_glyph env speaker @ '' '' @ speaker_label speaker
       @ (case Option.bind occurred_at (fe_room_time env) of None \<Rightarrow> [] | Some timestamp \<Rightarrow> middle_dot @ timestamp))
       (speaker_color speaker)"

definition cancelled_header_block :: "feed_env \<Rightarrow> room_speaker \<Rightarrow> feed_block" where
  "cancelled_header_block env speaker =
     StubBlock (fe_glyph env speaker @ '' '' @ speaker_label speaker @ dash @ ''cancelled'') ShadeFaint"

definition live_status_block :: "feed_env \<Rightarrow> room_speaker \<Rightarrow> string \<Rightarrow> int option \<Rightarrow> u64 \<Rightarrow> feed_block" where
  "live_status_block env speaker label elapsed tick =
     StubBlock (fe_spinner env tick @ '' '' @ label @ fe_ellipsis env
       @ (case elapsed of None \<Rightarrow> [] | Some seconds \<Rightarrow> '' ('' @ show_nat (nat seconds) @ ''s)'')) (speaker_color speaker)"

definition back_reference_block :: "feed_env \<Rightarrow> string \<Rightarrow> feed_block" where
  "back_reference_block env prompt_at =
     StubBlock (fe_hop_arrow env @ '' answering your '' @ prompt_at @ '' message'') ShadeFaint"

definition notice_phrase :: "string \<Rightarrow> string" where
  "notice_phrase cause =
     (if cause = ''memory-db-open-failed'' then ''memory briefing unavailable: the evidence database would not open''
      else if cause = ''memory-project-resolve-failed''
      then ''memory briefing unavailable: this project could not be resolved''
      else if cause = ''memory-compose-failed'' then ''memory briefing unavailable: the briefing could not be composed''
      else if cause = ''memory-cursor-failed'' then ''memory briefing unavailable: the lane cursor could not be read''
      else if cause = ''memory-request-files-failed''
      then ''memory briefing unavailable: the files named in the request could not be read''
      else if cause = ''memory-failure-log-unwritable'' then ''memory failure record could not be written to disk''
      else if cause = ''agy-conversation-lost''
      then ''gemini lost the thread of this conversation and started fresh''
      else if cause = ''room-rebuilt-from-ledger''
      then ''this room was rebuilt from the evidence ledger; messages that were missing from its transcript were restored''
      else ''the host reported a condition this build does not recognize'')"

subsection \<open>Failure details\<close>

definition MAX_FAILURE_DETAIL_WIDTH :: nat where "MAX_FAILURE_DETAIL_WIDTH = 72"

fun from_window :: "string \<Rightarrow> string \<Rightarrow> string option" where
  "from_window needle [] = (if needle = [] then Some [] else None)"
| "from_window needle (c # rest) =
     (if take (length needle) (c # rest) = needle then Some (c # rest) else from_window needle rest)"

definition unhidden :: "string \<Rightarrow> string" where
  "unhidden piece =
     (case chars piece of [c] \<Rightarrow> (if is_control c \<or> hidden_format c then '' '' else piece) | _ \<Rightarrow> piece)"

definition byte_offset_at_width :: "console \<Rightarrow> string \<Rightarrow> nat \<Rightarrow> nat" where
  "byte_offset_at_width cn s max_width = length (concat (fitting cn 0 max_width (char_pieces s)))"

definition truncate_to_width :: "console \<Rightarrow> string \<Rightarrow> nat \<Rightarrow> string" where
  "truncate_to_width cn s max_width =
     (if byte_offset_at_width cn s max_width = length s then s
      else if max_width = 0 then []
      else take (byte_offset_at_width cn s (max_width - 1)) s @ [CHR 0xE2, CHR 0x80, CHR 0xA6])"

definition truncate_failure_middle :: "feed_env \<Rightarrow> string \<Rightarrow> nat \<Rightarrow> string" where
  "truncate_failure_middle env value max_width =
     (let cn = fe_console env; marker = '' '' @ fe_ellipsis env @ '' ''; marker_width = cn_width cn marker in
      if cn_width cn value \<le> max_width then value
      else if max_width \<le> marker_width then truncate_to_width cn value max_width
      else
        let available = max_width - marker_width;
            head_budget = available * 3 div 5;
            tail_budget = available - head_budget
        in concat (fitting cn 0 head_budget (char_pieces value)) @ marker
           @ concat (rev (fitting cn 0 tail_budget (rev (char_pieces value)))))"

definition compact_failure_detail :: "feed_env \<Rightarrow> string \<Rightarrow> string option" where
  "compact_failure_detail env value =
     (let lines = filter (\<lambda>line. line \<noteq> [])
            (map (\<lambda>line. join '' '' (split_whitespace (concat (map unhidden (char_pieces line)))))
              (text_lines (fe_strip_ansi env value)));
          chosen = (case List.find (\<lambda>line. contains_window ''failed to '' (to_ascii_lowercase line)) lines of
              Some line \<Rightarrow> Some line
            | None \<Rightarrow>
                (case List.find (\<lambda>line. contains_window ''error:'' (to_ascii_lowercase line)) lines of
                   Some line \<Rightarrow> Some line
                 | None \<Rightarrow> (case lines of [] \<Rightarrow> None | line # _ \<Rightarrow> Some line)))
      in map_option (\<lambda>compact.
           let kept = (case from_window ''failed to '' (to_ascii_lowercase compact) of
               None \<Rightarrow> compact | Some suff \<Rightarrow> drop (length compact - length suff) compact)
           in truncate_failure_middle env kept MAX_FAILURE_DETAIL_WIDTH) chosen)"

definition compact_handoff_text :: "string \<Rightarrow> string" where
  "compact_handoff_text text = concat (take 240 (char_pieces (join '' '' (split_whitespace text))))"

subsection \<open>The registry of lane rows\<close>

definition lane_anchor :: "lane_order_key \<Rightarrow> scrollback \<Rightarrow> nat option" where
  "lane_anchor order fd =
     Option.bind (map_of (fd_turn_blocks fd) (fst order)) (\<lambda>block.
       List.find (\<lambda>i. list_ex (\<lambda>drawn. tl_roster_index drawn > snd order \<and> i \<in> tl_entry_ids drawn) (tb_lanes block))
         (row_ids (fd_state fd)))"

definition in_block :: "turn_lane_block \<Rightarrow> nat \<Rightarrow> bool" where
  "in_block block i \<longleftrightarrow> list_ex (\<lambda>drawn. i \<in> tl_entry_ids drawn) (tb_lanes block)"

definition turn_block_tail_successor :: "string \<Rightarrow> scrollback \<Rightarrow> nat option" where
  "turn_block_tail_successor turn_id fd =
     Option.bind (map_of (fd_turn_blocks fd) turn_id) (\<lambda>block.
       if \<not> list_ex (in_block block) (row_ids (fd_state fd)) then None
       else case rev (takeWhile (\<lambda>i. \<not> in_block block i) (rev (row_ids (fd_state fd)))) of
              [] \<Rightarrow> None | i # _ \<Rightarrow> Some i)"

definition remember_row :: "u64 \<Rightarrow> nat \<Rightarrow> turn_lane_block \<Rightarrow> turn_lane_block" where
  "remember_row roster_index i block =
     (if list_ex (\<lambda>drawn. tl_roster_index drawn = roster_index) (tb_lanes block)
      then block\<lparr>tb_lanes := map (\<lambda>drawn.
        if tl_roster_index drawn = roster_index then drawn\<lparr>tl_entry_ids := insert i (tl_entry_ids drawn)\<rparr> else drawn)
        (tb_lanes block)\<rparr>
      else
        let below = takeWhile (\<lambda>drawn. tl_roster_index drawn < roster_index) (tb_lanes block) in
        block\<lparr>tb_lanes := below @ \<lparr>tl_roster_index = roster_index, tl_entry_ids = {i}\<rparr>
                # drop (length below) (tb_lanes block)\<rparr>)"

definition block_of :: "string \<Rightarrow> scrollback \<Rightarrow> turn_lane_block" where
  "block_of turn_id fd =
     (case map_of (fd_turn_blocks fd) turn_id of None \<Rightarrow> \<lparr>tb_lanes = [], tb_relocated = False\<rparr> | Some block \<Rightarrow> block)"

definition remember_lane_row :: "string \<Rightarrow> u64 \<Rightarrow> nat \<Rightarrow> scrollback \<Rightarrow> scrollback" where
  "remember_lane_row turn_id roster_index i fd =
     fd\<lparr>fd_turn_blocks := AList.update turn_id (remember_row roster_index i (block_of turn_id fd)) (fd_turn_blocks fd)\<rparr>"

definition forget_lane_row :: "string \<Rightarrow> u64 \<Rightarrow> nat \<Rightarrow> scrollback \<Rightarrow> scrollback" where
  "forget_lane_row turn_id roster_index i fd =
     (case map_of (fd_turn_blocks fd) turn_id of
        None \<Rightarrow> fd
      | Some block \<Rightarrow>
          let lanes = filter (\<lambda>drawn. tl_entry_ids drawn \<noteq> {})
                (map (\<lambda>drawn. if tl_roster_index drawn = roster_index
                   then drawn\<lparr>tl_entry_ids := tl_entry_ids drawn - {i}\<rparr> else drawn) (tb_lanes block))
          in fd\<lparr>fd_turn_blocks :=
               (if lanes = [] then AList.delete turn_id (fd_turn_blocks fd)
                else AList.update turn_id (block\<lparr>tb_lanes := lanes\<rparr>) (fd_turn_blocks fd))\<rparr>)"

definition forget_settled_turn :: "string \<Rightarrow> reducer \<Rightarrow> scrollback \<Rightarrow> scrollback" where
  "forget_settled_turn turn_id r fd =
     (if list_ex (\<lambda>l. ln_phase l \<notin> {Completed, Failed, Cancelled}) (turn_lanes r turn_id) then fd
      else fd\<lparr>fd_turn_blocks := AList.delete turn_id (fd_turn_blocks fd)\<rparr>)"

definition place_lane_block :: "lane_order_key \<Rightarrow> feed_block \<Rightarrow> u64 option \<Rightarrow> scrollback \<Rightarrow> nat \<times> scrollback" where
  "place_lane_block order block cohesion fd =
     (let anchor = (case lane_anchor order fd of
            Some anchor \<Rightarrow> Some anchor
          | None \<Rightarrow>
              (case map_of (fd_turn_blocks fd) (fst order) of
                 Some b \<Rightarrow> if tb_relocated b then turn_block_tail_successor (fst order) fd else None
               | None \<Rightarrow> None));
          write = (case (anchor, cohesion) of
            (Some a, Some g) \<Rightarrow> insert_block_before_with_cohesion a block g
          | (Some a, None) \<Rightarrow> insert_block_before a block
          | (None, Some g) \<Rightarrow> push_block_with_cohesion block g
          | (None, None) \<Rightarrow> push_block block)
      in case on_state write fd of
           (i, fd1) \<Rightarrow> (i, remember_lane_row (fst order) (snd order) i fd1))"

subsection \<open>Moving a turn's block\<close>

definition ordered_block_ids :: "string \<Rightarrow> scrollback \<Rightarrow> nat list" where
  "ordered_block_ids turn_id fd =
     (case map_of (fd_turn_blocks fd) turn_id of
        None \<Rightarrow> [] | Some block \<Rightarrow> filter (in_block block) (row_ids (fd_state fd)))"

definition lane_owning_entry :: "nat \<Rightarrow> scrollback \<Rightarrow> (string \<times> u64) option" where
  "lane_owning_entry i fd =
     map_option (\<lambda>(turn_id, drawn). (turn_id, tl_roster_index drawn))
       (List.find (\<lambda>(_, drawn). i \<in> tl_entry_ids drawn)
         (concat (map (\<lambda>(turn_id, block). map (Pair turn_id) (tb_lanes block)) (fd_turn_blocks fd))))"

definition remember_answer_group :: "string \<Rightarrow> u64 \<Rightarrow> nat list \<Rightarrow> nat \<Rightarrow> scrollback \<Rightarrow> scrollback" where
  "remember_answer_group message_id cohesion is top_id fd =
     fd\<lparr>fd_answer_groups := (fd_answer_groups fd)(message_id \<mapsto>
       \<lparr>ag_cohesion_group = cohesion, ag_ids = is, ag_top = top_id, ag_back_reference = None\<rparr>)\<rparr>"

definition ensure_back_reference :: "feed_env \<Rightarrow> string \<Rightarrow> string option \<Rightarrow> scrollback \<Rightarrow> scrollback" where
  "ensure_back_reference env message_id prompt_at fd =
     (case fd_answer_groups fd message_id of
        None \<Rightarrow> fd
      | Some g \<Rightarrow>
          if ag_back_reference g \<noteq> None then fd
          else
            case Option.bind prompt_at (fe_room_time env) of
              None \<Rightarrow> fd
            | Some prompt_time \<Rightarrow>
                (case on_state (insert_block_before_with_cohesion (ag_top g) (back_reference_block env prompt_time)
                        (ag_cohesion_group g)) fd of
                   (i, fd1) \<Rightarrow>
                     let fd2 = fd1\<lparr>fd_answer_groups := (fd_answer_groups fd1)(message_id \<mapsto>
                           g\<lparr>ag_ids := i # ag_ids g, ag_top := i, ag_back_reference := Some i\<rparr>)\<rparr>
                     in case lane_owning_entry (ag_top g) fd2 of
                          None \<Rightarrow> fd2
                        | Some (turn_id, roster_index) \<Rightarrow> remember_lane_row turn_id roster_index i fd2))"

definition first_draw_of :: "reducer \<Rightarrow> lane_state \<Rightarrow> string option" where
  "first_draw_of r l =
     (case Option.bind (ln_stream_id l) (streams r) of
        Some s \<Rightarrow> Some (st_started_event_seq s)
      | None \<Rightarrow> ln_terminal_event_seq l)"

definition turn_first_draw_seq :: "reducer \<Rightarrow> string \<Rightarrow> string option" where
  "turn_first_draw_seq r turn_id =
     (case List.map_filter (first_draw_of r) (turn_lanes r turn_id) of
        [] \<Rightarrow> None
      | q # qs \<Rightarrow> Some (fold (\<lambda>s earliest. if decimal_cmp s earliest = Ok Less then s else earliest) qs q))"

definition displacement_prompt :: "reducer \<Rightarrow> string \<Rightarrow> string \<Rightarrow> transcript_entry option" where
  "displacement_prompt r turn_id commit_seq =
     Option.bind (turn_seat r turn_id) (\<lambda>source_seat.
     Option.bind (turn_first_draw_seq r turn_id) (\<lambda>first_draw.
       List.find (\<lambda>entry. tr_author entry = AuthorOperator
            \<and> (case turn_seat r (tr_turn_id entry) of None \<Rightarrow> False | Some seat \<Rightarrow> seat > source_seat))
         (takeWhile (\<lambda>entry. decimal_cmp (tr_event_seq entry) commit_seq = Ok Less)
           (dropWhile (\<lambda>entry. decimal_cmp (tr_event_seq entry) first_draw \<noteq> Ok Greater) (transcript r)))))"

definition relocate_if_displaced :: "feed_env \<Rightarrow> reducer \<Rightarrow> string \<Rightarrow> string \<Rightarrow> string \<Rightarrow> scrollback \<Rightarrow> scrollback" where
  "relocate_if_displaced env r turn_id message_id commit_seq fd =
     (if displacement_prompt r turn_id commit_seq = None then fd
      else
        let prompt_at = map_option tr_occurred_at
              (List.find (\<lambda>entry. tr_author entry = AuthorOperator \<and> tr_turn_id entry = turn_id) (transcript r));
            block = ordered_block_ids turn_id fd
        in if block = [] \<or> any_committed block (fd_state fd) then fd
           else
             let fd1 = ensure_back_reference env message_id prompt_at fd in
             case on_state (move_group_to_end (ordered_block_ids turn_id fd1)) fd1 of
               (moved, fd2) \<Rightarrow>
                 if moved
                 then fd2\<lparr>fd_turn_blocks := map (\<lambda>(t, b). (t, if t = turn_id then b\<lparr>tb_relocated := True\<rparr> else b)) (fd_turn_blocks fd2)\<rparr>
                 else fd2)"

definition answer_top_index :: "scrollback \<Rightarrow> string \<Rightarrow> nat option" where
  "answer_top_index fd message_id =
     Option.bind (fd_answer_groups fd message_id) (\<lambda>g. index_of_id (fd_state fd) (ag_top g))"

end
