(* ===== verification/Room_Feed.thy ===== *)
theory Room_Feed
  imports Room_Scrollback
begin

section \<open>What the room draws for an event\<close>

text \<open>
  The operations of \<open>RoomScrollback\<close>: the rows of a transcript entry, of a streaming lane, of its
  commit and its end, of hops, notices and failures; \<open>apply_feed_event\<close> is \<open>apply_event\<close>, the visual
  half of an event the reducer has accepted. An \<open>expect\<close> of the source is a \<open>Panic\<close> of the result.
\<close>

type_synonym 'a drawn = "(protocol_error, 'a) result"

definition edit_state :: "(scroll_state \<Rightarrow> scroll_state) \<Rightarrow> scrollback \<Rightarrow> scrollback" where
  "edit_state f fd = fd\<lparr>fd_state := f (fd_state fd)\<rparr>"

text \<open>An operation of the scrollback whose answer is not used, or only checked in a debug build.\<close>

definition draw :: "(scroll_state \<Rightarrow> 'a \<times> scroll_state) \<Rightarrow> scrollback \<Rightarrow> scrollback" where
  "draw f fd = snd (on_state f fd)"

definition required_payload_string :: "room_event \<Rightarrow> string \<Rightarrow> string drawn" where
  "required_payload_string event key =
     expect (case ev_payload event of JObject p \<Rightarrow> get_str p key | _ \<Rightarrow> None)
       ''RoomReducer accepted a room event with this required payload field''"

subsection \<open>Rows that belong to no lane\<close>

definition push_runtime_failure :: "feed_env \<Rightarrow> string \<Rightarrow> scrollback \<Rightarrow> scrollback" where
  "push_runtime_failure env message =
     draw (push_block (StubBlock (''room failed'' @ dash @
       (case compact_failure_detail env message of None \<Rightarrow> ''unknown error'' | Some detail \<Rightarrow> detail)) ShadeDead))"

definition push_host_exit :: "string \<Rightarrow> scrollback \<Rightarrow> scrollback" where
  "push_host_exit sentence = draw (push_block (StubBlock (''room failed'' @ dash @ sentence) ShadeDead))"

definition push_local_notice_row :: "string \<Rightarrow> scrollback \<Rightarrow> scrollback" where
  "push_local_notice_row message = draw (push_block (StubBlock message ShadeDim))"

definition push_backend_failure :: "feed_env \<Rightarrow> backend_failure \<Rightarrow> scrollback \<Rightarrow> scrollback" where
  "push_backend_failure env failure =
     (let message = Option.bind (bf_message failure) (compact_failure_detail env);
          error = Option.bind (bf_error failure) (compact_failure_detail env)
      in draw (push_block (StubBlock (''backend failed''
           @ (case message of None \<Rightarrow> [] | Some m \<Rightarrow> dash @ m)
           @ (case error of None \<Rightarrow> [] | Some e \<Rightarrow> (if message \<noteq> None then '': '' else dash) @ e)) ShadeDead)))"

definition push_room_notice :: "room_notice \<Rightarrow> scrollback \<Rightarrow> scrollback" where
  "push_room_notice notice = draw (push_block (StubBlock (notice_phrase (rn_cause notice)) ShadeDim))"

definition quoted :: "string \<Rightarrow> string" where
  "quoted quote = ''  '' @ [CHR 0xE2, CHR 0x80, CHR 0x9C] @ quote @ [CHR 0xE2, CHR 0x80, CHR 0x9D]"

definition push_hop_row :: "feed_env \<Rightarrow> hop_state \<Rightarrow> scrollback \<Rightarrow> scrollback" where
  "push_hop_row env h fd =
     (if hp_hop_id h \<in> fd_hop_entries fd then fd
      else
        let source = speaker_of_agent (hp_from_agent h); target = speaker_of_agent (hp_to_agent h);
            outcome = (if hp_disposition h = Blocked then middle_dot @ ''blocked'' else []);
            plain_header = fe_hop_marker env @ '' '' @ fe_glyph env source @ '' '' @ speaker_label source @ '' ''
              @ fe_hop_arrow env @ '' '' @ fe_glyph env target @ '' '' @ speaker_label target @ middle_dot @ ''hop ''
              @ show_nat (unat (hp_hop_index h)) @ ''/'' @ show_nat (unat (hp_hop_budget h)) @ outcome;
            plain = (case hp_text h of
                None \<Rightarrow> plain_header
              | Some quote \<Rightarrow> plain_header @ [CHR 0x0A] @ quoted (compact_handoff_text quote))
        in draw (push_block (StubBlock plain (speaker_color source)))
             (fd\<lparr>fd_hop_entries := insert (hp_hop_id h) (fd_hop_entries fd)\<rparr>))"

subsection \<open>A lane that streams\<close>

definition start_stream :: "feed_env \<Rightarrow> string \<Rightarrow> lane_state \<Rightarrow> scrollback \<Rightarrow> scrollback" where
  "start_stream env stream_id l fd =
     (if fd_stream_entries fd stream_id \<noteq> None then fd
      else
        let speaker = speaker_of_agent (ln_agent l); order = order_of l in
        case allocate_cohesion_group fd of (cohesion, fd1) \<Rightarrow>
        case place_lane_block order (speaker_header_block env speaker None) (Some cohesion) fd1 of (header_id, fd2) \<Rightarrow>
        case place_lane_block order (MessageBlock [] (speaker_color speaker)) (Some cohesion) fd2 of (entry_id, fd3) \<Rightarrow>
        case place_lane_block order (live_status_block env speaker ''working'' (Some 0) 0) (Some cohesion)
               (edit_state (set_entry_running entry_id True) fd3) of (status_id, fd4) \<Rightarrow>
        let fd5 = edit_state (set_entry_running status_id True) fd4 in
        fd5\<lparr>fd_stream_entries := (fd_stream_entries fd5)(stream_id \<mapsto>
              \<lparr>bd_header_entry_id = header_id, bd_entry_id = entry_id, bd_status_entry_id = status_id,
               bd_cohesion_group = cohesion, bd_text = [], bd_completed = False, bd_status_cleared = False,
               bd_speaker = speaker, bd_activity_label = None, bd_steps_entry_id = None, bd_steps_folded = False,
               bd_turn_id = ln_turn_id l, bd_roster_index = snd order\<rparr>),
            fd_lane_streams := (fd_lane_streams fd5)(ln_id l \<mapsto> stream_id),
            fd_lane_speakers := (fd_lane_speakers fd5)(ln_id l \<mapsto> speaker)\<rparr>)"

definition push_stream_chunk :: "string \<Rightarrow> string \<Rightarrow> scrollback \<Rightarrow> bool \<times> scrollback" where
  "push_stream_chunk stream_id text fd =
     (case fd_stream_entries fd stream_id of
        None \<Rightarrow> (False, fd)
      | Some b \<Rightarrow>
          if bd_completed b then (False, fd)
          else
            case on_state (push_chunk_to_agent (bd_entry_id b) text) fd of
              (pushed, fd1) \<Rightarrow>
                if pushed then (True, write_binding stream_id (\<lambda>b. b\<lparr>bd_text := bd_text b @ text\<rparr>) fd1)
                else (False, fd1))"

text \<open>Retiring a lane's live status row, exactly once.\<close>

definition clear_live_status :: "string \<Rightarrow> scrollback \<Rightarrow> scrollback" where
  "clear_live_status stream_id fd =
     (case fd_stream_entries fd stream_id of
        None \<Rightarrow> fd
      | Some b \<Rightarrow>
          if bd_status_cleared b then fd
          else
            forget_lane_row (bd_turn_id b) (bd_roster_index b) (bd_status_entry_id b)
              (draw (remove_entry (bd_status_entry_id b))
                (write_binding stream_id (\<lambda>b. b\<lparr>bd_status_cleared := True\<rparr>) fd)))"

definition write_live_status :: "string \<Rightarrow> feed_block \<Rightarrow> scrollback \<Rightarrow> scrollback" where
  "write_live_status stream_id block fd =
     (case fd_stream_entries fd stream_id of
        None \<Rightarrow> fd
      | Some b \<Rightarrow>
          if \<not> bd_status_cleared b then draw (replace_room_status (bd_status_entry_id b) block) fd
          else
            case on_state (push_block_with_cohesion block (bd_cohesion_group b)) fd of
              (entry, fd1) \<Rightarrow>
                write_binding stream_id (\<lambda>b. b\<lparr>bd_status_entry_id := entry, bd_status_cleared := False\<rparr>)
                  (remember_lane_row (bd_turn_id b) (bd_roster_index b) entry
                    (edit_state (set_entry_running entry True) fd1)))"

text \<open>The lane's folded tool steps.\<close>

definition finalized_steps_block :: "feed_env \<Rightarrow> lane_state \<Rightarrow> room_speaker \<Rightarrow> string option \<Rightarrow> steps_block option" where
  "finalized_steps_block env l speaker end_at =
     (let block = finalized_steps env (ln_activity l) (speaker_color speaker) (ln_started_at l) end_at in
      if steps_empty block then None else Some block)"

definition write_steps_block :: "string \<Rightarrow> steps_block \<Rightarrow> scrollback \<Rightarrow> scrollback" where
  "write_steps_block stream_id block fd =
     (case fd_stream_entries fd stream_id of
        None \<Rightarrow> fd
      | Some b \<Rightarrow>
          case bd_steps_entry_id b of
            Some i \<Rightarrow>
              if map_option row_block (get_by_id (fd_state fd) i) = Some (StepsBlock block) then fd
              else draw (replace_room_steps i block) fd
          | None \<Rightarrow>
              (case on_state (insert_block_before_with_cohesion (bd_entry_id b) (StepsBlock block) (bd_cohesion_group b)) fd of
                 (i, fd1) \<Rightarrow>
                   write_binding stream_id (\<lambda>b. b\<lparr>bd_steps_entry_id := Some i\<rparr>)
                     (remember_lane_row (bd_turn_id b) (bd_roster_index b) i fd1)))"

definition sync_lane_steps :: "lane_state \<Rightarrow> room_speaker \<Rightarrow> scrollback \<Rightarrow> scrollback" where
  "sync_lane_steps l speaker fd =
     (case fd_lane_streams fd (ln_id l) of
        None \<Rightarrow> fd
      | Some stream_id \<Rightarrow>
          if (case fd_stream_entries fd stream_id of None \<Rightarrow> True | Some b \<Rightarrow> bd_steps_folded b) then fd
          else
            let block = live_steps (ln_activity l) (speaker_color speaker) in
            if steps_empty block then fd else write_steps_block stream_id block fd)"

definition fold_lane_steps :: "feed_env \<Rightarrow> lane_state \<Rightarrow> string option \<Rightarrow> scrollback \<Rightarrow> scrollback" where
  "fold_lane_steps env l end_at fd =
     (case fd_lane_streams fd (ln_id l) of
        None \<Rightarrow> fd
      | Some stream_id \<Rightarrow>
          case fd_stream_entries fd stream_id of
            None \<Rightarrow> fd
          | Some b \<Rightarrow>
              if bd_steps_folded b then fd
              else
                let fd1 = write_binding stream_id (\<lambda>b. b\<lparr>bd_steps_folded := True\<rparr>) fd in
                case finalized_steps_block env l (bd_speaker b) end_at of
                  None \<Rightarrow> fd1
                | Some block \<Rightarrow> write_steps_block stream_id block fd1)"

text \<open>\<open>max_by\<close> keeps the later of two equal elements.\<close>

fun latest_activity :: "lane_activity list \<Rightarrow> lane_activity option drawn" where
  "latest_activity [] = Ok None"
| "latest_activity [activity] = Ok (Some activity)"
| "latest_activity (left # right # rest) =
     (case decimal_cmp (la_last_event_seq left) (la_last_event_seq right) of
        Ok order \<Rightarrow> latest_activity ((if order = Greater then left else right) # rest)
      | _ \<Rightarrow> Panic ''RoomReducer retains validated decimal activity sequences'')"

definition sync_lane_activity :: "feed_env \<Rightarrow> string \<Rightarrow> reducer \<Rightarrow> u64 \<Rightarrow> scrollback \<Rightarrow> scrollback drawn" where
  "sync_lane_activity env lane_id r tick fd =
     (case fd_lane_streams fd lane_id of
        None \<Rightarrow> Ok fd
      | Some stream_id \<Rightarrow>
          tryR (latest_activity (ordered_activity_for_lane r lane_id)) (\<lambda>newest.
          let latest = Option.bind newest activity_label;
              cancelling = (map_option ln_phase (lane r lane_id) = Some Cancelling)
          in case fd_stream_entries fd stream_id of
            None \<Rightarrow> Ok fd
          | Some b \<Rightarrow>
              let fd1 = write_binding stream_id (\<lambda>b. b\<lparr>bd_activity_label := latest\<rparr>) fd;
                  delivered = (bd_completed b \<or> bd_text b \<noteq> []);
                  fd2 =
                    (if delivered \<and> \<not> cancelling then clear_live_status stream_id fd1
                     else
                       let label = (if cancelling then ''cancelling''
                             else case latest of None \<Rightarrow> ''working'' | Some text \<Rightarrow> text);
                           elapsed = Option.bind (Option.bind (lane r lane_id) ln_started_at) (fe_elapsed env);
                           motion_tick = (if fd_reduced_motion fd then 0 else tick)
                       in write_live_status stream_id (live_status_block env (bd_speaker b) label elapsed motion_tick) fd1)
              in Ok (case lane r lane_id of None \<Rightarrow> fd2 | Some l \<Rightarrow> sync_lane_steps l (bd_speaker b) fd2)))"

text \<open>The map of lanes is walked in an order of its own: \<open>lane_ids\<close>.\<close>

fun refresh_live_status :: "feed_env \<Rightarrow> string list \<Rightarrow> reducer \<Rightarrow> u64 \<Rightarrow> scrollback \<Rightarrow> scrollback drawn" where
  "refresh_live_status env [] r tick fd = Ok fd"
| "refresh_live_status env (lane_id # lane_ids) r tick fd =
     tryR (if (case lane r lane_id of None \<Rightarrow> False | Some l \<Rightarrow> ln_phase l \<in> {Running, Cancelling})
           then sync_lane_activity env lane_id r tick fd else Ok fd)
       (\<lambda>fd1. refresh_live_status env lane_ids r tick fd1)"

subsection \<open>A committed message\<close>

definition push_agent_message ::
  "feed_env \<Rightarrow> string \<Rightarrow> room_speaker \<Rightarrow> string option \<Rightarrow> u64 \<Rightarrow> scrollback \<Rightarrow> (nat \<times> nat) \<times> scrollback" where
  "push_agent_message env text speaker occurred_at cohesion fd =
     (case on_state (push_block_with_cohesion (speaker_header_block env speaker occurred_at) cohesion) fd of
        (header_id, fd1) \<Rightarrow>
          case on_state (push_block_with_cohesion (MessageBlock text (speaker_color speaker)) cohesion) fd1 of
            (message_id, fd2) \<Rightarrow> ((header_id, message_id), fd2))"

definition remember_content :: "string \<Rightarrow> nat \<Rightarrow> room_speaker \<Rightarrow> scrollback \<Rightarrow> scrollback" where
  "remember_content content_id i speaker fd =
     fd\<lparr>fd_content_entries := (fd_content_entries fd)(content_id \<mapsto> i),
        fd_content_speakers := (fd_content_speakers fd)(content_id \<mapsto> speaker)\<rparr>"

text \<open>The commit of a lane that has no live block.\<close>

definition commit_unbound ::
  "feed_env \<Rightarrow> string \<Rightarrow> string \<Rightarrow> string \<Rightarrow> reducer \<Rightarrow> string option \<Rightarrow> scrollback \<Rightarrow> scrollback" where
  "commit_unbound env lane_id content_id text r occurred_at fd =
     (let author = Option.bind (List.find (\<lambda>entry. tr_message_id entry = content_id) (transcript r))
            (\<lambda>entry. case tr_author entry of AuthorAgent agent \<Rightarrow> Some (speaker_of_agent agent) | AuthorOperator \<Rightarrow> None);
          speaker = (case author of Some s \<Rightarrow> s
            | None \<Rightarrow> (case fd_lane_speakers fd lane_id of Some s \<Rightarrow> s | None \<Rightarrow> SpeakerOperator))
      in case allocate_cohesion_group fd of (cohesion, fd1) \<Rightarrow>
         case push_agent_message env text speaker occurred_at cohesion fd1 of ((header_id, i), fd2) \<Rightarrow>
         let fd3 = remember_answer_group content_id cohesion [header_id, i] header_id
               (remember_content content_id i speaker fd2)
         in case lane r lane_id of
              None \<Rightarrow> fd3
            | Some l \<Rightarrow> remember_lane_row (ln_turn_id l) (snd (order_of l)) i
                (remember_lane_row (ln_turn_id l) (snd (order_of l)) header_id fd3))"

text \<open>What becomes of the live block: its text, its header, its status row, its turn's place.\<close>

definition commit_text :: "string \<Rightarrow> string \<Rightarrow> scrollback \<Rightarrow> scrollback" where
  "commit_text stream_id text fd =
     (case fd_stream_entries fd stream_id of
        None \<Rightarrow> fd
      | Some b \<Rightarrow>
          if take (length (bd_text b)) text = bd_text b
          then snd (push_stream_chunk stream_id (drop (length (bd_text b)) text) fd)
          else if bd_text b \<noteq> text
          then draw (replace_agent_message (bd_entry_id b) (MessageBlock text (speaker_color (bd_speaker b)))) fd
          else fd)"

definition commit_bound ::
  "feed_env \<Rightarrow> string \<Rightarrow> string \<Rightarrow> string \<Rightarrow> string option \<Rightarrow> scrollback \<Rightarrow> scrollback" where
  "commit_bound env stream_id content_id text occurred_at fd =
     (case fd_stream_entries fd stream_id of
        None \<Rightarrow> fd
      | Some b \<Rightarrow>
          let fd1 = remember_content content_id (bd_entry_id b) (bd_speaker b)
                (edit_state (finish_running (bd_entry_id b))
                  (write_binding stream_id (\<lambda>b. b\<lparr>bd_text := text, bd_completed := True\<rparr>) fd));
              fd2 = (case occurred_at of
                  None \<Rightarrow> fd1
                | Some stamp \<Rightarrow> draw (replace_room_status (bd_header_entry_id b)
                    (speaker_header_block env (bd_speaker b) (Some stamp))) fd1);
              fd3 = clear_live_status stream_id fd2
          in case fd_stream_entries fd3 stream_id of
               None \<Rightarrow> fd3
             | Some b \<Rightarrow> remember_answer_group content_id (bd_cohesion_group b)
                 (List.map_filter id [Some (bd_header_entry_id b), bd_steps_entry_id b, Some (bd_entry_id b)])
                 (bd_header_entry_id b) fd3)"

definition commit_row ::
  "feed_env \<Rightarrow> string \<Rightarrow> string \<Rightarrow> string \<Rightarrow> reducer \<Rightarrow> string option \<Rightarrow> string \<Rightarrow> scrollback \<Rightarrow> scrollback" where
  "commit_row env lane_id content_id text r occurred_at commit_seq fd =
     (let fd1 = (case lane r lane_id of None \<Rightarrow> fd | Some l \<Rightarrow> fold_lane_steps env l occurred_at fd) in
      case fd_lane_streams fd1 lane_id of
        None \<Rightarrow> commit_unbound env lane_id content_id text r occurred_at fd1
      | Some stream_id \<Rightarrow>
          let fd2 = commit_text stream_id text fd1 in
          if fd_stream_entries fd2 stream_id = None
          then commit_unbound env lane_id content_id text r occurred_at fd2
          else
            let fd3 = commit_bound env stream_id content_id text occurred_at fd2 in
            case lane r lane_id of
              None \<Rightarrow> fd3
            | Some l \<Rightarrow> relocate_if_displaced env r (ln_turn_id l) content_id commit_seq fd3)"

subsection \<open>The end of a lane\<close>

definition mark_stream_cancelled :: "feed_env \<Rightarrow> string \<Rightarrow> scrollback \<Rightarrow> scrollback" where
  "mark_stream_cancelled env stream_id fd =
     (case fd_stream_entries fd stream_id of
        None \<Rightarrow> fd
      | Some b \<Rightarrow>
          draw (replace_agent_message (bd_entry_id b) (MessageBlock (bd_text b) ShadeFaint))
            (draw (replace_room_status (bd_header_entry_id b) (cancelled_header_block env (bd_speaker b))) fd))"

definition settle_streamed_lane :: "feed_env \<Rightarrow> lane_state \<Rightarrow> string \<Rightarrow> scrollback \<Rightarrow> scrollback" where
  "settle_streamed_lane env l stream_id fd =
     (let fd1 = fold_lane_steps env l (ln_terminal_at l) fd;
          fd2 = (case fd_stream_entries fd1 stream_id of
              None \<Rightarrow> fd1
            | Some b \<Rightarrow>
                if bd_completed b then fd1
                else edit_state (finish_running (bd_entry_id b)) (write_binding stream_id (\<lambda>b. b\<lparr>bd_completed := True\<rparr>) fd1));
          fd3 = clear_live_status stream_id fd2
      in if ln_phase l = Cancelled then mark_stream_cancelled env stream_id fd3 else fd3)"

definition push_lane_outcome :: "feed_env \<Rightarrow> lane_state \<Rightarrow> string \<Rightarrow> string option \<Rightarrow> scrollback \<Rightarrow> scrollback" where
  "push_lane_outcome env l outcome detail fd =
     (let speaker = speaker_of_agent (ln_agent l);
          text = fe_glyph env speaker @ '' '' @ speaker_label speaker @ dash @ outcome
            @ (case Option.bind detail (compact_failure_detail env) of None \<Rightarrow> [] | Some d \<Rightarrow> '': '' @ d)
      in snd (place_lane_block (order_of l)
           (StubBlock text (if outcome = ''failed'' then ShadeDead else ShadeFaint)) None fd))"

definition finish_lane :: "feed_env \<Rightarrow> lane_state \<Rightarrow> scrollback \<Rightarrow> scrollback" where
  "finish_lane env l fd =
     (if ln_id l \<in> fd_terminal_lanes fd then fd
      else
        let fd1 = fd\<lparr>fd_terminal_lanes := insert (ln_id l) (fd_terminal_lanes fd)\<rparr>;
            fd2 = (case fd_lane_streams fd1 (ln_id l) of
                Some stream_id \<Rightarrow> settle_streamed_lane env l stream_id fd1
              | None \<Rightarrow>
                  if ln_phase l = Cancelled
                  then snd (place_lane_block (order_of l) (cancelled_header_block env (speaker_of_agent (ln_agent l))) None fd1)
                  else fd1)
        in if ln_phase l = Failed then push_lane_outcome env l ''failed'' (ln_failure_reason l) fd2 else fd2)"

subsection \<open>A transcript entry\<close>

text \<open>The rows of a lane's answer go to the lane's place; any other entry is appended.\<close>

definition entry_message :: "transcript_entry \<Rightarrow> room_speaker \<Rightarrow> feed_block" where
  "entry_message entry speaker = MessageBlock (tr_text entry) (speaker_color speaker)"

definition place_entry ::
  "feed_env \<Rightarrow> lane_state \<Rightarrow> transcript_entry \<Rightarrow> room_speaker \<Rightarrow> u64 \<Rightarrow> scrollback \<Rightarrow> nat list \<times> nat \<times> scrollback" where
  "place_entry env l entry speaker cohesion fd =
     (let order = order_of l; occurred_at = Some (tr_occurred_at entry) in
      case place_lane_block order (speaker_header_block env speaker occurred_at) (Some cohesion) fd of (header_id, fd1) \<Rightarrow>
      case (case finalized_steps_block env l speaker occurred_at of
              None \<Rightarrow> ([], fd1)
            | Some block \<Rightarrow>
                (case place_lane_block order (StepsBlock block) (Some cohesion) fd1 of (i, fd2) \<Rightarrow> ([i], fd2)))
      of (step_ids, fd2) \<Rightarrow>
      case place_lane_block order (entry_message entry speaker) (Some cohesion) fd2 of (i, fd3) \<Rightarrow>
        (header_id # step_ids @ [i], i, fd3))"

definition append_entry ::
  "feed_env \<Rightarrow> transcript_entry \<Rightarrow> room_speaker \<Rightarrow> u64 \<Rightarrow> scrollback \<Rightarrow> nat list \<times> nat \<times> scrollback" where
  "append_entry env entry speaker cohesion fd =
     (case on_state (push_block_with_cohesion (speaker_header_block env speaker (Some (tr_occurred_at entry))) cohesion) fd of
        (header_id, fd1) \<Rightarrow>
          case on_state (push_block_with_cohesion (entry_message entry speaker) cohesion) fd1 of
            (i, fd2) \<Rightarrow> ([header_id, i], i, fd2))"

definition push_transcript_entry :: "feed_env \<Rightarrow> transcript_entry \<Rightarrow> reducer \<Rightarrow> scrollback \<Rightarrow> scrollback drawn" where
  "push_transcript_entry env entry r fd =
     tryR (lane_for_message r (tr_message_id entry)) (\<lambda>found.
     let speaker = (case tr_author entry of AuthorOperator \<Rightarrow> SpeakerOperator | AuthorAgent agent \<Rightarrow> speaker_of_agent agent)
     in case allocate_cohesion_group fd of (cohesion, fd1) \<Rightarrow>
        case (case found of
                Some l \<Rightarrow> place_entry env l entry speaker cohesion fd1
              | None \<Rightarrow> append_entry env entry speaker cohesion fd1)
        of (ids, i, fd2) \<Rightarrow>
        let fd3 = remember_content (tr_message_id entry) i speaker fd2
        in Ok (case tr_author entry of
                 AuthorAgent _ \<Rightarrow> remember_answer_group (tr_message_id entry) cohesion ids (hd ids) fd3
               | AuthorOperator \<Rightarrow> fd3))"

subsection \<open>Applying an event\<close>

definition drawn_kinds :: "string list" where
  "drawn_kinds =
     [''turn.accepted'', ''lane.started'', ''lane.chunk'', ''lane.activity'', ''lane.cancelling'', ''message.committed'',
      ''lane.completed'', ''lane.failed'', ''lane.cancelled'', ''hop.dispatched'', ''hop.blocked'', ''backend.failed'',
      ''room.notice'']"

definition sync_event_lane :: "feed_env \<Rightarrow> room_event \<Rightarrow> reducer \<Rightarrow> scrollback \<Rightarrow> scrollback drawn" where
  "sync_event_lane env event r fd =
     tryR (required_payload_string event ''laneId'') (\<lambda>lane_id. sync_lane_activity env lane_id r 0 fd)"

definition draw_chunk :: "feed_env \<Rightarrow> room_event \<Rightarrow> reducer \<Rightarrow> scrollback \<Rightarrow> scrollback drawn" where
  "draw_chunk env event r fd =
     tryR (required_payload_string event ''streamId'') (\<lambda>stream_id.
     tryR (required_payload_string event ''text'') (\<lambda>text.
     case push_stream_chunk stream_id text fd of (pushed, fd1) \<Rightarrow>
       if pushed \<and> (case fd_stream_entries fd1 stream_id of None \<Rightarrow> False | Some b \<Rightarrow> \<not> bd_status_cleared b)
       then sync_event_lane env event r fd1
       else Ok fd1))"

definition draw_start :: "feed_env \<Rightarrow> room_event \<Rightarrow> reducer \<Rightarrow> scrollback \<Rightarrow> scrollback drawn" where
  "draw_start env event r fd =
     tryR (required_payload_string event ''streamId'') (\<lambda>stream_id.
     tryR (required_payload_string event ''laneId'') (\<lambda>lane_id.
     tryR (expect (lane r lane_id) ''RoomReducer accepted lane.started for a known lane'') (\<lambda>l.
     Ok (start_stream env stream_id l fd))))"

definition draw_commit :: "feed_env \<Rightarrow> room_event \<Rightarrow> reducer \<Rightarrow> scrollback \<Rightarrow> scrollback drawn" where
  "draw_commit env event r fd =
     tryR (required_payload_string event ''laneId'') (\<lambda>lane_id.
     tryR (required_payload_string event ''messageId'') (\<lambda>message_id.
     tryR (required_payload_string event ''text'') (\<lambda>text.
     Ok (commit_row env lane_id message_id text r (Some (ev_occurred_at event)) (ev_event_seq event) fd))))"

definition draw_end :: "feed_env \<Rightarrow> room_event \<Rightarrow> reducer \<Rightarrow> scrollback \<Rightarrow> scrollback drawn" where
  "draw_end env event r fd =
     tryR (required_payload_string event ''laneId'') (\<lambda>lane_id.
     tryR (expect (lane r lane_id) ''RoomReducer accepted a terminal event for a known lane'') (\<lambda>l.
     Ok (forget_settled_turn (ln_turn_id l) r (finish_lane env l fd))))"

definition draw_hop :: "feed_env \<Rightarrow> room_event \<Rightarrow> reducer \<Rightarrow> scrollback \<Rightarrow> scrollback drawn" where
  "draw_hop env event r fd =
     tryR (required_payload_string event ''hopId'') (\<lambda>hop_id.
     Ok (case hop r hop_id of None \<Rightarrow> fd | Some h \<Rightarrow> push_hop_row env h fd))"

definition apply_feed_event :: "feed_env \<Rightarrow> room_event \<Rightarrow> reducer \<Rightarrow> apply_delta \<Rightarrow> scrollback \<Rightarrow> scrollback drawn" where
  "apply_feed_event env event r delta fd =
     (let kind = ev_kind event in
      if delta = Delta_None \<and> kind \<notin> set drawn_kinds then Ok fd
      else if kind = ''turn.accepted''
      then (if transcript r = [] then Ok fd else push_transcript_entry env (last (transcript r)) r fd)
      else if kind = ''lane.started'' then draw_start env event r fd
      else if kind = ''lane.chunk'' then draw_chunk env event r fd
      else if kind = ''lane.activity'' then sync_event_lane env event r fd
      else if kind = ''lane.cancelling'' then sync_event_lane env event r fd
      else if kind = ''message.committed'' then draw_commit env event r fd
      else if kind \<in> {''lane.completed'', ''lane.failed'', ''lane.cancelled''} then draw_end env event r fd
      else if kind \<in> {''hop.dispatched'', ''hop.blocked''} then draw_hop env event r fd
      else if kind = ''backend.failed''
      then Ok (if backend_failures r = [] then fd else push_backend_failure env (last (backend_failures r)) fd)
      else if kind = ''room.notice''
      then Ok (if room_notices r = [] then fd else push_room_notice (last (room_notices r)) fd)
      else Ok fd)"

text \<open>
  \<open>apply_room_event_at\<close>, as far as the reducer and the feed go: an event the reducer already has is
  not drawn a second time.
\<close>

definition apply_and_draw ::
  "(string \<Rightarrow> bool) \<Rightarrow> feed_env \<Rightarrow> room_event \<Rightarrow> reducer \<times> scrollback \<Rightarrow> (reducer \<times> scrollback) drawn" where
  "apply_and_draw rfc3339 env event room =
     (case room of (r, fd) \<Rightarrow>
      let duplicate = has_event_id r (ev_event_id event) in
      case apply_event rfc3339 event r of
        (Ok delta, r') \<Rightarrow>
          if duplicate then Ok (r', fd)
          else tryR (apply_feed_event env event r' delta fd) (\<lambda>fd'. Ok (r', fd'))
      | (Err e, r') \<Rightarrow> Err e
      | (Panic m, r') \<Rightarrow> Panic m)"

end
