(* ===== verification/Feed_Replay.thy ===== *)
theory Feed_Replay
  imports Room_Feed
begin

section \<open>Rebuilding the feed from a room\<close>

text \<open>
  \<open>from_reducer_with_motion\<close>: the durable rows of a reducer in the order the live room first drew
  them, and the relocations between them. The standard library's stable sort is an insertion sort; it
  compares every element when there are two or more, so an \<open>expect\<close> of the comparison panics when one
  of them has no decimal sequence number.
\<close>

datatype durable_row =
    RowTranscript transcript_entry
  | RowTerminalLane lane_state
  | RowBackendFailure backend_failure
  | RowNotice room_notice
  | RowHop hop_state
  | RowReplayedStream room_stream

datatype replay_step = ReplayRow durable_row | RelocateTurn transcript_entry

definition first_draw_message :: string where
  "first_draw_message = ''a durable lane row either started or reached a terminal event''"

definition lane_first_draw_seq :: "reducer \<Rightarrow> lane_state \<Rightarrow> string drawn" where
  "lane_first_draw_seq r l =
     expect (case Option.bind (ln_stream_id l) (stream r) of
         Some s \<Rightarrow> Some (st_started_event_seq s)
       | None \<Rightarrow> ln_terminal_event_seq l) first_draw_message"

fun replay_seq :: "reducer \<Rightarrow> durable_row \<Rightarrow> string drawn" where
  "replay_seq r (RowTranscript entry) =
     tryR (lane_for_message r (tr_message_id entry)) (\<lambda>found.
       case found of None \<Rightarrow> Ok (tr_event_seq entry) | Some l \<Rightarrow> lane_first_draw_seq r l)"
| "replay_seq r (RowTerminalLane l) = lane_first_draw_seq r l"
| "replay_seq r (RowBackendFailure failure) = Ok (bf_event_seq failure)"
| "replay_seq r (RowNotice notice) = Ok (rn_event_seq notice)"
| "replay_seq r (RowHop h) = Ok (hp_event_seq h)"
| "replay_seq r (RowReplayedStream s) = Ok (st_started_event_seq s)"

fun replay_rank :: "durable_row \<Rightarrow> nat" where
  "replay_rank (RowTerminalLane l) = 1"
| "replay_rank _ = 0"

type_synonym keyed_step = "(string \<times> nat) \<times> replay_step"

definition keyed_replay_row :: "reducer \<Rightarrow> durable_row \<Rightarrow> keyed_step drawn" where
  "keyed_replay_row r row = tryR (replay_seq r row) (\<lambda>sq. Ok ((sq, replay_rank row), ReplayRow row))"

definition transcript_steps :: "reducer \<Rightarrow> transcript_entry \<Rightarrow> keyed_step list drawn" where
  "transcript_steps r entry =
     tryR (keyed_replay_row r (RowTranscript entry)) (\<lambda>row.
     case tr_author entry of
       AuthorOperator \<Rightarrow> Ok [row]
     | AuthorAgent agent \<Rightarrow>
         tryR (lane_for_message r (tr_message_id entry)) (\<lambda>found.
         Ok (if found \<noteq> None then [row, ((tr_event_seq entry, 2), RelocateTurn entry)] else [row])))"

definition replay_stream_for_lane :: "lane_state \<Rightarrow> bool" where
  "replay_stream_for_lane l \<longleftrightarrow> ln_phase l \<in> {Running, Cancelling, Cancelled, Failed}"

definition lane_rows :: "reducer \<Rightarrow> durable_row list" where
  "lane_rows r =
     map RowTerminalLane (filter (\<lambda>l. ln_phase l \<in> {Failed, Cancelled} \<and> ln_terminal_event_seq l \<noteq> None)
       (fst (ordered_lanes r 0)))
     @ map RowBackendFailure (backend_failures r)
     @ map RowNotice (room_notices r)
     @ map RowHop (hops r)
     @ map RowReplayedStream (filter (\<lambda>s. case lane r (st_lane_id s) of None \<Rightarrow> False | Some l \<Rightarrow> replay_stream_for_lane l)
         (ordered_streams r))"

definition replay_steps :: "reducer \<Rightarrow> keyed_step list drawn" where
  "replay_steps r =
     tryR (collect_results (transcript_steps r) (transcript r)) (\<lambda>entries.
     tryR (collect_results (keyed_replay_row r) (lane_rows r)) (\<lambda>rows.
     Ok (concat entries @ rows)))"

definition step_before :: "keyed_step \<Rightarrow> keyed_step \<Rightarrow> bool" where
  "step_before left right \<longleftrightarrow>
     (case decimal_cmp (fst (fst left)) (fst (fst right)) of
        Ok order \<Rightarrow> then_with order (cmp (snd (fst left)) (snd (fst right))) \<noteq> Greater
      | _ \<Rightarrow> False)"

fun insert_step :: "keyed_step \<Rightarrow> keyed_step list \<Rightarrow> keyed_step list" where
  "insert_step s [] = [s]"
| "insert_step s (t # ts) = (if step_before s t then s # t # ts else t # insert_step s ts)"

definition sort_steps :: "keyed_step list \<Rightarrow> keyed_step list drawn" where
  "sort_steps ss =
     (if length ss \<ge> 2 \<and> list_ex (\<lambda>s. \<not> is_ok (validate_decimal (fst (fst s)))) ss
      then Panic ''RoomReducer only exposes validated decimal event sequences''
      else Ok (foldr insert_step ss []))"

fun replay_row :: "feed_env \<Rightarrow> reducer \<Rightarrow> replay_step \<Rightarrow> scrollback \<Rightarrow> scrollback drawn" where
  "replay_row env r (ReplayRow (RowTranscript entry)) fd = push_transcript_entry env entry r fd"
| "replay_row env r (ReplayRow (RowTerminalLane l)) fd = Ok (finish_lane env l fd)"
| "replay_row env r (ReplayRow (RowBackendFailure failure)) fd = Ok (push_backend_failure env failure fd)"
| "replay_row env r (ReplayRow (RowNotice notice)) fd = Ok (push_room_notice notice fd)"
| "replay_row env r (ReplayRow (RowHop h)) fd = Ok (push_hop_row env h fd)"
| "replay_row env r (ReplayRow (RowReplayedStream s)) fd =
     tryR (expect (lane r (st_lane_id s)) ''a replayed stream's lane was filtered from the reducer'') (\<lambda>l.
     sync_lane_activity env (st_lane_id s) r 0
       (snd (push_stream_chunk (st_id s) (st_text s) (start_stream env (st_id s) l fd))))"
| "replay_row env r (RelocateTurn entry) fd =
     Ok (relocate_if_displaced env r (tr_turn_id entry) (tr_message_id entry) (tr_event_seq entry) fd)"

fun replay_rows :: "feed_env \<Rightarrow> reducer \<Rightarrow> replay_step list \<Rightarrow> scrollback \<Rightarrow> scrollback drawn" where
  "replay_rows env r [] fd = Ok fd"
| "replay_rows env r (s # ss) fd = tryR (replay_row env r s fd) (\<lambda>fd'. replay_rows env r ss fd')"

definition from_reducer_with_motion :: "feed_env \<Rightarrow> reducer \<Rightarrow> bool \<Rightarrow> scrollback drawn" where
  "from_reducer_with_motion env r reduced_motion =
     tryR (replay_steps r) (\<lambda>steps.
     tryR (sort_steps steps) (\<lambda>sorted.
     replay_rows env r (map snd sorted) (new_scrollback\<lparr>fd_reduced_motion := reduced_motion\<rparr>)))"

end
