(* ===== verification/Feed_Safety.thy ===== *)
theory Feed_Safety
  imports Feed_Replay
begin

section \<open>The feed never stops the room, but for one shape\<close>

text \<open>
  Every \<open>expect\<close> of the feed, followed to what the reducer guarantees. While events arrive none can
  fail; when a feed is rebuilt exactly one can, and \<open>unstarted_commit\<close> says for which rooms.
\<close>

subsection \<open>The sequence numbers a room keeps\<close>

definition lane_stamped :: "lane_state \<Rightarrow> bool" where
  "lane_stamped l \<longleftrightarrow>
     (\<forall>q. ln_terminal_event_seq l = Some q \<longrightarrow> valid_decimal q)
     \<and> list_all (\<lambda>a. valid_decimal (la_last_event_seq a)) (ln_activity l)"

definition stamps_ok :: "reducer \<Rightarrow> bool" where
  "stamps_ok r \<longleftrightarrow>
     (\<forall>sid s. streams r sid = Some s \<longrightarrow> valid_decimal (st_started_event_seq s))
     \<and> (\<forall>k l. lanes r k = Some l \<longrightarrow> lane_stamped l)
     \<and> list_all (\<lambda>h. valid_decimal (hp_event_seq h)) (hops r)
     \<and> list_all (\<lambda>f. valid_decimal (bf_event_seq f)) (backend_failures r)
     \<and> list_all (\<lambda>n. valid_decimal (rn_event_seq n)) (room_notices r)"

lemma stamps_ok_same:
  "stamps_ok r \<Longrightarrow> streams r' = streams r \<Longrightarrow> lanes r' = lanes r \<Longrightarrow> hops r' = hops r \<Longrightarrow>
   backend_failures r' = backend_failures r \<Longrightarrow> room_notices r' = room_notices r \<Longrightarrow> stamps_ok r'"
  by (simp add: stamps_ok_def)

lemma stamps_ok_lane: "stamps_ok r \<Longrightarrow> lane_stamped l \<Longrightarrow> stamps_ok (store_lane k l r)"
  by (simp add: stamps_ok_def store_lane_def)

lemma stamps_ok_stream:
  "stamps_ok r \<Longrightarrow> valid_decimal (st_started_event_seq s) \<Longrightarrow> stamps_ok (store_stream sid s r)"
  by (simp add: stamps_ok_def store_stream_def)

lemma stamps_okD:
  assumes "stamps_ok r"
  shows "streams r sid = Some s \<Longrightarrow> valid_decimal (st_started_event_seq s)"
    "lanes r k = Some l \<Longrightarrow> lane_stamped l"
  using assms by (simp_all add: stamps_ok_def)

lemma stamps_ok_step:
  assumes ok: "stamps_ok r" and step: "room_step e r r'" and e: "valid_decimal (ev_event_seq e)"
  shows "stamps_ok r'"
  using step
proof cases
  case (queued t route l)
  then have "lane_stamped l" by (simp add: fresh_lane_def lane_stamped_def)
  with ok queued(1) show ?thesis by (simp add: push_lane_def stamps_ok_def)
next
  case (started k l s)
  then show ?thesis
    using stamps_okD(2) [OF ok started(2)] ok e by (simp add: writes stamps_ok_def lane_stamped_def)
next
  case (activity k l acts)
  have "list_all (\<lambda>a. valid_decimal (la_last_event_seq a)) acts"
    using stamps_okD(2) [OF ok activity(2)] activity(5) e
    by (auto simp: lane_stamped_def list_all_iff image_subset_iff)
  then show ?thesis
    using stamps_okD(2) [OF ok activity(2)] unfolding activity(1)
    by (intro stamps_ok_lane [OF ok]) (simp add: lane_stamped_def)
next
  case (chunk p stream_id body k l s model)
  show ?thesis
    unfolding chunk(1) using stamps_okD(1) [OF ok chunk(10)] by (intro stamps_ok_stream [OF ok]) simp
next
  case (cancelling k l)
  show ?thesis
    unfolding cancelling(1) using stamps_okD(2) [OF ok cancelling(2)]
    by (intro stamps_ok_lane [OF ok]) (simp add: lane_stamped_def)
next
  case (committed k l r1 c entry r2)
  have "stamps_ok r1"
    using committed(6) stamps_okD(1) [OF ok] by (auto simp: ok stamps_ok_stream split: option.splits)
  then have "stamps_ok r2"
    unfolding committed(12) using stamps_okD(2) [OF ok committed(2)]
    by (intro stamps_ok_lane) (simp_all add: lane_stamped_def)
  then show ?thesis by (rule stamps_ok_same) (simp_all add: committed(1) push_transcript_def)
next
  case (ended k l p l1 l2 reason)
  show ?thesis
    unfolding ended(1) using stamps_okD(2) [OF ok ended(2)] e
    by (intro stamps_ok_lane [OF ok]) (simp add: ended(6,7) lane_stamped_def)
next
  case (hopped h k l)
  with ok e show ?thesis by (simp add: stamps_ok_def push_hop_def)
next
  case (backend_failed f)
  with ok e show ?thesis by (simp add: stamps_ok_def)
next
  case (noticed n)
  with ok e show ?thesis by (simp add: stamps_ok_def)
qed (rule stamps_ok_same [OF ok]; simp add: writes)+

lemma reachable_stamps: "reachable rfc3339 r \<Longrightarrow> stamps_ok r"
proof (induction rule: reachable_invariant)
  case new
  show ?case by (simp add: stamps_ok_def new_reducer_def)
next
  case (bind r sid)
  then show ?case by (simp add: stamps_ok_def)
next
  case (step r e r1)
  from stamps_ok_step [OF step(1,2) validate_OkD(1) [OF step(3)]] show ?case
    by (simp add: stamps_ok_def)
qed

subsection \<open>Live events\<close>

lemma latest_activity_calm:
  "list_all (\<lambda>a. valid_decimal (la_last_event_seq a)) activities \<Longrightarrow> \<exists>newest. latest_activity activities = Ok newest"
  by (induction activities rule: latest_activity.induct) (auto simp: decimal_cmp_valid)

lemma sync_lane_activity_calm:
  assumes "stamps_ok r" shows "\<not> is_panic (sync_lane_activity env lane_id r tick fd)"
proof -
  have "\<exists>newest. latest_activity (ordered_activity_for_lane r lane_id) = Ok newest"
    using stamps_okD(2) [OF assms] by (intro latest_activity_calm)
      (auto simp: ordered_activity_for_lane_def lane_stamped_def split: option.splits)
  then show ?thesis
    by (auto simp: sync_lane_activity_def Let_def split: option.splits)
qed

lemma lane_for_message_calm: "room_wf r \<Longrightarrow> \<not> is_panic (lane_for_message r mid)"
  by (simp add: lane_for_message_sound)

lemma push_transcript_entry_calm: "room_wf r \<Longrightarrow> \<not> is_panic (push_transcript_entry env entry r fd)"
  by (auto simp: push_transcript_entry_def lane_for_message_sound Let_def split: prod.splits)

text \<open>What an accepted event of a kind the feed draws is known to carry.\<close>

definition carries :: "room_event \<Rightarrow> string set \<Rightarrow> bool" where
  "carries event names \<longleftrightarrow> (\<forall>field \<in> names. \<exists>value. required_payload_string event field = Ok value)"

lemma required_payload_string_Ok:
  "required_payload_string event key = Ok value \<longleftrightarrow> (\<exists>p. ev_payload event = JObject p \<and> get_str p key = Some value)"
  by (auto simp: required_payload_string_def split: json.splits)

lemma stored_lane: "lane_id \<in> dom (lanes (store_lane lane_id l r))"
  by (simp add: store_lane_def)

lemma lane_handler_known:
  "start_lane e r = (Ok d, r1) \<Longrightarrow> required_payload_string e ''laneId'' = Ok lane_id \<Longrightarrow>
     lane_id \<in> dom (lanes r1) \<and> carries e {''streamId''}"
  "complete_lane e r = (Ok d, r1) \<Longrightarrow> required_payload_string e ''laneId'' = Ok lane_id \<Longrightarrow> lane_id \<in> dom (lanes r1)"
  "fail_lane e r = (Ok d, r1) \<Longrightarrow> required_payload_string e ''laneId'' = Ok lane_id \<Longrightarrow> lane_id \<in> dom (lanes r1)"
  "cancel_lane e r = (Ok d, r1) \<Longrightarrow> required_payload_string e ''laneId'' = Ok lane_id \<Longrightarrow> lane_id \<in> dom (lanes r1)"
  by (auto simp: start_lane_def complete_lane_def fail_lane_def cancel_lane_def match_lane_Ok reader_Ok Let_def
      required_payload_string_Ok carries_def validate_terminal_identity_def push_stream_def store_lane_def
      split: if_splits)

lemma handler_carries:
  "start_lane e r = (Ok d, r1) \<Longrightarrow> carries e {''laneId'', ''streamId''}"
  "append_chunk e r = (Ok d, r1) \<Longrightarrow> carries e {''laneId'', ''streamId'', ''text''}"
  "record_activity e r = (Ok d, r1) \<Longrightarrow> carries e {''laneId''}"
  "begin_cancellation e r = (Ok d, r1) \<Longrightarrow> carries e {''laneId''}"
  "commit_message e r = (Ok d, r1) \<Longrightarrow> carries e {''laneId'', ''messageId'', ''text''}"
  "complete_lane e r = (Ok d, r1) \<Longrightarrow> carries e {''laneId''}"
  "fail_lane e r = (Ok d, r1) \<Longrightarrow> carries e {''laneId''}"
  "cancel_lane e r = (Ok d, r1) \<Longrightarrow> carries e {''laneId''}"
  "record_hop e disposition r = (Ok d, r1) \<Longrightarrow> carries e {''hopId''}"
  by (auto simp: start_lane_def append_chunk_def record_activity_def begin_cancellation_def commit_message_def
      complete_lane_def fail_lane_def cancel_lane_def record_hop_def carries_def required_payload_string_Ok
      reader_Ok validate_terminal_identity_def Let_def elim!: handler_OkE split: if_splits)

lemma carriesD: "carries e names \<Longrightarrow> field \<in> names \<Longrightarrow> \<exists>value. required_payload_string e field = Ok value"
  by (simp add: carries_def)

lemma carries_calm [simp]: "carries e names \<Longrightarrow> field \<in> names \<Longrightarrow> \<not> is_panic (required_payload_string e field)"
  using carriesD by fastforce

lemma sync_event_lane_calm:
  "carries e names \<Longrightarrow> ''laneId'' \<in> names \<Longrightarrow> stamps_ok r \<Longrightarrow> \<not> is_panic (sync_event_lane env e r fd)"
  by (auto simp: sync_event_lane_def sync_lane_activity_calm)

text \<open>The handler of each kind the feed reads a payload of.\<close>

lemma transition_handlers:
  "ev_kind e = ''lane.started'' \<Longrightarrow> apply_transition e r = start_lane e r"
  "ev_kind e = ''lane.chunk'' \<Longrightarrow> apply_transition e r = append_chunk e r"
  "ev_kind e = ''lane.activity'' \<Longrightarrow> apply_transition e r = record_activity e r"
  "ev_kind e = ''lane.cancelling'' \<Longrightarrow> apply_transition e r = begin_cancellation e r"
  "ev_kind e = ''message.committed'' \<Longrightarrow> apply_transition e r = commit_message e r"
  "ev_kind e = ''lane.completed'' \<Longrightarrow> apply_transition e r = complete_lane e r"
  "ev_kind e = ''lane.failed'' \<Longrightarrow> apply_transition e r = fail_lane e r"
  "ev_kind e = ''lane.cancelled'' \<Longrightarrow> apply_transition e r = cancel_lane e r"
  "ev_kind e = ''hop.dispatched'' \<Longrightarrow> apply_transition e r = record_hop e Dispatched r"
  "ev_kind e = ''hop.blocked'' \<Longrightarrow> apply_transition e r = record_hop e Blocked r"
  "ev_kind e = ''turn.accepted'' \<Longrightarrow> apply_transition e r = accept_turn e r"
  by (simp_all add: apply_transition_def)

lemma draw_parts_calm:
  assumes "stamps_ok r"
  shows "carries e {''laneId'', ''streamId'', ''text''} \<Longrightarrow> \<not> is_panic (draw_chunk env e r fd)"
    "carries e {''laneId'', ''messageId'', ''text''} \<Longrightarrow> \<not> is_panic (draw_commit env e r fd)"
    "carries e {''hopId''} \<Longrightarrow> \<not> is_panic (draw_hop env e r fd)"
  using assms
  by (auto simp: draw_chunk_def draw_commit_def draw_hop_def sync_event_lane_calm split: prod.splits)

lemma draw_lane_calm:
  "carries e {''laneId''} \<Longrightarrow> (\<And>k. required_payload_string e ''laneId'' = Ok k \<Longrightarrow> k \<in> dom (lanes r)) \<Longrightarrow>
     \<not> is_panic (draw_end env e r fd)"
  "carries e {''laneId'', ''streamId''} \<Longrightarrow> (\<And>k. required_payload_string e ''laneId'' = Ok k \<Longrightarrow> k \<in> dom (lanes r)) \<Longrightarrow>
     \<not> is_panic (draw_start env e r fd)"
  by (auto simp: draw_end_def draw_start_def lane_def)

lemma apply_feed_event_calm:
  assumes t: "apply_transition e r = (Ok d, r1)" and wf: "room_wf r'" "stamps_ok r'" and lanes: "lanes r' = lanes r1"
  shows "\<not> is_panic (apply_feed_event env e r' delta fd)"
proof -
  note h = t [unfolded transition_handlers]
  note c = handler_carries and k = lane_handler_known
  have start: "ev_kind e = ''lane.started'' \<Longrightarrow> \<not> is_panic (draw_start env e r' fd)"
    using t transition_handlers(1) [of e r] c(1) [of e r d r1] k(1) [of e r d r1] lanes
    by (intro draw_lane_calm(2)) auto
  have chunk: "ev_kind e = ''lane.chunk'' \<Longrightarrow> \<not> is_panic (draw_chunk env e r' fd)"
    using t transition_handlers(2) [of e r] c(2) [of e r d r1] draw_parts_calm(1) [OF wf(2)] by simp
  have sync: "ev_kind e \<in> {''lane.activity'', ''lane.cancelling''} \<Longrightarrow> \<not> is_panic (sync_event_lane env e r' fd)"
    using t transition_handlers(3,4) [of e r] c(3,4) [of e r d r1] sync_event_lane_calm [OF _ _ wf(2)] by auto
  have commit: "ev_kind e = ''message.committed'' \<Longrightarrow> \<not> is_panic (draw_commit env e r' fd)"
    using t transition_handlers(5) [of e r] c(5) [of e r d r1] draw_parts_calm(2) [OF wf(2)] by simp
  have ended: "ev_kind e \<in> {''lane.completed'', ''lane.failed'', ''lane.cancelled''} \<Longrightarrow> \<not> is_panic (draw_end env e r' fd)"
    using t transition_handlers(6-8) [of e r] c(6-8) [of e r d r1] k(2-4) [of e r d r1] lanes
    by (intro draw_lane_calm(1)) auto
  have hops: "ev_kind e \<in> {''hop.dispatched'', ''hop.blocked''} \<Longrightarrow> \<not> is_panic (draw_hop env e r' fd)"
    using t transition_handlers(9,10) [of e r] c(9) [of e _ r d r1] draw_parts_calm(3) [OF wf(2)] by auto
  show ?thesis
    unfolding apply_feed_event_def Let_def
    using start chunk sync commit ended hops push_transcript_entry_calm [OF wf(1)] by simp
qed

lemma apply_and_draw_calm:
  assumes r: "reachable rfc3339 r" shows "\<not> is_panic (apply_and_draw rfc3339 env e (r, fd))"
proof (cases "apply_event rfc3339 e r")
  case (Pair answer r')
  show ?thesis
  proof (cases answer)
    case (Ok d)
    with Pair have e: "apply_event rfc3339 e r = (Ok d, r')" by simp
    from r e have r': "reachable rfc3339 r'" by (rule reachable.applied)
    from r e show ?thesis
    proof (cases rule: apply_event_reachable_cases)
      case repeated
      with e show ?thesis by (simp add: apply_and_draw_def has_event_id_def)
    next
      case (applied r1)
      have "\<not> is_panic (apply_feed_event env e r' d fd)"
        by (rule apply_feed_event_calm [OF applied(6) reachable_room_wf [OF r'] reachable_stamps [OF r']])
          (simp add: applied(4))
      with e show ?thesis by (simp add: apply_and_draw_def Let_def)
    qed
  next
    case (Panic m)
    with Pair apply_event_calm [OF reachable_room_wf [OF r], of rfc3339 e] show ?thesis by (simp add: calm_def)
  qed (use Pair in \<open>simp add: apply_and_draw_def Let_def\<close>)
qed

subsection \<open>Rebuilding\<close>

lemma expect_not_Err [simp]: "expect x m \<noteq> Err e"
  by (cases x) simp_all

lemma tryR_eq_Err: "tryR m k = Err e \<longleftrightarrow> m = Err e \<or> (\<exists>a. m = Ok a \<and> k a = Err e)"
  by (cases m) auto

text \<open>A lane that committed its message without ever starting, and has not been completed yet.\<close>

definition unstarted_commit :: "reducer \<Rightarrow> bool" where
  "unstarted_commit r \<longleftrightarrow> (\<exists>k l. lane r k = Some l \<and> ln_phase l = Committed \<and> ln_stream_id l = None)"

lemma first_draw_panics:
  assumes "room_wf r" "lanes r k = Some l"
  shows "is_panic (lane_first_draw_seq r l) \<longleftrightarrow> ln_stream_id l = None \<and> ln_terminal_event_seq l = None"
  using streams_okD(3) [OF room_wfD(5) [OF assms(1)] assms(2)]
  by (cases "ln_stream_id l") (fastforce simp: lane_first_draw_seq_def stream_def)+

lemma lane_rows_calm:
  assumes wf: "room_wf r" and row: "row \<in> set (lane_rows r)"
  shows "\<not> is_panic (keyed_replay_row r row)"
proof -
  have "\<not> is_panic (lane_first_draw_seq r l)" if "ln_terminal_event_seq l \<noteq> None" for l
    using that by (auto simp: lane_first_draw_seq_def split: option.splits)
  with row show ?thesis by (auto simp: lane_rows_def keyed_replay_row_def)
qed

lemma is_panic_collect_iff:
  "(\<And>x e. x \<in> set xs \<Longrightarrow> f x \<noteq> Err e) \<Longrightarrow>
   is_panic (collect_results f xs) \<longleftrightarrow> (\<exists>x \<in> set xs. is_panic (f x))"
proof (induction xs)
  case (Cons x xs)
  then have "is_panic (collect_results f xs) \<longleftrightarrow> (\<exists>y \<in> set xs. is_panic (f y))" by auto
  with Cons.prems(1) [of x] show ?case by (cases "f x") auto
qed simp

lemma transcript_steps_panics:
  assumes wf: "room_wf r"
  shows "is_panic (transcript_steps r entry) \<longleftrightarrow>
      (\<exists>k l. message_lanes r (tr_message_id entry) = Some k \<and> lanes r k = Some l
         \<and> ln_stream_id l = None \<and> ln_terminal_event_seq l = None)"
    "transcript_steps r entry \<noteq> Err e"
proof -
  have "is_panic (transcript_steps r entry) \<longleftrightarrow>
      (\<exists>l. Option.bind (message_lanes r (tr_message_id entry)) (lanes r) = Some l \<and> is_panic (lane_first_draw_seq r l))"
    by (auto simp: transcript_steps_def keyed_replay_row_def lane_for_message_sound [OF wf]
        split: option.splits transcript_author.splits)
  then show "is_panic (transcript_steps r entry) \<longleftrightarrow>
      (\<exists>k l. message_lanes r (tr_message_id entry) = Some k \<and> lanes r k = Some l
         \<and> ln_stream_id l = None \<and> ln_terminal_event_seq l = None)"
    using first_draw_panics [OF wf] by (auto simp: bind_eq_Some_conv)
  have "lane_first_draw_seq r l \<noteq> Err e" for l
    by (simp add: lane_first_draw_seq_def)
  then show "transcript_steps r entry \<noteq> Err e"
    by (auto simp: transcript_steps_def keyed_replay_row_def lane_for_message_sound [OF wf] tryR_eq_Err
        split: option.splits transcript_author.splits)
qed

lemma unstarted_commit_alt:
  assumes wf: "room_wf r"
  shows "unstarted_commit r \<longleftrightarrow> (\<exists>entry \<in> set (transcript r). is_panic (transcript_steps r entry))"
proof
  assume "unstarted_commit r"
  then obtain k l where l: "lanes r k = Some l" "ln_phase l = Committed" "ln_stream_id l = None"
    by (auto simp: unstarted_commit_def lane_def)
  have w: "lane_wf l" using room_wfD(2) [OF wf] l(1) by (simp add: lanes_ok_def)
  with l(2) obtain c where c: "ln_message_commit l = Some c" by (auto simp: lane_wf_def)
  have "ln_terminal_event_seq l = None" using w l(2) by (simp add: lane_wf_def terminal_def)
  moreover have m: "message_lanes r (mc_message_id c) = Some k"
    using room_wfD(7) [OF wf] l(1) c by (auto simp: messages_ok_def)
  moreover have "mc_message_id c \<in> tr_message_id ` set (transcript r)"
    using room_wfD(6,7) [OF wf] domI [where m = "message_lanes r", OF m] unfolding messages_ok_def transcript_ok_def by auto
  ultimately obtain entry where "entry \<in> set (transcript r)" "tr_message_id entry = mc_message_id c"
      "ln_terminal_event_seq l = None" by auto
  with l m show "\<exists>entry \<in> set (transcript r). is_panic (transcript_steps r entry)"
    by (intro bexI [of _ entry]) (auto simp: transcript_steps_panics [OF wf])
next
  assume "\<exists>entry \<in> set (transcript r). is_panic (transcript_steps r entry)"
  then obtain entry k l where "entry \<in> set (transcript r)" and l: "message_lanes r (tr_message_id entry) = Some k" "lanes r k = Some l"
      "ln_stream_id l = None" "ln_terminal_event_seq l = None"
    unfolding transcript_steps_panics [OF wf] by blast
  obtain c where "ln_message_commit l = Some c"
    using room_wfD(7) [OF wf] l(1,2) by (fastforce simp: messages_ok_def)
  moreover have "lane_wf l" using room_wfD(2) [OF wf] l(2) by (simp add: lanes_ok_def)
  ultimately have "ln_phase l \<in> {Committed, Completed}" "\<not> terminal (ln_phase l)"
    using l(4) by (simp_all add: lane_wf_def)
  with l show "unstarted_commit r" by (auto simp: unstarted_commit_def lane_def terminal_def)
qed

lemma keyed_valid:
  assumes wf: "room_wf r" "stamps_ok r" and ss: "replay_steps r = Ok ss" and s: "s \<in> set ss"
  shows "valid_decimal (fst (fst s))"
proof -
  have first: "valid_decimal q" if "lane_first_draw_seq r l = Ok q" "lanes r k = Some l" for l q k
    using that stamps_okD [OF wf(2)]
    by (auto simp: lane_first_draw_seq_def stream_def lane_stamped_def bind_eq_Some_conv split: option.splits)
  have key: "valid_decimal (fst (fst t))" if "keyed_replay_row r row = Ok t" "row \<in> set (lane_rows r)" for row t
    using that first wf(2) well_ordered_key [OF tables_okD(1) [OF room_wfD(1) [OF wf(1)]]]
    by (auto simp: keyed_replay_row_def lane_rows_def stamps_ok_def list_all_iff ordered_lanes_def ordered_streams_def
        map_filter_def)
  have entry: "valid_decimal (fst (fst t))" if ts: "transcript_steps r e = Ok ts" "t \<in> set ts" "e \<in> set (transcript r)" for e ts t
  proof -
    have e: "valid_decimal (tr_event_seq e)" using room_wfD(16) [OF wf(1)] ts(3) by (simp add: transcript_sorted_def)
    obtain q where q: "replay_seq r (RowTranscript e) = Ok q" "t = ((q, 0), ReplayRow (RowTranscript e)) \<or> fst (fst t) = tr_event_seq e"
      using ts(1,2) by (cases "tr_author e") (auto simp: transcript_steps_def keyed_replay_row_def split: if_splits)
    have "valid_decimal q"
      using q(1) e first by (auto simp: lane_for_message_sound [OF wf(1)] bind_eq_Some_conv split: option.splits)
    with q(2) e show ?thesis by auto
  qed
  from ss obtain entries rows where "list_all2 (\<lambda>x y. transcript_steps r x = Ok y) (transcript r) entries"
      "list_all2 (\<lambda>x y. keyed_replay_row r x = Ok y) (lane_rows r) rows" "ss = concat entries @ rows"
    by (auto simp: replay_steps_def collect_results_Ok)
  with s show ?thesis
    by (auto simp: list_all2_conv_all_nth in_set_conv_nth) (metis entry key nth_mem)+
qed


lemma insert_step_set [simp]: "set (insert_step s ts) = insert s (set ts)"
  by (induction ts) auto

lemma sorted_steps_set: "sort_steps ss = Ok ordered \<Longrightarrow> set ordered = set ss"
proof -
  have "set (foldr insert_step ss []) = set ss" by (induction ss) auto
  then show "sort_steps ss = Ok ordered \<Longrightarrow> set ordered = set ss" by (auto simp: sort_steps_def split: if_splits)
qed

lemma replayed_lane_known:
  assumes "replay_steps r = Ok ss" "((q, rank), ReplayRow (RowReplayedStream s)) \<in> set ss"
  shows "lane r (st_lane_id s) \<noteq> None"
proof -
  from assms(1) obtain entries rows where e: "list_all2 (\<lambda>x y. transcript_steps r x = Ok y) (transcript r) entries"
      and k: "list_all2 (\<lambda>x y. keyed_replay_row r x = Ok y) (lane_rows r) rows" and ss: "ss = concat entries @ rows"
    by (auto simp: replay_steps_def collect_results_Ok)
  have "((q, rank), ReplayRow (RowReplayedStream s)) \<notin> set ts" if "transcript_steps r x = Ok ts" for x ts
    using that by (cases "tr_author x") (auto simp: transcript_steps_def keyed_replay_row_def split: if_splits)
  with e have "((q, rank), ReplayRow (RowReplayedStream s)) \<notin> set (concat entries)"
    unfolding list_all2_conv_all_nth by (auto simp del: in_set_conv_nth dest!: in_set_conv_nth [of _ entries, THEN iffD1])
  with assms(2) ss k obtain row where "row \<in> set (lane_rows r)"
      "keyed_replay_row r row = Ok ((q, rank), ReplayRow (RowReplayedStream s))"
    by (auto simp: list_all2_conv_all_nth) (metis in_set_conv_nth)
  then show ?thesis
    by (auto simp: keyed_replay_row_def lane_rows_def split: option.splits)
qed

lemma replay_rows_calm:
  assumes "room_wf r" "stamps_ok r"
    and "\<And>s. ReplayRow (RowReplayedStream s) \<in> set steps \<Longrightarrow> lane r (st_lane_id s) \<noteq> None"
  shows "\<not> is_panic (replay_rows env r steps fd)"
  using assms(3)
proof (induction steps arbitrary: fd)
  case (Cons step steps)
  have "\<not> is_panic (replay_row env r step fd)"
    using Cons.prems push_transcript_entry_calm [OF assms(1)] sync_lane_activity_calm [OF assms(2)]
    by (cases "(env, r, step, fd)" rule: replay_row.cases) auto
  with Cons show ?case by auto
qed simp

lemma rebuild_panics_iff:
  assumes r: "reachable rfc3339 r"
  shows "is_panic (from_reducer_with_motion env r motion) \<longleftrightarrow> unstarted_commit r"
proof -
  note wf = reachable_room_wf [OF r] and stamps = reachable_stamps [OF r]
  have entries: "is_panic (collect_results (transcript_steps r) (transcript r)) \<longleftrightarrow> unstarted_commit r"
    unfolding unstarted_commit_alt [OF wf]
    by (rule is_panic_collect_iff) (rule transcript_steps_panics(2) [OF wf])
  have rows: "\<not> is_panic (collect_results (keyed_replay_row r) (lane_rows r))"
    by (rule is_panic_collect) (rule lane_rows_calm [OF wf])
  have sorted: "\<not> is_panic (sort_steps ss)" if "replay_steps r = Ok ss" for ss
    using keyed_valid [OF wf stamps that] by (auto simp: sort_steps_def list_ex_iff valid_decimal_def)
  have drawn: "\<not> is_panic (replay_rows env r (map snd steps) fd)"
    if "replay_steps r = Ok ss" "sort_steps ss = Ok steps" for ss steps fd
    using replayed_lane_known [OF that(1)] sorted_steps_set [OF that(2)]
    by (intro replay_rows_calm wf stamps) auto
  show ?thesis
  proof
    assume "is_panic (from_reducer_with_motion env r motion)"
    with sorted drawn rows show "unstarted_commit r"
      by (auto simp: from_reducer_with_motion_def replay_steps_def entries)
  next
    assume "unstarted_commit r"
    then show "is_panic (from_reducer_with_motion env r motion)"
      by (simp add: from_reducer_with_motion_def replay_steps_def entries)
  qed
qed

end
