(* ===== verification/Feed_Rows.thy ===== *)
theory Feed_Rows
  imports Feed_Safety
begin

section \<open>Which rows an operation of the feed leaves alone\<close>

text \<open>
  \<open>message_text\<close> is what a message row says. Nearly every operation of the feed is \<^emph>\<open>calm\<close>: it
  leaves the messages there are as they are and gives what it adds a new identifier. The rest of the
  development asks of an operation only this.
\<close>

definition block_text :: "feed_block \<Rightarrow> string option" where
  "block_text block = (case block of MessageBlock body _ \<Rightarrow> Some body | _ \<Rightarrow> None)"

lemma block_text_simps [simp]:
  "block_text (StubBlock a c) = None" "block_text (MessageBlock a c) = Some a" "block_text (StepsBlock b) = None"
  by (simp_all add: block_text_def)

definition message_text :: "scroll_state \<Rightarrow> nat \<Rightarrow> string option" where
  "message_text s i = Option.bind (get_by_id s i) (\<lambda>row. block_text (row_block row))"

definition scroll_wf :: "scroll_state \<Rightarrow> bool" where
  "scroll_wf s \<longleftrightarrow> distinct (row_ids s) \<and> (\<forall>i \<in> set (row_ids s). i < ss_next_id s)"

lemma get_by_id_ids: "get_by_id s i \<noteq> None \<longleftrightarrow> i \<in> set (row_ids s)"
  by (auto simp: get_by_id_def row_ids_def map_of_eq_None_iff)

lemma fresh_row: "scroll_wf s \<Longrightarrow> ss_next_id s \<le> i \<Longrightarrow> get_by_id s i = None"
  using get_by_id_ids [of s i] by (auto simp: scroll_wf_def)

lemma message_text_below: "scroll_wf s \<Longrightarrow> message_text s i = Some body \<Longrightarrow> i < ss_next_id s"
  using fresh_row [of s i] by (cases "i < ss_next_id s") (simp_all add: message_text_def)

subsection \<open>Maps as lists\<close>

lemma map_of_insert:
  "i \<notin> fst ` set xs \<Longrightarrow> map_of (take n xs @ (i, r) # drop n xs) = (map_of xs)(i \<mapsto> r)"
proof -
  assume i: "i \<notin> fst ` set xs"
  then have "i \<notin> dom (map_of (take n xs))" by (auto simp: dom_map_of_conv_image_fst dest: in_set_takeD)
  then have "map_of (take n xs @ (i, r) # drop n xs) = (map_of (drop n xs) ++ map_of (take n xs))(i \<mapsto> r)"
    by (simp add: map_add_upd_left)
  also have "map_of (drop n xs) ++ map_of (take n xs) = map_of xs"
    by (metis append_take_drop_id map_of_append)
  finally show ?thesis .
qed

lemma map_of_keep: "map_of (filter (\<lambda>(k, _). P k) xs) k = (if P k then map_of xs k else None)"
  by (induction xs) auto

lemma map_of_update: "map_of (map (\<lambda>(k, v). (k, if k = i then f v else v)) xs) j
    = map_option (\<lambda>v. if j = i then f v else v) (map_of xs j)"
  by (induction xs) auto

subsection \<open>Adding a row\<close>

definition adds :: "feed_row \<Rightarrow> scroll_state \<Rightarrow> nat \<times> scroll_state \<Rightarrow> bool" where
  "adds row s added \<longleftrightarrow>
     fst added = ss_next_id s \<and> ss_next_id (snd added) = Suc (ss_next_id s)
     \<and> (scroll_wf s \<longrightarrow> scroll_wf (snd added) \<and> get_by_id (snd added) = (get_by_id s)(fst added \<mapsto> row))"

lemma adds_at:
  assumes "ss_entries s' = take n (ss_entries s) @ (ss_next_id s, row) # drop n (ss_entries s)"
    and "ss_next_id s' = Suc (ss_next_id s)"
  shows "adds row s (ss_next_id s, s')"
proof -
  have ids: "row_ids s' = take n (row_ids s) @ ss_next_id s # drop n (row_ids s)"
    using assms(1) by (simp add: row_ids_def take_map drop_map)
  have split: "set (row_ids s) = set (take n (row_ids s)) \<union> set (drop n (row_ids s))"
    "distinct (row_ids s) \<longleftrightarrow> distinct (take n (row_ids s)) \<and> distinct (drop n (row_ids s))
       \<and> set (take n (row_ids s)) \<inter> set (drop n (row_ids s)) = {}"
    by (metis append_take_drop_id set_append) (metis append_take_drop_id distinct_append)
  have "scroll_wf s'" if "scroll_wf s"
    using that assms(2) unfolding scroll_wf_def ids split by (auto simp: less_Suc_eq)
  moreover have "get_by_id s' = (get_by_id s)(ss_next_id s \<mapsto> row)" if "scroll_wf s"
  proof -
    have "ss_next_id s \<notin> fst ` set (ss_entries s)" using that by (auto simp: scroll_wf_def row_ids_def)
    then show ?thesis
      by (simp add: get_by_id_def [abs_def] assms(1) map_of_insert del: map_of_append)
  qed
  ultimately show ?thesis using assms(2) by (simp add: adds_def)
qed

lemma push_adds: "adds row s (push row s)"
proof -
  have "push row s = (ss_next_id s, snd (push row s))" by (simp add: push_def Let_def)
  moreover have "adds row s (ss_next_id s, snd (push row s))"
    by (rule adds_at [of _ "length (ss_entries s)"]) (simp_all add: push_def Let_def)
  ultimately show ?thesis by simp
qed

lemma insert_adds: "adds row s (insert_block_before_entry anchor row s)"
proof (cases "index_of_id s anchor")
  case None
  then show ?thesis by (simp add: insert_block_before_entry_def push_adds)
next
  case (Some n)
  then have "insert_block_before_entry anchor row s = (ss_next_id s, snd (insert_block_before_entry anchor row s))"
    by (simp add: insert_block_before_entry_def Let_def)
  moreover have "adds row s (ss_next_id s, snd (insert_block_before_entry anchor row s))"
    using Some by (intro adds_at [of _ n]) (simp_all add: insert_block_before_entry_def Let_def)
  ultimately show ?thesis by simp
qed

lemma block_adds:
  "adds (new_row block) s (push_block block s)"
  "adds ((new_row block)\<lparr>row_cohesion := Some cohesion\<rparr>) s (push_block_with_cohesion block cohesion s)"
  "adds (new_row block) s (insert_block_before anchor block s)"
  "adds ((new_row block)\<lparr>row_cohesion := Some cohesion\<rparr>) s (insert_block_before_with_cohesion anchor block cohesion s)"
  by (simp_all add: push_block_def push_block_with_cohesion_def insert_block_before_def
      insert_block_before_with_cohesion_def push_adds insert_adds)

definition adds_block :: "feed_block \<Rightarrow> scroll_state \<Rightarrow> nat \<times> scroll_state \<Rightarrow> bool" where
  "adds_block block s added \<longleftrightarrow> (\<exists>row. adds row s added \<and> row_block row = block)"

lemma block_adds_block:
  "adds_block block s (push_block block s)" "adds_block block s (push_block_with_cohesion block cohesion s)"
  "adds_block block s (insert_block_before anchor block s)"
  "adds_block block s (insert_block_before_with_cohesion anchor block cohesion s)"
  unfolding adds_block_def using block_adds by (fastforce simp: new_row_def)+

subsection \<open>Calm operations of the scrollback\<close>

definition calm_scroll :: "scroll_state \<Rightarrow> scroll_state \<Rightarrow> bool" where
  "calm_scroll s s' \<longleftrightarrow>
     (scroll_wf s \<longrightarrow> scroll_wf s' \<and> ss_next_id s \<le> ss_next_id s'
        \<and> (\<forall>i < ss_next_id s. message_text s' i = message_text s i))"

lemma calm_scroll_refl [simp]: "calm_scroll s s"
  by (simp add: calm_scroll_def)

lemma calm_scroll_trans: "calm_scroll s t \<Longrightarrow> calm_scroll t u \<Longrightarrow> calm_scroll s u"
  by (auto simp: calm_scroll_def)

lemma adds_block_calm: "adds_block block s added \<Longrightarrow> calm_scroll s (snd added)"
  by (auto simp: adds_block_def adds_def calm_scroll_def message_text_def)

lemma adds_block_new:
  assumes "adds_block block s added" "scroll_wf s"
  shows "fst added = ss_next_id s" "ss_next_id (snd added) = Suc (ss_next_id s)" "scroll_wf (snd added)"
    "message_text (snd added) (fst added) = block_text block"
    "message_text (snd added) = (message_text s)(ss_next_id s := block_text block)"
  using assms by (auto simp: adds_block_def adds_def message_text_def fun_eq_iff)

text \<open>The list of rows is what counts.\<close>

lemma calm_scroll_rows:
  assumes "ss_entries s' = ss_entries s" "ss_next_id s' = ss_next_id s"
  shows "calm_scroll s s'"
  using assms by (simp add: calm_scroll_def scroll_wf_def row_ids_def message_text_def get_by_id_def)

lemma get_by_id_update [simp]:
  "get_by_id (update_row i f s) j = map_option (\<lambda>row. if j = i then f row else row) (get_by_id s j)"
  by (simp add: get_by_id_def update_row_def map_of_update)

lemma row_ids_update [simp]: "row_ids (update_row i f s) = row_ids s"
  by (simp add: row_ids_def update_row_def case_prod_unfold)

lemma next_id_update [simp]: "ss_next_id (update_row i f s) = ss_next_id s"
  by (simp add: update_row_def)

lemma scroll_wf_update [simp]: "scroll_wf (update_row i f s) = scroll_wf s"
  by (simp add: scroll_wf_def)

lemma update_row_calm:
  assumes "\<And>row. get_by_id s i = Some row \<Longrightarrow> block_text (row_block (f row)) = block_text (row_block row)"
  shows "calm_scroll s (update_row i f s)"
  using assms by (auto simp: calm_scroll_def message_text_def split: option.splits bind_splits)

lemma same_kind_text:
  "same_kind block (StubBlock a c) \<Longrightarrow> block_text block = None"
  by (cases block) simp_all

lemma replace_calm:
  "calm_scroll s (snd (replace_room_status i block s))" "calm_scroll s (snd (replace_room_steps i steps s))"
  "message_text s i = Some body \<Longrightarrow> calm_scroll s (snd (replace_agent_message i (MessageBlock body c) s))"
proof -
  show "calm_scroll s (snd (replace_room_status i block s))"
    unfolding replace_room_status_def
    by (cases block; cases "get_by_id s i"; (auto intro!: update_row_calm simp: same_kind_text split: feed_block.splits))
  show "calm_scroll s (snd (replace_room_steps i steps s))"
    by (auto simp: replace_room_steps_def intro!: update_row_calm split: option.splits feed_block.splits)
  show "message_text s i = Some body \<Longrightarrow> calm_scroll s (snd (replace_agent_message i (MessageBlock body c) s))"
    by (auto simp: replace_agent_message_def message_text_def intro!: update_row_calm split: option.splits)
qed

lemma running_calm: "calm_scroll s (set_entry_running i b s)" "calm_scroll s (finish_running i s)"
proof -
  have "calm_scroll s (update_row i (\<lambda>row. row\<lparr>row_running := b'\<rparr>) s)" for b' by (rule update_row_calm) simp
  moreover have "calm_scroll t (t\<lparr>ss_running := xs\<rparr>)" for t xs by (rule calm_scroll_rows) simp_all
  ultimately show "calm_scroll s (set_entry_running i b s)" "calm_scroll s (finish_running i s)"
    unfolding set_entry_running_def finish_running_def
    by (auto split: option.split intro: calm_scroll_trans)
qed

lemma remove_entry_calm:
  assumes "message_text s i = None" shows "calm_scroll s (snd (remove_entry i s))"
proof (cases "index_of_id s i")
  case (Some n)
  let ?s = "snd (remove_entry i s)"
  have entries: "ss_entries ?s = filter (\<lambda>(j, _). j \<noteq> i) (ss_entries s)" "ss_next_id ?s = ss_next_id s"
    using Some by (simp_all add: remove_entry_def Let_def without_row_def)
  have ids: "row_ids ?s = filter (\<lambda>j. j \<noteq> i) (row_ids s)"
    by (simp add: row_ids_def entries filter_map comp_def case_prod_unfold)
  have "get_by_id ?s j = (if j \<noteq> i then get_by_id s j else None)" for j
    by (simp add: get_by_id_def entries map_of_keep [of "\<lambda>j. j \<noteq> i"])
  with ids entries(2) assms show ?thesis by (auto simp: calm_scroll_def scroll_wf_def message_text_def)
qed (simp add: remove_entry_def)

lemma move_group_calm: "calm_scroll s (snd (move_group_to_end is s))"
proof -
  let ?ordered = "filter (\<lambda>i. i \<in> set (row_ids s)) (rev (remdups (rev is)))"
  let ?entries = "filter (\<lambda>(i, _). i \<notin> set ?ordered) (ss_entries s) @ map (\<lambda>i. (i, the (get_by_id s i))) ?ordered"
  have get: "map_of ?entries i = get_by_id s i" for i
  proof -
    have kept: "map_of (filter (\<lambda>(i, _). i \<notin> set ?ordered) (ss_entries s)) i
        = (if i \<notin> set ?ordered then map_of (ss_entries s) i else None)" by (rule map_of_keep)
    have "i \<in> set ?ordered \<Longrightarrow> get_by_id s i \<noteq> None" using get_by_id_ids [of s i] by simp
    then show ?thesis
      unfolding map_of_append map_add_def kept map_of_map_restrict
      by (cases "i \<in> set ?ordered"; cases "map_of (ss_entries s) i") (auto simp: get_by_id_def restrict_map_def)
  qed
  have "map fst (filter (\<lambda>(i, _). i \<notin> set ?ordered) (ss_entries s)) = filter (\<lambda>i. i \<notin> set ?ordered) (row_ids s)"
    by (simp add: row_ids_def filter_map comp_def case_prod_unfold)
  then have ids: "map fst ?entries = filter (\<lambda>i. i \<notin> set ?ordered) (row_ids s) @ ?ordered"
    by (simp add: comp_def)
  have "distinct (row_ids s) \<Longrightarrow> distinct (map fst ?entries)" "set (map fst ?entries) = set (row_ids s)"
    unfolding ids by auto
  with get have moved: "calm_scroll s (s\<lparr>ss_entries := ?entries, ss_selected := sel\<rparr>)" for sel
    by (simp add: calm_scroll_def scroll_wf_def row_ids_def message_text_def get_by_id_def)
  then show ?thesis
    using moved by (simp add: move_group_to_end_def Let_def)
qed

end
