(* ===== verification/Feed_Calm.thy ===== *)
theory Feed_Calm
  imports Feed_Rows
begin

section \<open>Calm operations of the feed\<close>

text \<open>
  A lane's binding is sound when its message row says what the binding remembers, and its status row,
  which the feed removes, is no message. \<open>calm_except S\<close> lifts calmness to the feed: beyond the
  bookkeeping no message, binding or content entry changes, but that the streams of \<open>S\<close> may be marked
  completed.
\<close>

definition binding_ok :: "scroll_state \<Rightarrow> stream_binding \<Rightarrow> bool" where
  "binding_ok s b \<longleftrightarrow>
     message_text s (bd_entry_id b) = Some (bd_text b)
     \<and> bd_status_entry_id b < ss_next_id s \<and> message_text s (bd_status_entry_id b) = None"

definition rows_ok :: "scrollback \<Rightarrow> bool" where
  "rows_ok fd \<longleftrightarrow>
     scroll_wf (fd_state fd)
     \<and> (\<forall>sid. pred_option (binding_ok (fd_state fd)) (fd_stream_entries fd sid))"

definition same_binding :: "bool \<Rightarrow> stream_binding \<Rightarrow> stream_binding \<Rightarrow> bool" where
  "same_binding ending b b' \<longleftrightarrow>
     bd_entry_id b' = bd_entry_id b \<and> bd_text b' = bd_text b \<and> (bd_completed b' = bd_completed b \<or> ending)"

definition calm_except :: "string set \<Rightarrow> scrollback \<Rightarrow> scrollback \<Rightarrow> bool" where
  "calm_except S fd fd' \<longleftrightarrow>
     (rows_ok fd \<longrightarrow> rows_ok fd' \<and> ss_next_id (fd_state fd) \<le> ss_next_id (fd_state fd')
        \<and> (\<forall>i < ss_next_id (fd_state fd). message_text (fd_state fd') i = message_text (fd_state fd) i)
        \<and> fd_content_entries fd' = fd_content_entries fd \<and> fd_lane_streams fd' = fd_lane_streams fd
        \<and> (\<forall>sid. rel_option (same_binding (sid \<in> S)) (fd_stream_entries fd sid) (fd_stream_entries fd' sid)))"

abbreviation calm_feed :: "scrollback \<Rightarrow> scrollback \<Rightarrow> bool" where
  "calm_feed \<equiv> calm_except {}"

named_theorems calm_intro \<open>operations of the feed that are calm\<close>

lemma same_binding_refl [simp]: "rel_option (same_binding x) b b"
  by (intro option.rel_refl) (simp add: same_binding_def)

lemma calm_except_refl [simp]: "calm_except S fd fd"
  by (simp add: calm_except_def)

lemma same_binding_trans: "same_binding x a b \<Longrightarrow> same_binding y b c \<Longrightarrow> same_binding (x \<or> y) a c"
  by (auto simp: same_binding_def)

lemma calm_except_trans:
  assumes "calm_except S fd fd1" "calm_except T fd1 fd2" shows "calm_except (S \<union> T) fd fd2"
proof -
  have "rel_option (same_binding (sid \<in> S \<union> T)) x z"
    if "rel_option (same_binding (sid \<in> S)) x y" "rel_option (same_binding (sid \<in> T)) y z" for sid x y z
    using that same_binding_trans [of "sid \<in> S" _ _ "sid \<in> T"] by (cases x; cases y; cases z) auto
  with assms show ?thesis unfolding calm_except_def by auto blast
qed

lemma calm_trans [trans]: "calm_feed fd fd1 \<Longrightarrow> calm_feed fd1 fd2 \<Longrightarrow> calm_feed fd fd2"
  using calm_except_trans [of "{}" _ _ "{}"] by simp

lemma calm_except_mono: "calm_feed fd fd' \<Longrightarrow> calm_except S fd fd'"
  using calm_except_trans [of "{}" fd fd' S fd'] by simp

text \<open>The rules are kept in the form \<open>calm_feed fd0 fd \<Longrightarrow> calm_feed fd0 (operation fd)\<close>.\<close>

lemma calm_after: "calm_feed fd1 fd2 \<Longrightarrow> calm_feed fd fd1 \<Longrightarrow> calm_feed fd fd2"
  by (rule calm_trans)

text \<open>Bookkeeping.\<close>

lemma calm_fields:
  "fd_state fd' = fd_state fd \<Longrightarrow> fd_stream_entries fd' = fd_stream_entries fd \<Longrightarrow>
   fd_content_entries fd' = fd_content_entries fd \<Longrightarrow> fd_lane_streams fd' = fd_lane_streams fd \<Longrightarrow> calm_feed fd fd'"
  by (simp add: calm_except_def rows_ok_def)

lemma calm_books:
  "calm_feed fd (remember_lane_row t n i fd)" "calm_feed fd (forget_lane_row t n i fd)"
  "calm_feed fd (forget_settled_turn t r fd)" "calm_feed fd (snd (allocate_cohesion_group fd))"
  "calm_feed fd (remember_answer_group m g is i fd)"
  by (auto simp: remember_lane_row_def forget_lane_row_def forget_settled_turn_def allocate_cohesion_group_def
      remember_answer_group_def Let_def intro!: calm_fields split: option.split)

lemmas calm_books_after [calm_intro] = calm_books [THEN calm_after]

text \<open>Operations of the scrollback.\<close>

lemma binding_ok_calm:
  assumes "scroll_wf s" "calm_scroll s s'" "binding_ok s b" shows "binding_ok s' b"
  using assms message_text_below [OF assms(1)] by (auto simp: binding_ok_def calm_scroll_def)

lemma calm_state:
  assumes "calm_scroll (fd_state fd) s'" shows "calm_feed fd (fd\<lparr>fd_state := s'\<rparr>)"
proof -
  have "rows_ok (fd\<lparr>fd_state := s'\<rparr>)" if ok: "rows_ok fd"
  proof -
    have "scroll_wf s'" using ok assms by (simp add: rows_ok_def calm_scroll_def)
    moreover have "pred_option (binding_ok s') (fd_stream_entries fd sid)" for sid
      using ok binding_ok_calm [OF _ assms] unfolding rows_ok_def by (metis option.pred_mono_strong)
    ultimately show ?thesis by (simp add: rows_ok_def)
  qed
  then show ?thesis
    using assms by (auto simp: calm_except_def rows_ok_def calm_scroll_def)
qed

lemma on_state_snd: "snd (on_state f fd) = fd\<lparr>fd_state := snd (f (fd_state fd))\<rparr>" "fst (on_state f fd) = fst (f (fd_state fd))"
  by (simp_all add: on_state_def split: prod.split)

lemma calm_draw: "calm_scroll (fd_state fd) (snd (f (fd_state fd))) \<Longrightarrow> calm_feed fd (draw f fd)"
  by (simp add: draw_def on_state_snd calm_state)

lemma calm_edit: "calm_scroll (fd_state fd) (f (fd_state fd)) \<Longrightarrow> calm_feed fd (edit_state f fd)"
  by (simp add: edit_state_def calm_state)

lemma calm_running:
  "calm_feed fd (edit_state (set_entry_running i b) fd)" "calm_feed fd (edit_state (finish_running i) fd)"
  by (simp_all add: calm_edit running_calm)

lemmas calm_running_after [calm_intro] = calm_running [THEN calm_after]

definition adder :: "feed_block \<Rightarrow> (scroll_state \<Rightarrow> nat \<times> scroll_state) \<Rightarrow> bool" where
  "adder block f \<longleftrightarrow> (\<forall>s. adds_block block s (f s))"

lemma adders:
  "adder block (push_block block)" "adder block (push_block_with_cohesion block cohesion)"
  "adder block (insert_block_before anchor block)" "adder block (insert_block_before_with_cohesion anchor block cohesion)"
  by (simp_all add: adder_def block_adds_block)

lemma calm_added: "adder block f \<Longrightarrow> calm_feed fd (snd (on_state f fd))"
  unfolding on_state_snd by (rule calm_state) (auto simp: adder_def intro: adds_block_calm)

lemma calm_block:
  "calm_feed fd (snd (on_state (push_block block) fd))"
  "calm_feed fd (snd (on_state (push_block_with_cohesion block cohesion) fd))"
  "calm_feed fd (snd (on_state (insert_block_before anchor block) fd))"
  "calm_feed fd (snd (on_state (insert_block_before_with_cohesion anchor block cohesion) fd))"
  by (rule calm_added, rule adders)+

lemmas calm_block_after [calm_intro] = calm_block [THEN calm_after] calm_block [folded draw_def, THEN calm_after]

text \<open>Presentation fields of a binding.\<close>

lemma calm_binding:
  assumes "\<And>b. fd_stream_entries fd sid = Some b \<Longrightarrow> rows_ok fd \<Longrightarrow>
      same_binding (sid \<in> S) b (f b) \<and> binding_ok (fd_state fd) (f b)"
  shows "calm_except S fd (write_binding sid f fd)"
  using assms unfolding calm_except_def write_binding_def rows_ok_def
  by (cases "fd_stream_entries fd sid") auto

lemma calm_presented:
  "calm_feed fd (write_binding sid (\<lambda>b. b\<lparr>bd_status_cleared := x\<rparr>) fd)"
  "calm_feed fd (write_binding sid (\<lambda>b. b\<lparr>bd_steps_entry_id := y\<rparr>) fd)"
  "calm_feed fd (write_binding sid (\<lambda>b. b\<lparr>bd_steps_folded := x\<rparr>) fd)"
  "calm_feed fd (write_binding sid (\<lambda>b. b\<lparr>bd_activity_label := z\<rparr>) fd)"
  by (rule calm_binding; auto simp: same_binding_def binding_ok_def rows_ok_def split: option.splits
      dest!: spec [of _ sid])+

lemmas calm_presented_after [calm_intro] = calm_presented [THEN calm_after]

lemma calm_completed: "calm_except {sid} fd (write_binding sid (\<lambda>b. b\<lparr>bd_completed := True\<rparr>) fd)"
  by (rule calm_binding) (auto simp: same_binding_def binding_ok_def rows_ok_def dest!: spec [of _ sid])

subsection \<open>The operations\<close>

lemma place_lane_block_parts:
  obtains put where "adder block put"
    "place_lane_block order block cohesion fd =
      (case on_state put fd of (i, fd1) \<Rightarrow> (i, remember_lane_row (fst order) (snd order) i fd1))"
proof -
  have "adder block (case (a, cohesion) of
            (Some a, Some g) \<Rightarrow> insert_block_before_with_cohesion a block g
          | (Some a, None) \<Rightarrow> insert_block_before a block
          | (None, Some g) \<Rightarrow> push_block_with_cohesion block g
          | (None, None) \<Rightarrow> push_block block)" for a
    by (cases a; cases cohesion) (simp_all add: adders)
  from that [OF this] show thesis unfolding place_lane_block_def Let_def by blast
qed

lemma place_lane_block_calm: "calm_feed fd (snd (place_lane_block order block cohesion fd))"
proof -
  obtain put where w: "adder block put"
    "place_lane_block order block cohesion fd =
      (case on_state put fd of (i, fd1) \<Rightarrow> (i, remember_lane_row (fst order) (snd order) i fd1))"
    by (rule place_lane_block_parts)
  have "calm_feed fd (snd (on_state put fd))" by (rule calm_added [OF w(1)])
  then show ?thesis
    unfolding w(2) by (auto split: prod.split intro!: calm_intro)
qed

lemmas place_lane_block_calm_after [calm_intro] = place_lane_block_calm [THEN calm_after]

lemma place_lane_block_new:
  assumes "scroll_wf (fd_state fd)" "place_lane_block order block cohesion fd = (i, fd')"
  shows "i = ss_next_id (fd_state fd)" "message_text (fd_state fd') i = block_text block"
    "ss_next_id (fd_state fd') = Suc i"
    "fd_stream_entries fd' = fd_stream_entries fd" "fd_content_entries fd' = fd_content_entries fd"
    "fd_lane_streams fd' = fd_lane_streams fd"
    "message_text (fd_state fd') = (message_text (fd_state fd))(i := block_text block)"
proof -
  obtain put where w: "adder block put"
    "place_lane_block order block cohesion fd =
      (case on_state put fd of (i, fd1) \<Rightarrow> (i, remember_lane_row (fst order) (snd order) i fd1))"
    by (rule place_lane_block_parts)
  note new = adds_block_new [OF w(1) [unfolded adder_def, rule_format] assms(1)]
  from assms(2) w(2) have "i = fst (put (fd_state fd))"
    "fd' = remember_lane_row (fst order) (snd order) i (fd\<lparr>fd_state := snd (put (fd_state fd))\<rparr>)"
    by (auto simp: on_state_def split: prod.splits)
  with new show "i = ss_next_id (fd_state fd)" "message_text (fd_state fd') i = block_text block"
    "ss_next_id (fd_state fd') = Suc i"
    "fd_stream_entries fd' = fd_stream_entries fd" "fd_content_entries fd' = fd_content_entries fd"
    "fd_lane_streams fd' = fd_lane_streams fd"
    "message_text (fd_state fd') = (message_text (fd_state fd))(i := block_text block)"
    by (simp_all add: remember_lane_row_def)
qed


text \<open>Splitting a sequence of operations.\<close>

lemma calm_prod: "calm_feed fd (snd p) \<Longrightarrow> (\<And>a fd1. calm_feed fd fd1 \<Longrightarrow> p = (a, fd1) \<Longrightarrow> calm_feed fd (k a fd1)) \<Longrightarrow>
    calm_feed fd (case p of (a, fd1) \<Rightarrow> k a fd1)"
  by (cases p) simp

lemma status_binding_calm:
  assumes "adder block f" "block_text block = None"
  shows "calm_feed fd (case on_state f fd of (entry, fd1) \<Rightarrow>
    write_binding sid (\<lambda>b. b\<lparr>bd_status_entry_id := entry, bd_status_cleared := x\<rparr>)
      (remember_lane_row t n entry (edit_state (set_entry_running entry True) fd1)))"
proof (cases "scroll_wf (fd_state fd)")
  case True
  let ?i = "fst (f (fd_state fd))" and ?fd1 = "snd (on_state f fd)"
  let ?fd2 = "remember_lane_row t n ?i (edit_state (set_entry_running ?i True) ?fd1)"
  note new = adds_block_new [OF assms(1) [unfolded adder_def, rule_format] True]
  have run: "calm_scroll (fd_state ?fd1) (set_entry_running ?i True (fd_state ?fd1))" by (rule running_calm)
  have "fd_state ?fd2 = set_entry_running ?i True (snd (f (fd_state fd)))"
    by (simp add: remember_lane_row_def edit_state_def on_state_snd)
  moreover have "?i < ss_next_id (snd (f (fd_state fd)))" using new(1,2) by simp
  ultimately have fresh: "?i < ss_next_id (fd_state ?fd2)" "message_text (fd_state ?fd2) ?i = None"
    using run new(3,4) assms(2) by (auto simp: calm_scroll_def on_state_snd)
  have "calm_feed ?fd2 (write_binding sid (\<lambda>b. b\<lparr>bd_status_entry_id := ?i, bd_status_cleared := x\<rparr>) ?fd2)"
    using fresh by (intro calm_binding) (auto simp: same_binding_def binding_ok_def rows_ok_def dest!: spec [of _ sid])
  moreover have "calm_feed fd ?fd2"
    by (intro calm_intro calm_added [OF assms(1)])
  ultimately have "calm_feed fd (write_binding sid (\<lambda>b. b\<lparr>bd_status_entry_id := ?i, bd_status_cleared := x\<rparr>) ?fd2)"
    by (rule calm_after)
  then show ?thesis by (cases "f (fd_state fd)") (simp add: on_state_def)
next
  case False
  then show ?thesis by (simp add: calm_except_def rows_ok_def)
qed

lemma clear_live_status_calm: "calm_feed fd (clear_live_status sid fd)"
proof (cases "fd_stream_entries fd sid")
  case (Some b)
  let ?fd1 = "write_binding sid (\<lambda>b. b\<lparr>bd_status_cleared := True\<rparr>) fd"
  have "calm_feed ?fd1 (draw (remove_entry (bd_status_entry_id b)) ?fd1)" if "rows_ok fd"
  proof -
    have "message_text (fd_state ?fd1) (bd_status_entry_id b) = None"
      using that Some by (auto simp: rows_ok_def binding_ok_def write_binding_def dest!: spec [of _ sid])
    then show ?thesis unfolding draw_def on_state_snd by (rule calm_state [OF remove_entry_calm])
  qed
  then have "calm_feed fd (draw (remove_entry (bd_status_entry_id b)) ?fd1)" if "rows_ok fd"
    using that calm_trans [OF calm_presented(1)] by blast
  then have "calm_feed fd (draw (remove_entry (bd_status_entry_id b)) ?fd1)"
    unfolding calm_except_def by blast
  with Some show ?thesis by (auto simp: clear_live_status_def intro!: calm_intro)
qed (simp add: clear_live_status_def)

lemmas clear_live_status_calm_after [calm_intro] = clear_live_status_calm [THEN calm_after]

lemma live_status_text [simp]: "block_text (live_status_block env speaker label elapsed tick) = None"
  "block_text (speaker_header_block env speaker stamp) = None" "block_text (cancelled_header_block env speaker) = None"
  "block_text (back_reference_block env prompt_at) = None"
  by (simp_all add: live_status_block_def speaker_header_block_def cancelled_header_block_def back_reference_block_def)

lemma write_live_status_calm:
  assumes "block_text block = None" shows "calm_feed fd (write_live_status sid block fd)"
proof (cases "fd_stream_entries fd sid")
  case (Some b)
  have "calm_feed fd (draw (replace_room_status (bd_status_entry_id b) block) fd)"
    by (rule calm_draw) (rule replace_calm)
  with Some status_binding_calm [OF adders(2) assms] show ?thesis
    by (simp add: write_live_status_def)
qed (simp add: write_live_status_def)

lemma write_steps_block_calm: "calm_feed fd (write_steps_block sid block fd)"
proof (cases "fd_stream_entries fd sid")
  case (Some b)
  have "calm_feed fd (draw (replace_room_steps i block) fd)" for i
    by (rule calm_draw) (rule replace_calm)
  moreover have "calm_feed fd (case on_state (insert_block_before_with_cohesion (bd_entry_id b) (StepsBlock block) (bd_cohesion_group b)) fd of
      (i, fd1) \<Rightarrow> write_binding sid (\<lambda>b. b\<lparr>bd_steps_entry_id := Some i\<rparr>)
         (remember_lane_row (bd_turn_id b) (bd_roster_index b) i fd1))"
    by (rule calm_prod [OF calm_block(4)]) (intro calm_intro)
  ultimately show ?thesis using Some by (auto simp: write_steps_block_def split: option.split)
qed (simp add: write_steps_block_def)

lemmas write_steps_block_calm_after [calm_intro] = write_steps_block_calm [THEN calm_after]

lemma steps_calm:
  "calm_feed fd (sync_lane_steps l speaker fd)" "calm_feed fd (fold_lane_steps env l stamp fd)"
proof -
  show "calm_feed fd (sync_lane_steps l speaker fd)"
    by (auto simp: sync_lane_steps_def Let_def intro!: calm_intro split: option.splits)
  show "calm_feed fd (fold_lane_steps env l stamp fd)"
    by (auto simp: fold_lane_steps_def Let_def intro!: calm_intro split: option.splits)
qed

lemmas steps_calm_after [calm_intro] = steps_calm [THEN calm_after]

lemma live_status_calm:
  "calm_feed fd fd1 \<Longrightarrow> calm_feed fd (write_live_status sid (live_status_block env speaker label elapsed t) fd1)"
  by (rule calm_trans, assumption, rule write_live_status_calm) simp

lemma sync_lane_activity_quiet:
  assumes "sync_lane_activity env lane_id r tick fd = Ok fd'" shows "calm_feed fd fd'"
proof (cases "fd_lane_streams fd lane_id")
  case (Some sid)
  show ?thesis
  proof (cases "fd_stream_entries fd sid")
    case None
    with assms Some show ?thesis by (auto simp: sync_lane_activity_def)
  next
    case (Some b)
    with assms \<open>fd_lane_streams fd lane_id = Some sid\<close> obtain latest cancelling label elapsed t fd2 where
      fd2: "fd2 = (let fd1 = write_binding sid (\<lambda>b. b\<lparr>bd_activity_label := latest\<rparr>) fd in
         if (bd_completed b \<or> bd_text b \<noteq> []) \<and> \<not> cancelling then clear_live_status sid fd1
         else write_live_status sid (live_status_block env (bd_speaker b) label elapsed t) fd1)" and
      fd': "fd' = (case lane r lane_id of None \<Rightarrow> fd2 | Some l \<Rightarrow> sync_lane_steps l (bd_speaker b) fd2)"
      unfolding sync_lane_activity_def Let_def by auto
    have "calm_feed fd fd2" unfolding fd2 Let_def by (auto intro!: calm_intro live_status_calm)
    then show ?thesis unfolding fd' by (auto intro!: calm_intro split: option.split)
  qed
qed (use assms in \<open>simp add: sync_lane_activity_def\<close>)

subsection \<open>Notices, relocation and the end of a lane\<close>

lemma drawn_row_calm [calm_intro]:
  "calm_feed fd0 fd \<Longrightarrow> calm_feed fd0 (push_runtime_failure env m fd)"
  "calm_feed fd0 fd \<Longrightarrow> calm_feed fd0 (push_host_exit m fd)"
  "calm_feed fd0 fd \<Longrightarrow> calm_feed fd0 (push_local_notice_row m fd)"
  "calm_feed fd0 fd \<Longrightarrow> calm_feed fd0 (push_backend_failure env failure fd)"
  "calm_feed fd0 fd \<Longrightarrow> calm_feed fd0 (push_room_notice notice fd)"
  by (simp_all add: push_runtime_failure_def push_host_exit_def push_local_notice_row_def push_backend_failure_def
      push_room_notice_def Let_def calm_block_after)

lemma push_hop_row_calm: "calm_feed fd (push_hop_row env h fd)"
proof -
  have "calm_feed fd (fd\<lparr>fd_hop_entries := hs\<rparr>)" for hs by (rule calm_fields) simp_all
  then show ?thesis by (auto simp: push_hop_row_def Let_def intro!: calm_intro)
qed

lemma ensure_back_reference_calm: "calm_feed fd (ensure_back_reference env m prompt_at fd)"
proof -
  have groups: "calm_feed fd0 fd1 \<Longrightarrow> calm_feed fd0 (fd1\<lparr>fd_answer_groups := gs\<rparr>)" for fd0 fd1 gs
    by (erule calm_trans) (rule calm_fields, simp_all)
  show ?thesis
    unfolding ensure_back_reference_def Let_def
    by (auto intro!: calm_prod calm_block groups calm_intro split: option.split)
qed

lemma relocate_if_displaced_calm: "calm_feed fd (relocate_if_displaced env r t m q fd)"
proof -
  have blocks: "calm_feed fd0 fd1 \<Longrightarrow> calm_feed fd0 (fd1\<lparr>fd_turn_blocks := bs\<rparr>)" for fd0 fd1 bs
    by (erule calm_trans) (rule calm_fields, simp_all)
  have move: "calm_feed fd1 (snd (on_state (move_group_to_end is) fd1))" for fd1 "is"
    unfolding on_state_snd by (rule calm_state [OF move_group_calm])
  let ?fd1 = "ensure_back_reference env m (map_option tr_occurred_at
      (List.find (\<lambda>entry. tr_author entry = AuthorOperator \<and> tr_turn_id entry = t) (transcript r))) fd"
  have "calm_feed fd (snd (on_state (move_group_to_end (ordered_block_ids t ?fd1)) ?fd1))"
    by (rule calm_trans [OF ensure_back_reference_calm move])
  then show ?thesis
    by (cases "on_state (move_group_to_end (ordered_block_ids t ?fd1)) ?fd1")
      (auto simp: relocate_if_displaced_def Let_def intro!: blocks)
qed

lemma mark_stream_cancelled_calm: "calm_feed fd (mark_stream_cancelled env sid fd)"
proof (cases "fd_stream_entries fd sid")
  case (Some b)
  let ?fd1 = "draw (replace_room_status (bd_header_entry_id b) (cancelled_header_block env (bd_speaker b))) fd"
  have 1: "calm_feed fd ?fd1"
    unfolding draw_def on_state_snd by (rule calm_state [OF replace_calm(1)])
  have "calm_feed fd (draw (replace_agent_message (bd_entry_id b) (MessageBlock (bd_text b) ShadeFaint)) ?fd1)" if ok: "rows_ok fd"
  proof -
    have "rows_ok ?fd1" using 1 ok by (simp add: calm_except_def)
    moreover have "fd_stream_entries ?fd1 = fd_stream_entries fd" by (simp add: draw_def on_state_snd)
    ultimately have "message_text (fd_state ?fd1) (bd_entry_id b) = Some (bd_text b)"
      using Some by (auto simp: rows_ok_def binding_ok_def dest!: spec [of _ sid])
    from calm_state [OF replace_calm(3) [OF this], of ShadeFaint] show ?thesis
      using calm_trans [OF 1] by (simp add: draw_def on_state_snd)
  qed
  then have "calm_feed fd (draw (replace_agent_message (bd_entry_id b) (MessageBlock (bd_text b) ShadeFaint)) ?fd1)"
    unfolding calm_except_def by blast
  with Some show ?thesis by (simp add: mark_stream_cancelled_def)
qed (simp add: mark_stream_cancelled_def)

lemma calm_except_after: "calm_feed fd1 fd2 \<Longrightarrow> calm_except S fd fd1 \<Longrightarrow> calm_except S fd fd2"
  using calm_except_trans [of S fd fd1 "{}" fd2] by simp

lemma settle_streamed_lane_calm: "calm_except {sid} fd (settle_streamed_lane env l sid fd)"
proof -
  let ?fd1 = "fold_lane_steps env l (ln_terminal_at l) fd"
  let ?fd2 = "case fd_stream_entries ?fd1 sid of None \<Rightarrow> ?fd1
    | Some b \<Rightarrow> if bd_completed b then ?fd1
        else edit_state (finish_running (bd_entry_id b)) (write_binding sid (\<lambda>b. b\<lparr>bd_completed := True\<rparr>) ?fd1)"
  have 1: "calm_except {sid} fd ?fd1" by (rule calm_except_mono) (rule steps_calm)
  have "calm_except {sid} fd (write_binding sid (\<lambda>b. b\<lparr>bd_completed := True\<rparr>) ?fd1)"
    using calm_except_trans [OF 1 calm_completed [of sid]] by simp
  then have "calm_except {sid} fd (edit_state (finish_running i) (write_binding sid (\<lambda>b. b\<lparr>bd_completed := True\<rparr>) ?fd1))" for i
    by (rule calm_except_after [OF calm_running(2)])
  with 1 have "calm_except {sid} fd ?fd2" by (simp split: option.split)
  then have 3: "calm_except {sid} fd (clear_live_status sid ?fd2)"
    by (rule calm_except_after [OF clear_live_status_calm])
  then have "calm_except {sid} fd (mark_stream_cancelled env sid (clear_live_status sid ?fd2))"
    by (rule calm_except_after [OF mark_stream_cancelled_calm])
  with 3 show ?thesis by (simp add: settle_streamed_lane_def Let_def)
qed

lemma finish_lane_calm: "calm_except {sid. fd_lane_streams fd (ln_id l) = Some sid} fd (finish_lane env l fd)"
proof -
  let ?S = "{sid. fd_lane_streams fd (ln_id l) = Some sid}"
  let ?fd1 = "fd\<lparr>fd_terminal_lanes := insert (ln_id l) (fd_terminal_lanes fd)\<rparr>"
  let ?fd2 = "case fd_lane_streams ?fd1 (ln_id l) of Some sid \<Rightarrow> settle_streamed_lane env l sid ?fd1
    | None \<Rightarrow> if ln_phase l = Cancelled
        then snd (place_lane_block (order_of l) (cancelled_header_block env (speaker_of_agent (ln_agent l))) None ?fd1)
        else ?fd1"
  have 1: "calm_feed fd ?fd1" by (rule calm_fields) simp_all
  have "calm_except ?S fd ?fd2"
  proof (cases "fd_lane_streams fd (ln_id l)")
    case None
    have "calm_except ?S fd (snd (place_lane_block (order_of l) b None ?fd1))" for b
      by (rule calm_except_mono) (intro calm_intro 1)
    with None calm_except_mono [OF 1] show ?thesis by simp
  next
    case (Some sid)
    then have "?S = {sid}" by auto
    with Some calm_except_trans [OF calm_except_mono [OF 1, of "{sid}"] settle_streamed_lane_calm [of sid ?fd1 env l]]
    show ?thesis by simp
  qed
  moreover have "calm_except ?S fd (push_lane_outcome env l outcome detail fd2)" if "calm_except ?S fd fd2" for outcome detail fd2
    unfolding push_lane_outcome_def Let_def by (rule calm_except_after [OF place_lane_block_calm that])
  ultimately show ?thesis by (simp add: finish_lane_def Let_def)
qed

lemma refresh_live_status_calm: "refresh_live_status env lane_ids r tick fd = Ok fd' \<Longrightarrow> calm_feed fd fd'"
proof (induction lane_ids arbitrary: fd)
  case (Cons lane_id lane_ids)
  from Cons.prems obtain fd1 where "fd1 = fd \<or> sync_lane_activity env lane_id r tick fd = Ok fd1"
      and rest: "refresh_live_status env lane_ids r tick fd1 = Ok fd'"
    by (auto split: if_splits)
  then have "calm_feed fd fd1" using sync_lane_activity_quiet by auto
  then show ?case by (rule calm_trans) (rule Cons.IH [OF rest])
qed simp

end
