(* ===== verification/Feed_Mirror.thy ===== *)
theory Feed_Mirror
  imports Feed_Calm
begin

section \<open>The feed mirrors the room\<close>

text \<open>
  The operations that do write messages, each with what it writes, and the invariant they serve: the
  feed's messages are the room's transcript and its open streams, word for word.
\<close>

abbreviation said :: "scrollback \<Rightarrow> nat \<Rightarrow> string option" where
  "said fd \<equiv> message_text (fd_state fd)"

abbreviation fresh_from :: "scrollback \<Rightarrow> nat" where
  "fresh_from fd \<equiv> ss_next_id (fd_state fd)"

lemma rows_okD:
  assumes "rows_ok fd"
  shows "scroll_wf (fd_state fd)" "fd_stream_entries fd sid = Some b \<Longrightarrow> binding_ok (fd_state fd) b"
    "fd_stream_entries fd sid = Some b \<Longrightarrow> said fd (bd_entry_id b) = Some (bd_text b)"
    "fd_stream_entries fd sid = Some b \<Longrightarrow> bd_entry_id b < fresh_from fd"
proof -
  show wf: "scroll_wf (fd_state fd)" using assms by (simp add: rows_ok_def)
  show ok: "fd_stream_entries fd sid = Some b \<Longrightarrow> binding_ok (fd_state fd) b"
    using assms by (auto simp: rows_ok_def dest!: spec [of _ sid])
  then show said: "fd_stream_entries fd sid = Some b \<Longrightarrow> said fd (bd_entry_id b) = Some (bd_text b)"
    by (simp add: binding_ok_def)
  then show "fd_stream_entries fd sid = Some b \<Longrightarrow> bd_entry_id b < fresh_from fd"
    using message_text_below [OF wf] by blast
qed

lemma calmD:
  assumes "calm_except S fd fd'" "rows_ok fd"
  shows "rows_ok fd'" "fresh_from fd \<le> fresh_from fd'" "i < fresh_from fd \<Longrightarrow> said fd' i = said fd i"
    "said fd i = Some body \<Longrightarrow> said fd' i = Some body"
    "fd_content_entries fd' = fd_content_entries fd" "fd_lane_streams fd' = fd_lane_streams fd"
    "rel_option (same_binding (sid \<in> S)) (fd_stream_entries fd sid) (fd_stream_entries fd' sid)"
  using assms message_text_below [OF rows_okD(1) [OF assms(2)], of i body] by (auto simp: calm_except_def)

lemma block_text_Some: "block_text block = Some body \<longleftrightarrow> (\<exists>c. block = MessageBlock body c)"
  by (cases block) auto

subsection \<open>Opening a stream\<close>

lemma edit_fields [simp]:
  "fd_stream_entries (edit_state f fd) = fd_stream_entries fd" "fd_content_entries (edit_state f fd) = fd_content_entries fd"
  "fd_lane_streams (edit_state f fd) = fd_lane_streams fd" "fd_state (edit_state f fd) = f (fd_state fd)"
  by (simp_all add: edit_state_def)

lemma set_running_next [simp]: "ss_next_id (set_entry_running i b s) = ss_next_id s"
  by (simp add: set_entry_running_def split: option.split)

lemma set_running_text [simp]: "message_text (set_entry_running i b s) = message_text s"
  by (auto simp: fun_eq_iff set_entry_running_def message_text_def get_by_id_def update_row_def map_of_update
      split: option.split bind_split)

lemma start_stream_opens:
  assumes ok: "rows_ok fd" and new: "fd_stream_entries fd sid = None" and fd': "fd' = start_stream env sid l fd"
  obtains b where "rows_ok fd'" "fresh_from fd \<le> fresh_from fd'" "\<And>i. i < fresh_from fd \<Longrightarrow> said fd' i = said fd i"
    "fd_content_entries fd' = fd_content_entries fd" "fd_lane_streams fd' = (fd_lane_streams fd)(ln_id l \<mapsto> sid)"
    "fd_stream_entries fd' = (fd_stream_entries fd)(sid \<mapsto> b)" "bd_text b = []" "\<not> bd_completed b"
    "fresh_from fd \<le> bd_entry_id b" "bd_entry_id b < fresh_from fd'"
proof -
  let ?order = "order_of l" and ?speaker = "speaker_of_agent (ln_agent l)"
  let ?g = "fst (allocate_cohesion_group fd)" and ?fd1 = "snd (allocate_cohesion_group fd)"
  obtain h fd2 where p2: "place_lane_block ?order (speaker_header_block env ?speaker None) (Some ?g) ?fd1 = (h, fd2)" by fastforce
  obtain e fd3 where p3: "place_lane_block ?order (MessageBlock [] (speaker_color ?speaker)) (Some ?g) fd2 = (e, fd3)" by fastforce
  let ?fd4 = "edit_state (set_entry_running e True) fd3"
  obtain st fd5 where p5: "place_lane_block ?order (live_status_block env ?speaker ''working'' (Some 0) 0) (Some ?g) ?fd4 = (st, fd5)"
    by fastforce
  let ?fd6 = "edit_state (set_entry_running st True) fd5"
  have calm: "calm_feed fd ?fd1" "calm_feed ?fd1 fd2" "calm_feed fd2 fd3" "calm_feed fd3 ?fd4" "calm_feed ?fd4 fd5" "calm_feed fd5 ?fd6"
    using place_lane_block_calm [of ?fd1] place_lane_block_calm [of fd2] place_lane_block_calm [of ?fd4]
    by (simp_all add: calm_books calm_running p2 p3 p5 split: prod.splits) (metis p2 p3 p5 snd_conv)+
  note ok1 = calmD(1) [OF calm(1) ok]
  note ok2 = calmD(1) [OF calm(2) ok1]
  note ok3 = calmD(1) [OF calm(3) ok2]
  note ok4 = calmD(1) [OF calm(4) ok3]
  note ok5 = calmD(1) [OF calm(5) ok4]
  note ok6 = calmD(1) [OF calm(6) ok5]
  note n2 = place_lane_block_new [OF rows_okD(1) [OF ok1] p2]
    and n3 = place_lane_block_new [OF rows_okD(1) [OF ok2] p3]
    and n5 = place_lane_block_new [OF rows_okD(1) [OF ok4] p5]
  have grp: "fd_stream_entries ?fd1 = fd_stream_entries fd" "fd_content_entries ?fd1 = fd_content_entries fd"
    "fd_lane_streams ?fd1 = fd_lane_streams fd" "fd_state ?fd1 = fd_state fd"
    by (simp_all add: allocate_cohesion_group_def)
  let ?b = "\<lparr>bd_header_entry_id = h, bd_entry_id = e, bd_status_entry_id = st, bd_cohesion_group = ?g, bd_text = [],
      bd_completed = False, bd_status_cleared = False, bd_speaker = ?speaker, bd_activity_label = None,
      bd_steps_entry_id = None, bd_steps_folded = False, bd_turn_id = ln_turn_id l, bd_roster_index = snd ?order\<rparr>"
  have fd'_eq: "fd' = ?fd6\<lparr>fd_stream_entries := (fd_stream_entries ?fd6)(sid \<mapsto> ?b),
      fd_lane_streams := (fd_lane_streams ?fd6)(ln_id l \<mapsto> sid), fd_lane_speakers := (fd_lane_speakers ?fd6)(ln_id l \<mapsto> ?speaker)\<rparr>"
    unfolding fd' start_stream_def Let_def using new p2 p3 p5 by (auto simp: allocate_cohesion_group_def)
  have ids: "h = fresh_from fd" "e = Suc h" "st = Suc e" "fresh_from ?fd6 = Suc st"
    using n2 n3 n5 grp by simp_all
  have body: "said ?fd6 = (said fd)(h := None, e := Some [], st := None)"
    using n2(7) n3(7) n5(7) grp by simp
  have "binding_ok (fd_state ?fd6) ?b" using body ids by (simp add: binding_ok_def)
  then have "rows_ok fd'" using ok6 by (simp add: rows_ok_def fd'_eq del: speaker_of_agent.simps)
  then show thesis
    by (rule that [of ?b]) (use body ids n2 n3 n5 grp in \<open>simp_all add: fd'_eq\<close>)
qed

subsection \<open>Writing into a stream\<close>

definition entries_apart :: "scrollback \<Rightarrow> bool" where
  "entries_apart fd \<longleftrightarrow>
     (\<forall>sid sid' b b'. fd_stream_entries fd sid = Some b \<longrightarrow> fd_stream_entries fd sid' = Some b' \<longrightarrow>
        bd_entry_id b = bd_entry_id b' \<longrightarrow> sid = sid')"

lemma rewrite_rows_ok:
  assumes ok: "rows_ok fd" "entries_apart fd" and b: "fd_stream_entries fd sid = Some b"
    and s': "scroll_wf (fd_state fd')" "fresh_from fd' = fresh_from fd" "said fd' = (said fd)(bd_entry_id b \<mapsto> body)"
    and b': "fd_stream_entries fd' = (fd_stream_entries fd)(sid \<mapsto> b')" "bd_entry_id b' = bd_entry_id b"
      "bd_text b' = body" "bd_status_entry_id b' = bd_status_entry_id b"
  shows "rows_ok fd'" "entries_apart fd'"
proof -
  have other: "binding_ok (fd_state fd') c" if "fd_stream_entries fd t = Some c" "t \<noteq> sid" for t c
  proof -
    have "bd_entry_id c \<noteq> bd_entry_id b" using ok(2) that b by (auto simp: entries_apart_def)
    moreover have "bd_status_entry_id c \<noteq> bd_entry_id b"
      using rows_okD(2) [OF ok(1) that(1)] rows_okD(3) [OF ok(1) b] by (auto simp: binding_ok_def)
    ultimately show ?thesis
      using rows_okD(2) [OF ok(1) that(1)] s' by (simp add: binding_ok_def)
  qed
  have "bd_status_entry_id b \<noteq> bd_entry_id b"
    using rows_okD(2) [OF ok(1) b] by (auto simp: binding_ok_def)
  then have "binding_ok (fd_state fd') b'"
    using rows_okD(2) [OF ok(1) b] s' b' by (simp add: binding_ok_def)
  with other s'(1) b'(1) show "rows_ok fd'" by (auto simp: rows_ok_def pred_option_def split: option.splits if_splits)
  show "entries_apart fd'"
    using ok(2) b b'(1,2) unfolding entries_apart_def by (metis fun_upd_apply option.inject)
qed

lemma chunk_text_row:
  assumes "message_text s i = Some body"
  shows "fst (push_chunk_to_agent i new s)"
    "message_text (snd (push_chunk_to_agent i new s)) = (message_text s)(i \<mapsto> body @ new)"
    "ss_next_id (snd (push_chunk_to_agent i new s)) = ss_next_id s"
    "scroll_wf (snd (push_chunk_to_agent i new s)) = scroll_wf s"
proof -
  from assms obtain row c where row: "get_by_id s i = Some row" "row_block row = MessageBlock body c"
    by (auto simp: message_text_def bind_eq_Some_conv block_text_Some)
  then have p: "push_chunk_to_agent i new s = (True, update_row i (\<lambda>row. row\<lparr>row_block := MessageBlock (body @ new) c\<rparr>) s)"
    by (simp add: push_chunk_to_agent_def)
  from row show "fst (push_chunk_to_agent i new s)"
    "message_text (snd (push_chunk_to_agent i new s)) = (message_text s)(i \<mapsto> body @ new)"
    "ss_next_id (snd (push_chunk_to_agent i new s)) = ss_next_id s"
    "scroll_wf (snd (push_chunk_to_agent i new s)) = scroll_wf s"
    by (auto simp: p fun_eq_iff message_text_def split: bind_split)
qed

lemma replaced_text_row:
  assumes "message_text s i = Some body"
  shows "message_text (snd (replace_agent_message i (MessageBlock new c) s)) = (message_text s)(i \<mapsto> new)"
    "ss_next_id (snd (replace_agent_message i (MessageBlock new c) s)) = ss_next_id s"
    "scroll_wf (snd (replace_agent_message i (MessageBlock new c) s)) = scroll_wf s"
proof -
  from assms obtain row c' where row: "get_by_id s i = Some row" "row_block row = MessageBlock body c'"
    by (auto simp: message_text_def bind_eq_Some_conv block_text_Some)
  then have p: "replace_agent_message i (MessageBlock new c) s = (True, update_row i (\<lambda>row. row\<lparr>row_block := MessageBlock new c\<rparr>) s)"
    by (simp add: replace_agent_message_def)
  from row show "message_text (snd (replace_agent_message i (MessageBlock new c) s)) = (message_text s)(i \<mapsto> new)"
    "ss_next_id (snd (replace_agent_message i (MessageBlock new c) s)) = ss_next_id s"
    "scroll_wf (snd (replace_agent_message i (MessageBlock new c) s)) = scroll_wf s"
    by (auto simp: p fun_eq_iff message_text_def split: bind_split)
qed

lemma push_stream_chunk_writes:
  assumes ok: "rows_ok fd" and b: "fd_stream_entries fd sid = Some b" "\<not> bd_completed b"
    and fd': "fd' = snd (push_stream_chunk sid new fd)"
  shows "fst (push_stream_chunk sid new fd)" "said fd' = (said fd)(bd_entry_id b \<mapsto> bd_text b @ new)"
    "fresh_from fd' = fresh_from fd" "scroll_wf (fd_state fd')"
    "fd_stream_entries fd' = (fd_stream_entries fd)(sid \<mapsto> b\<lparr>bd_text := bd_text b @ new\<rparr>)"
    "fd_content_entries fd' = fd_content_entries fd" "fd_lane_streams fd' = fd_lane_streams fd"
proof -
  note row = chunk_text_row [OF rows_okD(3) [OF ok b(1)], of new]
  let ?fd1 = "fd\<lparr>fd_state := snd (push_chunk_to_agent (bd_entry_id b) new (fd_state fd))\<rparr>"
  have p: "push_stream_chunk sid new fd = (True, write_binding sid (\<lambda>b. b\<lparr>bd_text := bd_text b @ new\<rparr>) ?fd1)"
    using b row(1) by (cases "push_chunk_to_agent (bd_entry_id b) new (fd_state fd)") (simp add: push_stream_chunk_def on_state_def)
  show "fst (push_stream_chunk sid new fd)" "said fd' = (said fd)(bd_entry_id b \<mapsto> bd_text b @ new)"
    "fresh_from fd' = fresh_from fd" "scroll_wf (fd_state fd')"
    "fd_stream_entries fd' = (fd_stream_entries fd)(sid \<mapsto> b\<lparr>bd_text := bd_text b @ new\<rparr>)"
    "fd_content_entries fd' = fd_content_entries fd" "fd_lane_streams fd' = fd_lane_streams fd"
    using row rows_okD(1) [OF ok] b by (simp_all add: fd' p write_binding_def)
qed

subsection \<open>Committing a stream\<close>

lemma entries_apart_calm:
  assumes "entries_apart fd" "calm_except S fd fd'" "rows_ok fd" shows "entries_apart fd'"
proof -
  have "\<exists>c. fd_stream_entries fd sid = Some c \<and> bd_entry_id c = bd_entry_id b" if "fd_stream_entries fd' sid = Some b" for sid b
    using calmD(7) [OF assms(2,3), of sid] that by (cases "fd_stream_entries fd sid") (auto simp: same_binding_def)
  with assms(1) show ?thesis unfolding entries_apart_def by metis
qed

lemma commit_text_writes:
  assumes ok: "rows_ok fd" and b: "fd_stream_entries fd sid = Some b" "\<not> bd_completed b"
    and fd': "fd' = commit_text sid body fd"
  obtains b' where "fd_stream_entries fd' = (fd_stream_entries fd)(sid \<mapsto> b')" "bd_entry_id b' = bd_entry_id b"
    "bd_status_entry_id b' = bd_status_entry_id b" "said fd' = (said fd)(bd_entry_id b \<mapsto> body)"
    "fresh_from fd' = fresh_from fd" "scroll_wf (fd_state fd')"
    "fd_content_entries fd' = fd_content_entries fd" "fd_lane_streams fd' = fd_lane_streams fd"
proof (cases "take (length (bd_text b)) body = bd_text b")
  case True
  then have body: "bd_text b @ drop (length (bd_text b)) body = body" by (metis append_take_drop_id)
  from True b have "fd' = snd (push_stream_chunk sid (drop (length (bd_text b)) body) fd)"
    by (simp add: fd' commit_text_def)
  from push_stream_chunk_writes [OF ok b this, unfolded body] show thesis
    by (intro that [of "b\<lparr>bd_text := body\<rparr>"]) simp_all
next
  case False
  then have "bd_text b \<noteq> body" by auto
  with False b have "fd' = draw (replace_agent_message (bd_entry_id b) (MessageBlock body (speaker_color (bd_speaker b)))) fd"
    by (simp add: fd' commit_text_def)
  with replaced_text_row [OF rows_okD(3) [OF ok b(1)]] rows_okD(1) [OF ok] b show thesis
    by (intro that [of b]) (auto simp: draw_def on_state_snd)
qed

lemma commit_bound_writes:
  assumes ok: "rows_ok fd" "entries_apart fd" and b: "fd_stream_entries fd sid = Some b" "\<not> bd_completed b"
    and fd': "fd' = commit_bound env sid mid body stamp (commit_text sid body fd)"
  obtains b' where "rows_ok fd'" "entries_apart fd'" "fresh_from fd \<le> fresh_from fd'"
    "\<And>i. i < fresh_from fd \<Longrightarrow> said fd' i = ((said fd)(bd_entry_id b \<mapsto> body)) i"
    "fd_content_entries fd' = (fd_content_entries fd)(mid \<mapsto> bd_entry_id b)" "fd_lane_streams fd' = fd_lane_streams fd"
    "fd_stream_entries fd' sid = Some b'" "bd_entry_id b' = bd_entry_id b" "bd_text b' = body"
    "\<And>t. t \<noteq> sid \<Longrightarrow> rel_option (same_binding False) (fd_stream_entries fd t) (fd_stream_entries fd' t)"
proof -
  let ?fd1 = "commit_text sid body fd"
  obtain b1 where c: "fd_stream_entries ?fd1 = (fd_stream_entries fd)(sid \<mapsto> b1)" "bd_entry_id b1 = bd_entry_id b"
    "bd_status_entry_id b1 = bd_status_entry_id b" "said ?fd1 = (said fd)(bd_entry_id b \<mapsto> body)"
    "fresh_from ?fd1 = fresh_from fd" "scroll_wf (fd_state ?fd1)"
    "fd_content_entries ?fd1 = fd_content_entries fd" "fd_lane_streams ?fd1 = fd_lane_streams fd"
    by (rule commit_text_writes [OF ok(1) b refl])
  let ?b2 = "b1\<lparr>bd_text := body, bd_completed := True\<rparr>"
  let ?fd2 = "write_binding sid (\<lambda>b. b\<lparr>bd_text := body, bd_completed := True\<rparr>) ?fd1"
  have e2: "fd_stream_entries ?fd2 = (fd_stream_entries fd)(sid \<mapsto> ?b2)" by (simp add: write_binding_def c)
  have s2: "fd_state ?fd2 = fd_state ?fd1" by (simp add: write_binding_def)
  have ok2: "rows_ok ?fd2" "entries_apart ?fd2"
    using rewrite_rows_ok [OF ok b(1), of ?fd2 body ?b2] c e2 s2 by simp_all
  let ?fd3 = "edit_state (finish_running (bd_entry_id b1)) ?fd2"
  have calm3: "calm_feed ?fd2 ?fd3" by (rule calm_running)
  note ok3 = calmD(1) [OF calm3 ok2(1)] entries_apart_calm [OF ok2(2) calm3 ok2(1)]
  let ?fd4 = "remember_content mid (bd_entry_id b1) (bd_speaker b1) ?fd3"
  have ok4: "rows_ok ?fd4" "entries_apart ?fd4"
    using ok3 by (simp_all add: rows_ok_def entries_apart_def remember_content_def)
  let ?fd5 = "case stamp of None \<Rightarrow> ?fd4 | Some stamp \<Rightarrow> draw (replace_room_status (bd_header_entry_id b1)
      (speaker_header_block env (bd_speaker b1) (Some stamp))) ?fd4"
  have "calm_feed ?fd4 (draw (replace_room_status i block) ?fd4)" for i block
    unfolding draw_def on_state_snd by (rule calm_state [OF replace_calm(1)])
  then have "calm_feed ?fd4 ?fd5" by (simp split: option.split)
  then have "calm_feed ?fd4 (clear_live_status sid ?fd5)" by (intro calm_intro)
  moreover have "fd' = clear_live_status sid ?fd5 \<or>
      (\<exists>g is i. fd' = remember_answer_group mid g is i (clear_live_status sid ?fd5))"
    using b(1) c(1) by (auto simp: fd' commit_bound_def Let_def split: option.split)
  ultimately have calm: "calm_feed ?fd4 fd'" using calm_books_after(5) by blast
  note d = calmD [OF calm ok4(1)] and d3 = calmD [OF calm3 ok2(1)]
  have e4: "fd_stream_entries ?fd4 = (fd_stream_entries fd)(sid \<mapsto> ?b2)"
    by (simp add: remember_content_def e2)
  have s4: "fd_state ?fd4 = fd_state ?fd3" "fd_content_entries ?fd4 = (fd_content_entries fd)(mid \<mapsto> bd_entry_id b)"
    "fd_lane_streams ?fd4 = fd_lane_streams fd"
    by (simp_all add: remember_content_def c write_binding_def)
  obtain b' where b': "fd_stream_entries fd' sid = Some b'" "same_binding False ?b2 b'"
    using d(7) [of sid] by (auto simp: e4 option_rel_Some1)
  show thesis
  proof (rule that [of b'])
    show "rows_ok fd'" "entries_apart fd'" using d(1) entries_apart_calm [OF ok4(2) calm ok4(1)] by simp_all
    show "fresh_from fd \<le> fresh_from fd'" using d(2) d3(2) s4(1) s2 c(5) by simp
    show "said fd' i = ((said fd)(bd_entry_id b \<mapsto> body)) i" if "i < fresh_from fd" for i
      using d(3) [of i] d3(3) [of i] d3(2) that s4(1) s2 c(4,5) by simp
    show "fd_content_entries fd' = (fd_content_entries fd)(mid \<mapsto> bd_entry_id b)" "fd_lane_streams fd' = fd_lane_streams fd"
      using d(5,6) s4 by simp_all
    show "fd_stream_entries fd' sid = Some b'" "bd_entry_id b' = bd_entry_id b" "bd_text b' = body"
      using b' c(2) by (simp_all add: same_binding_def)
    show "rel_option (same_binding False) (fd_stream_entries fd t) (fd_stream_entries fd' t)" if "t \<noteq> sid" for t
      using d(7) [of t] that by (simp add: e4)
  qed
qed

subsection \<open>A message with no stream\<close>

text \<open>Both paths that draw a whole message add one message row and let the content map point to it.\<close>

definition writes_message :: "string \<Rightarrow> string \<Rightarrow> scrollback \<Rightarrow> scrollback \<Rightarrow> bool" where
  "writes_message mid body fd fd' \<longleftrightarrow>
     rows_ok fd' \<and> fresh_from fd \<le> fresh_from fd' \<and> (\<forall>i < fresh_from fd. said fd' i = said fd i)
     \<and> (\<exists>i \<ge> fresh_from fd. fd_content_entries fd' = (fd_content_entries fd)(mid \<mapsto> i) \<and> said fd' i = Some body)
     \<and> fd_lane_streams fd' = fd_lane_streams fd
     \<and> (\<forall>sid. rel_option (same_binding False) (fd_stream_entries fd sid) (fd_stream_entries fd' sid))"

lemma writes_messageI:
  assumes ok: "rows_ok fd" and before: "calm_feed fd fd1" and i: "fresh_from fd \<le> i" "said fd1 i = Some body"
    and after: "calm_feed (remember_content mid i speaker fd1) fd'"
  shows "writes_message mid body fd fd'"
proof -
  let ?fd2 = "remember_content mid i speaker fd1"
  note b = calmD [OF before ok]
  have ok2: "rows_ok ?fd2" using b(1) by (simp add: rows_ok_def remember_content_def)
  have same: "fd_state ?fd2 = fd_state fd1" "fd_stream_entries ?fd2 = fd_stream_entries fd1"
    "fd_lane_streams ?fd2 = fd_lane_streams fd1" "fd_content_entries ?fd2 = (fd_content_entries fd1)(mid \<mapsto> i)"
    by (simp_all add: remember_content_def)
  note a = calmD [OF after ok2, unfolded same]
  have "rel_option (same_binding False) (fd_stream_entries fd sid) (fd_stream_entries fd' sid)" for sid
  proof -
    have "rel_option (same_binding False OO same_binding False) (fd_stream_entries fd sid) (fd_stream_entries fd' sid)"
      unfolding option.rel_compp using a(7) [of sid] b(7) [of sid] by auto
    then show ?thesis
      by (rule option.rel_mono_strong) (auto simp: same_binding_def)
  qed
  moreover have "fresh_from fd \<le> fresh_from fd'" using a(2) b(2) by simp
  moreover have "said fd' j = said fd j" if "j < fresh_from fd" for j
    using a(3) [of j] b(3) [of j] b(2) that by simp
  moreover have "said fd' i = Some body" using a(4) i(2) by blast
  ultimately show ?thesis
    using a(1,5,6) b(5,6) i(1) unfolding writes_message_def by auto
qed

text \<open>An operation that adds the message row \<open>i\<close> and leaves the rest alone.\<close>

definition adds_message :: "string \<Rightarrow> scrollback \<Rightarrow> nat \<Rightarrow> scrollback \<Rightarrow> bool" where
  "adds_message body fd i fd' \<longleftrightarrow> calm_feed fd fd' \<and> (rows_ok fd \<longrightarrow> fresh_from fd \<le> i \<and> said fd' i = Some body)"

lemma adds_messageI:
  assumes "calm_feed fd fd1" "adder block f" "block_text block = Some body" "on_state f fd1 = (i, fd')"
  shows "adds_message body fd i fd'"
proof -
  have parts: "i = fst (f (fd_state fd1))" "fd' = fd1\<lparr>fd_state := snd (f (fd_state fd1))\<rparr>"
    using on_state_snd [of f fd1] assms(4) by simp_all
  have "calm_feed fd fd'"
    using calm_trans [OF assms(1) calm_added [OF assms(2)]] by (simp add: assms(4))
  moreover have "fresh_from fd \<le> i \<and> said fd' i = Some body" if ok: "rows_ok fd"
    using adds_block_new [OF assms(2) [unfolded adder_def, rule_format] rows_okD(1) [OF calmD(1) [OF assms(1) ok]]]
      calmD(2) [OF assms(1) ok] assms(3) by (simp add: parts)
  ultimately show ?thesis by (simp add: adds_message_def)
qed

lemma place_adds_message:
  assumes "calm_feed fd fd1" "block_text block = Some body" "place_lane_block order block cohesion fd1 = (i, fd')"
  shows "adds_message body fd i fd'"
proof -
  have "calm_feed fd fd'" using place_lane_block_calm_after [OF assms(1)] by (metis assms(3) snd_conv)
  moreover have "fresh_from fd \<le> i \<and> said fd' i = Some body" if ok: "rows_ok fd"
    using place_lane_block_new [OF rows_okD(1) [OF calmD(1) [OF assms(1) ok]] assms(3)] calmD(2) [OF assms(1) ok] assms(2)
    by simp
  ultimately show ?thesis by (simp add: adds_message_def)
qed

lemma entry_message_text [simp]: "block_text (entry_message entry speaker) = Some (tr_text entry)"
  by (simp add: entry_message_def)

lemma place_entry_adds:
  assumes c: "calm_feed fd0 fd" and p: "place_entry env l entry speaker g fd = (ids, i, fd')"
  shows "adds_message (tr_text entry) fd0 i fd'"
proof -
  obtain h fd1 where p1: "place_lane_block (order_of l) (speaker_header_block env speaker (Some (tr_occurred_at entry))) (Some g) fd
      = (h, fd1)" by fastforce
  have c1: "calm_feed fd0 fd1" using place_lane_block_calm_after [OF c] by (metis p1 snd_conv)
  show ?thesis
  proof (cases "finalized_steps_block env l speaker (Some (tr_occurred_at entry))")
    case None
    then have "place_lane_block (order_of l) (entry_message entry speaker) (Some g) fd1 = (i, fd')"
      using p p1 by (simp add: place_entry_def split: prod.splits)
    from place_adds_message [OF c1 _ this] show ?thesis by simp
  next
    case (Some block)
    obtain j fd2 where p2: "place_lane_block (order_of l) (StepsBlock block) (Some g) fd1 = (j, fd2)" by fastforce
    have c2: "calm_feed fd0 fd2" using place_lane_block_calm_after [OF c1] by (metis p2 snd_conv)
    have "place_lane_block (order_of l) (entry_message entry speaker) (Some g) fd2 = (i, fd')"
      using p p1 p2 Some by (simp add: place_entry_def split: prod.splits)
    from place_adds_message [OF c2 _ this] show ?thesis by simp
  qed
qed

lemma append_entry_adds:
  assumes c: "calm_feed fd0 fd" and p: "append_entry env entry speaker g fd = (ids, i, fd')"
  shows "adds_message (tr_text entry) fd0 i fd'"
proof -
  obtain h fd1 where p1: "on_state (push_block_with_cohesion (speaker_header_block env speaker (Some (tr_occurred_at entry))) g) fd
      = (h, fd1)" by fastforce
  have c1: "calm_feed fd0 fd1" using calm_block_after(2) [OF c] by (metis p1 snd_conv)
  have "on_state (push_block_with_cohesion (entry_message entry speaker) g) fd1 = (i, fd')"
    using p p1 by (simp add: append_entry_def split: prod.splits)
  from adds_messageI [OF c1 adders(2) _ this] show ?thesis by simp
qed

lemma push_transcript_entry_writes:
  assumes ok: "rows_ok fd" and drawn: "push_transcript_entry env entry r fd = Ok fd'"
  shows "writes_message (tr_message_id entry) (tr_text entry) fd fd'"
proof -
  let ?speaker = "case tr_author entry of AuthorOperator \<Rightarrow> SpeakerOperator | AuthorAgent agent \<Rightarrow> speaker_of_agent agent"
  let ?g = "fst (allocate_cohesion_group fd)" and ?fd1 = "snd (allocate_cohesion_group fd)"
  obtain found where found: "lane_for_message r (tr_message_id entry) = Ok found"
    using drawn by (auto simp: push_transcript_entry_def)
  obtain ids i fd2 where rows: "(case found of Some l \<Rightarrow> place_entry env l entry ?speaker ?g ?fd1
      | None \<Rightarrow> append_entry env entry ?speaker ?g ?fd1) = (ids, i, fd2)" by (metis prod.exhaust)
  then have "adds_message (tr_text entry) fd i fd2"
    using place_entry_adds [OF calm_books(4)] append_entry_adds [OF calm_books(4)] by (cases found) auto
  then have two: "calm_feed fd fd2" "fresh_from fd \<le> i" "said fd2 i = Some (tr_text entry)"
    using ok by (simp_all add: adds_message_def)
  let ?fd3 = "remember_content (tr_message_id entry) i ?speaker fd2"
  have "fd' = (case tr_author entry of AuthorAgent _ \<Rightarrow> remember_answer_group (tr_message_id entry) ?g ids (hd ids) ?fd3
      | AuthorOperator \<Rightarrow> ?fd3)"
    using drawn found rows unfolding push_transcript_entry_def Let_def
    by (cases "allocate_cohesion_group fd"; cases found; cases "tr_author entry") auto
  then have "calm_feed ?fd3 fd'" using calm_books(5) by (simp split: transcript_author.split)
  then show ?thesis by (rule writes_messageI [OF ok two])
qed

lemma commit_unbound_writes:
  assumes ok: "rows_ok fd" shows "writes_message mid body fd (commit_unbound env k mid body r stamp fd)"
proof -
  let ?g = "fst (allocate_cohesion_group fd)" and ?fd1 = "snd (allocate_cohesion_group fd)"
  define fd' where "fd' = commit_unbound env k mid body r stamp fd"
  have calm1: "calm_feed fd ?fd1" by (rule calm_books)
  define speaker where "speaker = (case Option.bind (List.find (\<lambda>entry. tr_message_id entry = mid) (transcript r))
      (\<lambda>entry. case tr_author entry of AuthorAgent agent \<Rightarrow> Some (speaker_of_agent agent) | AuthorOperator \<Rightarrow> None) of
      Some s \<Rightarrow> s | None \<Rightarrow> (case fd_lane_speakers fd k of Some s \<Rightarrow> s | None \<Rightarrow> SpeakerOperator))"
  obtain h i fd4 where p: "push_agent_message env body speaker stamp ?g ?fd1 = ((h, i), fd4)"
    by (metis prod.exhaust)
  have fd': "fd' = remember_answer_group mid ?g [h, i] h (remember_content mid i speaker fd4)
      \<or> (\<exists>t n. fd' = remember_lane_row t n i (remember_lane_row t n h
           (remember_answer_group mid ?g [h, i] h (remember_content mid i speaker fd4))))"
    using p unfolding fd'_def commit_unbound_def Let_def speaker_def [symmetric]
    by (cases "allocate_cohesion_group fd"; cases "lane r k") auto
  let ?fd2 = "snd (on_state (push_block_with_cohesion (speaker_header_block env speaker stamp) ?g) ?fd1)"
  let ?p = "push_block_with_cohesion (MessageBlock body (speaker_color speaker)) ?g (fd_state ?fd2)"
  have c2: "calm_feed fd ?fd2" by (intro calm_intro calm1)
  have parts: "i = fst ?p" "fd4 = snd (on_state (push_block_with_cohesion (MessageBlock body (speaker_color speaker)) ?g) ?fd2)"
    using p by (auto simp: push_agent_message_def on_state_def split: prod.splits)
  have c4: "calm_feed fd fd4" unfolding parts(2) by (intro calm_intro c2)
  note new = adds_block_new [OF block_adds_block(2) [of "MessageBlock body (speaker_color speaker)" "fd_state ?fd2" ?g]
      rows_okD(1) [OF calmD(1) [OF c2 ok]]]
  have "calm_feed (remember_content mid i speaker fd4) fd'"
    using fd' by (auto intro!: calm_intro)
  then show ?thesis
    using new calmD(2) [OF c2 ok] unfolding fd'_def [symmetric]
    by (intro writes_messageI [OF ok c4]) (simp_all add: parts on_state_snd)
qed

end
