(* ===== verification/Feed_Live.thy ===== *)
theory Feed_Live
  imports Feed_Mirror
begin

section \<open>The feed of a live room\<close>

text \<open>
  The invariant \<open>mirrors\<close> and that every event keeps it: what each kind of event does to the
  reducer's streams and transcript, next to what it writes into the feed.
\<close>

abbreviation live_lane :: "lane_state \<Rightarrow> bool" where
  "live_lane l \<equiv> ln_phase l = Running \<or> ln_phase l = Cancelling"

definition bound_stream :: "reducer \<Rightarrow> scrollback \<Rightarrow> string \<Rightarrow> stream_binding \<Rightarrow> bool" where
  "bound_stream r fd sid b \<longleftrightarrow>
     (\<exists>s l. streams r sid = Some s \<and> lanes r (st_lane_id s) = Some l \<and> st_text s = bd_text b
        \<and> (live_lane l \<longrightarrow> \<not> bd_completed b \<and> bd_entry_id b \<notin> ran (fd_content_entries fd)))"

definition bound_lane :: "reducer \<Rightarrow> scrollback \<Rightarrow> string \<Rightarrow> string \<Rightarrow> bool" where
  "bound_lane r fd k sid \<longleftrightarrow>
     fd_stream_entries fd sid \<noteq> None \<and> (\<exists>l. lanes r k = Some l \<and> ln_stream_id l = Some sid)"

definition feed_sound :: "reducer \<Rightarrow> scrollback \<Rightarrow> bool" where
  "feed_sound r fd \<longleftrightarrow>
     rows_ok fd \<and> entries_apart fd \<and> ran (fd_content_entries fd) \<subseteq> {..<fresh_from fd}
     \<and> inj_on (fd_content_entries fd) (dom (fd_content_entries fd))
     \<and> (\<forall>sid b. fd_stream_entries fd sid = Some b \<longrightarrow> bound_stream r fd sid b)
     \<and> (\<forall>k sid. fd_lane_streams fd k = Some sid \<longrightarrow> bound_lane r fd k sid)"

definition shows_streams :: "reducer \<Rightarrow> scrollback \<Rightarrow> bool" where
  "shows_streams r fd \<longleftrightarrow>
     (\<forall>k l sid. lanes r k = Some l \<longrightarrow> ln_stream_id l = Some sid \<longrightarrow> replay_stream_for_lane l \<longrightarrow>
        fd_lane_streams fd k = Some sid)"

definition shows_entry :: "scrollback \<Rightarrow> transcript_entry \<Rightarrow> bool" where
  "shows_entry fd entry \<longleftrightarrow>
     (\<exists>i. fd_content_entries fd (tr_message_id entry) = Some i \<and> said fd i = Some (tr_text entry))"

definition mirrors :: "reducer \<Rightarrow> scrollback \<Rightarrow> bool" where
  "mirrors r fd \<longleftrightarrow> feed_sound r fd \<and> shows_streams r fd \<and> list_all (shows_entry fd) (transcript r)"

lemma feed_soundD:
  assumes "feed_sound r fd"
  shows "rows_ok fd" "entries_apart fd" "ran (fd_content_entries fd) \<subseteq> {..<fresh_from fd}"
    "fd_stream_entries fd sid = Some b \<Longrightarrow> bound_stream r fd sid b"
    "fd_lane_streams fd k = Some sid \<Longrightarrow> bound_lane r fd k sid"
    "fd_content_entries fd mid = Some i \<Longrightarrow> i < fresh_from fd"
    "inj_on (fd_content_entries fd) (dom (fd_content_entries fd))"
  using assms by (auto simp: feed_sound_def ran_def)

subsection \<open>Calm operations\<close>

lemma feed_sound_calm:
  assumes sound: "feed_sound r fd" and calm: "calm_except S fd fd'"
    and ended: "\<And>sid s l. sid \<in> S \<Longrightarrow> streams r sid = Some s \<Longrightarrow> lanes r (st_lane_id s) = Some l \<Longrightarrow> \<not> live_lane l"
  shows "feed_sound r fd'"
proof -
  note s = feed_soundD [OF sound] and c = calmD [OF calm feed_soundD(1) [OF sound]]
  have "bound_stream r fd' sid b" if "fd_stream_entries fd' sid = Some b" for sid b
  proof -
    from c(7) [of sid] that obtain b0 where b0: "fd_stream_entries fd sid = Some b0" "same_binding (sid \<in> S) b0 b"
      by (auto simp: option_rel_Some2)
    with s(4) [OF b0(1)] ended [of sid] show ?thesis
      unfolding bound_stream_def c(5) same_binding_def by metis
  qed
  moreover have "bound_lane r fd' k sid" if "fd_lane_streams fd' k = Some sid" for k sid
    using s(5) [of k sid] c(7) [of sid] that unfolding bound_lane_def c(6)
    by (cases "fd_stream_entries fd sid"; cases "fd_stream_entries fd' sid") auto
  moreover have "ran (fd_content_entries fd') \<subseteq> {..<fresh_from fd'}" using s(3) c(2,5) by fastforce
  moreover have "inj_on (fd_content_entries fd') (dom (fd_content_entries fd'))" using s(7) by (simp add: c(5))
  ultimately show ?thesis
    using c(1) entries_apart_calm [OF s(2) calm s(1)] by (simp add: feed_sound_def)
qed

lemma shows_entry_calm: "shows_entry fd e \<Longrightarrow> calm_except S fd fd' \<Longrightarrow> rows_ok fd \<Longrightarrow> shows_entry fd' e"
  using calmD(4,5) by (fastforce simp: shows_entry_def)

lemma mirrors_calm:
  assumes m: "mirrors r fd" and calm: "calm_except S fd fd'"
    and ended: "\<And>sid s l. sid \<in> S \<Longrightarrow> streams r sid = Some s \<Longrightarrow> lanes r (st_lane_id s) = Some l \<Longrightarrow> \<not> live_lane l"
  shows "mirrors r fd'"
proof -
  have ok: "rows_ok fd" using m by (simp add: mirrors_def feed_sound_def)
  have "list_all (shows_entry fd') (transcript r)"
    using m shows_entry_calm [OF _ calm ok] by (auto simp: mirrors_def list_all_iff)
  with m feed_sound_calm [OF _ calm ended] show ?thesis
    using calmD(6) [OF calm ok] by (simp add: mirrors_def shows_streams_def)
qed

lemma mirrors_calm_feed: "mirrors r fd \<Longrightarrow> calm_feed fd fd' \<Longrightarrow> mirrors r fd'"
  by (erule mirrors_calm) auto

subsection \<open>Events that move lanes only\<close>

definition lane_follows :: "lane_state option \<Rightarrow> lane_state option \<Rightarrow> bool" where
  "lane_follows old new \<longleftrightarrow>
     (case old of
        None \<Rightarrow> pred_option (\<lambda>l'. ln_stream_id l' = None) new
      | Some l \<Rightarrow> (\<exists>l'. new = Some l' \<and> ln_stream_id l' = ln_stream_id l \<and> (live_lane l' \<longrightarrow> live_lane l)
          \<and> (replay_stream_for_lane l' \<longrightarrow> ln_stream_id l \<noteq> None \<longrightarrow> replay_stream_for_lane l)))"

definition quiet :: "reducer \<Rightarrow> reducer \<Rightarrow> bool" where
  "quiet r r' \<longleftrightarrow> streams r' = streams r \<and> transcript r' = transcript r \<and> (\<forall>k. lane_follows (lanes r k) (lanes r' k))"

lemma lane_follows_refl [simp]: "lane_follows l l"
  by (simp add: lane_follows_def split: option.split)

lemma quiet_same: "streams r' = streams r \<Longrightarrow> transcript r' = transcript r \<Longrightarrow> lanes r' = lanes r \<Longrightarrow> quiet r r'"
  by (simp add: quiet_def)

lemma bound_stream_follows:
  assumes "bound_stream r fd sid b" "streams r' sid = streams r sid" "\<And>k. lane_follows (lanes r k) (lanes r' k)"
  shows "bound_stream r' fd sid b"
proof -
  from assms(1) obtain s l where s: "streams r sid = Some s" "lanes r (st_lane_id s) = Some l" "st_text s = bd_text b"
      "live_lane l \<longrightarrow> \<not> bd_completed b \<and> bd_entry_id b \<notin> ran (fd_content_entries fd)"
    by (auto simp: bound_stream_def)
  with assms(3) [of "st_lane_id s"] obtain l' where "lanes r' (st_lane_id s) = Some l'" "live_lane l' \<longrightarrow> live_lane l"
    by (auto simp: lane_follows_def)
  with s assms(2) show ?thesis unfolding bound_stream_def by metis
qed

lemma bound_lane_follows:
  assumes "bound_lane r fd k sid" "lane_follows (lanes r k) (lanes r' k)" shows "bound_lane r' fd k sid"
  using assms by (auto simp: bound_lane_def lane_follows_def)

lemma shows_streams_follows:
  assumes "shows_streams r fd" "\<And>k. lane_follows (lanes r k) (lanes r' k)" shows "shows_streams r' fd"
  unfolding shows_streams_def
proof (intro allI impI)
  fix k l' sid assume l': "lanes r' k = Some l'" "ln_stream_id l' = Some sid" "replay_stream_for_lane l'"
  with assms(2) [of k] obtain l where "lanes r k = Some l" "ln_stream_id l = Some sid" "replay_stream_for_lane l"
    by (cases "lanes r k") (auto simp: lane_follows_def)
  with assms(1) show "fd_lane_streams fd k = Some sid" by (auto simp: shows_streams_def)
qed

lemma mirrors_quiet: "mirrors r fd \<Longrightarrow> quiet r r' \<Longrightarrow> mirrors r' fd"
  using bound_stream_follows bound_lane_follows shows_streams_follows
  unfolding mirrors_def feed_sound_def quiet_def by metis

lemma quiet_lane:
  assumes "lanes r k = Some l" "ln_stream_id l' = ln_stream_id l" "live_lane l' \<longrightarrow> live_lane l"
    and "replay_stream_for_lane l' \<longrightarrow> ln_stream_id l \<noteq> None \<longrightarrow> replay_stream_for_lane l"
  shows "quiet r (store_lane k l' r)"
  using assms by (auto simp: quiet_def store_lane_def lane_follows_def split: option.split)

lemma handlers_quiet:
  "resolve_route e r = (Ok d, r') \<Longrightarrow> quiet r r'" "pause_room r = (Ok d, r') \<Longrightarrow> quiet r r'"
  "resume_room r = (Ok d, r') \<Longrightarrow> quiet r r'" "request_permission e r = (Ok d, r') \<Longrightarrow> quiet r r'"
  "resolve_permission e r = (Ok d, r') \<Longrightarrow> quiet r r'" "record_hop e disposition r = (Ok d, r') \<Longrightarrow> quiet r r'"
  "complete_turn e r = (Ok d, r') \<Longrightarrow> quiet r r'" "record_backend_failure e r = (Ok d, r') \<Longrightarrow> quiet r r'"
  "record_room_notice e r = (Ok d, r') \<Longrightarrow> quiet r r'" "record_agent_mode e r = (Ok d, r') \<Longrightarrow> quiet r r'"
  unfolding resolve_route_def pause_room_def resume_room_def request_permission_def resolve_permission_def record_hop_def
    complete_turn_def record_backend_failure_def record_room_notice_def record_agent_mode_def Let_def
  by (elim handler_OkE; auto simp: writes Let_def intro!: quiet_same elim!: handler_OkE split: if_splits option.splits)+

lemma record_agent_status_quiet: "record_agent_status e r = (Ok d, r') \<Longrightarrow> quiet r r'"
  unfolding record_agent_status_def Let_def
  by (elim handler_OkE) (auto intro!: quiet_same split: prod.splits)

lemma queue_lane_quiet: "queue_lane e r = (Ok d, r') \<Longrightarrow> quiet r r'"
  unfolding queue_lane_def
  by (elim handler_OkE) (auto simp: quiet_def push_lane_def lane_follows_def split: option.split)

lemma lane_handlers_quiet:
  "record_activity e r = (Ok d, r') \<Longrightarrow> quiet r r'" "begin_cancellation e r = (Ok d, r') \<Longrightarrow> quiet r r'"
  "complete_lane e r = (Ok d, r') \<Longrightarrow> quiet r r'"
  unfolding record_activity_def begin_cancellation_def complete_lane_def
  by (elim handler_OkE; auto simp: replay_stream_for_lane_def match_lane_Ok intro!: quiet_lane elim!: handler_OkE split: if_splits)+

lemma ending_quiet:
  assumes "lanes_ok r"
  shows "cancel_lane e r = (Ok d, r') \<Longrightarrow> quiet r r'" "fail_lane e r = (Ok d, r') \<Longrightarrow> quiet r r'"
proof -
  have wf: "ln_phase l = Queued \<Longrightarrow> ln_stream_id l = None" if "lanes r k = Some l" for k l
    using assms that by (auto simp: lanes_ok_def lane_wf_def)
  show "cancel_lane e r = (Ok d, r') \<Longrightarrow> quiet r r'" "fail_lane e r = (Ok d, r') \<Longrightarrow> quiet r r'"
    unfolding cancel_lane_def fail_lane_def using wf
    by (elim handler_OkE; auto simp: replay_stream_for_lane_def intro!: quiet_lane split: if_splits)+
qed

end
