(* ===== verification/Feed_Writes.thy ===== *)
theory Feed_Writes
  imports Feed_Live
begin

section \<open>Events that write into the feed\<close>

text \<open>
  The three ways a message gets into the feed (a whole message, an opened stream, a chunk of one) and
  the commit of a stream, each with what it makes of \<open>feed_sound\<close>.
\<close>

text \<open>Soundness looks at four maps of the feed and at what its message rows say.\<close>

lemma feed_soundI:
  assumes "rows_ok fd" "entries_apart fd" "ran (fd_content_entries fd) \<subseteq> {..<fresh_from fd}"
    and "inj_on (fd_content_entries fd) (dom (fd_content_entries fd))"
    and "\<And>sid b. fd_stream_entries fd sid = Some b \<Longrightarrow> bound_stream r fd sid b"
    and "\<And>k sid. fd_lane_streams fd k = Some sid \<Longrightarrow> bound_lane r fd k sid"
  shows "feed_sound r fd"
  using assms by (simp add: feed_sound_def)

lemma bound_stream_rebind:
  assumes "bound_stream r fd sid b" "bd_text b' = bd_text b" "bd_entry_id b' = bd_entry_id b"
    and "bd_completed b' \<longrightarrow> bd_completed b" "bd_entry_id b \<in> ran (fd_content_entries fd') \<longrightarrow> bd_entry_id b \<in> ran (fd_content_entries fd)"
  shows "bound_stream r fd' sid b'"
  using assms unfolding bound_stream_def by metis

lemma inj_on_fresh_value:
  "inj_on m (dom m) \<Longrightarrow> i \<notin> ran m \<Longrightarrow> inj_on (m(k \<mapsto> i)) (dom (m(k \<mapsto> i)))"
  by (auto simp: inj_on_def ran_def dom_def)

lemma ran_upd_subset: "ran (m(k \<mapsto> v)) \<subseteq> insert v (ran m)"
  by (auto simp: ran_def)

subsection \<open>A whole message\<close>

lemma feed_sound_message:
  assumes sound: "feed_sound r fd" and w: "writes_message mid body fd fd'"
  shows "feed_sound r fd'"
proof -
  note s = feed_soundD [OF sound]
  from w obtain i where i: "fresh_from fd \<le> i" "fd_content_entries fd' = (fd_content_entries fd)(mid \<mapsto> i)" "said fd' i = Some body"
      and w': "rows_ok fd'" "fresh_from fd \<le> fresh_from fd'" "fd_lane_streams fd' = fd_lane_streams fd"
        "\<And>sid. rel_option (same_binding False) (fd_stream_entries fd sid) (fd_stream_entries fd' sid)"
    by (auto simp: writes_message_def)
  have prior: "\<exists>b0. fd_stream_entries fd sid = Some b0 \<and> same_binding False b0 b" if "fd_stream_entries fd' sid = Some b" for sid b
    using w'(4) [of sid] that by (auto simp: option_rel_Some2)
  show ?thesis
  proof (rule feed_soundI)
    show "rows_ok fd'" by fact
    show "entries_apart fd'"
      using s(2) prior unfolding entries_apart_def same_binding_def by metis
    have "i < fresh_from fd'" using message_text_below [OF rows_okD(1) [OF w'(1)] i(3)] .
    with s(3) w'(2) show "ran (fd_content_entries fd') \<subseteq> {..<fresh_from fd'}"
      unfolding i(2) using ran_upd_subset [of "fd_content_entries fd" mid i] by fastforce
    have "i \<notin> ran (fd_content_entries fd)" using s(3) i(1) by auto
    then show "inj_on (fd_content_entries fd') (dom (fd_content_entries fd'))"
      unfolding i(2) by (rule inj_on_fresh_value [OF s(7)])
    show "bound_stream r fd' sid b" if b: "fd_stream_entries fd' sid = Some b" for sid b
    proof -
      from prior [OF b] obtain b0 where b0: "fd_stream_entries fd sid = Some b0" "same_binding False b0 b" by blast
      have "bd_entry_id b0 < fresh_from fd" using rows_okD(4) [OF s(1) b0(1)] .
      then have "bd_entry_id b0 \<noteq> i" using i(1) by simp
      then show ?thesis
        using b0(2) ran_upd_subset [of "fd_content_entries fd" mid i]
        by (intro bound_stream_rebind [OF s(4) [OF b0(1)]]) (auto simp: same_binding_def i(2))
    qed
    show "bound_lane r fd' k sid" if "fd_lane_streams fd' k = Some sid" for k sid
      using s(5) [of k sid] that w'(4) [of sid] unfolding w'(3) bound_lane_def
      by (cases "fd_stream_entries fd sid"; cases "fd_stream_entries fd' sid") auto
  qed
qed

lemma message_shown:
  assumes "writes_message mid body fd fd'"
  shows "tr_message_id e = mid \<Longrightarrow> tr_text e = body \<Longrightarrow> shows_entry fd' e"
    "feed_sound r fd \<Longrightarrow> shows_entry fd e \<Longrightarrow> tr_message_id e \<noteq> mid \<Longrightarrow> shows_entry fd' e"
proof -
  show "tr_message_id e = mid \<Longrightarrow> tr_text e = body \<Longrightarrow> shows_entry fd' e"
    using assms by (auto simp: writes_message_def shows_entry_def)
  show "feed_sound r fd \<Longrightarrow> shows_entry fd e \<Longrightarrow> tr_message_id e \<noteq> mid \<Longrightarrow> shows_entry fd' e"
    using assms feed_soundD(6) by (fastforce simp: writes_message_def shows_entry_def)
qed

lemma message_streams: "writes_message mid body fd fd' \<Longrightarrow> fd_lane_streams fd' = fd_lane_streams fd"
  by (simp add: writes_message_def)

subsection \<open>A stream that opens\<close>

lemma feed_sound_opens:
  assumes sound: "feed_sound r fd" and new: "fd_stream_entries fd sid = None" "fd_lane_streams fd (ln_id l) = None"
    and s: "streams r sid = Some s" "st_text s = []"
    and l: "lanes r (ln_id l) = Some l" "st_lane_id s = ln_id l" "ln_stream_id l = Some sid"
    and fd': "fd' = start_stream env sid l fd"
  obtains b where "feed_sound r fd'" "fd_lane_streams fd' = (fd_lane_streams fd)(ln_id l \<mapsto> sid)"
    "fd_stream_entries fd' = (fd_stream_entries fd)(sid \<mapsto> b)" "bd_text b = []" "\<not> bd_completed b"
    "bd_entry_id b \<notin> ran (fd_content_entries fd')" "\<And>e. shows_entry fd e \<Longrightarrow> shows_entry fd' e"
proof -
  note d = feed_soundD [OF sound]
  obtain b where b: "rows_ok fd'" "fresh_from fd \<le> fresh_from fd'" "\<And>i. i < fresh_from fd \<Longrightarrow> said fd' i = said fd i"
    "fd_content_entries fd' = fd_content_entries fd" "fd_lane_streams fd' = (fd_lane_streams fd)(ln_id l \<mapsto> sid)"
    "fd_stream_entries fd' = (fd_stream_entries fd)(sid \<mapsto> b)" "bd_text b = []" "\<not> bd_completed b"
    "fresh_from fd \<le> bd_entry_id b" "bd_entry_id b < fresh_from fd'"
    using start_stream_opens [OF d(1) new(1) fd'] by metis
  have fresh: "bd_entry_id b \<notin> ran (fd_content_entries fd')" using d(3) b(4,9) by fastforce
  have "feed_sound r fd'"
  proof (rule feed_soundI)
    show "rows_ok fd'" by fact
    have "bd_entry_id c \<noteq> bd_entry_id b" if "fd_stream_entries fd t = Some c" for t c
      using rows_okD(4) [OF d(1) that] b(9) by simp
    then show "entries_apart fd'"
      using d(2) unfolding entries_apart_def b(6) by (metis fun_upd_apply option.inject)
    show "ran (fd_content_entries fd') \<subseteq> {..<fresh_from fd'}" using d(3) b(2,4) by fastforce
    show "inj_on (fd_content_entries fd') (dom (fd_content_entries fd'))" using d(7) by (simp add: b(4))
    show "bound_stream r fd' t c" if "fd_stream_entries fd' t = Some c" for t c
    proof (cases "t = sid")
      case True
      with that b(6) have "c = b" by simp
      with True s l b(7,8) fresh show ?thesis by (simp add: bound_stream_def)
    next
      case False
      with that b(6) have "fd_stream_entries fd t = Some c" by simp
      from d(4) [OF this] show ?thesis by (rule bound_stream_rebind) (simp_all add: b(4))
    qed
    show "bound_lane r fd' k t" if "fd_lane_streams fd' k = Some t" for k t
      using d(5) [of k t] that l unfolding b(5) by (auto simp: bound_lane_def b(6) split: if_splits)
  qed
  moreover have "shows_entry fd' e" if "shows_entry fd e" for e
    using that d(6) b(3,4) by (auto simp: shows_entry_def)
  ultimately show thesis using b fresh by (intro that [of b])
qed

subsection \<open>A chunk\<close>

lemma feed_sound_chunk:
  assumes sound: "feed_sound r fd" and b: "fd_stream_entries fd sid = Some b" "\<not> bd_completed b"
      "bd_entry_id b \<notin> ran (fd_content_entries fd)"
    and s: "streams r sid = Some s" "st_text s' = st_text s @ body" "st_lane_id s' = st_lane_id s"
    and r': "streams r' = (streams r)(sid \<mapsto> s')" "lanes r' = lanes r"
    and fd': "fd' = snd (push_stream_chunk sid body fd)"
  shows "feed_sound r' fd'" "fst (push_stream_chunk sid body fd)" "fd_lane_streams fd' = fd_lane_streams fd"
    "shows_entry fd e \<Longrightarrow> shows_entry fd' e"
proof -
  note d = feed_soundD [OF sound]
  note w = push_stream_chunk_writes [OF d(1) b(1,2) fd']
  let ?b = "b\<lparr>bd_text := bd_text b @ body\<rparr>"
  show "fst (push_stream_chunk sid body fd)" "fd_lane_streams fd' = fd_lane_streams fd" by (rule w)+
  show "shows_entry fd e \<Longrightarrow> shows_entry fd' e"
    using b(3) unfolding shows_entry_def w(2,6) by (metis fun_upd_apply ranI)
  show "feed_sound r' fd'"
  proof (rule feed_soundI)
    show "rows_ok fd'" "entries_apart fd'"
      using rewrite_rows_ok [OF d(1,2) b(1) w(4,3,2), of ?b] w(5) by simp_all
    show "ran (fd_content_entries fd') \<subseteq> {..<fresh_from fd'}" using d(3) by (simp add: w(3,6))
    show "inj_on (fd_content_entries fd') (dom (fd_content_entries fd'))" using d(7) by (simp add: w(6))
    show "bound_stream r' fd' t c" if "fd_stream_entries fd' t = Some c" for t c
    proof (cases "t = sid")
      case True
      with that w(5) have "c = ?b" by simp
      with True d(4) [OF b(1)] s r' w(6) show ?thesis by (auto simp: bound_stream_def)
    next
      case False
      with that w(5) have "fd_stream_entries fd t = Some c" by simp
      with d(4) [OF this] False r' w(6) show ?thesis by (simp add: bound_stream_def)
    qed
    show "bound_lane r' fd' k t" if "fd_lane_streams fd' k = Some t" for k t
      using d(5) [of k t] that unfolding w(7) by (auto simp: bound_lane_def w(5) r'(2))
  qed
qed

subsection \<open>The commit of a stream\<close>

lemma feed_sound_commit:
  assumes sound: "feed_sound r fd" and b: "fd_stream_entries fd sid = Some b"
    and l: "lanes r k = Some l" "live_lane l" and s: "streams r sid = Some s" "st_lane_id s = k"
    and s': "streams r' = (streams r)(sid \<mapsto> s')" "st_text s' = body" "st_lane_id s' = k"
    and l': "lanes r' = (lanes r)(k \<mapsto> l')" "ln_stream_id l' = ln_stream_id l" "\<not> live_lane l'"
    and fd': "fd' = commit_bound env sid mid body stamp (commit_text sid body fd)"
  shows "feed_sound r' fd'" "fd_lane_streams fd' = fd_lane_streams fd"
    "tr_message_id e = mid \<Longrightarrow> tr_text e = body \<Longrightarrow> shows_entry fd' e"
    "shows_entry fd e \<Longrightarrow> tr_message_id e \<noteq> mid \<Longrightarrow> shows_entry fd' e"
proof -
  note d = feed_soundD [OF sound]
  have live: "\<not> bd_completed b" "bd_entry_id b \<notin> ran (fd_content_entries fd)"
    using d(4) [OF b] l s by (auto simp: bound_stream_def)
  obtain b' where w: "rows_ok fd'" "entries_apart fd'" "fresh_from fd \<le> fresh_from fd'"
    "\<And>i. i < fresh_from fd \<Longrightarrow> said fd' i = ((said fd)(bd_entry_id b \<mapsto> body)) i"
    "fd_content_entries fd' = (fd_content_entries fd)(mid \<mapsto> bd_entry_id b)" "fd_lane_streams fd' = fd_lane_streams fd"
    "fd_stream_entries fd' sid = Some b'" "bd_entry_id b' = bd_entry_id b" "bd_text b' = body"
    "\<And>t. t \<noteq> sid \<Longrightarrow> rel_option (same_binding False) (fd_stream_entries fd t) (fd_stream_entries fd' t)"
    using commit_bound_writes [OF d(1,2) b live(1) fd'] by metis
  have below: "bd_entry_id b < fresh_from fd" using rows_okD(4) [OF d(1) b] .
  show "fd_lane_streams fd' = fd_lane_streams fd" by fact
  show "tr_message_id e = mid \<Longrightarrow> tr_text e = body \<Longrightarrow> shows_entry fd' e"
    using w(4) [OF below] by (simp add: shows_entry_def w(5))
  show "shows_entry fd' e" if e: "shows_entry fd e" "tr_message_id e \<noteq> mid"
  proof -
    from e(1) obtain i where i: "fd_content_entries fd (tr_message_id e) = Some i" "said fd i = Some (tr_text e)"
      by (auto simp: shows_entry_def)
    moreover have "i \<noteq> bd_entry_id b" using live(2) i(1) by (auto simp: ran_def)
    ultimately show ?thesis using w(4) [OF d(6) [OF i(1)]] e(2) by (simp add: shows_entry_def w(5))
  qed
  have bound': "bound_stream r' fd' t c" if c: "fd_stream_entries fd' t = Some c" for t c
  proof (cases "t = sid")
    case True
    with c w(7,9) s' l' show ?thesis by (auto simp: bound_stream_def)
  next
    case False
    with w(10) [OF False] c obtain c0 where c0: "fd_stream_entries fd t = Some c0" "same_binding False c0 c"
      by (auto simp: option_rel_Some2)
    have apart: "bd_entry_id c0 \<noteq> bd_entry_id b" using d(2) c0(1) b False by (auto simp: entries_apart_def)
    from d(4) [OF c0(1)] obtain s0 l0 where s0: "streams r t = Some s0" "lanes r (st_lane_id s0) = Some l0" "st_text s0 = bd_text c0"
        "live_lane l0 \<longrightarrow> \<not> bd_completed c0 \<and> bd_entry_id c0 \<notin> ran (fd_content_entries fd)"
      by (auto simp: bound_stream_def)
    then have "bd_entry_id c0 \<notin> ran (fd_content_entries fd')" if "live_lane l0"
      using that apart ran_upd_subset [of "fd_content_entries fd" mid "bd_entry_id b"] by (auto simp: w(5))
    with s0 c0(2) False s'(1) l'(1,3) show ?thesis
      by (cases "st_lane_id s0 = k") (auto simp: bound_stream_def same_binding_def)
  qed
  show "feed_sound r' fd'"
  proof (rule feed_soundI [OF w(1,2) _ _ bound'])
    show "inj_on (fd_content_entries fd') (dom (fd_content_entries fd'))"
      unfolding w(5) by (rule inj_on_fresh_value [OF d(7) live(2)])
    show "ran (fd_content_entries fd') \<subseteq> {..<fresh_from fd'}"
      using d(3) below w(3) ran_upd_subset [of "fd_content_entries fd" mid "bd_entry_id b"] unfolding w(5) by fastforce
    show "bound_lane r' fd' j t" if "fd_lane_streams fd' j = Some t" for j t
    proof -
      have old: "bound_lane r fd j t" using d(5) [of j t] that by (simp add: w(6))
      then have "fd_stream_entries fd' t \<noteq> None"
        using w(7) w(10) [of t] unfolding bound_lane_def
        by (cases "t = sid"; cases "fd_stream_entries fd t"; cases "fd_stream_entries fd' t") auto
      with old l(1) l'(1,2) show ?thesis by (auto simp: bound_lane_def)
    qed
  qed
qed

end
