(* ===== verification/Feed_Run.thy ===== *)
theory Feed_Run
  imports Feed_Writes
begin

section \<open>Every event keeps the mirror\<close>

text \<open>
  What the handlers that write do to the reducer, and, kind by kind, that the feed follows: the events that
  move lanes only are quiet, the others write what \<^theory_text>\<open>Feed_Writes\<close> says.
\<close>

subsection \<open>What the handlers that write do\<close>

lemma accept_turn_effect:
  assumes "accept_turn e r = (Ok d, r1)"
  obtains entry where "streams r1 = streams r" "lanes r1 = lanes r" "transcript r1 = transcript r @ [entry]"
  using assms by (auto simp: accept_turn_def Let_def push_turn_def push_transcript_def elim!: handler_OkE)

lemma start_lane_effect:
  assumes "start_lane e r = (Ok d, r1)"
  obtains k sid l l' s where "required_payload_string e ''laneId'' = Ok k" "required_payload_string e ''streamId'' = Ok sid"
    "lanes r k = Some l" "ln_phase l = Queued" "streams r sid = None"
    "lanes r1 = (lanes r)(k \<mapsto> l')" "ln_stream_id l' = Some sid" "ln_id l' = ln_id l"
    "streams r1 = (streams r)(sid \<mapsto> s)" "st_text s = []" "st_lane_id s = k" "transcript r1 = transcript r"
  using assms
  by (auto simp: start_lane_def Let_def required_payload_string_Ok reader_Ok match_lane_Ok push_stream_def store_lane_def
      elim!: handler_OkE split: if_splits)

lemma chunk_effect:
  assumes "append_chunk e r = (Ok d, r1)"
  obtains k sid body l s s' where "required_payload_string e ''laneId'' = Ok k" "required_payload_string e ''streamId'' = Ok sid"
    "required_payload_string e ''text'' = Ok body" "lanes r k = Some l" "live_lane l" "ln_stream_id l = Some sid"
    "streams r sid = Some s" "st_lane_id s = k" "st_text s' = st_text s @ body" "st_lane_id s' = st_lane_id s"
    "streams r1 = (streams r)(sid \<mapsto> s')" "lanes r1 = lanes r" "transcript r1 = transcript r"
  using assms unfolding append_chunk_def Let_def
proof (elim handler_OkE, goal_cases)
  case (1 p k sid body stream_seq model chunk_index l s observed)
  then show ?case
    by (intro that [of k sid body l s "s\<lparr>st_model_id := observed, st_text := st_text s @ body,
        st_next_chunk_index := st_next_chunk_index s + 1, st_next_stream_seq := increment_decimal (st_next_stream_seq s)\<rparr>"])
      (auto simp: required_payload_string_Ok reader_Ok match_lane_Ok store_stream_def)
qed

lemma commit_effect:
  assumes "commit_message e r = (Ok d, r1)"
  obtains k mid body l l' entry where "required_payload_string e ''laneId'' = Ok k"
    "required_payload_string e ''messageId'' = Ok mid" "required_payload_string e ''text'' = Ok body"
    "lanes r k = Some l" "ln_phase l = Queued \<or> live_lane l" "lanes r1 = (lanes r)(k \<mapsto> l')"
    "ln_stream_id l' = ln_stream_id l" "ln_phase l' = Committed" "ln_id l' = ln_id l" "transcript r1 = transcript r @ [entry]"
    "tr_message_id entry = mid" "tr_text entry = body"
    "case ln_stream_id l of None \<Rightarrow> streams r1 = streams r
     | Some sid \<Rightarrow> \<exists>s. streams r sid = Some s \<and> streams r1 = (streams r)(sid \<mapsto> s\<lparr>st_text := body\<rparr>)"
  using assms unfolding commit_message_def Let_def
  by (elim handler_OkE) (auto simp: required_payload_string_Ok reader_Ok match_lane_Ok store_stream_def store_lane_def
      push_transcript_def split: option.splits)

subsection \<open>Each of them keeps the mirror\<close>

lemma mirrorsD:
  assumes "mirrors r fd"
  shows "feed_sound r fd" "rows_ok fd" "shows_streams r fd" "entry \<in> set (transcript r) \<Longrightarrow> shows_entry fd entry"
  using assms by (auto simp: mirrors_def feed_sound_def list_all_iff)

lemma feed_sound_same:
  "feed_sound r fd \<Longrightarrow> streams r' = streams r \<Longrightarrow> lanes r' = lanes r \<Longrightarrow> feed_sound r' fd"
  by (simp add: feed_sound_def bound_stream_def bound_lane_def)

text \<open>A new entry has an identifier of its own.\<close>

lemma appended_id:
  assumes "transcript_ok r'" "transcript r' = old @ [entry]" "e \<in> set old" shows "tr_message_id e \<noteq> tr_message_id entry"
proof -
  have "tr_message_id entry \<notin> tr_message_id ` set old" using assms(1,2) by (simp add: transcript_ok_def)
  with imageI [OF assms(3), of tr_message_id] show ?thesis by metis
qed

lemma mirrors_message:
  assumes m: "mirrors r fd" and w: "writes_message (tr_message_id entry) (tr_text entry) fd fd'"
    and r': "feed_sound r' fd" "transcript_ok r'" "transcript r' = transcript r @ [entry]" "shows_streams r' fd"
  shows "mirrors r' fd'"
proof -
  have "shows_entry fd' e" if "e \<in> set (transcript r')" for e
    using that message_shown(1) [OF w] message_shown(2) [OF w mirrorsD(1) [OF m] mirrorsD(4) [OF m]]
      appended_id [OF r'(2,3)] unfolding r'(3) by auto
  moreover have "shows_streams r' fd'"
    using r'(4) unfolding shows_streams_def message_streams [OF w] .
  ultimately show ?thesis
    using feed_sound_message [OF r'(1) w] by (simp add: mirrors_def list_all_iff)
qed

lemma mirrors_accept:
  assumes m: "mirrors r fd" and t: "accept_turn e r = (Ok d, r1)" and ok: "transcript_ok r1"
    and drawn: "push_transcript_entry env (last (transcript r1)) r' fd = Ok fd'"
  shows "mirrors r1 fd'"
proof -
  obtain entry where r1: "streams r1 = streams r" "lanes r1 = lanes r" "transcript r1 = transcript r @ [entry]"
    using accept_turn_effect [OF t] .
  with push_transcript_entry_writes [OF mirrorsD(2) [OF m] drawn] feed_sound_same [OF mirrorsD(1) [OF m]] mirrorsD(3) [OF m]
  show ?thesis by (intro mirrors_message [OF m _ _ ok r1(3)]) (simp_all add: shows_streams_def)
qed

lemma mirrors_start:
  assumes m: "mirrors r fd" and wf: "room_wf r" and t: "start_lane e r = (Ok d, r1)"
    and drawn: "draw_start env e r' fd = Ok fd'" and r': "lanes r' = lanes r1"
  shows "mirrors r1 fd'"
proof -
  note d = feed_soundD [OF mirrorsD(1) [OF m]]
  obtain k sid l l' s where x: "required_payload_string e ''laneId'' = Ok k" "required_payload_string e ''streamId'' = Ok sid"
    "lanes r k = Some l" "ln_phase l = Queued" "streams r sid = None"
    "lanes r1 = (lanes r)(k \<mapsto> l')" "ln_stream_id l' = Some sid" "ln_id l' = ln_id l"
    "streams r1 = (streams r)(sid \<mapsto> s)" "st_text s = []" "st_lane_id s = k" "transcript r1 = transcript r"
    using start_lane_effect [OF t] .
  have none: "ln_stream_id l = None" using room_wfD(2) [OF wf] x(3,4) by (auto simp: lanes_ok_def lane_wf_def)
  have key: "ln_id l' = k" using well_ordered_key [OF tables_okD(1) [OF room_wfD(1) [OF wf]] x(3)] x(8) by simp
  have fd': "fd' = start_stream env sid l' fd"
    using drawn x(1,2,6) r' by (auto simp: draw_start_def lane_def)
  have "bound_stream r1 fd u c" if "fd_stream_entries fd u = Some c" for u c
  proof -
    from d(4) [OF that] obtain s0 l0 where s0: "streams r u = Some s0" "lanes r (st_lane_id s0) = Some l0" "st_text s0 = bd_text c"
        "live_lane l0 \<longrightarrow> \<not> bd_completed c \<and> bd_entry_id c \<notin> ran (fd_content_entries fd)"
      by (auto simp: bound_stream_def)
    moreover have "st_lane_id s0 \<noteq> k"
      using streams_okD(2) [OF room_wfD(5) [OF wf] s0(1)] x(3) none by (auto simp: stream_backed_def)
    ultimately show ?thesis using x(5,6,9) by (auto simp: bound_stream_def)
  qed
  moreover have "bound_lane r1 fd j u" if "fd_lane_streams fd j = Some u" for j u
    using d(5) [OF that] none x(3,6) by (auto simp: bound_lane_def)
  ultimately have sound: "feed_sound r1 fd" using d(1-3,7) by (intro feed_soundI)
  have new: "fd_stream_entries fd sid = None" "fd_lane_streams fd (ln_id l') = None"
    using d(4) [of sid] d(5) [of k] x(3,5) none key
    by (cases "fd_stream_entries fd sid"; cases "fd_lane_streams fd k"; fastforce simp: bound_stream_def bound_lane_def)+
  obtain b where b: "feed_sound r1 fd'" "fd_lane_streams fd' = (fd_lane_streams fd)(ln_id l' \<mapsto> sid)"
    "\<And>e. shows_entry fd e \<Longrightarrow> shows_entry fd' e"
    using feed_sound_opens [OF sound new _ x(10) _ _ x(7) fd'] x(6,9,11) key by (metis fun_upd_same)
  have "shows_streams r1 fd'"
    using mirrorsD(3) [OF m] key unfolding shows_streams_def b(2) x(6) by (auto simp: x(7))
  with b mirrorsD(4) [OF m] show ?thesis by (simp add: mirrors_def list_all_iff x(12))
qed

lemma mirrors_chunk:
  assumes m: "mirrors r fd" and wf: "room_wf r" and t: "append_chunk e r = (Ok d, r1)"
    and drawn: "draw_chunk env e r' fd = Ok fd'"
  shows "mirrors r1 fd'"
proof -
  note b = feed_soundD [OF mirrorsD(1) [OF m]]
  obtain k sid body l s s' where x: "required_payload_string e ''laneId'' = Ok k" "required_payload_string e ''streamId'' = Ok sid"
    "required_payload_string e ''text'' = Ok body" "lanes r k = Some l" "live_lane l" "ln_stream_id l = Some sid"
    "streams r sid = Some s" "st_lane_id s = k" "st_text s' = st_text s @ body" "st_lane_id s' = st_lane_id s"
    "streams r1 = (streams r)(sid \<mapsto> s')" "lanes r1 = lanes r" "transcript r1 = transcript r"
    using chunk_effect [OF t] .
  have "fd_lane_streams fd k = Some sid"
    using mirrorsD(3) [OF m] x(4-6) by (auto simp: shows_streams_def replay_stream_for_lane_def)
  then obtain c where c: "fd_stream_entries fd sid = Some c" using b(5) by (fastforce simp: bound_lane_def)
  have live: "\<not> bd_completed c" "bd_entry_id c \<notin> ran (fd_content_entries fd)"
    using b(4) [OF c] x(4,5,7,8) by (auto simp: bound_stream_def)
  let ?fd1 = "snd (push_stream_chunk sid body fd)"
  note w = feed_sound_chunk [OF mirrorsD(1) [OF m] c live x(7,9,10,11,12) refl]
  have "mirrors r1 ?fd1"
    using w mirrorsD(3,4) [OF m] by (simp add: mirrors_def list_all_iff shows_streams_def x(12,13))
  moreover have "calm_feed ?fd1 fd'"
    using drawn x(1-3) by (cases "push_stream_chunk sid body fd")
      (auto simp: draw_chunk_def sync_event_lane_def split: if_splits intro: sync_lane_activity_quiet)
  ultimately show ?thesis by (rule mirrors_calm_feed)
qed

lemma commit_calm_parts: "calm_feed fd (case lane r k of None \<Rightarrow> fd | Some l \<Rightarrow> fold_lane_steps env l stamp fd)"
  "calm_feed fd (case lane r k of None \<Rightarrow> fd | Some l \<Rightarrow> relocate_if_displaced env r (ln_turn_id l) mid sq fd)"
  by (simp_all add: steps_calm relocate_if_displaced_calm split: option.split)

lemma mirrors_commit:
  assumes m: "mirrors r fd" and wf: "room_wf r" and t: "commit_message e r = (Ok d, r1)" and ok: "transcript_ok r1"
    and drawn: "draw_commit env e r' fd = Ok fd'"
  shows "mirrors r1 fd'"
proof -
  obtain k mid body l l' entry where x: "required_payload_string e ''laneId'' = Ok k"
    "required_payload_string e ''messageId'' = Ok mid" "required_payload_string e ''text'' = Ok body"
    "lanes r k = Some l" "ln_phase l = Queued \<or> live_lane l" "lanes r1 = (lanes r)(k \<mapsto> l')"
    "ln_stream_id l' = ln_stream_id l" "ln_phase l' = Committed" "ln_id l' = ln_id l" "transcript r1 = transcript r @ [entry]"
    "tr_message_id entry = mid" "tr_text entry = body"
    "case ln_stream_id l of None \<Rightarrow> streams r1 = streams r
     | Some sid \<Rightarrow> \<exists>s. streams r sid = Some s \<and> streams r1 = (streams r)(sid \<mapsto> s\<lparr>st_text := body\<rparr>)"
    using commit_effect [OF t] .
  let ?stamp = "Some (ev_occurred_at e)"
  let ?fd1 = "case lane r' k of None \<Rightarrow> fd | Some l \<Rightarrow> fold_lane_steps env l ?stamp fd"
  have m1: "mirrors r ?fd1" using mirrors_calm_feed [OF m commit_calm_parts(1)] .
  note b = feed_soundD [OF mirrorsD(1) [OF m1]]
  have fd': "fd' = commit_row env k mid body r' ?stamp (ev_event_seq e) fd"
    using drawn x(1-3) by (simp add: draw_commit_def)
  have others: "shows_streams r1 ?fd1"
    using mirrorsD(3) [OF m1] unfolding shows_streams_def x(6) by (auto simp: x(8) replay_stream_for_lane_def)
  show ?thesis
  proof (cases "ln_stream_id l")
    case None
    have "fd_lane_streams ?fd1 k = None"
      using b(5) [of k] x(4) None by (cases "fd_lane_streams ?fd1 k") (auto simp: bound_lane_def)
    then have fd'': "fd' = commit_unbound env k mid body r' ?stamp ?fd1" by (simp add: fd' commit_row_def Let_def)
    have "quiet (r\<lparr>transcript := transcript r1\<rparr>) r1"
      using x(4,6-8,13) None by (auto simp: quiet_def lane_follows_def split: option.split)
    moreover have "feed_sound (r\<lparr>transcript := transcript r1\<rparr>) ?fd1"
      by (rule feed_sound_same [OF mirrorsD(1) [OF m1]]) simp_all
    ultimately have "feed_sound r1 ?fd1"
      using bound_stream_follows bound_lane_follows unfolding feed_sound_def quiet_def by metis
    with x(10-12) commit_unbound_writes [OF mirrorsD(2) [OF m1]] ok others show ?thesis
      unfolding fd'' by (intro mirrors_message [OF m1]) simp_all
  next
    case (Some sid)
    have live: "live_lane l"
      using x(5) room_wfD(2) [OF wf] x(4) Some by (auto simp: lanes_ok_def lane_wf_def)
    obtain s where s: "streams r sid = Some s" "streams r1 = (streams r)(sid \<mapsto> s\<lparr>st_text := body\<rparr>)"
      using x(13) Some by auto
    have sk: "st_lane_id s = k" using streams_okD(3) [OF room_wfD(5) [OF wf] x(4) Some] s(1) by auto
    have lane: "fd_lane_streams ?fd1 k = Some sid"
      using mirrorsD(3) [OF m1] x(4) live Some by (auto simp: shows_streams_def replay_stream_for_lane_def)
    then obtain c where c: "fd_stream_entries ?fd1 sid = Some c" using b(5) by (fastforce simp: bound_lane_def)
    have "\<not> bd_completed c" using b(4) [OF c] x(4) live s(1) sk by (auto simp: bound_stream_def)
    then obtain c' where "fd_stream_entries (commit_text sid body ?fd1) = (fd_stream_entries ?fd1)(sid \<mapsto> c')"
      by (rule commit_text_writes [OF b(1) c _ refl])
    then have entries: "fd_stream_entries (commit_text sid body ?fd1) sid \<noteq> None" by simp
    let ?fd2 = "commit_bound env sid mid body ?stamp (commit_text sid body ?fd1)"
    note w = feed_sound_commit [OF mirrorsD(1) [OF m1] c x(4) live s(1) sk s(2) _ _ x(6,7) _ refl,
        where body = body and env = env and mid = mid and stamp = ?stamp]
    have "feed_sound r1 ?fd2" using w(1) x(8) sk by simp
    moreover have "shows_streams r1 ?fd2" using others w(2) x(8) sk by (simp add: shows_streams_def)
    moreover have "shows_entry ?fd2 u" if "u \<in> set (transcript r1)" for u
    proof (cases "u = entry")
      case True
      with w(3) [of u] x(8,11,12) sk show ?thesis by simp
    next
      case False
      with that x(10) have u: "u \<in> set (transcript r)" by simp
      from w(4) [OF _ _ _ mirrorsD(4) [OF m1 u]] appended_id [OF ok x(10) u] x(8,11) sk show ?thesis by simp
    qed
    ultimately have m2: "mirrors r1 ?fd2" by (simp add: mirrors_def list_all_iff)
    have "fd' = (case lane r' k of None \<Rightarrow> ?fd2 | Some l \<Rightarrow> relocate_if_displaced env r' (ln_turn_id l) mid (ev_event_seq e) ?fd2)"
      using lane entries by (auto simp: fd' commit_row_def Let_def)
    then have "calm_feed ?fd2 fd'" by (simp only: commit_calm_parts)
    then show ?thesis by (rule mirrors_calm_feed [OF m2])
  qed
qed

subsection \<open>The end of a lane\<close>

lemma terminal_identity_lane:
  "validate_terminal_identity r e = Ok k \<Longrightarrow> required_payload_string e ''laneId'' = Ok k"
  by (auto simp: validate_terminal_identity_def required_payload_string_Ok reader_Ok split: option.splits if_splits)

lemma ended_lane:
  assumes k: "required_payload_string e ''laneId'' = Ok k"
  shows "complete_lane e r = (Ok d, r1) \<Longrightarrow> \<exists>l. lanes r1 k = Some l \<and> \<not> live_lane l"
    "fail_lane e r = (Ok d, r1) \<Longrightarrow> \<exists>l. lanes r1 k = Some l \<and> \<not> live_lane l"
    "cancel_lane e r = (Ok d, r1) \<Longrightarrow> \<exists>l. lanes r1 k = Some l \<and> \<not> live_lane l"
proof -
  have "validate_terminal_identity r e = Ok j \<Longrightarrow> j = k" for j
    using terminal_identity_lane [of r e j] k by simp
  then show "complete_lane e r = (Ok d, r1) \<Longrightarrow> \<exists>l. lanes r1 k = Some l \<and> \<not> live_lane l"
    "fail_lane e r = (Ok d, r1) \<Longrightarrow> \<exists>l. lanes r1 k = Some l \<and> \<not> live_lane l"
    "cancel_lane e r = (Ok d, r1) \<Longrightarrow> \<exists>l. lanes r1 k = Some l \<and> \<not> live_lane l"
    by (auto simp: complete_lane_def fail_lane_def cancel_lane_def Let_def store_lane_def split: if_splits)
qed

lemma mirrors_end:
  assumes m: "mirrors r fd" and wf: "room_wf r"
    and l: "\<And>k. required_payload_string e ''laneId'' = Ok k \<Longrightarrow> \<exists>l. lanes r k = Some l \<and> \<not> live_lane l"
    and drawn: "draw_end env e r fd = Ok fd'"
  shows "mirrors r fd'"
proof -
  from drawn obtain k l where k: "required_payload_string e ''laneId'' = Ok k" "lanes r k = Some l"
      and fd': "fd' = forget_settled_turn (ln_turn_id l) r (finish_lane env l fd)"
    by (auto simp: draw_end_def lane_def)
  have key: "ln_id l = k" using well_ordered_key [OF tables_okD(1) [OF room_wfD(1) [OF wf]] k(2)] .
  have "mirrors r (finish_lane env l fd)"
  proof (rule mirrors_calm [OF m finish_lane_calm])
    fix sid s l2 assume x: "sid \<in> {sid. fd_lane_streams fd (ln_id l) = Some sid}" "streams r sid = Some s" "lanes r (st_lane_id s) = Some l2"
    then have "bound_lane r fd k sid" using feed_soundD(5) [OF mirrorsD(1) [OF m]] key by simp
    then have "st_lane_id s = k"
      using streams_okD(3) [OF room_wfD(5) [OF wf]] x(2) by (fastforce simp: bound_lane_def)
    with x(3) l [OF k(1)] show "\<not> live_lane l2" by auto
  qed
  then show ?thesis unfolding fd' by (rule mirrors_calm_feed) (rule calm_books)
qed

subsection \<open>Every event\<close>

lemma transition_quiet:
  assumes t: "apply_transition e r = (Ok d, r1)" and ok: "lanes_ok r"
    and kind: "ev_kind e \<notin> {''turn.accepted'', ''lane.started'', ''lane.chunk'', ''message.committed''}"
  shows "quiet r r1"
  using t kind unfolding apply_transition_def Let_def
  by (elim if_OkE)
    (simp; fail | erule handlers_quiet record_agent_status_quiet queue_lane_quiet lane_handlers_quiet ending_quiet [OF ok]
      | simp add: quiet_same)+

lemma feed_event_calm:
  assumes "apply_feed_event env e r d fd = Ok fd'"
    and "ev_kind e \<notin> {''turn.accepted'', ''lane.started'', ''lane.chunk'', ''message.committed'',
      ''lane.completed'', ''lane.failed'', ''lane.cancelled''}"
  shows "calm_feed fd fd'"
proof -
  have sync: "sync_event_lane env e r fd = Ok fd' \<Longrightarrow> calm_feed fd fd'"
    by (auto simp: sync_event_lane_def intro: sync_lane_activity_quiet)
  have hops: "draw_hop env e r fd = Ok fd' \<Longrightarrow> calm_feed fd fd'"
    by (auto simp: draw_hop_def push_hop_row_calm split: option.splits)
  from assms sync hops show ?thesis
    by (auto simp: apply_feed_event_def Let_def split: if_splits intro!: calm_intro)
qed

lemma transcript_ok_noted: "transcript_ok (note_applied e r) \<Longrightarrow> transcript_ok r"
  by (simp add: transcript_ok_def)

lemma mirrors_event:
  assumes m: "mirrors r fd" and wf: "room_wf r" "room_wf r'" and r': "r' = note_applied e r1"
    and t: "apply_transition e r = (Ok d, r1)" and drawn: "apply_feed_event env e r' d fd = Ok fd'"
  shows "mirrors r' fd'"
proof -
  have same: "quiet r1 r'" by (simp add: r' quiet_same)
  have ok: "transcript_ok r1" using transcript_ok_noted room_wfD(6) [OF wf(2)] by (simp add: r')
  have last: "transcript r' = transcript r1" "lanes r' = lanes r1" by (simp_all add: r')
  consider (quiet) "ev_kind e \<notin> {''turn.accepted'', ''lane.started'', ''lane.chunk'', ''message.committed''}"
    | (accept) "ev_kind e = ''turn.accepted''" | (start) "ev_kind e = ''lane.started''"
    | (chunk) "ev_kind e = ''lane.chunk''" | (commit) "ev_kind e = ''message.committed''" by blast
  then show ?thesis
  proof cases
    case quiet
    have m': "mirrors r' fd"
      by (rule mirrors_quiet [OF mirrors_quiet [OF m transition_quiet [OF t room_wfD(2) [OF wf(1)] quiet]] same])
    show ?thesis
    proof (cases "ev_kind e \<in> {''lane.completed'', ''lane.failed'', ''lane.cancelled''}")
      case True
      then have "draw_end env e r' fd = Ok fd'" using drawn by (auto simp: apply_feed_event_def drawn_kinds_def)
      moreover have "\<exists>l. lanes r' k = Some l \<and> \<not> live_lane l" if "required_payload_string e ''laneId'' = Ok k" for k
        using True t transition_handlers(6-8) [of e r] ended_lane [OF that] unfolding last by (elim insertE emptyE) metis+
      ultimately show ?thesis using mirrors_end [OF m' wf(2)] by blast
    next
      case False
      with quiet feed_event_calm [OF drawn] show ?thesis by (intro mirrors_calm_feed [OF m']) auto
    qed
  next
    case accept
    then have a: "accept_turn e r = (Ok d, r1)" using t transition_handlers(11) by simp
    have "transcript r1 \<noteq> []" by (rule accept_turn_effect [OF a]) simp
    then have "push_transcript_entry env (List.last (transcript r1)) r' fd = Ok fd'"
      using drawn accept by (simp add: apply_feed_event_def drawn_kinds_def last)
    then show ?thesis using mirrors_quiet [OF mirrors_accept [OF m a ok] same] by blast
  next
    case start
    with drawn have "draw_start env e r' fd = Ok fd'" by (simp add: apply_feed_event_def drawn_kinds_def)
    with mirrors_quiet [OF mirrors_start [OF m wf(1) _ _ last(2)] same] start t transition_handlers(1) [of e r] show ?thesis by simp
  next
    case chunk
    with drawn have "draw_chunk env e r' fd = Ok fd'" by (simp add: apply_feed_event_def drawn_kinds_def)
    with mirrors_quiet [OF mirrors_chunk [OF m wf(1)] same] chunk t transition_handlers(2) [of e r] show ?thesis by simp
  next
    case commit
    with drawn have "draw_commit env e r' fd = Ok fd'" by (simp add: apply_feed_event_def drawn_kinds_def)
    with mirrors_quiet [OF mirrors_commit [OF m wf(1) _ ok] same] commit t transition_handlers(5) [of e r] show ?thesis by simp
  qed
qed

end
