(* ===== verification/Feed_Rebuilt.thy ===== *)
theory Feed_Rebuilt
  imports Feed_Run "HOL-Library.Multiset"
begin

section \<open>A rebuilt feed\<close>

text \<open>
  \<open>from_reducer_with_motion\<close> replays every transcript entry and every stream that is still shown, each
  stream once and in any order; so the feed it builds mirrors the room.
\<close>

definition replayed_stream :: "replay_step \<Rightarrow> string option" where
  "replayed_stream s = (case s of ReplayRow (RowReplayedStream st) \<Rightarrow> Some (st_id st) | _ \<Rightarrow> None)"

definition replay_ok :: "reducer \<Rightarrow> replay_step \<Rightarrow> bool" where
  "replay_ok r s = (case s of
      ReplayRow (RowTranscript e) \<Rightarrow> e \<in> set (transcript r)
    | ReplayRow (RowTerminalLane l) \<Rightarrow> lanes r (ln_id l) = Some l \<and> \<not> live_lane l
    | ReplayRow (RowReplayedStream st) \<Rightarrow> streams r (st_id st) = Some st
    | _ \<Rightarrow> True)"

definition step_shown :: "scrollback \<Rightarrow> replay_step \<Rightarrow> bool" where
  "step_shown fd s = (case s of
      ReplayRow (RowTranscript e) \<Rightarrow> shows_entry fd e
    | ReplayRow (RowReplayedStream st) \<Rightarrow> fd_lane_streams fd (st_lane_id st) = Some (st_id st)
    | _ \<Rightarrow> True)"

lemmas replay_defs = replayed_stream_def replay_ok_def step_shown_def

lemma step_shown_mono:
  assumes "\<And>e. e \<in> set (transcript r) \<Longrightarrow> shows_entry fd e \<Longrightarrow> shows_entry fd' e"
    and "\<And>k sid. fd_lane_streams fd k = Some sid \<Longrightarrow> fd_lane_streams fd' k = Some sid"
    and "replay_ok r t" "step_shown fd t"
  shows "step_shown fd' t"
  using assms by (auto simp: replay_defs split: replay_step.splits durable_row.splits)

text \<open>What one step of the replay does: \<open>replays r s fd fd'\<close>.\<close>

definition replays :: "reducer \<Rightarrow> replay_step \<Rightarrow> scrollback \<Rightarrow> scrollback \<Rightarrow> bool" where
  "replays r s fd fd' \<longleftrightarrow>
     feed_sound r fd' \<and> step_shown fd' s \<and> (\<forall>t. replay_ok r t \<longrightarrow> step_shown fd t \<longrightarrow> step_shown fd' t)
     \<and> dom (fd_stream_entries fd') = dom (fd_stream_entries fd) \<union> set_option (replayed_stream s)"

lemma rel_option_dom: "(\<And>k. rel_option (R k) (m k) (m' k)) \<Longrightarrow> dom m' = dom m"
  by (auto simp: dom_def option_rel_Some1 option_rel_Some2) (metis option.rel_distinct(1,2) not_Some_eq)+

lemma replays_calm:
  assumes sound: "feed_sound r fd" and calm: "calm_except S fd fd'"
    and ended: "\<And>sid s l. sid \<in> S \<Longrightarrow> streams r sid = Some s \<Longrightarrow> lanes r (st_lane_id s) = Some l \<Longrightarrow> \<not> live_lane l"
    and s: "replayed_stream s = None" "step_shown fd s"
  shows "replays r s fd fd'"
proof -
  note ok = feed_soundD(1) [OF sound]
  note c = calmD [OF calm ok]
  have "step_shown fd t \<Longrightarrow> step_shown fd' t" for t
    using shows_entry_calm [OF _ calm ok] c(6) by (auto simp: step_shown_def split: replay_step.splits durable_row.splits)
  moreover have "dom (fd_stream_entries fd') = dom (fd_stream_entries fd)" by (rule rel_option_dom) (rule c(7))
  ultimately show ?thesis
    using feed_sound_calm [OF sound calm ended] s by (simp add: replays_def)
qed

lemma replays_calm_feed:
  "feed_sound r fd \<Longrightarrow> calm_feed fd fd' \<Longrightarrow> replayed_stream s = None \<Longrightarrow> step_shown fd s \<Longrightarrow> replays r s fd fd'"
  by (rule replays_calm) auto

lemma same_message:
  "transcript_ok r \<Longrightarrow> e \<in> set (transcript r) \<Longrightarrow> e' \<in> set (transcript r) \<Longrightarrow> tr_message_id e' = tr_message_id e \<Longrightarrow> e' = e"
  by (simp add: transcript_ok_def distinct_map inj_on_def)

lemma replays_entry:
  assumes sound: "feed_sound r fd" and ok: "transcript_ok r" "e \<in> set (transcript r)"
    and drawn: "push_transcript_entry env e r fd = Ok fd'"
  shows "replays r (ReplayRow (RowTranscript e)) fd fd'"
proof -
  note w = push_transcript_entry_writes [OF feed_soundD(1) [OF sound] drawn]
  have kept: "shows_entry fd' u" if "u \<in> set (transcript r)" "shows_entry fd u" for u
    using same_message [OF ok that(1)] message_shown(1) [OF w] message_shown(2) [OF w sound that(2)]
    by (cases "tr_message_id u = tr_message_id e") auto
  have "step_shown fd' t" if "replay_ok r t" "step_shown fd t" for t
    using kept message_streams [OF w] that by (intro step_shown_mono [of r fd fd']) simp_all
  moreover have "dom (fd_stream_entries fd') = dom (fd_stream_entries fd)"
    by (rule rel_option_dom [where R = "\<lambda>_. same_binding False"]) (use w in \<open>simp add: writes_message_def\<close>)
  ultimately show ?thesis
    using feed_sound_message [OF sound w] message_shown(1) [OF w] by (simp add: replays_def replay_defs)
qed

lemma replays_stream:
  assumes wf: "room_wf r" and sound: "feed_sound r fd" and s: "streams r (st_id s) = Some s"
    and new: "fd_stream_entries fd (st_id s) = None" and l: "lanes r (st_lane_id s) = Some l"
    and drawn: "sync_lane_activity env (st_lane_id s) r 0
       (snd (push_stream_chunk (st_id s) (st_text s) (start_stream env (st_id s) l fd))) = Ok fd'"
  shows "replays r (ReplayRow (RowReplayedStream s)) fd fd'"
proof -
  let ?r0 = "r\<lparr>streams := (streams r)(st_id s \<mapsto> s\<lparr>st_text := []\<rparr>)\<rparr>"
  let ?fd1 = "start_stream env (st_id s) l fd"
  let ?fd2 = "snd (push_stream_chunk (st_id s) (st_text s) ?fd1)"
  note d = feed_soundD [OF sound]
  have sid: "ln_stream_id l = Some (st_id s)"
    using streams_okD(2) [OF room_wfD(5) [OF wf] s] l by (auto simp: stream_backed_def)
  have key: "ln_id l = st_lane_id s" using well_ordered_key [OF tables_okD(1) [OF room_wfD(1) [OF wf]] l] .
  have lane_new: "fd_lane_streams fd (ln_id l) = None"
    using d(5) [of "st_lane_id s"] l sid new key by (cases "fd_lane_streams fd (st_lane_id s)") (fastforce simp: bound_lane_def)+
  have sound0: "feed_sound ?r0 fd"
  proof (rule feed_soundI [OF d(1-3,7)])
    show "bound_stream ?r0 fd u b" if "fd_stream_entries fd u = Some b" for u b
      using d(4) [OF that] that new by (cases "u = st_id s") (auto simp: bound_stream_def)
    show "bound_lane ?r0 fd k u" if "fd_lane_streams fd k = Some u" for k u
      using d(5) [OF that] by (simp add: bound_lane_def)
  qed
  have r0: "streams ?r0 (st_id s) = Some (s\<lparr>st_text := []\<rparr>)" "st_text (s\<lparr>st_text := []\<rparr>) = []"
    "lanes ?r0 (ln_id l) = Some l" "st_lane_id (s\<lparr>st_text := []\<rparr>) = ln_id l"
    using l key by simp_all
  obtain b where o: "feed_sound ?r0 ?fd1" "fd_lane_streams ?fd1 = (fd_lane_streams fd)(ln_id l \<mapsto> st_id s)"
    "fd_stream_entries ?fd1 = (fd_stream_entries fd)(st_id s \<mapsto> b)" "\<not> bd_completed b"
    "bd_entry_id b \<notin> ran (fd_content_entries ?fd1)" "\<And>e. shows_entry fd e \<Longrightarrow> shows_entry ?fd1 e"
    by (rule feed_sound_opens [OF sound0 new lane_new r0 sid refl, where env = env]) metis
  have b: "fd_stream_entries ?fd1 (st_id s) = Some b" by (simp add: o(3))
  have restored: "streams r = (streams ?r0)(st_id s \<mapsto> s)" using s by (auto simp: fun_eq_iff)
  note w = feed_sound_chunk [OF o(1) b o(4,5) r0(1) _ _ restored _ refl, of "st_text s", simplified]
  have sound2: "feed_sound r ?fd2" "fd_lane_streams ?fd2 = fd_lane_streams ?fd1" "\<And>e. shows_entry ?fd1 e \<Longrightarrow> shows_entry ?fd2 e"
    by (fact w)+
  have "dom (fd_stream_entries ?fd2) = dom (fd_stream_entries ?fd1)"
    using push_stream_chunk_writes(5) [OF feed_soundD(1) [OF o(1)] b o(4) refl] b by auto
  then have dom2: "dom (fd_stream_entries ?fd2) = insert (st_id s) (dom (fd_stream_entries fd))" by (simp add: o(3))
  note c = sync_lane_activity_quiet [OF drawn]
  have "dom (fd_stream_entries fd') = dom (fd_stream_entries ?fd2)"
    by (rule rel_option_dom) (rule calmD(7) [OF c feed_soundD(1) [OF sound2(1)]])
  moreover have "fd_lane_streams fd' = fd_lane_streams ?fd2" by (rule calmD(6) [OF c feed_soundD(1) [OF sound2(1)]])
  moreover have "shows_entry fd e \<Longrightarrow> shows_entry fd' e" for e
    using o(6) sound2(3) shows_entry_calm [OF _ c feed_soundD(1) [OF sound2(1)]] by blast
  moreover have "feed_sound r fd'" by (rule feed_sound_calm [OF sound2(1) c]) simp
  moreover have "step_shown fd' t" if "replay_ok r t" "step_shown fd t" for t
    by (rule step_shown_mono [OF _ _ that]) (use calculation in \<open>auto simp: sound2(2) o(2) lane_new\<close>)
  ultimately show ?thesis
    using dom2 sound2(2) o(2) key by (simp add: replays_def step_shown_def replayed_stream_def)
qed

text \<open>A step of the replay, and all of them.\<close>

lemma replay_row_replays:
  assumes wf: "room_wf r" and sound: "feed_sound r fd" and ok: "replay_ok r s"
    and new: "set_option (replayed_stream s) \<inter> dom (fd_stream_entries fd) = {}"
    and drawn: "replay_row env r s fd = Ok fd'"
  shows "replays r s fd fd'"
proof (cases "(env, r, s, fd)" rule: replay_row.cases)
  case (1 env1 r1 entry fd1)
  with ok drawn replays_entry [OF sound room_wfD(6) [OF wf]] show ?thesis by (simp add: replay_ok_def)
next
  case (2 env1 r1 l fd1)
  then have l: "lanes r (ln_id l) = Some l" "\<not> live_lane l" using ok by (simp_all add: replay_ok_def)
  have "replays r s fd (finish_lane env l fd)"
  proof (rule replays_calm [OF sound finish_lane_calm])
    fix sid u l2 assume x: "sid \<in> {sid. fd_lane_streams fd (ln_id l) = Some sid}" "streams r sid = Some u" "lanes r (st_lane_id u) = Some l2"
    then have "bound_lane r fd (ln_id l) sid" using feed_soundD(5) [OF sound] by simp
    then have "st_lane_id u = ln_id l"
      using streams_okD(3) [OF room_wfD(5) [OF wf]] x(2) by (fastforce simp: bound_lane_def)
    with x(3) l show "\<not> live_lane l2" by auto
  qed (use 2 in \<open>simp_all add: replay_defs\<close>)
  with 2 drawn show ?thesis by simp
next
  case (6 env1 r1 st fd1)
  then have "fd_stream_entries fd (st_id st) = None" using new by (auto simp: replayed_stream_def)
  with 6 ok drawn replays_stream [OF wf sound] show ?thesis
    by (auto simp: replay_ok_def lane_def)
qed (use drawn in \<open>auto simp: replay_defs intro!: replays_calm_feed [OF sound] calm_intro push_hop_row_calm relocate_if_displaced_calm\<close>)

lemma replay_rows_replays:
  assumes wf: "room_wf r"
  shows "replay_rows env r ss fd = Ok fd' \<Longrightarrow> feed_sound r fd \<Longrightarrow> list_all (replay_ok r) ss \<Longrightarrow>
    distinct (List.map_filter replayed_stream ss) \<Longrightarrow>
    set (List.map_filter replayed_stream ss) \<inter> dom (fd_stream_entries fd) = {} \<Longrightarrow>
    feed_sound r fd' \<and> (\<forall>t. replay_ok r t \<longrightarrow> t \<in> set ss \<or> step_shown fd t \<longrightarrow> step_shown fd' t)"
proof (induction ss arbitrary: fd)
  case (Cons s ss)
  then obtain fd1 where fd1: "replay_row env r s fd = Ok fd1" "replay_rows env r ss fd1 = Ok fd'" by auto
  have "replays r s fd fd1"
    using Cons.prems by (intro replay_row_replays [OF wf _ _ _ fd1(1)]) (auto simp: map_filter_simps split: option.splits)
  then have one: "feed_sound r fd1" "step_shown fd1 s" "\<And>t. replay_ok r t \<Longrightarrow> step_shown fd t \<Longrightarrow> step_shown fd1 t"
      "dom (fd_stream_entries fd1) = dom (fd_stream_entries fd) \<union> set_option (replayed_stream s)"
    by (simp_all add: replays_def)
  have "feed_sound r fd' \<and> (\<forall>t. replay_ok r t \<longrightarrow> t \<in> set ss \<or> step_shown fd1 t \<longrightarrow> step_shown fd' t)"
    using Cons.prems one(4) by (intro Cons.IH [OF fd1(2) one(1)]) (auto simp: map_filter_simps split: option.splits)
  with one(2,3) show ?case by auto
qed simp

subsection \<open>The steps of a room\<close>

lemma transcript_steps_rows:
  "transcript_steps r e = Ok ts \<Longrightarrow>
     map snd ts = [ReplayRow (RowTranscript e)] \<or> map snd ts = [ReplayRow (RowTranscript e), RelocateTurn e]"
  by (cases "tr_author e") (auto simp: transcript_steps_def keyed_replay_row_def split: if_splits)

lemma map_filter_append: "List.map_filter f (xs @ ys) = List.map_filter f xs @ List.map_filter f ys"
  by (simp add: List.map_filter_def)

lemma entry_rows:
  "list_all2 (\<lambda>x y. transcript_steps r x = Ok y) es tss \<Longrightarrow>
     set (map snd (concat tss)) \<subseteq> (\<lambda>e. ReplayRow (RowTranscript e)) ` set es \<union> RelocateTurn ` set es
     \<and> (\<lambda>e. ReplayRow (RowTranscript e)) ` set es \<subseteq> set (map snd (concat tss))
     \<and> List.map_filter replayed_stream (map snd (concat tss)) = []"
proof (induction rule: list_all2_induct)
  case (Cons e es ts tss)
  from transcript_steps_rows [OF Cons(1)] Cons(3) show ?case
    by (auto simp: List.map_filter_def replayed_stream_def)
qed (simp add: map_filter_simps)

lemma keyed_rows:
  "list_all2 (\<lambda>x y. keyed_replay_row r x = Ok y) rows ks \<Longrightarrow> map snd ks = map ReplayRow rows"
  by (induction rule: list_all2_induct) (auto simp: keyed_replay_row_def)

lemma replay_steps_rows:
  assumes "replay_steps r = Ok ss"
  shows "set (map snd ss) \<subseteq> (\<lambda>e. ReplayRow (RowTranscript e)) ` set (transcript r) \<union> RelocateTurn ` set (transcript r)
        \<union> ReplayRow ` set (lane_rows r)"
    "(\<lambda>e. ReplayRow (RowTranscript e)) ` set (transcript r) \<union> ReplayRow ` set (lane_rows r) \<subseteq> set (map snd ss)"
    "List.map_filter replayed_stream (map snd ss) = List.map_filter replayed_stream (map ReplayRow (lane_rows r))"
proof -
  from assms obtain tss ks where t: "list_all2 (\<lambda>x y. transcript_steps r x = Ok y) (transcript r) tss"
      and k: "list_all2 (\<lambda>x y. keyed_replay_row r x = Ok y) (lane_rows r) ks" and ss: "ss = concat tss @ ks"
    by (auto simp: replay_steps_def collect_results_Ok)
  define entries where "entries = map snd (concat tss)"
  note e = entry_rows [OF t, folded entries_def]
  have rows: "map snd ss = entries @ map ReplayRow (lane_rows r)" by (simp add: ss entries_def keyed_rows [OF k])
  show "set (map snd ss) \<subseteq> (\<lambda>e. ReplayRow (RowTranscript e)) ` set (transcript r) \<union> RelocateTurn ` set (transcript r)
        \<union> ReplayRow ` set (lane_rows r)"
    "(\<lambda>e. ReplayRow (RowTranscript e)) ` set (transcript r) \<union> ReplayRow ` set (lane_rows r) \<subseteq> set (map snd ss)"
    "List.map_filter replayed_stream (map snd ss) = List.map_filter replayed_stream (map ReplayRow (lane_rows r))"
    unfolding rows using e by (auto simp: map_filter_append)
qed

lemma ordered_streams_ids:
  assumes "room_wf r"
  shows "distinct (map st_id (ordered_streams r))" "set (ordered_streams r) = ran (streams r)"
    "s \<in> set (ordered_streams r) \<Longrightarrow> streams r (st_id s) = Some s"
proof -
  have ok: "well_ordered st_id (streams r) (stream_order r)" using assms by (intro tables_okD room_wfD)
  have key: "streams r k = Some s \<Longrightarrow> st_id s = k" for k s using well_ordered_key [OF ok] .
  have "map st_id (ordered_streams r) = stream_order r"
    using walk_nth(1) [OF ok] key walk_length [OF ok] by (auto simp: ordered_streams_def intro: nth_equalityI)
  then show "distinct (map st_id (ordered_streams r))" using ok by (simp add: well_ordered_def)
  show set: "set (ordered_streams r) = ran (streams r)" unfolding ordered_streams_def by (rule walk_set [OF ok])
  show "s \<in> set (ordered_streams r) \<Longrightarrow> streams r (st_id s) = Some s"
    unfolding set using key by (auto simp: ran_def)
qed

lemma lane_rows_streams:
  "List.map_filter replayed_stream (map ReplayRow (lane_rows r)) =
     map st_id (filter (\<lambda>s. case lane r (st_lane_id s) of None \<Rightarrow> False | Some l \<Rightarrow> replay_stream_for_lane l) (ordered_streams r))"
  by (simp add: lane_rows_def map_filter_append)
    (simp add: List.map_filter_def comp_def replayed_stream_def)

lemma lane_rows_ok:
  assumes wf: "room_wf r" and row: "row \<in> set (lane_rows r)" shows "replay_ok r (ReplayRow row)"
proof -
  have "lanes r (ln_id l) = Some l" if "l \<in> set (fst (ordered_lanes r 0))" for l
    using that well_ordered_key [OF tables_okD(1) [OF room_wfD(1) [OF wf]]]
    by (auto simp: ordered_lanes_def List.map_filter_def)
  with row ordered_streams_ids(3) [OF wf] show ?thesis
    by (auto simp: lane_rows_def replay_ok_def)
qed

lemma sort_steps_mset: "sort_steps ss = Ok ordered \<Longrightarrow> mset ordered = mset ss"
proof -
  have "mset (insert_step s ts) = add_mset s (mset ts)" for s ts by (induction ts) auto
  then have "mset (foldr insert_step ss []) = mset ss" by (induction ss) simp_all
  then show "sort_steps ss = Ok ordered \<Longrightarrow> mset ordered = mset ss" by (auto simp: sort_steps_def split: if_splits)
qed

lemma mset_map_filter: "mset xs = mset ys \<Longrightarrow> mset (List.map_filter f xs) = mset (List.map_filter f ys)"
  by (simp add: List.map_filter_def)

lemma rebuilt_mirrors:
  assumes wf: "room_wf r" and fd: "from_reducer_with_motion env r motion = Ok fd"
  shows "mirrors r fd"
proof -
  from fd obtain ss ordered where ss: "replay_steps r = Ok ss" "sort_steps ss = Ok ordered" and
      rows: "replay_rows env r (map snd ordered) (new_scrollback\<lparr>fd_reduced_motion := motion\<rparr>) = Ok fd"
    by (auto simp: from_reducer_with_motion_def)
  note steps = replay_steps_rows [OF ss(1)] and ids = ordered_streams_ids [OF wf]
  have same: "mset (map snd ordered) = mset (map snd ss)" using sort_steps_mset [OF ss(2)] by simp
  then have set: "set (map snd ordered) = set (map snd ss)" by (rule mset_eq_setD)
  have "distinct (List.map_filter replayed_stream (map snd ss))"
    unfolding steps(3) lane_rows_streams using distinct_filter [of "map st_id _"] ids(1) by (simp add: distinct_map_filter)
  then have once: "distinct (List.map_filter replayed_stream (map snd ordered))"
    using mset_eq_imp_distinct_iff [OF mset_map_filter [OF same]] by blast
  have "replay_ok r t" if "t \<in> set (map snd ordered)" for t
    using that steps(1) lane_rows_ok [OF wf] unfolding set by (auto simp: replay_ok_def)
  then have ok: "list_all (replay_ok r) (map snd ordered)" by (simp add: list_all_iff)
  let ?fd0 = "new_scrollback\<lparr>fd_reduced_motion := motion\<rparr>"
  have sound0: "feed_sound r ?fd0"
    by (simp add: feed_sound_def rows_ok_def entries_apart_def new_scrollback_def scroll_wf_def row_ids_def new_scroll_def)
  have "dom (fd_stream_entries ?fd0) = {}" by (simp add: new_scrollback_def)
  with replay_rows_replays [OF wf rows sound0 ok once] have sound: "feed_sound r fd"
    and shown: "\<And>t. t \<in> set (map snd ss) \<Longrightarrow> replay_ok r t \<Longrightarrow> step_shown fd t"
    unfolding set [symmetric] by auto
  have "shows_entry fd e" if "e \<in> set (transcript r)" for e
    using shown [of "ReplayRow (RowTranscript e)"] steps(2) that by (auto simp: replay_ok_def step_shown_def)
  moreover have "fd_lane_streams fd k = Some sid"
    if l: "lanes r k = Some l" "ln_stream_id l = Some sid" "replay_stream_for_lane l" for k l sid
  proof -
    obtain s where s: "streams r sid = Some s" "st_lane_id s = k" using streams_okD(3) [OF room_wfD(5) [OF wf] l(1,2)] by blast
    then have "s \<in> set (ordered_streams r)" using ids(2) by (auto simp: ran_def)
    moreover have key: "st_id s = sid" using ids(3) s well_ordered_key [OF tables_okD(2) [OF room_wfD(1) [OF wf]]] by blast
    ultimately have "ReplayRow (RowReplayedStream s) \<in> set (map snd ss)"
      using steps(2) l s by (auto simp: lane_rows_def lane_def image_subset_iff)
    with shown [of "ReplayRow (RowReplayedStream s)"] s key show ?thesis by (simp add: replay_ok_def step_shown_def)
  qed
  ultimately show ?thesis using sound by (simp add: mirrors_def shows_streams_def list_all_iff)
qed

subsection \<open>The life of a feed\<close>

text \<open>
  A feed is rebuilt when the room opens or resynchronises, and from then on drawn into by the room's
  events, by the tick of the render loop (which walks the lanes in any order), and by the sentences
  that belong to no event.
\<close>

inductive feed_run :: "(string \<Rightarrow> bool) \<Rightarrow> feed_env \<Rightarrow> reducer \<Rightarrow> scrollback \<Rightarrow> bool" for rfc3339 env where
  rebuilt: "reachable rfc3339 r \<Longrightarrow> from_reducer_with_motion env r motion = Ok fd \<Longrightarrow> feed_run rfc3339 env r fd"
| event: "feed_run rfc3339 env r fd \<Longrightarrow> apply_and_draw rfc3339 env e (r, fd) = Ok (r', fd') \<Longrightarrow> feed_run rfc3339 env r' fd'"
| tick: "feed_run rfc3339 env r fd \<Longrightarrow> refresh_live_status env lane_ids r now fd = Ok fd' \<Longrightarrow> feed_run rfc3339 env r fd'"
| failed: "feed_run rfc3339 env r fd \<Longrightarrow> feed_run rfc3339 env r (push_runtime_failure env message fd)"
| exited: "feed_run rfc3339 env r fd \<Longrightarrow> feed_run rfc3339 env r (push_host_exit message fd)"
| told: "feed_run rfc3339 env r fd \<Longrightarrow> feed_run rfc3339 env r (push_local_notice_row message fd)"

lemma drawn_event:
  assumes r: "reachable rfc3339 r" and m: "mirrors r fd" and drawn: "apply_and_draw rfc3339 env e (r, fd) = Ok (r', fd')"
  shows "reachable rfc3339 r' \<and> mirrors r' fd'"
proof -
  from drawn obtain d where e: "apply_event rfc3339 e r = (Ok d, r')"
    by (auto simp: apply_and_draw_def Let_def split: prod.splits result.splits if_splits)
  have r': "reachable rfc3339 r'" by (rule reachable.applied [OF r e])
  from r e show ?thesis
  proof (cases rule: apply_event_reachable_cases)
    case repeated
    with drawn e m r show ?thesis by (simp add: apply_and_draw_def has_event_id_def)
  next
    case (applied r1)
    with drawn e have "apply_feed_event env e r' d fd = Ok fd'"
      by (simp add: apply_and_draw_def has_event_id_def)
    from mirrors_event [OF m applied(2) reachable_room_wf [OF r'] applied(4,6) this] r' show ?thesis by simp
  qed
qed

lemma feed_run_mirrors: "feed_run rfc3339 env r fd \<Longrightarrow> reachable rfc3339 r \<and> mirrors r fd"
proof (induction rule: feed_run.induct)
  case (rebuilt r motion fd)
  then show ?case using rebuilt_mirrors [OF reachable_room_wf] by blast
next
  case (event r fd e r' fd')
  then show ?case using drawn_event by blast
next
  case (tick r fd lane_ids now fd')
  then show ?case using mirrors_calm_feed refresh_live_status_calm by blast
qed (use mirrors_calm_feed [OF _ drawn_row_calm(1) [OF calm_except_refl]] mirrors_calm_feed [OF _ drawn_row_calm(2) [OF calm_except_refl]]
      mirrors_calm_feed [OF _ drawn_row_calm(3) [OF calm_except_refl]] in blast)+

lemma mirrors_messages:
  assumes "mirrors r fd" "entry \<in> set (transcript r)"
  shows "\<exists>i. fd_content_entries fd (tr_message_id entry) = Some i \<and> said fd i = Some (tr_text entry)"
  using mirrorsD(4) [OF assms] by (simp add: shows_entry_def)

lemma mirrors_streams:
  assumes m: "mirrors r fd" and wf: "room_wf r" and l: "lanes r k = Some l" "replay_stream_for_lane l" "ln_stream_id l = Some sid"
  shows "\<exists>b s. fd_stream_entries fd sid = Some b \<and> streams r sid = Some s \<and> said fd (bd_entry_id b) = Some (st_text s)
    \<and> (live_lane l \<longrightarrow> bd_entry_id b \<notin> ran (fd_content_entries fd))"
proof -
  note d = feed_soundD [OF mirrorsD(1) [OF m]]
  have "fd_lane_streams fd k = Some sid" using mirrorsD(3) [OF m] l by (auto simp: shows_streams_def)
  then obtain b where b: "fd_stream_entries fd sid = Some b" using d(5) by (fastforce simp: bound_lane_def)
  obtain s where s: "streams r sid = Some s" "st_lane_id s = k" using streams_okD(3) [OF room_wfD(5) [OF wf] l(1,3)] by blast
  with d(4) [OF b] l(1) have "st_text s = bd_text b" "live_lane l \<longrightarrow> bd_entry_id b \<notin> ran (fd_content_entries fd)"
    by (auto simp: bound_stream_def)
  with rows_okD(3) [OF d(1) b] b s show ?thesis by auto
qed

text \<open>A rebuild never answers with an error, so it answers where it does not panic.\<close>

lemma replay_row_not_Err:
  assumes "room_wf r" shows "replay_row env r s fd \<noteq> Err err"
proof -
  have "latest_activity acts \<noteq> Err err" for acts
    by (induction acts rule: latest_activity.induct) (auto split: result.splits)
  then have "sync_lane_activity env k r 0 fd0 \<noteq> Err err" for k fd0
    by (auto simp: sync_lane_activity_def tryR_eq_Err Let_def split: option.splits)
  moreover have "push_transcript_entry env e r fd0 \<noteq> Err err" for e fd0
    using assms by (auto simp: push_transcript_entry_def tryR_eq_Err lane_for_message_sound Let_def split: prod.splits)
  ultimately show ?thesis
    by (cases "(env, r, s, fd)" rule: replay_row.cases) (auto simp: tryR_eq_Err)
qed

lemma replay_rows_not_Err: "room_wf r \<Longrightarrow> replay_rows env r ss fd \<noteq> Err err"
  using replay_row_not_Err by (induction ss arbitrary: fd) (auto simp: tryR_eq_Err)

lemma collect_not_Err: "(\<And>x. f x \<noteq> Err e) \<Longrightarrow> collect_results f xs \<noteq> Err e"
  by (induction xs) (auto simp: tryR_eq_Err)

lemma rebuild_answers:
  assumes r: "reachable rfc3339 r" and shape: "\<not> unstarted_commit r"
  shows "\<exists>fd. from_reducer_with_motion env r motion = Ok fd"
proof -
  note wf = reachable_room_wf [OF r]
  have "lane_first_draw_seq r l \<noteq> Err err" for l err by (simp add: lane_first_draw_seq_def)
  then have "keyed_replay_row r row \<noteq> Err err" for row err
    using wf by (cases row) (auto simp: keyed_replay_row_def tryR_eq_Err lane_for_message_sound split: option.splits)
  then have "replay_steps r \<noteq> Err err" for err
    using transcript_steps_panics(2) [OF wf] by (auto simp: replay_steps_def tryR_eq_Err intro: collect_not_Err dest: collect_not_Err [THEN notE, rotated])
  moreover have "sort_steps ss \<noteq> Err err" for ss err by (simp add: sort_steps_def)
  ultimately have "from_reducer_with_motion env r motion \<noteq> Err err" for err
    using replay_rows_not_Err [OF wf] by (auto simp: from_reducer_with_motion_def tryR_eq_Err)
  with rebuild_panics_iff [OF r, of env motion] shape show ?thesis
    by (cases "from_reducer_with_motion env r motion") auto
qed

end
