(* ===== verification/Feed_Properties.thy ===== *)
theory Feed_Properties
  imports Feed_Rebuilt Room_Sample Pager_Sample
begin

section \<open>What the room's feed promises\<close>

text \<open>
  The properties of \<open>RoomScrollback\<close>, over the model of \<^theory_text>\<open>Room_Feed\<close> and \<^theory_text>\<open>Feed_Replay\<close>,
  each with its instance at a conversation of \<^theory_text>\<open>Room_Sample\<close> and a plain screen.
\<close>

definition plain_feed :: feed_env where
  "plain_feed =
     \<lparr>fe_console = plain_console, fe_room_time = Some, fe_span = (\<lambda>_ _. None), fe_elapsed = (\<lambda>_. None),
      fe_duration = show_nat, fe_glyph = (\<lambda>_. ''*''), fe_check = ''v'', fe_hop_marker = ''+'', fe_hop_arrow = ''>'',
      fe_up_arrow = ''^'', fe_ellipsis = ''...'', fe_spinner = (\<lambda>_. ''-''), fe_strip_ansi = id\<rparr>"

text \<open>The conversation \<open>hopping\<close>, cut right after the message was committed.\<close>

definition committing :: "room_event list" where
  "committing = take 4 hopping"

lemma committing_facts:
  "case apply_all (\<lambda>_. True) committing new_reducer of None \<Rightarrow> False | Some r \<Rightarrow>
     map_option ln_phase (lanes r ''l'') = Some Committed \<and> map_option ln_stream_id (lanes r ''l'') = Some None
     \<and> length (transcript r) = 2"
  unfolding committing_def hopping_def first_events_def new_reducer_def
  by (simp add: event_eval handler_eval)

lemma committing_accepted: "accepts committing"
  using committing_facts by (auto simp: accepts_def split: option.splits)

lemmas committed_room = committing_facts [unfolded room_after_run [OF committing_accepted] option.case]

text \<open>C37: while events arrive the feed never panics: whatever it shows, an event that the reducer of a
  reachable room accepts, repeats or refuses is drawn without a failing \<open>expect\<close>.\<close>

theorem live_feed_never_panics:
  "reachable rfc3339 r \<Longrightarrow> \<not> is_panic (apply_and_draw rfc3339 env e (r, fd))"
  by (rule apply_and_draw_calm)

theorem live_feed_never_panics_witness:
  "\<not> is_panic (apply_and_draw (\<lambda>_. True) plain_feed (sample_event ''5'' ''lane.completed''
      [(''agent'', JString ''claude''), (''laneId'', JString ''l'')]) (room_after committing, new_scrollback))"
  by (rule live_feed_never_panics [OF room_after_reachable [OF committing_accepted]])

text \<open>C38: rebuilding the feed from a reachable room panics exactly when a lane of the room has committed
  its message without ever starting and has not been completed yet.\<close>

theorem rebuild_panics_exactly:
  "reachable rfc3339 r \<Longrightarrow> is_panic (from_reducer_with_motion env r motion) \<longleftrightarrow>
     (\<exists>k l. lane r k = Some l \<and> ln_phase l = Committed \<and> ln_stream_id l = None)"
  using rebuild_panics_iff unfolding unstarted_commit_def by blast

theorem rebuild_panics_exactly_witness:
  "is_panic (from_reducer_with_motion plain_feed (room_after committing) False)"
proof -
  have "\<exists>k l. lane (room_after committing) k = Some l \<and> ln_phase l = Committed \<and> ln_stream_id l = None"
    using committed_room by (auto simp: lane_def intro!: exI [of _ "''l''"])
  then show ?thesis
    by (simp add: rebuild_panics_exactly [OF room_after_reachable [OF committing_accepted]])
qed

text \<open>C36: the feed mirrors the room for as long as it lives: from its rebuild on and through every event,
  tick and notice, each message of the transcript stands in a row of its own, word for word, and each lane
  that is running, cancelling, cancelled or failed shows the text of its stream so far, in a row that is no
  committed message's while the lane still runs.\<close>

theorem feed_mirrors_room:
  "feed_run rfc3339 env r fd \<Longrightarrow>
     (\<forall>entry \<in> set (transcript r). \<exists>i. fd_content_entries fd (tr_message_id entry) = Some i
        \<and> message_text (fd_state fd) i = Some (tr_text entry))
     \<and> inj_on (fd_content_entries fd) (dom (fd_content_entries fd))
     \<and> (\<forall>k l sid. lane r k = Some l \<longrightarrow> ln_phase l \<in> {Running, Cancelling, Cancelled, Failed} \<longrightarrow> ln_stream_id l = Some sid \<longrightarrow>
        (\<exists>b s. fd_stream_entries fd sid = Some b \<and> stream r sid = Some s
           \<and> message_text (fd_state fd) (bd_entry_id b) = Some (st_text s)
           \<and> (ln_phase l \<in> {Running, Cancelling} \<longrightarrow> bd_entry_id b \<notin> ran (fd_content_entries fd))))"
proof -
  assume "feed_run rfc3339 env r fd"
  then have run: "room_wf r" "mirrors r fd" using feed_run_mirrors reachable_room_wf by blast+
  show ?thesis
    using mirrors_messages [OF run(2)] feed_soundD(7) [OF mirrorsD(1) [OF run(2)]] mirrors_streams [OF run(2,1)]
    unfolding lane_def stream_def replay_stream_for_lane_def by auto
qed

lemma asking_lanes: "lane (room_after asking) k = Some l \<Longrightarrow> k = ''l'' \<and> ln_phase l = Running \<and> ln_stream_id l = Some ''x''"
proof -
  assume l: "lane (room_after asking) k = Some l"
  note wf = tables_okD(1) [OF room_wfD(1) [OF reachable_room_wf [OF room_after_reachable [OF conversations_accepted(1)]]]]
  have "set (lane_order (room_after asking)) = dom (lanes (room_after asking))" using wf by (simp add: well_ordered_def)
  moreover obtain j where "lane_order (room_after asking) = [j]" using asked_room by (auto simp: length_Suc_conv)
  ultimately have "x \<in> dom (lanes (room_after asking)) \<longleftrightarrow> x = j" for x by auto
  moreover have "''l'' \<in> dom (lanes (room_after asking))" "k \<in> dom (lanes (room_after asking))"
    using l asked_room by (auto simp: lane_def)
  ultimately have "k = ''l''" by metis
  with l asked_room show ?thesis by (simp add: lane_def)
qed

theorem feed_mirrors_room_witness:
  "\<exists>fd i. from_reducer_with_motion plain_feed (room_after asking) False = Ok fd \<and> message_text (fd_state fd) i = Some ''hi''"
proof -
  note r = room_after_reachable [OF conversations_accepted(1)]
  have "\<not> unstarted_commit (room_after asking)" using asking_lanes by (auto simp: unstarted_commit_def)
  then obtain fd where fd: "from_reducer_with_motion plain_feed (room_after asking) False = Ok fd"
    using rebuild_answers [OF r] by blast
  obtain l where l: "lane (room_after asking) ''l'' = Some l" using asked_room by (auto simp: lane_def)
  then have s: "ln_phase l \<in> {Running, Cancelling, Cancelled, Failed}" "ln_stream_id l = Some ''x''" using asking_lanes by auto
  obtain b s where "stream (room_after asking) ''x'' = Some s" "message_text (fd_state fd) (bd_entry_id (b :: stream_binding)) = Some (st_text s)"
    using feed_mirrors_room [OF feed_run.rebuilt [OF r fd], THEN conjunct2, THEN conjunct2, rule_format, OF l s] by blast
  with fd asked_room show ?thesis by (auto simp: stream_def)
qed

end
