(* ===== verification/Spec2Isabelle.thy ===== *)
theory Spec2Isabelle
  imports Room_Properties Room_Transport_Properties Host_Properties Launcher_Properties
    Pager_Properties Pager_View_Properties Feed_Properties
begin

text \<open>
  The room of m0irai: a verification development of its Rust side. Paths below are relative to
  \<open>src/rust/crates\<close>.

  \<^bold>\<open>The program.\<close> A conversation room has one human and several agents. A TypeScript host runs the
  agents and writes a journal of \<^emph>\<open>room events\<close> as JSON-RPC lines on its standard output. The Rust side
  reads those lines, keeps a copy of the room, and shows it in a terminal:

    \<^item> the crate \<open>zer0-room-protocol\<close> holds the event format and \<open>RoomReducer\<close>, the state machine that
      folds events into a room (turns, lanes, streams, hops between agents, permissions, transcript);
    \<^item> the crate \<open>zer0-v2-bin\<close> starts the host, cuts its output into lines, feeds them to \<open>RoomTransport\<close>
      (which waits for readiness, asks for the journal, buffers what arrives meanwhile, and then applies
      event after event), broadcasts what was applied, matches answers to requests, and shuts the host
      down; around it are the startup progress, the deadlines, the close-digest handoff, and the bridge
      \<open>pager_room.rs\<close> between the host and the terminal;
    \<^item> the crate \<open>codegen/xai-grok-pager\<close> is a fork of a terminal pager; its \<open>room_*\<close> files are the
      room's terminal: composer, menus, pickers, permission shelf, footer, history search, the panic
      button, and the feed of rows (\<open>RoomScrollback\<close>).

  An event flows from the host's output through the transport and its reducer to the broadcast, over the
  event pump into the terminal's own reducer, and from there into the feed. A key flows through one route
  to a command, over the command bridge to a request of the host; a cancel has a wire of its own.

  \<^bold>\<open>Conventions.\<close> A struct is a record whose fields carry a short prefix, an enum a datatype, a
  \<open>u64\<close> counter where wrap-around can matter a \<open>64 word\<close>. A Rust string is the list of its characters, or
  of the bytes of its UTF-8 form where the code counts bytes. \<open>Result\<close> is the datatype \<open>result\<close> of
  \<^theory_text>\<open>Room_Prelude\<close> with a third outcome, \<open>Panic\<close>, for a failed \<open>expect\<close>; a function with \<open>&mut self\<close>
  returns its outcome with the state it leaves, on every path. A \<open>Vec\<close> with an index map, and a map with
  a vector of keys, are the two containers of \<^theory_text>\<open>Room_Tables\<close>. A task of tokio is cut at the points where it
  waits, and the parts are interleaved in any order by an inductive relation; the waits of a shutdown are
  played out over a schedule of what the other tasks do and when. All definitions compute.

  \<^bold>\<open>Theories, in the order of the program.\<close>

  The protocol crate, \<open>zer0-room-protocol/src\<close>.
    \<^item> \<^theory_text>\<open>Room_Prelude\<close>: outcomes, the two readings of \<open>?\<close>, operations on text, shared hints;
      \<^theory_text>\<open>Room_Json\<close>: the accessors of \<open>serde_json::Value\<close>.
    \<^item> \<^theory_text>\<open>Room_Sequence\<close> (\<open>sequence.rs\<close>): cursors as decimal text of any length; the locale
      \<open>counter_format\<close> says what the rest needs of them.
    \<^item> \<^theory_text>\<open>Room_Event\<close> (\<open>event.rs\<close>), \<^theory_text>\<open>Room_JsonRpc\<close> (\<open>jsonrpc.rs\<close>): the envelopes, strict decoding,
      and \<open>validate\<close> with every payload check. \<^theory_text>\<open>Room_State\<close> (\<open>state.rs\<close>): the records of the room.
    \<^item> \<^theory_text>\<open>Room_Tables\<close>, \<^theory_text>\<open>Room_Reducer\<close>, \<^theory_text>\<open>Room_Handlers\<close> (\<open>reducer.rs\<close>): the containers with their
      contracts, accessors and payload readers, and one definition per handler; \<open>apply_event\<close> is \<open>apply\<close>.
    \<^item> \<^theory_text>\<open>Room_Atomic\<close> (a refused event changes nothing), \<^theory_text>\<open>Room_Steps\<close> (the abstract machine \<open>room_step\<close>
      that every accepted event refines), \<^theory_text>\<open>Room_Invariant\<close>, \<^theory_text>\<open>Room_Dialogue\<close>, \<^theory_text>\<open>Room_Turns\<close> (well-formedness of every
      reachable room), \<^theory_text>\<open>Room_Safety\<close> (no \<open>expect\<close> fails), \<^theory_text>\<open>Room_Runs\<close> and \<^theory_text>\<open>Room_Journal\<close> (runs of
      events, the locale \<open>event_journal\<close>), \<^theory_text>\<open>Room_Sample\<close> (two conversations used as instances),
      \<^theory_text>\<open>Room_Properties\<close>.

  The host crate, \<open>zer0-v2-bin/src\<close>.
    \<^item> \<^theory_text>\<open>Room_Transport\<close> (\<open>transport.rs\<close>) with \<^theory_text>\<open>Room_Merge\<close> (pages against the buffer),
      \<^theory_text>\<open>Room_Sync\<close> (each operation extends the journal by what it reports), \<^theory_text>\<open>Room_Delivery\<close> (whole runs
      and recovery), \<^theory_text>\<open>Room_Transport_Sample\<close>, \<^theory_text>\<open>Room_Transport_Properties\<close>.
    \<^item> \<^theory_text>\<open>Host_State\<close>, \<^theory_text>\<open>Host_Output\<close>, \<^theory_text>\<open>Client_Feed\<close>, \<^theory_text>\<open>Startup_Wait\<close> (\<open>host_process.rs\<close>, and the
      deadlines of \<open>cli.rs\<close>), \<^theory_text>\<open>Host_Shutdown\<close> (\<open>host_shutdown.rs\<close>, \<open>host_exit_words.rs\<close>),
      \<^theory_text>\<open>Boot_Progress\<close> (\<open>boot_progress.rs\<close>): what a host and its clients do; \<^theory_text>\<open>Host_Invariant\<close> and
      \<^theory_text>\<open>Host_Growth\<close> are about every interleaving (\<open>reachable_host\<close>), \<^theory_text>\<open>Host_Quit\<close> about a shutdown
      with what the other tasks do while it waits (\<open>others\<close>, \<open>run_until\<close>); \<^theory_text>\<open>Host_Sample\<close>,
      \<^theory_text>\<open>Host_Properties\<close>.
    \<^item> \<^theory_text>\<open>Digest_Handoff\<close> (\<open>digest_handoff.rs\<close>) on \<^theory_text>\<open>Rust_Text\<close>; \<^theory_text>\<open>Launcher_Properties\<close>.
    \<^item> \<^theory_text>\<open>Pager_Bridge\<close> (\<open>pager_room.rs\<close>): event pump, command bridge, cancel bridge.

  The terminal, \<open>codegen/xai-grok-pager/src\<close>.
    \<^item> \<^theory_text>\<open>Pager_Wire\<close>, \<^theory_text>\<open>Pager_Panic\<close>, \<^theory_text>\<open>Pager_Submit\<close>, \<^theory_text>\<open>Pager_Keys\<close>, \<^theory_text>\<open>Pager_Health\<close>
      (\<open>app/room_runtime.rs\<close>, with \<open>room_ctrl_c_gesture.rs\<close> and parts of \<open>room_view.rs\<close>): commands and
      updates, the \<open>Ctrl+C\<close> and \<open>Esc\<close> ladder, sending a line, the one route of a key, the footer.
    \<^item> \<^theory_text>\<open>Pager_Commands\<close> (\<open>app/room_runtime_commands.rs\<close>), \<^theory_text>\<open>Pager_Contracts\<close> (\<open>room_picker_contract.rs\<close>,
      \<open>room_agents.rs\<close>, the catalog of \<open>room_composer_menu.rs\<close>), \<^theory_text>\<open>Pager_Menu\<close> (\<open>room_composer_menu.rs\<close>),
      \<^theory_text>\<open>Pager_Picker\<close> (\<open>room_picker.rs\<close>), \<^theory_text>\<open>Pager_Permission\<close> (\<open>room_permission_view.rs\<close>),
      \<^theory_text>\<open>Pager_Restore\<close> (\<open>room_prompt_restore.rs\<close>, \<open>app/room_runtime_events.rs\<close>), \<^theory_text>\<open>Pager_Meters\<close>
      (\<open>app/room_usage_meters.rs\<close>), \<^theory_text>\<open>Pager_History\<close> (\<open>views/history_search.rs\<close>).
    \<^item> \<^theory_text>\<open>Pager_Feed\<close> (the pump next to a running host), \<^theory_text>\<open>Pager_Cancel\<close> (the panic button's whole way),
      \<^theory_text>\<open>Pager_Key_Effects\<close> (the contract \<open>key_handler\<close> of every owner of a key), \<^theory_text>\<open>Pager_Sample\<close>,
      \<^theory_text>\<open>Pager_Properties\<close>, \<^theory_text>\<open>Pager_View_Properties\<close>.
    \<^item> \<^theory_text>\<open>Steps_Block\<close> (\<open>room_steps_block.rs\<close>), \<^theory_text>\<open>Scroll_State\<close> (\<open>scrollback/state\<close>: which entries there
      are, in which order, with which content), \<^theory_text>\<open>Room_Scrollback\<close> and \<^theory_text>\<open>Room_Feed\<close>
      (\<open>room_scrollback.rs\<close> and \<open>room_scrollback/relocation.rs\<close>), \<^theory_text>\<open>Feed_Replay\<close> (the rebuild from a
      reducer): the rows of the room.
    \<^item> \<^theory_text>\<open>Feed_Safety\<close> (which \<open>expect\<close> of the feed can fail), \<^theory_text>\<open>Feed_Rows\<close>, \<^theory_text>\<open>Feed_Calm\<close> (the operations
      that leave messages alone), \<^theory_text>\<open>Feed_Mirror\<close>, \<^theory_text>\<open>Feed_Live\<close>, \<^theory_text>\<open>Feed_Writes\<close> (what is written
      for streams and transcript entries, and the invariant \<open>mirrors\<close>), \<^theory_text>\<open>Feed_Run\<close> (every event keeps
      it), \<^theory_text>\<open>Feed_Rebuilt\<close> (a rebuilt feed has it, and so has every \<open>feed_run\<close>), \<^theory_text>\<open>Feed_Properties\<close>.

  \<^bold>\<open>What is shown.\<close> The reducer refines an abstract machine, refuses without effect, never panics, and keeps
  the invariants of lanes, turns, hops, permissions and streams. The transport delivers the journal and
  nothing else, bounds its buffer, and repairs every gap whose events an answer holds. A running host, in
  every interleaving, broadcasts the journal, answers a request at most once, closes on a failure, ends a
  shutdown in time, and reports of it how the process ended. The terminal's reducer agrees with the host's, whatever the pump misses and
  recovers; what it says about a stopped agent is true; a key does at most one thing; a prompt comes
  back only when its turn was cancelled; the footer keeps what it must. The feed never stops a live room, and
  what it shows is what the room says: every message of the transcript word for word in a row of its own,
  every lane that is not over with its stream so far.

  \<^bold>\<open>Parameters.\<close> Code that is not in this repository is an argument of the definitions that use it: the
  parser of \<open>serde_json\<close>, the printed size of a value and serde's error text; chrono's reading of an
  RFC 3339 time; what files, child processes and clocks answer (nanoseconds in the host, milliseconds in
  the terminal); the pager's prompt widget (its text, and how a stash is restored); the matcher \<open>nucleo\<close>;
  the width of text, glyphs and number formats of the screen (\<open>console\<close>, \<open>footer_glyphs\<close>, \<open>feed_env\<close>).
  tokio's channels and broadcast are lists with their documented capacities. Where a property relies on
  documented behaviour of one of these, the hypothesis names it.

  \<^bold>\<open>Bounds.\<close> Those of the code, as constants of the model: 4096 events and 16 MiB in the transport's buffer,
  32 values in the broadcast, 4 asks on the cancel wire, 8 prompts that may come back, 100 entries and
  100 results of the history. A request counter of 64 bits is assumed not to come round (fewer than
  \<open>2 ^ 64\<close> requests of one host). No definition uses fuel: every loop is structural, or ends by a measure.

  \<^bold>\<open>What modelling showed.\<close> A completed turn can still grow: \<open>lane.queued\<close> does not look at \<open>completed_at\<close>,
  so a turn gains agent lanes for its hops after it was completed with every lane over. Rebuilding the feed
  from a snapshot panics for exactly one shape of room, which the reducer accepts and the live feed draws:
  a message committed by a lane that never started and has not ended. A quit during which the transport
  fails can report the timeout of its own question, which it is written never to do. The footer's memory
  of a spent account outlives the reset it should end at, and does not hold what a room opens with.

  \<^bold>\<open>Not modelled.\<close> Painting, layout, folding and scrolling of the terminal, its setup and render loop, mouse
  handling and the welcome card (they change no state that the modelled operations read); finding the
  node binary and spawning the child (calls of the operating system); the scheduler of tokio, for which
  the relations allow every order; the inherited pager outside the \<open>room_*\<close> files and its support crates;
  the TypeScript host, which is what the protocol side must not trust; vendored crates.
\<close>

end
